(* ===== verification/Go_Filepath.thy ===== *)
theory Go_Filepath
  imports Go_Prelude
begin

text \<open>
  Package \<^verbatim>\<open>path/filepath\<close> on Unix, as far as the permission gate uses it: \<^verbatim>\<open>Clean\<close>, \<^verbatim>\<open>Base\<close>,
  \<^verbatim>\<open>Dir\<close>, \<^verbatim>\<open>Join\<close>, \<^verbatim>\<open>IsAbs\<close> and \<^verbatim>\<open>Abs\<close>. The lemmas show that \<^verbatim>\<open>Clean\<close> yields a canonical form
  (it is idempotent, keeps absolute paths absolute, never lengthens a non-empty path) and that
  \<^verbatim>\<open>Dir\<close> makes progress, which is what the walk up the tree in \<^verbatim>\<open>resolveAncestors\<close> rests on.
\<close>

abbreviation sep :: char where
  "sep \<equiv> CHR ''/''"

section \<open>Clean\<close>

text \<open>One segment at a time: \<open>st\<close> is the output so far, latest segment first.\<close>

definition clean_step :: "bool \<Rightarrow> string list \<Rightarrow> string \<Rightarrow> string list" where
  "clean_step rooted st w =
     (if w = [] \<or> w = ''.'' then st
      else if w = ''..'' then
        (case st of
           [] \<Rightarrow> if rooted then [] else [w]
         | t # ts \<Rightarrow> if t = ''..'' then w # st else ts)
      else w # st)"

definition clean_segs :: "string \<Rightarrow> string list" where
  "clean_segs p = rev (foldl (clean_step (HasPrefix p [sep])) [] (Split p sep))"

definition Clean :: "string \<Rightarrow> string" where
  "Clean p =
     (let out = (if HasPrefix p [sep] then [sep] else []) @ Join (clean_segs p) [sep]
      in if out = [] then ''.'' else out)"

definition IsAbs :: "string \<Rightarrow> bool" where
  "IsAbs p \<longleftrightarrow> HasPrefix p [sep]"

fun filepath_Join :: "string list \<Rightarrow> string" where
  "filepath_Join [] = []"
| "filepath_Join (e # es) = (if e = [] then filepath_Join es else Clean (Join (e # es) [sep]))"

text \<open>\<^verbatim>\<open>Base\<close>: the last element, trailing slashes dropped.\<close>

definition Base :: "string \<Rightarrow> string" where
  "Base p =
     (if p = [] then ''.''
      else let q = rev (dropWhile (\<lambda>c. c = sep) (rev p));
               b = last (Split q sep)
           in if b = [] then [sep] else b)"

text \<open>\<^verbatim>\<open>Dir\<close>: everything up to and including the last separator, cleaned.\<close>

definition dir_prefix :: "string \<Rightarrow> string" where
  "dir_prefix p = (case LastIndexByte p sep of None \<Rightarrow> [] | Some i \<Rightarrow> take (Suc i) p)"

definition Dir :: "string \<Rightarrow> string" where
  "Dir p = Clean (dir_prefix p)"

text \<open>\<^verbatim>\<open>Abs\<close>: \<open>wd\<close> is what \<^verbatim>\<open>os.Getwd\<close> returns, \<open>None\<close> its error.\<close>

definition Abs :: "string option \<Rightarrow> string \<Rightarrow> string option" where
  "Abs wd p =
     (if IsAbs p then Some (Clean p)
      else (case wd of None \<Rightarrow> None | Some d \<Rightarrow> Some (filepath_Join [d, p])))"

section \<open>The shape of a cleaned path\<close>

text \<open>A stack (latest segment first) that \<^const>\<open>clean_step\<close> can have built.\<close>

definition good_seg :: "string \<Rightarrow> bool" where
  "good_seg w \<longleftrightarrow> w \<noteq> [] \<and> w \<noteq> ''.'' \<and> sep \<notin> set w"

fun good_stack :: "bool \<Rightarrow> string list \<Rightarrow> bool" where
  "good_stack rooted [] = True"
| "good_stack rooted (w # ws) =
     (good_seg w \<and> good_stack rooted ws \<and>
      (w = ''..'' \<longrightarrow> \<not> rooted \<and> list_all (\<lambda>v. v = ''..'') ws))"

lemma good_stack_dots: "good_stack False ws \<Longrightarrow> ws \<noteq> [] \<Longrightarrow> hd ws = ''..'' \<Longrightarrow> list_all (\<lambda>v. v = ''..'') ws"
  by (cases ws) auto

lemma good_stack_clean_step:
  "good_stack rooted st \<Longrightarrow> sep \<notin> set w \<Longrightarrow> good_stack rooted (clean_step rooted st w)"
  by (cases st) (auto simp: clean_step_def good_seg_def)

lemma good_stack_foldl:
  "good_stack rooted st \<Longrightarrow> \<forall>w \<in> set ws. sep \<notin> set w \<Longrightarrow>
   good_stack rooted (foldl (clean_step rooted) st ws)"
  by (induction ws arbitrary: st) (auto simp: good_stack_clean_step)

lemma good_stack_clean_segs: "good_stack (HasPrefix p [sep]) (rev (clean_segs p))"
  unfolding clean_segs_def by (simp add: good_stack_foldl Split_no_sep)

lemma good_stack_segs: "good_stack rooted ws \<Longrightarrow> w \<in> set ws \<Longrightarrow> good_seg w"
  by (induction ws) auto

lemma clean_segs_good: "w \<in> set (clean_segs p) \<Longrightarrow> good_seg w"
  using good_stack_segs [OF good_stack_clean_segs, of w p] by simp

lemma good_stack_suffix: "good_stack rooted (us @ ws) \<Longrightarrow> good_stack rooted ws"
  by (induction us) auto

lemma foldl_clean_good:
  "good_stack rooted (rev ws @ st) \<Longrightarrow> foldl (clean_step rooted) st ws = rev ws @ st"
proof (induction ws arbitrary: st)
  case (Cons w ws)
  have gw: "good_stack rooted (w # st)"
    using Cons.prems good_stack_suffix [of rooted "rev ws" "w # st"] by simp
  have "clean_step rooted st w = w # st"
    using gw by (cases st) (auto simp: clean_step_def good_seg_def)
  with Cons show ?case by simp
qed simp

lemma Join_segs_Nil: "\<forall>w \<in> set ws. good_seg w \<Longrightarrow> Join ws [sep] = [] \<longleftrightarrow> ws = []"
  by (induction ws rule: induct_list012) (auto simp: good_seg_def)

lemma Join_segs_hd: "\<forall>w \<in> set ws. good_seg w \<Longrightarrow> ws \<noteq> [] \<Longrightarrow> \<not> HasPrefix (Join ws [sep]) [sep]"
  by (induction ws rule: induct_list012)
    (auto simp: good_seg_def HasPrefix_singleton hd_append neq_Nil_conv)

lemma Split_Join_segs:
  "\<forall>w \<in> set ws. good_seg w \<Longrightarrow> ws \<noteq> [] \<Longrightarrow> Split (Join ws [sep]) sep = ws"
  by (rule Split_Join) (auto simp: good_seg_def)

lemma clean_segs_rooted:
  "clean_segs (sep # Join ws [sep]) = rev (foldl (clean_step True) [] (Split (Join ws [sep]) sep))"
  by (simp add: clean_segs_def HasPrefix_singleton clean_step_def)

lemma Clean_rooted: "HasPrefix p [sep] \<Longrightarrow> Clean p = sep # Join (clean_segs p) [sep]"
  by (simp add: Clean_def)

lemma Clean_relative:
  "\<not> HasPrefix p [sep] \<Longrightarrow> Clean p = (if clean_segs p = [] then ''.'' else Join (clean_segs p) [sep])"
  by (simp add: Clean_def Join_segs_Nil clean_segs_good)

lemma Split_single [simp]: "Split [] c = [[]]"
  by simp

lemma clean_segs_Clean_rooted:
  assumes "HasPrefix p [sep]"
  shows "clean_segs (Clean p) = clean_segs p"
proof (cases "clean_segs p = []")
  case True
  with assms show ?thesis
    by (simp add: Clean_rooted clean_segs_def HasPrefix_singleton clean_step_def)
next
  case False
  have "good_stack True (rev (clean_segs p))"
    using good_stack_clean_segs [of p] assms by simp
  then have "foldl (clean_step True) [] (clean_segs p) = rev (clean_segs p)"
    using foldl_clean_good [of True "clean_segs p" "[]"] by simp
  with False assms show ?thesis
    by (simp add: Clean_rooted clean_segs_rooted Split_Join_segs clean_segs_good)
qed

lemma clean_segs_Clean_relative:
  assumes "\<not> HasPrefix p [sep]"
  shows "clean_segs (Clean p) = clean_segs p"
proof (cases "clean_segs p = []")
  case True
  with assms show ?thesis
    by (simp add: Clean_relative) (simp add: clean_segs_def HasPrefix_singleton clean_step_def)
next
  case False
  have "\<not> HasPrefix (Join (clean_segs p) [sep]) [sep]"
    using False by (intro Join_segs_hd) (auto simp: clean_segs_good)
  moreover have "foldl (clean_step False) [] (clean_segs p) = rev (clean_segs p)"
    using good_stack_clean_segs [of p] assms foldl_clean_good [of False "clean_segs p" "[]"] by simp
  ultimately show ?thesis
    using False assms
    by (simp add: Clean_relative clean_segs_def [of "Join (clean_segs p) [sep]"] Split_Join_segs
        clean_segs_good)
qed

lemma HasPrefix_Clean: "HasPrefix (Clean p) [sep] \<longleftrightarrow> HasPrefix p [sep]"
proof (cases "HasPrefix p [sep]")
  case True
  then show ?thesis by (simp add: Clean_rooted HasPrefix_singleton)
next
  case False
  then show ?thesis
    using Join_segs_hd [of "clean_segs p"]
    by (auto simp: Clean_relative clean_segs_good HasPrefix_singleton)
qed

lemma IsAbs_Clean [simp]: "IsAbs (Clean p) \<longleftrightarrow> IsAbs p"
  by (simp add: IsAbs_def HasPrefix_Clean)

theorem Clean_idem [simp]: "Clean (Clean p) = Clean p"
proof (cases "HasPrefix p [sep]")
  case True
  then show ?thesis
    by (simp add: Clean_rooted [of "Clean p"] HasPrefix_Clean clean_segs_Clean_rooted)
       (simp add: Clean_rooted)
next
  case False
  then show ?thesis
    by (simp add: Clean_relative [of "Clean p"] HasPrefix_Clean clean_segs_Clean_relative)
       (simp add: Clean_relative)
qed

lemma Clean_not_Nil [simp]: "Clean p \<noteq> []"
  by (simp add: Clean_def Let_def)

lemma Clean_Nil [simp]: "Clean [] = ''.''"
  by (simp add: Clean_def clean_segs_def HasPrefix_singleton clean_step_def)

section \<open>Cleaning never lengthens a path\<close>

lemma clean_step_weight: "seg_weight (clean_step rooted st w) \<le> Suc (length w) + seg_weight st"
  by (cases st) (auto simp: clean_step_def)

lemma clean_step_weight_Nil: "clean_step rooted st [] = st"
  by (simp add: clean_step_def)

lemma foldl_clean_weight:
  "seg_weight (foldl (clean_step rooted) st ws) \<le> seg_weight ws + seg_weight st"
proof (induction ws arbitrary: st)
  case (Cons w ws)
  have "seg_weight (foldl (clean_step rooted) (clean_step rooted st w) ws)
          \<le> seg_weight ws + seg_weight (clean_step rooted st w)"
    by (rule Cons.IH)
  with clean_step_weight [of rooted st w] show ?case by simp
qed simp

lemma seg_weight_rev [simp]: "seg_weight (rev ws) = seg_weight ws"
  by (induction ws) auto

lemma clean_segs_weight: "seg_weight (clean_segs p) \<le> Suc (length p)"
  using foldl_clean_weight [of "HasPrefix p [sep]" "[]" "Split p sep"]
  by (simp add: clean_segs_def seg_weight_Split)

lemma clean_segs_weight_rooted:
  assumes "HasPrefix p [sep]"
  shows "seg_weight (clean_segs p) \<le> length p"
proof -
  from assms obtain q where p: "p = sep # q" by (auto simp: HasPrefix_iff)
  then show ?thesis
    using foldl_clean_weight [of True "[]" "Split q sep"]
    by (simp add: clean_segs_def HasPrefix_singleton clean_step_weight_Nil seg_weight_Split)
qed

lemma Split_snoc: "Split (q @ [c]) c = Split q c @ [[]]"
  by (induction q c rule: Split.induct) (auto split: list.splits)

lemma clean_segs_snoc_sep:
  "q \<noteq> [] \<Longrightarrow> clean_segs (q @ [sep]) = clean_segs q"
  by (simp add: clean_segs_def Split_snoc clean_step_weight_Nil HasPrefix_singleton hd_append)

lemma Clean_snoc_sep: "q \<noteq> [] \<Longrightarrow> Clean (q @ [sep]) = Clean q"
  by (simp add: Clean_def clean_segs_snoc_sep HasPrefix_singleton hd_append)

lemma length_Clean: "p \<noteq> [] \<Longrightarrow> length (Clean p) \<le> length p"
proof (cases "HasPrefix p [sep]")
  case True
  then show ?thesis
    using clean_segs_weight_rooted [OF True] length_Join [of "clean_segs p" sep]
    by (cases "clean_segs p = []") (auto simp: Clean_rooted HasPrefix_singleton neq_Nil_conv)
next
  case False
  assume "p \<noteq> []"
  with False show ?thesis
    using clean_segs_weight [of p] length_Join [of "clean_segs p" sep]
    by (cases "clean_segs p = []") (auto simp: Clean_relative neq_Nil_conv)
qed

section \<open>Dir makes progress\<close>

text \<open>
  The measure of the walk up the tree. \<open>Dir ''''\<close> is \<open>''.''\<close> and \<open>Dir\<close> of a single segment is
  \<open>''.''\<close>, which is its own parent, so those two get weights of their own.
\<close>

definition dir_measure :: "string \<Rightarrow> nat" where
  "dir_measure p = (if p = [] then 3 else if p = ''.'' then 0 else length p)"

lemma dir_prefix_cases:
  "dir_prefix p = [] \<or> (\<exists>q. dir_prefix p = q @ [sep] \<and> length q < length p \<and> take (Suc (length q)) p = q @ [sep])"
proof (cases "LastIndexByte p sep")
  case (Some i)
  then have "i < length p" "p ! i = sep" using LastIndexByte_Some by auto
  then have "dir_prefix p = take i p @ [sep]" and "length (take i p) = i"
    using Some by (simp_all add: dir_prefix_def take_Suc_conv_app_nth)
  then show ?thesis using \<open>i < length p\<close> Some by (auto simp: dir_prefix_def)
qed (simp add: dir_prefix_def)

lemma Dir_progress: "Dir p \<noteq> p \<Longrightarrow> dir_measure (Dir p) < dir_measure p"
proof -
  assume neq: "Dir p \<noteq> p"
  from dir_prefix_cases [of p] show ?thesis
  proof
    assume "dir_prefix p = []"
    then have "Dir p = ''.''" by (simp add: Dir_def)
    with neq show ?thesis by (auto simp: dir_measure_def)
  next
    assume "\<exists>q. dir_prefix p = q @ [sep] \<and> length q < length p \<and> take (Suc (length q)) p = q @ [sep]"
    then obtain q where q: "dir_prefix p = q @ [sep]" "length q < length p"
        "take (Suc (length q)) p = q @ [sep]" by blast
    have "p \<noteq> []" using q(2) by auto
    show ?thesis
    proof (cases "q = []")
      case True
      have root: "Clean [sep] = [sep]"
        by (simp add: Clean_def clean_segs_def HasPrefix_singleton clean_step_def)
      with True q have D: "Dir p = [sep]" by (simp add: Dir_def)
      with neq \<open>p \<noteq> []\<close> have "length p \<noteq> 1"
        using q(3) True by (cases p) auto
      moreover have "p \<noteq> ''.''" using q(3) True by auto
      ultimately show ?thesis
        using D \<open>p \<noteq> []\<close> by (cases p) (auto simp: dir_measure_def)
    next
      case False
      then have D: "Dir p = Clean q" by (simp add: Dir_def q(1) Clean_snoc_sep)
      have "length (Clean q) \<le> length q" using False by (rule length_Clean)
      moreover have "p \<noteq> ''.''" using q(2) False by (auto simp: length_Suc_conv)
      ultimately show ?thesis
        using D q(2) \<open>p \<noteq> []\<close> Clean_not_Nil [of q] by (auto simp: dir_measure_def)
    qed
  qed
qed

lemma IsAbs_Dir: "IsAbs p \<Longrightarrow> IsAbs (Dir p)"
proof -
  assume "IsAbs p"
  then obtain r where p: "p = sep # r" by (auto simp: IsAbs_def HasPrefix_iff)
  then obtain i where "LastIndexByte p sep = Some i"
    using LastIndexByte_None [of p sep] by (cases "LastIndexByte p sep") auto
  then have "HasPrefix (dir_prefix p) [sep]"
    by (simp add: dir_prefix_def p HasPrefix_singleton)
  then show ?thesis by (simp add: Dir_def IsAbs_def HasPrefix_Clean)
qed

section \<open>Join\<close>

lemma filepath_Join_nonempty: "e \<noteq> [] \<Longrightarrow> filepath_Join (e # es) = Clean (Join (e # es) [sep])"
  by simp

lemma Clean_filepath_Join: "e \<noteq> [] \<Longrightarrow> Clean (filepath_Join (e # es)) = filepath_Join (e # es)"
  by simp

lemma IsAbs_append: "p \<noteq> [] \<Longrightarrow> IsAbs (p @ q) \<longleftrightarrow> IsAbs p"
  by (simp add: IsAbs_def HasPrefix_singleton hd_append)

lemma IsAbs_filepath_Join: "IsAbs d \<Longrightarrow> IsAbs (filepath_Join (d # es))"
proof -
  assume abs: "IsAbs d"
  then have "d \<noteq> []" by (auto simp: IsAbs_def HasPrefix_singleton)
  with abs show ?thesis by (cases es) (simp_all add: IsAbs_append)
qed

section \<open>Absolute clean paths as lists of segments\<close>

text \<open>
  An absolute clean path is \<open>abs_path ws\<close> for a list \<open>ws\<close> of proper names: no empty segment, no
  \<open>.\<close> and no \<open>..\<close>.
\<close>

definition abs_path :: "string list \<Rightarrow> string" where
  "abs_path ws = sep # Join ws [sep]"

definition name_seg :: "string \<Rightarrow> bool" where
  "name_seg w \<longleftrightarrow> good_seg w \<and> w \<noteq> ''..''"

abbreviation name_segs :: "string list \<Rightarrow> bool" where
  "name_segs ws \<equiv> (\<forall>w \<in> set ws. name_seg w)"

definition clean_abs :: "string \<Rightarrow> bool" where
  "clean_abs p \<longleftrightarrow> IsAbs p \<and> Clean p = p"

lemma name_segs_good: "name_segs ws \<Longrightarrow> \<forall>w \<in> set ws. good_seg w"
  by (simp add: name_seg_def)

lemma good_stack_names: "good_stack True ws \<longleftrightarrow> name_segs ws"
  by (induction ws) (auto simp: name_seg_def)

lemma HasPrefix_abs_path [simp]: "HasPrefix (abs_path ws) [sep]"
  by (simp add: abs_path_def HasPrefix_singleton)

lemma IsAbs_abs_path [simp]: "IsAbs (abs_path ws)"
  by (simp add: IsAbs_def)

lemma clean_segs_abs_path:
  assumes "name_segs ws"
  shows "clean_segs (abs_path ws) = ws"
proof (cases "ws = []")
  case True
  then show ?thesis
    by (simp add: abs_path_def clean_segs_def HasPrefix_singleton clean_step_def)
next
  case False
  have "foldl (clean_step True) [] ws = rev ws"
    using foldl_clean_good [of True ws "[]"] assms by (simp add: good_stack_names)
  then show ?thesis
    using False assms Split_Join_segs [OF name_segs_good]
    by (simp add: abs_path_def clean_segs_rooted)
qed

lemma Clean_abs_path: "name_segs ws \<Longrightarrow> Clean (abs_path ws) = abs_path ws"
  by (simp add: Clean_rooted clean_segs_abs_path) (simp add: abs_path_def)

lemma clean_abs_abs_path: "name_segs ws \<Longrightarrow> clean_abs (abs_path ws)"
  by (simp add: clean_abs_def Clean_abs_path)

lemma clean_absE:
  assumes "clean_abs p"
  obtains ws where "p = abs_path ws" and "name_segs ws"
proof
  have rooted: "HasPrefix p [sep]" and "Clean p = p"
    using assms by (simp_all add: clean_abs_def IsAbs_def)
  then show "p = abs_path (clean_segs p)"
    by (metis Clean_rooted abs_path_def)
  show "name_segs (clean_segs p)"
    using good_stack_clean_segs [of p] rooted by (simp add: good_stack_names)
qed

lemma abs_path_inject: "name_segs us \<Longrightarrow> name_segs ws \<Longrightarrow> abs_path us = abs_path ws \<longleftrightarrow> us = ws"
  by (metis clean_segs_abs_path)

lemma Join_snoc: "ws \<noteq> [] \<Longrightarrow> Join (ws @ [w]) s = Join ws s @ s @ w"
  by (induction ws rule: list_nonempty_induct) (simp_all add: Join_Cons)

lemma LastIndexByte_snoc: "c \<notin> set w \<Longrightarrow> LastIndexByte (p @ c # w) c = Some (length p)"
  by (induction p) (auto simp: LastIndexByte_None split: option.splits)

lemma Dir_abs_path:
  assumes "name_segs ws" and "name_seg w"
  shows "Dir (abs_path (ws @ [w])) = abs_path ws"
proof (cases "ws = []")
  case True
  have "LastIndexByte (sep # w) sep = Some 0"
    using assms LastIndexByte_snoc [of sep w "[]"] by (simp add: name_seg_def good_seg_def)
  moreover have "Clean [sep] = [sep]"
    using Clean_abs_path [of "[]"] by (simp add: abs_path_def)
  ultimately show ?thesis
    using True by (simp add: Dir_def dir_prefix_def abs_path_def)
next
  case False
  have "LastIndexByte ((sep # Join ws [sep]) @ sep # w) sep = Some (length (sep # Join ws [sep]))"
    using assms by (intro LastIndexByte_snoc) (simp add: name_seg_def good_seg_def)
  then have "dir_prefix (abs_path (ws @ [w])) = abs_path ws @ [sep]"
    using False by (simp add: dir_prefix_def abs_path_def Join_snoc)
  moreover have "abs_path ws \<noteq> []" by (simp add: abs_path_def)
  ultimately show ?thesis
    using assms by (simp add: Dir_def Clean_snoc_sep Clean_abs_path)
qed

lemma Split_abs_path: "name_segs ws \<Longrightarrow> ws \<noteq> [] \<Longrightarrow> Split (abs_path ws) sep = [] # ws"
  using Split_Join_segs [OF name_segs_good] by (simp add: abs_path_def)

lemma last_abs_path: "name_segs (ws @ [w]) \<Longrightarrow> last (abs_path (ws @ [w])) \<noteq> sep"
proof -
  assume n: "name_segs (ws @ [w])"
  then have w: "w \<noteq> []" "sep \<notin> set w"
    by (simp_all add: name_seg_def good_seg_def)
  moreover from w have "last w \<noteq> sep" using last_in_set by metis
  ultimately show ?thesis
    by (cases "ws = []") (simp_all add: abs_path_def Join_snoc)
qed

lemma Base_abs_path:
  assumes "name_segs (ws @ [w])"
  shows "Base (abs_path (ws @ [w])) = w"
proof -
  let ?p = "abs_path (ws @ [w])"
  have "?p \<noteq> []" by (simp add: abs_path_def)
  moreover have "hd (rev ?p) \<noteq> sep"
    using last_abs_path [OF assms] by (simp only: hd_rev) simp
  ultimately have "dropWhile (\<lambda>c. c = sep) (rev ?p) = rev ?p"
    by (cases "rev ?p") auto
  moreover have "last (Split ?p sep) = w"
    using Split_abs_path [OF assms] by simp
  moreover have "w \<noteq> []"
    using assms by (simp add: name_seg_def good_seg_def)
  ultimately show ?thesis
    using \<open>?p \<noteq> []\<close> by (simp add: Base_def)
qed

lemma Split_append_sep: "Split (p @ c # q) c = Split p c @ Split q c"
  by (induction p c rule: Split.induct) (auto split: list.splits)

lemma filepath_Join_abs_path:
  assumes "name_segs ws" and "name_seg w"
  shows "filepath_Join [abs_path ws, w] = abs_path (ws @ [w])"
proof -
  have w: "sep \<notin> set w" using assms by (simp add: name_seg_def good_seg_def)
  have "clean_segs (abs_path ws @ sep # w) = ws @ [w]"
  proof -
    have "foldl (clean_step True) [] (Split (abs_path ws) sep) = rev ws"
      using clean_segs_abs_path [OF assms(1)] by (simp add: clean_segs_def rev_swap)
    moreover have "clean_step True (rev ws) w = w # rev ws"
      using assms(2) by (simp add: clean_step_def name_seg_def good_seg_def)
    ultimately show ?thesis
      by (simp add: clean_segs_def Split_append_sep Split_free [OF w] HasPrefix_singleton hd_append abs_path_def)
  qed
  then have "Clean (abs_path ws @ sep # w) = abs_path (ws @ [w])"
    by (simp add: Clean_rooted HasPrefix_singleton hd_append abs_path_def)
  then show ?thesis by (simp add: abs_path_def)
qed

lemma Dir_root [simp]: "Dir (abs_path []) = abs_path []"
  using Clean_abs_path [of "[]"] by (simp add: Dir_def dir_prefix_def abs_path_def)

lemma clean_abs_Clean: "IsAbs p \<Longrightarrow> clean_abs (Clean p)"
  by (simp add: clean_abs_def)

lemma clean_abs_Dir: "clean_abs p \<Longrightarrow> clean_abs (Dir p)"
  by (simp add: clean_abs_def IsAbs_Dir) (simp add: Dir_def)

declare filepath_Join.simps [simp del]

end
