(* ===== verification/Perm_Types.thy ===== *)
theory Perm_Types
  imports Go_Filepath
begin

text \<open>
  The data model of the permission gate, \<^verbatim>\<open>src/pkg/permission/types.go\<close>, and the part of the
  operating system it consults. \<^verbatim>\<open>Mode\<close>, \<^verbatim>\<open>RuleScope\<close> and \<^verbatim>\<open>Action\<close> are open string types in the
  source (a rule loaded from \<^verbatim>\<open>permissions.json\<close> may carry any string), so they are strings here,
  with the source's constants as definitions. The texts of a refusal are the constructors of
  \<open>reason\<close>: one per message of the source, with the values the message interpolates.
\<close>

section \<open>The operating system as the gate sees it\<close>

datatype goos = Linux | Darwin | Windows

text \<open>
  \<open>env_wd\<close> is \<^verbatim>\<open>os.Getwd\<close>, \<open>env_eval\<close> is \<^verbatim>\<open>filepath.EvalSymlinks\<close> (\<open>None\<close> where the path does
  not exist), \<open>env_regular\<close> holds where \<^verbatim>\<open>os.Lstat\<close> finds a regular file and \<open>env_home\<close> is
  \<^verbatim>\<open>os.UserHomeDir\<close> (the empty string on error).
\<close>

record os_env =
  env_goos :: goos
  env_wd :: "string option"
  env_eval :: "string \<Rightarrow> string option"
  env_regular :: "string \<Rightarrow> bool"
  env_home :: string

section \<open>Modes, scopes, actions\<close>

type_synonym mode = string
type_synonym rule_scope = string
type_synonym action = string

definition ModeRead :: mode where "ModeRead = ''r''"
definition ModeWrite :: mode where "ModeWrite = ''w''"
definition ModeReadWrite :: mode where "ModeReadWrite = ''rw''"
definition ModeExec :: mode where "ModeExec = ''x''"
definition ModeDeny :: mode where "ModeDeny = ''deny''"

definition ScopePermanent :: rule_scope where "ScopePermanent = ''permanent''"
definition ScopeSession :: rule_scope where "ScopeSession = ''session''"
definition ScopeHardlock :: rule_scope where "ScopeHardlock = ''hardlock''"

definition ActionAllow :: action where "ActionAllow = ''allow''"
definition ActionDeny :: action where "ActionDeny = ''deny''"
definition ActionAsk :: action where "ActionAsk = ''ask''"
definition ActionWarn :: action where "ActionWarn = ''warn''"

definition Allows :: "mode \<Rightarrow> mode \<Rightarrow> bool" where
  "Allows granted requested =
     (if granted = ModeReadWrite
      then requested = ModeRead \<or> requested = ModeWrite \<or> requested = ModeReadWrite
      else granted = requested)"

section \<open>Rules, snapshots, requests, decisions\<close>

record rule =
  r_Path :: string
  r_Mode :: mode
  r_Scope :: rule_scope
  r_GrantedAt :: gotime
  r_ExpiresAt :: gotime
  r_SessionID :: string
  r_Note :: string

text \<open>A composite literal \<^verbatim>\<open>Rule{...}\<close> leaves every field it does not name at its zero value.\<close>

definition zero_rule :: rule where
  "zero_rule = \<lparr>r_Path = [], r_Mode = [], r_Scope = [], r_GrantedAt = 0, r_ExpiresAt = 0,
                r_SessionID = [], r_Note = []\<rparr>"

record command_policy =
  cp_Deny :: "string list"
  cp_Warn :: "string list"

record snapshot =
  sn_Version :: int
  sn_User :: string
  sn_WorkDir :: string
  sn_Rules :: "rule list"
  sn_SessionGrants :: "rule list"
  sn_CommandPolicy :: command_policy
  sn_UpdatedAt :: gotime

record request =
  rq_Path :: string
  rq_Mode :: mode
  rq_Caller :: string
  rq_SessionID :: string

datatype reason =
    NoReason
  | EmptyPath
  | HardLocked string
  | Protected string
  | PromptFailed string
  | DeniedByUser string
  | PromptTimedOut string
  | UnknownResponse string
  | UnusableAnswer
  | PtyPromptFailed string
  | PtyDenied
  | PtyTimedOut
  | CommandDenied string string
  | CommandOnDenyList string
  | MatchedToken string
  | AuditOnlyDenyToken

record decision =
  d_Action :: action
  d_Reason :: reason
  d_ModelReason :: reason

definition Explanation :: "decision \<Rightarrow> reason" where
  "Explanation d = (if d_ModelReason d \<noteq> NoReason then d_ModelReason d else d_Reason d)"

text \<open>The constants of \<^verbatim>\<open>PromptResponse\<close>, and any other string a notifier might return.\<close>

datatype prompt_response =
    PromptAllowOnce
  | PromptAllowSession
  | PromptAllowPermanent
  | PromptDeny
  | PromptTimeout
  | PromptOther string

abbreviation allow_decision :: decision where
  "allow_decision \<equiv> \<lparr>d_Action = ActionAllow, d_Reason = NoReason, d_ModelReason = NoReason\<rparr>"

abbreviation deny_decision :: "reason \<Rightarrow> reason \<Rightarrow> decision" where
  "deny_decision why model \<equiv> \<lparr>d_Action = ActionDeny, d_Reason = why, d_ModelReason = model\<rparr>"

section \<open>The constants are distinct\<close>

lemmas mode_defs = ModeRead_def ModeWrite_def ModeReadWrite_def ModeExec_def ModeDeny_def
lemmas scope_defs = ScopePermanent_def ScopeSession_def ScopeHardlock_def
lemmas action_defs = ActionAllow_def ActionDeny_def ActionAsk_def ActionWarn_def

lemma mode_distinct [simp]:
  "ModeRead \<noteq> ModeWrite" "ModeRead \<noteq> ModeReadWrite" "ModeRead \<noteq> ModeExec" "ModeRead \<noteq> ModeDeny"
  "ModeWrite \<noteq> ModeRead" "ModeWrite \<noteq> ModeReadWrite" "ModeWrite \<noteq> ModeExec" "ModeWrite \<noteq> ModeDeny"
  "ModeReadWrite \<noteq> ModeRead" "ModeReadWrite \<noteq> ModeWrite" "ModeReadWrite \<noteq> ModeExec"
  "ModeReadWrite \<noteq> ModeDeny" "ModeExec \<noteq> ModeRead" "ModeExec \<noteq> ModeWrite"
  "ModeExec \<noteq> ModeReadWrite" "ModeExec \<noteq> ModeDeny" "ModeDeny \<noteq> ModeRead" "ModeDeny \<noteq> ModeWrite"
  "ModeDeny \<noteq> ModeReadWrite" "ModeDeny \<noteq> ModeExec"
  by (simp_all add: mode_defs)

lemma scope_distinct [simp]:
  "ScopePermanent \<noteq> ScopeSession" "ScopePermanent \<noteq> ScopeHardlock" "ScopeSession \<noteq> ScopePermanent"
  "ScopeSession \<noteq> ScopeHardlock" "ScopeHardlock \<noteq> ScopePermanent" "ScopeHardlock \<noteq> ScopeSession"
  by (simp_all add: scope_defs)

lemma action_distinct [simp]:
  "ActionAllow \<noteq> ActionDeny" "ActionAllow \<noteq> ActionAsk" "ActionAllow \<noteq> ActionWarn"
  "ActionDeny \<noteq> ActionAllow" "ActionDeny \<noteq> ActionAsk" "ActionDeny \<noteq> ActionWarn"
  by (simp_all add: action_defs)

section \<open>Lemmas on modes\<close>

lemma Allows_refl [simp]: "Allows m m"
  by (simp add: Allows_def)

lemma Allows_trans: "Allows a b \<Longrightarrow> Allows b c \<Longrightarrow> Allows a c"
  by (auto simp: Allows_def split: if_splits)

lemma Allows_rw: "Allows ModeReadWrite m \<longleftrightarrow> m \<in> {ModeRead, ModeWrite, ModeReadWrite}"
  by (auto simp: Allows_def)

end
