(* ===== verification/Perm_Command.thy ===== *)
theory Perm_Command
  imports Perm_Types
begin

text \<open>
  The command policy, \<^verbatim>\<open>src/pkg/permission/policy.go\<close>: the tokenizer of submitted code, the
  normalisation of command names and the scan against the deny and warn lists. The lemmas relate
  the tokenizer to a split at separator characters and the scan to its specification: the first
  denied token stops it, and every warned token before that point is reported.
\<close>

record command_hit =
  ch_Token :: string
  ch_Command :: string
  ch_Action :: action

section \<open>Definitions\<close>

text \<open>The separators of \<^verbatim>\<open>tokenize\<close>: space, tab, CR, LF and the shell punctuation.\<close>

definition cmd_seps :: string where
  "cmd_seps = [CHR '' '', CHR 0x09, CHR 0x0D, CHR 0x0A, CHR '';'', CHR ''|'', CHR ''&'', CHR ''<'',
               CHR ''>'', CHR ''('', CHR '')'', CHR 0x60, CHR 0x22, CHR 0x27]"

text \<open>\<open>flush\<close> of the source: the current token joins the output unless it is empty.\<close>

definition flush_token :: "string \<Rightarrow> string list \<Rightarrow> string list" where
  "flush_token cur out = (if cur \<noteq> [] then out @ [cur] else out)"

fun tokenize_loop :: "string \<Rightarrow> string \<Rightarrow> string list \<Rightarrow> string list" where
  "tokenize_loop [] cur out = flush_token cur out"
| "tokenize_loop (r # rs) cur out =
     (if r \<in> set cmd_seps then tokenize_loop rs [] (flush_token cur out)
      else tokenize_loop rs (cur @ [r]) out)"

definition tokenize :: "string \<Rightarrow> string list" where
  "tokenize code = tokenize_loop code [] []"

definition normalizeCommandName :: "goos \<Rightarrow> string \<Rightarrow> string" where
  "normalizeCommandName os s =
     (let s1 = TrimPrefix s [CHR ''.'', CHR 0x5C];
          s2 = TrimPrefix s1 ''./'';
          s3 = (if HasSuffix (ToLower s2) ''.exe'' then take (length s2 - 4) s2 else s2)
      in if os = Windows then ToLower s3 else s3)"

text \<open>The loop over the tokens: the warnings collected so far and the first denial.\<close>

fun scan_tokens ::
  "goos \<Rightarrow> string set \<Rightarrow> string set \<Rightarrow> string list \<Rightarrow> command_hit list \<Rightarrow>
   command_hit list \<times> command_hit option" where
  "scan_tokens os denySet warnSet [] warns = (warns, None)"
| "scan_tokens os denySet warnSet (tok # toks) warns =
     (let name = normalizeCommandName os (Base tok)
      in if name \<in> denySet
         then (warns, Some \<lparr>ch_Token = tok, ch_Command = name, ch_Action = ActionDeny\<rparr>)
         else if name \<in> warnSet
         then scan_tokens os denySet warnSet toks
                (warns @ [\<lparr>ch_Token = tok, ch_Command = name, ch_Action = ActionWarn\<rparr>])
         else scan_tokens os denySet warnSet toks warns)"

definition CheckCommandPolicy ::
  "goos \<Rightarrow> command_policy \<Rightarrow> string \<Rightarrow> command_hit list \<times> command_hit option" where
  "CheckCommandPolicy os policy code =
     (if code = [] then ([], None)
      else let tokens = tokenize code in
        if tokens = [] then ([], None)
        else scan_tokens os (normalizeCommandName os ` set (cp_Deny policy))
               (normalizeCommandName os ` set (cp_Warn policy)) tokens [])"

definition DefaultCommandPolicy :: command_policy where
  "DefaultCommandPolicy =
     \<lparr>cp_Deny = [''scp'', ''rsync'', ''sftp'',
                 ''nc'', ''ncat'', ''socat'',
                 ''ssh-keygen'', ''ssh-add'',
                 ''launchctl'', ''crontab'', ''schtasks'', ''systemctl'',
                 ''sudo'', ''doas'', ''su'',
                 ''diskutil'', ''dd'', ''mkfs'',
                 ''sandrpod-tray''],
      cp_Warn = [''curl'', ''wget'', ''osascript'']\<rparr>"

section \<open>The tokenizer splits at separators\<close>

text \<open>Reference definition: cut the code at every separator and drop the empty pieces.\<close>

fun split_seps :: "string \<Rightarrow> string list" where
  "split_seps [] = [[]]"
| "split_seps (x # xs) =
     (if x \<in> set cmd_seps then [] # split_seps xs
      else (x # hd (split_seps xs)) # tl (split_seps xs))"

lemma split_seps_not_Nil [simp]: "split_seps s \<noteq> []"
  by (cases s) auto

lemma tokenize_loop_split:
  "tokenize_loop code cur out =
     out @ filter (\<lambda>w. w \<noteq> []) ((cur @ hd (split_seps code)) # tl (split_seps code))"
proof (induction code arbitrary: cur out)
  case (Cons r rs)
  obtain w ws where w: "split_seps rs = w # ws"
    by (meson split_seps_not_Nil neq_Nil_conv)
  show ?case
  proof (cases "r \<in> set cmd_seps")
    case True
    then show ?thesis by (simp add: Cons.IH w flush_token_def)
  next
    case False
    then show ?thesis by (simp add: Cons.IH w)
  qed
qed (simp add: flush_token_def)

lemma tokenize_split_seps: "tokenize code = filter (\<lambda>w. w \<noteq> []) (split_seps code)"
proof -
  obtain w ws where "split_seps code = w # ws" by (meson split_seps_not_Nil neq_Nil_conv)
  then show ?thesis by (simp add: tokenize_def tokenize_loop_split)
qed

lemma split_seps_free: "w \<in> set (split_seps s) \<Longrightarrow> c \<in> set w \<Longrightarrow> c \<notin> set cmd_seps"
proof (induction s arbitrary: w)
  case (Cons x xs)
  obtain v vs where v: "split_seps xs = v # vs" by (meson split_seps_not_Nil neq_Nil_conv)
  with Cons.prems Cons.IH [of v] Cons.IH [of w] show ?case
    by (auto split: if_splits)
qed simp

text \<open>A piece between two separators is one of the pieces.\<close>

lemma split_seps_append_sep:
  "x \<in> set cmd_seps \<Longrightarrow> split_seps (a @ x # b) = split_seps a @ split_seps b"
proof (induction a)
  case (Cons y ys)
  obtain v vs where v: "split_seps ys = v # vs" by (meson split_seps_not_Nil neq_Nil_conv)
  from Cons show ?case by (simp add: v)
qed simp

lemma split_seps_word: "set w \<inter> set cmd_seps = {} \<Longrightarrow> split_seps w = [w]"
  by (induction w) auto

lemma tokenize_word_between:
  assumes "x \<in> set cmd_seps" and "y \<in> set cmd_seps" and "set w \<inter> set cmd_seps = {}" and "w \<noteq> []"
  shows "w \<in> set (tokenize (a @ x # w @ y # b))"
  using assms by (simp add: tokenize_split_seps split_seps_append_sep split_seps_word)

section \<open>The scan against its specification\<close>

abbreviation cmd_name :: "goos \<Rightarrow> string \<Rightarrow> string" where
  "cmd_name os tok \<equiv> normalizeCommandName os (Base tok)"

lemma scan_tokens_deny:
  "snd (scan_tokens os D W toks warns) =
     map_option (\<lambda>tok. \<lparr>ch_Token = tok, ch_Command = cmd_name os tok, ch_Action = ActionDeny\<rparr>)
       (List.find (\<lambda>tok. cmd_name os tok \<in> D) toks)"
  by (induction toks arbitrary: warns) (auto simp: Let_def)

lemma scan_tokens_warns:
  "fst (scan_tokens os D W toks warns) =
     warns @ map (\<lambda>tok. \<lparr>ch_Token = tok, ch_Command = cmd_name os tok, ch_Action = ActionWarn\<rparr>)
       (filter (\<lambda>tok. cmd_name os tok \<in> W) (takeWhile (\<lambda>tok. cmd_name os tok \<notin> D) toks))"
  by (induction toks arbitrary: warns) (auto simp: Let_def)

lemma tokenize_Nil [simp]: "tokenize [] = []"
  by (simp add: tokenize_def flush_token_def)

lemma CheckCommandPolicy_scan:
  "CheckCommandPolicy os policy code =
     scan_tokens os (normalizeCommandName os ` set (cp_Deny policy))
       (normalizeCommandName os ` set (cp_Warn policy)) (tokenize code) []"
  by (auto simp: CheckCommandPolicy_def Let_def)

lemma CheckCommandPolicy_denied_iff:
  "snd (CheckCommandPolicy os policy code) \<noteq> None \<longleftrightarrow>
   (\<exists>tok \<in> set (tokenize code). \<exists>d \<in> set (cp_Deny policy).
      cmd_name os tok = normalizeCommandName os d)"
proof -
  let ?D = "normalizeCommandName os ` set (cp_Deny policy)"
  have "snd (CheckCommandPolicy os policy code) \<noteq> None \<longleftrightarrow>
          List.find (\<lambda>tok. cmd_name os tok \<in> ?D) (tokenize code) \<noteq> None"
    by (simp add: CheckCommandPolicy_scan scan_tokens_deny)
  also have "\<dots> \<longleftrightarrow> (\<exists>tok \<in> set (tokenize code). cmd_name os tok \<in> ?D)"
    by (auto simp: find_None_conv)
  finally show ?thesis by blast
qed

section \<open>Properties\<close>

text \<open>The tokenizer of the command policy yields exactly the non-empty pieces of the
  submitted code between separator characters, in order.\<close>

theorem tokenize_is_split: "tokenize code = filter (\<lambda>w. w \<noteq> []) (split_seps code)"
  by (rule tokenize_split_seps)

text \<open>The scan reports the first token whose normalised base name is on the deny list, and
  as warnings exactly the warn-listed tokens that precede it (all of them when nothing is denied).\<close>

theorem CheckCommandPolicy_correct:
  "CheckCommandPolicy os policy code =
     (map (\<lambda>tok. \<lparr>ch_Token = tok, ch_Command = normalizeCommandName os (Base tok), ch_Action = ActionWarn\<rparr>)
        (filter (\<lambda>tok. normalizeCommandName os (Base tok) \<in> normalizeCommandName os ` set (cp_Warn policy))
          (takeWhile (\<lambda>tok. normalizeCommandName os (Base tok) \<notin> normalizeCommandName os ` set (cp_Deny policy))
             (tokenize code))),
      map_option
        (\<lambda>tok. \<lparr>ch_Token = tok, ch_Command = normalizeCommandName os (Base tok), ch_Action = ActionDeny\<rparr>)
        (List.find (\<lambda>tok. normalizeCommandName os (Base tok) \<in> normalizeCommandName os ` set (cp_Deny policy))
          (tokenize code)))"
  by (rule prod_eqI) (simp_all add: CheckCommandPolicy_scan scan_tokens_deny scan_tokens_warns)

text \<open>A command whose normalised base name is deny-listed is refused wherever it stands as a
  word of the code: between two separators, whatever surrounds them.\<close>

theorem denied_word_is_caught:
  assumes "x \<in> set cmd_seps" and "y \<in> set cmd_seps"
    and "set w \<inter> set cmd_seps = {}" and "w \<noteq> []"
    and "d \<in> set (cp_Deny policy)"
    and "normalizeCommandName os (Base w) = normalizeCommandName os d"
  shows "snd (CheckCommandPolicy os policy (a @ x # w @ y # b)) \<noteq> None"
  using tokenize_word_between [OF assms(1-4), of a b] assms(5,6)
  unfolding CheckCommandPolicy_denied_iff by blast

theorem denied_word_is_caught_witness:
  "snd (CheckCommandPolicy Linux DefaultCommandPolicy
      (''cd /tmp'' @ CHR '';'' # ''/usr/bin/scp.exe'' @ CHR '' '' # ''creds host:'')) \<noteq> None"
proof (rule denied_word_is_caught [where d = "''scp''"])
  show "normalizeCommandName Linux (Base ''/usr/bin/scp.exe'') = normalizeCommandName Linux ''scp''"
    by code_simp
qed (simp_all add: cmd_seps_def DefaultCommandPolicy_def)

end
