(* ===== verification/Perm_Store.thy ===== *)
theory Perm_Store
  imports Perm_Command
begin

text \<open>
  The persistent rule store, \<^verbatim>\<open>src/pkg/permission/store.go\<close>, and the first-run seeds,
  \<^verbatim>\<open>src/pkg/permission/seeds.go\<close>. Every method holds the store's lock for its whole body, so each
  is one atomic step. The state keeps the snapshot in memory and the snapshot the file holds; what
  the disk does during a flush is the argument of type \<open>flush_outcome\<close>. The temporary file is not
  part of the state: nothing reads it.

  Shown here: hard-locks survive every operation except the explicit unlock, whatever the disk
  does; a flush is atomic; merging a permanent grant never narrows one; the table keeps one rule
  per path.
\<close>

section \<open>State\<close>

abbreviation CurrentVersion :: int where "CurrentVersion \<equiv> 1"

record perm_store =
  ps_snap :: snapshot
  ps_disk :: "snapshot option"

datatype flush_outcome = FlushOk | MkdirFails | MarshalFails | WriteTmpFails | RenameFails

datatype store_error =
    CreateDirError | MarshalError | WriteTmpError | RenameError
  | ReadError | ParseError | VersionTooNew int

datatype file_content = FileMissing | FileUnreadable | FileGarbage | FileJSON snapshot

section \<open>Operations\<close>

definition LoadStore :: "file_content \<Rightarrow> gotime \<Rightarrow> store_error + perm_store" where
  "LoadStore file now =
     (case file of
        FileMissing \<Rightarrow>
          Inr \<lparr>ps_snap = \<lparr>sn_Version = CurrentVersion, sn_User = [], sn_WorkDir = [], sn_Rules = [],
                 sn_SessionGrants = [], sn_CommandPolicy = \<lparr>cp_Deny = [], cp_Warn = []\<rparr>,
                 sn_UpdatedAt = now\<rparr>, ps_disk = None\<rparr>
      | FileUnreadable \<Rightarrow> Inl ReadError
      | FileGarbage \<Rightarrow> Inl ParseError
      | FileJSON snap \<Rightarrow>
          (let snap1 = (if sn_Version snap = 0 then snap\<lparr>sn_Version := CurrentVersion\<rparr> else snap)
           in if sn_Version snap1 > CurrentVersion then Inl (VersionTooNew (sn_Version snap1))
              else Inr \<lparr>ps_snap = snap1, ps_disk = Some snap\<rparr>))"

text \<open>\<^verbatim>\<open>flushLocked\<close>: stamp the snapshot, write it to a temporary file and rename it into place. Only a
  completed rename changes the file; \<open>None\<close> is the nil error.\<close>

definition flushLocked ::
  "flush_outcome \<Rightarrow> gotime \<Rightarrow> perm_store \<Rightarrow> store_error option \<times> perm_store" where
  "flushLocked out now s =
     (let snap = (ps_snap s)\<lparr>sn_UpdatedAt := now\<rparr>;
          snap1 = (if sn_Version snap = 0 then snap\<lparr>sn_Version := CurrentVersion\<rparr> else snap);
          s1 = s\<lparr>ps_snap := snap1\<rparr>
      in case out of
           MkdirFails \<Rightarrow> (Some CreateDirError, s1)
         | MarshalFails \<Rightarrow> (Some MarshalError, s1)
         | WriteTmpFails \<Rightarrow> (Some WriteTmpError, s1)
         | RenameFails \<Rightarrow> (Some RenameError, s1)
         | FlushOk \<Rightarrow> (None, s1\<lparr>ps_disk := Some snap1\<rparr>))"

definition unionMode :: "mode \<Rightarrow> mode \<Rightarrow> mode" where
  "unionMode a b =
     (if a = ModeDeny \<or> b = ModeDeny then (if a = ModeDeny then a else b)
      else if a = ModeReadWrite \<or> b = ModeReadWrite then ModeReadWrite
      else if (a = ModeRead \<and> b = ModeWrite) \<or> (a = ModeWrite \<and> b = ModeRead) then ModeReadWrite
      else b)"

fun upsertRule :: "rule list \<Rightarrow> rule \<Rightarrow> rule list" where
  "upsertRule [] r = [r]"
| "upsertRule (existing # rules) r =
     (if r_Path existing \<noteq> r_Path r then existing # upsertRule rules r
      else if r_Scope existing = ScopeHardlock \<and> r_Scope r \<noteq> ScopeHardlock then existing # rules
      else (if r_Scope existing = ScopePermanent \<and> r_Scope r = ScopePermanent
            then r\<lparr>r_Mode := unionMode (r_Mode existing) (r_Mode r)\<rparr> else r) # rules)"

definition cleanRulePath :: "string \<Rightarrow> string" where
  "cleanRulePath p = (if p = [] then p else Clean p)"

abbreviation set_rules :: "rule list \<Rightarrow> perm_store \<Rightarrow> perm_store" where
  "set_rules rs s \<equiv> s\<lparr>ps_snap := (ps_snap s)\<lparr>sn_Rules := rs\<rparr>\<rparr>"

abbreviation set_grants :: "rule list \<Rightarrow> perm_store \<Rightarrow> perm_store" where
  "set_grants rs s \<equiv> s\<lparr>ps_snap := (ps_snap s)\<lparr>sn_SessionGrants := rs\<rparr>\<rparr>"

definition AddPermanentRule ::
  "flush_outcome \<Rightarrow> gotime \<Rightarrow> rule \<Rightarrow> perm_store \<Rightarrow> store_error option \<times> perm_store" where
  "AddPermanentRule out now r s =
     (let r1 = r\<lparr>r_Scope := ScopePermanent, r_Path := cleanRulePath (r_Path r)\<rparr>;
          r2 = (if r_GrantedAt r1 = 0 then r1\<lparr>r_GrantedAt := now\<rparr> else r1)
      in flushLocked out now (set_rules (upsertRule (sn_Rules (ps_snap s)) r2) s))"

definition AddSessionRule ::
  "flush_outcome \<Rightarrow> gotime \<Rightarrow> rule \<Rightarrow> perm_store \<Rightarrow> store_error option \<times> perm_store" where
  "AddSessionRule out now r s =
     (let r1 = r\<lparr>r_Scope := ScopeSession, r_Path := cleanRulePath (r_Path r)\<rparr>;
          r2 = (if r_GrantedAt r1 = 0 then r1\<lparr>r_GrantedAt := now\<rparr> else r1)
      in flushLocked out now (set_grants (upsertRule (sn_SessionGrants (ps_snap s)) r2) s))"

definition AddHardlock ::
  "flush_outcome \<Rightarrow> gotime \<Rightarrow> string \<Rightarrow> perm_store \<Rightarrow> store_error option \<times> perm_store" where
  "AddHardlock out now p s =
     flushLocked out now
       (set_rules
         (upsertRule (sn_Rules (ps_snap s))
            (zero_rule\<lparr>r_Path := cleanRulePath p, r_Mode := ModeDeny, r_Scope := ScopeHardlock,
                       r_GrantedAt := now\<rparr>)) s)"

definition RemoveRule ::
  "flush_outcome \<Rightarrow> gotime \<Rightarrow> string \<Rightarrow> bool \<Rightarrow> perm_store \<Rightarrow> store_error option \<times> perm_store" where
  "RemoveRule out now p removeHardlock s =
     flushLocked out now
       (set_rules
         (filter (\<lambda>r. if r_Path r = p then r_Scope r = ScopeHardlock \<and> \<not> removeHardlock else True)
            (sn_Rules (ps_snap s))) s)"

definition expired :: "gotime \<Rightarrow> rule \<Rightarrow> bool" where
  "expired now r \<longleftrightarrow> r_ExpiresAt r \<noteq> 0 \<and> now > r_ExpiresAt r"

definition PurgeExpiredSessions ::
  "flush_outcome \<Rightarrow> gotime \<Rightarrow> string set \<Rightarrow> perm_store \<Rightarrow> store_error option \<times> perm_store" where
  "PurgeExpiredSessions out now terminated s =
     (let kept = filter (\<lambda>r. \<not> expired now r \<and> r_SessionID r \<notin> terminated)
                   (sn_SessionGrants (ps_snap s))
      in if length kept = length (sn_SessionGrants (ps_snap s)) then (None, s)
         else flushLocked out now (set_grants kept s))"

definition SetCommandPolicy ::
  "flush_outcome \<Rightarrow> gotime \<Rightarrow> command_policy \<Rightarrow> perm_store \<Rightarrow> store_error option \<times> perm_store" where
  "SetCommandPolicy out now p s =
     flushLocked out now (s\<lparr>ps_snap := (ps_snap s)\<lparr>sn_CommandPolicy := p\<rparr>\<rparr>)"

definition SeedCommandPolicyIfEmpty ::
  "flush_outcome \<Rightarrow> gotime \<Rightarrow> perm_store \<Rightarrow> (store_error + bool) \<times> perm_store" where
  "SeedCommandPolicyIfEmpty out now s =
     (let cp = sn_CommandPolicy (ps_snap s)
      in if cp_Deny cp \<noteq> [] \<or> cp_Warn cp \<noteq> [] then (Inr False, s)
         else (case SetCommandPolicy out now DefaultCommandPolicy s of
                 (Some e, s1) \<Rightarrow> (Inl e, s1)
               | (None, s1) \<Rightarrow> (Inr True, s1)))"

text \<open>The paths of \<^verbatim>\<open>DefaultHardlockSeeds\<close>; the rules it builds around them are dropped by its only
  caller, which passes each path to \<^verbatim>\<open>AddHardlock\<close>.\<close>

definition DefaultHardlockSeeds :: "goos \<Rightarrow> string list" where
  "DefaultHardlockSeeds os =
     [''~/.ssh'', ''~/.aws'', ''~/.gnupg'', ''~/.kube'', ''~/.config/gh'', ''~/.docker'',
      ''~/.sandrpod/permissions.json'', ''~/.sandrpod/mcp_grants.json'',
      ''~/.sandrpod/audit'', ''~/.sandrpod/oauth''] @
     (case os of
        Darwin \<Rightarrow> [''~/Library/Keychains'', ''~/Library/Application Support/Google/Chrome'',
          ''~/Library/Application Support/Firefox'',
          ''~/Library/Application Support/com.apple.sharedfilelist'',
          ''~/Library/Mail'', ''~/Library/Messages'', ''~/Library/Cookies'']
      | Linux \<Rightarrow> [''~/.mozilla'', ''~/.config/google-chrome'', ''~/.config/chromium'',
          ''~/.local/share/keyrings'', ''~/.thunderbird'']
      | Windows \<Rightarrow> [''~/AppData/Roaming/Microsoft/Crypto'', ''~/AppData/Local/Google/Chrome'',
          ''~/AppData/Local/Microsoft/Edge''])"

text \<open>The seeding loop goes on after a failed write; \<open>outs\<close> gives the outcome of each flush.\<close>

fun seed_loop ::
  "(nat \<Rightarrow> flush_outcome) \<Rightarrow> gotime \<Rightarrow> string list \<Rightarrow> nat \<Rightarrow> perm_store \<Rightarrow> nat \<times> perm_store" where
  "seed_loop outs now [] added s = (added, s)"
| "seed_loop outs now (p # ps) added s =
     (case AddHardlock (outs 0) now p s of
        (Some e, s1) \<Rightarrow> seed_loop (\<lambda>i. outs (Suc i)) now ps added s1
      | (None, s1) \<Rightarrow> seed_loop (\<lambda>i. outs (Suc i)) now ps (Suc added) s1)"

definition SeedHardlocksIfEmpty ::
  "goos \<Rightarrow> (nat \<Rightarrow> flush_outcome) \<Rightarrow> gotime \<Rightarrow> perm_store \<Rightarrow> nat \<times> perm_store" where
  "SeedHardlocksIfEmpty os outs now s =
     (if sn_Rules (ps_snap s) \<noteq> [] then (0, s)
      else seed_loop outs now (DefaultHardlockSeeds os) 0 s)"

section \<open>Hard-locks\<close>

definition hardlock_paths :: "rule list \<Rightarrow> string set" where
  "hardlock_paths rs = r_Path ` {r \<in> set rs. r_Scope r = ScopeHardlock}"

abbreviation store_hardlocks :: "perm_store \<Rightarrow> string set" where
  "store_hardlocks s \<equiv> hardlock_paths (sn_Rules (ps_snap s))"

lemma flushLocked_snap:
  "sn_Rules (ps_snap (snd (flushLocked out now s))) = sn_Rules (ps_snap s)"
  "sn_SessionGrants (ps_snap (snd (flushLocked out now s))) = sn_SessionGrants (ps_snap s)"
  "sn_CommandPolicy (ps_snap (snd (flushLocked out now s))) = sn_CommandPolicy (ps_snap s)"
  by (auto simp: flushLocked_def Let_def split: flush_outcome.split)

lemma upsertRule_hardlocks:
  "hardlock_paths rs \<subseteq> hardlock_paths (upsertRule rs r)"
proof (induction rs r rule: upsertRule.induct)
  case (2 e rs r)
  then show ?case
    by (auto simp: hardlock_paths_def split: if_splits)
qed (simp add: hardlock_paths_def)

lemma upsertRule_new_hardlock:
  "r_Scope r = ScopeHardlock \<Longrightarrow> r_Path r \<in> hardlock_paths (upsertRule rs r)"
  by (induction rs r rule: upsertRule.induct) (auto simp: hardlock_paths_def)

lemma AddPermanentRule_hardlocks:
  "store_hardlocks s \<subseteq> store_hardlocks (snd (AddPermanentRule out now r s))"
  by (simp add: AddPermanentRule_def Let_def flushLocked_snap upsertRule_hardlocks)

lemma AddSessionRule_rules:
  "sn_Rules (ps_snap (snd (AddSessionRule out now r s))) = sn_Rules (ps_snap s)"
  by (simp add: AddSessionRule_def Let_def flushLocked_snap)

lemma AddHardlock_hardlocks:
  "insert (cleanRulePath p) (store_hardlocks s) \<subseteq> store_hardlocks (snd (AddHardlock out now p s))"
  using upsertRule_hardlocks
    upsertRule_new_hardlock [of "zero_rule\<lparr>r_Path := cleanRulePath p, r_Mode := ModeDeny,
                       r_Scope := ScopeHardlock, r_GrantedAt := now\<rparr>"]
  by (simp add: AddHardlock_def flushLocked_snap)

lemma RemoveRule_False_hardlocks:
  "store_hardlocks s \<subseteq> store_hardlocks (snd (RemoveRule out now p False s))"
  by (auto simp: RemoveRule_def flushLocked_snap hardlock_paths_def)

lemma PurgeExpiredSessions_rules:
  "sn_Rules (ps_snap (snd (PurgeExpiredSessions out now t s))) = sn_Rules (ps_snap s)"
  by (simp add: PurgeExpiredSessions_def Let_def flushLocked_snap)

lemma SetCommandPolicy_rules:
  "sn_Rules (ps_snap (snd (SetCommandPolicy out now p s))) = sn_Rules (ps_snap s)"
  by (simp add: SetCommandPolicy_def flushLocked_snap)

lemma seed_loop_hardlocks:
  "cleanRulePath ` set ps \<union> store_hardlocks s \<subseteq> store_hardlocks (snd (seed_loop outs now ps n s))"
proof (induction outs now ps n s rule: seed_loop.induct)
  case (2 outs now p ps n s)
  have step: "insert (cleanRulePath p) (store_hardlocks s) \<subseteq> store_hardlocks (snd (AddHardlock (outs 0) now p s))"
    by (rule AddHardlock_hardlocks)
  show ?case
  proof (cases "AddHardlock (outs 0) now p s")
    case (Pair e s1)
    with step "2.IH" show ?thesis by (cases e) fastforce+
  qed
qed simp

text \<open>Every step the agent and the tray's GUI can take; the CLI unlock is the one left out.\<close>

inductive store_step :: "perm_store \<Rightarrow> perm_store \<Rightarrow> bool" where
  add_permanent: "store_step s (snd (AddPermanentRule out now r s))"
| add_session: "store_step s (snd (AddSessionRule out now r s))"
| add_hardlock: "store_step s (snd (AddHardlock out now p s))"
| remove_rule: "store_step s (snd (RemoveRule out now p False s))"
| purge: "store_step s (snd (PurgeExpiredSessions out now terminated s))"
| set_policy: "store_step s (snd (SetCommandPolicy out now cp s))"

lemma store_step_hardlocks: "store_step s t \<Longrightarrow> store_hardlocks s \<subseteq> store_hardlocks t"
proof (induction rule: store_step.induct)
  case (add_hardlock s out now p)
  then show ?case using AddHardlock_hardlocks [of p s out now] by blast
qed (simp_all only: AddPermanentRule_hardlocks AddSessionRule_rules RemoveRule_False_hardlocks
       PurgeExpiredSessions_rules SetCommandPolicy_rules subset_refl)

lemma store_steps_hardlocks: "store_step\<^sup>*\<^sup>* s t \<Longrightarrow> store_hardlocks s \<subseteq> store_hardlocks t"
  by (induction rule: rtranclp_induct) (auto dest: store_step_hardlocks)

section \<open>One rule per path\<close>

definition rules_wf :: "rule list \<Rightarrow> bool" where
  "rules_wf rs \<longleftrightarrow> distinct (map r_Path rs)"

lemma upsertRule_paths: "r_Path ` set (upsertRule rs r) = insert (r_Path r) (r_Path ` set rs)"
  by (induction rs r rule: upsertRule.induct) auto

lemma upsertRule_wf: "rules_wf rs \<Longrightarrow> rules_wf (upsertRule rs r)"
  by (induction rs r rule: upsertRule.induct) (auto simp: rules_wf_def upsertRule_paths)

lemma filter_wf: "rules_wf rs \<Longrightarrow> rules_wf (filter P rs)"
  by (simp add: rules_wf_def distinct_map_filter)

abbreviation store_wf :: "perm_store \<Rightarrow> bool" where
  "store_wf s \<equiv> rules_wf (sn_Rules (ps_snap s)) \<and> rules_wf (sn_SessionGrants (ps_snap s))"

lemmas store_op_defs = AddPermanentRule_def AddSessionRule_def AddHardlock_def RemoveRule_def
  PurgeExpiredSessions_def SetCommandPolicy_def

lemma store_step_wf: "store_step s t \<Longrightarrow> store_wf s \<Longrightarrow> store_wf t"
  by (induction rule: store_step.induct)
    (simp_all add: store_op_defs Let_def flushLocked_snap upsertRule_wf filter_wf)

section \<open>Merging a permanent grant\<close>

abbreviation file_mode :: "mode \<Rightarrow> bool" where
  "file_mode m \<equiv> m = ModeRead \<or> m = ModeWrite \<or> m = ModeReadWrite"

lemma unionMode_Allows:
  assumes "file_mode a" and "file_mode b"
  shows "Allows a m \<or> Allows b m \<Longrightarrow> Allows (unionMode a b) m"
  using assms by (elim disjE) (simp_all add: unionMode_def Allows_def)

lemma unionMode_same [simp]: "unionMode m m = m"
  by (simp add: unionMode_def)

lemma unionMode_new: "a \<noteq> ModeDeny \<Longrightarrow> file_mode b \<Longrightarrow> Allows (unionMode a b) b"
  by (auto simp: unionMode_def Allows_def)

lemma unionMode_deny_iff: "unionMode a b = ModeDeny \<longleftrightarrow> a = ModeDeny \<or> b = ModeDeny"
  by (auto simp: unionMode_def)

text \<open>What the table holds for the path of a permanent grant after it was merged in.\<close>

lemma upsertRule_permanent:
  assumes "r_Scope r = ScopePermanent"
    and "\<forall>e \<in> set rs. r_Path e = r_Path r \<longrightarrow> r_Scope e \<noteq> ScopeHardlock \<and> r_Mode e \<noteq> ModeDeny"
    and "file_mode (r_Mode r)"
  shows "\<exists>e \<in> set (upsertRule rs r). r_Path e = r_Path r \<and> r_Scope e = ScopePermanent \<and>
           r_Mode e \<noteq> ModeDeny \<and> Allows (r_Mode e) (r_Mode r)"
  using assms
proof (induction rs r rule: upsertRule.induct)
  case (2 e rs r)
  then show ?case
    by (cases "r_Path e = r_Path r") (auto simp: unionMode_new unionMode_deny_iff)
qed auto

section \<open>Properties of the store\<close>

text \<open>A flush is atomic, and every writing operation ends in one: whatever goes wrong on the
  disk, the file holds either exactly the snapshot now in memory (and the caller sees no error) or
  what it held before (and the caller sees an error); the rules in memory are those of the
  operation either way.\<close>

theorem flush_atomic:
  "case flushLocked out now s of (err, s') \<Rightarrow>
     ps_disk s' = (if err = None then Some (ps_snap s') else ps_disk s) \<and>
     (err = None \<longleftrightarrow> out = FlushOk) \<and>
     sn_UpdatedAt (ps_snap s') = now \<and> sn_Version (ps_snap s') \<noteq> 0 \<and>
     sn_Rules (ps_snap s') = sn_Rules (ps_snap s) \<and>
     sn_SessionGrants (ps_snap s') = sn_SessionGrants (ps_snap s)"
  by (cases out) (simp_all add: flushLocked_def Let_def)

text \<open>What a flush wrote is what the next start reads: loading the file after a successful
  write gives back the store as it was, provided the snapshot was not from a newer version.\<close>

theorem flush_load_roundtrip:
  assumes "flushLocked FlushOk now s = (None, s')" and "sn_Version (ps_snap s) \<le> CurrentVersion"
  shows "\<exists>snap. ps_disk s' = Some snap \<and> LoadStore (FileJSON snap) later = Inr s'"
  using assms by (auto simp: flushLocked_def LoadStore_def Let_def split: if_splits)

theorem flush_load_roundtrip_witness:
  "let s = \<lparr>ps_snap = \<lparr>sn_Version = 0, sn_User = [], sn_WorkDir = [], sn_Rules = [zero_rule],
             sn_SessionGrants = [], sn_CommandPolicy = \<lparr>cp_Deny = [], cp_Warn = []\<rparr>, sn_UpdatedAt = 3\<rparr>,
             ps_disk = None\<rparr>
   in \<exists>snap. ps_disk (snd (flushLocked FlushOk 5 s)) = Some snap \<and>
        LoadStore (FileJSON snap) 9 = Inr (snd (flushLocked FlushOk 5 s))"
  unfolding Let_def
  by (rule flush_load_roundtrip [where now = 5 and s = "\<lparr>ps_snap = \<lparr>sn_Version = 0, sn_User = [],
             sn_WorkDir = [], sn_Rules = [zero_rule], sn_SessionGrants = [],
             sn_CommandPolicy = \<lparr>cp_Deny = [], cp_Warn = []\<rparr>, sn_UpdatedAt = 3\<rparr>, ps_disk = None\<rparr>"])
    (simp_all add: flushLocked_def Let_def)

lemma seed_loop_count:
  "fst (seed_loop outs now ps n s) = n + length (filter (\<lambda>i. outs i = FlushOk) [0..<length ps])"
proof (induction outs now ps n s rule: seed_loop.induct)
  case (2 outs now p ps n s)
  have ok: "(\<exists>s1. AddHardlock (outs 0) now p s = (None, s1)) \<longleftrightarrow> outs 0 = FlushOk"
    by (cases "outs 0") (simp_all add: AddHardlock_def flushLocked_def Let_def)
  have up: "[0..<length (p # ps)] = 0 # map Suc [0..<length ps]"
    by (simp add: map_Suc_upt upt_conv_Cons del: upt_Suc)
  have "length (filter (\<lambda>i. outs i = FlushOk) [0..<length (p # ps)]) =
      (if outs 0 = FlushOk then 1 else 0) + length (filter (\<lambda>i. outs (Suc i) = FlushOk) [0..<length ps])"
    by (simp only: up) (simp add: filter_map o_def)
  with ok 2 show ?case
    by (cases "AddHardlock (outs 0) now p s"; cases "fst (AddHardlock (outs 0) now p s)") auto
qed simp

text \<open>Seeding an empty store locks every path of the operating system's seed list, even when
  some or all of the writes to the disk fail, and counts exactly the writes that succeeded.\<close>

theorem seeds_installed:
  assumes "sn_Rules (ps_snap s) = []"
  shows "cleanRulePath ` set (DefaultHardlockSeeds os) \<subseteq> store_hardlocks (snd (SeedHardlocksIfEmpty os outs now s)) \<and>
    fst (SeedHardlocksIfEmpty os outs now s) =
      length (filter (\<lambda>i. outs i = FlushOk) [0..<length (DefaultHardlockSeeds os)])"
  using seed_loop_hardlocks [of "DefaultHardlockSeeds os" s] assms
  by (simp add: SeedHardlocksIfEmpty_def seed_loop_count)

theorem seeds_installed_witness:
  "let s = \<lparr>ps_snap = \<lparr>sn_Version = 1, sn_User = [], sn_WorkDir = [], sn_Rules = [],
             sn_SessionGrants = [], sn_CommandPolicy = \<lparr>cp_Deny = [], cp_Warn = []\<rparr>, sn_UpdatedAt = 3\<rparr>,
             ps_disk = None\<rparr>
   in cleanRulePath ` set (DefaultHardlockSeeds Linux) \<subseteq>
        store_hardlocks (snd (SeedHardlocksIfEmpty Linux (\<lambda>_. RenameFails) 7 s)) \<and>
      fst (SeedHardlocksIfEmpty Linux (\<lambda>_. RenameFails) 7 s) = 0"
  unfolding Let_def
  using seeds_installed [where os = Linux and outs = "\<lambda>_. RenameFails" and now = 7 and s = "\<lparr>ps_snap = \<lparr>sn_Version = 1,
     sn_User = [], sn_WorkDir = [], sn_Rules = [], sn_SessionGrants = [],
     sn_CommandPolicy = \<lparr>cp_Deny = [], cp_Warn = []\<rparr>, sn_UpdatedAt = 3\<rparr>, ps_disk = None\<rparr>"] by simp

text \<open>Granting never takes a grant away: every operation a file grant already on record allowed
  is still allowed by the permanent rule of the same path after a further file grant is merged in, and
  the rules of other paths are untouched. The table keeps at most one rule per path.\<close>

theorem grants_never_narrow:
  assumes "rules_wf rs" and "e \<in> set rs" and "r_Scope e = ScopePermanent"
    and "r_Mode e \<in> {ModeRead, ModeWrite, ModeReadWrite}"
    and "r_Scope r = ScopePermanent" and "r_Mode r \<in> {ModeRead, ModeWrite, ModeReadWrite}"
  shows "rules_wf (upsertRule rs r) \<and>
    (\<exists>e' \<in> set (upsertRule rs r). r_Path e' = r_Path e \<and> r_Scope e' = ScopePermanent \<and>
       (\<forall>m. Allows (r_Mode e) m \<longrightarrow> Allows (r_Mode e') m))"
proof
  show "rules_wf (upsertRule rs r)" using assms(1) by (rule upsertRule_wf)
  show "\<exists>e' \<in> set (upsertRule rs r). r_Path e' = r_Path e \<and> r_Scope e' = ScopePermanent \<and>
       (\<forall>m. Allows (r_Mode e) m \<longrightarrow> Allows (r_Mode e') m)"
    using assms
  proof (induction rs r rule: upsertRule.induct)
    case (2 x rs r)
    show ?case
    proof (cases "r_Path x = r_Path r")
      case True
      have "x = e \<or> r_Path e \<noteq> r_Path r"
        using "2.prems"(1,2) True unfolding rules_wf_def by (simp add: image_iff) metis
      moreover have "Allows (unionMode (r_Mode e) (r_Mode r)) m" if "Allows (r_Mode e) m" for m
        using unionMode_Allows [of "r_Mode e" "r_Mode r" m] "2.prems"(4,6) that by auto
      ultimately show ?thesis using "2.prems" True by auto
    next
      case False
      show ?thesis
      proof (cases "e = x")
        case True
        with False show ?thesis using "2.prems"(3) by auto
      next
        case other: False
        have "rules_wf rs" "e \<in> set rs" using "2.prems"(1,2) other by (auto simp: rules_wf_def)
        then show ?thesis using "2.IH" [OF False] "2.prems"(3-6) False by simp
      qed
    qed
  qed simp
qed

theorem grants_never_narrow_witness:
  "let e = zero_rule\<lparr>r_Path := ''/a'', r_Mode := ModeRead, r_Scope := ScopePermanent\<rparr>;
       r = zero_rule\<lparr>r_Path := ''/a'', r_Mode := ModeWrite, r_Scope := ScopePermanent\<rparr>
   in \<exists>e' \<in> set (upsertRule [e] r). r_Path e' = r_Path e \<and> r_Scope e' = ScopePermanent \<and>
        (\<forall>m. Allows (r_Mode e) m \<longrightarrow> Allows (r_Mode e') m)"
  unfolding Let_def
  by (rule grants_never_narrow [THEN conjunct2]) (simp_all add: rules_wf_def)

end
