(* ===== verification/Perm_Mandatory.thy ===== *)
theory Perm_Mandatory
  imports Perm_Types
begin

text \<open>
  The mandatory deny list, \<^verbatim>\<open>src/pkg/permission/mandatory.go\<close>: the names inside a work tree an agent
  must never write. \<^verbatim>\<open>IsMandatoryDenied\<close> is modelled; the directory walk \<^verbatim>\<open>MandatoryDenyPaths\<close>, which
  feeds the mount list of the OS sandbox, is not. The lemmas show that each protected directory
  is recognised at every depth and with everything beneath it, and each protected file name at
  every depth.
\<close>

section \<open>Definitions\<close>

definition dangerousFiles :: "string list" where
  "dangerousFiles =
     [''.bashrc'', ''.bash_profile'', ''.bash_login'', ''.zshrc'', ''.zprofile'', ''.zshenv'',
      ''.profile'', ''.gitconfig'', ''.gitmodules'', ''.ripgreprc'', ''.mcp.json'']"

definition dangerousDirs :: "string list" where
  "dangerousDirs =
     [''.vscode'', ''.idea'', filepath_Join [''.claude'', ''commands''],
      filepath_Join [''.claude'', ''agents''], filepath_Join [''.git'', ''hooks'']]"

definition dangerousFilesInGit :: "string list" where
  "dangerousFilesInGit = [filepath_Join [''.git'', ''config'']]"

definition IsMandatoryDenied :: "os_env \<Rightarrow> string \<Rightarrow> bool" where
  "IsMandatoryDenied env path =
     (if path = [] then False
      else let clean = Clean path; base = Base clean in
        if list_ex (\<lambda>f. EqualFold base f) dangerousFiles then True
        else if list_ex (\<lambda>d. HasSuffix clean (sep # d) \<or> Contains clean ((sep # d) @ [sep])) dangerousDirs
        then True
        else if EqualFold base ''.git'' \<and> env_regular env clean then True
        else list_ex (\<lambda>f. HasSuffix clean (sep # f)) dangerousFilesInGit)"

section \<open>Protected names at any depth\<close>

text \<open>The protected directories as the segments they consist of.\<close>

definition dangerousDirSegs :: "string list list" where
  "dangerousDirSegs =
     [[''.vscode''], [''.idea''], [''.claude'', ''commands''], [''.claude'', ''agents''], [''.git'', ''hooks'']]"

lemma dangerousDirs_segs: "dangerousDirs = map (\<lambda>ws. Join ws [sep]) dangerousDirSegs"
  by code_simp

lemma dangerousDirSegs_names: "ws \<in> set dangerousDirSegs \<Longrightarrow> name_segs ws \<and> ws \<noteq> []"
  by (auto simp: dangerousDirSegs_def name_seg_def good_seg_def)

lemma Join_append: "us \<noteq> [] \<Longrightarrow> ws \<noteq> [] \<Longrightarrow> Join (us @ ws) s = Join us s @ s @ Join ws s"
  by (induction us rule: list_nonempty_induct) (simp_all add: Join_Cons)

lemma abs_path_split:
  assumes "ws \<noteq> []"
  shows "\<exists>pre. abs_path (us @ ws) = pre @ sep # Join ws [sep]"
proof (cases "us = []")
  case True
  then show ?thesis by (auto simp: abs_path_def)
next
  case False
  then have "abs_path (us @ ws) = (sep # Join us [sep]) @ sep # Join ws [sep]"
    using assms by (simp add: abs_path_def Join_append)
  then show ?thesis by blast
qed

lemma abs_path_contains:
  assumes "ws \<noteq> []"
  shows "HasSuffix (abs_path (us @ ws @ vs)) (sep # Join ws [sep]) \<or>
         Contains (abs_path (us @ ws @ vs)) ((sep # Join ws [sep]) @ [sep])"
proof (cases "vs = []")
  case True
  with abs_path_split [OF assms, of us] show ?thesis by (auto simp: HasSuffix_iff)
next
  case False
  then obtain pre where "abs_path (us @ ws @ vs) = pre @ sep # Join (ws @ vs) [sep]"
    using assms abs_path_split [of "ws @ vs" us] by auto
  then have "abs_path (us @ ws @ vs) = pre @ ((sep # Join ws [sep]) @ [sep]) @ Join vs [sep]"
    using assms False by (simp add: Join_append)
  then show ?thesis unfolding Contains_iff by blast
qed

lemma IsMandatoryDenied_dirs:
  assumes "name_segs us" and "name_segs vs" and "ws \<in> set dangerousDirSegs"
  shows "IsMandatoryDenied env (abs_path (us @ ws @ vs))"
proof -
  let ?p = "abs_path (us @ ws @ vs)"
  have ws: "name_segs ws" "ws \<noteq> []" using dangerousDirSegs_names [OF assms(3)] by auto
  then have "Clean ?p = ?p" using assms by (intro Clean_abs_path) auto
  moreover have "list_ex (\<lambda>d. HasSuffix ?p (sep # d) \<or> Contains ?p ((sep # d) @ [sep])) dangerousDirs"
    using abs_path_contains [OF ws(2), of us vs] assms(3)
    by (auto simp: dangerousDirs_segs list_ex_iff)
  moreover have "?p \<noteq> []" by (simp add: abs_path_def)
  ultimately show ?thesis by (simp add: IsMandatoryDenied_def Let_def)
qed

lemma IsMandatoryDenied_files:
  assumes "name_segs us" and "name_seg b" and "f \<in> set dangerousFiles" and "EqualFold b f"
  shows "IsMandatoryDenied env (abs_path (us @ [b]))"
proof -
  let ?p = "abs_path (us @ [b])"
  have "Clean ?p = ?p" and "Base ?p = b"
    using assms by (auto intro!: Clean_abs_path Base_abs_path)
  moreover have "?p \<noteq> []" by (simp add: abs_path_def)
  ultimately show ?thesis
    using assms(3,4) by (auto simp: IsMandatoryDenied_def Let_def list_ex_iff)
qed

section \<open>Properties\<close>

text \<open>Every directory on the mandatory deny list is protected at any depth of an absolute
  path, together with everything beneath it.\<close>

theorem mandatory_dirs_any_depth:
  assumes "\<forall>w \<in> set (us @ vs). name_seg w" and "ws \<in> set dangerousDirSegs"
  shows "IsMandatoryDenied env (abs_path (us @ ws @ vs))"
  using assms by (intro IsMandatoryDenied_dirs) auto

theorem mandatory_dirs_any_depth_witness:
  "IsMandatoryDenied \<lparr>env_goos = Linux, env_wd = None, env_eval = Map.empty, env_regular = (\<lambda>_. False), env_home = []\<rparr>
     (abs_path ([''home'', ''me'', ''repo''] @ [''.git'', ''hooks''] @ [''pre-commit'']))"
  by (rule mandatory_dirs_any_depth) (simp_all add: name_seg_def good_seg_def dangerousDirSegs_def)

text \<open>The directory rules compare case-sensitively although the file rules fold case: a
  spelling such as \<^verbatim>\<open>.Git/hooks\<close>, which names the same directory on a case-insensitive file system,
  is not protected, on any platform.\<close>

theorem mandatory_dirs_case_sensitive:
  "IsMandatoryDenied env ''/w/.git/hooks/pre-commit'' \<and>
   \<not> IsMandatoryDenied env ''/w/.Git/hooks/pre-commit'' \<and>
   IsMandatoryDenied env ''/w/.BashRC''"
proof (intro conjI)
  have "Clean ''/w/.git/hooks/pre-commit'' = ''/w/.git/hooks/pre-commit''" by code_simp
  moreover have "list_ex (\<lambda>d. HasSuffix ''/w/.git/hooks/pre-commit'' (sep # d) \<or>
      Contains ''/w/.git/hooks/pre-commit'' ((sep # d) @ [sep])) dangerousDirs" by code_simp
  ultimately show "IsMandatoryDenied env ''/w/.git/hooks/pre-commit''"
    by (simp add: IsMandatoryDenied_def Let_def)
next
  have "Clean ''/w/.Git/hooks/pre-commit'' = ''/w/.Git/hooks/pre-commit''" by code_simp
  moreover have "Base ''/w/.Git/hooks/pre-commit'' = ''pre-commit''" by code_simp
  moreover have "\<not> list_ex (\<lambda>f. EqualFold ''pre-commit'' f) dangerousFiles" by code_simp
  moreover have "\<not> EqualFold ''pre-commit'' ''.git''" by code_simp
  moreover have "\<not> list_ex (\<lambda>d. HasSuffix ''/w/.Git/hooks/pre-commit'' (sep # d) \<or>
      Contains ''/w/.Git/hooks/pre-commit'' ((sep # d) @ [sep])) dangerousDirs" by code_simp
  moreover have "\<not> list_ex (\<lambda>f. HasSuffix ''/w/.Git/hooks/pre-commit'' (sep # f)) dangerousFilesInGit"
    by code_simp
  ultimately show "\<not> IsMandatoryDenied env ''/w/.Git/hooks/pre-commit''"
    by (simp add: IsMandatoryDenied_def Let_def)
next
  have "Clean ''/w/.BashRC'' = ''/w/.BashRC''" by code_simp
  moreover have "Base ''/w/.BashRC'' = ''.BashRC''" by code_simp
  moreover have "list_ex (\<lambda>f. EqualFold ''.BashRC'' f) dangerousFiles" by code_simp
  ultimately show "IsMandatoryDenied env ''/w/.BashRC''"
    by (simp add: IsMandatoryDenied_def Let_def)
qed

end
