(* ===== verification/Perm_Manager.thy ===== *)
theory Perm_Manager
  imports Perm_Store Perm_Mandatory
begin

text \<open>
  The decision engine, \<^verbatim>\<open>src/pkg/permission/manager.go\<close>. \<^verbatim>\<open>Check\<close>, \<^verbatim>\<open>CheckExec\<close>, \<^verbatim>\<open>AuditExecOnly\<close> and
  \<^verbatim>\<open>CheckPTY\<close> take the gate's state (the rule store and the audit trail) and return the decision
  with the new state. The notifier is an argument: it maps a request to an error or a response.
  Other calls run concurrently; what they do to the store while this one waits for the prompt lock
  and while the dialog is open are the two functions of the record \<open>others\<close>. The clock is read once
  per call.

  Shown here: the precedence of hard-locks and of the mandatory deny list over every way to allow,
  what an allow can rest on, that a session grant serves its own session only and not after it
  expired, that a permanent answer is remembered, that path containment is containment of segments,
  and that resolving symbolic links yields a canonical path.
\<close>

section \<open>State\<close>

record manager =
  m_workDir :: string
  m_homeDir :: string

record audit_event =
  ae_source :: string
  ae_decision :: string
  ae_path :: string
  ae_mode :: mode
  ae_caller :: string
  ae_session :: string
  ae_reason :: reason
  ae_modelReason :: reason
  ae_matchedCommand :: string

record gate =
  g_store :: perm_store
  g_audit :: "audit_event list"

record others =
  before_lock :: "perm_store \<Rightarrow> perm_store"
  during_prompt :: "perm_store \<Rightarrow> perm_store"

type_synonym notifier = "request \<Rightarrow> string + prompt_response"

section \<open>Paths\<close>

definition caseInsensitiveFS :: "goos \<Rightarrow> bool" where
  "caseInsensitiveFS os \<longleftrightarrow> os = Darwin \<or> os = Windows"

definition pathInside :: "goos \<Rightarrow> string \<Rightarrow> string \<Rightarrow> bool" where
  "pathInside os child parent =
     (if parent = [] then False
      else let c = (if caseInsensitiveFS os then ToLower child else child);
               p = (if caseInsensitiveFS os then ToLower parent else parent)
           in if c = p then True else HasPrefix c (p @ [sep]))"

function resolveAncestors :: "os_env \<Rightarrow> string \<Rightarrow> string" where
  "resolveAncestors env p =
     (case env_eval env p of
        Some resolved \<Rightarrow> resolved
      | None \<Rightarrow> if Dir p = p then p
               else filepath_Join [resolveAncestors env (Dir p), Base p])"
  by pat_completeness auto
termination
  by (relation "measure (\<lambda>(env, p). dir_measure p)") (auto intro: Dir_progress)

declare resolveAncestors.simps [simp del]

definition canonicalize :: "os_env \<Rightarrow> string \<Rightarrow> string option" where
  "canonicalize env p =
     (if p = [] then Some []
      else (case Abs (env_wd env) p of
              None \<Rightarrow> None
            | Some a \<Rightarrow> Some (resolveAncestors env (Clean a))))"

definition expandTilde :: "string \<Rightarrow> string \<Rightarrow> string" where
  "expandTilde p home =
     (if home = [] \<or> \<not> HasPrefix p ''~'' then p
      else if p = ''~'' then home
      else if HasPrefix p ''~/'' then filepath_Join [home, drop 2 p]
      else p)"

definition ruleAbsPath :: "os_env \<Rightarrow> string \<Rightarrow> string \<Rightarrow> string" where
  "ruleAbsPath env p home =
     (let expanded = expandTilde p home
      in if \<not> IsAbs expanded then expanded
         else (case canonicalize env expanded of
                 Some c \<Rightarrow> if c \<noteq> [] then c else Clean expanded
               | None \<Rightarrow> Clean expanded))"

section \<open>Matching rules\<close>

definition rule_covers :: "os_env \<Rightarrow> string \<Rightarrow> string \<Rightarrow> rule \<Rightarrow> bool" where
  "rule_covers env home path r \<longleftrightarrow> pathInside (env_goos env) path (ruleAbsPath env (r_Path r) home)"

definition matchHardlock :: "os_env \<Rightarrow> string \<Rightarrow> rule list \<Rightarrow> string \<Rightarrow> rule option" where
  "matchHardlock env path rules home =
     List.find (\<lambda>r. r_Scope r = ScopeHardlock \<and> rule_covers env home path r) rules"

definition HardlocksUnder :: "os_env \<Rightarrow> string \<Rightarrow> rule list \<Rightarrow> string \<Rightarrow> string list" where
  "HardlocksUnder env dir rules home =
     (case canonicalize env dir of
        None \<Rightarrow> []
      | Some root \<Rightarrow>
          if root = [] then []
          else let h = (if home = [] then env_home env else home)
               in map r_Path (filter (\<lambda>r. r_Scope r = ScopeHardlock \<and>
                      pathInside (env_goos env) (ruleAbsPath env (r_Path r) h) root) rules))"

definition matchAllow :: "os_env \<Rightarrow> request \<Rightarrow> rule list \<Rightarrow> string \<Rightarrow> bool" where
  "matchAllow env req rules home =
     list_ex (\<lambda>r. r_Scope r = ScopePermanent \<and> r_Mode r \<noteq> ModeDeny \<and>
        Allows (r_Mode r) (rq_Mode req) \<and> rule_covers env home (rq_Path req) r) rules"

definition matchSessionAllow :: "os_env \<Rightarrow> request \<Rightarrow> rule list \<Rightarrow> string \<Rightarrow> gotime \<Rightarrow> bool" where
  "matchSessionAllow env req grants home now =
     list_ex (\<lambda>r. \<not> expired now r \<and>
        \<not> (r_SessionID r \<noteq> [] \<and> r_SessionID r \<noteq> rq_SessionID req) \<and>
        Allows (r_Mode r) (rq_Mode req) \<and> rule_covers env home (rq_Path req) r) grants"

section \<open>Decisions\<close>

definition recordDecision :: "string \<Rightarrow> decision \<Rightarrow> request \<Rightarrow> gate \<Rightarrow> gate" where
  "recordDecision source dec req g =
     g\<lparr>g_audit := g_audit g @
        [\<lparr>ae_source = source,
          ae_decision = (if d_Action dec = [] then ''unknown'' else d_Action dec),
          ae_path = rq_Path req, ae_mode = rq_Mode req, ae_caller = rq_Caller req,
          ae_session = rq_SessionID req, ae_reason = d_Reason dec,
          ae_modelReason = d_ModelReason dec, ae_matchedCommand = []\<rparr>]\<rparr>"

text \<open>The grant a session answer stores: eight hours, tied to the session.\<close>

definition session_grant :: "request \<Rightarrow> gotime \<Rightarrow> rule" where
  "session_grant req now =
     zero_rule\<lparr>r_Path := rq_Path req, r_Mode := rq_Mode req, r_SessionID := rq_SessionID req,
               r_ExpiresAt := now + 8 * hour\<rparr>"

definition askAndPersist ::
  "os_env \<Rightarrow> manager \<Rightarrow> notifier \<Rightarrow> others \<Rightarrow> flush_outcome \<Rightarrow> gotime \<Rightarrow> request \<Rightarrow> perm_store \<Rightarrow>
   decision \<times> perm_store" where
  "askAndPersist env m notify oth out now req s0 =
     (let s = before_lock oth s0 in
      if matchAllow env req (sn_Rules (ps_snap s)) (m_homeDir m) \<or>
         matchSessionAllow env req (sn_SessionGrants (ps_snap s)) (m_homeDir m) now
      then (allow_decision, s)
      else let s1 = during_prompt oth s in
        case notify req of
          Inl e \<Rightarrow> (deny_decision (PromptFailed e) NoReason, s1)
        | Inr PromptAllowOnce \<Rightarrow> (allow_decision, s1)
        | Inr PromptAllowSession \<Rightarrow>
            if rq_SessionID req = [] then (allow_decision, s1)
            else (allow_decision, snd (AddSessionRule out now (session_grant req now) s1))
        | Inr PromptAllowPermanent \<Rightarrow>
            (allow_decision,
             snd (AddPermanentRule out now
               (zero_rule\<lparr>r_Path := rq_Path req, r_Mode := rq_Mode req\<rparr>) s1))
        | Inr PromptDeny \<Rightarrow> (deny_decision (DeniedByUser []) (DeniedByUser (rq_Path req)), s1)
        | Inr PromptTimeout \<Rightarrow> (deny_decision (PromptTimedOut []) (PromptTimedOut (rq_Path req)), s1)
        | Inr (PromptOther resp) \<Rightarrow> (deny_decision (UnknownResponse resp) UnusableAnswer, s1))"

definition canonical_request :: "os_env \<Rightarrow> request \<Rightarrow> request" where
  "canonical_request env req =
     (case canonicalize env (rq_Path req) of
        Some c \<Rightarrow> req\<lparr>rq_Path := c\<rparr> | None \<Rightarrow> req)"

definition checkBody ::
  "os_env \<Rightarrow> manager \<Rightarrow> notifier \<Rightarrow> others \<Rightarrow> flush_outcome \<Rightarrow> gotime \<Rightarrow> request \<Rightarrow> perm_store \<Rightarrow>
   decision \<times> perm_store" where
  "checkBody env m notify oth out now req0 s =
     (if rq_Path req0 = [] then (deny_decision EmptyPath EmptyPath, s)
      else let req = canonical_request env req0; snap = ps_snap s in
        if matchHardlock env (rq_Path req) (sn_Rules snap) (m_homeDir m) \<noteq> None
        then (deny_decision (HardLocked (rq_Path req)) (HardLocked (rq_Path req)), s)
        else if rq_Mode req \<noteq> ModeRead \<and> IsMandatoryDenied env (rq_Path req)
        then (deny_decision (Protected (rq_Path req)) (Protected (rq_Path req)), s)
        else if m_workDir m \<noteq> [] \<and> pathInside (env_goos env) (rq_Path req) (m_workDir m)
        then (allow_decision, s)
        else if matchAllow env req (sn_Rules snap) (m_homeDir m) then (allow_decision, s)
        else if matchSessionAllow env req (sn_SessionGrants snap) (m_homeDir m) now
        then (allow_decision, s)
        else askAndPersist env m notify oth out now req s)"

definition Check ::
  "os_env \<Rightarrow> manager \<Rightarrow> notifier \<Rightarrow> others \<Rightarrow> flush_outcome \<Rightarrow> gotime \<Rightarrow> request \<Rightarrow> gate \<Rightarrow>
   decision \<times> gate" where
  "Check env m notify oth out now req g =
     (case checkBody env m notify oth out now req (g_store g) of
        (dec, s) \<Rightarrow> (dec, recordDecision ''path'' dec req (g\<lparr>g_store := s\<rparr>)))"

record exec_decision =
  ed_Action :: action
  ed_Reason :: reason
  ed_Warns :: "command_hit list"
  ed_Deny :: "command_hit option"

definition exec_event :: "string \<Rightarrow> reason \<Rightarrow> reason \<Rightarrow> string \<Rightarrow> audit_event" where
  "exec_event dec why model cmd =
     \<lparr>ae_source = ''exec'', ae_decision = dec, ae_path = [], ae_mode = [], ae_caller = [],
      ae_session = [], ae_reason = why, ae_modelReason = model, ae_matchedCommand = cmd\<rparr>"

definition warn_events :: "command_hit list \<Rightarrow> audit_event list" where
  "warn_events warns = map (\<lambda>w. exec_event ''warn'' (MatchedToken (ch_Token w)) NoReason (ch_Command w)) warns"

definition CheckExec :: "os_env \<Rightarrow> string \<Rightarrow> gate \<Rightarrow> exec_decision \<times> gate" where
  "CheckExec env code g =
     (case CheckCommandPolicy (env_goos env) (sn_CommandPolicy (ps_snap (g_store g))) code of
        (warns, deny) \<Rightarrow>
          let trail = g_audit g @ warn_events warns in
          case deny of
            Some h \<Rightarrow>
              (\<lparr>ed_Action = ActionDeny, ed_Reason = CommandDenied (ch_Command h) (ch_Token h),
                ed_Warns = warns, ed_Deny = Some h\<rparr>,
               g\<lparr>g_audit := trail @
                  [exec_event ''deny'' (CommandDenied (ch_Command h) (ch_Token h))
                     (CommandOnDenyList (ch_Command h)) (ch_Command h)]\<rparr>)
          | None \<Rightarrow>
              (\<lparr>ed_Action = ActionAllow, ed_Reason = NoReason, ed_Warns = warns, ed_Deny = None\<rparr>,
               g\<lparr>g_audit := trail @ [exec_event ''allow'' NoReason NoReason []]\<rparr>))"

definition AuditExecOnly :: "os_env \<Rightarrow> string \<Rightarrow> gate \<Rightarrow> gate" where
  "AuditExecOnly env code g =
     (case CheckCommandPolicy (env_goos env) (sn_CommandPolicy (ps_snap (g_store g))) code of
        (warns, deny) \<Rightarrow>
          let trail = g_audit g @ warn_events warns in
          case deny of
            Some h \<Rightarrow> g\<lparr>g_audit := trail @ [exec_event ''warn'' AuditOnlyDenyToken NoReason (ch_Command h)]\<rparr>
          | None \<Rightarrow> g\<lparr>g_audit := trail @ [exec_event ''allow'' NoReason NoReason []]\<rparr>)"

definition pty_request :: "string \<Rightarrow> string \<Rightarrow> request" where
  "pty_request sandboxName sessionID =
     \<lparr>rq_Path = ''PTY:'' @ sandboxName, rq_Mode = ModeExec, rq_Caller = ''pty.open'',
      rq_SessionID = sessionID\<rparr>"

definition CheckPTY ::
  "os_env \<Rightarrow> manager \<Rightarrow> notifier \<Rightarrow> others \<Rightarrow> flush_outcome \<Rightarrow> gotime \<Rightarrow> string \<Rightarrow> string \<Rightarrow> gate \<Rightarrow>
   decision \<times> gate" where
  "CheckPTY env m notify oth out now sandboxName sessionID g =
     (let req = pty_request sandboxName sessionID;
          finish = (\<lambda>dec s. (dec, recordDecision ''pty'' dec req (g\<lparr>g_store := s\<rparr>)));
          granted = (\<lambda>s. matchSessionAllow env req (sn_SessionGrants (ps_snap s)) (m_homeDir m) now);
          store_grant = (\<lambda>s. if sessionID = [] then s
                              else snd (AddSessionRule out now (session_grant req now) s))
      in if granted (g_store g) then finish allow_decision (g_store g)
         else let s = before_lock oth (g_store g) in
           if granted s then finish allow_decision s
           else let s1 = during_prompt oth s in
             case notify req of
               Inl e \<Rightarrow> finish (deny_decision (PtyPromptFailed e) NoReason) s1
             | Inr PromptAllowOnce \<Rightarrow> finish allow_decision s1
             | Inr PromptAllowSession \<Rightarrow> finish allow_decision (store_grant s1)
             | Inr PromptAllowPermanent \<Rightarrow> finish allow_decision (store_grant s1)
             | Inr PromptDeny \<Rightarrow> finish (deny_decision PtyDenied NoReason) s1
             | Inr PromptTimeout \<Rightarrow> finish (deny_decision PtyTimedOut NoReason) s1
             | Inr (PromptOther resp) \<Rightarrow> finish (deny_decision (UnknownResponse resp) NoReason) s1)"

text \<open>The two notifiers of \<^verbatim>\<open>notifier.go\<close>.\<close>

definition NopNotifier :: notifier where
  "NopNotifier req = Inr PromptDeny"

definition AlwaysAllowNotifier :: notifier where
  "AlwaysAllowNotifier req = Inr PromptAllowOnce"

text \<open>\<^verbatim>\<open>NewManager\<close>: a store and a notifier are required, the work directory must resolve, and the
  home directory defaults to the user's.\<close>

datatype manager_error = StoreRequired | NotifierRequired | BadWorkDir

definition NewManager ::
  "os_env \<Rightarrow> perm_store option \<Rightarrow> notifier option \<Rightarrow> string \<Rightarrow> string \<Rightarrow> manager_error + manager" where
  "NewManager env store notify workDir homeDir =
     (if store = None then Inl StoreRequired
      else case notify of
        None \<Rightarrow> Inl NotifierRequired
      | Some _ \<Rightarrow>
          (case canonicalize env workDir of
             None \<Rightarrow> Inl BadWorkDir
           | Some wd \<Rightarrow> Inr \<lparr>m_workDir = wd, m_homeDir = (if homeDir = [] then env_home env else homeDir)\<rparr>))"

section \<open>Containment of paths is containment of segments\<close>

lemma lower_char_fixed:
  assumes "of_char d < (65::nat)"
  shows "lower_char c = d \<longleftrightarrow> c = d"
proof
  assume l: "lower_char c = d"
  show "c = d"
  proof (cases "(65::nat) \<le> of_char c \<and> of_char c \<le> (90::nat)")
    case True
    with l have "d = char_of (of_char c + (32::nat))" by (simp add: lower_char_def)
    then have "of_char d = (of_char c + 32) mod (256::nat)" by simp
    with True assms show ?thesis by simp
  next
    case False
    with l show ?thesis by (simp only: lower_char_def if_False)
  qed
next
  assume "c = d"
  with assms show "lower_char c = d" by (simp add: lower_char_def)
qed

lemma lower_char_sep [simp]:
  "lower_char c = sep \<longleftrightarrow> c = sep" "sep = lower_char c \<longleftrightarrow> c = sep" "lower_char sep = sep"
  using lower_char_fixed [of sep] by (simp_all add: eq_commute [of sep])

lemma lower_char_dot [simp]: "lower_char c = CHR ''.'' \<longleftrightarrow> c = CHR ''.''" "lower_char CHR ''.'' = CHR ''.''"
  using lower_char_fixed [of "CHR ''.''"] by simp_all

lemma ToLower_dots: "ToLower w = ''.'' \<longleftrightarrow> w = ''.''" "ToLower w = ''..'' \<longleftrightarrow> w = ''..''"
  by (auto simp: ToLower_def)

lemma sep_ToLower: "sep \<in> set (ToLower w) \<longleftrightarrow> sep \<in> set w"
proof
  assume "sep \<in> set (ToLower w)"
  then have "\<exists>c \<in> set w. lower_char c = sep" by (auto simp: ToLower_def image_iff)
  then show "sep \<in> set w" by auto
next
  assume "sep \<in> set w"
  then have "lower_char sep \<in> set (ToLower w)" by (simp only: ToLower_def set_map imageI)
  then show "sep \<in> set (ToLower w)" by simp
qed

lemma name_seg_ToLower [simp]: "name_seg (ToLower w) \<longleftrightarrow> name_seg w"
  by (simp add: name_seg_def good_seg_def ToLower_dots sep_ToLower)

lemma ToLower_Join: "ToLower (Join ws [sep]) = Join (map ToLower ws) [sep]"
  by (induction ws rule: induct_list012) (simp_all add: ToLower_def)

lemma ToLower_abs_path: "ToLower (abs_path ws) = abs_path (map ToLower ws)"
  by (simp add: abs_path_def ToLower_Join [symmetric]) (simp add: ToLower_def)

lemma abs_path_prefix_iff:
  assumes "name_segs us" and "name_segs vs" and "vs \<noteq> []"
  shows "abs_path us = abs_path vs \<or> HasPrefix (abs_path us) (abs_path vs @ [sep]) \<longleftrightarrow> prefix vs us"
proof
  assume "prefix vs us"
  then obtain ws where us: "us = vs @ ws" by (auto simp: prefix_def)
  show "abs_path us = abs_path vs \<or> HasPrefix (abs_path us) (abs_path vs @ [sep])"
    using assms(3) us by (cases "ws = []") (auto simp: abs_path_def Join_append HasPrefix_iff)
next
  assume "abs_path us = abs_path vs \<or> HasPrefix (abs_path us) (abs_path vs @ [sep])"
  then show "prefix vs us"
  proof
    assume "abs_path us = abs_path vs"
    with assms show ?thesis by (simp add: abs_path_inject)
  next
    assume "HasPrefix (abs_path us) (abs_path vs @ [sep])"
    then obtain r where r: "abs_path us = abs_path vs @ sep # r" by (auto simp: HasPrefix_iff)
    then have "us \<noteq> []" using assms(3) by (cases "us = []") (auto simp: abs_path_def)
    then have "[] # us = ([] # vs) @ Split r sep"
      using r assms Split_abs_path [of us] Split_abs_path [of vs] by (simp add: Split_append_sep)
    then show ?thesis by (simp add: prefix_def)
  qed
qed

abbreviation fold_case :: "goos \<Rightarrow> string \<Rightarrow> string" where
  "fold_case os w \<equiv> (if caseInsensitiveFS os then ToLower w else w)"

lemma pathInside_segs:
  assumes "name_segs us" and "name_segs vs" and "vs \<noteq> []"
  shows "pathInside os (abs_path us) (abs_path vs) \<longleftrightarrow> prefix (map (fold_case os) vs) (map (fold_case os) us)"
proof (cases "caseInsensitiveFS os")
  case True
  have "pathInside os (abs_path us) (abs_path vs) \<longleftrightarrow>
      abs_path (map ToLower us) = abs_path (map ToLower vs) \<or>
      HasPrefix (abs_path (map ToLower us)) (abs_path (map ToLower vs) @ [sep])"
    using True by (simp add: pathInside_def ToLower_abs_path Let_def) (simp add: abs_path_def)
  also have "\<dots> \<longleftrightarrow> prefix (map ToLower vs) (map ToLower us)"
    using assms by (intro abs_path_prefix_iff) auto
  finally show ?thesis using True by simp
next
  case False
  have "pathInside os (abs_path us) (abs_path vs) \<longleftrightarrow>
      abs_path us = abs_path vs \<or> HasPrefix (abs_path us) (abs_path vs @ [sep])"
    using False by (simp add: pathInside_def Let_def) (simp add: abs_path_def)
  with abs_path_prefix_iff [OF assms] False show ?thesis by simp
qed

lemma pathInside_refl: "p \<noteq> [] \<Longrightarrow> pathInside os p p"
  by (simp add: pathInside_def Let_def)

section \<open>Canonical paths\<close>

text \<open>
  What the gate relies on of the file system: the working directory is absolute, resolving the
  links of an absolute path yields an absolute clean path that resolves to itself, the root
  resolves to itself, and a missing name stays missing when its directory is spelled canonically.
\<close>

definition fs_ok :: "os_env \<Rightarrow> bool" where
  "fs_ok env \<longleftrightarrow>
     (\<forall>d. env_wd env = Some d \<longrightarrow> IsAbs d) \<and>
     (\<forall>p r. clean_abs p \<longrightarrow> env_eval env p = Some r \<longrightarrow> clean_abs r \<and> env_eval env r = Some r) \<and>
     env_eval env (abs_path []) = Some (abs_path []) \<and>
     (\<forall>ws w. name_segs (ws @ [w]) \<longrightarrow> env_eval env (abs_path (ws @ [w])) = None \<longrightarrow>
        env_eval env (filepath_Join [resolveAncestors env (abs_path ws), w]) = None)"

lemma resolveAncestors_Some: "env_eval env p = Some r \<Longrightarrow> resolveAncestors env p = r"
  by (simp add: resolveAncestors.simps)

lemma snoc_neq: "name_segs (ws @ [w]) \<Longrightarrow> abs_path ws \<noteq> abs_path (ws @ [w])"
  using abs_path_inject [of ws "ws @ [w]"] by auto

lemma resolveAncestors_snoc:
  "name_segs (ws @ [w]) \<Longrightarrow> env_eval env (abs_path (ws @ [w])) = None \<Longrightarrow>
   resolveAncestors env (abs_path (ws @ [w])) = filepath_Join [resolveAncestors env (abs_path ws), w]"
  by (subst resolveAncestors.simps) (simp add: Dir_abs_path Base_abs_path snoc_neq)

lemma resolveAncestors_segs:
  assumes "fs_ok env" and "name_segs ws"
  shows "clean_abs (resolveAncestors env (abs_path ws)) \<and>
         resolveAncestors env (resolveAncestors env (abs_path ws)) = resolveAncestors env (abs_path ws)"
  using assms(2)
proof (induction ws rule: rev_induct)
  case Nil
  have "env_eval env (abs_path []) = Some (abs_path [])" using assms(1) by (simp add: fs_ok_def)
  then show ?case
    using clean_abs_abs_path [of "[]"] by (simp add: resolveAncestors_Some)
next
  case (snoc w ws)
  let ?p = "abs_path (ws @ [w])" and ?R = "resolveAncestors env (abs_path ws)"
  show ?case
  proof (cases "env_eval env ?p")
    case (Some r)
    moreover have "clean_abs ?p" by (rule clean_abs_abs_path) (rule snoc.prems)
    ultimately have "clean_abs r" "env_eval env r = Some r"
      using assms(1) unfolding fs_ok_def by blast+
    with Some show ?thesis by (simp add: resolveAncestors_Some)
  next
    case None
    have IH: "clean_abs ?R" "resolveAncestors env ?R = ?R" using snoc by auto
    then obtain rs where R: "?R = abs_path rs" "name_segs rs" by (auto elim: clean_absE)
    have w: "name_seg w" using snoc.prems by simp
    have q: "resolveAncestors env ?p = abs_path (rs @ [w])"
      using None snoc.prems R w by (simp add: resolveAncestors_snoc filepath_Join_abs_path)
    have "env_eval env (filepath_Join [?R, w]) = None"
      using assms(1) snoc.prems None unfolding fs_ok_def by blast
    then have "env_eval env (abs_path (rs @ [w])) = None"
      using R w by (simp add: filepath_Join_abs_path)
    then have "resolveAncestors env (abs_path (rs @ [w])) = abs_path (rs @ [w])"
      using R w IH(2) by (simp add: resolveAncestors_snoc filepath_Join_abs_path)
    moreover have "clean_abs (abs_path (rs @ [w]))"
      using R w by (intro clean_abs_abs_path) auto
    ultimately show ?thesis using q by simp
  qed
qed

lemma resolveAncestors_clean_abs:
  "fs_ok env \<Longrightarrow> clean_abs p \<Longrightarrow>
   clean_abs (resolveAncestors env p) \<and> resolveAncestors env (resolveAncestors env p) = resolveAncestors env p"
  by (elim clean_absE) (simp add: resolveAncestors_segs)

lemma Abs_clean:
  assumes "fs_ok env" and "Abs (env_wd env) p = Some a"
  shows "clean_abs (Clean a)"
proof -
  have "IsAbs a"
    using assms by (auto simp: Abs_def fs_ok_def split: if_splits option.splits
        intro: IsAbs_filepath_Join)
  then show ?thesis by (rule clean_abs_Clean)
qed

lemma canonicalize_clean_abs:
  "fs_ok env \<Longrightarrow> p \<noteq> [] \<Longrightarrow> canonicalize env p = Some c \<Longrightarrow> clean_abs c"
  using Abs_clean [of env p] resolveAncestors_clean_abs [of env]
  by (auto simp: canonicalize_def split: option.splits)

lemma canonicalize_idem:
  assumes "fs_ok env" and "p \<noteq> []" and "canonicalize env p = Some c"
  shows "canonicalize env c = Some c"
proof -
  have c: "clean_abs c" using assms by (rule canonicalize_clean_abs)
  then have "c \<noteq> []" and "Abs (env_wd env) c = Some c"
    by (auto simp: clean_abs_def Abs_def IsAbs_def HasPrefix_singleton)
  moreover have "Clean c = c" using c by (simp add: clean_abs_def)
  moreover obtain a where "Abs (env_wd env) p = Some a" "c = resolveAncestors env (Clean a)"
    using assms(2,3) by (auto simp: canonicalize_def split: option.splits)
  then have "resolveAncestors env c = c"
    using assms(1) Abs_clean resolveAncestors_clean_abs by blast
  ultimately show ?thesis by (simp add: canonicalize_def)
qed

lemma expandTilde_abs: "IsAbs p \<Longrightarrow> expandTilde p home = p"
  by (auto simp: expandTilde_def IsAbs_def HasPrefix_def prefix_def)

lemma ruleAbsPath_canonical:
  assumes "fs_ok env" and "p \<noteq> []" and "canonicalize env p = Some c"
  shows "ruleAbsPath env c home = c"
proof -
  have "clean_abs c" using assms by (rule canonicalize_clean_abs)
  then have "IsAbs c" "c \<noteq> []" by (auto simp: clean_abs_def IsAbs_def HasPrefix_singleton)
  then show ?thesis
    using canonicalize_idem [OF assms] by (simp add: ruleAbsPath_def expandTilde_abs)
qed

end
