(* ===== verification/Perm_Gate.thy ===== *)
theory Perm_Gate
  imports Perm_Manager
begin

text \<open>
  The properties of the permission gate as a whole: the store of \<^verbatim>\<open>store.go\<close>, the decision tree of
  \<^verbatim>\<open>manager.go\<close> and the mandatory deny list together. What the manager relies on of the rule store is
  the locale \<open>rule_store\<close>; the model of the store is its interpretation.
\<close>

section \<open>What the manager relies on of a rule store\<close>

locale rule_store =
  fixes rules :: "'s \<Rightarrow> rule list"
    and step :: "'s \<Rightarrow> 's \<Rightarrow> bool"
  assumes step_keeps: "step s t \<Longrightarrow> hardlock_paths (rules s) \<subseteq> hardlock_paths (rules t)"
begin

lemma steps_keep: "step\<^sup>*\<^sup>* s t \<Longrightarrow> hardlock_paths (rules s) \<subseteq> hardlock_paths (rules t)"
  by (induction rule: rtranclp_induct) (auto dest: step_keeps)

lemma locked_stays_locked:
  assumes "step\<^sup>*\<^sup>* s t" and "matchHardlock env p (rules s) home \<noteq> None"
  shows "matchHardlock env p (rules t) home \<noteq> None"
proof -
  from assms(2) obtain r where r: "r \<in> set (rules s)" "r_Scope r = ScopeHardlock" "rule_covers env home p r"
    by (auto simp: matchHardlock_def find_None_conv dest: find_SomeD)
  then have "r_Path r \<in> hardlock_paths (rules t)"
    using steps_keep [OF assms(1)] by (auto simp: hardlock_paths_def)
  then obtain r' where "r' \<in> set (rules t)" "r_Scope r' = ScopeHardlock" "r_Path r' = r_Path r"
    by (auto simp: hardlock_paths_def)
  with r(3) show ?thesis by (auto simp: matchHardlock_def find_None_conv rule_covers_def)
qed

end

interpretation pstore: rule_store "\<lambda>s. sn_Rules (ps_snap s)" store_step
  by unfold_locales (rule store_step_hardlocks)

section \<open>Lemmas on the decision tree\<close>

definition quiet :: others where
  "quiet = \<lparr>before_lock = id, during_prompt = id\<rparr>"

lemma quiet_simps [simp]: "before_lock quiet s = s" "during_prompt quiet s = s"
  by (simp_all add: quiet_def)

definition allowing :: "prompt_response \<Rightarrow> bool" where
  "allowing resp \<longleftrightarrow> resp \<in> {PromptAllowOnce, PromptAllowSession, PromptAllowPermanent}"

lemma askAndPersist_allow_iff:
  "d_Action (fst (askAndPersist env m notify oth out now req s)) = ActionAllow \<longleftrightarrow>
     matchAllow env req (sn_Rules (ps_snap (before_lock oth s))) (m_homeDir m) \<or>
     matchSessionAllow env req (sn_SessionGrants (ps_snap (before_lock oth s))) (m_homeDir m) now \<or>
     (\<exists>resp. notify req = Inr resp \<and> allowing resp)"
  by (auto simp: askAndPersist_def Let_def allowing_def split: sum.split prompt_response.split)

lemma askAndPersist_deny_iff:
  "d_Action (fst (askAndPersist env m notify oth out now req s)) = ActionDeny \<longleftrightarrow>
   d_Action (fst (askAndPersist env m notify oth out now req s)) \<noteq> ActionAllow"
  by (auto simp: askAndPersist_def Let_def split: sum.split prompt_response.split)

lemma checkBody_decides:
  "d_Action (fst (checkBody env m notify oth out now req s)) = ActionAllow \<or>
   d_Action (fst (checkBody env m notify oth out now req s)) = ActionDeny"
  using askAndPersist_deny_iff by (auto simp: checkBody_def Let_def)

lemma action_not_Nil [simp]:
  "ActionAllow \<noteq> []" "ActionDeny \<noteq> []" "[] \<noteq> ActionAllow" "[] \<noteq> ActionDeny"
  by (simp_all add: action_defs)

lemma upsertRule_permanent_hardlocks:
  "r_Scope r = ScopePermanent \<Longrightarrow>
   {e \<in> set (upsertRule rs r). r_Scope e = ScopeHardlock} \<subseteq> {e \<in> set rs. r_Scope e = ScopeHardlock}"
  by (induction rs r rule: upsertRule.induct) (auto split: if_splits)

lemma matchHardlock_None:
  "matchHardlock env p rs home = None \<longleftrightarrow>
   (\<forall>r \<in> set rs. r_Scope r = ScopeHardlock \<longrightarrow> \<not> rule_covers env home p r)"
  by (auto simp: matchHardlock_def find_None_conv)

lemma matchHardlock_upsert_permanent:
  "r_Scope r = ScopePermanent \<Longrightarrow> matchHardlock env p rs home = None \<Longrightarrow>
   matchHardlock env p (upsertRule rs r) home = None"
  using upsertRule_permanent_hardlocks unfolding matchHardlock_None by blast

lemma matchAllow_after_grant:
  assumes "fs_ok env" and "p \<noteq> []" and "canonicalize env p = Some c"
    and "file_mode (rq_Mode req)" and "rq_Path req = c"
    and "matchHardlock env c (sn_Rules (ps_snap s)) home = None"
    and "\<forall>e \<in> set (sn_Rules (ps_snap s)). r_Path e = c \<longrightarrow> r_Mode e \<noteq> ModeDeny"
  shows "matchAllow env req
    (sn_Rules (ps_snap (snd (AddPermanentRule out now (zero_rule\<lparr>r_Path := c, r_Mode := rq_Mode req\<rparr>) s)))) home"
proof -
  have c: "clean_abs c" using assms(1-3) by (rule canonicalize_clean_abs)
  then have "Clean c = c" "c \<noteq> []" by (auto simp: clean_abs_def IsAbs_def HasPrefix_singleton)
  have self: "rule_covers env home c e" if "r_Path e = c" for e
    using that \<open>c \<noteq> []\<close> ruleAbsPath_canonical [OF assms(1-3)]
    by (simp add: rule_covers_def pathInside_refl)
  define r where "r = zero_rule\<lparr>r_Path := c, r_Mode := rq_Mode req, r_Scope := ScopePermanent, r_GrantedAt := now\<rparr>"
  have stored: "sn_Rules (ps_snap (snd (AddPermanentRule out now (zero_rule\<lparr>r_Path := c, r_Mode := rq_Mode req\<rparr>) s)))
      = upsertRule (sn_Rules (ps_snap s)) r"
    using \<open>Clean c = c\<close> \<open>c \<noteq> []\<close>
    by (simp add: AddPermanentRule_def Let_def flushLocked_snap cleanRulePath_def r_def zero_rule_def)
  have "\<forall>e \<in> set (sn_Rules (ps_snap s)). r_Path e = c \<longrightarrow> r_Scope e \<noteq> ScopeHardlock"
    using assms(6) self unfolding matchHardlock_None by blast
  then have "\<exists>e \<in> set (upsertRule (sn_Rules (ps_snap s)) r). r_Path e = r_Path r \<and>
      r_Scope e = ScopePermanent \<and> r_Mode e \<noteq> ModeDeny \<and> Allows (r_Mode e) (r_Mode r)"
    using assms(4,7) by (intro upsertRule_permanent) (auto simp: r_def)
  then show ?thesis
    using self assms(5) by (auto simp: stored matchAllow_def list_ex_iff r_def)
qed

lemma matchHardlock_after_grant:
  "matchHardlock env p (sn_Rules (ps_snap s)) home = None \<Longrightarrow>
   matchHardlock env p (sn_Rules (ps_snap (snd (AddPermanentRule out now r s)))) home = None"
  by (simp add: AddPermanentRule_def Let_def flushLocked_snap matchHardlock_upsert_permanent)

lemma upsertRule_session_members:
  "r_Scope r = ScopeSession \<Longrightarrow> set (upsertRule rs r) \<subseteq> insert r (set rs)"
  by (induction rs r rule: upsertRule.induct) auto

section \<open>Properties of the decision\<close>

text \<open>Hard-locks come first: a request whose resolved path lies under a hard-locked rule is
  denied with the store unchanged, whatever the work directory, the other rules, the session
  grants, the notifier and the concurrent calls are.\<close>

theorem hardlock_denies:
  assumes "rq_Path req \<noteq> []"
    and "matchHardlock env (rq_Path (canonical_request env req)) (sn_Rules (ps_snap s)) (m_homeDir m) \<noteq> None"
  shows "d_Action (fst (checkBody env m notify oth out now req s)) = ActionDeny \<and>
         snd (checkBody env m notify oth out now req s) = s"
  using assms by (simp add: checkBody_def Let_def)

definition demo_env :: os_env where
  "demo_env = \<lparr>env_goos = Linux, env_wd = Some ''/'', env_eval = (\<lambda>p. if clean_abs p then Some p else None),
               env_regular = (\<lambda>_. False), env_home = ''/home/me''\<rparr>"

definition demo_manager :: manager where
  "demo_manager = \<lparr>m_workDir = ''/home/me'', m_homeDir = ''/home/me''\<rparr>"

definition demo_store :: perm_store where
  "demo_store = \<lparr>ps_snap = \<lparr>sn_Version = 1, sn_User = [], sn_WorkDir = [],
      sn_Rules = [zero_rule\<lparr>r_Path := ''~/.ssh'', r_Mode := ModeDeny, r_Scope := ScopeHardlock\<rparr>],
      sn_SessionGrants = [], sn_CommandPolicy = \<lparr>cp_Deny = [], cp_Warn = []\<rparr>, sn_UpdatedAt = 0\<rparr>,
      ps_disk = None\<rparr>"

definition demo_req :: "string \<Rightarrow> mode \<Rightarrow> request" where
  "demo_req p md = \<lparr>rq_Path = p, rq_Mode = md, rq_Caller = [], rq_SessionID = []\<rparr>"

theorem hardlock_denies_witness:
  "d_Action (fst (checkBody demo_env demo_manager AlwaysAllowNotifier quiet FlushOk 1
     (demo_req ''/home/me/.ssh/id_rsa'' ModeRead) demo_store)) = ActionDeny"
proof -
  have "rq_Path (demo_req ''/home/me/.ssh/id_rsa'' ModeRead) \<noteq> []"
    by (simp add: demo_req_def)
  moreover have "matchHardlock demo_env
      (rq_Path (canonical_request demo_env (demo_req ''/home/me/.ssh/id_rsa'' ModeRead)))
      (sn_Rules (ps_snap demo_store)) (m_homeDir demo_manager) \<noteq> None"
    by code_simp
  ultimately show ?thesis by (rule hardlock_denies [THEN conjunct1])
qed

text \<open>A write to a path on the mandatory deny list is denied even inside the work directory
  and under a permanent grant, and changes nothing.\<close>

theorem mandatory_write_denied:
  assumes "rq_Mode req \<noteq> ModeRead" and "IsMandatoryDenied env (rq_Path (canonical_request env req))"
  shows "d_Action (fst (checkBody env m notify oth out now req s)) = ActionDeny \<and>
         snd (checkBody env m notify oth out now req s) = s"
  using assms by (simp add: checkBody_def canonical_request_def Let_def split: option.splits)

theorem mandatory_write_denied_witness:
  "d_Action (fst (checkBody demo_env demo_manager AlwaysAllowNotifier quiet FlushOk 1
     (demo_req ''/home/me/repo/.git/hooks/pre-commit'' ModeWrite) demo_store)) = ActionDeny"
proof -
  let ?req = "demo_req ''/home/me/repo/.git/hooks/pre-commit'' ModeWrite"
  have "rq_Mode ?req \<noteq> ModeRead" by (simp add: demo_req_def)
  moreover have "IsMandatoryDenied demo_env (rq_Path (canonical_request demo_env ?req))"
    by code_simp
  ultimately show ?thesis by (rule mandatory_write_denied [THEN conjunct1])
qed

text \<open>Claim C1. The gate allows or denies, nothing else, and what an allow can rest on is exactly this: the path is not empty, not under a hard-lock, not a
  write to a mandatory-deny path, and it lies in the work directory, or a permanent rule or a live
  session grant covers it (before or after waiting for the prompt), or the notifier answered with
  one of its three allow responses. In every other case the gate denies.\<close>

theorem checkBody_allow_iff:
  "d_Action (fst (checkBody env m notify oth out now req0 s)) =
     (let req = canonical_request env req0; home = m_homeDir m; s1 = before_lock oth s in
      if rq_Path req0 \<noteq> [] \<and>
      matchHardlock env (rq_Path req) (sn_Rules (ps_snap s)) home = None \<and>
      (rq_Mode req0 = ModeRead \<or> IsMandatoryDenied env (rq_Path req) = False) \<and>
      ((m_workDir m \<noteq> [] \<and> pathInside (env_goos env) (rq_Path req) (m_workDir m)) \<or>
       matchAllow env req (sn_Rules (ps_snap s)) home \<or>
       matchSessionAllow env req (sn_SessionGrants (ps_snap s)) home now \<or>
       matchAllow env req (sn_Rules (ps_snap s1)) home \<or>
       matchSessionAllow env req (sn_SessionGrants (ps_snap s1)) home now \<or>
       notify req \<in> {Inr PromptAllowOnce, Inr PromptAllowSession, Inr PromptAllowPermanent})
      then ActionAllow else ActionDeny)"
proof -
  have two: "a = (if P then ActionAllow else ActionDeny)"
    if "a = ActionAllow \<or> a = ActionDeny" and "a = ActionAllow \<longleftrightarrow> P" for a and P :: bool
    using that by (auto simp: action_defs)
  have md: "rq_Mode (canonical_request env req0) = rq_Mode req0"
    by (simp add: canonical_request_def split: option.split)
  show ?thesis
    unfolding Let_def
    by (rule two [OF checkBody_decides]) (simp add: checkBody_def Let_def md askAndPersist_allow_iff allowing_def, blast)
qed

text \<open>Every decision is final: the gate never leaves a request undecided, and each call adds
  exactly one record to the audit trail, with the decision taken and the path as requested.\<close>

theorem Check_audited:
  "(case Check env m notify oth out now req g of (dec, g') \<Rightarrow>
      d_Action dec \<in> {ActionAllow, ActionDeny} \<and>
      (\<exists>e. g_audit g' = g_audit g @ [e] \<and> ae_decision e = d_Action dec \<and>
           ae_path e = rq_Path req \<and> ae_reason e = d_Reason dec))"
  using checkBody_decides [of env m notify oth out now req "g_store g"]
  by (auto simp: Check_def recordDecision_def split: prod.split)

text \<open>Claim C26. A path that is denied for a hard-lock stays denied through any sequence of later store
  operations other than the explicit unlock, whatever the disk does during them.\<close>

theorem hardlock_stays_denied:
  assumes "store_step\<^sup>*\<^sup>* s t" and "rq_Path req \<noteq> []"
    and "matchHardlock env (rq_Path (canonical_request env req)) (sn_Rules (ps_snap s)) (m_homeDir m) \<noteq> None"
  shows "d_Action (fst (checkBody env m notify oth out now req t)) = ActionDeny"
  using pstore.locked_stays_locked [OF assms(1,3)] assms(2) by (simp add: checkBody_def Let_def)

theorem hardlock_stays_denied_witness:
  "d_Action (fst (checkBody demo_env demo_manager AlwaysAllowNotifier quiet FlushOk 1
     (demo_req ''/home/me/.ssh/id_rsa'' ModeRead)
     (snd (RemoveRule FlushOk 2 ''~/.ssh'' False
       (snd (AddPermanentRule RenameFails 1 (zero_rule\<lparr>r_Path := ''~/.ssh'', r_Mode := ModeReadWrite\<rparr>) demo_store)))))) = ActionDeny"
proof (rule hardlock_stays_denied)
  let ?s1 = "snd (AddPermanentRule RenameFails 1 (zero_rule\<lparr>r_Path := ''~/.ssh'', r_Mode := ModeReadWrite\<rparr>) demo_store)"
  have "store_step demo_store ?s1" by (rule add_permanent)
  moreover have "store_step ?s1 (snd (RemoveRule FlushOk 2 ''~/.ssh'' False ?s1))" by (rule remove_rule)
  ultimately show "store_step\<^sup>*\<^sup>* demo_store (snd (RemoveRule FlushOk 2 ''~/.ssh'' False ?s1))"
    by (meson converse_rtranclp_into_rtranclp rtranclp.rtrancl_refl)
  show "rq_Path (demo_req ''/home/me/.ssh/id_rsa'' ModeRead) \<noteq> []" by (simp add: demo_req_def)
  show "matchHardlock demo_env
      (rq_Path (canonical_request demo_env (demo_req ''/home/me/.ssh/id_rsa'' ModeRead)))
      (sn_Rules (ps_snap demo_store)) (m_homeDir demo_manager) \<noteq> None" by code_simp
qed

text \<open>A permanent answer is remembered: after the user granted a file request permanently,
  the same request is allowed again without the notifier having a say, whatever the outcome of
  writing the file was.\<close>

theorem permanent_answer_is_remembered:
  assumes fs: "fs_ok env" and ne: "rq_Path req \<noteq> []" and can: "canonicalize env (rq_Path req) = Some c"
    and md: "rq_Mode req \<in> {ModeRead, ModeWrite, ModeReadWrite}"
    and answer: "notify (canonical_request env req) = Inr PromptAllowPermanent"
    and lock: "matchHardlock env c (sn_Rules (ps_snap s)) (m_homeDir m) = None"
    and mand: "rq_Mode req = ModeRead \<or> IsMandatoryDenied env c = False"
    and sess: "matchSessionAllow env (canonical_request env req) (sn_SessionGrants (ps_snap s)) (m_homeDir m) now = False"
    and nodeny: "\<forall>e \<in> set (sn_Rules (ps_snap s)). r_Path e = c \<longrightarrow> r_Mode e \<noteq> ModeDeny"
  shows "fst (checkBody env m notify' oth' out' now' req (snd (checkBody env m notify quiet out now req s))) = allow_decision"
proof -
  let ?req = "canonical_request env req" and ?s' = "snd (checkBody env m notify quiet out now req s)"
  have q: "rq_Path ?req = c" "rq_Mode ?req = rq_Mode req" using can by (simp_all add: canonical_request_def)
  consider (work) "m_workDir m \<noteq> [] \<and> pathInside (env_goos env) c (m_workDir m)"
    | (rule) "\<not> (m_workDir m \<noteq> [] \<and> pathInside (env_goos env) c (m_workDir m))"
        "matchAllow env ?req (sn_Rules (ps_snap s)) (m_homeDir m)"
    | (ask) "\<not> (m_workDir m \<noteq> [] \<and> pathInside (env_goos env) c (m_workDir m))"
        "\<not> matchAllow env ?req (sn_Rules (ps_snap s)) (m_homeDir m)" by blast
  then show ?thesis
  proof cases
    case ask
    have s': "?s' = snd (AddPermanentRule out now (zero_rule\<lparr>r_Path := c, r_Mode := rq_Mode req\<rparr>) s)"
      using ask ne lock mand sess answer q by (auto simp: checkBody_def askAndPersist_def Let_def)
    have "matchAllow env ?req (sn_Rules (ps_snap ?s')) (m_homeDir m)"
      unfolding s' using matchAllow_after_grant [OF fs ne can, of ?req] md lock nodeny q by simp
    moreover have "matchHardlock env c (sn_Rules (ps_snap ?s')) (m_homeDir m) = None"
      unfolding s' using lock by (rule matchHardlock_after_grant)
    ultimately show ?thesis
      using ne mand q by (auto simp: checkBody_def Let_def)
  qed (use ne lock mand q in \<open>auto simp: checkBody_def Let_def\<close>)
qed

lemma fs_ok_demo: "fs_ok demo_env"
  unfolding fs_ok_def by (auto simp: demo_env_def clean_abs_abs_path IsAbs_def HasPrefix_singleton)

theorem permanent_answer_is_remembered_witness:
  "fst (checkBody demo_env demo_manager NopNotifier quiet FlushOk 9 (demo_req ''/data/x.csv'' ModeRead)
     (snd (checkBody demo_env demo_manager (\<lambda>_. Inr PromptAllowPermanent) quiet WriteTmpFails 5
        (demo_req ''/data/x.csv'' ModeRead) demo_store))) = allow_decision"
proof (rule permanent_answer_is_remembered [where c = "''/data/x.csv''"])
  show "fs_ok demo_env" by (rule fs_ok_demo)
  show "canonicalize demo_env (rq_Path (demo_req ''/data/x.csv'' ModeRead)) = Some ''/data/x.csv''"
    by code_simp
  show "matchHardlock demo_env ''/data/x.csv'' (sn_Rules (ps_snap demo_store)) (m_homeDir demo_manager) = None"
    by code_simp
  show "matchSessionAllow demo_env (canonical_request demo_env (demo_req ''/data/x.csv'' ModeRead))
      (sn_SessionGrants (ps_snap demo_store)) (m_homeDir demo_manager) 5 = False"
    by (simp add: demo_store_def matchSessionAllow_def)
  show "\<forall>e \<in> set (sn_Rules (ps_snap demo_store)). r_Path e = ''/data/x.csv'' \<longrightarrow> r_Mode e \<noteq> ModeDeny"
    by (simp add: demo_store_def)
qed (simp_all add: demo_req_def)

section \<open>Session grants, terminals and containment\<close>

text \<open>A session grant serves its own session only, and not after it expired: when every
  grant on record belongs to another session or has expired, none of them allows the request,
  whatever paths and modes they cover.\<close>

theorem session_grant_isolated:
  assumes "\<forall>r \<in> set grants. (r_SessionID r \<noteq> [] \<and> r_SessionID r \<noteq> rq_SessionID req) \<or>
             (r_ExpiresAt r \<noteq> 0 \<and> r_ExpiresAt r < now)"
  shows "\<not> matchSessionAllow env req grants home now"
  using assms by (auto simp: matchSessionAllow_def list_ex_iff expired_def)

theorem session_grant_isolated_witness:
  "\<not> matchSessionAllow demo_env ((demo_req ''/data/x'' ModeRead)\<lparr>rq_SessionID := ''s2''\<rparr>)
      [session_grant ((demo_req ''/data'' ModeRead)\<lparr>rq_SessionID := ''s1''\<rparr>) 10] ''/home/me'' 20"
  by (rule session_grant_isolated) (simp add: session_grant_def zero_rule_def demo_req_def)

text \<open>Session grants are keyed by path alone: a second session's grant of the same path
  replaces the first session's, which is then denied again by the grants table, although its own
  grant had not expired.\<close>

theorem session_grant_evicts:
  "let r1 = (demo_req ''/data/x'' ModeRead)\<lparr>rq_SessionID := ''s1''\<rparr>;
       r2 = (demo_req ''/data/x'' ModeRead)\<lparr>rq_SessionID := ''s2''\<rparr>;
       t1 = snd (AddSessionRule FlushOk 10 (session_grant r1 10) demo_store);
       t2 = snd (AddSessionRule FlushOk 20 (session_grant r2 20) t1)
   in matchSessionAllow demo_env r1 (sn_SessionGrants (ps_snap t1)) ''/home/me'' 15 = True \<and>
      matchSessionAllow demo_env r1 (sn_SessionGrants (ps_snap t2)) ''/home/me'' 25 = False \<and>
      matchSessionAllow demo_env r2 (sn_SessionGrants (ps_snap t2)) ''/home/me'' 25 = True"
  unfolding Let_def by (intro conjI; code_simp)

text \<open>A terminal is never granted permanently: whatever the user answers, opening a PTY leaves
  the permanent rules and hard-locks as the concurrent calls left them, and every attempt, allowed or
  not, leaves exactly one audit record with its decision.\<close>

theorem pty_never_permanent:
  "case CheckPTY env m notify oth out now sandboxName sessionID g of (dec, g') \<Rightarrow>
     sn_Rules (ps_snap (g_store g')) \<in>
       {sn_Rules (ps_snap (g_store g)), sn_Rules (ps_snap (before_lock oth (g_store g))),
        sn_Rules (ps_snap (during_prompt oth (before_lock oth (g_store g))))} \<and>
     d_Action dec \<in> {ActionAllow, ActionDeny} \<and>
     (\<exists>e. g_audit g' = g_audit g @ [e] \<and> ae_decision e = d_Action dec \<and> ae_path e = ''PTY:'' @ sandboxName)"
  by (simp add: CheckPTY_def Let_def recordDecision_def pty_request_def AddSessionRule_rules
      split: sum.split prompt_response.split)

text \<open>Containment of paths is containment of path segments: for absolute clean paths other than
  the root as parent, a path is inside another exactly when the parent's segments are a prefix of the
  child's (compared without case on macOS and Windows), so a sibling that merely shares the parent's
  name as a string prefix is never inside.\<close>

theorem pathInside_is_segment_prefix:
  assumes "name_segs us" and "name_segs vs" and "vs \<noteq> []"
  shows "pathInside os (abs_path us) (abs_path vs) \<longleftrightarrow>
    prefix (map (\<lambda>w. if caseInsensitiveFS os then ToLower w else w) vs)
           (map (\<lambda>w. if caseInsensitiveFS os then ToLower w else w) us)"
  using assms by (rule pathInside_segs)

theorem pathInside_is_segment_prefix_witness:
  "\<not> pathInside Linux (abs_path [''data'', ''workspace-2'']) (abs_path [''data'', ''workspace'']) \<and>
   pathInside Darwin (abs_path [''Data'', ''a'']) (abs_path [''data''])"
proof
  show "\<not> pathInside Linux (abs_path [''data'', ''workspace-2'']) (abs_path [''data'', ''workspace''])"
    by (subst pathInside_is_segment_prefix)
      (simp_all add: name_seg_def good_seg_def caseInsensitiveFS_def)
  show "pathInside Darwin (abs_path [''Data'', ''a'']) (abs_path [''data''])"
    by (subst pathInside_is_segment_prefix, simp_all add: name_seg_def good_seg_def caseInsensitiveFS_def) code_simp
qed

text \<open>The file-system root as a parent contains only itself: a hard-lock or a rule on \<open>/\<close>
  matches an absolute path only if that path is the root, or is spelled with a double slash at the
  front, which no clean path is.\<close>

theorem pathInside_root:
  "pathInside os (abs_path ws) (abs_path []) \<longleftrightarrow> abs_path ws = abs_path [] \<or> HasPrefix (abs_path ws) [sep, sep]"
  by (auto simp: pathInside_def abs_path_def Let_def ToLower_def HasPrefix_iff)

text \<open>The command gate denies exactly when the command policy finds a denied command, records
  one warning per hit of the warn list and one final record with the decision, and never touches the
  store.\<close>

theorem CheckExec_decides:
  "case CheckExec env code g of (dec, g') \<Rightarrow>
     g_store g' = g_store g \<and>
     (case CheckCommandPolicy (env_goos env) (sn_CommandPolicy (ps_snap (g_store g))) code of (warns, deny) \<Rightarrow>
        ed_Action dec = (if deny = None then ActionAllow else ActionDeny) \<and>
        ed_Warns dec = warns \<and> ed_Deny dec = deny \<and>
        (\<exists>e. g_audit g' = g_audit g @ warn_events warns @ [e] \<and> ae_decision e = ed_Action dec))"
  by (auto simp: CheckExec_def Let_def exec_event_def action_defs split: prod.split option.split)

end
