(* ===== verification/Go_Netip.thy ===== *)
theory Go_Netip
  imports Go_Prelude "HOL-Library.Word"
begin

unbundle bit_operations_syntax

text \<open>
  What the egress code uses of the standard package \<^verbatim>\<open>net/netip\<close>: addresses as machine words (32 bits,
  or 128 bits with a zone), parsing of addresses and prefixes, the classification predicates and
  containment in a prefix. A \<^verbatim>\<open>netip.Addr\<close> compares with \<open>==\<close> on all its fields, the zone included;
  a prefix contains no address that carries a zone.
\<close>

section \<open>Addresses\<close>

datatype addr = V4 "32 word" | V6 "128 word" string

definition is4in6 :: "128 word \<Rightarrow> bool" where
  "is4in6 w \<longleftrightarrow> drop_bit 32 w = 0xffff"

fun Is4In6 :: "addr \<Rightarrow> bool" where
  "Is4In6 (V4 _) = False"
| "Is4In6 (V6 w _) = is4in6 w"

fun Unmap :: "addr \<Rightarrow> addr" where
  "Unmap (V4 w) = V4 w"
| "Unmap (V6 w z) = (if is4in6 w then V4 (ucast w) else V6 w z)"

fun BitLen :: "addr \<Rightarrow> nat" where
  "BitLen (V4 _) = 32"
| "BitLen (V6 _ _) = 128"

fun hasZone :: "addr \<Rightarrow> bool" where
  "hasZone (V4 _) = False"
| "hasZone (V6 _ z) = (z \<noteq> [])"

text \<open>The predicates unmap an IPv4-mapped address first, as the package does.\<close>

fun IsLoopback4 :: "addr \<Rightarrow> bool" where
  "IsLoopback4 (V4 w) = (drop_bit 24 w = 127)"
| "IsLoopback4 (V6 w _) = (w = 1)"

definition IsLoopback :: "addr \<Rightarrow> bool" where
  "IsLoopback a = IsLoopback4 (Unmap a)"

definition IsUnspecified :: "addr \<Rightarrow> bool" where
  "IsUnspecified a \<longleftrightarrow> a = V4 0 \<or> a = V6 0 []"

fun IsLinkLocalUnicast4 :: "addr \<Rightarrow> bool" where
  "IsLinkLocalUnicast4 (V4 w) = (drop_bit 16 w = 0xa9fe)"
| "IsLinkLocalUnicast4 (V6 w _) = (drop_bit 112 w AND 0xffc0 = 0xfe80)"

definition IsLinkLocalUnicast :: "addr \<Rightarrow> bool" where
  "IsLinkLocalUnicast a = IsLinkLocalUnicast4 (Unmap a)"

fun IsMulticast4 :: "addr \<Rightarrow> bool" where
  "IsMulticast4 (V4 w) = (drop_bit 24 w AND 0xf0 = 0xe0)"
| "IsMulticast4 (V6 w _) = (drop_bit 120 w = 0xff)"

definition IsMulticast :: "addr \<Rightarrow> bool" where
  "IsMulticast a = IsMulticast4 (Unmap a)"

fun IsInterfaceLocalMulticast :: "addr \<Rightarrow> bool" where
  "IsInterfaceLocalMulticast (V4 w) = False"
| "IsInterfaceLocalMulticast (V6 w _) = (\<not> is4in6 w \<and> drop_bit 112 w AND 0xff0f = 0xff01)"

fun IsLinkLocalMulticast4 :: "addr \<Rightarrow> bool" where
  "IsLinkLocalMulticast4 (V4 w) = (drop_bit 8 w = 0xe00000)"
| "IsLinkLocalMulticast4 (V6 w _) = (drop_bit 112 w AND 0xff0f = 0xff02)"

definition IsLinkLocalMulticast :: "addr \<Rightarrow> bool" where
  "IsLinkLocalMulticast a = IsLinkLocalMulticast4 (Unmap a)"

section \<open>Parsing an address\<close>

text \<open>The dotted quad: exactly four fields of decimal digits, each at most 255 and without a leading
  zero.\<close>

definition octet :: "string \<Rightarrow> int option" where
  "octet w = (if w \<noteq> [] \<and> list_all is_digit w \<and> (length w > 1 \<longrightarrow> hd w \<noteq> CHR ''0'') \<and> length w \<le> 3 \<and>
      digits_val w \<le> 255 then Some (int (digits_val w)) else None)"

fun octets :: "string list \<Rightarrow> int list option" where
  "octets [] = Some []"
| "octets (w # ws) =
     (case octet w of None \<Rightarrow> None
      | Some v \<Rightarrow> map_option (\<lambda>vs. v # vs) (octets ws))"

definition parseIPv4Fields :: "string \<Rightarrow> int option" where
  "parseIPv4Fields s =
     (let ws = Split s CHR ''.''
      in if length ws \<noteq> 4 then None
         else map_option (\<lambda>vs. foldl (\<lambda>a v. a * 256 + v) 0 vs) (octets ws))"

text \<open>IPv6: groups of one to four hexadecimal digits, one \<open>::\<close> for at least one zero group, an
  embedded dotted quad at the end, a zone after \<open>%\<close>. The loop reads at most eight groups; \<open>gs\<close> are
  the groups read so far and \<open>el\<close> the position of the ellipsis among them.\<close>

definition hex_val :: "char \<Rightarrow> nat option" where
  "hex_val c =
     (let n = of_char c :: nat in
      if 48 \<le> n \<and> n \<le> 57 then Some (n - 48)
      else if 97 \<le> n \<and> n \<le> 102 then Some (n - 87)
      else if 65 \<le> n \<and> n \<le> 70 then Some (n - 55)
      else None)"

definition hex_group :: "string \<Rightarrow> int" where
  "hex_group ds = foldl (\<lambda>a c. a * 16 + int (the (hex_val c))) 0 ds"

definition is_hex :: "char \<Rightarrow> bool" where
  "is_hex c \<longleftrightarrow> hex_val c \<noteq> None"

fun v6_loop :: "nat \<Rightarrow> int list \<Rightarrow> nat option \<Rightarrow> string \<Rightarrow> (int list \<times> nat option) option" where
  "v6_loop 0 gs el s = (if s = [] then Some (gs, el) else None)"
| "v6_loop (Suc n) gs el s =
     (let ds = takeWhile is_hex s; rest = dropWhile is_hex s in
      if ds = [] \<or> length ds > 4 then None
      else case rest of
        [] \<Rightarrow> Some (gs @ [hex_group ds], el)
      | c # more \<Rightarrow>
          if c = CHR ''.'' then
            (if (el = None \<and> length gs \<noteq> 6) \<or> length gs > 6 then None
             else map_option (\<lambda>v. (gs @ [v div 65536, v mod 65536], el)) (parseIPv4Fields s))
          else if c \<noteq> CHR '':'' \<or> more = [] then None
          else let gs' = gs @ [hex_group ds] in
            if hd more = CHR '':'' then
              (if el \<noteq> None then None
               else if tl more = [] then Some (gs', Some (length gs'))
               else v6_loop n gs' (Some (length gs')) (tl more))
            else v6_loop n gs' el more)"

definition expand_groups :: "int list \<Rightarrow> nat option \<Rightarrow> int list option" where
  "expand_groups gs el =
     (if length gs < 8 then
        (case el of None \<Rightarrow> None
         | Some k \<Rightarrow> Some (take k gs @ replicate (8 - length gs) 0 @ drop k gs))
      else if el \<noteq> None then None else Some gs)"

definition groups_word :: "int list \<Rightarrow> 128 word" where
  "groups_word gs = word_of_int (foldl (\<lambda>a g. a * 65536 + g) 0 gs)"

definition parseIPv6 :: "string \<Rightarrow> addr option" where
  "parseIPv6 inp =
     (case Cut inp CHR ''%'' of (s, zone, found) \<Rightarrow>
        if found \<and> zone = [] then None
        else if HasPrefix s ''::'' \<and> length s = 2 then Some (V6 0 zone)
        else let lead = HasPrefix s ''::''; s1 = (if lead then drop 2 s else s) in
          case v6_loop 8 [] (if lead then Some 0 else None) s1 of
            None \<Rightarrow> None
          | Some (gs, el) \<Rightarrow> map_option (\<lambda>g. V6 (groups_word g) zone) (expand_groups gs el))"

fun first_mark :: "string \<Rightarrow> char option" where
  "first_mark [] = None"
| "first_mark (c # s) = (if c = CHR ''.'' \<or> c = CHR '':'' \<or> c = CHR ''%'' then Some c else first_mark s)"

definition ParseAddr :: "string \<Rightarrow> addr option" where
  "ParseAddr s =
     (case first_mark s of
        None \<Rightarrow> None
      | Some c \<Rightarrow>
          if c = CHR ''.'' then map_option (\<lambda>v. V4 (word_of_int v)) (parseIPv4Fields s)
          else if c = CHR '':'' then parseIPv6 s
          else None)"

section \<open>Prefixes\<close>

record ip_prefix =
  pf_addr :: addr
  pf_bits :: nat

definition withoutZone :: "addr \<Rightarrow> addr" where
  "withoutZone a = (case a of V4 w \<Rightarrow> V4 w | V6 w _ \<Rightarrow> V6 w [])"

definition PrefixFrom :: "addr \<Rightarrow> nat \<Rightarrow> ip_prefix" where
  "PrefixFrom a n = \<lparr>pf_addr = withoutZone a, pf_bits = n\<rparr>"

definition ParsePrefix :: "string \<Rightarrow> ip_prefix option" where
  "ParsePrefix s =
     (case LastIndexByte s CHR ''/'' of
        None \<Rightarrow> None
      | Some i \<Rightarrow>
          (case ParseAddr (take i s) of
             None \<Rightarrow> None
           | Some ip \<Rightarrow>
               let bits = drop (Suc i) s in
               if hasZone ip then None
               else if length bits > 1 \<and> (\<not> is_digit (hd bits) \<or> hd bits = CHR ''0'') then None
               else (case Atoi bits of
                       None \<Rightarrow> None
                     | Some n \<Rightarrow> if n < 0 \<or> n > int (BitLen ip) then None
                                else Some (PrefixFrom ip (nat n)))))"

fun top_bits :: "nat \<Rightarrow> addr \<Rightarrow> addr" where
  "top_bits n (V4 w) = V4 (push_bit (32 - n) (drop_bit (32 - n) w))"
| "top_bits n (V6 w z) = V6 (push_bit (128 - n) (drop_bit (128 - n) w)) z"

definition Masked :: "ip_prefix \<Rightarrow> ip_prefix" where
  "Masked p = p\<lparr>pf_addr := top_bits (pf_bits p) (pf_addr p)\<rparr>"

definition prefix_Contains :: "ip_prefix \<Rightarrow> addr \<Rightarrow> bool" where
  "prefix_Contains p ip =
     (case (pf_addr p, ip) of
        (V4 a, V4 b) \<Rightarrow> drop_bit (32 - pf_bits p) (a XOR b) = 0
      | (V6 a _, V6 b z) \<Rightarrow> z = [] \<and> drop_bit (128 - pf_bits p) (a XOR b) = 0
      | _ \<Rightarrow> False)"

section \<open>Lemmas\<close>

lemma is4in6_not_Unmap: "Unmap a = V6 w z \<Longrightarrow> \<not> is4in6 w"
  by (cases a) (auto split: if_splits)

lemma Unmap_idem [simp]: "Unmap (Unmap a) = Unmap a"
  by (cases a) auto

lemma Is4In6_Unmap [simp]: "\<not> Is4In6 (Unmap a)"
  by (cases a) auto

lemma drop_bit_XOR_zero:
  fixes a b :: "'a::len word"
  shows "drop_bit k (a XOR b) = 0 \<longleftrightarrow> drop_bit k a = drop_bit k b"
  by (auto simp: bit_eq_iff bit_simps)

lemmas xor_zero_iff = drop_bit_XOR_zero [of 0, simplified]

lemma drop_push_drop:
  fixes a :: "'a::len word"
  assumes "k \<le> LENGTH('a)"
  shows "drop_bit k (push_bit k (drop_bit k a)) = drop_bit k a"
  using assms by (auto simp: bit_eq_iff bit_simps dest: bit_imp_le_length)

text \<open>Masking a prefix does not change what it contains.\<close>

lemma prefix_Contains_Masked: "prefix_Contains (Masked p) ip = prefix_Contains p ip"
  by (cases "pf_addr p"; cases ip)
    (auto simp: prefix_Contains_def Masked_def drop_bit_XOR_zero drop_push_drop)

lemma prefix_Contains_single:
  "prefix_Contains (PrefixFrom a (BitLen a)) b \<longleftrightarrow> b = withoutZone a"
  by (cases a; cases b) (auto simp: prefix_Contains_def PrefixFrom_def withoutZone_def xor_zero_iff)

lemma prefix_Contains_drop:
  "prefix_Contains p ip =
     (case (pf_addr p, ip) of
        (V4 a, V4 b) \<Rightarrow> drop_bit (32 - pf_bits p) a = drop_bit (32 - pf_bits p) b
      | (V6 a _, V6 b z) \<Rightarrow> z = [] \<and> drop_bit (128 - pf_bits p) a = drop_bit (128 - pf_bits p) b
      | _ \<Rightarrow> False)"
  by (cases "pf_addr p"; cases ip) (simp_all add: prefix_Contains_def xor_zero_iff)

end
