(* ===== verification/Egress_Policy.thy ===== *)
theory Egress_Policy
  imports Go_Netip "HOL-Library.List_Lexorder" "HOL-Library.Char_ord"
begin

text \<open>
  The egress allow-list, \<^verbatim>\<open>src/pkg/egress/policy.go\<close>, with the two address helpers of
  \<^verbatim>\<open>guard.go\<close> the compiler of a policy calls (\<^verbatim>\<open>isIPLiteral\<close>, \<^verbatim>\<open>parseCIDR\<close>). A policy is a record of
  the JSON fields; compiling it yields rules or the error of the first bad entry. The text of a
  reason is a value of the datatype \<open>vreason\<close>, with the parts the format string inserts.

  Shown here: a decision allows exactly when no deny entry and some allow entry covers the
  destination; parsing is all or nothing; dropping duplicate entries changes no decision; what a
  compiled rule looks like (port bounds included) and which destinations it covers; and that a
  \<open>*.\<close> entry covers names that merely end in the domain's letters.
\<close>

section \<open>Data\<close>

record policy =
  AllowedDomains :: "string list"
  DeniedDomains :: "string list"
  DeniedDomainReasons :: "string \<Rightarrow> string option"
  DeniedResolvedAddresses :: "string list"
  StrictAllowlist :: bool

record egress_rule =
  er_Raw :: string
  er_Host :: string
  er_Port :: int
  er_Wildcard :: bool
  er_IsIP :: bool

datatype vreason =
    NoVReason
  | CustomReason string
  | OnDenyList string int
  | NotOnAllowList string int
  | StrictlyNotAllowed string int
  | NotUsable string
  | DidNotResolve string
  | NoAddresses string
  | ResolvesTo string string
  | NameTooLong
  | DeciderSilent
  | NeedsToken

datatype code = CodeNone | CodeAllowed | CodeDeniedDomain | CodeNotAllowed | CodeDeniedAddress
  | CodeDeciderUnavailable | CodeMaskedPlaintext | CodeAuthRequired

text \<open>\<^verbatim>\<open>Verdict.Address\<close> is the printed form of an address; the model keeps the address.\<close>

record verdict =
  v_Allow :: bool
  v_Code :: code
  v_Rule :: string
  v_Reason :: vreason
  v_Host :: string
  v_Port :: int
  v_Address :: "addr option"

definition zero_verdict :: verdict where
  "zero_verdict = \<lparr>v_Allow = False, v_Code = CodeNone, v_Rule = [], v_Reason = NoVReason,
                   v_Host = [], v_Port = 0, v_Address = None\<rparr>"

record cidrRule =
  cr_raw :: string
  cr_prefix :: ip_prefix

datatype hostname_error = EmptyHost | HostTooLong | EmptyLabel | LabelTooLong | LabelHyphen | BadCharacter

datatype entry_error =
    EmptyEntry
  | NotHostPort
  | UnclosedBracket
  | AfterBracket string
  | NeedsBrackets
  | BadPort string
  | WildcardNeedsDomain
  | StarInside
  | BadHostname hostname_error
  | BadPrefix
  | MappedPrefixTooShort
  | BadAddress

text \<open>An error names the policy field and the entry.\<close>

record policy_error =
  pe_field :: string
  pe_entry :: string
  pe_error :: entry_error

record compiled =
  c_policy :: policy
  c_allowed :: "egress_rule list"
  c_denied :: "egress_rule list"
  c_deniedAddrs :: "cidrRule list"

section \<open>Parsing entries\<close>

definition canonicalHost :: "string \<Rightarrow> string" where
  "canonicalHost h =
     TrimSuffix (TrimSuffix (TrimPrefix (ToLower (TrimSpace h)) ''['') '']'') ''.''"

definition isIPLiteral :: "string \<Rightarrow> bool" where
  "isIPLiteral host \<longleftrightarrow> ParseAddr (canonicalHost host) \<noteq> None"

definition cidr_contains :: "cidrRule \<Rightarrow> addr \<Rightarrow> bool" where
  "cidr_contains r ip = prefix_Contains (cr_prefix r) (Unmap ip)"

definition parseCIDR :: "string \<Rightarrow> entry_error + cidrRule" where
  "parseCIDR entry =
     (let e = TrimSpace entry in
      if Contains e ''/'' then
        (case ParsePrefix e of
           None \<Rightarrow> Inl BadPrefix
         | Some p \<Rightarrow>
             if Is4In6 (pf_addr p) then
               (if pf_bits p < 96 then Inl MappedPrefixTooShort
                else Inr \<lparr>cr_raw = entry,
                          cr_prefix = Masked (PrefixFrom (Unmap (pf_addr p)) (pf_bits p - 96))\<rparr>)
             else Inr \<lparr>cr_raw = entry, cr_prefix = Masked p\<rparr>)
      else
        (case ParseAddr e of
           None \<Rightarrow> Inl BadAddress
         | Some a \<Rightarrow> let b = Unmap a
                    in Inr \<lparr>cr_raw = entry, cr_prefix = PrefixFrom b (BitLen b)\<rparr>))"

definition splitHostPort :: "string \<Rightarrow> entry_error + string \<times> string" where
  "splitHostPort s =
     (if HasPrefix s ''['' then
        (case IndexByte s CHR '']'' of
           None \<Rightarrow> Inl UnclosedBracket
         | Some e \<Rightarrow>
             let host = drop 1 (take e s); rest = drop (Suc e) s in
             if rest = [] then Inr (host, [])
             else if \<not> HasPrefix rest '':'' then Inl (AfterBracket rest)
             else Inr (host, drop 1 rest))
      else if length (filter (\<lambda>c. c = CHR '':'') s) > 1 then Inl NeedsBrackets
      else (case LastIndexByte s CHR '':'' of
              Some i \<Rightarrow> Inr (take i s, drop (Suc i) s)
            | None \<Rightarrow> Inr (s, [])))"

definition label_char :: "char \<Rightarrow> bool" where
  "label_char c \<longleftrightarrow> ((97::nat) \<le> of_char c \<and> of_char c \<le> (122::nat)) \<or> is_digit c \<or> c = CHR ''-'' \<or> c = CHR ''_''"

definition label_error :: "string \<Rightarrow> hostname_error option" where
  "label_error label =
     (if label = [] then Some EmptyLabel
      else if length label > 63 then Some LabelTooLong
      else if hd label = CHR ''-'' \<or> last label = CHR ''-'' then Some LabelHyphen
      else if \<not> list_all label_char label then Some BadCharacter
      else None)"

fun label_loop :: "string list \<Rightarrow> hostname_error option" where
  "label_loop [] = None"
| "label_loop (l # ls) = (case label_error l of Some e \<Rightarrow> Some e | None \<Rightarrow> label_loop ls)"

definition validateHostname :: "string \<Rightarrow> hostname_error option" where
  "validateHostname h =
     (if h = [] then Some EmptyHost
      else if length h > 253 then Some HostTooLong
      else label_loop (Split (TrimSuffix h ''.'') CHR ''.''))"

definition compileHost :: "string \<Rightarrow> egress_rule \<Rightarrow> entry_error + egress_rule" where
  "compileHost host r =
     (if host = ''*'' then Inr (r\<lparr>er_Host := ''*'', er_Wildcard := True\<rparr>)
      else if HasPrefix host ''*.'' then
        (if length host \<le> 3 then Inl WildcardNeedsDomain
         else Inr (r\<lparr>er_Host := ''.'' @ canonicalHost (TrimPrefix (drop 1 host) ''.''), er_Wildcard := True\<rparr>))
      else if Contains host ''*'' then Inl StarInside
      else if isIPLiteral host then Inr (r\<lparr>er_Host := canonicalHost host, er_IsIP := True\<rparr>)
      else (case validateHostname host of
              Some e \<Rightarrow> Inl (BadHostname e)
            | None \<Rightarrow> Inr (r\<lparr>er_Host := canonicalHost host\<rparr>)))"

definition compileRule :: "string \<Rightarrow> entry_error + egress_rule" where
  "compileRule raw =
     (let entry = TrimSpace raw in
      if entry = [] then Inl EmptyEntry
      else if ContainsAny entry [CHR ''/'', CHR '' '', CHR 0x09] then Inl NotHostPort
      else let r = \<lparr>er_Raw = entry, er_Host = [], er_Port = 0, er_Wildcard = False, er_IsIP = False\<rparr> in
        case splitHostPort entry of
          Inl e \<Rightarrow> Inl e
        | Inr (host, portStr) \<Rightarrow>
            if portStr \<noteq> [] then
              (case Atoi portStr of
                 None \<Rightarrow> Inl (BadPort portStr)
               | Some p \<Rightarrow> if p < 1 \<or> p > 65535 then Inl (BadPort portStr)
                          else compileHost (ToLower host) (r\<lparr>er_Port := p\<rparr>))
            else compileHost (ToLower host) r)"

fun compile_loop :: "string list \<Rightarrow> string \<Rightarrow> string set \<Rightarrow> policy_error + egress_rule list" where
  "compile_loop [] field seen = Inr []"
| "compile_loop (raw # entries) field seen =
     (case compileRule raw of
        Inl e \<Rightarrow> Inl \<lparr>pe_field = field, pe_entry = raw, pe_error = e\<rparr>
      | Inr r \<Rightarrow>
          if er_Raw r \<in> seen then compile_loop entries field seen
          else (case compile_loop entries field (insert (er_Raw r) seen) of
                  Inl e \<Rightarrow> Inl e
                | Inr rs \<Rightarrow> Inr (r # rs)))"

definition compileRules :: "string list \<Rightarrow> string \<Rightarrow> policy_error + egress_rule list" where
  "compileRules entries field = compile_loop entries field {}"

fun compile_cidrs :: "string list \<Rightarrow> policy_error + cidrRule list" where
  "compile_cidrs [] = Inr []"
| "compile_cidrs (entry # entries) =
     (case parseCIDR entry of
        Inl e \<Rightarrow> Inl \<lparr>pe_field = ''denied_resolved_addresses'', pe_entry = entry, pe_error = e\<rparr>
      | Inr r \<Rightarrow> (case compile_cidrs entries of Inl e \<Rightarrow> Inl e | Inr rs \<Rightarrow> Inr (r # rs)))"

definition Parse :: "policy \<Rightarrow> policy_error + compiled" where
  "Parse p =
     (case compileRules (AllowedDomains p) ''allowed_domains'' of
        Inl e \<Rightarrow> Inl e
      | Inr allowed \<Rightarrow>
          (case compileRules (DeniedDomains p) ''denied_domains'' of
             Inl e \<Rightarrow> Inl e
           | Inr denied \<Rightarrow>
               (case compile_cidrs (DeniedResolvedAddresses p) of
                  Inl e \<Rightarrow> Inl e
                | Inr addrs \<Rightarrow> Inr \<lparr>c_policy = p, c_allowed = allowed, c_denied = denied,
                                   c_deniedAddrs = addrs\<rparr>)))"

text \<open>\<^verbatim>\<open>LoadPolicy\<close>: what the file and the JSON decoder yield is the argument.\<close>

datatype policy_file = PolicyOpenFails | PolicyBadJSON | PolicyTrailing | PolicyTrailingError | PolicyJSON policy

datatype load_error = LoadOpen | LoadDecode | LoadTrailing | LoadTrailingError | LoadInvalid policy_error

definition LoadPolicy :: "policy_file \<Rightarrow> load_error + compiled" where
  "LoadPolicy f =
     (case f of
        PolicyOpenFails \<Rightarrow> Inl LoadOpen
      | PolicyBadJSON \<Rightarrow> Inl LoadDecode
      | PolicyTrailing \<Rightarrow> Inl LoadTrailing
      | PolicyTrailingError \<Rightarrow> Inl LoadTrailingError
      | PolicyJSON p \<Rightarrow> (case Parse p of Inl e \<Rightarrow> Inl (LoadInvalid e) | Inr c \<Rightarrow> Inr c))"

section \<open>Decisions\<close>

definition rule_matches :: "egress_rule \<Rightarrow> string \<Rightarrow> int \<Rightarrow> bool" where
  "rule_matches r host port =
     (if er_Port r \<noteq> 0 \<and> er_Port r \<noteq> port then False
      else if er_Host r = ''*'' then True
      else if er_IsIP r then er_Host r = host
      else if er_Wildcard r then
        (let suff = drop 1 (er_Host r) in HasSuffix host suff \<and> length host > length suff)
      else er_Host r = host)"

definition egress_matchAllow :: "compiled \<Rightarrow> string \<Rightarrow> int \<Rightarrow> egress_rule option" where
  "egress_matchAllow c host port = List.find (\<lambda>r. rule_matches r host port) (c_allowed c)"

definition Decide :: "compiled \<Rightarrow> string \<Rightarrow> int \<Rightarrow> verdict" where
  "Decide c host port =
     (let h = canonicalHost host in
      case List.find (\<lambda>r. rule_matches r h port) (c_denied c) of
        Some r \<Rightarrow>
          zero_verdict\<lparr>v_Code := CodeDeniedDomain, v_Rule := er_Raw r,
            v_Reason := (case DeniedDomainReasons (c_policy c) (er_Raw r) of
                           None \<Rightarrow> OnDenyList h port
                         | Some t \<Rightarrow> if t = [] then OnDenyList h port else CustomReason t),
            v_Host := h, v_Port := port\<rparr>
      | None \<Rightarrow>
          (case egress_matchAllow c h port of
             Some r \<Rightarrow> zero_verdict\<lparr>v_Allow := True, v_Code := CodeAllowed, v_Rule := er_Raw r,
                         v_Host := h, v_Port := port\<rparr>
           | None \<Rightarrow>
               zero_verdict\<lparr>v_Code := CodeNotAllowed,
                 v_Reason := (if StrictAllowlist (c_policy c) then StrictlyNotAllowed h port
                              else NotOnAllowList h port),
                 v_Host := h, v_Port := port\<rparr>))"

definition AllowsLiteral :: "compiled \<Rightarrow> string \<Rightarrow> int \<Rightarrow> bool" where
  "AllowsLiteral c host port =
     list_ex (\<lambda>r. er_IsIP r \<and> rule_matches r (canonicalHost host) port) (c_allowed c)"

definition DeniedAddressReason :: "compiled \<Rightarrow> addr \<Rightarrow> string option" where
  "DeniedAddressReason c ip =
     map_option cr_raw (List.find (\<lambda>r. cidr_contains r ip) (c_deniedAddrs c))"

definition Strings :: "compiled \<Rightarrow> string list \<times> string list" where
  "Strings c = (sort (map er_Raw (c_allowed c)), sort (map er_Raw (c_denied c)))"

definition matchDomain :: "string \<Rightarrow> string \<Rightarrow> bool" where
  "matchDomain pattern host =
     (case compileRule pattern of
        Inl _ \<Rightarrow> False
      | Inr r \<Rightarrow> if er_Port r \<noteq> 0 then False else rule_matches r host 0)"

section \<open>Lemmas on entries\<close>

lemma zero_verdict_simps [simp]:
  "v_Allow zero_verdict = False" "v_Rule zero_verdict = []" "v_Address zero_verdict = None"
  by (simp_all add: zero_verdict_def)

lemma compileHost_keeps:
  "compileHost host r = Inr r' \<Longrightarrow> er_Raw r' = er_Raw r \<and> er_Port r' = er_Port r"
  by (auto simp: compileHost_def split: if_splits option.splits)

lemma compileRule_Raw: "compileRule raw = Inr r \<Longrightarrow> er_Raw r = TrimSpace raw"
  by (auto simp: compileRule_def Let_def dest!: compileHost_keeps split: if_splits sum.splits option.splits)

lemma compileRule_Port: "compileRule raw = Inr r \<Longrightarrow> 0 \<le> er_Port r \<and> er_Port r \<le> 65535"
  by (auto simp: compileRule_def Let_def dest!: compileHost_keeps split: if_splits sum.splits option.splits)

definition host_char :: "char \<Rightarrow> bool" where
  "host_char c \<longleftrightarrow> label_char c \<or> c = CHR ''.''"

lemma label_loop_None: "label_loop ls = None \<longleftrightarrow> (\<forall>l \<in> set ls. label_error l = None)"
  by (induction ls) (auto split: option.splits)

lemma Split_trailing: "[] \<in> set (Split (s @ [c]) c)"
proof -
  have "last (Split (s @ [c]) c) = [] \<and> length (Split (s @ [c]) c) \<ge> 2"
  proof (induction s)
    case (Cons x s)
    then show ?case by (cases "Split (s @ [c]) c"; cases "tl (Split (s @ [c]) c)") auto
  qed simp
  then show ?thesis using last_in_set [of "Split (s @ [c]) c"] by simp
qed

lemma validateHostname_chars:
  assumes "validateHostname h = None"
  shows "h \<noteq> []" and "list_all host_char h" and "TrimSuffix h ''.'' \<noteq> []"
    and "\<not> HasSuffix (TrimSuffix h ''.'') ''.''"
proof -
  let ?t = "TrimSuffix h ''.''"
  from assms show "h \<noteq> []" by (simp add: validateHostname_def split: if_splits)
  have labels: "label_error l = None" if "l \<in> set (Split ?t CHR ''.'')" for l
    using assms that by (simp add: validateHostname_def label_loop_None split: if_splits)
  have "list_all host_char (Join ls ''.'')" if "\<forall>l \<in> set ls. label_error l = None" for ls
    using that
    by (induction ls "''.''" rule: Join.induct)
      (auto simp: label_error_def host_char_def list_all_iff split: if_splits)
  then have t: "list_all host_char ?t" using labels Join_Split [of ?t "CHR ''.''"] by metis
  show "list_all host_char h"
    using TrimSuffix_cases [of h "''.''"]
  proof
    assume "h = ?t @ ''.''"
    then have "list_all host_char h = list_all host_char (?t @ ''.'')" by (rule arg_cong)
    with t show ?thesis by (simp add: host_char_def)
  qed (use t in simp)
  show "?t \<noteq> []" using labels by (auto simp: label_error_def)
  show "\<not> HasSuffix ?t ''.''"
  proof
    assume "HasSuffix ?t ''.''"
    then obtain r where "?t = r @ ''.''" by (auto simp: HasSuffix_iff)
    moreover have "[] \<in> set (Split (r @ ''.'') CHR ''.'')" by (rule Split_trailing)
    ultimately show False using labels [of "[]"] by (simp add: label_error_def)
  qed
qed

lemma host_char_props:
  assumes "host_char c"
  shows "\<not> is_space c" "lower_char c = c" "c \<noteq> CHR ''/''" "c \<noteq> CHR '':''" "c \<noteq> CHR ''[''"
    "c \<noteq> CHR '']''" "c \<noteq> CHR ''*''"
  using assms by (auto simp: host_char_def label_char_def is_digit_def is_space_def lower_char_def)

lemma TrimSpace_id:
  assumes "\<forall>c \<in> set s. \<not> is_space c"
  shows "TrimSpace s = s"
proof -
  have "dropWhile is_space t = t" if "\<forall>c \<in> set t. \<not> is_space c" for t
    using that by (cases t) auto
  from this [of s] this [of "rev s"] show ?thesis using assms by (simp add: TrimSpace_def)
qed

lemma ToLower_id: "\<forall>c \<in> set s. lower_char c = c \<Longrightarrow> ToLower s = s"
  by (simp add: ToLower_def map_idI)

lemma not_in_host: "list_all host_char h \<Longrightarrow> \<not> host_char c \<Longrightarrow> c \<notin> set h"
  by (auto simp: list_all_iff)

lemma canonicalHost_plain:
  assumes "list_all host_char h"
  shows "canonicalHost h = TrimSuffix h ''.''"
proof -
  have "TrimSpace h = h" "ToLower h = h"
    using assms host_char_props by (auto simp: list_all_iff intro!: TrimSpace_id ToLower_id)
  moreover have "CHR ''['' \<notin> set h" "CHR '']'' \<notin> set h"
    using assms host_char_props(5,6) by (auto simp: list_all_iff)
  then have "TrimPrefix h ''['' = h" "TrimSuffix h '']'' = h"
    by (metis HasPrefix_singleton TrimPrefix_other hd_in_set, metis HasSuffix_singleton TrimSuffix_other last_in_set)
  ultimately show ?thesis by (simp add: canonicalHost_def)
qed

lemma splitHostPort_plain:
  assumes "list_all host_char h"
  shows "splitHostPort h = Inr (h, [])"
proof -
  have n: "CHR ''['' \<notin> set h" "CHR '':'' \<notin> set h"
    using assms host_char_props(4,5) by (auto simp: list_all_iff)
  then have "\<not> HasPrefix h ''[''" by (metis HasPrefix_singleton hd_in_set)
  moreover have "filter (\<lambda>c. c = CHR '':'') h = []" using n(2) by (auto simp: filter_empty_conv)
  moreover have "LastIndexByte h CHR '':'' = None" using n(2) by (simp add: LastIndexByte_None)
  ultimately show ?thesis by (simp add: splitHostPort_def)
qed

lemma LastIndexByte_last: "c \<notin> set ps \<Longrightarrow> LastIndexByte (h @ c # ps) c = Some (length h)"
  using LastIndexByte_None [of ps c] by (induction h) simp_all

lemma splitHostPort_pinned:
  assumes "CHR ''['' \<notin> set h" "CHR '':'' \<notin> set h" "h \<noteq> []" "CHR '':'' \<notin> set ps"
  shows "splitHostPort (h @ CHR '':'' # ps) = Inr (h, ps)"
proof -
  have "\<not> HasPrefix (h @ CHR '':'' # ps) ''[''" using assms(1,3) by (cases h) (auto simp: HasPrefix_singleton)
  moreover have "filter (\<lambda>c. c = CHR '':'') h = []" "filter (\<lambda>c. c = CHR '':'') ps = []"
    using assms(2,4) by (auto simp: filter_empty_conv)
  ultimately show ?thesis using assms(4) by (simp add: splitHostPort_def LastIndexByte_last)
qed

lemma Atoi_chars: "Atoi ps = Some p \<Longrightarrow> c \<in> set ps \<Longrightarrow> is_digit c \<or> c = CHR ''-'' \<or> c = CHR ''+''"
  by (cases ps) (auto simp: Atoi_def Let_def list_all_iff split: if_splits)

lemma port_char_props:
  assumes "is_digit c \<or> c = CHR ''-'' \<or> c = CHR ''+''"
  shows "\<not> is_space c" "c \<noteq> CHR ''/''" "c \<noteq> CHR '':''"
  using assms by (auto simp: is_digit_def is_space_def)

text \<open>An entry of plain characters with a port compiles as its host.\<close>

lemma compileRule_pinned:
  assumes h: "\<forall>c \<in> set h. host_char c \<or> c = CHR ''*''" "h \<noteq> []"
    and p: "Atoi ps = Some p" "1 \<le> p" "p \<le> 65535"
  shows "compileRule (h @ CHR '':'' # ps) = compileHost h
    \<lparr>er_Raw = h @ CHR '':'' # ps, er_Host = [], er_Port = p, er_Wildcard = False, er_IsIP = False\<rparr>"
proof -
  have star: "\<not> is_space CHR ''*''" "lower_char CHR ''*'' = CHR ''*''" by code_simp+
  have "ps \<noteq> []" using p(1) by (auto simp: Atoi_def)
  have hc: "\<not> is_space c \<and> lower_char c = c \<and> c \<noteq> CHR ''/'' \<and> c \<noteq> CHR '':'' \<and> c \<noteq> CHR ''[''" if "c \<in> set h" for c
    using h that host_char_props [of c] star by auto
  have pc: "\<not> is_space c \<and> c \<noteq> CHR ''/'' \<and> c \<noteq> CHR '':''" if "c \<in> set ps" for c
    using Atoi_chars [OF p(1) that] port_char_props [of c] by auto
  have colon: "\<not> is_space CHR '':''" by code_simp
  have sp: "is_space CHR '' ''" "is_space (CHR 0x09)" by code_simp+
  have "TrimSpace (h @ CHR '':'' # ps) = h @ CHR '':'' # ps"
    using hc pc colon by (intro TrimSpace_id) auto
  moreover have "\<not> ContainsAny (h @ CHR '':'' # ps) [CHR ''/'', CHR '' '', CHR 0x09]"
    using hc pc colon sp by (auto simp: ContainsAny_def list_ex_iff)
  moreover have "splitHostPort (h @ CHR '':'' # ps) = Inr (h, ps)"
    using hc pc h(2) by (intro splitHostPort_pinned) auto
  moreover have "ToLower h = h" using hc by (intro ToLower_id) blast
  ultimately show ?thesis using p \<open>ps \<noteq> []\<close> by (simp add: compileRule_def Let_def)
qed

lemma Contains_singleton: "Contains s [c] \<longleftrightarrow> c \<in> set s"
  by (auto simp: Contains_iff dest: split_list)

lemma compileHost_plain:
  assumes "validateHostname h = None" and "\<not> isIPLiteral h"
  shows "compileHost h r = Inr (r\<lparr>er_Host := TrimSuffix h ''.''\<rparr>)"
proof -
  note hc = validateHostname_chars(2) [OF assms(1)]
  have star: "CHR ''*'' \<notin> set h" using hc host_char_props(7) by (auto simp: list_all_iff)
  then have "h \<noteq> ''*''" "\<not> HasPrefix h ''*.''" "\<not> Contains h ''*''"
    by (auto simp: HasPrefix_iff Contains_singleton)
  with assms hc show ?thesis by (simp add: compileHost_def canonicalHost_plain)
qed

section \<open>Properties of the policy\<close>

text \<open>Claim C5. Deny first, allow-only: a connection is allowed exactly when no deny entry covers the
  destination and some allow entry does, so no allow entry overrides a denial and an empty allow list
  allows nothing; the code of the verdict says which case it was.\<close>

theorem Decide_allow_iff:
  "(v_Allow (Decide c host port) \<longleftrightarrow>
      (\<not> (\<exists>r \<in> set (c_denied c). rule_matches r (canonicalHost host) port)) \<and>
      (\<exists>r \<in> set (c_allowed c). rule_matches r (canonicalHost host) port)) \<and>
   (v_Code (Decide c host port) = CodeDeniedDomain \<longleftrightarrow>
      (\<exists>r \<in> set (c_denied c). rule_matches r (canonicalHost host) port)) \<and>
   (v_Code (Decide c host port) = CodeAllowed \<longleftrightarrow> v_Allow (Decide c host port))"
proof (cases "List.find (\<lambda>r. rule_matches r (canonicalHost host) port) (c_denied c)")
  case None
  then have d: "\<forall>r \<in> set (c_denied c). \<not> rule_matches r (canonicalHost host) port"
    by (simp add: find_None_conv)
  show ?thesis
  proof (cases "egress_matchAllow c (canonicalHost host) port")
    case (Some r)
    with d None show ?thesis by (auto simp: Decide_def egress_matchAllow_def Let_def dest: find_SomeD)
  next
    case none: None
    then have "\<forall>r \<in> set (c_allowed c). \<not> rule_matches r (canonicalHost host) port"
      by (simp add: egress_matchAllow_def find_None_conv)
    with d None none show ?thesis by (auto simp: Decide_def Let_def)
  qed
next
  case (Some r)
  then show ?thesis by (auto simp: Decide_def Let_def dest: find_SomeD)
qed

lemma compile_loop_ok: "(\<exists>rs. compile_loop entries field seen = Inr rs) \<longleftrightarrow> (\<forall>e \<in> set entries. \<exists>r. compileRule e = Inr r)"
proof (induction entries arbitrary: seen)
  case (Cons e es)
  show ?case
  proof (cases "compileRule e")
    case (Inr r)
    have "(\<exists>rs. compile_loop (e # es) field seen = Inr rs) \<longleftrightarrow>
        (\<exists>rs. compile_loop es field (if er_Raw r \<in> seen then seen else insert (er_Raw r) seen) = Inr rs)"
      using Inr by (auto split: sum.split)
    also have "\<dots> \<longleftrightarrow> (\<forall>e \<in> set es. \<exists>r. compileRule e = Inr r)" by (rule Cons.IH)
    finally show ?thesis using Inr by simp
  qed auto
qed simp

lemma compile_cidrs_ok: "(\<exists>rs. compile_cidrs entries = Inr rs) \<longleftrightarrow> (\<forall>e \<in> set entries. \<exists>r. parseCIDR e = Inr r)"
  by (induction entries) (auto split: sum.split)

text \<open>Parsing is all or nothing: a policy compiles exactly when every entry of its allow list, of
  its deny list and of its denied address ranges does; a single malformed entry anywhere refuses the
  whole policy.\<close>

theorem Parse_all_or_nothing:
  "(\<exists>c. Parse p = Inr c) \<longleftrightarrow>
     list_all (\<lambda>e. \<exists>r. compileRule e = Inr r) (AllowedDomains p) \<and>
     list_all (\<lambda>e. \<exists>r. compileRule e = Inr r) (DeniedDomains p) \<and>
     list_all (\<lambda>e. \<exists>r. parseCIDR e = Inr r) (DeniedResolvedAddresses p)"
proof -
  have "(\<exists>c. Parse p = Inr c) \<longleftrightarrow>
      (\<exists>rs. compile_loop (AllowedDomains p) ''allowed_domains'' {} = Inr rs) \<and>
      (\<exists>rs. compile_loop (DeniedDomains p) ''denied_domains'' {} = Inr rs) \<and>
      (\<exists>rs. compile_cidrs (DeniedResolvedAddresses p) = Inr rs)"
    by (auto simp: Parse_def compileRules_def split: sum.split)
  then show ?thesis by (simp only: compile_loop_ok compile_cidrs_ok list_all_iff)
qed

lemma compileRule_by_Raw: "TrimSpace a = TrimSpace b \<Longrightarrow> compileRule a = compileRule b"
  by (simp add: compileRule_def)

lemma compile_loop_members:
  assumes "compile_loop entries field seen = Inr rs"
  shows "set rs = {r. \<exists>e \<in> set entries. compileRule e = Inr r \<and> er_Raw r \<notin> seen} \<and> distinct (map er_Raw rs)"
  using assms
proof (induction entries arbitrary: seen rs)
  case (Cons e es)
  then obtain r where r: "compileRule e = Inr r" by (auto split: sum.splits)
  have same: "x = r" if "compileRule e' = Inr x" "er_Raw x = er_Raw r" for e' x
    using that r compileRule_by_Raw [of e' e] by (simp add: compileRule_Raw)
  show ?case
  proof (cases "er_Raw r \<in> seen")
    case True
    with Cons.prems r have rest: "compile_loop es field seen = Inr rs" by simp
    from Cons.IH [OF rest] show ?thesis using True r by auto
  next
    case False
    then obtain rs' where rest: "compile_loop es field (insert (er_Raw r) seen) = Inr rs'" and rs: "rs = r # rs'"
      using Cons.prems r by (auto split: sum.splits)
    from Cons.IH [OF rest] show ?thesis using False r rs same by auto
  qed
qed simp

text \<open>Compiling drops duplicates without changing any decision: the compiled list has one rule per
  distinct entry, and it covers a destination exactly when one of the entries as written does.\<close>

theorem compileRules_covers:
  assumes "compileRules entries field = Inr rs"
  shows "distinct (map er_Raw rs) \<and>
    (\<forall>host port. (\<exists>r \<in> set rs. rule_matches r host port) \<longleftrightarrow>
       (\<exists>e \<in> set entries. \<exists>r. compileRule e = Inr r \<and> rule_matches r host port))"
  using compile_loop_members [of entries field "{}" rs] assms by (auto simp: compileRules_def)

definition demo_policy :: policy where
  "demo_policy = \<lparr>AllowedDomains = [''*.example.com'', ''API.example.com:443'', '' API.example.com:443 ''],
     DeniedDomains = [''evil.example.com''], DeniedDomainReasons = Map.empty,
     DeniedResolvedAddresses = [''10.0.0.0/8''], StrictAllowlist = False\<rparr>"

definition demo_rules :: "egress_rule list" where
  "demo_rules =
     [\<lparr>er_Raw = ''*.example.com'', er_Host = ''.example.com'', er_Port = 0, er_Wildcard = True, er_IsIP = False\<rparr>,
      \<lparr>er_Raw = ''API.example.com:443'', er_Host = ''api.example.com'', er_Port = 443, er_Wildcard = False, er_IsIP = False\<rparr>]"

lemma demo_policy_compiles: "compileRules (AllowedDomains demo_policy) ''allowed_domains'' = Inr demo_rules"
  by code_simp

theorem compileRules_covers_witness:
  "distinct (map er_Raw demo_rules) \<and>
   (\<exists>e \<in> set (AllowedDomains demo_policy). \<exists>r. compileRule e = Inr r \<and> rule_matches r ''api.example.com'' 443)"
proof -
  have "\<exists>r \<in> set demo_rules. rule_matches r ''api.example.com'' 443" by code_simp
  with compileRules_covers [OF demo_policy_compiles] show ?thesis by blast
qed

text \<open>What a compiled entry can be: the port is 0 (any) or a TCP port, an IP literal's host parses as
  an address, and a rule's raw text is the entry without surrounding white space.\<close>

theorem compileRule_wf:
  assumes "compileRule raw = Inr r"
  shows "er_Raw r = TrimSpace raw \<and> 0 \<le> er_Port r \<and> er_Port r \<le> 65535 \<and>
    (er_IsIP r \<longrightarrow> ParseAddr (er_Host r) \<noteq> None \<and> \<not> er_Wildcard r) \<and>
    (er_Wildcard r \<longrightarrow> er_Host r = ''*'' \<or> HasPrefix (er_Host r) ''.'')"
proof -
  have host: "(er_IsIP r' \<longrightarrow> ParseAddr (er_Host r') \<noteq> None \<and> \<not> er_Wildcard r') \<and>
      (er_Wildcard r' \<longrightarrow> er_Host r' = ''*'' \<or> HasPrefix (er_Host r') ''.'')"
    if "compileHost h q = Inr r'" "\<not> er_IsIP q" "\<not> er_Wildcard q" for h q r'
    using that by (auto simp: compileHost_def isIPLiteral_def HasPrefix_singleton split: if_splits option.splits)
  show ?thesis
    using assms compileRule_Raw [OF assms] compileRule_Port [OF assms]
    by (auto simp: compileRule_def Let_def split: if_splits sum.splits option.splits dest!: host)
qed

theorem compileRule_wf_witness:
  "case compileRule ''[::1]:8080'' of Inl _ \<Rightarrow> False
   | Inr r \<Rightarrow> er_Port r = 8080 \<and> er_IsIP r \<and> ParseAddr (er_Host r) \<noteq> None"
proof -
  let ?r = "\<lparr>er_Raw = ''[::1]:8080'', er_Host = ''::1'', er_Port = 8080, er_Wildcard = False, er_IsIP = True\<rparr>"
  have "compileRule ''[::1]:8080'' = Inr ?r" by code_simp
  with compileRule_wf [OF this] show ?thesis by simp
qed

text \<open>A host entry pinned to a port covers exactly that host and that port: for a valid DNS name
  \<open>h\<close> and a port in range, \<open>h:port\<close> compiles, and a destination matches it exactly when its canonical
  form is \<open>h\<close> (less a trailing dot) and its port is the pinned one.\<close>

theorem host_entry_exact:
  assumes "validateHostname h = None" and "\<not> isIPLiteral h"
    and "Atoi ps = Some p" and "1 \<le> p" and "p \<le> 65535"
  shows "\<exists>r. compileRule (h @ '':'' @ ps) = Inr r \<and>
    (\<forall>host port. rule_matches r (canonicalHost host) port \<longleftrightarrow>
       canonicalHost host = TrimSuffix h ''.'' \<and> port = p)"
proof -
  note hc = validateHostname_chars [OF assms(1)]
  have "TrimSuffix h ''.'' \<noteq> ''*''"
    using hc(2) TrimSuffix_cases [of h "''.''"] host_char_props(7) [of "CHR ''*''"]
    by (metis append_Cons list.pred_inject(2))
  with assms hc show ?thesis
    using compileRule_pinned [of h ps p]
    by (auto simp: list_all_iff compileHost_plain rule_matches_def)
qed

theorem host_entry_exact_witness:
  "\<exists>r. compileRule (''registry.npmjs.org'' @ '':'' @ ''443'') = Inr r \<and>
    (\<forall>host port. rule_matches r (canonicalHost host) port \<longleftrightarrow>
       canonicalHost host = TrimSuffix ''registry.npmjs.org'' ''.'' \<and> port = 443)"
  by (rule host_entry_exact) (simp_all, code_simp+)

text \<open>What a wildcard entry covers, exactly: for a valid DNS name \<open>d\<close> of two letters or more,
  \<open>*.d:port\<close> covers every destination on that port whose canonical name ends in \<open>d\<close> and is longer than
  it; the name itself is never covered. No dot is required in front of \<open>d\<close>.\<close>

theorem wildcard_entry_exact:
  assumes "validateHostname d = None" and "length d \<ge> 2"
    and "Atoi ps = Some p" and "1 \<le> p" and "p \<le> 65535"
  shows "\<exists>r. compileRule (''*.'' @ d @ '':'' @ ps) = Inr r \<and>
    (\<forall>host port. rule_matches r host port \<longleftrightarrow>
       (\<exists>x. x \<noteq> [] \<and> host = x @ TrimSuffix d ''.'') \<and> port = p)"
proof -
  note hc = validateHostname_chars [OF assms(1)]
  have chars: "\<forall>c \<in> set (''*.'' @ d). host_char c \<or> c = CHR ''*''"
    using hc(2) by (auto simp: list_all_iff host_char_def)
  have "HasPrefix (''*.'' @ d) ''*.''" by (rule HasPrefix_append)
  moreover have "TrimPrefix (CHR ''.'' # d) ''.'' = d" using TrimPrefix_append [of "''.''" d] by simp
  ultimately have "compileRule (''*.'' @ d @ '':'' @ ps) =
      Inr \<lparr>er_Raw = ''*.'' @ d @ '':'' @ ps, er_Host = CHR ''.'' # TrimSuffix d ''.'', er_Port = p,
           er_Wildcard = True, er_IsIP = False\<rparr>"
    using compileRule_pinned [OF chars _ assms(3-5)] assms(2) hc(2)
    by (simp add: compileHost_def canonicalHost_plain)
  moreover have "CHR ''.'' # TrimSuffix d ''.'' \<noteq> ''*''" by simp
  moreover have "(HasSuffix host t \<and> length host > length t) = (\<exists>x. x \<noteq> [] \<and> host = x @ t)" for host t
    by (auto simp: HasSuffix_iff)
  ultimately show ?thesis using assms(4) by (auto simp: rule_matches_def Let_def)
qed

theorem wildcard_entry_exact_witness:
  "\<exists>r. compileRule (''*.'' @ ''example.com'' @ '':'' @ ''443'') = Inr r \<and>
    (\<forall>host port. rule_matches r host port \<longleftrightarrow>
       (\<exists>x. x \<noteq> [] \<and> host = x @ TrimSuffix ''example.com'' ''.'') \<and> port = 443)"
  by (rule wildcard_entry_exact) (simp_all, code_simp+)

text \<open>A wildcard entry lets unrelated domains through: with \<open>*.example.com\<close> as the only allow entry,
  a connection to \<open>evilexample.com\<close> is allowed, while \<open>example.com\<close> and \<open>evil.org\<close> are not.\<close>

theorem wildcard_covers_unrelated_domain:
  "case Parse \<lparr>AllowedDomains = [''*.example.com''], DeniedDomains = [], DeniedDomainReasons = Map.empty,
     DeniedResolvedAddresses = [], StrictAllowlist = True\<rparr> of Inl _ \<Rightarrow> False
   | Inr c \<Rightarrow> v_Allow (Decide c ''evilexample.com'' 443) = True \<and>
       v_Allow (Decide c ''a.example.com'' 443) = True \<and>
       v_Allow (Decide c ''example.com'' 443) = False \<and> v_Allow (Decide c ''evil.org'' 443) = False"
  by code_simp

end
