(* ===== verification/Egress_Guard.thy ===== *)
theory Egress_Guard
  imports Egress_Policy
begin

text \<open>
  The check on resolved addresses, \<^verbatim>\<open>src/pkg/egress/guard.go\<close>. The resolver is an argument (a name to
  an error or addresses), as it is a field of the source's \<^verbatim>\<open>dialer\<close>; the network interfaces and the
  clock are read at most once per address checked, and the \<open>i\<close>-th reading of a call is the argument
  \<open>rds i\<close>. One call sees one policy: a policy swapped in by the control plane takes effect between
  calls. Connecting is an argument of \<^verbatim>\<open>dialAllowingVetted\<close>, which returns the address it reached.

  Shown here: an address that may be dialled was either allow-listed as that literal, or is in no
  denied class, in no denied range and not one of this host's; the first address that passes is
  the one dialled, and only addresses the resolver returned are; a failure to list the interfaces
  denies; and three kinds of address the check lets through although its header claims otherwise.
\<close>

section \<open>State\<close>

record dialer =
  d_policy :: compiled
  d_timeout :: duration
  d_ownAddrs :: "addr set option"
  d_ownAt :: gotime

record deny_error =
  de_Verdict :: verdict
  de_Lookup :: "string option"

text \<open>What \<^verbatim>\<open>net.Interfaces\<close> and \<^verbatim>\<open>iface.Addrs\<close> return: per interface an error or addresses, each with
  the bytes of its IP, or of a type the code does not look at.\<close>

datatype net_addr = IPNet "8 word list" | IPAddr "8 word list" | OtherAddr

record own_reading =
  rd_now :: gotime
  rd_ifaces :: "string + (string + net_addr list) list"

section \<open>Classes of addresses\<close>

definition metadataAddrs :: "addr list" where
  "metadataAddrs = List.map_filter ParseAddr
     [''100.100.100.200'', ''168.63.129.16'', ''192.0.0.192'', ''169.254.169.254'',
      ''fd00:ec2::254'', ''fd20:ce::254'', ''fd00:c1::a9fe:a9fe'', ''fd00:42::42'']"

definition blockedClass :: "addr \<Rightarrow> string" where
  "blockedClass ip =
     (if IsLoopback ip then ''a loopback address''
      else if IsUnspecified ip then ''the unspecified address''
      else if IsLinkLocalUnicast ip then ''a link-local address''
      else if IsMulticast ip then ''a multicast address''
      else if IsInterfaceLocalMulticast ip \<or> IsLinkLocalMulticast ip then ''a multicast address''
      else if list_ex (\<lambda>m. m = ip) metadataAddrs then ''a cloud metadata endpoint''
      else [])"

section \<open>This host's own addresses\<close>

definition AddrFromSlice :: "8 word list \<Rightarrow> addr option" where
  "AddrFromSlice bs =
     (let v = foldl (\<lambda>a b. a * 256 + uint b) 0 bs in
      if length bs = 4 then Some (V4 (word_of_int v))
      else if length bs = 16 then Some (V6 (word_of_int v) [])
      else None)"

definition net_addr_ip :: "net_addr \<Rightarrow> addr option" where
  "net_addr_ip a =
     (case a of
        IPNet bs \<Rightarrow> map_option Unmap (AddrFromSlice bs)
      | IPAddr bs \<Rightarrow> map_option Unmap (AddrFromSlice bs)
      | OtherAddr \<Rightarrow> None)"

definition currentInterfaceAddrs :: "own_reading \<Rightarrow> string + addr set" where
  "currentInterfaceAddrs rd =
     (case rd_ifaces rd of
        Inl e \<Rightarrow> Inl e
      | Inr ifaces \<Rightarrow>
          Inr (set (concat (map (\<lambda>i. case i of Inl _ \<Rightarrow> [] | Inr as \<Rightarrow> List.map_filter net_addr_ip as) ifaces))))"

abbreviation ownAddrCacheTTL :: duration where "ownAddrCacheTTL \<equiv> 30 * second"

definition isOwnAddr :: "own_reading \<Rightarrow> addr \<Rightarrow> dialer \<Rightarrow> bool \<times> dialer" where
  "isOwnAddr rd ip d =
     (case (if d_ownAddrs d = None \<or> rd_now rd - d_ownAt d > ownAddrCacheTTL
            then map_sum id (\<lambda>as. d\<lparr>d_ownAddrs := Some as, d_ownAt := rd_now rd\<rparr>) (currentInterfaceAddrs rd)
            else Inr d) of
        Inl _ \<Rightarrow> (True, d)
      | Inr d1 \<Rightarrow> ((case d_ownAddrs d1 of None \<Rightarrow> False | Some as \<Rightarrow> Unmap ip \<in> as), d1))"

section \<open>Vetting a destination\<close>

definition deny_addr :: "addr \<Rightarrow> string \<Rightarrow> int \<Rightarrow> string \<Rightarrow> deny_error" where
  "deny_addr ip host port why =
     \<lparr>de_Verdict = zero_verdict\<lparr>v_Code := CodeDeniedAddress, v_Host := host, v_Port := port,
        v_Reason := ResolvesTo host why, v_Address := Some ip\<rparr>, de_Lookup = None\<rparr>"

definition checkAddr ::
  "own_reading \<Rightarrow> addr \<Rightarrow> string \<Rightarrow> int \<Rightarrow> dialer \<Rightarrow> deny_error option \<times> dialer" where
  "checkAddr rd ip host port d =
     (if blockedClass ip \<noteq> [] then (Some (deny_addr ip host port (blockedClass ip)), d)
      else case DeniedAddressReason (d_policy d) ip of
        Some rule \<Rightarrow>
          (Some (deny_addr ip host port (''a denied address range ('' @ rule @ '')'')), d)
      | None \<Rightarrow>
          (case isOwnAddr rd ip d of
             (True, d1) \<Rightarrow> (Some (deny_addr ip host port ''this host's own address''), d1)
           | (False, d1) \<Rightarrow> (None, d1)))"

definition plain_deny :: "vreason \<Rightarrow> string option \<Rightarrow> deny_error" where
  "plain_deny why lookup_err =
     \<lparr>de_Verdict = zero_verdict\<lparr>v_Code := CodeDeniedAddress, v_Reason := why\<rparr>, de_Lookup = lookup_err\<rparr>"

text \<open>The loop over the resolved addresses; \<open>firstRefusal\<close> is \<open>NoVReason\<close> until one was refused.\<close>

fun vet_loop ::
  "(nat \<Rightarrow> own_reading) \<Rightarrow> string \<Rightarrow> int \<Rightarrow> addr list \<Rightarrow> vreason \<Rightarrow> dialer \<Rightarrow> (deny_error + addr) \<times> dialer" where
  "vet_loop rds host port [] firstRefusal d =
     (Inl \<lparr>de_Verdict = zero_verdict\<lparr>v_Code := CodeDeniedAddress, v_Host := host, v_Port := port,
             v_Reason := firstRefusal\<rparr>, de_Lookup = None\<rparr>, d)"
| "vet_loop rds host port (a0 # addrs) firstRefusal d =
     (let a = Unmap a0 in
      case checkAddr (rds 0) a host port d of
        (Some deny, d1) \<Rightarrow>
          vet_loop (\<lambda>i. rds (Suc i)) host port addrs
            (if firstRefusal = NoVReason then v_Reason (de_Verdict deny) else firstRefusal) d1
      | (None, d1) \<Rightarrow> (Inr a, d1))"

definition vet ::
  "(nat \<Rightarrow> own_reading) \<Rightarrow> (string \<Rightarrow> string + addr list) \<Rightarrow> string \<Rightarrow> int \<Rightarrow> dialer \<Rightarrow>
   (deny_error + addr) \<times> dialer" where
  "vet rds lookup host port d =
     (if isIPLiteral host then
        (case ParseAddr (canonicalHost host) of
           None \<Rightarrow> (Inl (plain_deny (NotUsable host) None), d)
         | Some ip0 \<Rightarrow>
             let ip = Unmap ip0 in
             if AllowsLiteral (d_policy d) host port then (Inr ip, d)
             else (case checkAddr (rds 0) ip host port d of
                     (Some deny, d1) \<Rightarrow> (Inl deny, d1)
                   | (None, d1) \<Rightarrow> (Inr ip, d1)))
      else (case lookup host of
              Inl e \<Rightarrow> (Inl (plain_deny (DidNotResolve host) (Some e)), d)
            | Inr addrs \<Rightarrow>
                if addrs = [] then (Inl (plain_deny (NoAddresses host) None), d)
                else vet_loop rds host port addrs NoVReason d))"

text \<open>Errors of the dial path: a refusal, an error that wraps another, or any other error.\<close>

datatype go_error = DenyErr deny_error | WrapErr string go_error | PlainErr string

fun asDenyError :: "go_error \<Rightarrow> deny_error option" where
  "asDenyError (DenyErr d) = Some d"
| "asDenyError (WrapErr _ e) = asDenyError e"
| "asDenyError (PlainErr _) = None"

definition dialAllowingVetted ::
  "(nat \<Rightarrow> own_reading) \<Rightarrow> (string \<Rightarrow> string + addr list) \<Rightarrow> (addr \<Rightarrow> int \<Rightarrow> go_error option) \<Rightarrow>
   string \<Rightarrow> int \<Rightarrow> dialer \<Rightarrow> (go_error + addr) \<times> dialer" where
  "dialAllowingVetted rds lookup connect host port d =
     (case vet rds lookup host port d of
        (Inl deny, d1) \<Rightarrow> (Inl (DenyErr deny), d1)
      | (Inr ip, d1) \<Rightarrow>
          (case connect ip port of Some e \<Rightarrow> (Inl e, d1) | None \<Rightarrow> (Inr ip, d1)))"

definition newDialer :: "compiled \<Rightarrow> duration \<Rightarrow> dialer" where
  "newDialer p timeout =
     \<lparr>d_policy = p, d_timeout = (if timeout \<le> 0 then 30 * second else timeout),
      d_ownAddrs = None, d_ownAt = 0\<rparr>"

definition setPolicy :: "compiled \<Rightarrow> dialer \<Rightarrow> dialer" where
  "setPolicy p d = d\<lparr>d_policy := p\<rparr>"

section \<open>Lemmas\<close>

definition class_ok :: "addr \<Rightarrow> bool" where
  "class_ok ip \<longleftrightarrow> \<not> IsLoopback ip \<and> \<not> IsUnspecified ip \<and> \<not> IsLinkLocalUnicast ip \<and> \<not> IsMulticast ip \<and>
     ip \<notin> set metadataAddrs"

definition reachable_addr :: "dialer \<Rightarrow> addr \<Rightarrow> bool" where
  "reachable_addr d ip \<longleftrightarrow> class_ok ip \<and> \<not> (\<exists>r \<in> set (c_deniedAddrs (d_policy d)). cidr_contains r ip) \<and>
     (\<exists>own. d_ownAddrs d = Some own \<and> Unmap ip \<notin> own)"

lemma blockedClass_ok: "blockedClass ip = [] \<Longrightarrow> class_ok ip"
  by (auto simp: blockedClass_def class_ok_def list_ex_iff split: if_splits)

lemma isOwnAddr_state:
  "isOwnAddr rd ip d = (b, d') \<Longrightarrow> d_policy d' = d_policy d \<and>
   (b = False \<longrightarrow> (\<exists>own. d_ownAddrs d' = Some own \<and> Unmap ip \<notin> own))"
  by (cases "currentInterfaceAddrs rd") (auto simp: isOwnAddr_def split: if_splits option.splits)

lemma checkAddr_state:
  assumes "checkAddr rd ip host port d = (res, d')"
  shows "d_policy d' = d_policy d" and "res = None \<Longrightarrow> reachable_addr d' ip"
  using assms
  by (auto simp: checkAddr_def reachable_addr_def DeniedAddressReason_def find_None_conv blockedClass_ok
      split: if_splits option.splits prod.splits bool.splits dest!: isOwnAddr_state)

lemma vet_loop_sound:
  "vet_loop rds host port addrs fr d = (Inr ip, d') \<Longrightarrow>
   d_policy d' = d_policy d \<and> reachable_addr d' ip \<and> ip \<in> Unmap ` set addrs"
proof (induction rds host port addrs fr d rule: vet_loop.induct)
  case (2 rds host port a0 addrs fr d)
  obtain res d1 where c: "checkAddr (rds 0) (Unmap a0) host port d = (res, d1)" by fastforce
  note st = checkAddr_state [OF c]
  show ?case
  proof (cases res)
    case None
    with c "2.prems" st show ?thesis by (auto simp: Let_def)
  next
    case (Some deny)
    with c "2.prems" "2.IH" [OF refl c [symmetric] Some] st(1) show ?thesis by (auto simp: Let_def)
  qed
qed simp

lemma vet_cases:
  assumes "vet rds lookup host port d = (Inr ip, d')"
  shows "d_policy d' = d_policy d \<and>
    (AllowsLiteral (d_policy d) host port \<and> map_option Unmap (ParseAddr (canonicalHost host)) = Some ip \<or>
     reachable_addr d' ip \<and>
       (if isIPLiteral host then map_option Unmap (ParseAddr (canonicalHost host)) = Some ip
        else \<exists>addrs. lookup host = Inr addrs \<and> ip \<in> Unmap ` set addrs))"
proof (cases "isIPLiteral host")
  case True
  then obtain ip0 where ip0: "ParseAddr (canonicalHost host) = Some ip0" by (auto simp: isIPLiteral_def)
  obtain res d1 where c: "checkAddr (rds 0) (Unmap ip0) host port d = (res, d1)" by fastforce
  show ?thesis
    using assms True ip0 c checkAddr_state [OF c]
    by (auto simp: vet_def Let_def split: if_splits option.splits)
next
  case False
  then show ?thesis
    using assms vet_loop_sound [of rds host port]
    by (auto simp: vet_def split: sum.splits if_splits)
qed

section \<open>What a proxy relies on of the guard\<close>

locale address_guard =
  fixes vetting :: "'s \<Rightarrow> string \<Rightarrow> int \<Rightarrow> (deny_error + addr) \<times> 's"
    and approved :: "'s \<Rightarrow> 's \<Rightarrow> string \<Rightarrow> int \<Rightarrow> addr \<Rightarrow> bool"
  assumes vetting_sound: "vetting s host port = (Inr ip, s') \<Longrightarrow> approved s s' host port ip"
begin

definition dial :: "(addr \<Rightarrow> int \<Rightarrow> go_error option) \<Rightarrow> 's \<Rightarrow> string \<Rightarrow> int \<Rightarrow> (go_error + addr) \<times> 's" where
  "dial connect s host port =
     (case vetting s host port of
        (Inl deny, s1) \<Rightarrow> (Inl (DenyErr deny), s1)
      | (Inr ip, s1) \<Rightarrow> (case connect ip port of Some e \<Rightarrow> (Inl e, s1) | None \<Rightarrow> (Inr ip, s1)))"

lemma dial_approved: "dial connect s host port = (Inr ip, s') \<Longrightarrow> approved s s' host port ip"
  by (auto simp: dial_def split: prod.splits sum.splits option.splits dest: vetting_sound)

lemma dial_refusal:
  "vetting s host port = (Inl deny, s') \<Longrightarrow> asDenyError (projl (fst (dial connect s host port))) = Some deny"
  by (simp add: dial_def)

end

definition approved_addr :: "(string \<Rightarrow> string + addr list) \<Rightarrow> dialer \<Rightarrow> dialer \<Rightarrow> string \<Rightarrow> int \<Rightarrow> addr \<Rightarrow> bool" where
  "approved_addr lookup d d' host port ip \<longleftrightarrow>
     AllowsLiteral (d_policy d) host port \<and> map_option Unmap (ParseAddr (canonicalHost host)) = Some ip \<or>
     class_ok ip \<and> DeniedAddressReason (d_policy d) ip = None \<and>
       (\<exists>own. d_ownAddrs d' = Some own \<and> Unmap ip \<notin> own) \<and>
       (if isIPLiteral host then map_option Unmap (ParseAddr (canonicalHost host)) = Some ip
        else \<exists>addrs. lookup host = Inr addrs \<and> ip \<in> Unmap ` set addrs)"

interpretation guard: address_guard "\<lambda>d host port. vet rds lookup host port d" "approved_addr lookup" for rds lookup
  by unfold_locales
    (auto dest!: vet_cases simp: approved_addr_def reachable_addr_def DeniedAddressReason_def find_None_conv)

lemma dialAllowingVetted_is_dial:
  "dialAllowingVetted rds lookup connect host port d = guard.dial rds lookup connect d host port"
  by (simp add: dialAllowingVetted_def guard.dial_def)

section \<open>Properties of the guard\<close>

text \<open>Claim C8. What a connection can reach: the address dialled is either the very IP literal the policy
  allow-lists for that port, or it is no loopback, unspecified, link-local, multicast or cloud-metadata
  address, lies in no denied range, is none of this host's own addresses as last listed, and is the
  literal asked for or an address the one lookup of the name returned.\<close>

theorem dialled_address_is_approved:
  assumes "dialAllowingVetted rds lookup connect host port d = (Inr ip, d')"
  shows "AllowsLiteral (d_policy d) host port \<and> map_option Unmap (ParseAddr (canonicalHost host)) = Some ip \<or>
     (\<not> IsLoopback ip \<and> \<not> IsUnspecified ip \<and> \<not> IsLinkLocalUnicast ip \<and> \<not> IsMulticast ip \<and>
      ip \<notin> set metadataAddrs) \<and> DeniedAddressReason (d_policy d) ip = None \<and>
       (\<exists>own. d_ownAddrs d' = Some own \<and> Unmap ip \<notin> own) \<and>
       (if isIPLiteral host then map_option Unmap (ParseAddr (canonicalHost host)) = Some ip
        else \<exists>addrs. lookup host = Inr addrs \<and> ip \<in> Unmap ` set addrs)"
  using guard.dial_approved [of rds lookup connect d host port ip d'] assms
  unfolding dialAllowingVetted_is_dial approved_addr_def class_ok_def by blast

definition demo_compiled :: compiled where
  "demo_compiled = \<lparr>c_policy = demo_policy, c_allowed = demo_rules, c_denied = [],
     c_deniedAddrs = [\<lparr>cr_raw = ''10.0.0.0/8'', cr_prefix = \<lparr>pf_addr = V4 0x0a000000, pf_bits = 8\<rparr>\<rparr>]\<rparr>"

definition demo_reading :: "nat \<Rightarrow> own_reading" where
  "demo_reading i = \<lparr>rd_now = 100, rd_ifaces = Inr [Inl ''down'', Inr [IPNet [192, 168, 1, 5], OtherAddr]]\<rparr>"

definition demo_lookup :: "string \<Rightarrow> string + addr list" where
  "demo_lookup host = Inr [V4 0x7f000001, V6 0xffff0a000001 [], V4 0xc0a80105, V4 0x5db8d822, V4 0x01010101]"

definition demo_connect :: "addr \<Rightarrow> int \<Rightarrow> go_error option" where
  "demo_connect ip port = None"

theorem dialled_address_is_approved_witness:
  "fst (dialAllowingVetted demo_reading demo_lookup demo_connect ''a.example.com'' 443 (newDialer demo_compiled 0))
     = Inr (V4 0x5db8d822) \<and> \<not> IsLoopback (V4 0x5db8d822) \<and> \<not> IsLinkLocalUnicast (V4 0x5db8d822)"
proof -
  let ?d = "newDialer demo_compiled 0"
  let ?r = "dialAllowingVetted demo_reading demo_lookup demo_connect ''a.example.com'' 443 ?d"
  have f: "fst ?r = Inr (V4 0x5db8d822)" by code_simp
  then have "?r = (Inr (V4 0x5db8d822), snd ?r)" by (simp only: prod_eq_iff fst_conv snd_conv)
  moreover have "AllowsLiteral (d_policy ?d) ''a.example.com'' 443 = False" by code_simp
  ultimately show ?thesis using f dialled_address_is_approved by blast
qed

text \<open>Not knowing the host's addresses denies: when the list of interfaces has to be read and cannot
  be, every address counts as this host's own and nothing is cached; a literal that the policy does
  not list is then refused.\<close>

theorem own_address_check_fails_closed:
  assumes "d_ownAddrs d = None \<or> rd_now rd - d_ownAt d > 30 * second" and "rd_ifaces rd = Inl e"
  shows "isOwnAddr rd ip d = (True, d) \<and> (\<exists>deny. checkAddr rd ip host port d = (Some deny, d))"
proof -
  have "currentInterfaceAddrs rd = Inl e" using assms(2) by (simp add: currentInterfaceAddrs_def)
  then have "isOwnAddr rd ip d = (True, d)" using assms(1) by (auto simp: isOwnAddr_def)
  then show ?thesis by (auto simp: checkAddr_def split: option.split)
qed

theorem own_address_check_fails_closed_witness:
  "isOwnAddr \<lparr>rd_now = 1, rd_ifaces = Inl ''netlink''\<rparr> (V4 0x08080808) (newDialer demo_compiled 5)
     = (True, newDialer demo_compiled 5)"
  using own_address_check_fails_closed [of "newDialer demo_compiled 5" "\<lparr>rd_now = 1, rd_ifaces = Inl ''netlink''\<rparr>"]
  by (simp add: newDialer_def)

text \<open>An IPv4-mapped address is judged as its IPv4 address: a range rule, the class check's verdict
  after unmapping and the own-address lookup do not depend on which of the two forms was written.\<close>

theorem denied_range_ignores_mapping:
  "(cidr_contains r (Unmap ip) \<longleftrightarrow> cidr_contains r ip) \<and>
   fst (isOwnAddr rd (Unmap ip) d) = fst (isOwnAddr rd ip d) \<and>
   IsLoopback (Unmap ip) = IsLoopback ip \<and> IsMulticast (Unmap ip) = IsMulticast ip \<and>
   IsLinkLocalUnicast (Unmap ip) = IsLinkLocalUnicast ip"
  by (cases "currentInterfaceAddrs rd")
    (simp_all add: cidr_contains_def isOwnAddr_def IsLoopback_def IsMulticast_def IsLinkLocalUnicast_def
      split: option.split)

text \<open>A denied range holds exactly the addresses that share its leading bits: for an entry
  \<open>a/n\<close> with an IPv4 address, the rule covers an address exactly when that address, unmapped, is an
  IPv4 address with the same first \<open>n\<close> bits; for IPv6 it moreover has to carry no zone.\<close>

theorem parseCIDR_covers:
  assumes "Contains (TrimSpace entry) ''/''" and "ParsePrefix (TrimSpace entry) = Some p" and "\<not> Is4In6 (pf_addr p)"
  shows "\<exists>r. parseCIDR entry = Inr r \<and>
    (\<forall>ip. cidr_contains r ip \<longleftrightarrow>
       (case (pf_addr p, Unmap ip) of
          (V4 a, V4 b) \<Rightarrow> drop_bit (32 - pf_bits p) a = drop_bit (32 - pf_bits p) b
        | (V6 a _, V6 b z) \<Rightarrow> z = [] \<and> drop_bit (128 - pf_bits p) a = drop_bit (128 - pf_bits p) b
        | _ \<Rightarrow> False))"
  using assms unfolding prefix_Contains_drop [of p, symmetric]
  by (simp add: parseCIDR_def cidr_contains_def prefix_Contains_Masked)

theorem parseCIDR_covers_witness:
  "\<exists>r. parseCIDR '' 10.0.0.0/8'' = Inr r \<and> cidr_contains r (V6 0xffff0a0b0c0d []) \<and> \<not> cidr_contains r (V4 0x0b000000)"
proof -
  let ?p = "PrefixFrom (V4 0x0a000000) 8"
  have p: "ParsePrefix (TrimSpace '' 10.0.0.0/8'') = Some ?p" by code_simp
  have "Contains (TrimSpace '' 10.0.0.0/8'') ''/''" "\<not> Is4In6 (pf_addr ?p)" by code_simp+
  from parseCIDR_covers [OF this(1) p this(2)] obtain r where r: "parseCIDR '' 10.0.0.0/8'' = Inr r"
    "\<And>ip. cidr_contains r ip \<longleftrightarrow> (case (pf_addr ?p, Unmap ip) of
          (V4 a, V4 b) \<Rightarrow> drop_bit (32 - pf_bits ?p) a = drop_bit (32 - pf_bits ?p) b
        | (V6 a _, V6 b z) \<Rightarrow> z = [] \<and> drop_bit (128 - pf_bits ?p) a = drop_bit (128 - pf_bits ?p) b
        | _ \<Rightarrow> False)" by blast
  moreover have "Unmap (V6 0xffff0a0b0c0d []) = V4 0x0a0b0c0d" by code_simp
  moreover have "drop_bit 24 (0x0a000000 :: 32 word) = drop_bit 24 (0x0a0b0c0d :: 32 word)"
    "drop_bit 24 (0x0a000000 :: 32 word) \<noteq> drop_bit 24 (0x0b000000 :: 32 word)" by code_simp+
  ultimately show ?thesis by (auto simp: PrefixFrom_def withoutZone_def)
qed

text \<open>Three ways past the check that its header rules out: the broadcast address is in no denied
  class; a metadata address written with a zone is neither recognised nor held by a range that covers
  it; and a denied literal is allowed, and dialled, when it is written in IPv4-mapped form under a
  broader allow entry.\<close>

theorem guard_gaps:
  "blockedClass (V4 0xffffffff) = [] \<and>
   (case ParseAddr ''fd00:ec2::254%eth0'' of
      None \<Rightarrow> False
    | Some ip \<Rightarrow> blockedClass ip = [] \<and>
        cidr_contains \<lparr>cr_raw = ''fd00::/8'', cr_prefix = \<lparr>pf_addr = V6 0xfd000000000000000000000000000000 [], pf_bits = 8\<rparr>\<rparr> ip = False) \<and>
   (case Parse \<lparr>AllowedDomains = [''*''], DeniedDomains = [''10.0.0.5''], DeniedDomainReasons = Map.empty,
       DeniedResolvedAddresses = [], StrictAllowlist = False\<rparr> of
      Inl _ \<Rightarrow> False
    | Inr c \<Rightarrow> v_Allow (Decide c ''10.0.0.5'' 80) = False \<and> v_Allow (Decide c ''::ffff:10.0.0.5'' 80) = True \<and>
        fst (vet demo_reading demo_lookup ''::ffff:10.0.0.5'' 80 (newDialer c 0)) = Inr (V4 0x0a000005))"
  by code_simp

end
