(* ===== verification/Egress_Mitm.thy ===== *)
theory Egress_Mitm
  imports Egress_Policy Go_Filepath
begin

text \<open>
  TLS termination (\<^verbatim>\<open>src/pkg/egress/mitm.go\<close>): the certificate authority that is loaded or created, its cache of
  certificates per host, which destinations are terminated, and the trust bundle offered to a sandbox.
  The file system is a map from paths to contents; whether a write succeeds, the parsing and generation of
  keys and the clock are arguments. A certificate is what \<^verbatim>\<open>leafFor\<close> puts into it.

  Shown here: an authority that was created is found again by the next start; a certificate names its
  host and, once made, is handed out for ever, also after it has expired; which destinations are
  terminated, and that an exemption written with a port exempts nothing.
\<close>

section \<open>The authority\<close>

record terminate_options =
  to_Exclude :: "string list"
  to_Ports :: "int list"
  to_LeafTTL :: duration

record leaf =
  lf_CommonName :: string
  lf_NotBefore :: gotime
  lf_NotAfter :: gotime
  lf_IPAddresses :: "addr list"
  lf_DNSNames :: "string list"

record ca =
  ca_certPEM :: string
  ca_certPath :: string
  ca_keyPath :: string
  ca_leafs :: "string \<rightharpoonup> leaf"

datatype ca_error = CADirError | CALoadError string | CAGenerateError string | CAWriteKey | CAWriteCert

record ca_env =
  cae_mkdir :: bool
  cae_parse :: "string \<Rightarrow> string \<Rightarrow> string option"
  cae_generate :: "string + string \<times> string"
  cae_writeKey :: bool
  cae_writeCert :: bool

definition new_ca :: "string \<Rightarrow> string \<Rightarrow> string \<Rightarrow> ca" where
  "new_ca pem certPath keyPath = \<lparr>ca_certPEM = pem, ca_certPath = certPath, ca_keyPath = keyPath, ca_leafs = Map.empty\<rparr>"

text \<open>\<open>cae_parse\<close> is the error of \<^verbatim>\<open>parseCA\<close> on the two files, \<open>cae_generate\<close> the certificate and key of \<^verbatim>\<open>generateCA\<close>.\<close>

definition LoadOrCreateCA :: "ca_env \<Rightarrow> string \<Rightarrow> (string \<rightharpoonup> string) \<Rightarrow> (ca_error + ca) \<times> (string \<rightharpoonup> string)" where
  "LoadOrCreateCA env dir fs =
     (if \<not> cae_mkdir env then (Inl CADirError, fs)
      else let certPath = filepath_Join [dir, ''ca.pem'']; keyPath = filepath_Join [dir, ''ca.key''] in
        case (fs certPath, fs keyPath) of
          (Some certPEM, Some keyPEM) \<Rightarrow>
            (case cae_parse env certPEM keyPEM of
               Some e \<Rightarrow> (Inl (CALoadError e), fs)
             | None \<Rightarrow> (Inr (new_ca certPEM certPath keyPath), fs))
        | _ \<Rightarrow>
            (case cae_generate env of
               Inl e \<Rightarrow> (Inl (CAGenerateError e), fs)
             | Inr (certPEM, keyPEM) \<Rightarrow>
                 if \<not> cae_writeKey env then (Inl CAWriteKey, fs)
                 else if \<not> cae_writeCert env then (Inl CAWriteCert, fs(keyPath \<mapsto> keyPEM))
                 else (Inr (new_ca certPEM certPath keyPath), fs(keyPath \<mapsto> keyPEM, certPath \<mapsto> certPEM))))"

text \<open>\<^verbatim>\<open>net.ParseIP\<close>: an address without a zone.\<close>

definition ParseIP :: "string \<Rightarrow> addr option" where
  "ParseIP s = (case ParseAddr s of Some a \<Rightarrow> if hasZone a then None else Some a | None \<Rightarrow> None)"

text \<open>\<open>mint\<close> is the error of generating the key, drawing the serial number or signing.\<close>

definition leafFor :: "string option \<Rightarrow> gotime \<Rightarrow> string \<Rightarrow> duration \<Rightarrow> ca \<Rightarrow> (string + leaf) \<times> ca" where
  "leafFor mint now serverName ttl0 c =
     (case ca_leafs c serverName of
        Some l \<Rightarrow> (Inr l, c)
      | None \<Rightarrow>
          (case mint of
             Some e \<Rightarrow> (Inl e, c)
           | None \<Rightarrow>
               let ttl = (if ttl0 \<le> 0 then 24 * hour else ttl0);
                   l = \<lparr>lf_CommonName = serverName, lf_NotBefore = now - hour, lf_NotAfter = now + ttl,
                        lf_IPAddresses = (case ParseIP serverName of Some a \<Rightarrow> [a] | None \<Rightarrow> []),
                        lf_DNSNames = (case ParseIP serverName of Some a \<Rightarrow> [] | None \<Rightarrow> [serverName])\<rparr>
               in (Inr l, c\<lparr>ca_leafs := (ca_leafs c)(serverName \<mapsto> l)\<rparr>)))"

section \<open>Which destinations are terminated\<close>

definition terminated :: "string \<Rightarrow> terminate_options option \<Rightarrow> bool" where
  "terminated host t =
     (case t of None \<Rightarrow> False | Some o1 \<Rightarrow> \<not> list_ex (\<lambda>pat. matchDomain pat host) (to_Exclude o1))"

definition terminating :: "string \<Rightarrow> int \<Rightarrow> terminate_options option \<Rightarrow> bool" where
  "terminating host port t =
     (case t of
        None \<Rightarrow> False
      | Some o1 \<Rightarrow>
          if \<not> terminated host t then False
          else if to_Ports o1 = [] then port = 443
          else port \<in> set (to_Ports o1))"

section \<open>The trust bundle\<close>

definition root_files :: "string list" where
  "root_files = [''/etc/ssl/certs/ca-certificates.crt'', ''/etc/pki/tls/certs/ca-bundle.crt'', ''/etc/ssl/ca-bundle.pem'', ''/etc/ssl/cert.pem'']"

fun first_bundle :: "(string \<rightharpoonup> string) \<Rightarrow> string list \<Rightarrow> string" where
  "first_bundle fs [] = []"
| "first_bundle fs (p # ps) =
     (case fs p of
        Some b \<Rightarrow> if Contains b ''BEGIN CERTIFICATE'' then b else first_bundle fs ps
      | None \<Rightarrow> first_bundle fs ps)"

definition platformRoots :: "(string \<rightharpoonup> string) \<Rightarrow> string" where
  "platformRoots fs = first_bundle fs root_files"

datatype bundle_error = CAHasNoPath | BundleWrite

definition trustBundlePath :: "bool \<Rightarrow> (string \<rightharpoonup> string) \<Rightarrow> ca \<Rightarrow> (bundle_error + string) \<times> (string \<rightharpoonup> string)" where
  "trustBundlePath write_ok fs c =
     (if ca_certPath c = [] then (Inl CAHasNoPath, fs)
      else let bundle = filepath_Join [Dir (ca_certPath c), ''trust-bundle.pem''] in
        if fs bundle \<noteq> None then (Inr bundle, fs)
        else if \<not> write_ok then (Inl BundleWrite, fs)
        else (Inr bundle, fs(bundle \<mapsto> ca_certPEM c @ platformRoots fs)))"

definition TrustEnv :: "bool \<Rightarrow> (string \<rightharpoonup> string) \<Rightarrow> ca \<Rightarrow> (bundle_error + string list) \<times> (string \<rightharpoonup> string)" where
  "TrustEnv write_ok fs c =
     (case trustBundlePath write_ok fs c of
        (Inl e, fs1) \<Rightarrow> (Inl e, fs1)
      | (Inr b, fs1) \<Rightarrow>
          (Inr [''SSL_CERT_FILE='' @ b, ''SSL_CERT_DIR='', ''REQUESTS_CA_BUNDLE='' @ b, ''CURL_CA_BUNDLE='' @ b,
                ''NODE_EXTRA_CA_CERTS='' @ b, ''GIT_SSL_CAINFO='' @ b, ''AWS_CA_BUNDLE='' @ b, ''DENO_CERT='' @ b,
                ''PIP_CERT='' @ b], fs1))"

section \<open>Lemmas\<close>

lemma Split_last_field: "c \<notin> set n \<Longrightarrow> Split (d @ c # n) c = Split d c @ [n]"
  by (induction d) (auto simp: Split_free split: list.splits)

lemma clean_segs_snoc:
  assumes "sep \<notin> set n" and "n \<noteq> []" "n \<noteq> ''.''" "n \<noteq> ''..''"
  shows "\<exists>ws. clean_segs (d @ sep # n) = ws @ [n]" and "clean_segs n = [n]"
proof -
  show "\<exists>ws. clean_segs (d @ sep # n) = ws @ [n]"
    using assms by (simp add: clean_segs_def Split_last_field clean_step_def)
  show "clean_segs n = [n]" using assms by (simp add: clean_segs_def Split_free clean_step_def)
qed

lemma last_Clean: "clean_segs p = ws @ [n] \<Longrightarrow> n \<noteq> [] \<Longrightarrow> last (Clean p) = last n"
  by (cases "ws = []") (auto simp: Clean_def Let_def Join_snoc)

lemma last_filepath_Join:
  assumes "sep \<notin> set n" and "n \<noteq> []" "n \<noteq> ''.''" "n \<noteq> ''..''"
  shows "last (filepath_Join [dir, n]) = last n"
proof (cases "dir = []")
  case True
  with last_Clean [of n "[]" n] clean_segs_snoc(2) [OF assms] assms(2) show ?thesis by (simp add: filepath_Join.simps)
next
  case False
  from clean_segs_snoc(1) [OF assms, of dir] obtain ws where "clean_segs (dir @ sep # n) = ws @ [n]" ..
  from last_Clean [OF this assms(2)] False show ?thesis by (simp add: filepath_Join.simps)
qed

lemma ca_paths_differ: "filepath_Join [dir, ''ca.pem''] \<noteq> filepath_Join [dir, ''ca.key'']"
  using last_filepath_Join [of "''ca.pem''" dir] last_filepath_Join [of "''ca.key''" dir] by auto

section \<open>Properties\<close>

text \<open>An authority outlives the process: after a start that created it, the next start on the same directory finds the
  same certificate, whatever that start could generate, provided what was written can be parsed.\<close>

theorem authority_survives_restart:
  assumes "LoadOrCreateCA env dir fs = (Inr c, fs')" and "cae_mkdir env'"
    and "\<And>cert key. cae_generate env = Inr (cert, key) \<Longrightarrow> cae_parse env' cert key = None"
    and "\<And>cert key. cae_parse env cert key = None \<Longrightarrow> cae_parse env' cert key = None"
  shows "\<exists>c'. LoadOrCreateCA env' dir fs' = (Inr c', fs') \<and> ca_certPEM c' = ca_certPEM c \<and> ca_certPath c' = ca_certPath c"
proof -
  let ?cp = "filepath_Join [dir, ''ca.pem'']" and ?kp = "filepath_Join [dir, ''ca.key'']"
  from assms(1) have dir: "cae_mkdir env" by (auto simp: LoadOrCreateCA_def split: if_splits)
  have "\<exists>cert key. fs' ?cp = Some cert \<and> fs' ?kp = Some key \<and> c = new_ca cert ?cp ?kp \<and> cae_parse env' cert key = None"
  proof (cases "fs ?cp \<noteq> None \<and> fs ?kp \<noteq> None")
    case True
    then obtain cert key where f: "fs ?cp = Some cert" "fs ?kp = Some key" by auto
    with assms(1) dir have "cae_parse env cert key = None" "fs' = fs" "c = new_ca cert ?cp ?kp"
      by (auto simp: LoadOrCreateCA_def Let_def split: option.splits)
    with f assms(4) show ?thesis by auto
  next
    case False
    with assms(1) dir obtain cert key where g: "cae_generate env = Inr (cert, key)" "fs' = fs(?kp \<mapsto> key, ?cp \<mapsto> cert)" "c = new_ca cert ?cp ?kp"
      by (auto simp: LoadOrCreateCA_def Let_def split: option.splits sum.splits if_splits)
    with assms(3) ca_paths_differ [of dir] show ?thesis by (auto)
  qed
  with assms(2) show ?thesis by (auto simp: LoadOrCreateCA_def Let_def new_ca_def)
qed

definition demo_ca_env :: "string \<Rightarrow> ca_env" where
  "demo_ca_env pem = \<lparr>cae_mkdir = True, cae_parse = (\<lambda>_ _. None), cae_generate = Inr (pem, ''key''), cae_writeKey = True, cae_writeCert = True\<rparr>"

theorem authority_survives_restart_witness:
  "\<exists>c'. fst (LoadOrCreateCA (demo_ca_env ''later'') ''/ca'' (snd (LoadOrCreateCA (demo_ca_env ''first'') ''/ca'' Map.empty))) = Inr c' \<and>
     ca_certPEM c' = ''first''"
proof -
  let ?r = "LoadOrCreateCA (demo_ca_env ''first'') ''/ca'' Map.empty"
  let ?c = "new_ca ''first'' (filepath_Join [''/ca'', ''ca.pem'']) (filepath_Join [''/ca'', ''ca.key''])"
  have "fst ?r = Inr ?c" by (simp add: LoadOrCreateCA_def demo_ca_env_def Let_def)
  then have "?r = (Inr ?c, snd ?r)" by (metis prod.collapse)
  from authority_survives_restart [OF this, of "demo_ca_env ''later''"] show ?thesis
    by (auto simp: demo_ca_env_def new_ca_def)
qed

text \<open>A certificate is never renewed: it names its host and is valid for the configured time or a day, but once
  it is in the cache it is handed out at any later time, also after it has expired, until the process ends.\<close>

theorem leaf_outlives_its_validity:
  assumes "leafFor None now host ttl c = (Inr l, c')" and "ca_leafs c host = None"
  shows "lf_CommonName l = host \<and> (lf_DNSNames l = [host] \<or> (\<exists>a. ParseIP host = Some a \<and> lf_IPAddresses l = [a])) \<and>
    lf_NotAfter l = now + (if ttl \<le> 0 then 24 * hour else ttl) \<and>
    (\<forall>mint later ttl'. leafFor mint later host ttl' c' = (Inr l, c')) \<and>
    (\<exists>later > lf_NotAfter l. fst (leafFor None later host ttl c') = Inr l)"
proof -
  from assms have l: "c' = c\<lparr>ca_leafs := (ca_leafs c)(host \<mapsto> l)\<rparr>"
    and f: "lf_CommonName l = host" "lf_DNSNames l = [host] \<or> (\<exists>a. ParseIP host = Some a \<and> lf_IPAddresses l = [a])"
      "lf_NotAfter l = now + (if ttl \<le> 0 then 24 * hour else ttl)"
    by (auto simp: leafFor_def Let_def split: option.splits)
  then have "leafFor mint later host ttl' c' = (Inr l, c')" for mint later ttl' by (simp add: leafFor_def)
  then show ?thesis using f by (metis fst_conv less_add_one)
qed

theorem leaf_outlives_its_validity_witness:
  "fst (leafFor (Some ''no entropy'') (100 * hour) ''a.io'' 0 (snd (leafFor None 0 ''a.io'' 0 (new_ca [] [] [])))) =
   fst (leafFor None 0 ''a.io'' 0 (new_ca [] [] []))"
proof -
  let ?r = "leafFor None 0 ''a.io'' 0 (new_ca [] [] [])"
  obtain l where "fst ?r = Inr l" by (auto simp: leafFor_def new_ca_def Let_def)
  then have run: "?r = (Inr l, snd ?r)" by (metis prod.collapse)
  from leaf_outlives_its_validity [OF run] have "\<forall>mint later ttl'. leafFor mint later ''a.io'' ttl' (snd ?r) = (Inr l, snd ?r)"
    by (simp add: new_ca_def)
  with run show ?thesis by (metis fst_conv)
qed

text \<open>An exemption applies to a host on every port or not at all: an entry that pins a port, a form the allow list
  accepts, matches no host here, so the destination it names is terminated all the same.\<close>

lemma exclude_with_port_is_ignored:
  assumes "\<And>pat. pat \<in> set (to_Exclude o1) \<Longrightarrow> \<exists>r. compileRule pat = Inr r \<and> er_Port r \<noteq> 0" and "to_Ports o1 = []"
  shows "terminating host 443 (Some o1)"
  using assms by (fastforce simp: terminating_def terminated_def matchDomain_def list_ex_iff)

lemma exclude_forms:
  "terminating ''pinned.example.com'' 443 (Some \<lparr>to_Exclude = [''pinned.example.com:443''], to_Ports = [], to_LeafTTL = 0\<rparr>)"
  "\<not> terminating ''pinned.example.com'' 443 (Some \<lparr>to_Exclude = [''pinned.example.com''], to_Ports = [], to_LeafTTL = 0\<rparr>)"
  by (code_simp, code_simp)

end
