(* ===== verification/Go_Http.thy ===== *)
theory Go_Http
  imports Go_Prelude "HOL-Library.AList"
begin

text \<open>
  What the proxies and gateways use of the packages \<^verbatim>\<open>net/http\<close>, \<^verbatim>\<open>net/textproto\<close>, \<^verbatim>\<open>net\<close>, \<^verbatim>\<open>bytes\<close>,
  \<^verbatim>\<open>encoding/hex\<close> and \<^verbatim>\<open>encoding/base64\<close>: header tables with canonical keys, \<^verbatim>\<open>host:port\<close> pairs, replacement
  of a substring, hexadecimal and base64 text. An \<^verbatim>\<open>http.Header\<close> is an association list from a canonical
  key to its values; no operation here depends on the order of its entries.
\<close>

section \<open>Header tables\<close>

type_synonym http_header = "(string \<times> string list) list"

definition validHeaderFieldByte :: "char \<Rightarrow> bool" where
  "validHeaderFieldByte c \<longleftrightarrow>
     is_digit c \<or> (65::nat) \<le> of_char c \<and> of_char c \<le> (90::nat) \<or> (97::nat) \<le> of_char c \<and> of_char c \<le> (122::nat) \<or>
     c \<in> set ''!#$%&*+-.^_`|~'' \<or> of_char c = (39::nat)"

fun canon_loop :: "bool \<Rightarrow> string \<Rightarrow> string" where
  "canon_loop up [] = []"
| "canon_loop up (c # cs) = (if up then upper_char c else lower_char c) # canon_loop (c = CHR ''-'') cs"

text \<open>\<^verbatim>\<open>textproto.CanonicalMIMEHeaderKey\<close>: a key with an invalid byte is left as it is.\<close>

definition CanonicalHeaderKey :: "string \<Rightarrow> string" where
  "CanonicalHeaderKey s = (if list_all validHeaderFieldByte s then canon_loop True s else s)"

definition Header_Values :: "string \<Rightarrow> http_header \<Rightarrow> string list" where
  "Header_Values k h = (case map_of h (CanonicalHeaderKey k) of None \<Rightarrow> [] | Some vs \<Rightarrow> vs)"

definition Header_Get :: "string \<Rightarrow> http_header \<Rightarrow> string" where
  "Header_Get k h = (case Header_Values k h of [] \<Rightarrow> [] | v # _ \<Rightarrow> v)"

definition Header_Set :: "string \<Rightarrow> string \<Rightarrow> http_header \<Rightarrow> http_header" where
  "Header_Set k v h = AList.update (CanonicalHeaderKey k) [v] h"

definition Header_Del :: "string \<Rightarrow> http_header \<Rightarrow> http_header" where
  "Header_Del k h = AList.delete (CanonicalHeaderKey k) h"

lemma Header_Values_Set:
  "Header_Values k (Header_Set k' v h) = (if CanonicalHeaderKey k = CanonicalHeaderKey k' then [v] else Header_Values k h)"
  by (simp add: Header_Values_def Header_Set_def update_conv')

lemma Header_Get_Set:
  "Header_Get k (Header_Set k' v h) = (if CanonicalHeaderKey k = CanonicalHeaderKey k' then v else Header_Get k h)"
  by (simp add: Header_Get_def Header_Values_Set)

lemma Header_Values_Del:
  "Header_Values k (Header_Del k' h) = (if CanonicalHeaderKey k = CanonicalHeaderKey k' then [] else Header_Values k h)"
  by (simp add: Header_Values_def Header_Del_def delete_conv')

lemma Header_Get_Del:
  "Header_Get k (Header_Del k' h) = (if CanonicalHeaderKey k = CanonicalHeaderKey k' then [] else Header_Get k h)"
  by (simp add: Header_Get_def Header_Values_Del)

lemma Header_Get_cong: "CanonicalHeaderKey k = CanonicalHeaderKey k' \<Longrightarrow> Header_Get k h = Header_Get k' h"
  by (simp add: Header_Get_def Header_Values_def)

section \<open>Replacing a substring\<close>

text \<open>\<^verbatim>\<open>bytes.ReplaceAll\<close> for a non-empty \<open>old\<close>: the occurrences from left to right that do not overlap.\<close>

function ReplaceAll :: "string \<Rightarrow> string \<Rightarrow> string \<Rightarrow> string" where
  "ReplaceAll [] old new = []"
| "ReplaceAll (c # cs) old new =
     (if HasPrefix (c # cs) old then new @ ReplaceAll (drop (length old - 1) cs) old new
      else c # ReplaceAll cs old new)"
  by pat_completeness auto
termination by (relation "measure (length \<circ> fst)") auto

lemma Contains_Cons: "Contains (c # cs) sub \<longleftrightarrow> HasPrefix (c # cs) sub \<or> Contains cs sub"
  by (auto simp: Contains_def HasPrefix_def sublist_Cons_right)

lemma not_Contains_Nil [simp]: "sub \<noteq> [] \<Longrightarrow> \<not> Contains [] sub"
  by (auto simp: Contains_def)

lemma Contains_trans: "Contains s t \<Longrightarrow> Contains t u \<Longrightarrow> Contains s u"
  unfolding Contains_def by (metis sublist_order.order.trans)

lemma Contains_appendI1: "Contains s t \<Longrightarrow> Contains (s @ r) t"
  by (auto simp: Contains_iff) (metis append.assoc)

lemma Contains_appendI2: "Contains s t \<Longrightarrow> Contains (r @ s) t"
  by (auto simp: Contains_iff) (metis append.assoc)

lemma ReplaceAll_absent: "\<not> Contains s old \<Longrightarrow> ReplaceAll s old new = s"
  by (induction s old new rule: ReplaceAll.induct) (auto simp: Contains_Cons)

lemma drop_pred_tl: "old \<noteq> [] \<Longrightarrow> drop (length old - 1) (tl (old @ q)) = q"
  by (cases old) auto

lemma ReplaceAll_here: "old \<noteq> [] \<Longrightarrow> ReplaceAll (old @ q) old new = new @ ReplaceAll q old new"
  using drop_pred_tl [of old q] by (cases old) (auto simp: HasPrefix_def)

lemma ReplaceAll_first:
  assumes "old \<noteq> []" and "\<And>i. i < length p \<Longrightarrow> \<not> HasPrefix (drop i (p @ old @ q)) old"
  shows "ReplaceAll (p @ old @ q) old new = p @ new @ ReplaceAll q old new"
  using assms(2)
proof (induction p)
  case Nil
  with assms(1) show ?case by (simp add: ReplaceAll_here)
next
  case (Cons c p)
  from Cons.prems [of 0] have "\<not> HasPrefix (c # p @ old @ q) old" by simp
  moreover have "ReplaceAll (p @ old @ q) old new = p @ new @ ReplaceAll q old new"
    using Cons.prems [of "Suc i" for i] by (intro Cons.IH) auto
  ultimately show ?case by simp
qed

lemma length_ReplaceAll:
  "length new = length old \<Longrightarrow> old \<noteq> [] \<Longrightarrow> length (ReplaceAll s old new) = length s"
proof (induction s old new rule: ReplaceAll.induct)
  case (2 c cs old new)
  show ?case
  proof (cases "HasPrefix (c # cs) old")
    case True
    then have "length old \<le> Suc (length cs)" by (auto simp: HasPrefix_def dest: prefix_length_le)
    with True 2 show ?thesis by (cases old) auto
  qed (use 2 in auto)
qed simp

section \<open>Host and port\<close>

text \<open>\<^verbatim>\<open>net.SplitHostPort\<close>; every error is \<open>None\<close>.\<close>

definition SplitHostPort :: "string \<Rightarrow> (string \<times> string) option" where
  "SplitHostPort hp =
     (case LastIndexByte hp (CHR '':'') of
        None \<Rightarrow> None
      | Some i \<Rightarrow>
          let parts = (if HasPrefix hp ''['' then
                 (case IndexByte hp (CHR '']'') of
                    None \<Rightarrow> None
                  | Some e \<Rightarrow> if Suc e = i then Some (take (e - 1) (drop 1 hp), 1, Suc e) else None)
               else if CHR '':'' \<in> set (take i hp) then None else Some (take i hp, 0, 0))
          in (case parts of
                None \<Rightarrow> None
              | Some (host, j, k) \<Rightarrow>
                  if CHR ''['' \<in> set (drop j hp) \<or> CHR '']'' \<in> set (drop k hp) then None
                  else Some (host, drop (Suc i) hp)))"

definition JoinHostPort :: "string \<Rightarrow> string \<Rightarrow> string" where
  "JoinHostPort host port =
     (if CHR '':'' \<in> set host then ''['' @ host @ '']:'' @ port else host @ '':'' @ port)"

text \<open>\<^verbatim>\<open>strings.Trim\<close> with a set of bytes.\<close>

definition Trim :: "string \<Rightarrow> string \<Rightarrow> string" where
  "Trim s cutset = rev (dropWhile (\<lambda>c. c \<in> set cutset) (rev (dropWhile (\<lambda>c. c \<in> set cutset) s)))"

lemma LastIndexByte_app: "c \<notin> set p \<Longrightarrow> LastIndexByte (h @ c # p) c = Some (length h)"
  by (induction h) (auto simp: LastIndexByte_None split: option.splits)

lemma IndexByte_app: "c \<notin> set h \<Longrightarrow> IndexByte (h @ c # p) c = Some (length h)"
  by (induction h) auto

lemma IndexByte_Cons: "IndexByte (x # xs) c = (if x = c then Some 0 else map_option Suc (IndexByte xs c))"
  by simp

lemma SplitHostPort_Join:
  assumes "set host \<inter> set ''[]'' = {}" and "set port \<inter> set '':[]'' = {}"
  shows "SplitHostPort (JoinHostPort host port) = Some (host, port)"
proof (cases "CHR '':'' \<in> set host")
  case True
  have "LastIndexByte ((CHR ''['' # host @ '']'') @ CHR '':'' # port) (CHR '':'') = Some (length (CHR ''['' # host @ '']''))"
    using assms(2) by (intro LastIndexByte_app) auto
  moreover have "IndexByte (CHR ''['' # host @ CHR '']'' # CHR '':'' # port) (CHR '']'') = Some (Suc (length host))"
    using assms(1) by (simp add: IndexByte_app)
  ultimately show ?thesis
    using True assms by (simp add: SplitHostPort_def JoinHostPort_def HasPrefix_def del: LastIndexByte.simps IndexByte.simps)
next
  case False
  then have "\<not> HasPrefix (host @ CHR '':'' # port) ''[''"
    using assms(1) by (cases host) (auto simp: HasPrefix_def)
  moreover have "LastIndexByte (host @ CHR '':'' # port) (CHR '':'') = Some (length host)"
    using assms(2) by (intro LastIndexByte_app) auto
  ultimately show ?thesis using False assms
    by (auto simp: SplitHostPort_def JoinHostPort_def)
qed

section \<open>Hexadecimal text\<close>

definition hex_digit :: "nat \<Rightarrow> char" where
  "hex_digit n = (if n < 10 then char_of (48 + n) else char_of (87 + n))"

text \<open>\<^verbatim>\<open>hex.EncodeToString\<close> of one byte.\<close>

definition hex_byte :: "char \<Rightarrow> string" where
  "hex_byte c = [hex_digit (of_char c div 16), hex_digit (of_char c mod 16)]"

section \<open>Base64\<close>

text \<open>The value of a letter: its position in the standard alphabet.\<close>

definition b64_val :: "char \<Rightarrow> nat option" where
  "b64_val c =
     (let n = of_char c :: nat in
      if 65 \<le> n \<and> n \<le> 90 then Some (n - 65)
      else if 97 \<le> n \<and> n \<le> 122 then Some (n - 71)
      else if 48 \<le> n \<and> n \<le> 57 then Some (n + 4)
      else if n = 43 then Some 62 else if n = 47 then Some 63 else None)"

definition b64_char :: "nat \<Rightarrow> char" where
  "b64_char n =
     (if n < 26 then char_of (n + 65) else if n < 52 then char_of (n + 71)
      else if n < 62 then char_of (n - 4) else if n = 62 then CHR ''+'' else CHR ''/'')"

definition b64_bytes :: "nat \<Rightarrow> string" where
  "b64_bytes v = [char_of (v div 65536), char_of (v div 256 mod 256), char_of (v mod 256)]"

text \<open>The groups of four letters; a group with padding is the last one.\<close>

fun b64_groups :: "string \<Rightarrow> string option" where
  "b64_groups [] = Some []"
| "b64_groups (a # b # c # d # r) =
     (case (b64_val a, b64_val b) of
        (Some x, Some y) \<Rightarrow>
          (case (b64_val c, b64_val d) of
             (Some z, Some u) \<Rightarrow> map_option (\<lambda>t. b64_bytes (((x * 64 + y) * 64 + z) * 64 + u) @ t) (b64_groups r)
           | (Some z, None) \<Rightarrow>
               if d = CHR ''='' \<and> r = [] then Some (take 2 (b64_bytes (((x * 64 + y) * 64 + z) * 64))) else None
           | (None, _) \<Rightarrow>
               if c = CHR ''='' \<and> d = CHR ''='' \<and> r = [] then Some (take 1 (b64_bytes ((x * 64 + y) * 4096))) else None)
      | _ \<Rightarrow> None)"
| "b64_groups _ = None"

text \<open>\<^verbatim>\<open>base64.StdEncoding.DecodeString\<close>: line ends are skipped.\<close>

definition b64_decode :: "string \<Rightarrow> string option" where
  "b64_decode s = b64_groups (filter (\<lambda>c. of_char c \<noteq> (10::nat) \<and> of_char c \<noteq> (13::nat)) s)"

definition b64_quad :: "nat \<Rightarrow> string" where
  "b64_quad v = [b64_char (v div 262144 mod 64), b64_char (v div 4096 mod 64), b64_char (v div 64 mod 64), b64_char (v mod 64)]"

fun b64_encode :: "string \<Rightarrow> string" where
  "b64_encode (a # b # c # r) = b64_quad ((of_char a * 256 + of_char b) * 256 + of_char c) @ b64_encode r"
| "b64_encode [a, b] = take 3 (b64_quad ((of_char a * 256 + of_char b) * 256)) @ ''=''"
| "b64_encode [a] = take 2 (b64_quad (of_char a * 65536)) @ ''==''"
| "b64_encode [] = []"

lemma b64_val_char: "n < 64 \<Longrightarrow> b64_val (b64_char n) = Some n"
  by (auto simp: b64_val_def b64_char_def Let_def)

lemma b64_char_plain [simp]:
  "n < 64 \<Longrightarrow> of_char (b64_char n) \<noteq> (10::nat)" "n < 64 \<Longrightarrow> of_char (b64_char n) \<noteq> (13::nat)"
  "n < 64 \<Longrightarrow> b64_char n \<noteq> CHR ''=''"
  using b64_val_char [of n] by (auto simp: b64_val_def)

lemma digits64:
  fixes v :: nat
  assumes "v < 16777216"
  shows "((v div 262144 mod 64 * 64 + v div 4096 mod 64) * 64 + v div 64 mod 64) * 64 + v mod 64 = v"
proof -
  have "v div 4096 = v div 64 div 64" "v div 262144 = v div 64 div 64 div 64" by (simp_all flip: div_mult2_eq)
  moreover have "v div 64 div 64 div 64 < 64" using assms by (simp add: div_less_iff_less_mult)
  ultimately show ?thesis
    using div_mult_mod_eq [of v 64] div_mult_mod_eq [of "v div 64" 64] div_mult_mod_eq [of "v div 64 div 64" 64] by simp
qed

lemma of_char_less [simp]: "(of_char c :: nat) < 256"
  by simp

lemma bytes24:
  fixes a b c :: nat
  assumes "a < 256" "b < 256" "c < 256"
  shows "(a * 256 + b) * 256 + c < 16777216" "((a * 256 + b) * 256 + c) div 65536 = a"
    "((a * 256 + b) * 256 + c) div 256 mod 256 = b" "((a * 256 + b) * 256 + c) mod 256 = c"
proof -
  show "(a * 256 + b) * 256 + c < 16777216" "((a * 256 + b) * 256 + c) div 65536 = a" using assms by simp_all
  have "((a * 256 + b) * 256 + c) div 256 = (a * 256 + b) + c div 256" by (rule div_mult_self3) simp
  moreover have "(a * 256 + b) mod 256 = b mod 256" by (rule mod_mult_self3)
  ultimately show "((a * 256 + b) * 256 + c) div 256 mod 256 = b" using assms by (simp only: div_less add_0_right mod_less)
  have "((a * 256 + b) * 256 + c) mod 256 = c mod 256" by (rule mod_mult_self3)
  then show "((a * 256 + b) * 256 + c) mod 256 = c" using assms by (simp only: mod_less)
qed

lemma b64_bytes_chars:
  "b64_bytes ((of_char a * 256 + of_char b) * 256 + of_char c) = [a, b, c]"
  using bytes24 [of "of_char a" "of_char b" "of_char c"] by (simp only: b64_bytes_def of_char_less char_of_char)

lemma b64_groups_quad:
  assumes "v < 16777216"
  shows "b64_groups (b64_quad v @ r) = map_option (\<lambda>t. b64_bytes v @ t) (b64_groups r)"
  using digits64 [OF assms] assms by (simp add: b64_quad_def b64_val_char)

lemma b64_quad_plain:
  "filter (\<lambda>c. of_char c \<noteq> (10::nat) \<and> of_char c \<noteq> (13::nat)) (b64_quad v) = b64_quad v"
  by (simp add: b64_quad_def)

lemma b64_val_pad [simp]: "b64_val (CHR ''='') = None"
  by (simp add: b64_val_def)

lemma b64_groups_pad:
  assumes "v < 16777216"
  shows "v mod 64 = 0 \<Longrightarrow> b64_groups (take 3 (b64_quad v) @ ''='') = Some (take 2 (b64_bytes v))"
    and "v mod 4096 = 0 \<Longrightarrow> b64_groups (take 2 (b64_quad v) @ ''=='') = Some (take 1 (b64_bytes v))"
proof -
  define x y z where "x = v div 262144 mod 64" and "y = v div 4096 mod 64" and "z = v div 64 mod 64"
  have l: "x < 64" "y < 64" "z < 64" by (simp_all add: x_def y_def z_def)
  have v: "((x * 64 + y) * 64 + z) * 64 + v mod 64 = v" using digits64 [OF assms] by (simp only: x_def y_def z_def)
  show "b64_groups (take 3 (b64_quad v) @ ''='') = Some (take 2 (b64_bytes v))" if "v mod 64 = 0"
    using l v that by (simp add: b64_quad_def b64_val_char flip: x_def y_def z_def)
  show "b64_groups (take 2 (b64_quad v) @ ''=='') = Some (take 1 (b64_bytes v))" if m: "v mod 4096 = 0"
  proof -
    have "v mod 64 = 0" "v div 64 mod 64 = 0" using m mod_mod_cancel [of 64 4096 v]
      by (simp, metis div_mult2_eq mod_mult2_eq m mult_eq_0_iff add_is_0 zero_neq_numeral numeral_times_numeral
        semiring_norm(11,12,13,14))
    then have "(x * 64 + y) * 4096 = v" using v by (simp add: z_def)
    then show ?thesis using l by (simp add: b64_quad_def b64_val_char flip: x_def y_def)
  qed
qed

theorem b64_roundtrip: "b64_decode (b64_encode s) = Some s"
proof (induction s rule: b64_encode.induct)
  case (1 a b c r)
  have "(of_char a * 256 + of_char b) * 256 + of_char c < (16777216::nat)" by (rule bytes24(1)) simp_all
  with 1 b64_bytes_chars [of a b c] show ?case by (simp add: b64_decode_def b64_quad_plain b64_groups_quad)
next
  case (2 a b)
  let ?v = "(of_char a * 256 + of_char b) * 256 :: nat"
  have "?v < 16777216" using bytes24(1) [of "of_char a" "of_char b" 0] by simp
  moreover have "?v mod 64 = 0" by simp
  moreover have "b64_bytes ?v = [a, b, char_of (0::nat)]" using b64_bytes_chars [of a b "char_of (0::nat)"] by simp
  ultimately show ?case using b64_groups_pad(1) [of ?v] by (simp add: b64_decode_def b64_quad_def)
next
  case (3 a)
  let ?v = "of_char a * 65536 :: nat"
  have "?v < 16777216" using bytes24(1) [of "of_char a" 0 0] by simp
  moreover have "?v mod 4096 = 0" by simp
  moreover have "b64_bytes ?v = [a, char_of (0::nat), char_of (0::nat)]"
    using b64_bytes_chars [of a "char_of (0::nat)" "char_of (0::nat)"] by (simp add: mult.commute)
  ultimately show ?case using b64_groups_pad(2) [of ?v] by (simp add: b64_decode_def b64_quad_def)
qed (simp add: b64_decode_def)

end
