(* ===== verification/Go_Strconv.thy ===== *)
theory Go_Strconv
  imports Go_Prelude
begin

text \<open>
  Decimal numbers as the package \<^verbatim>\<open>strconv\<close> writes them, and that \<^const>\<open>Atoi\<close> reads back what \<open>itoa\<close> wrote.
\<close>

text \<open>\<^verbatim>\<open>strconv.Itoa\<close>.\<close>

fun nat_digits :: "nat \<Rightarrow> string" where
  "nat_digits n = (if n < 10 then [char_of (48 + n)] else nat_digits (n div 10) @ [char_of (48 + n mod 10)])"

declare nat_digits.simps [simp del]

definition itoa :: "int \<Rightarrow> string" where
  "itoa n = (if n < 0 then CHR ''-'' # nat_digits (nat (- n)) else nat_digits (nat n))"

lemma nat_digits_char: "c \<in> set (nat_digits n) \<Longrightarrow> \<exists>d < 10. c = char_of (48 + d :: nat)"
proof (induction n rule: nat_digits.induct)
  case (1 n)
  show ?case
  proof (cases "n < 10")
    case True
    with "1.prems" show ?thesis by (auto simp: nat_digits.simps [of n])
  next
    case False
    then have "c \<in> set (nat_digits (n div 10)) \<or> c = char_of (48 + n mod 10)"
      using "1.prems" by (auto simp: nat_digits.simps [of n])
    moreover have "n mod 10 < 10" by simp
    ultimately show ?thesis using "1.IH" [OF False] by blast
  qed
qed

lemma colon_not_digit: "CHR '':'' \<notin> set (nat_digits n)"
proof
  assume "CHR '':'' \<in> set (nat_digits n)"
  then obtain d :: nat where "d < 10" "CHR '':'' = char_of (48 + d)" using nat_digits_char by blast
  then have "of_char (CHR '':'') = (48 + d) mod 256" by (simp only: of_char_of)
  with \<open>d < 10\<close> show False by simp
qed

lemma colon_not_itoa: "CHR '':'' \<notin> set (itoa n)"
  using colon_not_digit by (simp add: itoa_def)

lemma digits_val_snoc: "digits_val (ds @ [c]) = 10 * digits_val ds + digit_val c"
  by (simp add: digits_val_def)

lemma digits_val_nat_digits: "digits_val (nat_digits n) = n"
proof (induction n rule: nat_digits.induct)
  case (1 n)
  have d: "digit_val (char_of (48 + d)) = d" if "d < 10" for d :: nat
    using that by (simp add: digit_val_def)
  show ?case
  proof (cases "n < 10")
    case True
    then show ?thesis by (simp add: nat_digits.simps [of n] digits_val_def d)
  next
    case False
    with 1 show ?thesis by (simp add: nat_digits.simps [of n] digits_val_snoc d)
  qed
qed

lemma minus_not_digit: "CHR ''-'' \<notin> set (nat_digits n)"
proof
  assume "CHR ''-'' \<in> set (nat_digits n)"
  then obtain d :: nat where "d < 10" "CHR ''-'' = char_of (48 + d)" using nat_digits_char by blast
  then have "of_char (CHR ''-'') = (48 + d) mod 256" by (simp only: of_char_of)
  with \<open>d < 10\<close> show False by simp
qed

lemma nat_digits_not_Nil: "nat_digits n \<noteq> []"
  by (simp add: nat_digits.simps [of n])

definition itoa_value :: "string \<Rightarrow> int" where
  "itoa_value s = (if hd s = CHR ''-'' then - int (digits_val (tl s)) else int (digits_val s))"

lemma itoa_value_itoa: "itoa_value (itoa n) = n"
proof (cases "n < 0")
  case False
  have "hd (nat_digits (nat n)) \<noteq> CHR ''-''"
    using minus_not_digit [of "nat n"] hd_in_set [OF nat_digits_not_Nil] by metis
  with False show ?thesis by (simp add: itoa_def itoa_value_def digits_val_nat_digits)
qed (simp add: itoa_def itoa_value_def digits_val_nat_digits)

lemma itoa_inject: "itoa m = itoa n \<longleftrightarrow> m = n"
  by (metis itoa_value_itoa)

lemma append_last_inject:
  "c \<notin> set v \<Longrightarrow> c \<notin> set w \<Longrightarrow> a @ c # v = b @ c # w \<longleftrightarrow> a = b \<and> v = w"
proof
  assume free: "c \<notin> set v" "c \<notin> set w"
  assume "a @ c # v = b @ c # w"
  then consider us where "a = b @ us" "us @ c # v = c # w" | us where "a @ us = b" "c # v = us @ c # w"
    unfolding append_eq_append_conv2 by blast
  then show "a = b \<and> v = w"
  proof cases
    case (1 us)
    then show ?thesis using free(2) by (cases us) auto
  next
    case (2 us)
    then show ?thesis using free(1) by (cases us) auto
  qed
qed simp

lemma nat_digits_digits: "list_all is_digit (nat_digits n)"
proof -
  have "is_digit (char_of (48 + d :: nat))" if "d < 10" for d using that by (simp add: is_digit_def)
  then show ?thesis using nat_digits_char unfolding list_all_iff by blast
qed

lemma digit_not: "is_digit c \<Longrightarrow> c \<notin> set '':[]+-''"
  by (auto simp: is_digit_def)

lemma Atoi_itoa: "0 \<le> p \<Longrightarrow> p < 2 ^ 63 \<Longrightarrow> Atoi (itoa p) = Some p"
proof -
  assume p: "0 \<le> p" "p < 2 ^ 63"
  have d: "list_all is_digit (nat_digits (nat p))" by (rule nat_digits_digits)
  obtain c cs where n: "nat_digits (nat p) = c # cs" using nat_digits_not_Nil by (metis list.exhaust)
  with d have "c \<noteq> CHR ''-''" "c \<noteq> CHR ''+''" using digit_not [of c] by auto
  moreover have "int (digits_val (c # cs)) = p" using p(1) digits_val_nat_digits [of "nat p"] n by simp
  ultimately show ?thesis using d n p by (simp add: Atoi_def itoa_def)
qed

end
