(* ===== verification/Egress_Server.thy ===== *)
theory Egress_Server
  imports Egress_Guard Egress_Mitm Egress_Credential Go_Strconv
begin

text \<open>
  The egress server, \<^verbatim>\<open>src/pkg/egress/server.go\<close>: start-up checks, the verdict of a connection with
  the cache of a remote decider's answers, the live policy, the counters and the audit sink. The
  remote decider, the token generator and the outcome of binding the listeners are arguments. The
  counters are 64-bit words; the verdict cache is an association list with one entry per key, as a
  Go map's size is consulted. \<^verbatim>\<open>Event.At\<close> is left out of an event.

  Shown here: an answer from the cache is an answer the decider gave for the same destination less
  than the cache's lifetime ago; a decider that fails denies; every refusal is counted and, with a
  sink, recorded; the server never starts without a policy and a token, or with masking but no
  termination.
\<close>

section \<open>State\<close>

datatype event_kind = CodeHTTP | CodeConnect | CodeSOCKS

record event =
  ev_Kind :: event_kind
  ev_Host :: string
  ev_Port :: int
  ev_Code :: code
  ev_Rule :: string
  ev_Reason :: vreason
  ev_Address :: "addr option"
  ev_Method :: string
  ev_Terminated :: bool
  ev_Credentials :: "string list"

definition zero_event :: "event_kind \<Rightarrow> event" where
  "zero_event k = \<lparr>ev_Kind = k, ev_Host = [], ev_Port = 0, ev_Code = CodeNone, ev_Rule = [],
     ev_Reason = NoVReason, ev_Address = None, ev_Method = [], ev_Terminated = False, ev_Credentials = []\<rparr>"

type_synonym decider = "string \<Rightarrow> int \<Rightarrow> string + verdict"

record cached_verdict =
  cv_verdict :: verdict
  cv_until :: gotime

text \<open>The options: the masker, the authority and the termination options are absent or present.\<close>

record options =
  o_Policy :: "compiled option"
  o_Token :: string
  o_Sink :: bool
  o_LogAllowed :: bool
  o_DialTimeout :: duration
  o_CA :: "ca option"
  o_Mask :: "masker option"
  o_Terminate :: "terminate_options option"
  o_Decide :: "decider option"
  o_DecideTimeout :: duration
  o_DecideCacheTTL :: duration
  o_UnixSocketPath :: string
  o_ListenHost :: string

record server =
  sv_opts :: options
  sv_token :: string
  sv_dialer :: dialer
  sv_socks :: bool
  sv_unixSocket :: string
  sv_listenHost :: string
  sv_verdicts :: "(string \<times> cached_verdict) list"
  sv_policy :: compiled
  sv_allowed :: "64 word"
  sv_denied :: "64 word"
  sv_sink :: "event list"

datatype start_error = NoPolicy | TokenError string | MaskNeedsTerminate | TerminateNeedsCA
  | ClearSocketError | ListenUnixError | ListenHTTPError | ListenSOCKSError

record start_env =
  se_newToken :: "string + string"
  se_clear_ok :: bool
  se_http_ok :: bool
  se_socks_ok :: bool

section \<open>Operations\<close>

definition start_defaults :: "options \<Rightarrow> options" where
  "start_defaults opts =
     opts\<lparr>o_DialTimeout := (if o_DialTimeout opts \<le> 0 then 30 * second else o_DialTimeout opts),
          o_DecideTimeout := (if o_Decide opts \<noteq> None \<and> o_DecideTimeout opts \<le> 0 then 5 * second
                              else o_DecideTimeout opts)\<rparr>"

definition Start :: "start_env \<Rightarrow> options \<Rightarrow> start_error + server" where
  "Start env opts0 =
     (case o_Policy opts0 of
        None \<Rightarrow> Inl NoPolicy
      | Some pol \<Rightarrow>
          (case (if o_Token opts0 = [] then se_newToken env else Inr (o_Token opts0)) of
             Inl e \<Rightarrow> Inl (TokenError e)
           | Inr token \<Rightarrow>
               let opts = start_defaults opts0;
                   s = \<lparr>sv_opts = opts, sv_token = token, sv_dialer = newDialer pol (o_DialTimeout opts),
                        sv_socks = False, sv_unixSocket = [],
                        sv_listenHost = (if o_ListenHost opts = [] then ''127.0.0.1'' else o_ListenHost opts),
                        sv_verdicts = [], sv_policy = pol, sv_allowed = 0, sv_denied = 0, sv_sink = []\<rparr>
               in if o_Mask opts \<noteq> None \<and> o_Terminate opts = None then Inl MaskNeedsTerminate
                  else if o_Terminate opts \<noteq> None \<and> o_CA opts = None then Inl TerminateNeedsCA
                  else if o_UnixSocketPath opts \<noteq> [] then
                    (if \<not> se_clear_ok env then Inl ClearSocketError
                     else if \<not> se_http_ok env then Inl ListenUnixError
                     else Inr (s\<lparr>sv_unixSocket := o_UnixSocketPath opts\<rparr>))
                  else if \<not> se_http_ok env then Inl ListenHTTPError
                  else if \<not> se_socks_ok env then Inl ListenSOCKSError
                  else Inr (s\<lparr>sv_socks := True\<rparr>)))"

definition dest_key :: "string \<Rightarrow> int \<Rightarrow> string" where
  "dest_key host port = host @ '':'' @ itoa port"

definition store_verdict :: "gotime \<Rightarrow> string \<Rightarrow> verdict \<Rightarrow> server \<Rightarrow> server" where
  "store_verdict now key v s =
     (let swept = (if length (sv_verdicts s) \<ge> 1024
                   then filter (\<lambda>(k, c). \<not> now > cv_until c) (sv_verdicts s) else sv_verdicts s)
      in s\<lparr>sv_verdicts := AList.update key
            \<lparr>cv_verdict = v, cv_until = now + o_DecideCacheTTL (sv_opts s)\<rparr> swept\<rparr>)"

definition ask_decider ::
  "decider \<Rightarrow> gotime \<Rightarrow> string \<Rightarrow> string \<Rightarrow> int \<Rightarrow> server \<Rightarrow> verdict \<times> server" where
  "ask_decider ask now key host port s =
     (case ask host port of
        Inl _ \<Rightarrow>
          (zero_verdict\<lparr>v_Code := CodeDeciderUnavailable, v_Host := host, v_Port := port,
             v_Reason := DeciderSilent\<rparr>, s)
      | Inr v0 \<Rightarrow>
          let v1 = (if v_Host v0 = [] then v0\<lparr>v_Host := host\<rparr> else v0);
              v = (if v_Port v1 = 0 then v1\<lparr>v_Port := port\<rparr> else v1)
          in (v, if o_DecideCacheTTL (sv_opts s) > 0 then store_verdict now key v s else s))"

text \<open>\<^verbatim>\<open>decide\<close>: \<open>now\<close> is the clock at the cache lookup, \<open>now'\<close> the clock after the decider's answer.\<close>

definition decide :: "gotime \<Rightarrow> gotime \<Rightarrow> string \<Rightarrow> int \<Rightarrow> server \<Rightarrow> verdict \<times> server" where
  "decide now now' host port s =
     (case o_Decide (sv_opts s) of
        None \<Rightarrow> (Decide (sv_policy s) host port, s)
      | Some ask \<Rightarrow>
          let key = dest_key host port; ttl = o_DecideCacheTTL (sv_opts s) in
          if length key > 512 then
            (zero_verdict\<lparr>v_Code := CodeNotAllowed, v_Host := host, v_Port := port, v_Reason := NameTooLong\<rparr>, s)
          else case (if ttl > 0 then map_of (sv_verdicts s) key else None) of
            Some c \<Rightarrow>
              if now < cv_until c then (cv_verdict c, s)
              else ask_decider ask now' key host port s
          | None \<Rightarrow> ask_decider ask now' key host port s)"

definition UpdatePolicy :: "compiled option \<Rightarrow> server \<Rightarrow> bool \<times> server" where
  "UpdatePolicy p s =
     (case p of
        None \<Rightarrow> (False, s)
      | Some c \<Rightarrow> (True, s\<lparr>sv_policy := c, sv_dialer := setPolicy c (sv_dialer s)\<rparr>))"

definition tokenMatches :: "string \<Rightarrow> server \<Rightarrow> bool" where
  "tokenMatches pass s \<longleftrightarrow> pass = sv_token s"

text \<open>\<^verbatim>\<open>authorized\<close>: the password of a basic credential, whatever the user name.\<close>

definition authorized :: "string \<Rightarrow> server \<Rightarrow> bool" where
  "authorized header s =
     (if length header < length ''Basic '' \<or> \<not> EqualFold (take (length ''Basic '') header) ''Basic '' then False
      else case b64_decode (TrimSpace (drop (length ''Basic '') header)) of
        None \<Rightarrow> False
      | Some raw \<Rightarrow>
          (case IndexByte raw (CHR '':'') of
             None \<Rightarrow> False
           | Some i \<Rightarrow> tokenMatches (drop (Suc i) raw) s))"

text \<open>\<^verbatim>\<open>Close\<close>: the outcomes of closing the two listeners (\<open>None\<close> is no error or one that says it was closed already),
  the first error, and whether the socket file is removed.\<close>

definition Close :: "string option \<Rightarrow> string option \<Rightarrow> server \<Rightarrow> string option \<times> bool" where
  "Close http_err socks_err s =
     (let first = http_err;
          first1 = (if sv_socks s \<and> socks_err \<noteq> None \<and> first = None then socks_err else first)
      in (first1, sv_unixSocket s \<noteq> []))"

definition record_event :: "event \<Rightarrow> server \<Rightarrow> server" where
  "record_event e s0 =
     (let s = (if ev_Code e = CodeAllowed then s0\<lparr>sv_allowed := sv_allowed s0 + 1\<rparr>
               else s0\<lparr>sv_denied := sv_denied s0 + 1\<rparr>)
      in if \<not> o_Sink (sv_opts s) then s
         else if ev_Code e = CodeAllowed \<and> \<not> o_LogAllowed (sv_opts s) \<and> ev_Credentials e = [] then s
         else s\<lparr>sv_sink := sv_sink s @ [e]\<rparr>)"

definition Stats :: "server \<Rightarrow> 64 word \<times> 64 word" where
  "Stats s = (sv_allowed s, sv_denied s)"

text \<open>The environment handed to a sandboxed process; the addresses the listeners were bound to are the
  arguments.\<close>

definition ProxyURL :: "string \<Rightarrow> server \<Rightarrow> string" where
  "ProxyURL httpAddr s = ''http://sandbox:'' @ sv_token s @ ''@'' @ httpAddr"

definition SOCKSAddr :: "string \<Rightarrow> server \<Rightarrow> string" where
  "SOCKSAddr socksAddr s = (if sv_socks s then socksAddr else [])"

definition SOCKSURL :: "string \<Rightarrow> server \<Rightarrow> string" where
  "SOCKSURL socksAddr s =
     (if SOCKSAddr socksAddr s = [] then []
      else ''socks5://sandbox:'' @ sv_token s @ ''@'' @ SOCKSAddr socksAddr s)"

definition ProxyEnv :: "string \<Rightarrow> string \<Rightarrow> server \<Rightarrow> string list" where
  "ProxyEnv httpAddr socksAddr s =
     (let httpURL = ProxyURL httpAddr s; socksURL = SOCKSURL socksAddr s in
      [''HTTP_PROXY='' @ httpURL, ''http_proxy='' @ httpURL, ''HTTPS_PROXY='' @ httpURL, ''https_proxy='' @ httpURL] @
      (if socksURL \<noteq> [] then [''ALL_PROXY='' @ socksURL, ''all_proxy='' @ socksURL] else []) @
      [''NODE_USE_ENV_PROXY=1'', ''NO_PROXY='', ''no_proxy=''])"

section \<open>Cache keys\<close>

lemma dest_key_inject: "dest_key h p = dest_key h' p' \<longleftrightarrow> h = h' \<and> p = p'"
  using append_last_inject [OF colon_not_itoa colon_not_itoa]
  by (simp add: dest_key_def itoa_inject)

section \<open>What a proxy relies on of the verdict source\<close>

text \<open>The history of the decider's answers: destination, time of the answer, verdict.\<close>

type_synonym answers = "(string \<times> int \<times> gotime \<times> verdict) set"

definition cache_ok :: "answers \<Rightarrow> server \<Rightarrow> bool" where
  "cache_ok hist s \<longleftrightarrow>
     (\<forall>key c. map_of (sv_verdicts s) key = Some c \<longrightarrow>
        (\<exists>host port t. key = dest_key host port \<and> (host, port, t, cv_verdict c) \<in> hist \<and>
                       cv_until c = t + o_DecideCacheTTL (sv_opts s)))"

text \<open>The answer \<open>decide\<close> adds to the history when it asks.\<close>

definition answer_of :: "gotime \<Rightarrow> string \<Rightarrow> int \<Rightarrow> verdict \<Rightarrow> answers" where
  "answer_of now host port v = {(host, port, now, v)}"

lemma map_of_filter_Some:
  "distinct (map fst xs) \<Longrightarrow> map_of (filter (\<lambda>(k, c). P c) xs) k = Some c \<Longrightarrow> map_of xs k = Some c"
  by (induction xs) (auto split: if_splits prod.splits dest: map_of_SomeD simp: image_iff)

definition verdicts_wf :: "server \<Rightarrow> bool" where
  "verdicts_wf s \<longleftrightarrow> distinct (map fst (sv_verdicts s))"

lemma distinct_filter_fst: "distinct (map fst xs) \<Longrightarrow> distinct (map fst (filter P xs))"
  by (rule distinct_map_filter)

lemma store_verdict_ok:
  assumes "cache_ok hist s" and "verdicts_wf s"
  shows "cache_ok (insert (host, port, now, v) hist) (store_verdict now (dest_key host port) v s)
       \<and> verdicts_wf (store_verdict now (dest_key host port) v s)"
proof
  define swept where "swept = (if length (sv_verdicts s) \<ge> 1024
      then filter (\<lambda>(k, c). \<not> now > cv_until c) (sv_verdicts s) else sv_verdicts s)"
  have d: "distinct (map fst swept)"
    using assms(2) by (simp add: swept_def verdicts_wf_def distinct_filter_fst)
  have sub: "map_of (sv_verdicts s) k = Some c" if "map_of swept k = Some c" for k c
    using that assms(2) map_of_filter_Some [of "sv_verdicts s" "\<lambda>c. \<not> now > cv_until c" k c]
    by (simp add: swept_def verdicts_wf_def split: if_splits)
  have st: "sv_verdicts (store_verdict now (dest_key host port) v s) =
      AList.update (dest_key host port) \<lparr>cv_verdict = v, cv_until = now + o_DecideCacheTTL (sv_opts s)\<rparr> swept"
    and op: "sv_opts (store_verdict now (dest_key host port) v s) = sv_opts s"
    by (simp_all add: store_verdict_def swept_def Let_def)
  show "verdicts_wf (store_verdict now (dest_key host port) v s)"
    using d by (simp add: verdicts_wf_def st distinct_update)
  show "cache_ok (insert (host, port, now, v) hist) (store_verdict now (dest_key host port) v s)"
    unfolding cache_ok_def st op update_conv'
  proof (intro allI impI)
    fix key c
    assume c: "((map_of swept)(dest_key host port \<mapsto> \<lparr>cv_verdict = v, cv_until = now + o_DecideCacheTTL (sv_opts s)\<rparr>)) key = Some c"
    show "\<exists>h p t. key = dest_key h p \<and> (h, p, t, cv_verdict c) \<in> insert (host, port, now, v) hist \<and>
        cv_until c = t + o_DecideCacheTTL (sv_opts s)"
    proof (cases "key = dest_key host port")
      case True
      with c show ?thesis by (intro exI [of _ host] exI [of _ port] exI [of _ now]) auto
    next
      case False
      with c sub assms(1) show ?thesis unfolding cache_ok_def by (metis fun_upd_other insertCI)
    qed
  qed
qed

text \<open>Where the verdict of one call came from.\<close>

lemma decide_source:
  assumes "cache_ok hist s" and "verdicts_wf s" and "decide now now' host port s = (v, s')"
    and "o_Decide (sv_opts s) = Some ask"
  shows "v_Allow v = False \<and> s' = s \<or>
     (\<exists>t. (host, port, t, v) \<in> hist \<and> now < t + o_DecideCacheTTL (sv_opts s)) \<and> s' = s \<or>
     (\<exists>v0. ask host port = Inr v0 \<and> v_Allow v = v_Allow v0 \<and>
        cache_ok (insert (host, port, now', v) hist) s' \<and> verdicts_wf s')"
proof -
  have "cache_ok (insert x hist) s" for x
    using assms(1) unfolding cache_ok_def by (metis insertCI)
  then have asked: "v_Allow v = False \<and> s' = s \<or> (\<exists>v0. ask host port = Inr v0 \<and> v_Allow v = v_Allow v0 \<and>
        cache_ok (insert (host, port, now', v) hist) s' \<and> verdicts_wf s')"
    if "ask_decider ask now' (dest_key host port) host port s = (v, s')"
    using that assms(1,2) store_verdict_ok [OF assms(1,2), of host port now']
    by (auto simp: ask_decider_def Let_def split: sum.splits if_splits)
  show ?thesis
  proof (cases "length (dest_key host port) > 512")
    case True
    then show ?thesis using assms(3,4) by (auto simp: decide_def Let_def)
  next
    case False
    show ?thesis
    proof (cases "if o_DecideCacheTTL (sv_opts s) > 0 then map_of (sv_verdicts s) (dest_key host port) else None")
      case None
      then have "decide now now' host port s = ask_decider ask now' (dest_key host port) host port s"
        using False assms(4) by (simp add: decide_def Let_def)
      with asked assms(3) show ?thesis by auto
    next
      case (Some c)
      then have m: "map_of (sv_verdicts s) (dest_key host port) = Some c" by (simp split: if_splits)
      have dec: "decide now now' host port s = (if now < cv_until c then (cv_verdict c, s)
          else ask_decider ask now' (dest_key host port) host port s)"
        using Some False assms(4) by (simp add: decide_def Let_def)
      obtain h p t where "dest_key host port = dest_key h p" "(h, p, t, cv_verdict c) \<in> hist"
          "cv_until c = t + o_DecideCacheTTL (sv_opts s)"
        using assms(1) m unfolding cache_ok_def by blast
      then show ?thesis using dec asked assms(3) by (auto simp: dest_key_inject split: if_splits)
    qed
  qed
qed

section \<open>Properties of the server\<close>

lemma start_defaults_simps:
  "o_Mask (start_defaults opts) = o_Mask opts" "o_Terminate (start_defaults opts) = o_Terminate opts"
  "o_CA (start_defaults opts) = o_CA opts" "o_UnixSocketPath (start_defaults opts) = o_UnixSocketPath opts"
  "o_ListenHost (start_defaults opts) = o_ListenHost opts"
  by (simp_all add: start_defaults_def)

lemma newDialer_policy: "d_policy (newDialer p t) = p"
  by (simp add: newDialer_def)

text \<open>An allow is the decider's: with a remote decider installed, a verdict that allows is either
  its answer to this very call or an answer it gave earlier for the same host and port, not older than
  the cache's lifetime; a cache filled by such answers stays so after the call.\<close>

theorem decided_allow_is_the_deciders:
  assumes "cache_ok hist s" and "verdicts_wf s" and "o_Decide (sv_opts s) = Some ask"
    and "v_Allow (fst (decide now now' host port s))"
  shows "(\<exists>t v. (host, port, t, v) \<in> hist \<and> v_Allow v \<and> now < t + o_DecideCacheTTL (sv_opts s)) \<or>
    (\<exists>v0. ask host port = Inr v0 \<and> v_Allow v0 \<and>
       cache_ok (insert (host, port, now', fst (decide now now' host port s)) hist)
         (snd (decide now now' host port s)) \<and> verdicts_wf (snd (decide now now' host port s)))"
proof -
  obtain v s' where d: "decide now now' host port s = (v, s')" by fastforce
  show ?thesis using decide_source [OF assms(1,2) d assms(3)] assms(4) d by auto
qed

definition demo_options :: options where
  "demo_options = \<lparr>o_Policy = Some demo_compiled, o_Token = ''tok'', o_Sink = True, o_LogAllowed = False,
     o_DialTimeout = 0, o_CA = None, o_Mask = None, o_Terminate = None,
     o_Decide = Some (\<lambda>host port. Inr (zero_verdict\<lparr>v_Allow := (host = ''a.example.com'')\<rparr>)), o_DecideTimeout = 0,
     o_DecideCacheTTL = 60 * second, o_UnixSocketPath = [], o_ListenHost = []\<rparr>"

definition demo_server :: server where
  "demo_server = projr (Start \<lparr>se_newToken = Inl ''none'', se_clear_ok = True, se_http_ok = True, se_socks_ok = True\<rparr> demo_options)"

lemma demo_server_simps:
  "sv_opts demo_server = demo_options\<lparr>o_DialTimeout := 30 * second, o_DecideTimeout := 5 * second\<rparr>"
  "sv_verdicts demo_server = []" "sv_token demo_server = ''tok''" "sv_policy demo_server = demo_compiled"
  "sv_dialer demo_server = newDialer demo_compiled (30 * second)"
  by (simp_all add: demo_server_def Start_def start_defaults_def demo_options_def)

theorem decided_allow_is_the_deciders_witness:
  "\<exists>v0. the (o_Decide demo_options) ''a.example.com'' 443 = Inr v0 \<and> v_Allow v0"
proof -
  have "cache_ok {} demo_server" "verdicts_wf demo_server"
    by (simp_all add: cache_ok_def verdicts_wf_def demo_server_simps)
  moreover have "o_Decide (sv_opts demo_server) = Some (the (o_Decide demo_options))"
    by (simp add: demo_server_simps demo_options_def)
  moreover have "v_Allow (fst (decide 1 2 ''a.example.com'' 443 demo_server))" by code_simp
  ultimately show ?thesis using decided_allow_is_the_deciders by fastforce
qed

text \<open>A decider that does not answer denies: whatever is in the cache for other destinations and
  whatever the local policy says, a call the cache cannot serve and the decider fails to answer is
  refused, under its own code, and leaves the server unchanged.\<close>

theorem silent_decider_denies:
  assumes "o_Decide (sv_opts s) = Some ask" and "ask host port = Inl e"
    and "length (dest_key host port) \<le> 512"
    and "case map_of (sv_verdicts s) (dest_key host port) of None \<Rightarrow> True | Some c \<Rightarrow> cv_until c \<le> now"
  shows "\<not> v_Allow (fst (decide now now' host port s)) \<and>
    v_Code (fst (decide now now' host port s)) = CodeDeciderUnavailable \<and> snd (decide now now' host port s) = s"
  using assms by (auto simp: decide_def ask_decider_def Let_def split: option.splits)

theorem silent_decider_denies_witness:
  "\<not> v_Allow (fst (decide 1 2 ''a.example.com'' 443
      (demo_server\<lparr>sv_opts := demo_options\<lparr>o_Decide := Some (\<lambda>_ _. Inl ''timeout'')\<rparr>\<rparr>)))"
proof (rule silent_decider_denies [THEN conjunct1])
  show "length (dest_key ''a.example.com'' 443) \<le> 512" by code_simp
qed (simp_all add: demo_options_def demo_server_simps)

text \<open>Every decision is counted and no refusal is lost: recording an event adds one to exactly one of
  the two counters (modulo the 64-bit wrap), and with a sink installed every refusal and every use of a
  credential is appended to the trail; a plain allowed connection is appended only on request.\<close>

theorem record_counts:
  "Stats (record_event e s) =
     (if ev_Code e = CodeAllowed then (sv_allowed s + 1, sv_denied s) else (sv_allowed s, sv_denied s + 1)) \<and>
   sv_sink (record_event e s) = sv_sink s @
     (if o_Sink (sv_opts s) \<and> (ev_Code e \<noteq> CodeAllowed \<or> o_LogAllowed (sv_opts s) \<or> ev_Credentials e \<noteq> [])
      then [e] else [])"
  by (simp add: record_event_def Stats_def Let_def)

text \<open>Starting fails closed: a server that starts enforces the policy it was given in both its verdicts
  and its address check, has a token (the caller's, or a fresh one), binds loopback unless told
  otherwise, masks credentials only with TLS termination and terminates only with a CA; on a unix socket
  it offers no SOCKS listener.\<close>

theorem Start_ok:
  assumes "Start env opts = Inr s"
  shows "o_Policy opts = Some (sv_policy s) \<and> d_policy (sv_dialer s) = sv_policy s \<and>
    (o_Token opts = [] \<and> se_newToken env = Inr (sv_token s) \<or> sv_token s = o_Token opts \<and> sv_token s \<noteq> []) \<and>
    (o_ListenHost opts = [] \<longrightarrow> sv_listenHost s = ''127.0.0.1'') \<and>
    (o_Mask opts \<noteq> None \<longrightarrow> o_Terminate opts \<noteq> None) \<and> (o_Terminate opts \<noteq> None \<longrightarrow> o_CA opts \<noteq> None) \<and>
    (sv_socks s \<longleftrightarrow> o_UnixSocketPath opts = []) \<and> 0 < d_timeout (sv_dialer s)"
proof -
  obtain pol where p: "o_Policy opts = Some pol" using assms by (cases "o_Policy opts") (simp_all add: Start_def)
  obtain token where t: "(if o_Token opts = [] then se_newToken env else Inr (o_Token opts)) = Inr token"
    using assms p by (cases "if o_Token opts = [] then se_newToken env else Inr (o_Token opts)") (simp_all add: Start_def)
  have "o_Token opts = [] \<and> se_newToken env = Inr token \<or> token = o_Token opts \<and> token \<noteq> []"
    using t by (auto split: if_splits)
  moreover have "0 < d_timeout (newDialer pol (o_DialTimeout (start_defaults opts)))"
    by (simp add: newDialer_def start_defaults_def)
  ultimately show ?thesis
    using assms p t
    by (cases "o_Mask opts \<noteq> None \<and> o_Terminate opts = None"; cases "o_Terminate opts \<noteq> None \<and> o_CA opts = None";
        cases "o_UnixSocketPath opts = []")
      (auto simp: Start_def start_defaults_simps newDialer_policy Let_def split: if_splits)
qed

theorem Start_ok_witness:
  "d_policy (sv_dialer demo_server) = sv_policy demo_server \<and> sv_listenHost demo_server = ''127.0.0.1''"
proof -
  let ?env = "\<lparr>se_newToken = Inl ''none'', se_clear_ok = True, se_http_ok = True, se_socks_ok = True\<rparr>"
  have "Start ?env demo_options = Inr demo_server"
    by (simp add: demo_server_def Start_def start_defaults_def demo_options_def)
  from Start_ok [OF this] show ?thesis by (simp add: demo_options_def)
qed

text \<open>A new policy takes effect at once and everywhere: after an update both the verdict and the
  address check use it, and nothing else of the server changed; an absent policy is rejected and
  changes nothing.\<close>

theorem UpdatePolicy_effect:
  "UpdatePolicy None s = (False, s) \<and>
   (case UpdatePolicy (Some c) s of (ok, s') \<Rightarrow> ok \<and> sv_policy s' = c \<and> d_policy (sv_dialer s') = c \<and>
      sv_token s' = sv_token s \<and> Stats s' = Stats s \<and> sv_sink s' = sv_sink s \<and>
      d_ownAddrs (sv_dialer s') = d_ownAddrs (sv_dialer s) \<and>
      (o_Decide (sv_opts s) = None \<longleftrightarrow> o_Decide (sv_opts s') = None))"
  by (simp add: UpdatePolicy_def setPolicy_def Stats_def)

end
