(* ===== verification/Egress_Socks.thy ===== *)
theory Egress_Socks
  imports Egress_Server
begin

text \<open>
  The SOCKS5 proxy, \<^verbatim>\<open>src/pkg/egress/socks.go\<close>: one connection from the first byte to the tunnel. The
  input is the sequence of bytes the client sends before it stops (a read past its end is the
  error of \<^verbatim>\<open>io.ReadFull\<close>), the output the bytes written to it. The three writes whose failure the
  code looks at succeed as the argument \<open>w\<close> says; the handshake deadline cuts the input short. A
  tunnel is the address it was spliced to with the bytes already buffered.

  Shown here: no tunnel without the token, the CONNECT command, an allowing verdict and an
  approved address; every refusal is counted, recorded and answered; what a client sends for a name
  and a port is what the handler decides on, and what it sends after the request enters the tunnel.
\<close>

section \<open>Bytes and printed addresses\<close>

type_synonym byte = "8 word"

definition byte_string :: "byte list \<Rightarrow> string" where
  "byte_string bs = map (\<lambda>b. char_of (unat b)) bs"

definition group_hex :: "nat \<Rightarrow> string" where
  "group_hex g =
     (let ds = [g div 4096 mod 16, g div 256 mod 16, g div 16 mod 16, g mod 16];
          ws = dropWhile (\<lambda>d. d = 0) ds
      in map hex_digit (if ws = [] then [0] else ws))"

fun byte_groups :: "byte list \<Rightarrow> nat list" where
  "byte_groups (a # b # bs) = (unat a * 256 + unat b) # byte_groups bs"
| "byte_groups _ = []"

text \<open>The first longest run of at least two zero groups: where it starts and how long it is.\<close>

definition best_zero_run :: "nat list \<Rightarrow> nat \<times> nat" where
  "best_zero_run gs =
     foldl (\<lambda>(st, len) i. let l = length (takeWhile (\<lambda>g. g = 0) (drop i gs))
                           in if l \<ge> 2 \<and> l > len then (i, l) else (st, len))
       (0, 0) [0..<length gs]"

definition IP_String :: "byte list \<Rightarrow> string" where
  "IP_String ip =
     (let quad = (\<lambda>bs. Join (map (\<lambda>b. nat_digits (unat b)) bs) ''.'') in
      if length ip = 4 then quad ip
      else if take 12 ip = replicate 10 0 @ [0xff, 0xff] then quad (drop 12 ip)
      else let gs = byte_groups ip; (st, len) = best_zero_run gs; pr = (\<lambda>xs. Join (map group_hex xs) '':'')
           in if len = 0 then pr gs else pr (take st gs) @ ''::'' @ pr (drop (st + len) gs))"

section \<open>The handshake\<close>

datatype socks_error = SocksEOF | SocksVersion | SocksNoMethod | SocksWriteError
  | SocksAuthVersion | SocksNoAuth | CmdNotSupported | AtypNotSupported

record socks_writes =
  w_method :: bool
  w_auth :: bool
  w_reply :: bool

text \<open>\<^verbatim>\<open>io.ReadFull\<close> of \<open>n\<close> bytes.\<close>

definition ReadFull :: "nat \<Rightarrow> byte list \<Rightarrow> (byte list \<times> byte list) option" where
  "ReadFull n inp = (if length inp < n then None else Some (take n inp, drop n inp))"

definition socksNegotiate ::
  "socks_writes \<Rightarrow> server \<Rightarrow> byte list \<Rightarrow> (socks_error + byte list) \<times> byte list" where
  "socksNegotiate w s inp =
     (case ReadFull 2 inp of
        None \<Rightarrow> (Inl SocksEOF, [])
      | Some (hd1, inp1) \<Rightarrow>
          if hd1 ! 0 \<noteq> 5 then (Inl SocksVersion, [])
          else case ReadFull (unat (hd1 ! 1)) inp1 of
            None \<Rightarrow> (Inl SocksEOF, [])
          | Some (methods, inp2) \<Rightarrow>
              if \<not> list_ex (\<lambda>b. b = 2) methods then (Inl SocksNoMethod, [5, 0xff])
              else if \<not> w_method w then (Inl SocksWriteError, [])
              else case ReadFull 2 inp2 of
                None \<Rightarrow> (Inl SocksEOF, [5, 2])
              | Some (b, inp3) \<Rightarrow>
                  if b ! 0 \<noteq> 1 then (Inl SocksAuthVersion, [5, 2])
                  else case ReadFull (unat (b ! 1)) inp3 of
                    None \<Rightarrow> (Inl SocksEOF, [5, 2])
                  | Some (user, inp4) \<Rightarrow>
                      (case ReadFull 1 inp4 of
                         None \<Rightarrow> (Inl SocksEOF, [5, 2])
                       | Some (pl, inp5) \<Rightarrow>
                           (case ReadFull (unat (pl ! 0)) inp5 of
                              None \<Rightarrow> (Inl SocksEOF, [5, 2])
                            | Some (pass, inp6) \<Rightarrow>
                                if \<not> tokenMatches (byte_string pass) s then (Inl SocksNoAuth, [5, 2, 1, 1])
                                else if w_auth w then (Inr inp6, [5, 2, 1, 0])
                                else (Inl SocksWriteError, [5, 2]))))"

definition read_host :: "byte \<Rightarrow> byte list \<Rightarrow> socks_error + string \<times> byte list" where
  "read_host atyp inp =
     (if atyp = 1 then
        (case ReadFull 4 inp of None \<Rightarrow> Inl SocksEOF | Some (v, r) \<Rightarrow> Inr (IP_String v, r))
      else if atyp = 4 then
        (case ReadFull 16 inp of None \<Rightarrow> Inl SocksEOF | Some (v, r) \<Rightarrow> Inr (IP_String v, r))
      else if atyp = 3 then
        (case ReadFull 1 inp of
           None \<Rightarrow> Inl SocksEOF
         | Some (n, r) \<Rightarrow>
             (case ReadFull (unat (n ! 0)) r of None \<Rightarrow> Inl SocksEOF | Some (v, r') \<Rightarrow> Inr (byte_string v, r')))
      else Inl AtypNotSupported)"

definition socksReadRequest :: "byte list \<Rightarrow> socks_error + (string \<times> int \<times> byte list)" where
  "socksReadRequest inp =
     (case ReadFull 4 inp of
        None \<Rightarrow> Inl SocksEOF
      | Some (h, inp1) \<Rightarrow>
          if h ! 0 \<noteq> 5 then Inl SocksVersion
          else if h ! 1 \<noteq> 1 then Inl CmdNotSupported
          else case read_host (h ! 3) inp1 of
            Inl e \<Rightarrow> Inl e
          | Inr (host, inp2) \<Rightarrow>
              (case ReadFull 2 inp2 of
                 None \<Rightarrow> Inl SocksEOF
               | Some (p, inp3) \<Rightarrow> Inr (host, uint (p ! 0) * 256 + uint (p ! 1), inp3)))"

definition socksReply :: "byte \<Rightarrow> byte list" where
  "socksReply rep = [5, rep, 0, 1, 0, 0, 0, 0, 0, 0]"

fun error_text :: "go_error \<Rightarrow> string" where
  "error_text (DenyErr d) = []"
| "error_text (WrapErr msg e) = msg"
| "error_text (PlainErr msg) = msg"

record socks_result =
  sr_out :: "byte list"
  sr_tunnel :: "(addr \<times> byte list) option"

record net_env =
  ne_readings :: "nat \<Rightarrow> own_reading"
  ne_lookup :: "string \<Rightarrow> string + addr list"
  ne_connect :: "addr \<Rightarrow> int \<Rightarrow> go_error option"
  ne_now :: gotime
  ne_now' :: gotime

definition serve_request ::
  "net_env \<Rightarrow> socks_writes \<Rightarrow> string \<Rightarrow> int \<Rightarrow> byte list \<Rightarrow> server \<Rightarrow> socks_result \<times> server" where
  "serve_request env w host port early s0 =
     (case decide (ne_now env) (ne_now' env) host port s0 of
        (verdict, s) \<Rightarrow>
          if \<not> v_Allow verdict then
            (\<lparr>sr_out = socksReply 2, sr_tunnel = None\<rparr>,
             record_event ((zero_event CodeSOCKS)\<lparr>ev_Host := v_Host verdict, ev_Port := v_Port verdict,
               ev_Code := v_Code verdict, ev_Rule := v_Rule verdict, ev_Reason := v_Reason verdict,
               ev_Method := ''CONNECT''\<rparr>) s)
          else case dialAllowingVetted (ne_readings env) (ne_lookup env) (ne_connect env) host port (sv_dialer s) of
            (Inl derr, d) \<Rightarrow>
              (case asDenyError derr of
                 Some deny \<Rightarrow>
                   (\<lparr>sr_out = socksReply 2, sr_tunnel = None\<rparr>,
                    record_event ((zero_event CodeSOCKS)\<lparr>ev_Host := host, ev_Port := port,
                      ev_Code := v_Code (de_Verdict deny), ev_Reason := v_Reason (de_Verdict deny),
                      ev_Address := v_Address (de_Verdict deny), ev_Method := ''CONNECT''\<rparr>)
                      (s\<lparr>sv_dialer := d\<rparr>))
               | None \<Rightarrow>
                   (\<lparr>sr_out = socksReply (if Contains (ToLower (error_text derr)) ''refused'' then 5 else 4),
                     sr_tunnel = None\<rparr>, s\<lparr>sv_dialer := d\<rparr>))
          | (Inr ip, d) \<Rightarrow>
              (if w_reply w then \<lparr>sr_out = socksReply 0, sr_tunnel = Some (ip, early)\<rparr>
               else \<lparr>sr_out = [], sr_tunnel = None\<rparr>,
               record_event ((zero_event CodeSOCKS)\<lparr>ev_Host := host, ev_Port := port, ev_Code := CodeAllowed,
                 ev_Rule := v_Rule verdict, ev_Method := ''CONNECT''\<rparr>) (s\<lparr>sv_dialer := d\<rparr>)))"

definition handleSOCKS ::
  "net_env \<Rightarrow> socks_writes \<Rightarrow> byte list \<Rightarrow> server \<Rightarrow> socks_result \<times> server" where
  "handleSOCKS env w inp s =
     (case socksNegotiate w s inp of
        (Inl e, out) \<Rightarrow>
          (\<lparr>sr_out = out, sr_tunnel = None\<rparr>,
           if e = SocksNoAuth then
             record_event ((zero_event CodeSOCKS)\<lparr>ev_Code := CodeAuthRequired, ev_Reason := NeedsToken\<rparr>) s
           else s)
      | (Inr inp1, out) \<Rightarrow>
          (case socksReadRequest inp1 of
             Inl e \<Rightarrow>
               (\<lparr>sr_out = out @ (if e = CmdNotSupported then socksReply 7
                                else if e = AtypNotSupported then socksReply 8 else []),
                 sr_tunnel = None\<rparr>, s)
           | Inr (host, port, early) \<Rightarrow>
               (case serve_request env w host port early s of
                  (r, s') \<Rightarrow> (r\<lparr>sr_out := out @ sr_out r\<rparr>, s'))))"

text \<open>The accept loop: the outcomes of the calls to \<^verbatim>\<open>Accept\<close> in order. It returns the number of
  connections handed to a handler, the pauses it made, and whether it returned.\<close>

datatype accept_result = Accepted | AcceptClosed | AcceptTimeout | AcceptError

abbreviation millisecond :: duration where "millisecond \<equiv> 1000000"

fun acceptSOCKS :: "accept_result list \<Rightarrow> duration \<Rightarrow> nat \<times> duration list \<times> bool" where
  "acceptSOCKS [] backoff = (0, [], False)"
| "acceptSOCKS (r # rs) backoff =
     (case r of
        AcceptClosed \<Rightarrow> (0, [], True)
      | AcceptTimeout \<Rightarrow> acceptSOCKS rs backoff
      | AcceptError \<Rightarrow>
          (case acceptSOCKS rs (if backoff < second then 2 * backoff else backoff) of
             (n, ps, b) \<Rightarrow> (n, backoff # ps, b))
      | Accepted \<Rightarrow>
          (case acceptSOCKS rs (5 * millisecond) of (n, ps, b) \<Rightarrow> (Suc n, ps, b)))"

section \<open>Lemmas on the handshake\<close>

lemma ReadFull_SomeD: "ReadFull n inp = Some (a, r) \<Longrightarrow> inp = a @ r \<and> length a = n"
  by (auto simp: ReadFull_def split: if_splits)

lemma ReadFull_append [simp]: "length a = n \<Longrightarrow> ReadFull n (a @ r) = Some (a, r)"
  by (auto simp: ReadFull_def)

lemma ReadFull_two [simp]: "ReadFull 2 (a # b # r) = Some ([a, b], r)"
  by (simp add: ReadFull_def)

lemma ReadFull_one [simp]: "ReadFull (Suc 0) (a # r) = Some ([a], r)"
  by (simp add: ReadFull_def)

lemma ReadFull_four [simp]: "ReadFull 4 (a # b # c # d # r) = Some ([a, b, c, d], r)"
  by (simp add: ReadFull_def)

lemma list_two: "length xs = 2 \<Longrightarrow> xs = [xs ! 0, xs ! 1]"
  by (auto simp: numeral_2_eq_2 length_Suc_conv)

lemma list_one: "length xs = Suc 0 \<Longrightarrow> xs = [xs ! 0]"
  by (auto simp: length_Suc_conv)

lemma list_four: "length xs = 4 \<Longrightarrow> xs = [xs ! 0, xs ! 1, xs ! 2, xs ! 3]"
  by (auto simp: eval_nat_numeral length_Suc_conv)

text \<open>The messages of RFC 1928 and RFC 1929 a client sends before its request.\<close>

definition greeting :: "byte list \<Rightarrow> byte list \<Rightarrow> byte list \<Rightarrow> byte list" where
  "greeting methods user pass =
     [5, word_of_nat (length methods)] @ methods @ [1, word_of_nat (length user)] @ user @
     [word_of_nat (length pass)] @ pass"

lemma unat_length: "length xs < 256 \<Longrightarrow> unat (word_of_nat (length xs) :: byte) = length xs"
  by (simp add: unat_of_nat)

lemma word_length: "length xs = unat (b :: byte) \<Longrightarrow> word_of_nat (length xs) = b"
  by simp

lemma socksNegotiate_greeting:
  assumes "length methods < 256" "length user < 256" "length pass < 256" "2 \<in> set methods"
  shows "socksNegotiate w s (greeting methods user pass @ rest) =
    (if \<not> w_method w then (Inl SocksWriteError, [])
     else if byte_string pass \<noteq> sv_token s then (Inl SocksNoAuth, [5, 2, 1, 1])
     else if w_auth w then (Inr rest, [5, 2, 1, 0]) else (Inl SocksWriteError, [5, 2]))"
  using assms by (auto simp: socksNegotiate_def greeting_def unat_length list_ex_iff tokenMatches_def)

lemma socksNegotiate_Inr:
  assumes "socksNegotiate w s inp = (Inr inp1, out)"
  shows "\<exists>methods user pass. inp = greeting methods user pass @ inp1 \<and> 2 \<in> set methods \<and>
     byte_string pass = sv_token s \<and> out = [5, 2, 1, 0]"
proof -
  from assms obtain h1 i1 ms i2 b i3 user i4 pl i5 pass i6 where
    r: "ReadFull 2 inp = Some (h1, i1)" "h1 ! 0 = 5" "ReadFull (unat (h1 ! 1)) i1 = Some (ms, i2)"
      "list_ex (\<lambda>b. b = 2) ms" "ReadFull 2 i2 = Some (b, i3)" "b ! 0 = 1"
      "ReadFull (unat (b ! 1)) i3 = Some (user, i4)" "ReadFull 1 i4 = Some (pl, i5)"
      "ReadFull (unat (pl ! 0)) i5 = Some (pass, i6)"
      "tokenMatches (byte_string pass) s" "i6 = inp1" "out = [5, 2, 1, 0]"
    by (auto simp: socksNegotiate_def split: option.splits prod.splits if_splits)
  note rd = r(1,3,5,7,8,9) [THEN ReadFull_SomeD]
  have "h1 = [5, h1 ! 1]" using list_two rd(1) r(2) by metis
  moreover have "b = [1, b ! 1]" using list_two rd(3) r(6) by metis
  moreover have "pl = [pl ! 0]" using list_one [of pl] rd(5) by simp
  ultimately have "inp = [5, h1 ! 1] @ ms @ [1, b ! 1] @ user @ [pl ! 0] @ pass @ inp1"
    using rd r(11) by (metis append.assoc)
  moreover have "h1 ! 1 = word_of_nat (length ms)" "b ! 1 = word_of_nat (length user)" "pl ! 0 = word_of_nat (length pass)"
    using rd word_length by metis+
  ultimately have "inp = greeting ms user pass @ inp1" by (simp add: greeting_def)
  with r(4,10,12) show ?thesis by (auto simp: list_ex_iff tokenMatches_def)
qed

lemma decide_dialer: "sv_dialer (snd (decide now now' host port s)) = sv_dialer s"
  by (auto simp: decide_def ask_decider_def store_verdict_def Let_def split: option.split sum.split)

lemma serve_request_tunnel:
  assumes "sr_tunnel (fst (serve_request env w host port early s)) = Some (ip, rest)"
  shows "rest = early \<and> v_Allow (fst (decide (ne_now env) (ne_now' env) host port s)) \<and>
    (\<exists>d'. dialAllowingVetted (ne_readings env) (ne_lookup env) (ne_connect env) host port (sv_dialer s) = (Inr ip, d'))"
  using assms decide_dialer [of "ne_now env" "ne_now' env" host port s]
  by (auto simp: serve_request_def split: prod.splits sum.splits option.splits if_splits)

lemma serve_request_dialer:
  assumes "sr_tunnel (fst (serve_request env w host port early s)) = Some (ip, rest)"
  shows "dialAllowingVetted (ne_readings env) (ne_lookup env) (ne_connect env) host port (sv_dialer s) =
    (Inr ip, sv_dialer (snd (serve_request env w host port early s)))"
  using assms decide_dialer [of "ne_now env" "ne_now' env" host port s]
  by (auto simp: serve_request_def record_event_def Let_def split: prod.splits sum.splits option.splits if_splits)

lemma handleSOCKS_served:
  assumes "socksNegotiate w s inp = (Inr inp1, out)" and "socksReadRequest inp1 = Inr (host, port, early)"
  shows "snd (handleSOCKS env w inp s) = snd (serve_request env w host port early s)"
  using assms by (auto simp: handleSOCKS_def split: prod.split)

lemma handleSOCKS_tunnel:
  assumes "sr_tunnel (fst (handleSOCKS env w inp s)) = Some (ip, early)"
  shows "\<exists>inp1 host port. socksNegotiate w s inp = (Inr inp1, [5, 2, 1, 0]) \<and>
     socksReadRequest inp1 = Inr (host, port, early) \<and>
     sr_tunnel (fst (serve_request env w host port early s)) = Some (ip, early)"
proof -
  obtain res out where n: "socksNegotiate w s inp = (res, out)" by fastforce
  with assms obtain inp1 where res: "res = Inr inp1" by (cases res) (auto simp: handleSOCKS_def)
  with n have out: "out = [5, 2, 1, 0]" using socksNegotiate_Inr by blast
  from assms n res obtain host port e where req: "socksReadRequest inp1 = Inr (host, port, e)"
    by (cases "socksReadRequest inp1") (auto simp: handleSOCKS_def)
  with assms n res have t: "sr_tunnel (fst (serve_request env w host port e s)) = Some (ip, early)"
    by (auto simp: handleSOCKS_def split: prod.splits)
  with serve_request_tunnel have "e = early" by blast
  with n res out req t show ?thesis by blast
qed

lemma socksReadRequest_connect:
  "socksReadRequest inp = Inr r \<Longrightarrow> \<exists>atyp rsv rest. inp = 5 # 1 # rsv # atyp # rest \<and> atyp \<in> {1, 3, 4}"
proof -
  assume a: "socksReadRequest inp = Inr r"
  then obtain h i where h: "ReadFull 4 inp = Some (h, i)" "h ! 0 = 5" "h ! 1 = 1" "h ! 3 \<in> {1, 3, 4}"
    by (auto simp: socksReadRequest_def read_host_def split: option.splits prod.splits if_splits sum.splits)
  then have "inp = [h ! 0, h ! 1, h ! 2, h ! 3] @ i" using ReadFull_SomeD list_four by metis
  with h show ?thesis by auto
qed

section \<open>Properties of the proxy\<close>

text \<open>A SOCKS tunnel exists only if everything agreed: the client offered and used the
  username/password method with this server's token, sent a CONNECT, the verdict for the destination
  it named allows it, and the address reached is one the guard approves for that destination; the
  tunnel starts with exactly the bytes the client had sent after its request.\<close>

theorem tunnel_needs_everything:
  assumes "sr_tunnel (fst (handleSOCKS env w inp s)) = Some (ip, early)"
  shows "\<exists>methods user pass req host port d'.
    inp = greeting methods user pass @ req \<and> 2 \<in> set methods \<and> byte_string pass = sv_token s \<and>
    socksReadRequest req = Inr (host, port, early) \<and> take 2 req = [5, 1] \<and>
    v_Allow (fst (decide (ne_now env) (ne_now' env) host port s)) \<and>
    approved_addr (ne_lookup env) (sv_dialer s) d' host port ip"
proof -
  from handleSOCKS_tunnel [OF assms] obtain req host port where
    n: "socksNegotiate w s inp = (Inr req, [5, 2, 1, 0])" and r: "socksReadRequest req = Inr (host, port, early)"
    and t: "sr_tunnel (fst (serve_request env w host port early s)) = Some (ip, early)" by blast
  from serve_request_tunnel [OF t] obtain d' where "v_Allow (fst (decide (ne_now env) (ne_now' env) host port s))"
    "guard.dial (ne_readings env) (ne_lookup env) (ne_connect env) (sv_dialer s) host port = (Inr ip, d')"
    by (auto simp: dialAllowingVetted_is_dial)
  moreover from this(2) have "approved_addr (ne_lookup env) (sv_dialer s) d' host port ip" by (rule guard.dial_approved)
  moreover obtain rest where "req = 5 # 1 # rest" using socksReadRequest_connect [OF r] by blast
  then have "take 2 req = [5, 1]" by simp
  ultimately show ?thesis using socksNegotiate_Inr [OF n] r by blast
qed

definition demo_net :: net_env where
  "demo_net = \<lparr>ne_readings = demo_reading, ne_lookup = demo_lookup, ne_connect = demo_connect, ne_now = 1, ne_now' = 2\<rparr>"

definition all_writes :: socks_writes where
  "all_writes = \<lparr>w_method = True, w_auth = True, w_reply = True\<rparr>"

text \<open>User \<open>u\<close>, password \<open>tok\<close>, CONNECT to \<open>a.example.com\<close> port 443, then two bytes of payload.\<close>

definition demo_input :: "byte list" where
  "demo_input = greeting [0, 2] [117] [116, 111, 107] @
     [5, 1, 0, 3, 13, 97, 46, 101, 120, 97, 109, 112, 108, 101, 46, 99, 111, 109, 1, 187] @ [22, 3]"

theorem tunnel_needs_everything_witness:
  "sr_tunnel (fst (handleSOCKS demo_net all_writes demo_input demo_server)) = Some (V4 0x5db8d822, [22, 3]) \<and>
   (\<exists>methods user pass req. demo_input = greeting methods user pass @ req \<and> byte_string pass = sv_token demo_server)"
proof -
  have t: "sr_tunnel (fst (handleSOCKS demo_net all_writes demo_input demo_server)) = Some (V4 0x5db8d822, [22, 3])"
    by code_simp
  with tunnel_needs_everything [OF t] show ?thesis by blast
qed

text \<open>A wrong token gets nothing but a recorded refusal: the reply says authentication failed, no
  request is read, no tunnel is opened, and the one change is the refusal event in counters and trail.\<close>

theorem wrong_token_refused:
  assumes "length methods < 256" "length user < 256" "length pass < 256" "2 \<in> set methods"
    and "byte_string pass \<noteq> sv_token s" and "w_method w"
  shows "handleSOCKS env w (greeting methods user pass @ rest) s =
    (\<lparr>sr_out = [5, 2, 1, 1], sr_tunnel = None\<rparr>,
     record_event ((zero_event CodeSOCKS)\<lparr>ev_Code := CodeAuthRequired, ev_Reason := NeedsToken\<rparr>) s)"
  using assms by (simp add: handleSOCKS_def socksNegotiate_greeting)

theorem wrong_token_refused_witness:
  "sr_tunnel (fst (handleSOCKS demo_net all_writes (greeting [2] [] [98, 97, 100] @ [5, 1]) demo_server)) = None"
proof -
  have "byte_string [98, 97, 100] \<noteq> sv_token demo_server"
    using demo_server_simps(3) by (simp only:) code_simp
  then show ?thesis
    using wrong_token_refused [of "[2]" "[]" "[98, 97, 100]" demo_server all_writes demo_net "[5, 1]"]
    by (simp add: all_writes_def)
qed

text \<open>What a client asks for is what is decided: the wire form of a CONNECT to a name of at most 255
  bytes and a 16-bit port is read back as exactly that name and port, and the bytes after it are left
  for the tunnel.\<close>

theorem connect_request_roundtrip:
  assumes "length host < 256" and "p < 65536"
  shows "socksReadRequest ([5, 1, rsv, 3, word_of_nat (length host)] @
      map (\<lambda>c. word_of_nat (of_char c)) host @ [word_of_nat (p div 256), word_of_nat (p mod 256)] @ early)
    = Inr (host, int p, early)"
proof -
  have "byte_string (map (\<lambda>c. word_of_nat (of_char c)) host) = host"
    by (induction host) (simp_all add: byte_string_def unat_of_nat)
  moreover have "uint (word_of_nat (p div 256) :: byte) = int (p div 256)"
    "uint (word_of_nat (p mod 256) :: byte) = int (p mod 256)"
    using assms(2) by (simp_all add: uint_nat unat_of_nat)
  moreover have "int (p div 256) * 256 + int (p mod 256) = int p"
    by (metis div_mult_mod_eq of_nat_add of_nat_mult of_nat_numeral)
  moreover have "unat (word_of_nat (length host) :: byte) = length host" using assms(1) by (rule unat_length)
  ultimately show ?thesis by (simp add: socksReadRequest_def read_host_def del: of_nat_div of_nat_mod)
qed

theorem connect_request_roundtrip_witness:
  "socksReadRequest [5, 1, 0, 3, 2, 97, 98, 1, 187, 9] = Inr (''ab'', 443, [9])"
  using connect_request_roundtrip [of "''ab''" 443 0 "[9]"] by simp

text \<open>BIND and UDP ASSOCIATE are refused: an authenticated client that asks for any command but
  CONNECT gets the reply "command not supported", no tunnel, and the server does not change.\<close>

theorem other_commands_refused:
  assumes "length methods < 256" "length user < 256" "length pass < 256" "2 \<in> set methods"
    and "byte_string pass = sv_token s" and "w_method w" "w_auth w" and "cmd \<noteq> 1"
  shows "handleSOCKS env w (greeting methods user pass @ [5, cmd, rsv, atyp] @ rest) s =
    (\<lparr>sr_out = [5, 2, 1, 0] @ [5, 7, 0, 1, 0, 0, 0, 0, 0, 0], sr_tunnel = None\<rparr>, s)"
  using assms by (simp add: handleSOCKS_def socksNegotiate_greeting socksReadRequest_def socksReply_def)

theorem other_commands_refused_witness:
  "sr_tunnel (fst (handleSOCKS demo_net all_writes (greeting [2] [] [116, 111, 107] @ [5, 3, 0, 1] @ []) demo_server)) = None"
proof -
  have "byte_string [116, 111, 107] = sv_token demo_server"
    using demo_server_simps(3) by (simp only:) code_simp
  then show ?thesis
    using other_commands_refused [of "[2]" "[]" "[116, 111, 107]" demo_server all_writes 3 demo_net 0 1 "[]"]
    by (simp add: all_writes_def)
qed

text \<open>The accept loop survives errors: until the listener is closed every accepted connection is
  handed to a handler, whatever errors come in between, no pause is longer than 1.28 seconds, and the
  loop returns exactly when the listener was closed.\<close>

theorem acceptSOCKS_survives:
  "case acceptSOCKS rs (5 * millisecond) of (n, ps, returned) \<Rightarrow>
     n = length (filter (\<lambda>r. r = Accepted) (takeWhile (\<lambda>r. r \<noteq> AcceptClosed) rs)) \<and>
     (returned \<longleftrightarrow> AcceptClosed \<in> set rs) \<and> list_all (\<lambda>p. p \<le> 1280 * millisecond) ps"
proof -
  have "case acceptSOCKS rs (5 * millisecond * 2 ^ k) of (n, ps, returned) \<Rightarrow>
     n = length (filter (\<lambda>r. r = Accepted) (takeWhile (\<lambda>r. r \<noteq> AcceptClosed) rs)) \<and>
     (returned \<longleftrightarrow> AcceptClosed \<in> set rs) \<and> list_all (\<lambda>p. p \<le> 1280 * millisecond) ps" if "k \<le> 8" for k
    using that
  proof (induction rs arbitrary: k)
    case (Cons r rs)
    have small: "5 * millisecond * 2 ^ k \<le> 1280 * millisecond"
      using Cons.prems power_increasing [of k 8 "2::int"] by simp
    show ?case
    proof (cases r)
      case AcceptError
      have grow: "k < 8 \<or> \<not> 5 * millisecond * 2 ^ k < second"
        using Cons.prems by (cases "k = 8") auto
      show ?thesis
      proof (cases "5 * millisecond * 2 ^ k < second")
        case True
        with grow have "Suc k \<le> 8" by simp
        from Cons.IH [OF this] show ?thesis using AcceptError True small by (auto simp: mult.commute split: prod.splits)
      next
        case False
        from Cons.IH [OF Cons.prems] show ?thesis using AcceptError False small by (auto split: prod.splits)
      qed
    qed (use Cons.IH [OF Cons.prems] Cons.IH [of 0] in \<open>auto split: prod.splits\<close>)
  qed simp
  from this [of 0] show ?thesis by simp
qed

end
