(* ===== verification/Egress_Proxy.thy ===== *)
theory Egress_Proxy
  imports Egress_Socks
begin

text \<open>
  The HTTP proxy, \<^verbatim>\<open>src/pkg/egress/proxy.go\<close>, and the terminated tunnels of
  \<^verbatim>\<open>src/pkg/egress/terminate.go\<close>: one request from its header to the answer. A request is parsed
  already; the answer is what the handler writes to the client, together with every request it sent
  upstream and the address it went to. The network is an environment: resolver, dial and clocks of
  the two decisions, the outcome of an exchange, of hijacking the client's connection, of reading
  the request's body, of minting a certificate. A transport is its pool of idle connections, each with
  the \<^verbatim>\<open>host:port\<close> it was dialled for and the address it leads to; which idle connections are still
  alive, which one is reused and whether a connection returns to the pool is up to the environment.

  Shown here: nothing is sent upstream without the token, an allowing verdict and a connection dialled
  under a verdict and an approved address; hop-by-hop headers and the proxy's own credential never
  travel, every other header does; a masked credential does not leave in the clear; a credential put
  on a request is in the trail before the request is sent; a body cut short is never passed off as
  complete.
\<close>

section \<open>Requests and answers\<close>

datatype read_end = ReadEOF | ReadError

datatype stream_end = StreamOpen | StreamDone | StreamAborted | ClientGone

record upstream_response =
  up_Status :: int
  up_Header :: http_header
  up_Reads :: "(string \<times> read_end option) list"

datatype deny_body = ReasonText vreason | PlainText string

datatype answer = NoAnswer
  | Refused int http_header deny_body
  | Relayed int http_header string stream_end
  | Tunnelled addr string
  | Terminating leaf

type_synonym pool = "(string \<times> addr) list"

record proxy =
  px_server :: server
  px_idle :: pool

record proxy_env =
  pe_net :: net_env
  pe_dial :: net_env
  pe_idna :: "string \<Rightarrow> string"
  pe_live :: "string \<times> addr \<Rightarrow> bool"
  pe_pick :: "nat option"
  pe_keep :: bool
  pe_exchange :: "addr \<Rightarrow> http_request \<Rightarrow> string + upstream_response"
  pe_write :: "nat \<Rightarrow> bool"
  pe_hijacker :: bool
  pe_hijack :: "string option"
  pe_early :: bool
  pe_established :: bool
  pe_mint :: "string option"
  pe_mint_at :: gotime
  pe_body :: bool
  pe_order :: map_order
  pe_sig :: sig_functions

type_synonym sent = "(addr \<times> http_request) list"

record proxy_result =
  pr_answer :: answer
  pr_sent :: sent
  pr_inner :: "answer list"

definition only_answer :: "answer \<Rightarrow> proxy_result" where
  "only_answer a = \<lparr>pr_answer = a, pr_sent = [], pr_inner = []\<rparr>"

text \<open>The text of a code, the value of \<^verbatim>\<open>X-Deny-Reason\<close>.\<close>

fun code_text :: "code \<Rightarrow> string" where
  "code_text CodeNone = []"
| "code_text CodeAllowed = ''allowed''"
| "code_text CodeDeniedDomain = ''denied_domain''"
| "code_text CodeNotAllowed = ''not_allowed''"
| "code_text CodeDeniedAddress = ''denied_address''"
| "code_text CodeDeciderUnavailable = ''decider_unavailable''"
| "code_text CodeMaskedPlaintext = ''masked_credential_cleartext''"
| "code_text CodeAuthRequired = ''proxy_auth_required''"

section \<open>Headers\<close>

definition hopByHop :: "string set" where
  "hopByHop = {''connection'', ''proxy-connection'', ''keep-alive'', ''proxy-authenticate'',
     ''proxy-authorization'', ''te'', ''trailer'', ''transfer-encoding'', ''upgrade''}"

definition hop_names :: "string list" where
  "hop_names = [''Connection'', ''Proxy-Connection'', ''Keep-Alive'', ''Proxy-Authenticate'',
     ''Proxy-Authorization'', ''Te'', ''Trailer'', ''Transfer-Encoding'', ''Upgrade'']"

definition connection_tokens :: "http_header \<Rightarrow> string list" where
  "connection_tokens h =
     filter (\<lambda>t. t \<noteq> []) (map TrimSpace (concat (map (\<lambda>v. Split v (CHR '','')) (Header_Values ''Connection'' h))))"

definition stripHopByHop :: "http_header \<Rightarrow> http_header" where
  "stripHopByHop h = fold Header_Del hop_names (fold Header_Del (connection_tokens h) h)"

definition Header_Add :: "string \<Rightarrow> string \<Rightarrow> http_header \<Rightarrow> http_header" where
  "Header_Add k v h = AList.update (CanonicalHeaderKey k) (Header_Values k h @ [v]) h"

text \<open>The loop that copies the upstream's headers.\<close>

fun copy_headers :: "http_header \<Rightarrow> http_header \<Rightarrow> http_header" where
  "copy_headers [] w = w"
| "copy_headers ((k, vv) # h) w =
     (if ToLower k \<in> hopByHop then copy_headers h w else copy_headers h (fold (Header_Add k) vv w))"

definition carriesSentinel :: "http_request \<Rightarrow> bool" where
  "carriesSentinel r =
     list_ex (\<lambda>(k, vals). \<not> EqualFold k ''Content-Length'' \<and> list_ex HasSentinel vals) (hr_Header r)"

definition hasSigV4 :: "http_request \<Rightarrow> bool" where
  "hasSigV4 r = HasPrefix (Header_Get ''Authorization'' (hr_Header r)) (awsSigV4Prefix @ '' '')"

section \<open>Addresses\<close>

definition hostPort :: "string \<Rightarrow> int \<Rightarrow> string \<times> int" where
  "hostPort addr0 defPort =
     (case SplitHostPort addr0 of
        None \<Rightarrow> (Trim addr0 ''[]'', defPort)
      | Some (host, portStr) \<Rightarrow>
          (host, case Atoi portStr of
                   None \<Rightarrow> defPort
                 | Some p \<Rightarrow> if p \<le> 0 \<or> p > 65535 then defPort else p))"

text \<open>\<^verbatim>\<open>URL.Hostname\<close> and \<^verbatim>\<open>URL.Port\<close>, and the address the transport dials and pools a request under.\<close>

definition url_split :: "string \<Rightarrow> string \<times> string" where
  "url_split hp =
     (let (host, port) = (case LastIndexByte hp (CHR '':'') of
             None \<Rightarrow> (hp, [])
           | Some i \<Rightarrow> if list_all is_digit (drop (Suc i) hp) then (take i hp, drop (Suc i) hp) else (hp, []))
      in (if HasPrefix host ''['' \<and> HasSuffix host '']'' then butlast (tl host) else host, port))"

definition canonicalAddr :: "(string \<Rightarrow> string) \<Rightarrow> string \<Rightarrow> string \<Rightarrow> string" where
  "canonicalAddr idna scheme hp =
     (case url_split hp of
        (host, port) \<Rightarrow>
          JoinHostPort (idna host)
            (if port = [] then (if scheme = ''https'' then ''443'' else ''80'') else port))"

section \<open>The transport\<close>

definition dialContext :: "proxy_env \<Rightarrow> string \<Rightarrow> server \<Rightarrow> (go_error + addr) \<times> server" where
  "dialContext env addr0 s =
     (let (host, port) = hostPort addr0 80; ne = pe_dial env in
      case decide (ne_now ne) (ne_now' ne) host port s of
        (v, s1) \<Rightarrow>
          if \<not> v_Allow v then (Inl (DenyErr \<lparr>de_Verdict = v, de_Lookup = None\<rparr>), s1)
          else (case dialAllowingVetted (ne_readings ne) (ne_lookup ne) (ne_connect ne) host port (sv_dialer s1) of
                  (r, d) \<Rightarrow> (r, s1\<lparr>sv_dialer := d\<rparr>)))"

definition exchange ::
  "proxy_env \<Rightarrow> http_request \<Rightarrow> string \<Rightarrow> addr \<Rightarrow> server \<Rightarrow> pool \<Rightarrow>
   (go_error + upstream_response) \<times> sent \<times> proxy" where
  "exchange env out key a s idle =
     (case pe_exchange env a out of
        Inl e \<Rightarrow> (Inl (PlainErr e), [(a, out)], \<lparr>px_server = s, px_idle = idle\<rparr>)
      | Inr resp \<Rightarrow>
          (Inr resp, [(a, out)], \<lparr>px_server = s, px_idle = (if pe_keep env then (key, a) # idle else idle)\<rparr>))"

definition pool_key :: "proxy_env \<Rightarrow> http_request \<Rightarrow> string" where
  "pool_key env out = canonicalAddr (pe_idna env) (hr_Scheme out) (hr_URLHost out)"

definition RoundTrip :: "proxy_env \<Rightarrow> http_request \<Rightarrow> proxy \<Rightarrow> (go_error + upstream_response) \<times> sent \<times> proxy" where
  "RoundTrip env out px =
     (let key = pool_key env out;
          idle = filter (pe_live env) (px_idle px);
          cands = filter (\<lambda>(k, _). k = key) idle
      in case pe_pick env of
           Some i \<Rightarrow>
             if i < length cands then exchange env out key (snd (cands ! i)) (px_server px) (remove1 (cands ! i) idle)
             else (case dialContext env key (px_server px) of
                     (Inl e, s) \<Rightarrow> (Inl e, [], \<lparr>px_server = s, px_idle = idle\<rparr>)
                   | (Inr a, s) \<Rightarrow> exchange env out key a s idle)
         | None \<Rightarrow>
             (case dialContext env key (px_server px) of
                (Inl e, s) \<Rightarrow> (Inl e, [], \<lparr>px_server = s, px_idle = idle\<rparr>)
              | (Inr a, s) \<Rightarrow> exchange env out key a s idle))"

fun streamCopy :: "(nat \<Rightarrow> bool) \<Rightarrow> nat \<Rightarrow> (string \<times> read_end option) list \<Rightarrow> string \<times> stream_end" where
  "streamCopy wok k [] = ([], StreamOpen)"
| "streamCopy wok k ((b, e) # rs) =
     (if b \<noteq> [] \<and> \<not> wok k then ([], ClientGone)
      else case e of
        Some ReadEOF \<Rightarrow> (b, StreamDone)
      | Some ReadError \<Rightarrow> (b, StreamAborted)
      | None \<Rightarrow> (case streamCopy wok (if b \<noteq> [] then Suc k else k) rs of (w, en) \<Rightarrow> (b @ w, en)))"

definition relay_response :: "proxy_env \<Rightarrow> upstream_response \<Rightarrow> answer" where
  "relay_response env resp =
     (case streamCopy (pe_write env) 0 (up_Reads resp) of
        (b, en) \<Rightarrow> Relayed (up_Status resp) (copy_headers (up_Header resp) []) b en)"

section \<open>Refusals\<close>

definition writeDeny :: "http_header \<Rightarrow> int \<Rightarrow> string \<Rightarrow> deny_body \<Rightarrow> answer" where
  "writeDeny w status tag why =
     Refused status
       (Header_Set ''Connection'' ''close'' (Header_Set ''X-Deny-Reason'' tag
          (Header_Set ''Content-Type'' ''text/plain; charset=utf-8'' w))) why"

definition kindOf :: "http_request \<Rightarrow> event_kind" where
  "kindOf r = (if hr_Method r = ''CONNECT'' then CodeConnect else CodeHTTP)"

definition deny :: "event_kind \<Rightarrow> http_request \<Rightarrow> verdict \<Rightarrow> addr option \<Rightarrow> server \<Rightarrow> answer \<times> server" where
  "deny kind r v a s =
     (writeDeny [] 403 (code_text (v_Code v)) (ReasonText (v_Reason v)),
      record_event ((zero_event kind)\<lparr>ev_Host := v_Host v, ev_Port := v_Port v, ev_Code := v_Code v,
        ev_Rule := v_Rule v, ev_Reason := v_Reason v, ev_Address := a, ev_Method := hr_Method r\<rparr>) s)"

definition fail :: "http_request \<Rightarrow> string \<Rightarrow> int \<Rightarrow> go_error \<Rightarrow> server \<Rightarrow> answer \<times> server" where
  "fail r host port err s =
     (case asDenyError err of
        Some d \<Rightarrow>
          let v = de_Verdict d in
          (writeDeny [] 403 (code_text (v_Code v)) (ReasonText (v_Reason v)),
           record_event ((zero_event (kindOf r))\<lparr>ev_Host := host, ev_Port := port, ev_Code := v_Code v,
             ev_Reason := v_Reason v, ev_Address := v_Address v, ev_Method := hr_Method r\<rparr>) s)
      | None \<Rightarrow>
          (writeDeny [] 502 ''upstream_unreachable'' (PlainText (''could not connect to '' @ host @ '':'' @ itoa port)), s))"

section \<open>Plain HTTP\<close>

text \<open>\<^verbatim>\<open>handleForward\<close> after the verdict: the masker's part, which answers with a refusal or with the headers
  to go on with.\<close>

definition mask_plain :: "proxy_env \<Rightarrow> http_request \<Rightarrow> string \<Rightarrow> int \<Rightarrow> server \<Rightarrow> (answer \<times> server) + http_header" where
  "mask_plain env r host port s =
     (case o_Mask (sv_opts s) of
        None \<Rightarrow> Inr (hr_Header r)
      | Some m \<Rightarrow>
          if mk_allowPlaintext m then Inr (fst (substituteHeaders (pe_order env) (Some m) (hr_Header r)))
          else if carriesSentinel r then
            Inl (writeDeny [] 403 (code_text CodeMaskedPlaintext)
                   (PlainText ''the request carries a masked credential over plain HTTP; a masked credential is only sent over HTTPS, because cleartext would expose the real value to the network''),
                 record_event ((zero_event CodeHTTP)\<lparr>ev_Host := host, ev_Port := port, ev_Code := CodeMaskedPlaintext,
                   ev_Reason := CustomReason ''masked credential over plain HTTP'', ev_Method := hr_Method r\<rparr>) s)
          else Inr (hr_Header r))"

definition handleForward :: "proxy_env \<Rightarrow> http_request \<Rightarrow> proxy \<Rightarrow> proxy_result \<times> proxy" where
  "handleForward env r px =
     (let s0 = px_server px in
      if hr_URLHost r = [] then
        (only_answer (writeDeny [] 400 ''bad_request'' (PlainText ''the proxy expects an absolute request URI (http://host/path)'')),
         px\<lparr>px_server := record_event ((zero_event CodeHTTP)\<lparr>ev_Host := hr_Host r, ev_Code := CodeNotAllowed,
           ev_Reason := CustomReason ''not an absolute request URI'', ev_Method := hr_Method r\<rparr>) s0\<rparr>)
      else let (host, port) = hostPort (hr_URLHost r) 80 in
        case decide (ne_now (pe_net env)) (ne_now' (pe_net env)) host port s0 of
          (v, s) \<Rightarrow>
            if \<not> v_Allow v then
              (case deny CodeHTTP r v None s of (a, s1) \<Rightarrow> (only_answer a, px\<lparr>px_server := s1\<rparr>))
            else case mask_plain env r host port s of
              Inl (a, s1) \<Rightarrow> (only_answer a, px\<lparr>px_server := s1\<rparr>)
            | Inr h \<Rightarrow>
                let out = r\<lparr>hr_Scheme := ''http'', hr_Header := stripHopByHop h\<rparr> in
                (case RoundTrip env out (px\<lparr>px_server := s\<rparr>) of
                   (Inl e, snt, px1) \<Rightarrow>
                     (case fail r host port e (px_server px1) of
                        (a, s1) \<Rightarrow> (\<lparr>pr_answer = a, pr_sent = snt, pr_inner = []\<rparr>, px1\<lparr>px_server := s1\<rparr>))
                 | (Inr resp, snt, px1) \<Rightarrow>
                     (\<lparr>pr_answer = relay_response env resp, pr_sent = snt, pr_inner = []\<rparr>,
                      px1\<lparr>px_server := record_event ((zero_event CodeHTTP)\<lparr>ev_Host := host, ev_Port := port,
                        ev_Code := CodeAllowed, ev_Rule := v_Rule v, ev_Method := hr_Method r\<rparr>) (px_server px1)\<rparr>)))"

section \<open>Terminated tunnels\<close>

definition maxBodyForMasking :: nat where "maxBodyForMasking = 16777216"

text \<open>The body a terminated request goes on with: \<open>Inr (Some b)\<close> was read and is examined, \<open>Inr None\<close> is not
  there or streams through unexamined.\<close>

definition read_body :: "proxy_env \<Rightarrow> http_request \<Rightarrow> masker option \<Rightarrow> answer + string option" where
  "read_body env r msk =
     (if hr_ContentLength r = 0 then Inr None
      else if \<not> pe_body env then Inl (writeDeny [] 400 ''body_read'' (PlainText ''the proxy could not read the request body''))
      else if length (hr_Body r) > maxBodyForMasking \<and> msk \<noteq> None then
        Inl (writeDeny [] 413 ''body_too_large''
          (PlainText (''the request body exceeds the '' @ itoa (int maxBodyForMasking) @ '' byte limit for credential masking; split the upload or send it without a masked credential'')))
      else if length (hr_Body r) \<le> maxBodyForMasking then Inr (Some (hr_Body r))
      else Inr None)"

definition terminated_url :: "string \<Rightarrow> int \<Rightarrow> string" where
  "terminated_url host port = (if port = 443 then host else JoinHostPort host (itoa port))"

text \<open>The rewritten request with the names of the credentials put on it and whether its body changed.\<close>

definition rewrite_request ::
  "proxy_env \<Rightarrow> masker option \<Rightarrow> string \<Rightarrow> int \<Rightarrow> http_request \<Rightarrow> string option \<Rightarrow>
   http_request \<times> string list \<times> bool" where
  "rewrite_request env msk host port r body =
     (let out0 = r\<lparr>hr_Scheme := ''https'', hr_URLHost := terminated_url host port, hr_Host := terminated_url host port\<rparr>;
          (h, usedHeaders) = substituteHeaders (pe_order env) msk (stripHopByHop (hr_Header r));
          out = out0\<lparr>hr_Header := h\<rparr>
      in case body of
           None \<Rightarrow> (out, usedHeaders, False)
         | Some b \<Rightarrow>
             if b = [] then (out, usedHeaders, False)
             else (case Substitute (pe_order env) msk b of
                     (nb, changed, names) \<Rightarrow>
                       if changed then
                         (out\<lparr>hr_Body := nb, hr_ContentLength := int (length nb),
                              hr_Header := Header_Set ''Content-Length'' (itoa (int (length nb))) h\<rparr>,
                          usedHeaders @ names, True)
                       else (out, usedHeaders, False)))"

definition sign_request ::
  "proxy_env \<Rightarrow> masker option \<Rightarrow> http_request \<Rightarrow> string list \<Rightarrow> bool \<Rightarrow> answer + http_request \<times> string list" where
  "sign_request env msk out used bodyChanged =
     (if used \<noteq> [] \<or> msk \<noteq> None then
        (if bodyChanged then
           (if hasSigV4 out then
              Inl (writeDeny [] 409 ''sigv4_body_rewritten''
                (PlainText ''the request carries a SigV4 signature and a body that changed under credential masking; send the credential in a header instead of the body''))
            else Inr (out, used))
         else case ResignAWS (pe_sig env) msk out of
           Inl e \<Rightarrow> Inl (writeDeny [] 502 ''sigv4_resign''
                     (PlainText (''the proxy could not re-sign the request with the real credential: '' @ e)))
         | Inr (resigned, out') \<Rightarrow> Inr (out', if resigned then used @ [''AWS SigV4''] else used))
      else Inr (out, used))"

definition terminated_event :: "string \<Rightarrow> int \<Rightarrow> http_request \<Rightarrow> string list \<Rightarrow> event" where
  "terminated_event host port r used =
     (zero_event CodeConnect)\<lparr>ev_Host := host, ev_Port := port, ev_Code := CodeAllowed, ev_Method := hr_Method r,
        ev_Terminated := True, ev_Credentials := used\<rparr>"

definition forward_terminated ::
  "proxy_env \<Rightarrow> string \<Rightarrow> int \<Rightarrow> http_request \<Rightarrow> http_request \<Rightarrow> string list \<Rightarrow> proxy \<Rightarrow> answer \<times> sent \<times> proxy" where
  "forward_terminated env host port r out used px =
     (let s = (if used \<noteq> [] then record_event (terminated_event host port r used) (px_server px) else px_server px) in
      case RoundTrip env out (px\<lparr>px_server := s\<rparr>) of
        (Inl e, snt, px1) \<Rightarrow>
          (case asDenyError e of
             Some d \<Rightarrow>
               let v = de_Verdict d in
               (writeDeny [] 403 (code_text (v_Code v)) (ReasonText (v_Reason v)), snt,
                px1\<lparr>px_server := record_event ((zero_event CodeConnect)\<lparr>ev_Host := host, ev_Port := port,
                  ev_Code := v_Code v, ev_Rule := v_Rule v, ev_Method := hr_Method r\<rparr>) (px_server px1)\<rparr>)
           | None \<Rightarrow>
               (writeDeny [] 502 ''upstream_failed''
                 (PlainText (''the proxy reached '' @ host @ '' but the request failed: '' @ error_text e)), snt, px1))
      | (Inr resp, snt, px1) \<Rightarrow>
          (relay_response env resp, snt,
           if snd (streamCopy (pe_write env) 0 (up_Reads resp)) \<in> {StreamDone, ClientGone}
           then px1\<lparr>px_server := record_event (terminated_event host port r []) (px_server px1)\<rparr> else px1))"

definition serveTerminated ::
  "proxy_env \<Rightarrow> string \<Rightarrow> int \<Rightarrow> http_request \<Rightarrow> proxy \<Rightarrow> answer \<times> sent \<times> proxy" where
  "serveTerminated env host port r px =
     (let msk = o_Mask (sv_opts (px_server px)) in
      case read_body env r msk of
        Inl a \<Rightarrow> (a, [], px)
      | Inr body \<Rightarrow>
          (case rewrite_request env msk host port r body of
             (out, used, changed) \<Rightarrow>
               (case sign_request env msk out used changed of
                  Inl a \<Rightarrow> (a, [], px)
                | Inr (out', used') \<Rightarrow> forward_terminated env host port r out' used' px)))"

text \<open>The requests of one terminated tunnel, one after the other, on a transport of their own.\<close>

fun serve_tunnel ::
  "string \<Rightarrow> int \<Rightarrow> (proxy_env \<times> http_request) list \<Rightarrow> proxy \<Rightarrow> answer list \<times> sent \<times> proxy" where
  "serve_tunnel host port [] px = ([], [], px)"
| "serve_tunnel host port ((env, r) # rs) px =
     (case serveTerminated env host port r px of
        (a, snt, px1) \<Rightarrow>
          (case serve_tunnel host port rs px1 of (as, snt', px2) \<Rightarrow> (a # as, snt @ snt', px2)))"

definition terminate ::
  "proxy_env \<Rightarrow> (proxy_env \<times> http_request) list \<Rightarrow> string \<Rightarrow> int \<Rightarrow> proxy \<Rightarrow> proxy_result \<times> proxy" where
  "terminate env inner host port px =
     (let s = px_server px; refuse = (\<lambda>status tag msg. only_answer (writeDeny [] status tag (PlainText msg))) in
      case o_CA (sv_opts s) of
        None \<Rightarrow> (refuse 500 ''no_ca'' ''the proxy is configured to terminate TLS but has no certificate authority'', px)
      | Some c \<Rightarrow>
          (case leafFor (pe_mint env) (pe_mint_at env) host
                  (case o_Terminate (sv_opts s) of Some t \<Rightarrow> to_LeafTTL t | None \<Rightarrow> 0) c of
             (Inl e, c') \<Rightarrow> (refuse 502 ''leaf_failed'' ''the proxy could not mint a certificate for this host'', px)
           | (Inr cert, c') \<Rightarrow>
               let px1 = px\<lparr>px_server := s\<lparr>sv_opts := (sv_opts s)\<lparr>o_CA := Some c'\<rparr>\<rparr>\<rparr> in
               if \<not> pe_hijacker env then (refuse 500 ''no_hijack'' ''the proxy cannot take over this connection'', px1)
               else if pe_hijack env = None \<or> \<not> pe_established env then (only_answer NoAnswer, px1)
               else (case serve_tunnel host port inner \<lparr>px_server = px_server px1, px_idle = []\<rparr> of
                       (as, snt, px2) \<Rightarrow>
                         (\<lparr>pr_answer = Terminating cert, pr_sent = snt, pr_inner = as\<rparr>,
                          px1\<lparr>px_server := px_server px2\<rparr>))))"

section \<open>Tunnels and dispatch\<close>

definition handleConnect ::
  "proxy_env \<Rightarrow> (proxy_env \<times> http_request) list \<Rightarrow> http_request \<Rightarrow> proxy \<Rightarrow> proxy_result \<times> proxy" where
  "handleConnect env inner r px =
     (let (host, port) = hostPort (hr_Host r) 443; ne = pe_net env;
          allowed = (\<lambda>v term. (zero_event CodeConnect)\<lparr>ev_Host := host, ev_Port := port, ev_Code := CodeAllowed,
             ev_Rule := v_Rule v, ev_Method := hr_Method r, ev_Terminated := term\<rparr>)
      in case decide (ne_now ne) (ne_now' ne) host port (px_server px) of
           (v, s) \<Rightarrow>
             if \<not> v_Allow v then
               (case deny CodeConnect r v None s of (a, s1) \<Rightarrow> (only_answer a, px\<lparr>px_server := s1\<rparr>))
             else if terminating host port (o_Terminate (sv_opts s)) then
               terminate env inner host port (px\<lparr>px_server := record_event (allowed v True) s\<rparr>)
             else case dialAllowingVetted (ne_readings ne) (ne_lookup ne) (ne_connect ne) host port (sv_dialer s) of
               (Inl e, d) \<Rightarrow>
                 (case fail r host port e (s\<lparr>sv_dialer := d\<rparr>) of
                    (a, s1) \<Rightarrow> (only_answer a, px\<lparr>px_server := s1\<rparr>))
             | (Inr ip, d) \<Rightarrow>
                 let s1 = record_event (allowed v False) (s\<lparr>sv_dialer := d\<rparr>) in
                 if \<not> pe_hijacker env then
                   (only_answer (writeDeny [] 500 ''no_hijack'' (PlainText ''the proxy cannot take over this connection'')),
                    px\<lparr>px_server := record_event ((zero_event CodeConnect)\<lparr>ev_Host := host, ev_Port := port,
                      ev_Code := CodeNotAllowed, ev_Reason := CustomReason ''connection cannot be hijacked'',
                      ev_Method := hr_Method r\<rparr>) s1\<rparr>)
                 else (case pe_hijack env of
                         None \<Rightarrow> (only_answer NoAnswer, px\<lparr>px_server := s1\<rparr>)
                       | Some early \<Rightarrow>
                           if (early \<noteq> [] \<and> \<not> pe_early env) \<or> \<not> pe_established env
                           then (only_answer NoAnswer, px\<lparr>px_server := s1\<rparr>)
                           else (only_answer (Tunnelled ip early), px\<lparr>px_server := s1\<rparr>)))"

definition serveHTTP ::
  "proxy_env \<Rightarrow> (proxy_env \<times> http_request) list \<Rightarrow> http_request \<Rightarrow> proxy \<Rightarrow> proxy_result \<times> proxy" where
  "serveHTTP env inner r px =
     (if \<not> authorized (Header_Get ''Proxy-Authorization'' (hr_Header r)) (px_server px) then
        (only_answer (writeDeny (Header_Set ''Proxy-Authenticate'' (''Basic realm='' @ [char_of (34::nat)] @ ''sandrpod-egress'' @ [char_of (34::nat)]) [])
           407 ''proxy_auth_required''
           (PlainText ''this proxy needs its sandbox token: use the HTTP_PROXY/HTTPS_PROXY values the sandbox was started with'')),
         px\<lparr>px_server := record_event ((zero_event (kindOf r))\<lparr>ev_Host := hr_Host r, ev_Code := CodeAuthRequired,
           ev_Reason := CustomReason ''missing or wrong proxy token'', ev_Method := hr_Method r\<rparr>) (px_server px)\<rparr>)
      else if hr_Method r = ''CONNECT'' then handleConnect env inner r px
      else handleForward env r px)"

section \<open>Lemmas on headers\<close>

lemma Header_Values_fold_Del:
  "Header_Values k (fold Header_Del ns h) =
     (if CanonicalHeaderKey k \<in> CanonicalHeaderKey ` set ns then [] else Header_Values k h)"
  by (induction ns arbitrary: h) (auto simp: Header_Values_Del)

lemma set_delete_sub: "set (AList.delete k h) \<subseteq> set h"
  by (auto simp: AList.delete_eq)

lemma set_fold_Del: "set (fold Header_Del ns h) \<subseteq> set h"
proof (induction ns arbitrary: h)
  case (Cons n ns)
  show ?case using Cons [of "Header_Del n h"] set_delete_sub [of "CanonicalHeaderKey n" h] by (simp add: Header_Del_def)
qed simp

lemma set_stripHopByHop: "set (stripHopByHop h) \<subseteq> set h"
  unfolding stripHopByHop_def using set_fold_Del by (metis subset_trans)

lemma Header_Values_Add:
  "Header_Values k (Header_Add k' v h) =
     (if CanonicalHeaderKey k = CanonicalHeaderKey k' then Header_Values k h @ [v] else Header_Values k h)"
  by (auto simp: Header_Values_def Header_Add_def update_conv')

lemma Header_Values_fold_Add:
  "Header_Values k (fold (Header_Add k') vs h) =
     (if CanonicalHeaderKey k = CanonicalHeaderKey k' then Header_Values k h @ vs else Header_Values k h)"
  by (induction vs arbitrary: h) (auto simp: Header_Values_Add)

definition canonical_table :: "http_header \<Rightarrow> bool" where
  "canonical_table h \<longleftrightarrow> distinct (map fst h) \<and> list_all (\<lambda>(k, _). CanonicalHeaderKey k = k) h"

lemma copy_headers_values:
  "canonical_table h \<Longrightarrow> Header_Values k (copy_headers h w) =
     Header_Values k w @ (if ToLower (CanonicalHeaderKey k) \<in> hopByHop then [] else Header_Values k h)"
proof (induction h arbitrary: w)
  case (Cons e h)
  obtain k' vs where e: "e = (k', vs)" by fastforce
  with Cons.prems have t: "canonical_table h" and c: "CanonicalHeaderKey k' = k'" and n: "map_of h k' = None"
    by (auto simp: canonical_table_def map_of_eq_None_iff)
  show ?case
    using Cons.IH [OF t] c n e by (auto simp: Header_Values_fold_Add) (auto simp: Header_Values_def)
qed (simp add: Header_Values_def)

section \<open>Lemmas on the transport\<close>

text \<open>A connection is vouched for if the verdict for the destination it is dialled for allows it, the dial with
  the dialer of that moment led to the address, and the guard approves it given what the dial learnt of the host's
  own addresses.\<close>

definition dial_vouched :: "proxy_env \<Rightarrow> server \<Rightarrow> string \<Rightarrow> addr \<Rightarrow> bool" where
  "dial_vouched env s key a \<longleftrightarrow>
     (case hostPort key 80 of
        (host, port) \<Rightarrow>
          v_Allow (fst (decide (ne_now (pe_dial env)) (ne_now' (pe_dial env)) host port s)) \<and>
          (case dialAllowingVetted (ne_readings (pe_dial env)) (ne_lookup (pe_dial env)) (ne_connect (pe_dial env)) host port (sv_dialer s) of
             (res, d') \<Rightarrow> res = Inr a \<and> approved_addr (ne_lookup (pe_dial env)) (sv_dialer s) d' host port a))"

lemma dialContext_vouches: "dialContext env key s = (Inr a, s') \<Longrightarrow> dial_vouched env s key a"
  using decide_dialer [of "ne_now (pe_dial env)" "ne_now' (pe_dial env)" "fst (hostPort key 80)" "snd (hostPort key 80)" s]
  by (cases "hostPort key 80"; cases "decide (ne_now (pe_dial env)) (ne_now' (pe_dial env)) (fst (hostPort key 80)) (snd (hostPort key 80)) s")
    (auto simp: dialContext_def dial_vouched_def Let_def dialAllowingVetted_is_dial split: prod.splits if_splits
      dest!: guard.dial_approved)

lemma exchange_sent:
  "exchange env out key a s idle = (res, snt, px') \<Longrightarrow>
     snt = [(a, out)] \<and> px_server px' = s \<and> set (px_idle px') \<subseteq> insert (key, a) (set idle)"
  by (auto simp: exchange_def split: sum.splits if_splits)

lemma RoundTrip_sent:
  assumes "RoundTrip env out px = (res, snt, px')"
  shows "(snt = [] \<and> set (px_idle px') \<subseteq> set (px_idle px)) \<or>
    (\<exists>a. snt = [(a, out)] \<and> set (px_idle px') \<subseteq> insert (pool_key env out, a) (set (px_idle px)) \<and>
      ((pool_key env out, a) \<in> set (px_idle px) \<or> dial_vouched env (px_server px) (pool_key env out) a))"
proof -
  let ?key = "pool_key env out" and ?idle = "filter (pe_live env) (px_idle px)"
  let ?cands = "filter (\<lambda>(k, _). k = ?key) ?idle"
  have dialled: ?thesis if "(case dialContext env ?key (px_server px) of
      (Inl e, s) \<Rightarrow> (Inl e, [], \<lparr>px_server = s, px_idle = ?idle\<rparr>)
    | (Inr a, s) \<Rightarrow> exchange env out ?key a s ?idle) = (res, snt, px')"
    using that
    by (cases "dialContext env ?key (px_server px)")
      (force split: sum.splits dest: dialContext_vouches exchange_sent)
  show ?thesis
  proof (cases "\<exists>i. pe_pick env = Some i \<and> i < length ?cands")
    case True
    then obtain i where i: "pe_pick env = Some i" "i < length ?cands" by blast
    then have m: "?cands ! i \<in> set ?cands" by (simp only: nth_mem)
    then have k: "?cands ! i = (?key, snd (?cands ! i))" "?cands ! i \<in> set (px_idle px)" by auto
    from i assms have "exchange env out ?key (snd (?cands ! i)) (px_server px) (remove1 (?cands ! i) ?idle) = (res, snt, px')"
      by (simp add: RoundTrip_def Let_def del: filter_filter)
    from exchange_sent [OF this] k show ?thesis
      using set_remove1_subset [of "?cands ! i" ?idle] by (metis (no_types, lifting) filter_is_subset insert_mono order_trans)
  next
    case False
    with assms show ?thesis
      by (intro dialled) (cases "pe_pick env"; simp add: RoundTrip_def Let_def)
  qed
qed

section \<open>Lemmas on the handlers\<close>

definition after_verdict :: "proxy_env \<Rightarrow> http_request \<Rightarrow> server \<Rightarrow> server" where
  "after_verdict env r s =
     (case hostPort (hr_URLHost r) 80 of (host, port) \<Rightarrow> snd (decide (ne_now (pe_net env)) (ne_now' (pe_net env)) host port s))"

definition url_verdict :: "proxy_env \<Rightarrow> http_request \<Rightarrow> server \<Rightarrow> verdict" where
  "url_verdict env r s =
     (case hostPort (hr_URLHost r) 80 of (host, port) \<Rightarrow> fst (decide (ne_now (pe_net env)) (ne_now' (pe_net env)) host port s))"

text \<open>What one plain request sends and leaves in the pool.\<close>

definition plain_effect :: "proxy_env \<Rightarrow> http_request \<Rightarrow> proxy \<Rightarrow> sent \<Rightarrow> proxy \<Rightarrow> bool" where
  "plain_effect env r px snt px' \<longleftrightarrow>
     (snt = [] \<and> set (px_idle px') \<subseteq> set (px_idle px)) \<or>
     (\<exists>a h. let out = r\<lparr>hr_Scheme := ''http'', hr_Header := stripHopByHop h\<rparr> in
        snt = [(a, out)] \<and> v_Allow (url_verdict env r (px_server px)) \<and>
        mask_plain env r (fst (hostPort (hr_URLHost r) 80)) (snd (hostPort (hr_URLHost r) 80)) (after_verdict env r (px_server px)) = Inr h \<and>
        set (px_idle px') \<subseteq> insert (pool_key env out, a) (set (px_idle px)) \<and>
        ((pool_key env out, a) \<in> set (px_idle px) \<or>
         dial_vouched env (after_verdict env r (px_server px)) (pool_key env out) a))"

lemma handleForward_effect:
  assumes "handleForward env r px = (res, px')"
  shows "plain_effect env r px (pr_sent res) px'"
proof (cases "hr_URLHost r = []")
  case True
  with assms show ?thesis by (auto simp: handleForward_def plain_effect_def only_answer_def Let_def)
next
  case False
  obtain host port where hp: "hostPort (hr_URLHost r) 80 = (host, port)" by fastforce
  obtain v s where d: "decide (ne_now (pe_net env)) (ne_now' (pe_net env)) host port (px_server px) = (v, s)" by fastforce
  have av: "after_verdict env r (px_server px) = s" "url_verdict env r (px_server px) = v"
    by (simp_all add: after_verdict_def url_verdict_def hp d)
  show ?thesis
  proof (cases "v_Allow v \<and> (\<exists>h. mask_plain env r host port s = Inr h)")
    case True
    then obtain h where v: "v_Allow v" and m: "mask_plain env r host port s = Inr h" by blast
    let ?out = "r\<lparr>hr_Scheme := ''http'', hr_Header := stripHopByHop h\<rparr>"
    obtain rr snt px1 where rt: "RoundTrip env ?out (px\<lparr>px_server := s\<rparr>) = (rr, snt, px1)" by (metis prod_cases3)
    have res: "pr_sent res = snt" "px_idle px' = px_idle px1"
      using assms False hp d v m rt
      by (auto simp: handleForward_def Let_def split: sum.splits prod.splits)
    from RoundTrip_sent [OF rt] show ?thesis
      using res v m av hp unfolding plain_effect_def Let_def by auto
  next
    case False
    with assms \<open>hr_URLHost r \<noteq> []\<close> hp d show ?thesis
      by (auto simp: handleForward_def plain_effect_def only_answer_def Let_def split: sum.splits prod.splits if_splits)
  qed
qed

lemma handleConnect_idle: "px_idle (snd (handleConnect env inner r px)) = px_idle px"
  by (auto simp: handleConnect_def terminate_def Let_def split: prod.splits sum.splits option.splits)

lemma serveHTTP_idle:
  assumes "serveHTTP env inner r px = (res, px')" and "(key, a) \<in> set (px_idle px')"
  shows "(key, a) \<in> set (px_idle px) \<or> hr_Method r \<noteq> ''CONNECT'' \<and> dial_vouched env (after_verdict env r (px_server px)) key a"
proof (cases "authorized (Header_Get ''Proxy-Authorization'' (hr_Header r)) (px_server px) \<and> hr_Method r \<noteq> ''CONNECT''")
  case True
  with assms(1) have "handleForward env r px = (res, px')" by (simp add: serveHTTP_def)
  from handleForward_effect [OF this] assms(2) True show ?thesis
    unfolding plain_effect_def Let_def by auto
next
  case False
  with assms handleConnect_idle [of env inner r px] show ?thesis
    by (auto simp: serveHTTP_def split: if_splits)
qed

lemma decide_opts: "sv_opts (snd (decide now now' host port s)) = sv_opts s"
  by (auto simp: decide_def ask_decider_def store_verdict_def Let_def split: option.split sum.split)

text \<open>The headers a plain request goes on with: the client's, with credentials put in only by a masker that may do so in the clear.\<close>

definition plain_headers :: "proxy_env \<Rightarrow> http_request \<Rightarrow> server \<Rightarrow> http_header" where
  "plain_headers env r s =
     (case o_Mask (sv_opts s) of
        Some m \<Rightarrow> if mk_allowPlaintext m then fst (substituteHeaders (pe_order env) (Some m) (hr_Header r)) else hr_Header r
      | None \<Rightarrow> hr_Header r)"

lemma mask_plain_headers: "mask_plain env r host port s = Inr h \<Longrightarrow> h = plain_headers env r s"
  by (auto simp: mask_plain_def plain_headers_def split: option.splits if_splits)

lemma plain_headers_after: "plain_headers env r (after_verdict env' r' s) = plain_headers env r s"
  by (simp add: plain_headers_def after_verdict_def decide_opts split: prod.split)

lemma decide_sink: "sv_sink (snd (decide now now' host port s)) = sv_sink s"
  by (auto simp: decide_def ask_decider_def store_verdict_def Let_def split: option.split sum.split)

lemma handleForward_answer: "pr_answer (fst (handleForward env r px)) \<noteq> Tunnelled ip early"
  by (auto simp: handleForward_def mask_plain_def deny_def fail_def only_answer_def writeDeny_def relay_response_def Let_def
      split: prod.splits sum.splits option.splits)

section \<open>Runs of the proxy\<close>

text \<open>What happens to a running proxy: requests, and new policies pushed from outside.\<close>

datatype proxy_action = Request proxy_env "(proxy_env \<times> http_request) list" http_request | NewPolicy "compiled option"

fun act_step :: "proxy_action \<Rightarrow> proxy \<Rightarrow> proxy" where
  "act_step (Request env inner r) px = snd (serveHTTP env inner r px)"
| "act_step (NewPolicy p) px = px\<lparr>px_server := snd (UpdatePolicy p (px_server px))\<rparr>"

definition run_proxy :: "proxy_action list \<Rightarrow> proxy \<Rightarrow> proxy" where
  "run_proxy acts px = fold act_step acts px"

lemma run_snoc: "run_proxy (acts @ [act]) px = act_step act (run_proxy acts px)"
  by (simp add: run_proxy_def)

text \<open>Some request of the run dialled this address for this key, under a verdict and the guard's approval of that
  moment.\<close>

definition dialled_in :: "proxy_action list \<Rightarrow> proxy \<Rightarrow> string \<Rightarrow> addr \<Rightarrow> bool" where
  "dialled_in acts px key a \<longleftrightarrow>
     (\<exists>pre env inner r post. acts = pre @ Request env inner r # post \<and> hr_Method r \<noteq> ''CONNECT'' \<and>
        dial_vouched env (after_verdict env r (px_server (run_proxy pre px))) key a)"

lemma dialled_in_snoc: "dialled_in acts px key a \<Longrightarrow> dialled_in (acts @ [act]) px key a"
  unfolding dialled_in_def by fastforce

lemma dialled_in_last:
  "hr_Method r \<noteq> ''CONNECT'' \<Longrightarrow> dial_vouched env (after_verdict env r (px_server (run_proxy acts px))) key a \<Longrightarrow>
     dialled_in (acts @ [Request env inner r]) px key a"
  unfolding dialled_in_def by blast

lemma pooled_was_dialled:
  "px_idle px = [] \<Longrightarrow> (key, a) \<in> set (px_idle (run_proxy acts px)) \<Longrightarrow> dialled_in acts px key a"
proof (induction acts rule: rev_induct)
  case (snoc act acts)
  show ?case
  proof (cases act)
    case (Request env inner r)
    obtain res px' where run: "serveHTTP env inner r (run_proxy acts px) = (res, px')" by fastforce
    with snoc.prems(2) Request have "(key, a) \<in> set (px_idle px')" by (simp add: run_snoc)
    from serveHTTP_idle [OF run this] snoc.IH [OF snoc.prems(1)] Request show ?thesis
      by (auto intro: dialled_in_snoc dialled_in_last)
  next
    case (NewPolicy p)
    with snoc show ?thesis by (auto simp: run_snoc intro: dialled_in_snoc)
  qed
qed (simp add: run_proxy_def)

section \<open>Properties\<close>

text \<open>Claim C9. Nothing goes upstream in the clear unvouched: whatever requests and policy changes a proxy has seen
  since it started, a plain-HTTP request is sent on only if it carried the token, if the verdict for the host and
  port of its URL allows it now, and over a connection that this or an earlier request dialled under a
  verdict that allowed the connection's destination, by a dial that led to that address and approved it; what is sent
  is the client's request with the hop-by-hop headers stripped, its credentials substituted in the headers only if
  there is a masker that was told to allow plaintext.\<close>

theorem plain_requests_are_vouched:
  assumes "px_idle px0 = []" and "hr_Method r \<noteq> ''CONNECT''"
    and "serveHTTP env inner r (run_proxy acts px0) = (res, px')" and "(a, out) \<in> set (pr_sent res)"
  shows "authorized (Header_Get ''Proxy-Authorization'' (hr_Header r)) (px_server (run_proxy acts px0)) \<and>
    v_Allow (url_verdict env r (px_server (run_proxy acts px0))) \<and>
    dialled_in (acts @ [Request env inner r]) px0 (pool_key env out) a \<and>
    out = r\<lparr>hr_Scheme := ''http'', hr_Header := stripHopByHop (plain_headers env r (px_server (run_proxy acts px0)))\<rparr>"
proof -
  let ?px = "run_proxy acts px0"
  have auth: "authorized (Header_Get ''Proxy-Authorization'' (hr_Header r)) (px_server ?px)"
    using assms(3,4) by (auto simp: serveHTTP_def only_answer_def split: if_splits)
  with assms(2,3) have "handleForward env r ?px = (res, px')" by (simp add: serveHTTP_def)
  from handleForward_effect [OF this] assms(4) obtain h where
    out: "out = r\<lparr>hr_Scheme := ''http'', hr_Header := stripHopByHop h\<rparr>" and v: "v_Allow (url_verdict env r (px_server ?px))"
    and h: "mask_plain env r (fst (hostPort (hr_URLHost r) 80)) (snd (hostPort (hr_URLHost r) 80)) (after_verdict env r (px_server ?px)) = Inr h"
    and k: "(pool_key env out, a) \<in> set (px_idle ?px) \<or> dial_vouched env (after_verdict env r (px_server ?px)) (pool_key env out) a"
    unfolding plain_effect_def Let_def by auto
  from k have "dialled_in (acts @ [Request env inner r]) px0 (pool_key env out) a"
    using pooled_was_dialled [OF assms(1)] assms(2) by (auto intro: dialled_in_snoc dialled_in_last)
  moreover have "h = plain_headers env r (px_server ?px)" using mask_plain_headers [OF h] by (simp add: plain_headers_after)
  ultimately show ?thesis using auth v out by blast
qed

text \<open>Claim C18. A tunnel is opened only if everything agrees: the token, a CONNECT, an allowing verdict for the
  destination, no termination asked for it, and a dial of that destination that led to the address, which the guard
  approves: it is allow-listed as a literal, or of no refused class, in no denied range and none of the host's own
  addresses as the dial found them. The first bytes into the tunnel are those the client had already sent.\<close>

theorem connect_needs_everything:
  assumes "serveHTTP env inner r px = (res, px')" and "pr_answer res = Tunnelled ip early"
    and "hostPort (hr_Host r) 443 = (host, port)"
  shows "hr_Method r = ''CONNECT'' \<and> authorized (Header_Get ''Proxy-Authorization'' (hr_Header r)) (px_server px) \<and>
    v_Allow (fst (decide (ne_now (pe_net env)) (ne_now' (pe_net env)) host port (px_server px))) \<and>
    \<not> terminating host port (o_Terminate (sv_opts (px_server px))) \<and> pe_hijack env = Some early \<and>
    dialAllowingVetted (ne_readings (pe_net env)) (ne_lookup (pe_net env)) (ne_connect (pe_net env)) host port
       (sv_dialer (px_server px)) = (Inr ip, sv_dialer (px_server px')) \<and>
    approved_addr (ne_lookup (pe_net env)) (sv_dialer (px_server px)) (sv_dialer (px_server px')) host port ip"
proof -
  let ?ne = "pe_net env"
  obtain v s where d: "decide (ne_now ?ne) (ne_now' ?ne) host port (px_server px) = (v, s)" by fastforce
  have s: "sv_dialer s = sv_dialer (px_server px)" "sv_opts s = sv_opts (px_server px)"
    using decide_dialer [of "ne_now ?ne" "ne_now' ?ne" host port "px_server px"]
      decide_opts [of "ne_now ?ne" "ne_now' ?ne" host port "px_server px"] by (simp_all add: d)
  have c: "hr_Method r = ''CONNECT''" "authorized (Header_Get ''Proxy-Authorization'' (hr_Header r)) (px_server px)"
    using assms(1,2) handleForward_answer [of env r px]
    by (auto simp: serveHTTP_def only_answer_def writeDeny_def split: if_splits)
  with assms(1) have h: "handleConnect env inner r px = (res, px')" by (simp add: serveHTTP_def)
  obtain rr d' where dial: "dialAllowingVetted (ne_readings ?ne) (ne_lookup ?ne) (ne_connect ?ne) host port (sv_dialer s) = (rr, d')"
    by fastforce
  have "v_Allow v \<and> \<not> terminating host port (o_Terminate (sv_opts s)) \<and> rr = Inr ip \<and> pe_hijack env = Some early \<and>
      sv_dialer (px_server px') = d'"
    using h assms(2,3) d dial
    by (auto simp: handleConnect_def terminate_def only_answer_def writeDeny_def deny_def fail_def Let_def
        record_event_def
        split: if_splits sum.splits prod.splits option.splits)
  with dial s c d show ?thesis
    by (auto simp: dialAllowingVetted_is_dial dest: guard.dial_approved)
qed

text \<open>Hop-by-hop headers never travel and everything else does: after stripping, a header is empty if its
  canonical name is one of the nine fixed ones (the proxy's own credential among them) or is listed in
  a \<^verbatim>\<open>Connection\<close> header of the request, and has its old values otherwise.\<close>

theorem hop_headers_never_travel:
  "Header_Values k (stripHopByHop h) =
     (if CanonicalHeaderKey k \<in> CanonicalHeaderKey ` (set hop_names \<union> set (connection_tokens h)) then [] else Header_Values k h)"
  by (auto simp: stripHopByHop_def Header_Values_fold_Del)

text \<open>Of the upstream's answer exactly the nine fixed headers are dropped.\<close>

lemma answer_headers:
  "canonical_table h \<Longrightarrow>
     Header_Values k (copy_headers h []) = (if ToLower (CanonicalHeaderKey k) \<in> hopByHop then [] else Header_Values k h)"
  using copy_headers_values [of h k "[]"] by (simp add: Header_Values_def [of _ "[]"])

text \<open>The credential of the proxy URL is the only one accepted: a header is authorized exactly if it is the
  scheme \<^verbatim>\<open>Basic\<close> in some case followed by the base64 text of a user name, a colon and the token; the
  header made from \<^verbatim>\<open>ProxyURL\<close> is.\<close>

lemma IndexByte_SomeD: "IndexByte s c = Some i \<Longrightarrow> s = take i s @ c # drop (Suc i) s \<and> c \<notin> set (take i s)"
  by (induction s arbitrary: i) (auto split: if_splits)

theorem authorized_iff:
  "authorized header s \<longleftrightarrow>
     (\<exists>scheme enc user. header = scheme @ enc \<and> EqualFold scheme ''Basic '' \<and>
        b64_decode (TrimSpace enc) = Some (user @ '':'' @ sv_token s) \<and> CHR '':'' \<notin> set user)"
proof
  assume a: "authorized header s"
  then obtain raw i where r: "length ''Basic '' \<le> length header" "EqualFold (take (length ''Basic '') header) ''Basic ''"
    "b64_decode (TrimSpace (drop (length ''Basic '') header)) = Some raw" "IndexByte raw (CHR '':'') = Some i"
    "drop (Suc i) raw = sv_token s"
    unfolding authorized_def tokenMatches_def by (auto split: if_splits option.splits)
  from IndexByte_SomeD [OF r(4)] r(5) have "raw = take i raw @ '':'' @ sv_token s" "CHR '':'' \<notin> set (take i raw)" by auto
  with r(2,3) show "\<exists>scheme enc user. header = scheme @ enc \<and> EqualFold scheme ''Basic '' \<and>
        b64_decode (TrimSpace enc) = Some (user @ '':'' @ sv_token s) \<and> CHR '':'' \<notin> set user"
    by (metis append_take_drop_id)
next
  assume "\<exists>scheme enc user. header = scheme @ enc \<and> EqualFold scheme ''Basic '' \<and>
        b64_decode (TrimSpace enc) = Some (user @ '':'' @ sv_token s) \<and> CHR '':'' \<notin> set user"
  then obtain scheme enc user where h: "header = scheme @ enc" "EqualFold scheme ''Basic ''"
    "b64_decode (TrimSpace enc) = Some (user @ '':'' @ sv_token s)" "CHR '':'' \<notin> set user" by blast
  from h(2) have l: "length scheme = length ''Basic ''" unfolding EqualFold_def ToLower_def by (metis length_map)
  from IndexByte_app [OF h(4), of "sv_token s"] h l show "authorized header s"
    by (simp add: authorized_def tokenMatches_def del: IndexByte.simps)
qed

text \<open>A body cut short is never passed off as complete: the copy ends as done only if the upstream's body
  ended, and then every byte of it was written; a read error ends in an abort of the client's connection;
  as long as the client takes what is written, a body that ends is delivered whole.\<close>

theorem relayed_body_is_complete:
  "snd (streamCopy wok k reads) = StreamDone \<longrightarrow>
     (\<exists>pre b post. reads = pre @ (b, Some ReadEOF) # post \<and> (\<forall>r \<in> set pre. snd r = None) \<and>
        fst (streamCopy wok k reads) = concat (map fst pre) @ b)"
proof (induction wok k reads rule: streamCopy.induct)
  case (2 wok k b e rs)
  show ?case
  proof (cases "b \<noteq> [] \<and> \<not> wok k")
    case False
    show ?thesis
    proof (cases e)
      case None
      show ?thesis
      proof
        assume d: "snd (streamCopy wok k ((b, e) # rs)) = StreamDone"
        then have "snd (streamCopy wok (if b \<noteq> [] then Suc k else k) rs) = StreamDone"
          using False None by (auto split: prod.splits)
        with "2.IH" [OF False None] obtain pre c post where
          "rs = pre @ (c, Some ReadEOF) # post" "\<forall>r \<in> set pre. snd r = None"
          "fst (streamCopy wok (if b \<noteq> [] then Suc k else k) rs) = concat (map fst pre) @ c" by blast
        with False None show "\<exists>pre c post. (b, e) # rs = pre @ (c, Some ReadEOF) # post \<and> (\<forall>r \<in> set pre. snd r = None) \<and>
            fst (streamCopy wok k ((b, e) # rs)) = concat (map fst pre) @ c"
          by (intro exI [of _ "(b, e) # pre"] exI [of _ c] exI [of _ post]) (auto split: prod.splits)
      qed
    next
      case (Some x)
      with False show ?thesis by (cases x) (auto intro: exI [of _ "[]"])
    qed
  qed auto
qed simp

lemma streamCopy_whole:
  "\<forall>r \<in> set pre. snd r = None \<Longrightarrow> \<forall>i. wok i \<Longrightarrow>
     streamCopy wok k (pre @ (b, Some e) # post) =
       (concat (map fst pre) @ b, case e of ReadEOF \<Rightarrow> StreamDone | ReadError \<Rightarrow> StreamAborted)"
  by (induction pre arbitrary: k) (auto split: read_end.split)

text \<open>Claim C21. A masked credential does not leave in the clear: with a masker that was not told to allow it, a plain-HTTP
  request that is sent on carries no sentinel in any header but the length and goes on with the client's headers and body as
  they are. A request the verdict allows and that carries one is not sent: it gets a 403 with its own code, and with
  a sink the refusal is recorded under that code. (A sentinel in the body of a plain
  request is neither looked for nor replaced.)\<close>

theorem no_masked_credential_in_clear:
  assumes "handleForward env r px = (res, px')" and "o_Mask (sv_opts (px_server px)) = Some m" and "\<not> mk_allowPlaintext m"
  shows "(\<forall>a out. (a, out) \<in> set (pr_sent res) \<longrightarrow>
       \<not> carriesSentinel out \<and> hr_Header out = stripHopByHop (hr_Header r) \<and> hr_Body out = hr_Body r) \<and>
    (carriesSentinel r \<and> hr_URLHost r \<noteq> [] \<and> v_Allow (url_verdict env r (px_server px)) \<longrightarrow>
       pr_sent res = [] \<and>
       (\<exists>msg. pr_answer res = writeDeny [] 403 ''masked_credential_cleartext'' (PlainText msg)) \<and>
       (o_Sink (sv_opts (px_server px)) \<longrightarrow>
          (\<exists>e. sv_sink (px_server px') = sv_sink (px_server px) @ [e] \<and> ev_Kind e = CodeHTTP \<and> ev_Code e = CodeMaskedPlaintext \<and>
             (ev_Host e, ev_Port e) = hostPort (hr_URLHost r) 80)))"
proof (intro conjI allI impI)
  let ?s = "after_verdict env r (px_server px)"
  have mask: "o_Mask (sv_opts ?s) = Some m"
    using assms(2) by (auto simp: after_verdict_def decide_opts split: prod.split)
  {
    fix a out assume "(a, out) \<in> set (pr_sent res)"
    with handleForward_effect [OF assms(1)] obtain h where
      out: "out = r\<lparr>hr_Scheme := ''http'', hr_Header := stripHopByHop h\<rparr>"
      and m: "mask_plain env r (fst (hostPort (hr_URLHost r) 80)) (snd (hostPort (hr_URLHost r) 80)) ?s = Inr h"
      unfolding plain_effect_def Let_def by auto
    with mask have h: "h = hr_Header r" "\<not> carriesSentinel r"
      using assms(3) by (auto simp: mask_plain_def split: if_splits)
    then show "\<not> carriesSentinel out"
      using out set_stripHopByHop [of "hr_Header r"] by (auto simp: carriesSentinel_def list_ex_iff)
    show "hr_Header out = stripHopByHop (hr_Header r)" "hr_Body out = hr_Body r" using out h by simp_all
  }
  obtain host port where hp: "hostPort (hr_URLHost r) 80 = (host, port)" by fastforce
  obtain v s where d: "decide (ne_now (pe_net env)) (ne_now' (pe_net env)) host port (px_server px) = (v, s)" by fastforce
  have s: "sv_opts s = sv_opts (px_server px)" "sv_sink s = sv_sink (px_server px)"
    using decide_opts decide_sink d by (metis snd_conv)+
  assume c: "carriesSentinel r \<and> hr_URLHost r \<noteq> [] \<and> v_Allow (url_verdict env r (px_server px))"
  then have v: "v_Allow v" by (simp add: url_verdict_def hp d)
  show "pr_sent res = []" "\<exists>msg. pr_answer res = writeDeny [] 403 ''masked_credential_cleartext'' (PlainText msg)"
    using assms c v s hp d by (auto simp: handleForward_def mask_plain_def only_answer_def Let_def)
  assume "o_Sink (sv_opts (px_server px))"
  then show "\<exists>e. sv_sink (px_server px') = sv_sink (px_server px) @ [e] \<and> ev_Kind e = CodeHTTP \<and> ev_Code e = CodeMaskedPlaintext \<and>
      (ev_Host e, ev_Port e) = hostPort (hr_URLHost r) 80"
    using assms c v s hp d
    by (auto simp: handleForward_def mask_plain_def only_answer_def record_event_def zero_event_def Let_def)
qed

lemma subst_loop_silent: "subst_loop m ss b us = (o', us') \<Longrightarrow> length us \<le> length us' \<and> (length us' = length us \<longrightarrow> o' = b)"
proof (induction ss arbitrary: b us)
  case (Cons t ss)
  show ?case
  proof (cases "mk_bySentinel m t")
    case (Some c)
    show ?thesis
    proof (cases "Contains b t")
      case True
      with Some Cons.prems have "subst_loop m ss (ReplaceAll b t (cd_Value c)) (cd_Name c # us) = (o', us')" by simp
      from Cons.IH [OF this] show ?thesis by auto
    qed (use Cons Some in auto)
  qed (use Cons in auto)
qed simp

lemma sort_remdups_Nil: "sort (remdups us) = [] \<longleftrightarrow> us = []"
  by (metis remdups_eq_nil_iff set_empty set_sort)

lemma Substitute_silent: "Substitute ord mo b = (out, changed, []) \<Longrightarrow> out = b \<and> \<not> changed"
  using subst_loop_silent [of "the mo" "ord b" b "[]"]
  by (auto simp: Substitute_def Let_def sort_remdups_Nil split: option.splits if_splits prod.splits)

lemma subst_values_silent: "\<forall>v \<in> set vs. snd (snd (Substitute ord (Some m) v)) = [] \<Longrightarrow> subst_values ord m vs = vs"
proof (induction vs)
  case (Cons v vs)
  obtain o' ch us where s: "Substitute ord (Some m) v = (o', ch, us)" by (metis prod_cases3)
  with Cons.prems have "us = []" by simp
  with s Substitute_silent have "o' = v" by blast
  with Cons s show ?case by (simp add: subst_values_def)
qed (simp add: subst_values_def)

lemma substituteHeaders_silent: "substituteHeaders ord mo h = (h', []) \<Longrightarrow> h' = h"
proof (cases mo)
  case (Some m)
  assume a: "substituteHeaders ord mo h = (h', [])"
  with Some have q: "\<forall>v \<in> set (concat (map snd h)). snd (snd (Substitute ord (Some m) v)) = []"
    by (auto simp: substituteHeaders_def sort_remdups_Nil)
  then have "map (\<lambda>(k, vs). (k, subst_values ord m vs)) h = h"
    by (intro map_idI) (force intro: subst_values_silent)
  with a Some show ?thesis by (simp add: substituteHeaders_def)
qed (simp add: substituteHeaders_def)

text \<open>The request a terminated tunnel would send on without a masker.\<close>

definition unmasked_request :: "string \<Rightarrow> int \<Rightarrow> http_request \<Rightarrow> http_request" where
  "unmasked_request host port r =
     r\<lparr>hr_Scheme := ''https'', hr_URLHost := terminated_url host port, hr_Host := terminated_url host port,
       hr_Header := stripHopByHop (hr_Header r)\<rparr>"

lemma rewrite_silent:
  "rewrite_request env msk host port r body = (out, [], changed) \<Longrightarrow> out = unmasked_request host port r \<and> \<not> changed"
  using substituteHeaders_silent
  by (fastforce simp: rewrite_request_def unmasked_request_def Let_def split: prod.splits option.splits if_splits
      dest: Substitute_silent)

lemma sign_silent:
  "sign_request env msk out used changed = Inr (out', []) \<Longrightarrow> used = [] \<and> (changed \<or> out' = out)"
  by (auto simp: sign_request_def ResignAWS_def Let_def split: if_splits sum.splits prod.splits option.splits)

lemma RoundTrip_sink:
  "sv_sink (px_server (snd (snd (RoundTrip env out px)))) = sv_sink (px_server px)"
proof -
  have "sv_sink (snd (dialContext env key s)) = sv_sink s" for key s
    using decide_sink [of "ne_now (pe_dial env)" "ne_now' (pe_dial env)" "fst (hostPort key 80)" "snd (hostPort key 80)" s]
    by (auto simp: dialContext_def Let_def split: prod.splits)
  then have d: "sv_sink s' = sv_sink s" if "dialContext env key s = (rr, s')" for key s rr s' using that by (metis snd_conv)
  have e: "px_server (snd (snd (exchange env out key a s idle))) = s" for key a s idle
    by (auto simp: exchange_def split: sum.splits)
  show ?thesis by (auto simp: RoundTrip_def Let_def e split: option.splits sum.splits prod.splits dest: d)
qed

text \<open>What it means that exactly the credentials named were put into a text: \<open>swapped m N b b'\<close> leads from \<open>b\<close> to
  \<open>b'\<close> by steps that each replace the sentinel of one credential, wherever it occurs, by the secret.\<close>

inductive swapped :: "masker \<Rightarrow> string set \<Rightarrow> string \<Rightarrow> string \<Rightarrow> bool" for m where
  swap_none: "swapped m {} b b"
| swap_one: "mk_bySentinel m t = Some c \<Longrightarrow> Contains b t \<Longrightarrow> swapped m N (ReplaceAll b t (cd_Value c)) b' \<Longrightarrow>
    swapped m (insert (cd_Name c) N) b b'"

lemma subst_loop_swapped:
  "subst_loop m ss b us = (b', us') \<Longrightarrow> \<exists>N. swapped m N b b' \<and> set us' = N \<union> set us"
proof (induction ss arbitrary: b us)
  case (Cons t ss)
  show ?case
  proof (cases "\<exists>c. mk_bySentinel m t = Some c \<and> Contains b t")
    case True
    then obtain c where c: "mk_bySentinel m t = Some c" "Contains b t" by blast
    with Cons.prems have "subst_loop m ss (ReplaceAll b t (cd_Value c)) (cd_Name c # us) = (b', us')" by simp
    from Cons.IH [OF this] obtain N where "swapped m N (ReplaceAll b t (cd_Value c)) b'" "set us' = N \<union> set (cd_Name c # us)" by blast
    with swap_one [OF c] show ?thesis by (intro exI [of _ "insert (cd_Name c) N"]) auto
  next
    case False
    with Cons show ?thesis by (auto split: option.splits if_splits)
  qed
qed (auto intro: swap_none)

lemma Substitute_swapped: "Substitute ord (Some m) b = (b', changed, us) \<Longrightarrow> swapped m (set us) b b'"
  using subst_loop_swapped [of m "ord b" b "[]"]
  by (cases "subst_loop m (ord b) b []") (auto simp: Substitute_def Let_def sort_remdups_Nil intro: swap_none split: if_splits)

text \<open>A header, value by value: \<open>F v\<close> are the credentials put into the value \<open>v\<close>.\<close>

definition header_swapped :: "masker \<Rightarrow> string set \<Rightarrow> http_header \<Rightarrow> http_header \<Rightarrow> bool" where
  "header_swapped m N h h' \<longleftrightarrow>
     (\<exists>F. list_all2 (\<lambda>(k, vs) (k', vs'). k' = k \<and> list_all2 (\<lambda>v v'. swapped m (F v) v v') vs vs') h h' \<and>
        N = \<Union> (F ` set (concat (map snd h))))"

lemma substituteHeaders_swapped:
  assumes "substituteHeaders ord (Some m) h = (h', us)"
  shows "header_swapped m (set us) h h'"
proof -
  let ?F = "\<lambda>v. set (snd (snd (Substitute ord (Some m) v)))"
  have v: "swapped m (?F v) v (case Substitute ord (Some m) v of (out, changed, _) \<Rightarrow> if changed then out else v)" for v
  proof -
    obtain out changed used where s: "Substitute ord (Some m) v = (out, changed, used)" by (metis prod_cases3)
    show ?thesis
    proof (cases changed)
      case False
      with s have "used = []" by (auto simp: Substitute_def Let_def split: if_splits prod.splits)
      with s Substitute_silent have "out = v" by blast
      with s Substitute_swapped [OF s] show ?thesis by simp
    qed (use s Substitute_swapped [OF s] in simp)
  qed
  have l: "list_all2 (\<lambda>(k, vs) (k', vs'). k' = k \<and> list_all2 (\<lambda>v v'. swapped m (?F v) v v') vs vs') h
      (map (\<lambda>(k, vs). (k, subst_values ord m vs)) h)"
    using v by (auto simp: list_all2_conv_all_nth subst_values_def split: prod.splits)
  have all: "set (concat (map g l)) = \<Union> ((\<lambda>v. set (g v)) ` set l)" for g :: "string \<Rightarrow> string list" and l by simp
  have h': "h' = map (\<lambda>(k, vs). (k, subst_values ord m vs)) h" using assms by (simp add: substituteHeaders_def)
  have "us = sort (remdups (concat (map (\<lambda>v. snd (snd (Substitute ord (Some m) v))) (concat (map snd h)))))"
    using assms by (simp add: substituteHeaders_def)
  then have "set us = \<Union> (?F ` set (concat (map snd h)))" by (simp only: set_sort set_remdups all)
  then show ?thesis using l unfolding header_swapped_def h' by (intro exI [of _ ?F] conjI)
qed

text \<open>A request: header and body, and with a new body the length announced for it.\<close>

definition credentials_put :: "masker \<Rightarrow> http_request \<Rightarrow> string set \<Rightarrow> http_request \<Rightarrow> bool" where
  "credentials_put m base N out \<longleftrightarrow>
     (\<exists>Nh Nb h b. header_swapped m Nh (hr_Header base) h \<and> swapped m Nb (hr_Body base) b \<and> N = Nh \<union> Nb \<and>
        out = (if Nb = {} then base\<lparr>hr_Header := h\<rparr>
               else base\<lparr>hr_Header := Header_Set ''Content-Length'' (itoa (int (length b))) h, hr_Body := b,
                 hr_ContentLength := int (length b)\<rparr>))"

lemma rewrite_puts:
  assumes "rewrite_request env (Some m) host port r body = (out, used, changed)" and "body = None \<or> body = Some (hr_Body r)"
  shows "credentials_put m (unmasked_request host port r) (set used) out"
proof -
  let ?base = "unmasked_request host port r"
  obtain h us where h: "substituteHeaders (pe_order env) (Some m) (stripHopByHop (hr_Header r)) = (h, us)" by fastforce
  have hs: "header_swapped m (set us) (hr_Header ?base) h"
    using substituteHeaders_swapped [OF h] by (simp add: unmasked_request_def)
  obtain nb ch names where b: "Substitute (pe_order env) (Some m) (hr_Body r) = (nb, ch, names)" by (metis prod_cases3)
  have body: "hr_Body ?base = hr_Body r" by (simp add: unmasked_request_def)
  show ?thesis
  proof (cases "body = Some (hr_Body r) \<and> hr_Body r \<noteq> [] \<and> ch")
    case True
    then have "names \<noteq> []" using b by (auto simp: Substitute_def Let_def split: if_splits prod.splits)
    moreover have "used = us @ names" "out = ?base\<lparr>hr_Header := Header_Set ''Content-Length'' (itoa (int (length nb))) h, hr_Body := nb,
        hr_ContentLength := int (length nb)\<rparr>"
      using assms(1) True h b by (cases r; simp add: rewrite_request_def unmasked_request_def Let_def)+
    ultimately show ?thesis
      using hs Substitute_swapped [OF b] body unfolding credentials_put_def
      by (intro exI [of _ "set us"] exI [of _ "set names"] exI [of _ h] exI [of _ nb]) simp
  next
    case False
    then have "used = us \<and> out = ?base\<lparr>hr_Header := h\<rparr>"
      using assms h b by (auto simp: rewrite_request_def unmasked_request_def Let_def split: if_splits)
    then show ?thesis
      using hs swap_none [of m "hr_Body ?base"] unfolding credentials_put_def
      by (intro exI [of _ "set us"] exI [of _ "{}"] exI [of _ h] exI [of _ "hr_Body ?base"]) simp
  qed
qed

lemma unmasked_uses_nothing:
  "rewrite_request env None host port r body = (out, used, changed) \<Longrightarrow> used = []"
  "sign_request env None out [] changed = Inr (out', used) \<Longrightarrow> used = []"
  by (auto simp: rewrite_request_def substituteHeaders_def Substitute_def sign_request_def Let_def split: option.splits if_splits)

lemma sign_cases:
  assumes "sign_request env (Some m) out used changed = Inr (out', used')"
  shows "out' = out \<and> used' = used \<or> ResignAWS (pe_sig env) (Some m) out = Inr (True, out') \<and> used' = used @ [''AWS SigV4'']"
proof (cases changed)
  case False
  have "b = False \<Longrightarrow> ResignAWS (pe_sig env) (Some m) out = Inr (b, o') \<Longrightarrow> o' = out" for b o'
    by (auto simp: ResignAWS_def Let_def split: option.splits if_splits)
  with False assms show ?thesis by (auto simp: sign_request_def split: sum.splits prod.splits if_splits)
qed (use assms in \<open>auto simp: sign_request_def split: if_splits\<close>)

text \<open>Claim C20. Every credential the proxy puts on a request is in the trail, and only those: when a terminated tunnel sends a
  request that differs in any way from the client's own (less the hop-by-hop headers), an event was appended to the
  trail whose list names exactly the credentials whose sentinels were replaced by their secrets in the headers and the
  body of what was sent, and the new AWS signature exactly if the request was signed again; whatever became of
  the request.\<close>

theorem terminated_credentials_are_recorded:
  assumes "serveTerminated env host port r px = (ans, snt, px')" and "(a, out) \<in> set snt"
    and "out \<noteq> unmasked_request host port r" and "o_Sink (sv_opts (px_server px))"
  shows "\<exists>m N put used rest. o_Mask (sv_opts (px_server px)) = Some m \<and>
    credentials_put m (unmasked_request host port r) N put \<and>
    (out = put \<and> set used = N \<or> ResignAWS (pe_sig env) (Some m) put = Inr (True, out) \<and> set used = N \<union> {''AWS SigV4''}) \<and>
    used \<noteq> [] \<and> sv_sink (px_server px') = sv_sink (px_server px) @ terminated_event host port r used # rest"
proof -
  let ?m = "o_Mask (sv_opts (px_server px))"
  obtain body where b: "read_body env r ?m = Inr body"
    using assms(1,2) by (cases "read_body env r ?m") (auto simp: serveTerminated_def)
  obtain out0 used0 changed where rw: "rewrite_request env ?m host port r body = (out0, used0, changed)" by (metis prod_cases3)
  obtain out1 used where sg: "sign_request env ?m out0 used0 changed = Inr (out1, used)"
    using assms(1,2) b rw by (cases "sign_request env ?m out0 used0 changed") (auto simp: serveTerminated_def)
  have fw: "forward_terminated env host port r out1 used px = (ans, snt, px')"
    using assms(1) b rw sg by (simp add: serveTerminated_def)
  let ?s = "if used \<noteq> [] then record_event (terminated_event host port r used) (px_server px) else px_server px"
  obtain rr snt1 px1 where rt: "RoundTrip env out1 (px\<lparr>px_server := ?s\<rparr>) = (rr, snt1, px1)" by (metis prod_cases3)
  have "snt = snt1" using fw rt by (auto simp: forward_terminated_def Let_def split: sum.splits option.splits)
  with RoundTrip_sent [OF rt] assms(2) have out: "out = out1" by auto
  have ne: "used \<noteq> []"
  proof
    assume "used = []"
    with sg sign_silent have "used0 = []" "changed \<or> out1 = out0" by blast+
    with rw rewrite_silent have "out1 = unmasked_request host port r" by blast
    with out assms(3) show False by simp
  qed
  have "body = None \<or> body = Some (hr_Body r)" using b by (auto simp: read_body_def split: if_splits)
  moreover obtain m where m: "?m = Some m" using ne rw sg unmasked_uses_nothing by (cases ?m) (simp, metis)
  ultimately have put: "credentials_put m (unmasked_request host port r) (set used0) out0" using rw by (metis rewrite_puts)
  have "out = out0 \<and> set used = set used0 \<or>
      ResignAWS (pe_sig env) (Some m) out0 = Inr (True, out) \<and> set used = set used0 \<union> {''AWS SigV4''}"
    using sign_cases [of env m out0 used0 changed out1 used] sg m out by auto
  moreover have "sv_sink (px_server px1) = sv_sink (px_server px) @ [terminated_event host port r used]"
    using RoundTrip_sink [of env out1 "px\<lparr>px_server := ?s\<rparr>"] rt ne assms(4)
    by (simp add: record_event_def terminated_event_def Let_def)
  moreover obtain rest where "sv_sink (px_server px') = sv_sink (px_server px1) @ rest"
    using fw rt by (auto simp: forward_terminated_def record_event_def Let_def split: sum.splits option.splits if_splits)
  ultimately show ?thesis using ne m put
    by (intro exI [of _ m] exI [of _ "set used0"] exI [of _ out0] exI [of _ used] exI [of _ rest]) simp
qed

text \<open>Where a terminated tunnel dials.\<close>

lemma url_split_plain:
  assumes "set host \<inter> set '':[]'' = {}"
  shows "url_split host = (host, [])"
proof -
  have "LastIndexByte host (CHR '':'') = None" using assms by (simp add: LastIndexByte_None)
  then show ?thesis using assms by (cases host) (auto simp: url_split_def HasPrefix_def)
qed

lemma url_split_port:
  assumes "set host \<inter> set '':[]'' = {}" and "list_all is_digit port"
  shows "url_split (host @ CHR '':'' # port) = (host, port)"
proof -
  have "CHR '':'' \<notin> set port" using assms(2) digit_not by (auto simp: list_all_iff)
  then have "LastIndexByte (host @ CHR '':'' # port) (CHR '':'') = Some (length host)" by (rule LastIndexByte_app)
  then show ?thesis using assms by (cases host) (auto simp: url_split_def HasPrefix_def)
qed

text \<open>What is decided is what is dialled: for a name or an IPv4 literal the transport of a terminated tunnel decides
  and dials exactly the host and port of the CONNECT, whether or not the port is the default one.\<close>

theorem terminated_tunnel_dials_its_host:
  assumes "set host \<inter> set '':[]'' = {}" and "idna host = host" and "1 \<le> port" and "port \<le> 65535"
  shows "hostPort (canonicalAddr idna ''https'' (terminated_url host port)) 80 = (host, port)"
proof -
  have colon: "CHR '':'' \<notin> set host" using assms(1) by auto
  have digits: "list_all is_digit (itoa port)" using nat_digits_digits assms(3) by (simp add: itoa_def)
  have ports: "itoa port \<noteq> []" using nat_digits_not_Nil assms(3) by (simp add: itoa_def)
  have "itoa 443 = ''443''" by code_simp
  then have "canonicalAddr idna ''https'' (terminated_url host port) = JoinHostPort host (itoa port)"
    using url_split_plain [OF assms(1)] url_split_port [OF assms(1) digits] assms(2) colon ports
    by (auto simp: canonicalAddr_def terminated_url_def JoinHostPort_def)
  moreover have "SplitHostPort (JoinHostPort host (itoa port)) = Some (host, itoa port)"
    using assms(1) digits digit_not by (intro SplitHostPort_Join) (auto simp: list_all_iff)
  moreover have "Atoi (itoa port) = Some port" using assms(3,4) by (intro Atoi_itoa) auto
  ultimately show ?thesis using assms(3,4) by (simp add: hostPort_def)
qed

text \<open>An IPv6 literal on port 443 is put into the URL without its brackets, and the transport reads its last
  group as a port: the tunnel decides and dials something else than its CONNECT asked for.\<close>

lemma terminated_ipv6_literal_misdialled:
  "hostPort ''[2606:4700::1111]:443'' 443 = (''2606:4700::1111'', 443) \<and>
   hostPort (canonicalAddr id ''https'' (terminated_url ''2606:4700::1111'' 443)) 80 = (''2606:4700:'', 1111)"
  by code_simp

section \<open>Concrete runs\<close>

definition demo_response :: upstream_response where
  "demo_response = \<lparr>up_Status = 200, up_Header = [(''Keep-Alive'', [''5'']), (''X-A'', [''1''])],
     up_Reads = [(''ab'', None), (''c'', Some ReadEOF)]\<rparr>"

definition proxy_env0 :: proxy_env where
  "proxy_env0 = \<lparr>pe_net = demo_net, pe_dial = demo_net, pe_idna = id, pe_live = (\<lambda>_. True), pe_pick = Some 0,
     pe_keep = True, pe_exchange = (\<lambda>_ _. Inr demo_response), pe_write = (\<lambda>_. True), pe_hijacker = True,
     pe_hijack = Some ''hello'', pe_early = True, pe_established = True, pe_mint = None, pe_mint_at = 0,
     pe_body = True, pe_order = demo_order, pe_sig = demo_sig\<rparr>"

definition demo_request :: "string \<Rightarrow> http_header \<Rightarrow> http_request" where
  "demo_request meth h = \<lparr>hr_Method = meth, hr_Scheme = ''http'', hr_URLHost = ''a.example.com'', hr_Path = ''/'',
     hr_RawQuery = [], hr_Host = ''a.example.com:443'',
     hr_Header = (''Proxy-Authorization'', [''Basic c2FuZGJveDp0b2s='']) # h, hr_ContentLength = 0, hr_Body = []\<rparr>"

definition demo_proxy :: proxy where
  "demo_proxy = \<lparr>px_server = demo_server, px_idle = []\<rparr>"

lemma canon_proxy_auth: "CanonicalHeaderKey ''Proxy-Authorization'' = ''Proxy-Authorization''"
  by code_simp

lemma demo_authorized: "sv_token s = ''tok'' \<Longrightarrow> authorized (Header_Get ''Proxy-Authorization'' (hr_Header (demo_request m h))) s"
proof -
  assume t: "sv_token s = ''tok''"
  have "b64_encode ''sandbox:tok'' = ''c2FuZGJveDp0b2s=''" by (simp add: b64_quad_def b64_char_def) code_simp
  then have "b64_decode ''c2FuZGJveDp0b2s='' = Some (''sandbox'' @ '':'' @ sv_token s)"
    using b64_roundtrip [of "''sandbox:tok''"] t by (simp del: b64_encode.simps)
  moreover have "TrimSpace ''c2FuZGJveDp0b2s='' = ''c2FuZGJveDp0b2s=''" by code_simp
  ultimately have "authorized (''Basic '' @ ''c2FuZGJveDp0b2s='') s"
    unfolding authorized_iff by (intro exI [of _ "''Basic ''"] exI [of _ "''c2FuZGJveDp0b2s=''"] exI [of _ "''sandbox''"]) (simp add: EqualFold_def)
  moreover have "Header_Get ''Proxy-Authorization'' ((''Proxy-Authorization'', [''Basic c2FuZGJveDp0b2s='']) # h) = ''Basic c2FuZGJveDp0b2s=''"
    by (simp add: Header_Get_def Header_Values_def canon_proxy_auth)
  ultimately show ?thesis by (simp add: demo_request_def)
qed

lemma demo_serve:
  "sv_token (px_server px) = ''tok'' \<Longrightarrow> serveHTTP env inner (demo_request m h) px =
     (if m = ''CONNECT'' then handleConnect env inner (demo_request m h) px else handleForward env (demo_request m h) px)"
  using demo_authorized [of "px_server px" m h] by (simp add: serveHTTP_def demo_request_def)

theorem relayed_body_is_complete_witness:
  "\<exists>pre b post. up_Reads demo_response = pre @ (b, Some ReadEOF) # post \<and> ''abc'' = concat (map fst pre) @ b"
proof -
  have "streamCopy (\<lambda>_. True) 0 (up_Reads demo_response) = (''abc'', StreamDone)" by code_simp
  then show ?thesis using relayed_body_is_complete [of "\<lambda>_. True" 0 "up_Reads demo_response"] by auto
qed

theorem plain_requests_are_vouched_witness:
  "pr_sent (fst (serveHTTP proxy_env0 [] (demo_request ''GET'' []) (run_proxy [Request proxy_env0 [] (demo_request ''GET'' [])] demo_proxy)))
     = [(V4 0x5db8d822, demo_request ''GET'' []\<lparr>hr_Header := []\<rparr>)] \<and>
   (\<exists>n. dialled_in [Request proxy_env0 [] (demo_request ''GET'' []), Request proxy_env0 [] (demo_request ''GET'' [])]
      demo_proxy n (V4 0x5db8d822))"
proof -
  let ?r = "demo_request ''GET'' []" and ?acts = "[Request proxy_env0 [] (demo_request ''GET'' [])]"
  let ?run = "serveHTTP proxy_env0 [] ?r (run_proxy ?acts demo_proxy)"
  let ?px = "snd (handleForward proxy_env0 ?r demo_proxy)"
  have "sv_token (px_server demo_proxy) = ''tok''" "sv_token (px_server ?px) = ''tok''" by (code_simp, code_simp)
  then have "?run = handleForward proxy_env0 ?r ?px" by (simp add: run_proxy_def demo_serve)
  moreover have "pr_sent (fst (handleForward proxy_env0 ?r ?px)) = [(V4 0x5db8d822, ?r\<lparr>hr_Header := []\<rparr>)]" by code_simp
  ultimately have snt: "pr_sent (fst ?run) = [(V4 0x5db8d822, ?r\<lparr>hr_Header := []\<rparr>)]" by simp
  have "px_idle demo_proxy = []" "hr_Method ?r \<noteq> ''CONNECT''" by (simp_all add: demo_proxy_def demo_request_def)
  moreover have "?run = (fst ?run, snd ?run)" by simp
  ultimately show ?thesis using plain_requests_are_vouched snt by fastforce
qed

theorem connect_needs_everything_witness:
  "pr_answer (fst (serveHTTP proxy_env0 [] (demo_request ''CONNECT'' []) demo_proxy)) = Tunnelled (V4 0x5db8d822) ''hello'' \<and>
   authorized (Header_Get ''Proxy-Authorization'' (hr_Header (demo_request ''CONNECT'' []))) (px_server demo_proxy)"
proof -
  let ?run = "serveHTTP proxy_env0 [] (demo_request ''CONNECT'' []) demo_proxy"
  have "sv_token (px_server demo_proxy) = ''tok''" by code_simp
  then have "?run = handleConnect proxy_env0 [] (demo_request ''CONNECT'' []) demo_proxy" by (simp add: demo_serve)
  moreover have "pr_answer (fst (handleConnect proxy_env0 [] (demo_request ''CONNECT'' []) demo_proxy)) = Tunnelled (V4 0x5db8d822) ''hello''"
    by code_simp
  ultimately have t: "pr_answer (fst ?run) = Tunnelled (V4 0x5db8d822) ''hello''" by simp
  have "?run = (fst ?run, snd ?run)" by simp
  with connect_needs_everything [OF this t] t show ?thesis by (metis surj_pair)
qed

definition masking_proxy :: proxy where
  "masking_proxy = demo_proxy\<lparr>px_server := demo_server\<lparr>sv_opts := demo_options\<lparr>o_Mask := Some demo_masker\<rparr>\<rparr>\<rparr>"

theorem no_masked_credential_in_clear_witness:
  "\<exists>out. pr_sent (fst (handleForward proxy_env0 (demo_request ''GET'' [(''X-B'', [''2''])]) masking_proxy)) = [(V4 0x5db8d822, out)] \<and>
     \<not> carriesSentinel out"
proof -
  let ?r = "demo_request ''GET'' [(''X-B'', [''2''])]"
  let ?run = "handleForward proxy_env0 ?r masking_proxy"
  have snt: "pr_sent (fst ?run) = [(V4 0x5db8d822, ?r\<lparr>hr_Header := [(''X-B'', [''2''])]\<rparr>)]" by code_simp
  have "\<not> mk_allowPlaintext demo_masker" "o_Mask (sv_opts (px_server masking_proxy)) = Some demo_masker"
    by (code_simp, simp add: masking_proxy_def)
  moreover have "?run = (fst ?run, snd ?run)" by simp
  ultimately show ?thesis using no_masked_credential_in_clear snt by fastforce
qed

definition sentinel_request :: http_request where
  "sentinel_request = demo_request ''GET'' [(''X-Api-Key'', [SentinelPrefix @ demo_uuid (CHR ''1'')])]"

theorem terminated_credentials_are_recorded_witness:
  "\<exists>used rest. used \<noteq> [] \<and> sv_sink (px_server (snd (snd (serveTerminated proxy_env0 ''a.example.com'' 443 sentinel_request masking_proxy))))
     = terminated_event ''a.example.com'' 443 sentinel_request used # rest"
proof -
  let ?run = "serveTerminated proxy_env0 ''a.example.com'' 443 sentinel_request masking_proxy"
  have "map (\<lambda>(a, out). (a, Header_Get ''X-Api-Key'' (hr_Header out))) (fst (snd ?run)) = [(V4 0x5db8d822, ''sk-123456'')]" by code_simp
  then obtain out where out: "(V4 0x5db8d822, out) \<in> set (fst (snd ?run))" "Header_Get ''X-Api-Key'' (hr_Header out) = ''sk-123456''"
    by (cases "fst (snd ?run)") auto
  have "Header_Get ''X-Api-Key'' (hr_Header (unmasked_request ''a.example.com'' 443 sentinel_request)) \<noteq> ''sk-123456''" by code_simp
  with out(2) have "out \<noteq> unmasked_request ''a.example.com'' 443 sentinel_request" by auto
  moreover have "sv_sink (px_server masking_proxy) = []" "o_Sink (sv_opts (px_server masking_proxy))" by (code_simp, code_simp)
  moreover have "?run = (fst ?run, fst (snd ?run), snd (snd ?run))" by simp
  ultimately show ?thesis using terminated_credentials_are_recorded out(1) by (metis append_Nil)
qed

theorem terminated_tunnel_dials_its_host_witness:
  "hostPort (canonicalAddr id ''https'' (terminated_url ''a.example.com'' 8443)) 80 = (''a.example.com'', 8443)"
  by (rule terminated_tunnel_dials_its_host) auto

text \<open>Two gaps. With plaintext allowed the plain-HTTP path puts a credential on a request without an entry in the trail.
  A pooled connection is used on after a new policy denies the range of its address.\<close>

lemma plaintext_substitution_is_unrecorded:
  "let px = masking_proxy\<lparr>px_server := (px_server masking_proxy)\<lparr>sv_opts := demo_options\<lparr>o_Mask := Some (SetAllowPlaintext True demo_masker)\<rparr>\<rparr>\<rparr>;
       run = handleForward proxy_env0 sentinel_request px
   in map (\<lambda>(a, out). Header_Get ''X-Api-Key'' (hr_Header out)) (pr_sent (fst run)) = [''sk-123456''] \<and>
      sv_sink (px_server (snd run)) = []"
  by code_simp

definition denying_policy :: compiled where
  "denying_policy = demo_compiled\<lparr>c_deniedAddrs := \<lparr>cr_raw = ''93.184.0.0/16'', cr_prefix = \<lparr>pf_addr = V4 0x5db80000, pf_bits = 16\<rparr>\<rparr> # c_deniedAddrs demo_compiled\<rparr>"

lemma pooled_connection_outlives_policy:
  "let px1 = snd (handleForward proxy_env0 (demo_request ''GET'' []) demo_proxy);
       px2 = px1\<lparr>px_server := snd (UpdatePolicy (Some denying_policy) (px_server px1))\<rparr>
   in DeniedAddressReason (d_policy (sv_dialer (px_server px2))) (V4 0x5db8d822) \<noteq> None \<and>
      map fst (pr_sent (fst (handleForward proxy_env0 (demo_request ''GET'' []) px2))) = [V4 0x5db8d822]"
  by code_simp

end
