(* ===== verification/Keyed_Repo.thy ===== *)
theory Keyed_Repo
  imports Go_Prelude
begin

text \<open>
  The contract the in-memory repositories share (\<^verbatim>\<open>src/pkg/sandpod/repo.go\<close>): a record is filed under its
  key, adding a key twice is refused, and an operation on one key leaves the others alone. The
  locale states it; the sandbox, job and token repositories are its interpretations.
\<close>

locale keyed_repo =
  fixes add :: "'v \<Rightarrow> 's \<Rightarrow> 's option"
    and lookup :: "'k \<Rightarrow> 's \<Rightarrow> 'v option"
    and key :: "'v \<Rightarrow> 'k"
  assumes add_fresh: "lookup (key v) s = None \<Longrightarrow>
      \<exists>s'. add v s = Some s' \<and> (\<forall>k. lookup k s' = (if k = key v then Some v else lookup k s))"
    and add_taken: "lookup (key v) s \<noteq> None \<Longrightarrow> add v s = None"
begin

lemma add_Some_iff: "(\<exists>s'. add v s = Some s') \<longleftrightarrow> lookup (key v) s = None"
  using add_fresh add_taken by (metis option.distinct(1))

lemma add_lookup: "add v s = Some s' \<Longrightarrow> lookup k s' = (if k = key v then Some v else lookup k s)"
  using add_fresh [of v s] add_taken [of v s] by fastforce

lemma add_once: "add v s = Some s' \<Longrightarrow> key w = key v \<Longrightarrow> add w s' = None"
  using add_lookup add_taken by (metis option.distinct(1))

text \<open>Adding a list of records one after the other, skipping the refused ones.\<close>

primrec add_all :: "'v list \<Rightarrow> 's \<Rightarrow> 's" where
  "add_all [] s = s"
| "add_all (v # vs) s = add_all vs (case add v s of Some s' \<Rightarrow> s' | None \<Rightarrow> s)"

lemma add_all_first_wins:
  "lookup k (add_all vs s) =
     (case lookup k s of Some v \<Rightarrow> Some v | None \<Rightarrow> List.find (\<lambda>v. key v = k) vs)"
proof (induction vs arbitrary: s)
  case (Cons v vs)
  show ?case
  proof (cases "add v s")
    case None
    then have "lookup (key v) s \<noteq> None" using add_Some_iff [of v s] by auto
    with None Cons.IH [of s] show ?thesis by (auto split: option.split)
  next
    case (Some s')
    then have "lookup (key v) s = None" using add_Some_iff [of v s] by auto
    with Some Cons.IH [of s'] show ?thesis by (auto simp: add_lookup [OF Some] split: option.split)
  qed
qed (simp split: option.split)

end

end
