(* ===== verification/Job_Store.thy ===== *)
theory Job_Store
  imports Keyed_Repo "HOL-Library.Multiset"
begin

text \<open>
  The job queue, \<^verbatim>\<open>src/pkg/sandpod/job_store.go\<close> with the records of \<^verbatim>\<open>job.go\<close>. The code keeps one pointer
  per job both in the map and in the queue; the queue is therefore a list of ids here and the map
  holds the records. Every method holds the lock and is one step; the clock is read once per step.

  Shown here: the in-place insertion sort of the queue is the stable sort by creation time; the
  queue always lists every job once, in creation order; a poll returns exactly the first pending
  (or timed-out) jobs and hands out no job twice within the timeout.
\<close>

section \<open>Data\<close>

datatype job_type = CreateSandbox | StartSandbox | StopSandbox | DeleteSandbox | ExecuteCommand

datatype job_status = JobPending | JobInProgress | JobCompleted | JobFailed

record job_result =
  jr_SandboxID :: string
  jr_IP :: string
  jr_ProxyURL :: string
  jr_Output :: string
  jr_ExitCode :: int

record job =
  j_ID :: string
  j_Type :: job_type
  j_Status :: job_status
  j_SandboxName :: string
  j_SandboxID :: string
  j_Region :: string
  j_ProviderType :: string
  j_PoderID :: string
  j_PoderURL :: string
  j_VmID :: string
  j_InstanceType :: string
  j_ImageID :: string
  j_Command :: string
  j_Language :: string
  j_Result :: "job_result option"
  j_ErrorMessage :: string
  j_Request :: string
  j_Owner :: string
  j_TraceContext :: "string \<Rightarrow> string option"
  j_CreatedAt :: gotime
  j_UpdatedAt :: gotime

record job_store =
  js_jobs :: "string \<Rightarrow> job option"
  js_queue :: "string list"
  js_jobTimeout :: duration

section \<open>Operations\<close>

definition NewJobStore :: job_store where
  "NewJobStore = \<lparr>js_jobs = (\<lambda>_. None), js_queue = [], js_jobTimeout = 5 * minute\<rparr>"

definition SetJobTimeout :: "duration \<Rightarrow> job_store \<Rightarrow> job_store" where
  "SetJobTimeout t s = s\<lparr>js_jobTimeout := t\<rparr>"

definition created :: "(string \<Rightarrow> job option) \<Rightarrow> string \<Rightarrow> gotime" where
  "created m i = (case m i of Some j \<Rightarrow> j_CreatedAt j | None \<Rightarrow> 0)"

text \<open>The inner loop of \<^verbatim>\<open>sortQueue\<close>: swap the element at \<open>j\<close> to the left while it is strictly older than
  its left neighbour.\<close>

fun sift :: "('a \<Rightarrow> int) \<Rightarrow> 'a list \<Rightarrow> nat \<Rightarrow> 'a list" where
  "sift f q 0 = q"
| "sift f q (Suc j) =
     (if f (q ! Suc j) < f (q ! j) then sift f (q[Suc j := q ! j, j := q ! Suc j]) j else q)"

definition sortQueue :: "('a \<Rightarrow> int) \<Rightarrow> 'a list \<Rightarrow> 'a list" where
  "sortQueue f q = foldl (sift f) q [1..<length q]"

definition AddJob :: "job \<Rightarrow> job_store \<Rightarrow> job_store option" where
  "AddJob j s =
     (case js_jobs s (j_ID j) of
        Some _ \<Rightarrow> None
      | None \<Rightarrow>
          let m = (js_jobs s)(j_ID j \<mapsto> j)
          in Some (s\<lparr>js_jobs := m, js_queue := sortQueue (created m) (js_queue s @ [j_ID j])\<rparr>))"

definition GetJob :: "string \<Rightarrow> job_store \<Rightarrow> job option" where
  "GetJob i s = js_jobs s i"

definition UpdateJob :: "gotime \<Rightarrow> string \<Rightarrow> (job \<Rightarrow> job) \<Rightarrow> job_store \<Rightarrow> job_store option" where
  "UpdateJob now i updateFn s =
     (case js_jobs s i of
        None \<Rightarrow> None
      | Some j \<Rightarrow> Some (s\<lparr>js_jobs := (js_jobs s)(i \<mapsto> (updateFn j)\<lparr>j_UpdatedAt := now\<rparr>)\<rparr>))"

definition reset_job :: "gotime \<Rightarrow> duration \<Rightarrow> job \<Rightarrow> job" where
  "reset_job now timeout j =
     (if j_Status j = JobInProgress \<and> now - j_UpdatedAt j > timeout
      then j\<lparr>j_Status := JobPending, j_UpdatedAt := now\<rparr> else j)"

fun collect_pending :: "(string \<Rightarrow> job option) \<Rightarrow> int \<Rightarrow> string list \<Rightarrow> string list \<Rightarrow> string list" where
  "collect_pending m limit [] pending = pending"
| "collect_pending m limit (i # q) pending =
     (if map_option j_Status (m i) = Some JobPending then
        (if int (length (pending @ [i])) \<ge> limit then pending @ [i]
         else collect_pending m limit q (pending @ [i]))
      else collect_pending m limit q pending)"

definition claim_job :: "gotime \<Rightarrow> job \<Rightarrow> job" where
  "claim_job now j = j\<lparr>j_Status := JobInProgress, j_UpdatedAt := now\<rparr>"

definition reset_all :: "gotime \<Rightarrow> job_store \<Rightarrow> (string \<Rightarrow> job option)" where
  "reset_all now s = (\<lambda>i. map_option (reset_job now (js_jobTimeout s)) (js_jobs s i))"

text \<open>\<^verbatim>\<open>PollJobs\<close> returns pointers; the model returns the ids, whose records are in the store.\<close>

definition PollJobs :: "gotime \<Rightarrow> int \<Rightarrow> job_store \<Rightarrow> string list \<times> job_store" where
  "PollJobs now limit s =
     (let m1 = reset_all now s;
          pending = collect_pending m1 limit (js_queue s) [];
          m2 = (\<lambda>i. if i \<in> set pending then map_option (claim_job now) (m1 i) else m1 i)
      in (pending, s\<lparr>js_jobs := m2\<rparr>))"

definition ListJobs :: "string list \<Rightarrow> job_store \<Rightarrow> job list" where
  "ListJobs ord s = List.map_filter (js_jobs s) ord"

section \<open>The insertion sort\<close>

lemma sift_inserts:
  "sorted (map f xs) \<Longrightarrow>
   sift f (xs @ x # zs) (length xs) = takeWhile (\<lambda>y. f y \<le> f x) xs @ x # dropWhile (\<lambda>y. f y \<le> f x) xs @ zs"
proof (induction xs arbitrary: zs rule: rev_induct)
  case (snoc y xs)
  have q: "((xs @ [y]) @ x # zs) ! Suc (length xs) = x" "((xs @ [y]) @ x # zs) ! length xs = y"
    by (simp_all add: nth_append)
  have sw: "((xs @ [y]) @ x # zs)[Suc (length xs) := y, length xs := x] = xs @ x # y # zs"
    by (simp add: list_update_append)
  show ?case
  proof (cases "f x < f y")
    case True
    have "sift f ((xs @ [y]) @ x # zs) (length (xs @ [y])) = sift f (xs @ x # y # zs) (length xs)"
      using True q sw by simp
    also have "\<dots> = takeWhile (\<lambda>y. f y \<le> f x) xs @ x # dropWhile (\<lambda>y. f y \<le> f x) xs @ y # zs"
      using snoc.prems by (intro snoc.IH) (simp add: sorted_append)
    finally show ?thesis using True by (simp add: takeWhile_tail dropWhile_append3 dropWhile_append takeWhile_append)
  next
    case False
    with snoc.prems have "\<forall>z \<in> set (xs @ [y]). f z \<le> f x" by (auto simp: sorted_append)
    then have "takeWhile (\<lambda>y. f y \<le> f x) (xs @ [y]) = xs @ [y]" "dropWhile (\<lambda>y. f y \<le> f x) (xs @ [y]) = []"
      by (simp_all add: takeWhile_eq_all_conv)
    then show ?thesis using False q by (simp del: takeWhile_append dropWhile_append)
  qed
qed simp

definition insert_right :: "('a \<Rightarrow> int) \<Rightarrow> 'a list \<Rightarrow> 'a \<Rightarrow> 'a list" where
  "insert_right f xs x = takeWhile (\<lambda>y. f y \<le> f x) xs @ x # dropWhile (\<lambda>y. f y \<le> f x) xs"

lemma insert_right_sorted:
  assumes "sorted (map f xs)"
  shows "sorted (map f (insert_right f xs x))"
  using assms
proof (induction xs)
  case (Cons y ys)
  then show ?case
    by (auto simp: insert_right_def dest: set_takeWhileD set_dropWhileD)
qed (simp add: insert_right_def)

lemma insert_right_mset: "mset (insert_right f xs x) = add_mset x (mset xs)"
  by (induction xs) (auto simp: insert_right_def)

lemma insert_right_filter:
  assumes "sorted (map f xs)"
  shows "filter (\<lambda>y. f y = k) (insert_right f xs x) = filter (\<lambda>y. f y = k) (xs @ [x])"
  using assms
proof (induction xs)
  case (Cons y ys)
  show ?case
  proof (cases "f y \<le> f x")
    case True
    with Cons show ?thesis by (simp add: insert_right_def)
  next
    case False
    then have "\<forall>z \<in> set (y # ys). f x < f z" using Cons.prems by fastforce
    then have "f x = k \<Longrightarrow> filter (\<lambda>z. f z = k) (y # ys) = []" by (auto simp: filter_empty_conv)
    then show ?thesis using False by (auto simp: insert_right_def)
  qed
qed (simp add: insert_right_def)

lemma sort_prefix:
  assumes "n \<le> length q" and "1 \<le> n"
  shows "foldl (sift f) q [1..<n] = sort_key f (take n q) @ drop n q"
  using assms(2,1)
proof (induction n rule: dec_induct)
  case base
  then show ?case by (cases q) auto
next
  case (step n)
  let ?S = "sort_key f (take n q)" and ?x = "q ! n"
  have nl: "n < length q" using step.prems by simp
  have d: "drop n q = ?x # drop (Suc n) q" using nl by (simp add: Cons_nth_drop_Suc)
  have "foldl (sift f) q [1..<Suc n] = sift f (foldl (sift f) q [1..<n]) n" using step.hyps by simp
  also have "\<dots> = sift f (?S @ ?x # drop (Suc n) q) n" using step.IH nl d by simp
  also have "\<dots> = sift f (?S @ ?x # drop (Suc n) q) (length ?S)" using nl by simp
  also have "\<dots> = insert_right f ?S ?x @ drop (Suc n) q" by (subst sift_inserts) (simp_all add: insert_right_def)
  also have "insert_right f ?S ?x = sort_key f (take (Suc n) q)"
  proof (rule sym, rule properties_for_sort_key)
    show "mset (insert_right f ?S ?x) = mset (take (Suc n) q)"
      using nl by (simp add: insert_right_mset take_Suc_conv_app_nth)
    show "filter (\<lambda>y. f k = f y) (insert_right f ?S ?x) = filter (\<lambda>y. f k = f y) (take (Suc n) q)"
      if "k \<in> set (insert_right f ?S ?x)" for k
      using insert_right_filter [of f ?S "f k" ?x] sort_key_stable [of f "f k" "take n q"] nl
      by (simp add: take_Suc_conv_app_nth eq_commute [of "f k"])
    show "sorted (map f (insert_right f ?S ?x))" by (intro insert_right_sorted) simp
  qed
  finally show ?case .
qed

lemma sortQueue_is_sort_key: "sortQueue f q = sort_key f q"
proof (cases "q = []")
  case False
  then show ?thesis using sort_prefix [of "length q" q f] by (simp add: sortQueue_def Suc_leI)
qed (simp add: sortQueue_def)

section \<open>The queue\<close>

definition job_store_wf :: "job_store \<Rightarrow> bool" where
  "job_store_wf s \<longleftrightarrow> distinct (js_queue s) \<and> set (js_queue s) = dom (js_jobs s) \<and>
     sorted (map (created (js_jobs s)) (js_queue s))"

lemma NewJobStore_wf: "job_store_wf NewJobStore"
  by (simp add: job_store_wf_def NewJobStore_def)

lemma AddJob_wf: "job_store_wf s \<Longrightarrow> AddJob j s = Some s' \<Longrightarrow> job_store_wf s'"
  by (auto simp: AddJob_def job_store_wf_def Let_def sortQueue_is_sort_key domIff split: option.splits)

lemma created_cong: "(\<And>i. map_option j_CreatedAt (m i) = map_option j_CreatedAt (m' i)) \<Longrightarrow> created m = created m'"
proof
  fix i assume "\<And>i. map_option j_CreatedAt (m i) = map_option j_CreatedAt (m' i)"
  from this [of i] show "created m i = created m' i" by (cases "m i"; cases "m' i") (auto simp: created_def)
qed

lemma UpdateJob_wf:
  assumes "job_store_wf s" and "UpdateJob now i fn s = Some s'" and "\<And>j. j_CreatedAt (fn j) = j_CreatedAt j"
  shows "job_store_wf s'"
proof -
  obtain j where j: "js_jobs s i = Some j" "s' = s\<lparr>js_jobs := (js_jobs s)(i \<mapsto> (fn j)\<lparr>j_UpdatedAt := now\<rparr>)\<rparr>"
    using assms(2) by (auto simp: UpdateJob_def split: option.splits)
  then have "created (js_jobs s') = created (js_jobs s)" using assms(3) by (intro created_cong) simp
  with assms(1) j show ?thesis by (auto simp: job_store_wf_def)
qed

lemma reset_job_created [simp]: "j_CreatedAt (reset_job now t j) = j_CreatedAt j"
  by (simp add: reset_job_def)

lemma PollJobs_jobs:
  "js_jobs (snd (PollJobs now limit s)) i =
     map_option (\<lambda>j. if i \<in> set (fst (PollJobs now limit s)) then claim_job now (reset_job now (js_jobTimeout s) j)
                      else reset_job now (js_jobTimeout s) j) (js_jobs s i)"
  by (simp add: PollJobs_def Let_def reset_all_def option.map_comp o_def)

lemma PollJobs_wf:
  assumes "job_store_wf s"
  shows "job_store_wf (snd (PollJobs now limit s))"
proof -
  have "created (js_jobs (snd (PollJobs now limit s))) = created (js_jobs s)"
    by (intro created_cong) (auto simp: PollJobs_jobs option.map_comp o_def claim_job_def intro!: option.map_cong)
  moreover have "dom (js_jobs (snd (PollJobs now limit s))) = dom (js_jobs s)"
    by (auto simp: dom_def PollJobs_jobs)
  moreover have "js_queue (snd (PollJobs now limit s)) = js_queue s" by (simp add: PollJobs_def Let_def)
  ultimately show ?thesis using assms by (simp add: job_store_wf_def)
qed

definition claimable :: "gotime \<Rightarrow> job_store \<Rightarrow> string \<Rightarrow> bool" where
  "claimable now s i \<longleftrightarrow> (case js_jobs s i of None \<Rightarrow> False
     | Some j \<Rightarrow> j_Status j = JobPending \<or> j_Status j = JobInProgress \<and> now - j_UpdatedAt j > js_jobTimeout s)"

lemma claimable_reset: "map_option j_Status (reset_all now s i) = Some JobPending \<longleftrightarrow> claimable now s i"
  by (cases "js_jobs s i") (auto simp: claimable_def reset_all_def reset_job_def)

lemma collect_pending_take:
  assumes "int (length pending) < max 1 limit"
  shows "collect_pending m limit q pending =
     pending @ take (nat (max 1 limit) - length pending) (filter (\<lambda>i. map_option j_Status (m i) = Some JobPending) q)"
  using assms
proof (induction m limit q pending rule: collect_pending.induct)
  case (2 m limit i q pending)
  show ?case
  proof (cases "map_option j_Status (m i) = Some JobPending")
    case True
    show ?thesis
    proof (cases "int (length (pending @ [i])) \<ge> limit")
      case full: True
      then have "nat (max 1 limit) - length pending = 1" using "2.prems" by simp
      with True full show ?thesis by simp
    next
      case False
      then have "nat (max 1 limit) - length pending = Suc (nat (max 1 limit) - length (pending @ [i]))" by simp
      with "2.IH"(1) [OF True False] True False show ?thesis by simp
    qed
  next
    case False
    then show ?thesis using "2.IH"(2) [OF False "2.prems"] by (simp only: collect_pending.simps filter.simps if_False)
  qed
qed simp

lemma PollJobs_fst:
  "fst (PollJobs now limit s) = take (nat (max 1 limit)) (filter (claimable now s) (js_queue s))"
  using collect_pending_take [of "[]" limit "reset_all now s" "js_queue s", unfolded claimable_reset]
  by (simp add: PollJobs_def Let_def)

interpretation jobs: keyed_repo AddJob GetJob j_ID
  by unfold_locales (auto simp: AddJob_def GetJob_def Let_def split: option.splits)

section \<open>Properties of the queue\<close>

text \<open>Claim C34. The in-place insertion sort of the queue computes the stable sort by creation time: jobs come out
  oldest first and jobs of the same age keep their order.\<close>

theorem sortQueue_stable_sort:
  "sortQueue f q = sort_key f q \<and> sorted (map f (sortQueue f q)) \<and> mset (sortQueue f q) = mset q"
  by (simp add: sortQueue_is_sort_key)

text \<open>The operations as steps; an update is one that leaves the creation time alone.\<close>

inductive job_step :: "job_store \<Rightarrow> job_store \<Rightarrow> bool" where
  "AddJob j s = Some s' \<Longrightarrow> job_step s s'"
| "job_step s (snd (PollJobs now limit s))"
| "job_step s (SetJobTimeout t s)"
| "UpdateJob now i fn s = Some s' \<Longrightarrow> (\<And>j. j_CreatedAt (fn j) = j_CreatedAt j) \<Longrightarrow> job_step s s'"

lemma job_step_wf: "job_step s t \<Longrightarrow> job_store_wf s \<Longrightarrow> job_store_wf t"
proof (induction rule: job_step.induct)
  case (3 s t)
  then show ?case by (simp add: job_store_wf_def SetJobTimeout_def)
qed (auto intro: AddJob_wf PollJobs_wf UpdateJob_wf)

text \<open>Claim C40. The queue and the table agree: starting from an empty store, after any sequence of additions, polls,
  timeout changes and updates that leave the creation time alone, the queue lists every job exactly once
  and in order of creation.\<close>

theorem job_queue_invariant:
  assumes "job_step\<^sup>*\<^sup>* NewJobStore s"
  shows "distinct (js_queue s) \<and> set (js_queue s) = dom (js_jobs s) \<and> sorted (map (created (js_jobs s)) (js_queue s))"
proof -
  from assms have "job_store_wf s"
    by (induction rule: rtranclp_induct) (auto intro: NewJobStore_wf job_step_wf)
  then show ?thesis by (simp add: job_store_wf_def)
qed

definition demo_job :: "string \<Rightarrow> gotime \<Rightarrow> job" where
  "demo_job i t = \<lparr>j_ID = i, j_Type = CreateSandbox, j_Status = JobPending, j_SandboxName = [], j_SandboxID = [],
     j_Region = [], j_ProviderType = [], j_PoderID = [], j_PoderURL = [], j_VmID = [], j_InstanceType = [],
     j_ImageID = [], j_Command = [], j_Language = [], j_Result = None, j_ErrorMessage = [], j_Request = [],
     j_Owner = [], j_TraceContext = Map.empty, j_CreatedAt = t, j_UpdatedAt = t\<rparr>"

definition demo_jobs :: job_store where
  "demo_jobs = the (AddJob (demo_job ''b'' 1) (the (AddJob (demo_job ''a'' 2) NewJobStore)))"

lemma demo_jobs_reachable: "job_step\<^sup>*\<^sup>* NewJobStore demo_jobs"
proof -
  obtain s1 where s1: "AddJob (demo_job ''a'' 2) NewJobStore = Some s1"
    using jobs.add_Some_iff [of "demo_job ''a'' 2" NewJobStore] by (auto simp: GetJob_def NewJobStore_def)
  moreover have "GetJob ''b'' s1 = None"
    using jobs.add_lookup [OF s1, of "''b''"] by (simp add: demo_job_def GetJob_def NewJobStore_def)
  then obtain s2 where s2: "AddJob (demo_job ''b'' 1) s1 = Some s2"
    using jobs.add_Some_iff [of "demo_job ''b'' 1" s1] by (auto simp: demo_job_def)
  ultimately have "demo_jobs = s2" by (simp add: demo_jobs_def)
  then show ?thesis
    using s1 s2 by (meson job_step.intros(1) rtranclp.rtrancl_into_rtrancl rtranclp.rtrancl_refl)
qed

theorem job_queue_invariant_witness: "distinct (js_queue demo_jobs) \<and> js_queue demo_jobs = [''b'', ''a'']"
proof
  show "distinct (js_queue demo_jobs)" using job_queue_invariant [OF demo_jobs_reachable] by blast
  show "js_queue demo_jobs = [''b'', ''a'']" by code_simp
qed

text \<open>What a poll claims: exactly the first jobs of the queue that are pending or whose claim timed out, at
  most \<open>limit\<close> of them but at least one if there is one, and each of them is in progress from now on;
  every other job keeps its record, except that a timed-out claim is back to pending.\<close>

theorem PollJobs_claims:
  "case PollJobs now limit s of (ids, s') \<Rightarrow>
     ids = take (nat (max 1 limit)) (filter (claimable now s) (js_queue s)) \<and> js_queue s' = js_queue s \<and>
     (\<forall>i. js_jobs s' i = map_option (\<lambda>j. if i \<in> set ids then j\<lparr>j_Status := JobInProgress, j_UpdatedAt := now\<rparr>
                                          else reset_job now (js_jobTimeout s) j) (js_jobs s i))"
proof -
  have "claim_job now (reset_job now t j) = j\<lparr>j_Status := JobInProgress, j_UpdatedAt := now\<rparr>" for t j
    by (simp add: claim_job_def reset_job_def)
  moreover have "js_queue (snd (PollJobs now limit s)) = js_queue s" by (simp add: PollJobs_def Let_def)
  ultimately show ?thesis
    unfolding case_prod_beta PollJobs_jobs PollJobs_fst by (simp cong: if_cong)
qed

text \<open>No job is handed out twice: two polls no further apart than the job timeout return disjoint jobs.\<close>

theorem PollJobs_exclusive:
  assumes "PollJobs now limit s = (ids, s')" and "now' - now \<le> js_jobTimeout s"
  shows "set ids \<inter> set (fst (PollJobs now' limit' s')) = {}"
proof -
  have "\<not> claimable now' s' i" if i: "i \<in> set ids" for i
  proof -
    have "js_jobTimeout s' = js_jobTimeout s" using assms(1) by (auto simp: PollJobs_def Let_def)
    moreover have "js_jobs s' i = map_option (\<lambda>j. claim_job now (reset_job now (js_jobTimeout s) j)) (js_jobs s i)"
      using PollJobs_jobs [of now limit s i] assms(1) i by simp
    ultimately show ?thesis using assms(2) by (auto simp: claimable_def claim_job_def split: option.splits)
  qed
  then show ?thesis by (auto simp: PollJobs_fst dest: in_set_takeD)
qed

theorem PollJobs_exclusive_witness:
  "set (fst (PollJobs 10 1 demo_jobs)) \<inter> set (fst (PollJobs 20 5 (snd (PollJobs 10 1 demo_jobs)))) = {}"
  by (rule PollJobs_exclusive [OF prod.collapse [symmetric]]) (code_simp)

text \<open>A limit of zero still claims a job: polling a store with one pending job for no jobs returns that
  job and marks it in progress.\<close>

theorem PollJobs_limit_zero:
  "let s = the (AddJob (demo_job ''a'' 2) NewJobStore)
   in fst (PollJobs 5 0 s) = [''a''] \<and> map_option j_Status (js_jobs (snd (PollJobs 5 0 s)) ''a'') = Some JobInProgress"
  by code_simp

end
