(* ===== verification/Poder_Store.thy ===== *)
theory Poder_Store
  imports Complex_Main Go_Prelude
begin

text \<open>
  The registry of worker nodes, \<^verbatim>\<open>src/pkg/sandpod/poder_store.go\<close>. The state is the Go map from ids to
  records; every method holds the lock, so each is one step. Ranging over a Go map visits its keys
  in an order the language leaves open: the operations that do so take the order as an argument, a
  list with each key once (\<open>iteration_order\<close>). Load figures are \<^verbatim>\<open>float64\<close> in the code and rational
  numbers here, so scores are exact.

  Shown here: selection returns a worker that is online, has room, matches region and provider, is
  not another tenant's and has every required capability; it finds one whenever one exists; and no
  eligible worker has a better score than the one returned, whatever the iteration order is.
\<close>

section \<open>Data\<close>

datatype poder_state = PoderOnline | PoderOffline

record poder_resources =
  pr_CPUCores :: int
  pr_MemoryBytes :: int
  pr_MaxContainers :: int
  pr_Arch :: string
  pr_OS :: string
  pr_OSVersion :: string
  pr_KernelVersion :: string

record poder_usage =
  pu_Containers :: int
  pu_CPUUsage :: rat
  pu_MemoryUsage :: rat

record poder_info =
  po_ID :: string
  po_Name :: string
  po_URL :: string
  po_Region :: string
  po_ProviderType :: string
  po_VMID :: string
  po_State :: poder_state
  po_Resources :: poder_resources
  po_Capabilities :: "string list"
  po_Workspace :: string
  po_Usage :: poder_usage
  po_LastHeartbeat :: gotime
  po_CreatedAt :: gotime

record register_request =
  rr_ID :: string
  rr_Name :: string
  rr_URL :: string
  rr_Region :: string
  rr_ProviderType :: string
  rr_VMID :: string
  rr_Resources :: poder_resources
  rr_Capabilities :: "string list"
  rr_Workspace :: string

record heartbeat_request =
  hb_Containers :: int
  hb_CPUUsage :: rat
  hb_MemoryUsage :: rat
  hb_ContainerNames :: "string list"

type_synonym poder_store = "string \<Rightarrow> poder_info option"

definition CapabilityEgress :: string where "CapabilityEgress = ''egress''"

definition NewPoderStore :: poder_store where "NewPoderStore = (\<lambda>_. None)"

section \<open>Operations\<close>

definition HasCapability :: "poder_info \<Rightarrow> string \<Rightarrow> bool" where
  "HasCapability p name = (if name = [] then True else list_ex (\<lambda>c. c = name) (po_Capabilities p))"

definition Register :: "gotime \<Rightarrow> register_request \<Rightarrow> poder_store \<Rightarrow> poder_info \<times> poder_store" where
  "Register now req s =
     (case s (rr_ID req) of
        Some existing \<Rightarrow>
          let p = existing\<lparr>po_URL := rr_URL req, po_Region := rr_Region req, po_VMID := rr_VMID req,
                           po_Resources := rr_Resources req, po_Capabilities := rr_Capabilities req,
                           po_LastHeartbeat := now, po_State := PoderOnline\<rparr>
          in (p, s(rr_ID req \<mapsto> p))
      | None \<Rightarrow>
          let p = \<lparr>po_ID = rr_ID req, po_Name = rr_Name req, po_URL = rr_URL req, po_Region = rr_Region req,
                   po_ProviderType = rr_ProviderType req, po_VMID = rr_VMID req, po_State = PoderOnline,
                   po_Resources = rr_Resources req, po_Capabilities = [], po_Workspace = [],
                   po_Usage = \<lparr>pu_Containers = 0, pu_CPUUsage = 0, pu_MemoryUsage = 0\<rparr>,
                   po_LastHeartbeat = now, po_CreatedAt = now\<rparr>
          in (p, s(rr_ID req \<mapsto> p)))"

text \<open>\<open>False\<close> is the error "not found".\<close>

definition Heartbeat :: "gotime \<Rightarrow> string \<Rightarrow> heartbeat_request \<Rightarrow> poder_store \<Rightarrow> bool \<times> poder_store" where
  "Heartbeat now i usage s =
     (case s i of
        None \<Rightarrow> (False, s)
      | Some p \<Rightarrow>
          (True, s(i \<mapsto> p\<lparr>po_Usage := \<lparr>pu_Containers = hb_Containers usage, pu_CPUUsage = hb_CPUUsage usage,
                                     pu_MemoryUsage = hb_MemoryUsage usage\<rparr>,
                         po_LastHeartbeat := now, po_State := PoderOnline\<rparr>)))"

definition Poder_Get :: "string \<Rightarrow> poder_store \<Rightarrow> poder_info option" where
  "Poder_Get i s = s i"

definition iteration_order :: "'k list \<Rightarrow> ('k \<Rightarrow> 'v option) \<Rightarrow> bool" where
  "iteration_order ord m \<longleftrightarrow> distinct ord \<and> set ord = dom m"

definition visit :: "'k list \<Rightarrow> ('k \<Rightarrow> 'v option) \<Rightarrow> 'v list" where
  "visit ord m = List.map_filter m ord"

definition Poder_List :: "string list \<Rightarrow> poder_store \<Rightarrow> poder_info list" where
  "Poder_List ord s = visit ord s"

text \<open>The five \<^verbatim>\<open>continue\<close> conditions of the selection loop, negated.\<close>

definition eligible :: "string \<Rightarrow> string \<Rightarrow> string list \<Rightarrow> string \<Rightarrow> poder_info \<Rightarrow> bool" where
  "eligible region providerType require tenant p \<longleftrightarrow>
     po_State p = PoderOnline \<and>
     \<not> (region \<noteq> [] \<and> po_Region p \<noteq> region) \<and>
     \<not> (providerType \<noteq> [] \<and> po_ProviderType p \<noteq> providerType) \<and>
     \<not> (pu_Containers (po_Usage p) \<ge> pr_MaxContainers (po_Resources p)) \<and>
     \<not> (tenant \<noteq> [] \<and> po_Workspace p \<noteq> [] \<and> po_Workspace p \<noteq> tenant) \<and>
     list_all (HasCapability p) require"

definition totalScore :: "poder_info \<Rightarrow> rat" where
  "totalScore p =
     (let containerScore = of_int (pu_Containers (po_Usage p)) / of_int (pr_MaxContainers (po_Resources p))
      in containerScore * (6/10) + pu_CPUUsage (po_Usage p) * (2/10) + pu_MemoryUsage (po_Usage p) * (2/10))"

fun select_loop ::
  "string \<Rightarrow> string \<Rightarrow> string list \<Rightarrow> string \<Rightarrow> poder_info list \<Rightarrow> poder_info option \<Rightarrow> rat \<Rightarrow> poder_info option" where
  "select_loop region pt require tenant [] best bestScore = best"
| "select_loop region pt require tenant (p # ps) best bestScore =
     (if \<not> eligible region pt require tenant p then select_loop region pt require tenant ps best bestScore
      else if totalScore p < bestScore then select_loop region pt require tenant ps (Some p) (totalScore p)
      else select_loop region pt require tenant ps best bestScore)"

definition SelectBestFor ::
  "string list \<Rightarrow> string \<Rightarrow> string \<Rightarrow> string list \<Rightarrow> string \<Rightarrow> poder_store \<Rightarrow> poder_info option" where
  "SelectBestFor ord region providerType require tenant s =
     select_loop region providerType require tenant (visit ord s) None 999999"

definition SelectBest :: "string list \<Rightarrow> string \<Rightarrow> string \<Rightarrow> poder_store \<Rightarrow> poder_info option" where
  "SelectBest ord region providerType s = SelectBestFor ord region providerType [] [] s"

definition UpdateUsage :: "string \<Rightarrow> (poder_usage \<Rightarrow> poder_usage) \<Rightarrow> poder_store \<Rightarrow> bool \<times> poder_store" where
  "UpdateUsage i fn s =
     (case s i of None \<Rightarrow> (False, s) | Some p \<Rightarrow> (True, s(i \<mapsto> p\<lparr>po_Usage := fn (po_Usage p)\<rparr>)))"

definition SetOffline :: "string \<Rightarrow> poder_store \<Rightarrow> poder_store" where
  "SetOffline i s = (case s i of None \<Rightarrow> s | Some p \<Rightarrow> s(i \<mapsto> p\<lparr>po_State := PoderOffline\<rparr>))"

definition SetOnline :: "gotime \<Rightarrow> string \<Rightarrow> poder_store \<Rightarrow> bool \<times> poder_store" where
  "SetOnline now i s =
     (case s i of
        None \<Rightarrow> (False, s)
      | Some p \<Rightarrow> (True, s(i \<mapsto> p\<lparr>po_State := PoderOnline, po_LastHeartbeat := now\<rparr>)))"

definition Poder_Delete :: "string \<Rightarrow> poder_store \<Rightarrow> bool \<times> poder_store" where
  "Poder_Delete i s = (case s i of None \<Rightarrow> (False, s) | Some _ \<Rightarrow> (True, s(i := None)))"

section \<open>Lemmas\<close>

lemma visit_set: "iteration_order ord m \<Longrightarrow> set (visit ord m) = ran m"
  by (force simp: iteration_order_def visit_def List.map_filter_def ran_def dom_def)

lemma select_loop_result:
  "select_loop region pt require tenant ps best bs = Some p \<Longrightarrow>
   best = Some p \<or> (p \<in> set ps \<and> eligible region pt require tenant p)"
  by (induction region pt require tenant ps best bs rule: select_loop.induct) (auto split: if_splits)

lemma select_loop_min:
  assumes "select_loop region pt require tenant ps best bs = Some p"
    and "\<forall>b. best = Some b \<longrightarrow> totalScore b = bs"
  shows "totalScore p \<le> bs \<and> (\<forall>q \<in> set ps. eligible region pt require tenant q \<longrightarrow> totalScore p \<le> totalScore q)"
  using assms
proof (induction ps arbitrary: best bs)
  case Nil
  then show ?case by simp
next
  case (Cons q ps)
  show ?case
  proof (cases "eligible region pt require tenant q \<and> totalScore q < bs")
    case True
    with Cons.prems(1) have "select_loop region pt require tenant ps (Some q) (totalScore q) = Some p" by simp
    from Cons.IH [OF this] True show ?thesis by simp
  next
    case False
    with Cons.prems(1) have "select_loop region pt require tenant ps best bs = Some p" by (simp split: if_splits)
    from Cons.IH [OF this Cons.prems(2)] False show ?thesis by force
  qed
qed

lemma select_loop_finds:
  "best \<noteq> None \<or> (\<exists>q \<in> set ps. eligible region pt require tenant q \<and> totalScore q < bs) \<Longrightarrow>
   select_loop region pt require tenant ps best bs \<noteq> None"
  by (induction region pt require tenant ps best bs rule: select_loop.induct) (auto split: if_splits)

section \<open>What the scheduler relies on of a worker registry\<close>

locale poder_selector =
  fixes chooses :: "'s \<Rightarrow> string \<Rightarrow> string \<Rightarrow> string list \<Rightarrow> string \<Rightarrow> poder_info option"
    and workers :: "'s \<Rightarrow> poder_info set"
  assumes chooses_sound: "chooses s region pt require tenant = Some p \<Longrightarrow>
      p \<in> workers s \<and> eligible region pt require tenant p"
begin

text \<open>Polling a changing registry: the first success counts.\<close>

primrec poll :: "nat \<Rightarrow> (nat \<Rightarrow> 's) \<Rightarrow> string \<Rightarrow> string \<Rightarrow> string list \<Rightarrow> string \<Rightarrow> poder_info option" where
  "poll 0 obs region pt require tenant = None"
| "poll (Suc n) obs region pt require tenant =
     (case chooses (obs 0) region pt require tenant of
        Some p \<Rightarrow> Some p
      | None \<Rightarrow> poll n (\<lambda>i. obs (Suc i)) region pt require tenant)"

lemma poll_sound:
  "poll n obs region pt require tenant = Some p \<Longrightarrow>
   \<exists>i < n. p \<in> workers (obs i) \<and> eligible region pt require tenant p"
proof (induction n arbitrary: obs)
  case (Suc n)
  show ?case
  proof (cases "chooses (obs 0) region pt require tenant")
    case None
    with Suc obtain i where "i < n" "p \<in> workers (obs (Suc i))" "eligible region pt require tenant p" by fastforce
    then show ?thesis by (intro exI [of _ "Suc i"]) simp
  next
    case (Some q)
    with Suc.prems chooses_sound show ?thesis by (intro exI [of _ 0]) fastforce
  qed
qed simp

lemma poll_finds:
  "i < n \<Longrightarrow> chooses (obs i) region pt require tenant \<noteq> None \<Longrightarrow> poll n obs region pt require tenant \<noteq> None"
proof (induction n arbitrary: obs i)
  case (Suc n)
  then show ?case by (cases i) (auto split: option.split)
qed simp

end

lemma SelectBestFor_sound:
  assumes "SelectBestFor ord region pt require tenant s = Some p"
  shows "p \<in> ran s \<and> eligible region pt require tenant p"
  using select_loop_result [of region pt require tenant "visit ord s" None 999999 p] assms
  by (auto simp: SelectBestFor_def visit_def List.map_filter_def ran_def)

text \<open>The in-memory registry together with the order in which a call happens to visit it.\<close>

interpretation memory_selector: poder_selector
  "\<lambda>(ord, s) region pt require tenant. SelectBestFor ord region pt require tenant s" "\<lambda>(ord, s). ran s"
  by unfold_locales (auto dest: SelectBestFor_sound)

section \<open>Properties of the registry\<close>

text \<open>Placement rules hold: the worker selection returns is registered, online, below its container
  limit, of the region and provider asked for (when asked), not of another tenant, and has every
  capability required.\<close>

theorem SelectBestFor_respects_rules:
  assumes "SelectBestFor ord region pt require tenant s = Some p"
  shows "(\<exists>i. s i = Some p) \<and> po_State p = PoderOnline \<and>
    pu_Containers (po_Usage p) < pr_MaxContainers (po_Resources p) \<and>
    (region = [] \<or> po_Region p = region) \<and> (pt = [] \<or> po_ProviderType p = pt) \<and>
    (tenant = [] \<or> po_Workspace p = [] \<or> po_Workspace p = tenant) \<and> list_all (HasCapability p) require"
  using SelectBestFor_sound [OF assms] by (auto simp: eligible_def ran_def)

definition demo_resources :: poder_resources where
  "demo_resources = \<lparr>pr_CPUCores = 4, pr_MemoryBytes = 0, pr_MaxContainers = 10, pr_Arch = [], pr_OS = [],
     pr_OSVersion = [], pr_KernelVersion = []\<rparr>"

definition demo_poder :: "string \<Rightarrow> int \<Rightarrow> string \<Rightarrow> string list \<Rightarrow> poder_info" where
  "demo_poder i n ws caps = \<lparr>po_ID = i, po_Name = i, po_URL = ''http://'' @ i, po_Region = ''eu'',
     po_ProviderType = ''aws'', po_VMID = [], po_State = PoderOnline, po_Resources = demo_resources,
     po_Capabilities = caps, po_Workspace = ws,
     po_Usage = \<lparr>pu_Containers = n, pu_CPUUsage = 1/4, pu_MemoryUsage = 1/2\<rparr>,
     po_LastHeartbeat = 0, po_CreatedAt = 0\<rparr>"

definition demo_poders :: poder_store where
  "demo_poders = [''a'' \<mapsto> demo_poder ''a'' 1 ''t2'' [''egress''], ''b'' \<mapsto> demo_poder ''b'' 5 ''t1'' [''egress''],
                  ''c'' \<mapsto> demo_poder ''c'' 2 [] [], ''d'' \<mapsto> demo_poder ''d'' 10 [] [''egress'']]"

lemma demo_selects_b:
  "SelectBestFor [''d'', ''c'', ''b'', ''a''] ''eu'' ''aws'' [CapabilityEgress] ''t1'' demo_poders
     = Some (demo_poder ''b'' 5 ''t1'' [''egress''])"
  by (simp add: SelectBestFor_def visit_def List.map_filter_def demo_poders_def eligible_def HasCapability_def
      demo_poder_def demo_resources_def CapabilityEgress_def totalScore_def)

theorem SelectBestFor_respects_rules_witness:
  "po_Workspace (demo_poder ''b'' 5 ''t1'' [''egress'']) = ''t1'' \<and>
   list_all (HasCapability (demo_poder ''b'' 5 ''t1'' [''egress''])) [CapabilityEgress]"
  using SelectBestFor_respects_rules [OF demo_selects_b] by (simp add: demo_poder_def)

text \<open>Claim C29. Selection is complete and optimal: when the map is ranged over in any order and some eligible
  worker reports sane load figures (utilisation at most one, a non-negative container count), a worker is
  returned, and no eligible worker scores strictly better than it.\<close>

theorem SelectBestFor_optimal:
  assumes "iteration_order ord s" and "s i = Some q" and "eligible region pt require tenant q"
    and "0 \<le> pu_Containers (po_Usage q)" and "pu_CPUUsage (po_Usage q) \<le> 1" and "pu_MemoryUsage (po_Usage q) \<le> 1"
  shows "\<exists>p. SelectBestFor ord region pt require tenant s = Some p \<and>
    (\<forall>j r. s j = Some r \<and> eligible region pt require tenant r \<longrightarrow> totalScore p \<le> totalScore r)"
proof -
  have room: "pu_Containers (po_Usage q) < pr_MaxContainers (po_Resources q)"
    using assms(3) by (simp add: eligible_def)
  have "of_int (pu_Containers (po_Usage q)) / of_int (pr_MaxContainers (po_Resources q)) \<le> (1::rat)"
    using room assms(4) by (simp add: divide_le_eq)
  then have "totalScore q < 999999" using assms(5,6) by (simp add: totalScore_def)
  moreover have vs: "set (visit ord s) = ran s" using assms(1) by (rule visit_set)
  moreover have "q \<in> ran s" using assms(2) by (rule ranI)
  ultimately obtain p where p: "SelectBestFor ord region pt require tenant s = Some p"
    using select_loop_finds [of None "visit ord s" region pt require tenant 999999] assms(3)
    by (auto simp: SelectBestFor_def)
  then have "\<forall>r \<in> ran s. eligible region pt require tenant r \<longrightarrow> totalScore p \<le> totalScore r"
    using select_loop_min [of region pt require tenant "visit ord s" None 999999 p] vs
    by (simp add: SelectBestFor_def)
  with p show ?thesis by (blast intro: ranI)
qed

theorem SelectBestFor_optimal_witness:
  "\<exists>p. SelectBestFor [''d'', ''c'', ''b'', ''a''] [] [] [] [] demo_poders = Some p \<and>
    totalScore p \<le> totalScore (demo_poder ''a'' 1 ''t2'' [''egress''])"
proof -
  let ?a = "demo_poder ''a'' 1 ''t2'' [''egress'']"
  have "iteration_order [''d'', ''c'', ''b'', ''a''] demo_poders"
    by (auto simp: iteration_order_def demo_poders_def)
  moreover have a: "demo_poders ''a'' = Some ?a" by (simp add: demo_poders_def)
  moreover have e: "eligible [] [] [] [] ?a"
    by (simp add: eligible_def demo_poder_def demo_resources_def)
  moreover have "0 \<le> pu_Containers (po_Usage ?a)" "pu_CPUUsage (po_Usage ?a) \<le> 1" "pu_MemoryUsage (po_Usage ?a) \<le> 1"
    by (simp_all add: demo_poder_def)
  ultimately obtain p where "SelectBestFor [''d'', ''c'', ''b'', ''a''] [] [] [] [] demo_poders = Some p"
    "\<forall>j r. demo_poders j = Some r \<and> eligible [] [] [] [] r \<longrightarrow> totalScore p \<le> totalScore r"
    using SelectBestFor_optimal [of "[''d'', ''c'', ''b'', ''a'']" demo_poders "''a''" ?a "[]" "[]" "[]" "[]"] by blast
  then show ?thesis using a e by blast
qed

text \<open>A first registration forgets what the worker can do: in the in-memory registry a worker that
  registers anew has no capabilities and no tenant, whatever it advertised, so no sandbox that needs the
  egress capability is placed on it; registering a second time keeps the capabilities.\<close>

theorem Register_drops_capabilities:
  "let req = \<lparr>rr_ID = ''w'', rr_Name = ''w'', rr_URL = [], rr_Region = ''eu'', rr_ProviderType = ''aws'',
              rr_VMID = [], rr_Resources = demo_resources, rr_Capabilities = [CapabilityEgress],
              rr_Workspace = ''t1''\<rparr>;
       s1 = snd (Register 1 req NewPoderStore); s2 = snd (Register 2 req s1)
   in po_Capabilities (fst (Register 1 req NewPoderStore)) = [] \<and>
      po_Workspace (fst (Register 1 req NewPoderStore)) = [] \<and>
      SelectBestFor [''w''] ''eu'' ''aws'' [CapabilityEgress] ''t1'' s1 = None \<and>
      SelectBestFor [''w''] ''eu'' ''aws'' [] ''t2'' s1 \<noteq> None \<and>
      SelectBestFor [''w''] ''eu'' ''aws'' [CapabilityEgress] ''t1'' s2 \<noteq> None"
  unfolding Let_def
  by (simp add: Register_def NewPoderStore_def SelectBestFor_def visit_def List.map_filter_def eligible_def
      HasCapability_def demo_resources_def CapabilityEgress_def totalScore_def Let_def)

text \<open>The operations of the registry, for sequences of them.\<close>

datatype poder_op = OpRegister gotime register_request | OpHeartbeat gotime string heartbeat_request
  | OpUsage string "poder_usage \<Rightarrow> poder_usage" | OpOffline string | OpOnline gotime string | OpDelete string

fun poder_step :: "poder_op \<Rightarrow> poder_store \<Rightarrow> poder_store" where
  "poder_step (OpRegister now req) s = snd (Register now req s)"
| "poder_step (OpHeartbeat now i u) s = snd (Heartbeat now i u s)"
| "poder_step (OpUsage i fn) s = snd (UpdateUsage i fn s)"
| "poder_step (OpOffline i) s = SetOffline i s"
| "poder_step (OpOnline now i) s = snd (SetOnline now i s)"
| "poder_step (OpDelete i) s = snd (Poder_Delete i s)"

definition poders_wf :: "poder_store \<Rightarrow> bool" where
  "poders_wf s \<longleftrightarrow> (\<forall>i p. s i = Some p \<longrightarrow> po_ID p = i)"

lemmas poder_op_defs = Register_def Heartbeat_def UpdateUsage_def SetOffline_def SetOnline_def Poder_Delete_def

lemma poder_step_wf: "poders_wf s \<Longrightarrow> poders_wf (poder_step op s)"
  by (cases op) (auto simp: poders_wf_def poder_op_defs Let_def split: option.splits if_splits)

text \<open>Every record is filed under its own id after any sequence of registry operations, and a worker
  set offline is never selected until it registers, beats or is set online again.\<close>

theorem poder_registry_wf:
  "poders_wf (fold poder_step ops NewPoderStore) \<and>
   (case SetOffline i (fold poder_step ops NewPoderStore) i of
      None \<Rightarrow> fold poder_step ops NewPoderStore i = None
    | Some p \<Rightarrow> po_State p = PoderOffline \<and> \<not> eligible region pt require tenant p)"
proof -
  have "poders_wf s \<Longrightarrow> poders_wf (fold poder_step ops s)" for s
    by (induction ops arbitrary: s) (auto intro: poder_step_wf)
  moreover have "poders_wf NewPoderStore" by (simp add: poders_wf_def NewPoderStore_def)
  ultimately show ?thesis by (simp add: SetOffline_def eligible_def split: option.split)
qed

end
