(* ===== verification/Sandbox_Store.thy ===== *)
theory Sandbox_Store
  imports Poder_Store Keyed_Repo Egress_Policy
begin

text \<open>
  The sandbox records, \<^verbatim>\<open>src/pkg/sandpod/sandbox_store.go\<close>: the record of a sandbox, the create request and
  the in-memory store, a map from names to records. \<^verbatim>\<open>float64\<close> resources are rational numbers.

  Shown here: a name is taken at most once, an operation on one sandbox leaves the others alone, and
  listing by worker returns exactly that worker's sandboxes.
\<close>

section \<open>Data\<close>

datatype sandbox_state = StatePending | StateStarting | StateRunning | StateStopping | StateStopped
  | StateError | StateTerminated

record sandbox_info =
  sb_ID :: string
  sb_Name :: string
  sb_Region :: string
  sb_ProviderType :: string
  sb_InstanceType :: string
  sb_ImageID :: string
  sb_State :: sandbox_state
  sb_IP :: string
  sb_Owner :: string
  sb_TTLSeconds :: int
  sb_CPUCores :: rat
  sb_MemoryMB :: int
  sb_PoderID :: string
  sb_PoderURL :: string
  sb_ContainerID :: string
  sb_ProxyURL :: string
  sb_APIURL :: string
  sb_Arch :: string
  sb_OS :: string
  sb_OSVersion :: string
  sb_CreatedAt :: gotime
  sb_LastActivity :: gotime
  sb_Labels :: "string \<Rightarrow> string option"
  sb_Network :: "policy option"

record create_request =
  cr_Name :: string
  cr_Region :: string
  cr_ProviderType :: string
  cr_InstanceType :: string
  cr_ImageID :: string
  cr_TTLSeconds :: int
  cr_CPUCores :: rat
  cr_MemoryMB :: int
  cr_Workspace :: string
  cr_Async :: bool
  cr_Network :: "policy option"

type_synonym sandbox_store = "string \<Rightarrow> sandbox_info option"

section \<open>Operations\<close>

definition NewSandboxStore :: sandbox_store where "NewSandboxStore = (\<lambda>_. None)"

definition Sandbox_Add :: "sandbox_info \<Rightarrow> sandbox_store \<Rightarrow> sandbox_store option" where
  "Sandbox_Add sb s = (case s (sb_Name sb) of Some _ \<Rightarrow> None | None \<Rightarrow> Some (s(sb_Name sb \<mapsto> sb)))"

definition Sandbox_Get :: "string \<Rightarrow> sandbox_store \<Rightarrow> sandbox_info option" where
  "Sandbox_Get name s = s name"

definition Sandbox_Update :: "string \<Rightarrow> (sandbox_info \<Rightarrow> sandbox_info) \<Rightarrow> sandbox_store \<Rightarrow> sandbox_store option" where
  "Sandbox_Update name updateFn s = (case s name of None \<Rightarrow> None | Some sb \<Rightarrow> Some (s(name \<mapsto> updateFn sb)))"

definition Sandbox_List :: "string list \<Rightarrow> sandbox_store \<Rightarrow> sandbox_info list" where
  "Sandbox_List ord s = visit ord s"

definition ListByPoderID :: "string list \<Rightarrow> string \<Rightarrow> sandbox_store \<Rightarrow> sandbox_info list" where
  "ListByPoderID ord poderID s = filter (\<lambda>sb. sb_PoderID sb = poderID) (visit ord s)"

definition Sandbox_Delete :: "string \<Rightarrow> sandbox_store \<Rightarrow> sandbox_store option" where
  "Sandbox_Delete name s = (case s name of None \<Rightarrow> None | Some _ \<Rightarrow> Some (s(name := None)))"

interpretation sandboxes: keyed_repo Sandbox_Add Sandbox_Get sb_Name
  by unfold_locales (auto simp: Sandbox_Add_def Sandbox_Get_def split: option.splits)

section \<open>Properties\<close>

text \<open>Two creates of one name never both succeed: once a sandbox was added, adding any record of the same
  name is refused until the name is deleted, and the first record is the one found.\<close>

theorem sandbox_name_taken_once:
  assumes "Sandbox_Add sb s = Some s'" and "sb_Name sb' = sb_Name sb"
  shows "Sandbox_Add sb' s' = None \<and> Sandbox_Get (sb_Name sb) s' = Some sb \<and>
    (\<exists>t. Sandbox_Delete (sb_Name sb) s' = Some t \<and> Sandbox_Get (sb_Name sb) t = None \<and> Sandbox_Add sb' t \<noteq> None)"
proof -
  have "Sandbox_Get (sb_Name sb) s' = Some sb" using sandboxes.add_lookup [OF assms(1)] by simp
  then show ?thesis
    using sandboxes.add_once [OF assms] assms(2)
    by (simp add: Sandbox_Delete_def Sandbox_Get_def Sandbox_Add_def)
qed

definition demo_sandbox :: "string \<Rightarrow> string \<Rightarrow> sandbox_info" where
  "demo_sandbox name pod = \<lparr>sb_ID = [], sb_Name = name, sb_Region = [], sb_ProviderType = [], sb_InstanceType = [],
     sb_ImageID = [], sb_State = StatePending, sb_IP = [], sb_Owner = [], sb_TTLSeconds = 0, sb_CPUCores = 0,
     sb_MemoryMB = 0, sb_PoderID = pod, sb_PoderURL = [], sb_ContainerID = [], sb_ProxyURL = [], sb_APIURL = [],
     sb_Arch = [], sb_OS = [], sb_OSVersion = [], sb_CreatedAt = 0, sb_LastActivity = 0, sb_Labels = Map.empty,
     sb_Network = None\<rparr>"

theorem sandbox_name_taken_once_witness:
  "Sandbox_Add (demo_sandbox ''x'' ''p2'') [''x'' \<mapsto> demo_sandbox ''x'' ''p1''] = None"
  using sandbox_name_taken_once [of "demo_sandbox ''x'' ''p1''" NewSandboxStore "[''x'' \<mapsto> demo_sandbox ''x'' ''p1'']"
      "demo_sandbox ''x'' ''p2''"]
  by (simp add: demo_sandbox_def Sandbox_Add_def NewSandboxStore_def fun_upd_def)

text \<open>Listing by worker is exact: in whatever order the map is visited, it returns the records of that
  worker, each once, and nothing else.\<close>

theorem ListByPoderID_exact:
  assumes "iteration_order ord s"
  shows "set (ListByPoderID ord pid s) = {sb. (\<exists>n. s n = Some sb) \<and> sb_PoderID sb = pid} \<and>
    length (ListByPoderID ord pid s) = length (filter (\<lambda>n. map_option sb_PoderID (s n) = Some pid) ord)"
proof -
  have "length (filter (\<lambda>sb. sb_PoderID sb = pid) (visit xs s)) =
      length (filter (\<lambda>n. map_option sb_PoderID (s n) = Some pid) xs)" for xs
    by (induction xs) (auto simp: visit_def List.map_filter_def split: option.splits)
  then show ?thesis
    using visit_set [OF assms] by (auto simp: ListByPoderID_def ran_def)
qed

theorem ListByPoderID_exact_witness:
  "set (ListByPoderID [''y'', ''x''] ''p'' [''x'' \<mapsto> demo_sandbox ''x'' ''p'', ''y'' \<mapsto> demo_sandbox ''y'' ''q''])
     = {sb. (\<exists>n. [''x'' \<mapsto> demo_sandbox ''x'' ''p'', ''y'' \<mapsto> demo_sandbox ''y'' ''q''] n = Some sb) \<and> sb_PoderID sb = ''p''}"
  by (rule ListByPoderID_exact [THEN conjunct1]) (auto simp: iteration_order_def)

end
