(* ===== verification/Mem_Stores.thy ===== *)
theory Mem_Stores
  imports Job_Store Sandbox_Store
begin

text \<open>
  The in-memory repositories of \<^verbatim>\<open>src/pkg/store/memory.go\<close> and the two small expiring tables beside
  them: API tokens, tunnel owners, the job adapter with its claim, \<^verbatim>\<open>src/pkg/sandpod/tombstones.go\<close>
  and \<^verbatim>\<open>provision_lock.go\<close>. Each method takes its lock once and is one step, with one exception:
  \<^verbatim>\<open>ClaimJob\<close> reads and writes under two separate locks and is modelled as two steps.

  Shown here: a token's hash is unique and revoking a prefix removes exactly its tokens; a stale
  release never drops another node's claim; a tombstone holds for its lifetime; one caller at a time
  holds a reservation; and two concurrent claims of one job can both succeed.
\<close>

section \<open>API tokens\<close>

record api_token =
  at_Name :: string
  at_Prefix :: string
  at_Hash :: string
  at_Role :: string
  at_CreatedAt :: gotime

type_synonym token_repo = "string \<Rightarrow> api_token option"

definition NewMemTokenRepo :: token_repo where "NewMemTokenRepo = (\<lambda>_. None)"

definition Token_Create :: "api_token \<Rightarrow> token_repo \<Rightarrow> token_repo option" where
  "Token_Create t r = (case r (at_Hash t) of Some _ \<Rightarrow> None | None \<Rightarrow> Some (r(at_Hash t \<mapsto> t)))"

definition Token_List :: "string list \<Rightarrow> token_repo \<Rightarrow> api_token list" where
  "Token_List ord r = visit ord r"

definition FindByHash :: "string \<Rightarrow> token_repo \<Rightarrow> api_token option" where
  "FindByHash h r = r h"

definition DeleteByPrefix :: "string list \<Rightarrow> string \<Rightarrow> token_repo \<Rightarrow> string list \<times> token_repo" where
  "DeleteByPrefix ord pre r =
     (let removed = filter (\<lambda>h. map_option at_Prefix (r h) = Some pre) ord
      in (removed, \<lambda>h. if h \<in> set removed then None else r h))"

interpretation tokens: keyed_repo Token_Create FindByHash at_Hash
  by unfold_locales (auto simp: Token_Create_def FindByHash_def split: option.splits)

section \<open>Tunnel owners\<close>

type_synonym tunnel_owners = "string \<Rightarrow> string option"

definition Claim :: "string \<Rightarrow> string \<Rightarrow> tunnel_owners \<Rightarrow> tunnel_owners" where
  "Claim key nodeURL m = m(key \<mapsto> nodeURL)"

text \<open>A missing key reads as the empty string, as in Go.\<close>

definition Release :: "string \<Rightarrow> string \<Rightarrow> tunnel_owners \<Rightarrow> tunnel_owners" where
  "Release key nodeURL m =
     (if (case m key of Some n \<Rightarrow> n | None \<Rightarrow> []) = nodeURL then m(key := None) else m)"

definition NodeFor :: "string \<Rightarrow> tunnel_owners \<Rightarrow> string option" where
  "NodeFor key m = m key"

section \<open>The job adapter\<close>

definition Mem_PollJobs :: "gotime \<Rightarrow> duration \<Rightarrow> int \<Rightarrow> job_store \<Rightarrow> string list \<times> job_store" where
  "Mem_PollJobs now jobTimeout limit s = PollJobs now limit (SetJobTimeout jobTimeout s)"

text \<open>\<^verbatim>\<open>ClaimJob\<close>: the check under the read lock, then the update under the write lock. \<open>clock\<close> is what
  \<^verbatim>\<open>time.Now\<close> returns inside \<^verbatim>\<open>UpdateJob\<close>, which overwrites the time the claim sets.\<close>

definition claim_check :: "string \<Rightarrow> gotime \<Rightarrow> job_store \<Rightarrow> bool" where
  "claim_check i expected s = (case GetJob i s of None \<Rightarrow> False | Some j \<Rightarrow> j_UpdatedAt j = expected)"

definition claim_update :: "gotime \<Rightarrow> string \<Rightarrow> gotime \<Rightarrow> job_store \<Rightarrow> job_store option" where
  "claim_update clock i now s = UpdateJob clock i (\<lambda>j. j\<lparr>j_UpdatedAt := now\<rparr>) s"

definition ClaimJob :: "gotime \<Rightarrow> string \<Rightarrow> gotime \<Rightarrow> gotime \<Rightarrow> job_store \<Rightarrow> bool \<times> job_store" where
  "ClaimJob clock i expected now s =
     (if \<not> claim_check i expected s then (False, s)
      else case claim_update clock i now s of None \<Rightarrow> (False, s) | Some s' \<Rightarrow> (True, s'))"

section \<open>Tombstones\<close>

record tombstones =
  ts_m :: "string \<Rightarrow> gotime option"
  ts_ttl :: duration

definition NewTombstones :: "duration \<Rightarrow> tombstones" where
  "NewTombstones ttl = \<lparr>ts_m = (\<lambda>_. None), ts_ttl = ttl\<rparr>"

definition Tombstones_Add :: "gotime \<Rightarrow> string \<Rightarrow> tombstones \<Rightarrow> tombstones" where
  "Tombstones_Add now i t =
     (let m = (ts_m t)(i \<mapsto> now + ts_ttl t)
      in t\<lparr>ts_m := (\<lambda>k. case m k of None \<Rightarrow> None | Some e \<Rightarrow> if now > e then None else Some e)\<rparr>)"

definition Tombstones_Contains :: "gotime \<Rightarrow> string \<Rightarrow> tombstones \<Rightarrow> bool \<times> tombstones" where
  "Tombstones_Contains now i t =
     (case ts_m t i of
        None \<Rightarrow> (False, t)
      | Some e \<Rightarrow> if now > e then (False, t\<lparr>ts_m := (ts_m t)(i := None)\<rparr>) else (True, t))"

section \<open>Reservations\<close>

type_synonym provision_book = "string \<Rightarrow> gotime option"

abbreviation provisioningTTL :: duration where "provisioningTTL \<equiv> 8 * minute"

definition reserve :: "gotime \<Rightarrow> string \<Rightarrow> provision_book \<Rightarrow> bool \<times> provision_book" where
  "reserve now key b =
     (case b key of
        Some since \<Rightarrow> if now - since < provisioningTTL then (False, b) else (True, b(key \<mapsto> now))
      | None \<Rightarrow> (True, b(key \<mapsto> now)))"

definition release :: "string \<Rightarrow> provision_book \<Rightarrow> provision_book" where
  "release key b = b(key := None)"

definition provisioningKey :: "string \<Rightarrow> string \<Rightarrow> string" where
  "provisioningKey providerType region = providerType @ ''|'' @ region"

definition inFlight :: "gotime \<Rightarrow> string \<Rightarrow> provision_book \<Rightarrow> bool" where
  "inFlight now key b = (case b key of None \<Rightarrow> False | Some since \<Rightarrow> now - since < provisioningTTL)"

section \<open>Properties\<close>

text \<open>Revoking a prefix removes exactly the tokens that carry it and reports exactly their hashes; a
  revoked hash authenticates nobody afterwards.\<close>

theorem DeleteByPrefix_exact:
  assumes "iteration_order ord r"
  shows "case DeleteByPrefix ord pre r of (removed, r') \<Rightarrow>
     distinct removed \<and> set removed = {h. \<exists>t. r h = Some t \<and> at_Prefix t = pre} \<and>
     (\<forall>h. FindByHash h r' = (if h \<in> set removed then None else FindByHash h r))"
  using assms by (auto simp: DeleteByPrefix_def iteration_order_def FindByHash_def Let_def)

theorem DeleteByPrefix_exact_witness:
  "set (fst (DeleteByPrefix [''h2'', ''h1''] ''e2b_a''
      [''h1'' \<mapsto> \<lparr>at_Name = ''n'', at_Prefix = ''e2b_a'', at_Hash = ''h1'', at_Role = ''user'', at_CreatedAt = 0\<rparr>,
       ''h2'' \<mapsto> \<lparr>at_Name = ''n'', at_Prefix = ''e2b_b'', at_Hash = ''h2'', at_Role = ''user'', at_CreatedAt = 0\<rparr>]))
     = {''h1''}"
proof -
  let ?r = "[''h1'' \<mapsto> \<lparr>at_Name = ''n'', at_Prefix = ''e2b_a'', at_Hash = ''h1'', at_Role = ''user'', at_CreatedAt = 0\<rparr>,
       ''h2'' \<mapsto> \<lparr>at_Name = ''n'', at_Prefix = ''e2b_b'', at_Hash = ''h2'', at_Role = ''user'', at_CreatedAt = 0\<rparr>]"
  have "iteration_order [''h2'', ''h1''] ?r" by (auto simp: iteration_order_def)
  from DeleteByPrefix_exact [OF this, of "''e2b_a''"] show ?thesis by (auto split: prod.splits if_splits)
qed

text \<open>A stale disconnect cannot clobber a fresh reconnect: after another node claimed a tunnel, a release
  by the former owner changes nothing, while a release by the owner drops the claim.\<close>

theorem stale_release_is_harmless:
  assumes "new \<noteq> old" and "new \<noteq> []"
  shows "NodeFor key (Release key old (Claim key new (Claim key old m))) = Some new \<and>
    NodeFor key (Release key new (Claim key new m)) = None"
  using assms by (simp add: NodeFor_def Release_def Claim_def)

theorem stale_release_is_harmless_witness:
  "NodeFor ''p'' (Release ''p'' ''http://a'' (Claim ''p'' ''http://b'' (Claim ''p'' ''http://a'' (\<lambda>_. None)))) = Some ''http://b''"
  by (rule stale_release_is_harmless [THEN conjunct1]) simp_all

datatype tomb_op = TombAdd gotime string | TombAsk gotime string

fun tomb_step :: "tomb_op \<Rightarrow> tombstones \<Rightarrow> tombstones" where
  "tomb_step (TombAdd now i) t = Tombstones_Add now i t"
| "tomb_step (TombAsk now i) t = snd (Tombstones_Contains now i t)"

fun tomb_time :: "tomb_op \<Rightarrow> gotime" where
  "tomb_time (TombAdd now _) = now"
| "tomb_time (TombAsk now _) = now"

lemma tomb_step_keeps:
  assumes "ts_m t i = Some e" and "tomb_time op \<le> e" and "start \<le> tomb_time op" and "start + ts_ttl t \<le> e" and "0 \<le> ts_ttl t"
  shows "\<exists>e'. ts_m (tomb_step op t) i = Some e' \<and> start + ts_ttl t \<le> e' \<and> ts_ttl (tomb_step op t) = ts_ttl t"
  using assms
  by (cases op) (auto simp: Tombstones_Add_def Tombstones_Contains_def Let_def split: option.splits)

lemma tomb_steps_keep:
  assumes "ts_m t i = Some e" and "start + ts_ttl t \<le> e" and "0 \<le> ts_ttl t"
    and "\<forall>op \<in> set ops. start \<le> tomb_time op \<and> tomb_time op \<le> start + ts_ttl t"
  shows "\<exists>e'. ts_m (fold tomb_step ops t) i = Some e' \<and> start + ts_ttl t \<le> e'"
  using assms
proof (induction ops arbitrary: t e)
  case (Cons op ops)
  then obtain e' where "ts_m (tomb_step op t) i = Some e'" "start + ts_ttl t \<le> e'" "ts_ttl (tomb_step op t) = ts_ttl t"
    using tomb_step_keeps [of t i e op start] by auto
  then show ?case using Cons.IH [of "tomb_step op t" e'] Cons.prems(3,4) by simp
qed auto

text \<open>A tombstone holds for its lifetime and no longer: an id added at \<open>t\<close> is reported until \<open>t + ttl\<close>
  whatever other ids are added or asked for in between at times in that span, and is gone afterwards.\<close>

theorem tombstone_lifetime:
  assumes "0 \<le> ts_ttl t" and "\<forall>op \<in> set ops. now \<le> tomb_time op \<and> tomb_time op \<le> now + ts_ttl t"
    and "now \<le> now'" and "now' \<le> now + ts_ttl t"
  shows "fst (Tombstones_Contains now' i (fold tomb_step ops (Tombstones_Add now i t))) \<and>
    (\<forall>later. now + ts_ttl t < later \<longrightarrow> \<not> fst (Tombstones_Contains later i (Tombstones_Add now i t)))"
proof
  have "ts_m (Tombstones_Add now i t) i = Some (now + ts_ttl t)" "ts_ttl (Tombstones_Add now i t) = ts_ttl t"
    using assms(1) by (simp_all add: Tombstones_Add_def)
  then obtain e where e: "ts_m (fold tomb_step ops (Tombstones_Add now i t)) i = Some e" "now + ts_ttl t \<le> e"
    using tomb_steps_keep [of "Tombstones_Add now i t" i "now + ts_ttl t" now ops] assms(1,2) by auto
  with assms(4) show "fst (Tombstones_Contains now' i (fold tomb_step ops (Tombstones_Add now i t)))"
    by (simp add: Tombstones_Contains_def)
  show "\<forall>later. now + ts_ttl t < later \<longrightarrow> \<not> fst (Tombstones_Contains later i (Tombstones_Add now i t))"
    using assms(1) by (simp add: Tombstones_Contains_def Tombstones_Add_def)
qed

theorem tombstone_lifetime_witness:
  "fst (Tombstones_Contains 160 ''p'' (fold tomb_step [TombAsk 120 ''q'', TombAdd 150 ''q'']
     (Tombstones_Add 100 ''p'' (NewTombstones 60))))"
  by (rule tombstone_lifetime [THEN conjunct1]) (simp_all add: NewTombstones_def)

text \<open>A reservation is exclusive and expires on its own: after one caller was told to provision, every
  other caller within the lifetime is told to wait and changes nothing; a caller after the lifetime, or
  after a release, is told to provision; other provider and region pairs are never affected.\<close>

theorem reservation_exclusive:
  assumes "reserve now key b = (True, b')"
  shows "(now' - now < 8 * minute \<longrightarrow> reserve now' key b' = (False, b') \<and> inFlight now' key b') \<and>
    (8 * minute \<le> now' - now \<longrightarrow> fst (reserve now' key b')) \<and> fst (reserve now' key (release key b')) \<and>
    (\<forall>key'. key' \<noteq> key \<longrightarrow> b' key' = b key')"
proof -
  have "b' = b(key \<mapsto> now)" using assms by (auto simp: reserve_def split: option.splits if_splits)
  then show ?thesis by (simp add: reserve_def release_def inFlight_def)
qed

theorem reservation_exclusive_witness:
  "reserve (5 * minute) (provisioningKey ''aws'' ''eu'') (snd (reserve 0 (provisioningKey ''aws'' ''eu'') (\<lambda>_. None)))
     = (False, snd (reserve 0 (provisioningKey ''aws'' ''eu'') (\<lambda>_. None)))"
proof -
  have "reserve 0 (provisioningKey ''aws'' ''eu'') (\<lambda>_. None) =
      (True, snd (reserve 0 (provisioningKey ''aws'' ''eu'') (\<lambda>_. None)))" by (simp add: reserve_def)
  from reservation_exclusive [OF this, of "5 * minute"] show ?thesis by simp
qed

text \<open>Claims made one after the other are exclusive: once a claim of a job succeeded, a second one that
  expects the same timestamp fails, provided the clock had moved; the timestamp left behind is the
  clock's, not the one the caller passed.\<close>

theorem ClaimJob_sequential:
  assumes "ClaimJob clock i expected now s = (True, s')" and "clock \<noteq> expected"
  shows "fst (ClaimJob clock' i expected now' s') = False \<and>
    map_option j_UpdatedAt (GetJob i s') = Some clock"
  using assms
  by (auto simp: ClaimJob_def claim_check_def claim_update_def UpdateJob_def GetJob_def split: if_splits option.splits)

theorem ClaimJob_sequential_witness:
  "fst (ClaimJob 30 ''b'' 1 30 (snd (ClaimJob 20 ''b'' 1 20 demo_jobs))) = False"
proof -
  have "fst (ClaimJob 20 ''b'' 1 20 demo_jobs) = True" by code_simp
  then have "ClaimJob 20 ''b'' 1 20 demo_jobs = (True, snd (ClaimJob 20 ''b'' 1 20 demo_jobs))"
    by (simp only: prod_eq_iff fst_conv snd_conv)
  from ClaimJob_sequential [OF this, of 30 30] show ?thesis by simp
qed

text \<open>Claims made at the same time are not exclusive: when two callers both check before either updates,
  as the two separate locks allow, both claims of one job succeed.\<close>

theorem ClaimJob_race:
  "claim_check ''b'' 1 demo_jobs = True \<and>
   (case claim_update 20 ''b'' 20 demo_jobs of None \<Rightarrow> False
    | Some s1 \<Rightarrow> (case claim_update 30 ''b'' 30 s1 of None \<Rightarrow> False | Some s2 \<Rightarrow> True))"
  by code_simp

end
