(* ===== verification/Scheduler.thy ===== *)
theory Scheduler
  imports Mem_Stores
begin

text \<open>
  The scheduler, \<^verbatim>\<open>src/pkg/sandpod/scheduler.go\<close>: placement of a new sandbox on a registered worker, and
  provisioning of a cloud VM when there is none. It calls three things through interfaces, which are
  arguments here: the worker registry (\<open>sel\<close> and \<open>lst\<close>), the cloud provider (the record
  \<open>provider_env\<close>, one function per call with its outcome) and the environment variables. The registry
  changes while the scheduler waits: the record \<open>observations\<close> gives what each look at it sees, and
  what other creates do to the reservations meanwhile. A waiting loop looks once per interval until
  its deadline, so it makes \<open>polls timeout interval\<close> looks. Calls that change the cloud are logged in
  the state as \<open>vm_effect\<close>s. Log output is not modelled.

  Shown here: a job is only ever created for a worker that passes every placement rule, also when it
  appeared during a wait; a VM that was created and not used is given back on every failure path, and
  the error says what happened to it; local and docker requests never touch the cloud or the
  reservations; the reservation is released however provisioning ends; quoting is safe in a shell.
\<close>

section \<open>Data\<close>

record scheduler =
  sc_apiURL :: string
  sc_token :: string

record vm_info =
  vm_ID :: string
  vm_PublicIP :: string

record network_config =
  nc_PublicIP :: bool
  nc_SubnetID :: string
  nc_SecurityGroup :: string

record create_vm_request =
  cv_Name :: string
  cv_Region :: string
  cv_InstanceType :: string
  cv_ImageID :: string
  cv_Tags :: "(string \<times> string) list"
  cv_NetworkConfig :: network_config
  cv_APIURL :: string

record command_result =
  cr_Output :: string
  cr_ExitCode :: int
  cr_Stderr :: string

datatype stage = AtCreate | AtReady | AtSetup | AtProbe | AtDelete

text \<open>\<open>None\<close> is the nil error.\<close>

record provider_env =
  pv_get :: "stage \<Rightarrow> string \<Rightarrow> string option"
  pv_create :: "create_vm_request \<Rightarrow> string + vm_info"
  pv_health :: "nat \<Rightarrow> string + bool"
  pv_exec :: "string \<Rightarrow> string \<Rightarrow> string + command_result"
  pv_delete :: "string \<Rightarrow> string option"

datatype vm_effect = VMCreated string | VMExec string string | VMDeleted string bool

datatype create_error = CreateNoProvider string | CreateFailed string | NoPublicIP string

datatype ready_error = ReadyNoProvider string | ReadyTimeout string

datatype setup_error = SetupNoProvider string | InstallError string | InstallExit int string
  | PrePullFailed string string | StartError string | StartExit int string

datatype cleanup = CleanupTerminated string | CleanupLeftRunning string

datatype sched_error =
    CapabilityUnavailable nat string string
  | AtCapacity string nat
  | NoWorkerRegistered string duration
  | CreateVMFailed create_error
  | VMNotReady ready_error cleanup
  | SetupFailed setup_error cleanup
  | RegistrationTimeout cleanup

record vm_tenant_entry =
  vt_tenant :: string
  vt_at :: gotime

record sched_state =
  st_book :: provision_book
  st_tenants :: "string \<Rightarrow> vm_tenant_entry option"
  st_effects :: "vm_effect list"

section \<open>Environment and shell\<close>

type_synonym getenv = "string \<Rightarrow> string"

definition providerEnv :: "getenv \<Rightarrow> string \<Rightarrow> string \<Rightarrow> string" where
  "providerEnv env key providerType =
     (let v = TrimSpace (env (key @ ''_'' @ ToUpper providerType))
      in if providerType \<noteq> [] \<and> v \<noteq> [] then v else TrimSpace (env key))"

definition parse_bool :: "string \<Rightarrow> bool option" where
  "parse_bool v =
     (if v = ''1'' \<or> v = ''true'' \<or> v = ''yes'' \<or> v = ''on'' then Some True
      else if v = ''0'' \<or> v = ''false'' \<or> v = ''no'' \<or> v = ''off'' then Some False else None)"

definition envBoolDefault :: "getenv \<Rightarrow> string \<Rightarrow> bool \<Rightarrow> bool" where
  "envBoolDefault env key dflt =
     (case parse_bool (ToLower (TrimSpace (env key))) of Some b \<Rightarrow> b | None \<Rightarrow> dflt)"

definition providerEnvBool :: "getenv \<Rightarrow> string \<Rightarrow> string \<Rightarrow> bool \<Rightarrow> bool" where
  "providerEnvBool env key providerType dflt =
     (case (if providerType \<noteq> [] then parse_bool (ToLower (TrimSpace (env (key @ ''_'' @ ToUpper providerType)))) else None) of
        Some b \<Rightarrow> b
      | None \<Rightarrow> envBoolDefault env key dflt)"

definition vmNetworkConfig :: "getenv \<Rightarrow> string \<Rightarrow> network_config" where
  "vmNetworkConfig env providerType =
     \<lparr>nc_PublicIP = providerEnvBool env ''SANDRPOD_VM_PUBLIC_IP'' providerType True,
      nc_SubnetID = providerEnv env ''SANDRPOD_VM_SUBNET_ID'' providerType,
      nc_SecurityGroup = providerEnv env ''SANDRPOD_VM_SECURITY_GROUP'' providerType\<rparr>"

definition poderImage :: "getenv \<Rightarrow> string \<Rightarrow> string" where
  "poderImage env providerType =
     (let img = providerEnv env ''SANDRPOD_PODER_IMAGE'' providerType
      in if img \<noteq> [] then img else ''ghcr.io/sandrpod/poder:latest'')"

abbreviation apostrophe :: char where "apostrophe \<equiv> CHR 0x27"
abbreviation backslash :: char where "backslash \<equiv> CHR 0x5C"

fun shellQuoteSingleValue :: "string \<Rightarrow> string" where
  "shellQuoteSingleValue [] = []"
| "shellQuoteSingleValue (r # s) =
     (if r = apostrophe then [apostrophe, backslash, apostrophe, apostrophe] else [r]) @ shellQuoteSingleValue s"

definition quoted :: "string \<Rightarrow> string" where
  "quoted v = [apostrophe] @ shellQuoteSingleValue v @ [apostrophe]"

text \<open>\<^verbatim>\<open>truncate\<close> appends the three bytes of the ellipsis character.\<close>

definition truncate_text :: "string \<Rightarrow> nat \<Rightarrow> string" where
  "truncate_text s n = (if length s \<le> n then s else take n s @ [CHR 0xE2, CHR 0x80, CHR 0xA6])"

definition execOutput :: "command_result option \<Rightarrow> string" where
  "execOutput r =
     (case r of
        None \<Rightarrow> ''(no result)''
      | Some c \<Rightarrow>
          let parts = (let v = TrimSpace (cr_Output c) in if v \<noteq> [] then [''output: '' @ truncate_text v 500] else []) @
                      (let v = TrimSpace (cr_Stderr c) in if v \<noteq> [] then [''stderr: '' @ truncate_text v 500] else [])
          in if parts = [] then ''(the command printed nothing)'' else Join parts '' | '')"

section \<open>Provisioning\<close>

definition NewScheduler :: "string \<Rightarrow> string \<Rightarrow> scheduler" where
  "NewScheduler apiURL token =
     \<lparr>sc_apiURL = (if apiURL = [] then ''http://localhost:8080'' else apiURL), sc_token = token\<rparr>"

abbreviation vmTenantTTL :: duration where "vmTenantTTL \<equiv> 30 * minute"

definition RecordVMTenant :: "gotime \<Rightarrow> string \<Rightarrow> string \<Rightarrow> sched_state \<Rightarrow> sched_state" where
  "RecordVMTenant now vmID tenant st =
     (if vmID = [] \<or> tenant = [] then st
      else st\<lparr>st_tenants := (st_tenants st)(vmID \<mapsto> \<lparr>vt_tenant = tenant, vt_at = now\<rparr>)\<rparr>)"

definition VMTenant :: "gotime \<Rightarrow> string \<Rightarrow> sched_state \<Rightarrow> string option \<times> sched_state" where
  "VMTenant now vmID st =
     (case st_tenants st vmID of
        None \<Rightarrow> (None, st)
      | Some e \<Rightarrow>
          if now - vt_at e > vmTenantTTL then (None, st)
          else (Some (vt_tenant e), st\<lparr>st_tenants := (st_tenants st)(vmID \<mapsto> \<lparr>vt_tenant = vt_tenant e, vt_at = now\<rparr>)\<rparr>))"

definition log_effect :: "vm_effect \<Rightarrow> sched_state \<Rightarrow> sched_state" where
  "log_effect e st = st\<lparr>st_effects := st_effects st @ [e]\<rparr>"

definition createVMWithProvider ::
  "getenv \<Rightarrow> provider_env \<Rightarrow> scheduler \<Rightarrow> gotime \<Rightarrow> string \<Rightarrow> create_request \<Rightarrow> sched_state \<Rightarrow>
   (create_error + vm_info) \<times> sched_state" where
  "createVMWithProvider env pv sc now providerType req st =
     (case pv_get pv AtCreate providerType of
        Some e \<Rightarrow> (Inl (CreateNoProvider e), st)
      | None \<Rightarrow>
          let nc = vmNetworkConfig env providerType;
              createReq = \<lparr>cv_Name = ''sandrpod-'' @ cr_Name req, cv_Region = cr_Region req,
                cv_InstanceType = cr_InstanceType req, cv_ImageID = cr_ImageID req,
                cv_Tags = [(''CreatedBy'', ''sandrpod''), (''Sandbox'', cr_Name req)],
                cv_NetworkConfig = nc, cv_APIURL = sc_apiURL sc\<rparr>
          in case pv_create pv createReq of
               Inl e \<Rightarrow> (Inl (CreateFailed e), st)
             | Inr vm \<Rightarrow>
                 let st1 = RecordVMTenant now (vm_ID vm) (cr_Workspace req) (log_effect (VMCreated (vm_ID vm)) st)
                 in if nc_PublicIP nc \<and> vm_PublicIP vm = [] then (Inl (NoPublicIP (vm_ID vm)), st1)
                    else (Inr vm, st1))"

definition polls :: "duration \<Rightarrow> duration \<Rightarrow> nat" where
  "polls timeout interval = nat ((timeout + interval - 1) div interval)"

fun ready_loop :: "nat \<Rightarrow> (nat \<Rightarrow> string + bool) \<Rightarrow> bool" where
  "ready_loop 0 health = False"
| "ready_loop (Suc n) health =
     (case health 0 of Inr True \<Rightarrow> True | _ \<Rightarrow> ready_loop n (\<lambda>i. health (Suc i)))"

definition waitForVMReady :: "provider_env \<Rightarrow> string \<Rightarrow> string \<Rightarrow> ready_error option" where
  "waitForVMReady pv providerType vmID =
     (case pv_get pv AtReady providerType of
        Some e \<Rightarrow> Some (ReadyNoProvider e)
      | None \<Rightarrow> if ready_loop (polls (5 * minute) (10 * second)) (pv_health pv) then None
               else Some (ReadyTimeout vmID))"

definition installDocker :: string where
  "installDocker = Join
     [''set -u'',
      ''timeout 180 cloud-init status --wait >/dev/null 2>&1 || true'',
      ''if ! command -v docker >/dev/null 2>&1; then'',
      ''  if curl -fsSL https://get.docker.com -o /tmp/get-docker.sh 2>/tmp/get-docker.err; then'',
      ''    sh /tmp/get-docker.sh >/tmp/docker-install.log 2>&1 || true'',
      ''  fi'',
      ''fi'',
      ''if ! command -v docker >/dev/null 2>&1; then'',
      ''  # Fallback for images where get.docker.com is unreachable: the distro package.'',
      ''  (apt-get update -qq && DEBIAN_FRONTEND=noninteractive apt-get install -y -qq docker.io) >/tmp/docker-install.log 2>&1 || true'',
      ''fi'',
      ''systemctl enable --now docker >/dev/null 2>&1 || true'',
      ''docker --version ||'',
      ''  { echo '' @ [CHR 0x22] @ ''docker still missing'' @ [CHR 0x22] @
        ''; tail -5 /tmp/get-docker.err /tmp/docker-install.log 2>/dev/null; exit 1; }''] [CHR 0x0A]"

definition poderStartCmd :: "getenv \<Rightarrow> scheduler \<Rightarrow> string \<Rightarrow> string \<Rightarrow> vm_info \<Rightarrow> string" where
  "poderStartCmd env sc providerType region vm =
     (let tb = providerEnv env ''SANDRPOD_TOOLBOX_IMAGE'' providerType;
          toolboxEnv = (if tb \<noteq> [] then '' -e SANDRPOD_TOOLBOX_IMAGE='' @ quoted tb else []) @
            (if sc_token sc \<noteq> [] then '' -e SANDRPOD_TOKEN='' @ quoted (sc_token sc) else []) @
            (if vm_ID vm \<noteq> [] then '' -e VM_INSTANCE_ID='' @ quoted (vm_ID vm) else [])
      in ''docker run -d'' @ '' --name sandrpod-poder'' @ '' --restart=always'' @
         '' -e API_URL='' @ quoted (sc_apiURL sc) @
         '' -e PROXY_HOST='' @ quoted (vm_PublicIP vm) @
         '' -e REGION='' @ quoted region @
         '' -e PROVIDER_TYPE='' @ quoted providerType @
         toolboxEnv @
         '' -v /var/run/docker.sock:/var/run/docker.sock'' @
         '' '' @ quoted (poderImage env providerType))"

definition pullCmd :: "string \<Rightarrow> string" where
  "pullCmd img = ''docker pull '' @ quoted img @ '' 2>&1 | tail -3''"

text \<open>The two images pulled before the start: a failure of the first is an error, of the second only a
  warning.\<close>

definition setupPoderOnVM ::
  "getenv \<Rightarrow> provider_env \<Rightarrow> scheduler \<Rightarrow> string \<Rightarrow> string \<Rightarrow> vm_info \<Rightarrow> sched_state \<Rightarrow>
   setup_error option \<times> sched_state" where
  "setupPoderOnVM env pv sc providerType region vm st =
     (let run = (\<lambda>cmd s. (pv_exec pv (vm_ID vm) cmd, log_effect (VMExec (vm_ID vm) cmd) s));
          tb = providerEnv env ''SANDRPOD_TOOLBOX_IMAGE'' providerType;
          eg = providerEnv env ''SANDRPOD_EGRESS_IMAGE'' providerType;
          start = (\<lambda>s0. let s = (if eg \<noteq> [] then snd (run (pullCmd eg) s0) else s0) in
             case run (poderStartCmd env sc providerType region vm) s of
               (Inl e, s') \<Rightarrow> (Some (StartError e), s')
             | (Inr r, s') \<Rightarrow> if cr_ExitCode r \<noteq> 0 then (Some (StartExit (cr_ExitCode r) (execOutput (Some r))), s')
                             else (None, s'))
      in case pv_get pv AtSetup providerType of
           Some e \<Rightarrow> (Some (SetupNoProvider e), st)
         | None \<Rightarrow>
             (case run installDocker st of
                (Inl e, s1) \<Rightarrow> (Some (InstallError e), s1)
              | (Inr r, s1) \<Rightarrow>
                  if cr_ExitCode r \<noteq> 0 then (Some (InstallExit (cr_ExitCode r) (execOutput (Some r))), s1)
                  else if tb \<noteq> [] then
                    (case run (pullCmd tb) s1 of
                       (Inl e, s2) \<Rightarrow> (Some (PrePullFailed tb (execOutput None)), s2)
                     | (Inr q, s2) \<Rightarrow> if cr_ExitCode q \<noteq> 0 then (Some (PrePullFailed tb (execOutput (Some q))), s2)
                                     else start s2)
                  else start s1))"

definition terminateOrphanVM :: "provider_env \<Rightarrow> string \<Rightarrow> string \<Rightarrow> sched_state \<Rightarrow> cleanup \<times> sched_state" where
  "terminateOrphanVM pv providerType vmID st =
     (case pv_get pv AtDelete providerType of
        Some _ \<Rightarrow> (CleanupLeftRunning vmID, st)
      | None \<Rightarrow>
          (case pv_delete pv vmID of
             Some _ \<Rightarrow> (CleanupLeftRunning vmID, log_effect (VMDeleted vmID False) st)
           | None \<Rightarrow> (CleanupTerminated vmID, log_effect (VMDeleted vmID True) st)))"

section \<open>Placement\<close>

type_synonym 's selector = "'s \<Rightarrow> string \<Rightarrow> string \<Rightarrow> string list \<Rightarrow> string \<Rightarrow> poder_info option"

primrec waitForPoderRegistration ::
  "nat \<Rightarrow> 's selector \<Rightarrow> (nat \<Rightarrow> 's) \<Rightarrow> string \<Rightarrow> string \<Rightarrow> string list \<Rightarrow> string \<Rightarrow> poder_info option" where
  "waitForPoderRegistration 0 sel obs providerType region require tenant = None"
| "waitForPoderRegistration (Suc n) sel obs providerType region require tenant =
     (case sel (obs 0) region providerType require tenant of
        Some p \<Rightarrow> Some p
      | None \<Rightarrow> waitForPoderRegistration n sel (\<lambda>i. obs (Suc i)) providerType region require tenant)"

definition capabilityRequirement :: "create_request \<Rightarrow> string list" where
  "capabilityRequirement req = (case cr_Network req of Some _ \<Rightarrow> [CapabilityEgress] | None \<Rightarrow> [])"

definition placed :: "string \<Rightarrow> string \<Rightarrow> poder_info \<Rightarrow> bool" where
  "placed providerType region p \<longleftrightarrow>
     po_State p = PoderOnline \<and> \<not> (region \<noteq> [] \<and> po_Region p \<noteq> region) \<and>
     \<not> (providerType \<noteq> [] \<and> po_ProviderType p \<noteq> providerType)"

definition atCapacity :: "string \<Rightarrow> string \<Rightarrow> poder_info list \<Rightarrow> nat" where
  "atCapacity providerType region ps =
     length (filter (\<lambda>p. placed providerType region p \<and>
        pu_Containers (po_Usage p) \<ge> pr_MaxContainers (po_Resources p)) ps)"

definition onlineWithoutCapability :: "string \<Rightarrow> string \<Rightarrow> string list \<Rightarrow> poder_info list \<Rightarrow> nat" where
  "onlineWithoutCapability providerType region require ps =
     length (filter (\<lambda>p. placed providerType region p \<and> \<not> list_all (HasCapability p) require) ps)"

definition createJobForPoder :: "gotime \<Rightarrow> string \<Rightarrow> create_request \<Rightarrow> poder_info \<Rightarrow> job" where
  "createJobForPoder now jobID req p =
     \<lparr>j_ID = jobID, j_Type = CreateSandbox, j_Status = JobPending, j_SandboxName = cr_Name req, j_SandboxID = [],
      j_Region = cr_Region req, j_ProviderType = cr_ProviderType req, j_PoderID = po_ID p, j_PoderURL = po_URL p,
      j_VmID = [], j_InstanceType = cr_InstanceType req, j_ImageID = cr_ImageID req, j_Command = [],
      j_Language = [], j_Result = None, j_ErrorMessage = [], j_Request = [], j_Owner = [],
      j_TraceContext = Map.empty, j_CreatedAt = now, j_UpdatedAt = now\<rparr>"

record 's observations =
  ob_first :: 's
  ob_caps :: "poder_info list"
  ob_full :: "poder_info list"
  ob_grace :: "nat \<Rightarrow> 's"
  ob_other :: "nat \<Rightarrow> 's"
  ob_registered :: "nat \<Rightarrow> 's"
  ob_book :: "provision_book \<Rightarrow> provision_book"
  ob_grace_period :: duration
  ob_reserve_at :: gotime
  ob_again_at :: gotime
  ob_vm_at :: gotime
  ob_job_at :: gotime
  ob_job_id :: string

abbreviation millis :: duration where "millis \<equiv> 1000000"

definition new_job :: "'s observations \<Rightarrow> create_request \<Rightarrow> poder_info \<Rightarrow> job" where
  "new_job ob req p = createJobForPoder (ob_job_at ob) (ob_job_id ob) req p"

text \<open>Steps 3 to 7 of \<^verbatim>\<open>ScheduleSandboxCreation\<close>, between taking the reservation and its deferred release.\<close>

definition provision ::
  "getenv \<Rightarrow> provider_env \<Rightarrow> 's selector \<Rightarrow> 's observations \<Rightarrow> scheduler \<Rightarrow> string \<Rightarrow> create_request \<Rightarrow> sched_state \<Rightarrow>
   (sched_error + job) \<times> sched_state" where
  "provision env pv sel ob sc providerType req st =
     (case createVMWithProvider env pv sc (ob_vm_at ob) providerType req st of
        (Inl e, st1) \<Rightarrow> (Inl (CreateVMFailed e), st1)
      | (Inr vm, st1) \<Rightarrow>
          (case waitForVMReady pv providerType (vm_ID vm) of
             Some e \<Rightarrow> (case terminateOrphanVM pv providerType (vm_ID vm) st1 of
                          (c, st2) \<Rightarrow> (Inl (VMNotReady e c), st2))
           | None \<Rightarrow>
               (case setupPoderOnVM env pv sc providerType (cr_Region req) vm st1 of
                  (Some e, st2) \<Rightarrow> (case terminateOrphanVM pv providerType (vm_ID vm) st2 of
                                     (c, st3) \<Rightarrow> (Inl (SetupFailed e c), st3))
                | (None, st2) \<Rightarrow>
                    (case waitForPoderRegistration (polls (5 * minute) (5 * second)) sel (ob_registered ob)
                            providerType (cr_Region req) (capabilityRequirement req) (cr_Workspace req) of
                       Some p \<Rightarrow> (Inr (new_job ob req p), st2)
                     | None \<Rightarrow>
                         let probe = ''docker ps -a --format '{{.Names}} {{.Status}}'; echo '--- logs ---'; docker logs --tail 30 sandrpod-poder 2>&1'';
                             st3 = (if pv_get pv AtProbe providerType = None
                                    then log_effect (VMExec (vm_ID vm) probe) st2 else st2)
                         in (case terminateOrphanVM pv providerType (vm_ID vm) st3 of
                               (c, st4) \<Rightarrow> (Inl (RegistrationTimeout c), st4))))))"

definition sched_provider :: "create_request \<Rightarrow> string" where
  "sched_provider req = (if cr_ProviderType req = [] then ''local'' else cr_ProviderType req)"

definition ScheduleSandboxCreation ::
  "getenv \<Rightarrow> provider_env \<Rightarrow> 's selector \<Rightarrow> 's observations \<Rightarrow> scheduler \<Rightarrow> create_request \<Rightarrow> sched_state \<Rightarrow>
   (sched_error + job) \<times> sched_state" where
  "ScheduleSandboxCreation env pv sel ob sc req st =
     (let providerType = sched_provider req; require = capabilityRequirement req;
          region = cr_Region req; tenant = cr_Workspace req
      in case sel (ob_first ob) region providerType require tenant of
           Some p \<Rightarrow> (Inr (new_job ob req p), st)
         | None \<Rightarrow>
             if providerType = ''local'' \<or> providerType = ''docker'' then
               (let lacking = onlineWithoutCapability providerType region require (ob_caps ob);
                    full = atCapacity providerType region (ob_full ob)
                in if require \<noteq> [] \<and> lacking > 0
                   then (Inl (CapabilityUnavailable lacking providerType (hd require)), st)
                   else if full > 0 then (Inl (AtCapacity providerType full), st)
                   else case waitForPoderRegistration (polls (ob_grace_period ob) (500 * millis)) sel (ob_grace ob)
                               providerType region require tenant of
                          Some p \<Rightarrow> (Inr (new_job ob req p), st)
                        | None \<Rightarrow> (Inl (NoWorkerRegistered providerType (ob_grace_period ob)), st))
             else
               (let key = provisioningKey providerType region;
                    go = (\<lambda>s. case provision env pv sel ob sc providerType req s of
                                (res, s') \<Rightarrow> (res, s'\<lparr>st_book := release key (st_book s')\<rparr>))
                in case reserve (ob_reserve_at ob) key (st_book st) of
                     (True, b) \<Rightarrow> go (st\<lparr>st_book := b\<rparr>)
                   | (False, b) \<Rightarrow>
                       (case waitForPoderRegistration (polls provisioningTTL (5 * second)) sel (ob_other ob)
                               providerType region require tenant of
                          Some p \<Rightarrow> (Inr (new_job ob req p), st\<lparr>st_book := ob_book ob b\<rparr>)
                        | None \<Rightarrow>
                            go (st\<lparr>st_book := snd (reserve (ob_again_at ob) key (ob_book ob b))\<rparr>))))"

section \<open>Lemmas on provisioning\<close>

lemma log_effect_effects [simp]: "st_effects (log_effect e st) = st_effects st @ [e]"
  by (simp add: log_effect_def)

lemma log_effect_book [simp]: "st_book (log_effect e st) = st_book st"
  by (simp add: log_effect_def)

lemma RecordVMTenant_simps [simp]:
  "st_effects (RecordVMTenant now i t st) = st_effects st" "st_book (RecordVMTenant now i t st) = st_book st"
  by (simp_all add: RecordVMTenant_def)

text \<open>Waiting is the locale's polling, so what holds of polling any registry holds of it.\<close>

lemma wait_is_poll:
  "waitForPoderRegistration n (\<lambda>(ord, s) region pt require tenant. SelectBestFor ord region pt require tenant s) obs pt region require tenant
     = memory_selector.poll n obs region pt require tenant"
  by (induction n arbitrary: obs) (simp_all split: option.split)

abbreviation mem_select :: "(string list \<times> poder_store) selector" where
  "mem_select \<equiv> (\<lambda>(ord, s) region pt require tenant. SelectBestFor ord region pt require tenant s)"

text \<open>What setting up does to the log: it only runs commands on that VM.\<close>

lemma setup_effects:
  assumes "setupPoderOnVM env pv sc pt region vm st = (res, st')"
  shows "\<exists>es. st_effects st' = st_effects st @ es \<and> (\<forall>e \<in> set es. \<exists>cmd. e = VMExec (vm_ID vm) cmd)"
  using assms
  by (auto simp: setupPoderOnVM_def Let_def split: option.splits sum.splits if_splits)

lemma create_effects:
  assumes "createVMWithProvider env pv sc now pt req st = (res, st')"
  shows "case res of
      Inr vm \<Rightarrow> st_effects st' = st_effects st @ [VMCreated (vm_ID vm)]
    | Inl (NoPublicIP i) \<Rightarrow> st_effects st' = st_effects st @ [VMCreated i]
    | Inl _ \<Rightarrow> st_effects st' = st_effects st"
  using assms
  by (auto simp: createVMWithProvider_def Let_def split: option.splits sum.splits if_splits)

lemma terminate_effects:
  assumes "terminateOrphanVM pv pt i st = (c, st')"
  shows "c = CleanupTerminated i \<and> st_effects st' = st_effects st @ [VMDeleted i True] \<or>
    c = CleanupLeftRunning i \<and> (st_effects st' = st_effects st @ [VMDeleted i False] \<or>
      st_effects st' = st_effects st \<and> pv_get pv AtDelete pt \<noteq> None)"
  using assms by (auto simp: terminateOrphanVM_def split: option.splits)

definition error_cleanup :: "sched_error \<Rightarrow> cleanup option" where
  "error_cleanup e = (case e of VMNotReady _ c \<Rightarrow> Some c | SetupFailed _ c \<Rightarrow> Some c
     | RegistrationTimeout c \<Rightarrow> Some c | _ \<Rightarrow> None)"

text \<open>How provisioning can end, with the effects it leaves.\<close>

definition gave_back :: "string \<Rightarrow> cleanup \<Rightarrow> vm_effect list \<Rightarrow> bool \<Rightarrow> bool" where
  "gave_back i c es unavailable \<longleftrightarrow>
     c = CleanupTerminated i \<and> VMDeleted i True \<in> set es \<or>
     c = CleanupLeftRunning i \<and> (VMDeleted i False \<in> set es \<or> unavailable) \<and> VMDeleted i True \<notin> set es"

definition provision_end :: "provider_env \<Rightarrow> string \<Rightarrow> sched_error + job \<Rightarrow> vm_effect list \<Rightarrow> bool" where
  "provision_end pv pt res es \<longleftrightarrow>
     (case res of
        Inr j \<Rightarrow> (\<exists>i. VMCreated i \<in> set es) \<and> (\<forall>i ok. VMDeleted i ok \<notin> set es)
      | Inl (CreateVMFailed (NoPublicIP i)) \<Rightarrow> es = [VMCreated i]
      | Inl (CreateVMFailed _) \<Rightarrow> es = []
      | Inl e \<Rightarrow> (\<exists>i c. error_cleanup e = Some c \<and> {j. VMCreated j \<in> set es} = {i} \<and>
                      gave_back i c es (pv_get pv AtDelete pt \<noteq> None)))"

lemma gave_back_after:
  assumes "terminateOrphanVM pv pt i st = (c, st')" and "st_effects st = st0 @ VMCreated i # es"
    and "\<forall>e \<in> set es. \<exists>cmd. e = VMExec i cmd"
  shows "\<exists>es'. st_effects st' = st0 @ es' \<and> {j. VMCreated j \<in> set es'} = {i} \<and>
    gave_back i c es' (pv_get pv AtDelete pt \<noteq> None)"
proof -
  have no: "VMDeleted i ok \<notin> set es" "VMCreated j \<notin> set es" for ok j using assms(3) by auto
  from terminate_effects [OF assms(1)] show ?thesis
  proof (elim disjE conjE)
    assume "c = CleanupTerminated i" "st_effects st' = st_effects st @ [VMDeleted i True]"
    then show ?thesis using assms(2) no by (intro exI [of _ "VMCreated i # es @ [VMDeleted i True]"]) (auto simp: gave_back_def)
  next
    assume "c = CleanupLeftRunning i" "st_effects st' = st_effects st @ [VMDeleted i False]"
    then show ?thesis using assms(2) no by (intro exI [of _ "VMCreated i # es @ [VMDeleted i False]"]) (auto simp: gave_back_def)
  next
    assume "c = CleanupLeftRunning i" "st_effects st' = st_effects st" "pv_get pv AtDelete pt \<noteq> None"
    then show ?thesis using assms(2) no by (intro exI [of _ "VMCreated i # es"]) (auto simp: gave_back_def)
  qed
qed

lemma provision_ends:
  assumes "provision env pv sel ob sc pt req st = (res, st')"
  shows "\<exists>es. st_effects st' = st_effects st @ es \<and> provision_end pv pt res es"
proof -
  obtain cres st1 where c: "createVMWithProvider env pv sc (ob_vm_at ob) pt req st = (cres, st1)" by fastforce
  note ce = create_effects [OF c]
  show ?thesis
  proof (cases cres)
    case (Inl e)
    then show ?thesis using assms c ce
      by (cases e) (auto simp: provision_def provision_end_def)
  next
    case (Inr vm)
    then have e1: "st_effects st1 = st_effects st @ VMCreated (vm_ID vm) # []" using ce by simp
    show ?thesis
    proof (cases "waitForVMReady pv pt (vm_ID vm)")
      case (Some e)
      obtain k st2 where t: "terminateOrphanVM pv pt (vm_ID vm) st1 = (k, st2)" by fastforce
      then have "res = Inl (VMNotReady e k)" "st' = st2" using assms c Inr Some by (simp_all add: provision_def)
      with gave_back_after [OF t e1] show ?thesis by (auto simp: provision_end_def error_cleanup_def)
    next
      case None
      obtain sres st2 where s: "setupPoderOnVM env pv sc pt (cr_Region req) vm st1 = (sres, st2)" by fastforce
      from setup_effects [OF s] e1 obtain es where e2: "st_effects st2 = st_effects st @ VMCreated (vm_ID vm) # es"
        and x: "\<forall>e \<in> set es. \<exists>cmd. e = VMExec (vm_ID vm) cmd" by auto
      show ?thesis
      proof (cases sres)
        case (Some e)
        obtain k st3 where t: "terminateOrphanVM pv pt (vm_ID vm) st2 = (k, st3)" by fastforce
        then have "res = Inl (SetupFailed e k)" "st' = st3" using assms c Inr None s Some by (simp_all add: provision_def)
        with gave_back_after [OF t e2 x] show ?thesis by (auto simp: provision_end_def error_cleanup_def)
      next
        case set_up: None
        let ?wait = "waitForPoderRegistration (polls (5 * minute) (5 * second)) sel (ob_registered ob)
           pt (cr_Region req) (capabilityRequirement req) (cr_Workspace req)"
        show ?thesis
        proof (cases ?wait)
          case (Some p)
          then have "res = Inr (new_job ob req p)" "st' = st2" using assms c Inr None s set_up by (simp_all add: provision_def)
          then show ?thesis using e2 x by (auto simp: provision_end_def)
        next
          case never: None
          define probe where "probe = ''docker ps -a --format '{{.Names}} {{.Status}}'; echo '--- logs ---'; docker logs --tail 30 sandrpod-poder 2>&1''"
          define st3 where "st3 = (if pv_get pv AtProbe pt = None then log_effect (VMExec (vm_ID vm) probe) st2 else st2)"
          obtain k st4 where t: "terminateOrphanVM pv pt (vm_ID vm) st3 = (k, st4)" by fastforce
          have r: "res = Inl (RegistrationTimeout k)" "st' = st4"
            using assms c Inr None s set_up never t unfolding st3_def probe_def by (simp_all add: provision_def Let_def)
          have "\<exists>es3. st_effects st3 = st_effects st @ VMCreated (vm_ID vm) # es3 \<and> (\<forall>e \<in> set es3. \<exists>cmd. e = VMExec (vm_ID vm) cmd)"
            using e2 x by (auto simp: st3_def)
          with gave_back_after [OF t] r show ?thesis by (fastforce simp: provision_end_def error_cleanup_def)
        qed
      qed
    qed
  qed
qed

lemma provision_book: "st_book (snd (provision env pv sel ob sc pt req st)) = st_book st"
proof -
  have c: "createVMWithProvider env pv sc now pt req st = (r, st') \<Longrightarrow> st_book st' = st_book st" for now r st st'
    by (auto simp: createVMWithProvider_def Let_def split: option.splits sum.splits if_splits)
  have t: "terminateOrphanVM pv pt i st = (r, st') \<Longrightarrow> st_book st' = st_book st" for i r st st'
    by (auto simp: terminateOrphanVM_def split: option.splits)
  have s: "setupPoderOnVM env pv sc pt region vm st = (r, st') \<Longrightarrow> st_book st' = st_book st" for region vm r st st'
    by (auto simp: setupPoderOnVM_def Let_def split: option.splits sum.splits if_splits)
  show ?thesis
    by (auto simp: provision_def Let_def split: prod.split sum.split option.split dest!: c t s)
qed

lemma provision_job:
  assumes "provision env pv sel ob sc pt req st = (Inr j, st')"
  shows "\<exists>p. j = new_job ob req p \<and> waitForPoderRegistration (polls (5 * minute) (5 * second)) sel (ob_registered ob)
     pt (cr_Region req) (capabilityRequirement req) (cr_Workspace req) = Some p"
  using assms by (auto simp: provision_def Let_def split: prod.splits sum.splits option.splits)

text \<open>The states of the registry a call looks at.\<close>

definition looks :: "'s observations \<Rightarrow> 's set" where
  "looks ob = {ob_first ob} \<union> range (ob_grace ob) \<union> range (ob_other ob) \<union> range (ob_registered ob)"

lemma looks_members:
  "ob_first ob \<in> looks ob" "range (ob_grace ob) \<subseteq> looks ob" "range (ob_other ob) \<subseteq> looks ob"
  "range (ob_registered ob) \<subseteq> looks ob"
  by (auto simp: looks_def)

lemma schedule_job:
  assumes "fst (ScheduleSandboxCreation env pv sel ob sc req st) = Inr j"
  shows "\<exists>p n obs. j = new_job ob req p \<and> range obs \<subseteq> looks ob \<and>
     waitForPoderRegistration n sel obs (sched_provider req) (cr_Region req) (capabilityRequirement req) (cr_Workspace req) = Some p"
proof -
  let ?w = "\<lambda>n obs. waitForPoderRegistration n sel obs (sched_provider req) (cr_Region req)
      (capabilityRequirement req) (cr_Workspace req)"
  let ?go = "\<lambda>s. provision env pv sel ob sc (sched_provider req) req s"
  consider p where "sel (ob_first ob) (cr_Region req) (sched_provider req) (capabilityRequirement req) (cr_Workspace req) = Some p"
      "j = new_job ob req p"
    | p n where "?w n (ob_grace ob) = Some p" "j = new_job ob req p"
    | p n where "?w n (ob_other ob) = Some p" "j = new_job ob req p"
    | s s' where "?go s = (Inr j, s')"
    using assms
    by (auto simp: ScheduleSandboxCreation_def Let_def split: option.splits if_splits prod.splits bool.splits)
  then show ?thesis
  proof cases
    case 1
    then have "?w 1 (\<lambda>_. ob_first ob) = Some p" by simp
    moreover have "range (\<lambda>_ :: nat. ob_first ob) \<subseteq> looks ob" using looks_members(1) by blast
    ultimately show ?thesis using 1(2) by (intro exI conjI)
  next
    case 2
    then show ?thesis using looks_members(2) by (intro exI conjI)
  next
    case 3
    then show ?thesis using looks_members(3) by (intro exI conjI)
  next
    case 4
    from provision_job [OF this] show ?thesis using looks_members(4) by (elim exE conjE) (intro exI conjI)
  qed
qed

lemma provision_end_orphan:
  assumes "provision_end pv pt res es"
  shows "case res of
       Inr j \<Rightarrow> \<forall>i ok. VMDeleted i ok \<notin> set es
     | Inl e \<Rightarrow> \<forall>i. VMCreated i \<in> set es \<longrightarrow>
         e = CreateVMFailed (NoPublicIP i) \<or>
         error_cleanup e = Some (CleanupTerminated i) \<and> VMDeleted i True \<in> set es \<or>
         error_cleanup e = Some (CleanupLeftRunning i) \<and> VMDeleted i True \<notin> set es \<and>
           (VMDeleted i False \<in> set es \<or> pv_get pv AtDelete pt \<noteq> None)"
proof (cases res)
  case (Inl e)
  have cleaned: "\<forall>i. VMCreated i \<in> set es \<longrightarrow>
         error_cleanup e = Some (CleanupTerminated i) \<and> VMDeleted i True \<in> set es \<or>
         error_cleanup e = Some (CleanupLeftRunning i) \<and> VMDeleted i True \<notin> set es \<and>
           (VMDeleted i False \<in> set es \<or> pv_get pv AtDelete pt \<noteq> None)"
    if "error_cleanup e = Some c" "{j. VMCreated j \<in> set es} = {i}" "gave_back i c es (pv_get pv AtDelete pt \<noteq> None)" for i c
  proof (intro allI impI)
    fix k assume "VMCreated k \<in> set es"
    then have "k = i" using that(2) by blast
    with that(1,3) show "error_cleanup e = Some (CleanupTerminated k) \<and> VMDeleted k True \<in> set es \<or>
         error_cleanup e = Some (CleanupLeftRunning k) \<and> VMDeleted k True \<notin> set es \<and>
           (VMDeleted k False \<in> set es \<or> pv_get pv AtDelete pt \<noteq> None)"
      unfolding gave_back_def by blast
  qed
  show ?thesis
  proof (cases e)
    case (CreateVMFailed x)
    with Inl assms show ?thesis by (cases x) (simp_all add: provision_end_def)
  qed (use Inl assms cleaned in \<open>simp_all only: provision_end_def sum.case sched_error.case, blast+\<close>)
qed (use assms in \<open>simp add: provision_end_def\<close>)

section \<open>Properties of the scheduler\<close>

text \<open>Claim C23. A sandbox is only placed where the rules allow: whichever way a job comes about, directly, after the
  grace period, after waiting for another create's VM or on a VM of its own, the worker it names was
  registered at some look at the registry and then was online, below its limit, of the region and
  provider asked for, not another tenant's, and able to enforce what the request needs.\<close>

theorem schedule_respects_placement:
  assumes "fst (ScheduleSandboxCreation env pv
      (\<lambda>(ord, s) region pt require tenant. SelectBestFor ord region pt require tenant s) ob sc req st) = Inr j"
  shows "\<exists>p. j_PoderID j = po_ID p \<and> j_PoderURL j = po_URL p \<and>
    (\<exists>(ord, s) \<in> looks ob. \<exists>i. s i = Some p) \<and>
    po_State p = PoderOnline \<and> pu_Containers (po_Usage p) < pr_MaxContainers (po_Resources p) \<and>
    (cr_Region req = [] \<or> po_Region p = cr_Region req) \<and> po_ProviderType p = sched_provider req \<and>
    (cr_Workspace req = [] \<or> po_Workspace p = [] \<or> po_Workspace p = cr_Workspace req) \<and>
    (cr_Network req \<noteq> None \<longrightarrow> HasCapability p CapabilityEgress) \<and>
    j_SandboxName j = cr_Name req \<and> j_Status j = JobPending"
proof -
  from schedule_job [OF assms] obtain p n obs where j: "j = new_job ob req p"
    and obs: "range obs \<subseteq> looks ob"
    and w: "memory_selector.poll n obs (cr_Region req) (sched_provider req) (capabilityRequirement req) (cr_Workspace req) = Some p"
    unfolding wait_is_poll by blast
  from memory_selector.poll_sound [OF w] obtain i ord s where i: "obs i = (ord, s)" "p \<in> ran s"
    and e: "eligible (cr_Region req) (sched_provider req) (capabilityRequirement req) (cr_Workspace req) p" by auto
  have "obs i \<in> looks ob" using obs by (rule subsetD) (rule rangeI)
  then have "(ord, s) \<in> looks ob" by (simp only: i(1))
  moreover obtain k where "s k = Some p" using i(2) by (auto simp: ran_def)
  ultimately have "\<exists>(ord, s) \<in> looks ob. \<exists>i. s i = Some p"
    by (intro bexI [of _ "(ord, s)"]) auto
  moreover have "sched_provider req \<noteq> []" by (simp add: sched_provider_def)
  moreover have "cr_Network req \<noteq> None \<longrightarrow> HasCapability p CapabilityEgress"
    using e by (auto simp: eligible_def capabilityRequirement_def)
  moreover have "j_PoderID j = po_ID p" "j_PoderURL j = po_URL p" "j_SandboxName j = cr_Name req" "j_Status j = JobPending"
    using j by (simp_all add: new_job_def createJobForPoder_def)
  ultimately show ?thesis using e unfolding eligible_def not_le by (intro exI [of _ p]) blast
qed

definition demo_create :: create_request where
  "demo_create = \<lparr>cr_Name = ''box'', cr_Region = ''eu'', cr_ProviderType = ''aws'', cr_InstanceType = [], cr_ImageID = [],
     cr_TTLSeconds = 0, cr_CPUCores = 0, cr_MemoryMB = 0, cr_Workspace = ''t1'', cr_Async = False,
     cr_Network = Some demo_policy\<rparr>"

definition demo_ok :: command_result where
  "demo_ok = \<lparr>cr_Output = [], cr_ExitCode = 0, cr_Stderr = []\<rparr>"

definition demo_provider :: provider_env where
  "demo_provider = \<lparr>pv_get = (\<lambda>_ _. None), pv_create = (\<lambda>_. Inr \<lparr>vm_ID = ''i-1'', vm_PublicIP = ''203.0.113.7''\<rparr>),
     pv_health = (\<lambda>i. Inr (i \<ge> 2)), pv_exec = (\<lambda>_ _. Inr demo_ok), pv_delete = (\<lambda>_. None)\<rparr>"

definition demo_ob :: "poder_store \<Rightarrow> (string list \<times> poder_store) observations" where
  "demo_ob s = \<lparr>ob_first = ([], NewPoderStore), ob_caps = [], ob_full = [], ob_grace = (\<lambda>_. ([], NewPoderStore)),
     ob_other = (\<lambda>_. ([], NewPoderStore)), ob_registered = (\<lambda>i. if i < 3 then ([], NewPoderStore) else ([''b''], s)),
     ob_book = (\<lambda>b. b), ob_grace_period = 30 * second, ob_reserve_at = 0, ob_again_at = 0, ob_vm_at = 0, ob_job_at = 0,
     ob_job_id = ''job-1''\<rparr>"

definition demo_sched :: scheduler where "demo_sched = NewScheduler [] ''secret''"

definition demo_state :: sched_state where
  "demo_state = \<lparr>st_book = (\<lambda>_. None), st_tenants = (\<lambda>_. None), st_effects = []\<rparr>"

abbreviation demo_schedule :: "poder_store \<Rightarrow> provider_env \<Rightarrow> sched_state \<Rightarrow> (sched_error + job) \<times> sched_state" where
  "demo_schedule s pv st \<equiv> ScheduleSandboxCreation (\<lambda>_. []) pv mem_select (demo_ob s) demo_sched demo_create st"

definition is_job :: "sched_error + job \<Rightarrow> bool" where
  "is_job r = (case r of Inl _ \<Rightarrow> False | Inr _ \<Rightarrow> True)"

lemma demo_job_created: "is_job (fst (demo_schedule demo_poders demo_provider demo_state)) = True"
  by code_simp

theorem schedule_respects_placement_witness:
  "\<exists>j p. fst (demo_schedule demo_poders demo_provider demo_state) = Inr j \<and> j_PoderID j = po_ID p \<and>
     po_ProviderType p = ''aws'' \<and> HasCapability p CapabilityEgress"
proof -
  obtain j where j: "fst (demo_schedule demo_poders demo_provider demo_state) = Inr j"
    using demo_job_created by (cases "fst (demo_schedule demo_poders demo_provider demo_state)") (auto simp: is_job_def)
  have "sched_provider demo_create = ''aws''" "cr_Network demo_create \<noteq> None"
    by (simp_all add: sched_provider_def demo_create_def)
  with j schedule_respects_placement [OF j] show ?thesis by auto
qed

text \<open>Claim C6. No VM is left behind unnoticed: whenever a create ends in an error after a VM was created, either the
  deletion of that VM was attempted (or its provider could not be reached for it) and the error says
  truthfully whether the VM is gone, or the error is the one that names the VM for manual cleanup because
  it has no public address. When a create succeeds, no VM was deleted.\<close>

theorem orphan_vm_is_given_back:
  assumes "ScheduleSandboxCreation env pv sel ob sc req st = (res, st')"
  shows "\<exists>es. st_effects st' = st_effects st @ es \<and>
    (case res of
       Inr j \<Rightarrow> \<forall>i ok. VMDeleted i ok \<notin> set es
     | Inl e \<Rightarrow> \<forall>i. VMCreated i \<in> set es \<longrightarrow>
         e = CreateVMFailed (NoPublicIP i) \<or>
         error_cleanup e = Some (CleanupTerminated i) \<and> VMDeleted i True \<in> set es \<or>
         error_cleanup e = Some (CleanupLeftRunning i) \<and> VMDeleted i True \<notin> set es \<and>
           (VMDeleted i False \<in> set es \<or> pv_get pv AtDelete (sched_provider req) \<noteq> None))"
proof -
  consider "st_effects st' = st_effects st"
    | s s' where "provision env pv sel ob sc (sched_provider req) req s = (res, s')" "st_effects s = st_effects st" "st_effects st' = st_effects s'"
    using assms
    by (auto simp: ScheduleSandboxCreation_def Let_def split: option.splits if_splits prod.splits bool.splits)
  then show ?thesis
  proof cases
    case 1
    then show ?thesis by (auto split: sum.split)
  next
    case 2
    from provision_ends [OF 2(1)] obtain es where es: "st_effects s' = st_effects s @ es"
      and p: "provision_end pv (sched_provider req) res es" by blast
    with es 2 provision_end_orphan [OF p] show ?thesis by auto
  qed
qed

theorem orphan_vm_is_given_back_witness:
  "\<exists>e. fst (demo_schedule NewPoderStore demo_provider demo_state) = Inl e \<and>
     error_cleanup e = Some (CleanupTerminated ''i-1'')"
proof -
  let ?r = "demo_schedule NewPoderStore demo_provider demo_state"
  have t: "(case fst ?r of Inl e \<Rightarrow> error_cleanup e | Inr _ \<Rightarrow> None) = Some (CleanupTerminated ''i-1'')" by code_simp
  have c: "VMCreated ''i-1'' \<in> set (st_effects (snd ?r))" by code_simp
  obtain e where e: "fst ?r = Inl e" using t by (cases "fst ?r") auto
  have "?r = (Inl e, snd ?r)" using e by (simp only: prod_eq_iff fst_conv snd_conv)
  from orphan_vm_is_given_back [OF this] c t e show ?thesis by (auto simp: demo_state_def)
qed

text \<open>Local and docker requests never reach the cloud: no VM is created, no command run, and neither the
  reservations nor the tenants of VMs change.\<close>

theorem local_never_provisions:
  assumes "sched_provider req \<in> {''local'', ''docker''}"
  shows "snd (ScheduleSandboxCreation env pv sel ob sc req st) = st"
  using assms
  by (auto simp: ScheduleSandboxCreation_def Let_def split: option.split)

theorem local_never_provisions_witness:
  "snd (ScheduleSandboxCreation (\<lambda>_. []) demo_provider mem_select (demo_ob NewPoderStore) demo_sched
      (demo_create\<lparr>cr_ProviderType := []\<rparr>) demo_state) = demo_state"
  by (rule local_never_provisions) (simp add: sched_provider_def)

text \<open>The reservation is given up however provisioning ends: after a create that tried to bring a VM up,
  successfully or not, nothing is reserved for its provider and region, and the reservations of others are
  as they were.\<close>

theorem reservation_is_released:
  assumes "sel (ob_first ob) (cr_Region req) (sched_provider req) (capabilityRequirement req) (cr_Workspace req) = None"
    and "sched_provider req \<notin> {''local'', ''docker''}"
    and "st_book st (provisioningKey (sched_provider req) (cr_Region req)) = None"
  shows "st_book (snd (ScheduleSandboxCreation env pv sel ob sc req st)) = st_book st"
proof -
  let ?key = "provisioningKey (sched_provider req) (cr_Region req)"
  have "reserve (ob_reserve_at ob) ?key (st_book st) = (True, (st_book st)(?key \<mapsto> ob_reserve_at ob))"
    using assms(3) by (simp add: reserve_def)
  moreover have "(st_book st)(?key := None) = st_book st" using assms(3) by (simp add: fun_upd_idem_iff)
  ultimately show ?thesis
    using assms(1,2) provision_book [of env pv sel ob sc "sched_provider req" req "st\<lparr>st_book := (st_book st)(?key \<mapsto> ob_reserve_at ob)\<rparr>"]
    by (simp add: ScheduleSandboxCreation_def Let_def release_def case_prod_beta)
qed

theorem reservation_is_released_witness:
  "st_book (snd (demo_schedule NewPoderStore demo_provider demo_state)) = st_book demo_state"
proof (rule reservation_is_released)
  have "SelectBestFor [] r p q t NewPoderStore = None" for r p q t
    by (simp add: SelectBestFor_def visit_def List.map_filter_def)
  then show "mem_select (ob_first (demo_ob NewPoderStore)) (cr_Region demo_create) (sched_provider demo_create)
      (capabilityRequirement demo_create) (cr_Workspace demo_create) = None" by (simp add: demo_ob_def)
qed (simp_all add: sched_provider_def demo_create_def demo_state_def)

text \<open>A waiter provisions beside another: when a create waited in vain and meanwhile another create took
  the reservation, the second attempt to reserve fails, and the create brings up its own VM all the same
  and in the end drops the other's reservation.\<close>

theorem second_reservation_is_ignored:
  "let key = provisioningKey ''aws'' ''eu'';
       ob = (demo_ob demo_poders)\<lparr>ob_reserve_at := minute, ob_again_at := 10 * minute, ob_book := (\<lambda>b. b(key \<mapsto> 9 * minute))\<rparr>;
       st = demo_state\<lparr>st_book := [key \<mapsto> 0]\<rparr>;
       r = ScheduleSandboxCreation (\<lambda>_. []) demo_provider mem_select ob demo_sched demo_create st
   in fst (reserve (10 * minute) key (ob_book ob (st_book st))) = False \<and>
      VMCreated ''i-1'' \<in> set (st_effects (snd r)) \<and> st_book (snd r) key = None"
  unfolding Let_def by (intro conjI; code_simp)

end
