(* ===== verification/Scheduler_Shell.thy ===== *)
theory Scheduler_Shell
  imports Scheduler
begin

text \<open>
  The command line the scheduler runs on a new VM, read by a shell. \<open>sh_words\<close> splits a line into words
  the way a POSIX shell does for blanks, single quotes and backslashes; any other character that is
  special to a shell and stands outside quotes (an expansion, a redirection, a separator, a double
  quote, a comment, a glob) has the result \<open>None\<close>, so a line that splits at all runs exactly one
  command with exactly these arguments.

  Shown here: a quoted value is read back as itself whatever it contains, and the line that starts the
  worker container has exactly the arguments the code means, for all tokens, regions and image names.
\<close>

datatype sh_mode = ShOut | ShQuote | ShEscape

definition sh_special :: "char \<Rightarrow> bool" where
  "sh_special c \<longleftrightarrow> c \<in> set ''$`;&|<>()#*?[]{}~!'' \<or> c = CHR 0x22 \<or> c = CHR 0x09 \<or> c = CHR 0x0A"

definition sh_flush :: "string option \<Rightarrow> string list" where
  "sh_flush cur = (case cur of None \<Rightarrow> [] | Some w \<Rightarrow> [w])"

definition sh_word :: "string option \<Rightarrow> string" where
  "sh_word cur = (case cur of None \<Rightarrow> [] | Some w \<Rightarrow> w)"

lemma sh_cur_simps [simp]:
  "sh_flush None = []" "sh_flush (Some w) = [w]" "sh_word None = []" "sh_word (Some w) = w"
  by (simp_all add: sh_flush_def sh_word_def)

fun sh_words :: "sh_mode \<Rightarrow> string option \<Rightarrow> string \<Rightarrow> string list option" where
  "sh_words ShOut cur [] = Some (sh_flush cur)"
| "sh_words ShQuote cur [] = None"
| "sh_words ShEscape cur [] = None"
| "sh_words ShOut cur (c # s) =
     (if c = CHR '' '' then map_option (\<lambda>ws. sh_flush cur @ ws) (sh_words ShOut None s)
      else if c = apostrophe then sh_words ShQuote (Some (sh_word cur)) s
      else if c = backslash then sh_words ShEscape cur s
      else if sh_special c then None
      else sh_words ShOut (Some (sh_word cur @ [c])) s)"
| "sh_words ShQuote cur (c # s) =
     (if c = apostrophe then sh_words ShOut cur s else sh_words ShQuote (Some (sh_word cur @ [c])) s)"
| "sh_words ShEscape cur (c # s) = sh_words ShOut (Some (sh_word cur @ [c])) s"

lemma sh_quote_body:
  "sh_words ShQuote (Some w) (shellQuoteSingleValue v @ apostrophe # rest) = sh_words ShOut (Some (w @ v)) rest"
  by (induction v arbitrary: w) auto

lemma sh_quoted: "sh_words ShOut cur (quoted v @ rest) = sh_words ShOut (Some (sh_word cur @ v)) rest"
  by (simp add: quoted_def sh_quote_body)

lemma sh_quoted_end: "sh_words ShOut cur (quoted v) = Some [sh_word cur @ v]"
  using sh_quoted [of cur v "[]"] by simp

definition sh_plain :: "string \<Rightarrow> bool" where
  "sh_plain t \<longleftrightarrow> list_all (\<lambda>c. c \<noteq> CHR '' '' \<and> c \<noteq> apostrophe \<and> c \<noteq> backslash \<and> \<not> sh_special c) t"

lemma sh_plain_run:
  "sh_plain t \<Longrightarrow> t \<noteq> [] \<Longrightarrow> sh_words ShOut cur (t @ rest) = sh_words ShOut (Some (sh_word cur @ t)) rest"
proof (induction t arbitrary: cur)
  case (Cons c t)
  then show ?case by (cases "t = []") (auto simp: sh_plain_def)
qed simp

lemma sh_blank: "sh_words ShOut cur (CHR '' '' # rest) = map_option (\<lambda>ws. sh_flush cur @ ws) (sh_words ShOut None rest)"
  by simp

lemma append_singleton: "(@) [x] = (#) x"
  by (rule ext) simp

text \<open>One \<open>-e NAME=value\<close> argument in the middle of a line.\<close>

lemma sh_env_arg:
  assumes "sh_plain name" and "name \<noteq> []"
  shows "sh_words ShOut cur ('' -e '' @ name @ quoted v @ rest) =
    map_option (\<lambda>ws. sh_flush cur @ ''-e'' # ws) (sh_words ShOut (Some (name @ v)) rest)"
proof -
  have "sh_words ShOut None (''-e '' @ name @ quoted v @ rest) =
      map_option (\<lambda>ws. ''-e'' # ws) (sh_words ShOut None (name @ quoted v @ rest))"
    using sh_plain_run [of "''-e''" None "CHR '' '' # name @ quoted v @ rest"]
    by (simp add: sh_plain_def sh_special_def append_singleton)
  also have "sh_words ShOut None (name @ quoted v @ rest) = sh_words ShOut (Some (name @ v)) rest"
    using sh_plain_run [OF assms, of None "quoted v @ rest"] by (simp add: sh_quoted)
  finally show ?thesis by (simp add: option.map_comp o_def)
qed

lemma sh_env_args:
  "sh_words ShOut cur ('' -e API_URL='' @ quoted v @ rest) =
     map_option (\<lambda>ws. sh_flush cur @ ''-e'' # ws) (sh_words ShOut (Some (''API_URL='' @ v)) rest)"
  "sh_words ShOut cur ('' -e PROXY_HOST='' @ quoted v @ rest) =
     map_option (\<lambda>ws. sh_flush cur @ ''-e'' # ws) (sh_words ShOut (Some (''PROXY_HOST='' @ v)) rest)"
  "sh_words ShOut cur ('' -e REGION='' @ quoted v @ rest) =
     map_option (\<lambda>ws. sh_flush cur @ ''-e'' # ws) (sh_words ShOut (Some (''REGION='' @ v)) rest)"
  "sh_words ShOut cur ('' -e PROVIDER_TYPE='' @ quoted v @ rest) =
     map_option (\<lambda>ws. sh_flush cur @ ''-e'' # ws) (sh_words ShOut (Some (''PROVIDER_TYPE='' @ v)) rest)"
  "sh_words ShOut cur ('' -e SANDRPOD_TOOLBOX_IMAGE='' @ quoted v @ rest) =
     map_option (\<lambda>ws. sh_flush cur @ ''-e'' # ws) (sh_words ShOut (Some (''SANDRPOD_TOOLBOX_IMAGE='' @ v)) rest)"
  "sh_words ShOut cur ('' -e SANDRPOD_TOKEN='' @ quoted v @ rest) =
     map_option (\<lambda>ws. sh_flush cur @ ''-e'' # ws) (sh_words ShOut (Some (''SANDRPOD_TOKEN='' @ v)) rest)"
  "sh_words ShOut cur ('' -e VM_INSTANCE_ID='' @ quoted v @ rest) =
     map_option (\<lambda>ws. sh_flush cur @ ''-e'' # ws) (sh_words ShOut (Some (''VM_INSTANCE_ID='' @ v)) rest)"
  using sh_env_arg [of "''API_URL=''"] sh_env_arg [of "''PROXY_HOST=''"] sh_env_arg [of "''REGION=''"]
    sh_env_arg [of "''PROVIDER_TYPE=''"] sh_env_arg [of "''SANDRPOD_TOOLBOX_IMAGE=''"]
    sh_env_arg [of "''SANDRPOD_TOKEN=''"] sh_env_arg [of "''VM_INSTANCE_ID=''"]
  by (simp_all add: sh_plain_def sh_special_def)

text \<open>The rest of the line after the environment.\<close>

lemma sh_volume_arg:
  "sh_words ShOut (Some w) ('' -v /var/run/docker.sock:/var/run/docker.sock'' @ '' '' @ quoted v) =
     Some [w, ''-v'', ''/var/run/docker.sock:/var/run/docker.sock'', v]"
  using sh_quoted [of None v "[]"] by (simp add: sh_special_def)

lemma sh_run_prefix:
  "sh_words ShOut None (''docker run -d'' @ '' --name sandrpod-poder'' @ '' --restart=always'' @ rest) =
     map_option (\<lambda>ws. [''docker'', ''run'', ''-d'', ''--name'', ''sandrpod-poder''] @ ws)
       (sh_words ShOut (Some ''--restart=always'') rest)"
  by (simp add: sh_special_def option.map_comp o_def)

section \<open>Properties\<close>

text \<open>Quoting is safe: a value put between single quotes by the scheduler is read by a shell as exactly
  that value, whatever characters it contains, and the text after it is read as if it stood alone.\<close>

theorem shell_quote_roundtrip:
  "sh_words ShOut None ([apostrophe] @ shellQuoteSingleValue v @ [apostrophe]) = Some [v] \<and>
   sh_words ShOut None ([apostrophe] @ shellQuoteSingleValue v @ [apostrophe] @ '' '' @ rest) =
     map_option (\<lambda>ws. v # ws) (sh_words ShOut None rest)"
  using sh_quoted [of None v "[]"] sh_quoted [of None v "'' '' @ rest"]
  by (simp add: quoted_def append_singleton)

text \<open>Starting the worker runs one command with the arguments meant: for every server address, token,
  region, VM and image, whatever characters they contain, the shell reads the command line as one
  \<open>docker run\<close> with one environment argument per setting, the docker socket and the image, in this order.\<close>

theorem poder_start_command_words:
  "sh_words ShOut None (poderStartCmd env sc pt region vm) = Some
     ([''docker'', ''run'', ''-d'', ''--name'', ''sandrpod-poder'', ''--restart=always'',
       ''-e'', ''API_URL='' @ sc_apiURL sc, ''-e'', ''PROXY_HOST='' @ vm_PublicIP vm,
       ''-e'', ''REGION='' @ region, ''-e'', ''PROVIDER_TYPE='' @ pt] @
      (let tb = providerEnv env ''SANDRPOD_TOOLBOX_IMAGE'' pt in
       if tb = [] then [] else [''-e'', ''SANDRPOD_TOOLBOX_IMAGE='' @ tb]) @
      (if sc_token sc = [] then [] else [''-e'', ''SANDRPOD_TOKEN='' @ sc_token sc]) @
      (if vm_ID vm = [] then [] else [''-e'', ''VM_INSTANCE_ID='' @ vm_ID vm]) @
      [''-v'', ''/var/run/docker.sock:/var/run/docker.sock'', poderImage env pt])"
  unfolding poderStartCmd_def Let_def sh_run_prefix append_assoc
  by (cases "providerEnv env ''SANDRPOD_TOOLBOX_IMAGE'' pt = []"; cases "sc_token sc = []"; cases "vm_ID vm = []")
    (simp_all only: sh_env_args sh_volume_arg if_True if_False not_True_eq_False not_False_eq_True append_assoc
      append_Nil option.map sh_cur_simps, simp_all add: sh_special_def sh_quoted sh_quoted_end)

end
