(* ===== verification/Server_Ratelimit.thy ===== *)
theory Server_Ratelimit
  imports Complex_Main Go_Prelude
begin

text \<open>
  The per-identity rate limiter of the control plane, \<^verbatim>\<open>src/pkg/server/ratelimit.go\<close>: a token bucket per
  key, with twice the rate as its capacity. \<^verbatim>\<open>float64\<close> token counts are rational numbers here, so they
  are exact; \<^verbatim>\<open>allow\<close> holds the lock and is one step, which takes the clock reading as an argument.

  Shown here: in every stretch of requests of one key, wherever it starts, no more are let through
  than the capacity plus what the stretch refills; keys do not affect each other; a key that waits
  long enough is served; and a rate below one request in two seconds serves nobody, ever.
\<close>

section \<open>The limiter\<close>

record bucket =
  b_tokens :: rat
  b_last :: gotime

record rate_limiter =
  rl_rate :: rat
  rl_buckets :: "string \<Rightarrow> bucket option"

definition newRateLimiter :: "rat \<Rightarrow> rate_limiter" where
  "newRateLimiter perSecond = \<lparr>rl_rate = perSecond, rl_buckets = (\<lambda>_. None)\<rparr>"

text \<open>\<^verbatim>\<open>Duration.Seconds\<close>.\<close>

definition Seconds :: "duration \<Rightarrow> rat" where
  "Seconds d = of_int d / 1000000000"

definition allow :: "gotime \<Rightarrow> string \<Rightarrow> rate_limiter \<Rightarrow> bool \<times> rate_limiter" where
  "allow now key rl =
     (let b = (case rl_buckets rl key of
                 Some b \<Rightarrow> b
               | None \<Rightarrow> \<lparr>b_tokens = rl_rate rl * 2, b_last = now\<rparr>);
          filled = b_tokens b + Seconds (now - b_last b) * rl_rate rl;
          capped = (if filled > rl_rate rl * 2 then rl_rate rl * 2 else filled);
          put = (\<lambda>t. rl\<lparr>rl_buckets := (rl_buckets rl)(key \<mapsto> \<lparr>b_tokens = t, b_last = now\<rparr>)\<rparr>)
      in if capped < 1 then (False, put capped) else (True, put (capped - 1)))"

text \<open>A sequence of requests, each at its time for its key: the answers and the limiter afterwards.\<close>

primrec allow_all :: "(gotime \<times> string) list \<Rightarrow> rate_limiter \<Rightarrow> bool list \<times> rate_limiter" where
  "allow_all [] rl = ([], rl)"
| "allow_all (q # qs) rl =
     (let first = allow (fst q) (snd q) rl; rest = allow_all qs (snd first)
      in (fst first # fst rest, snd rest))"

definition let_through :: "string \<Rightarrow> (gotime \<times> string) list \<Rightarrow> rate_limiter \<Rightarrow> nat" where
  "let_through key qs rl =
     length (filter (\<lambda>(q, ok). snd q = key \<and> ok) (zip qs (fst (allow_all qs rl))))"

section \<open>One request\<close>

lemma Seconds_simps [simp]: "Seconds 0 = 0"
  by (simp add: Seconds_def)

lemma Seconds_split: "Seconds (c - a) = Seconds (c - b) + Seconds (b - a)"
  by (simp add: Seconds_def field_simps flip: of_int_add)

lemma Seconds_nonneg: "a \<le> b \<Longrightarrow> 0 \<le> Seconds (b - a)"
  by (simp add: Seconds_def)

lemma allow_rate [simp]: "rl_rate (snd (allow now key rl)) = rl_rate rl"
  by (simp add: allow_def Let_def)

lemma allow_other [simp]: "k \<noteq> key \<Longrightarrow> rl_buckets (snd (allow now key rl)) k = rl_buckets rl k"
  by (simp add: allow_def Let_def)

text \<open>The credit of a key at a time: what its bucket would hold then. A bucket is in order when it is
  within its capacity and was not last touched in the future.\<close>

definition credit :: "gotime \<Rightarrow> string \<Rightarrow> rate_limiter \<Rightarrow> rat" where
  "credit now key rl =
     (case rl_buckets rl key of
        None \<Rightarrow> rl_rate rl * 2
      | Some b \<Rightarrow> min (rl_rate rl * 2) (b_tokens b + Seconds (now - b_last b) * rl_rate rl))"

definition bucket_ok :: "gotime \<Rightarrow> string \<Rightarrow> rate_limiter \<Rightarrow> bool" where
  "bucket_ok now key rl \<longleftrightarrow>
     (case rl_buckets rl key of
        None \<Rightarrow> True | Some b \<Rightarrow> 0 \<le> b_tokens b \<and> b_tokens b \<le> rl_rate rl * 2 \<and> b_last b \<le> now)"

lemma allow_iff_credit: "fst (allow now key rl) \<longleftrightarrow> 1 \<le> credit now key rl"
  by (auto simp: allow_def credit_def Let_def min_def split: option.splits)

lemma bucket_ok_later: "bucket_ok t key rl \<Longrightarrow> t \<le> now \<Longrightarrow> bucket_ok now key rl"
  by (auto simp: bucket_ok_def split: option.splits)

lemma credit_bounds:
  assumes "0 \<le> rl_rate rl" and "bucket_ok now key rl"
  shows "0 \<le> credit now key rl" and "credit now key rl \<le> rl_rate rl * 2"
proof -
  show "credit now key rl \<le> rl_rate rl * 2" by (simp add: credit_def split: option.splits)
  show "0 \<le> credit now key rl"
  proof (cases "rl_buckets rl key")
    case (Some b)
    with assms have "0 \<le> Seconds (now - b_last b) * rl_rate rl" "0 \<le> b_tokens b"
      by (simp_all add: bucket_ok_def Seconds_nonneg)
    with Some assms(1) show ?thesis by (simp add: credit_def)
  qed (use assms(1) in \<open>simp add: credit_def\<close>)
qed

lemma allow_bucket:
  "rl_buckets (snd (allow now key rl)) key =
     Some \<lparr>b_tokens = credit now key rl - (if fst (allow now key rl) then 1 else 0), b_last = now\<rparr>"
  by (auto simp: allow_def credit_def Let_def min_def split: option.splits)

lemma bucket_ok_allow:
  assumes "0 \<le> rl_rate rl" and "bucket_ok now key rl" and "bucket_ok now k rl"
  shows "bucket_ok now k (snd (allow now key rl))"
proof (cases "k = key")
  case True
  then show ?thesis
    using credit_bounds [OF assms(1,2)] allow_iff_credit [of now key rl]
    by (auto simp: bucket_ok_def allow_bucket)
next
  case False
  with assms(3) show ?thesis by (simp add: bucket_ok_def split: option.splits)
qed

text \<open>Time refills at the rate, a request let through costs one.\<close>

lemma credit_refill:
  assumes "0 \<le> rl_rate rl" and "now \<le> later"
  shows "credit later key rl \<le> credit now key rl + Seconds (later - now) * rl_rate rl"
proof -
  have pos: "0 \<le> Seconds (later - now) * rl_rate rl" using assms by (simp add: Seconds_nonneg)
  show ?thesis
  proof (cases "rl_buckets rl key")
    case None
    with pos show ?thesis by (simp add: credit_def)
  next
    case (Some b)
    have "Seconds (later - b_last b) = Seconds (later - now) + Seconds (now - b_last b)"
      by (rule Seconds_split)
    with Some pos show ?thesis by (auto simp: credit_def min_def algebra_simps)
  qed
qed

lemma credit_allow:
  assumes "0 \<le> rl_rate rl" and "bucket_ok now key rl"
  shows "credit now k (snd (allow now key rl)) =
     credit now k rl - (if k = key \<and> fst (allow now key rl) then 1 else 0)"
proof (cases "k = key")
  case True
  with credit_bounds [OF assms] show ?thesis by (simp add: credit_def [of now key "snd (allow now key rl)"] allow_bucket)
next
  case False
  then show ?thesis by (simp add: credit_def split: option.splits)
qed


section \<open>Sequences of requests\<close>

lemma allow_all_simps [simp]:
  "length (fst (allow_all qs rl)) = length qs"
  "rl_rate (snd (allow_all qs rl)) = rl_rate rl"
proof -
  show "length (fst (allow_all qs rl)) = length qs"
    by (induction qs arbitrary: rl) (auto simp: Let_def)
  show "rl_rate (snd (allow_all qs rl)) = rl_rate rl"
    by (induction qs arbitrary: rl) (auto simp: Let_def)
qed

lemma newRateLimiter_simps [simp]:
  "rl_rate (newRateLimiter rate) = rate" "rl_buckets (newRateLimiter rate) key = None"
  by (simp_all add: newRateLimiter_def)

lemma let_through_Nil [simp]: "let_through key [] rl = 0"
  by (simp add: let_through_def)

lemma let_through_Cons:
  "let_through key (q # qs) rl =
     (if snd q = key \<and> fst (allow (fst q) (snd q) rl) then 1 else 0) +
     let_through key qs (snd (allow (fst q) (snd q) rl))"
  by (auto simp: let_through_def Let_def)

text \<open>Requests pay for themselves: what a stretch lets through is at most the credit at its start and
  what it refills.\<close>

lemma let_through_credit:
  assumes "0 \<le> rl_rate rl" and "sorted (t0 # map fst qs)" and "\<forall>k. bucket_ok t0 k rl"
  shows "of_nat (let_through key qs rl) \<le> credit t0 key rl + Seconds (last (t0 # map fst qs) - t0) * rl_rate rl"
  using assms
proof (induction qs arbitrary: t0 rl)
  case Nil
  then show ?case using credit_bounds(1) [of rl t0 key] by simp
next
  case (Cons q qs)
  define now where "now = fst q"
  define rl1 where "rl1 = snd (allow now (snd q) rl)"
  define paid where "paid = (if snd q = key \<and> fst (allow now (snd q) rl) then 1 else 0 :: nat)"
  have le: "t0 \<le> now" and srt: "sorted (now # map fst qs)"
    using Cons.prems(2) by (auto simp: now_def)
  have ok: "\<forall>k. bucket_ok now k rl" using Cons.prems(3) le bucket_ok_later by blast
  have "of_nat (let_through key qs rl1) \<le> credit now key rl1 + Seconds (last (now # map fst qs) - now) * rl_rate rl1"
    by (rule Cons.IH) (use Cons.prems(1) srt ok in \<open>auto simp: rl1_def intro: bucket_ok_allow\<close>)
  moreover have "credit now key rl1 = credit now key rl - of_nat paid"
    using credit_allow [OF Cons.prems(1), of now "snd q" key] ok by (auto simp: rl1_def paid_def)
  moreover have "credit now key rl \<le> credit t0 key rl + Seconds (now - t0) * rl_rate rl"
    by (rule credit_refill [OF Cons.prems(1) le])
  moreover have "let_through key (q # qs) rl = paid + let_through key qs rl1"
    by (simp add: let_through_Cons paid_def rl1_def now_def)
  moreover have "Seconds (last (now # map fst qs) - t0) = Seconds (last (now # map fst qs) - now) + Seconds (now - t0)"
    by (rule Seconds_split)
  ultimately show ?case by (simp add: rl1_def now_def algebra_simps)
qed

lemma bucket_ok_allow_all:
  assumes "0 \<le> rl_rate rl" and "sorted (map fst qs)" and "\<forall>q \<in> set qs. fst q \<le> t"
    and "\<And>k t'. t' \<in> insert t (fst ` set qs) \<Longrightarrow> bucket_ok t' k rl"
  shows "bucket_ok t k (snd (allow_all qs rl))"
  using assms
proof (induction qs arbitrary: rl)
  case (Cons q qs)
  let ?rl1 = "snd (allow (fst q) (snd q) rl)"
  have "bucket_ok (fst q) k ?rl1" for k
    by (rule bucket_ok_allow) (use Cons.prems in auto)
  then have "bucket_ok t' k ?rl1" if "t' \<in> insert t (fst ` set qs)" for t' k
    using that Cons.prems(2,3) bucket_ok_later by fastforce
  then have "bucket_ok t k (snd (allow_all qs ?rl1))"
    by (intro Cons.IH) (use Cons.prems in auto)
  then show ?case by (simp add: Let_def)
qed simp

section \<open>Properties\<close>

text \<open>Claim C39. The rate holds over every stretch of time: after any history of requests of any identities, the
  requests of one identity let through in a stretch are at most twice the rate plus the rate for
  each second from the first request of the stretch to its last.\<close>

theorem rate_is_kept:
  assumes "0 \<le> rate" and "sorted (map fst (past @ q # qs))"
  shows "of_nat (let_through key (q # qs) (snd (allow_all past (newRateLimiter rate))))
     \<le> 2 * rate + Seconds (fst (last (q # qs)) - fst q) * rate"
proof -
  let ?rl = "snd (allow_all past (newRateLimiter rate))"
  have rate: "rl_rate ?rl = rate" by simp
  have ok: "bucket_ok (fst q) k ?rl" for k
    by (rule bucket_ok_allow_all) (use assms in \<open>auto simp: sorted_append bucket_ok_def\<close>)
  have "sorted (fst q # map fst (q # qs))" using assms(2) by (auto simp: sorted_append)
  then have "of_nat (let_through key (q # qs) ?rl)
      \<le> credit (fst q) key ?rl + Seconds (last (fst q # map fst (q # qs)) - fst q) * rate"
    using let_through_credit [of ?rl "fst q" "q # qs" key] ok assms(1) unfolding rate by blast
  also have "credit (fst q) key ?rl \<le> 2 * rate"
    using credit_bounds(2) [of ?rl "fst q" key] ok assms(1) by (simp add: rate)
  finally show ?thesis by (simp add: last_map split: if_splits)
qed

theorem rate_is_kept_witness:
  "of_nat (let_through ''u'' [(0, ''u''), (0, ''u''), (0, ''u''), (second, ''u'')]
      (snd (allow_all [(0, ''v'')] (newRateLimiter 1)))) \<le> (2 * 1 + Seconds (second - 0) * 1 :: rat)"
  using rate_is_kept [of 1 "[(0, ''v'')]" "(0, ''u'')" "[(0, ''u''), (0, ''u''), (second, ''u'')]" "''u''"]
  by simp

text \<open>Waiting is enough: whatever happened before, a request whose key was last asked for at least
  one refill period ago is let through, provided the capacity holds a whole token.\<close>

theorem waiting_is_enough:
  assumes "0 < rl_rate rl" and "1 \<le> 2 * rl_rate rl" and "rl_buckets rl key = Some b" and "0 \<le> b_tokens b"
    and "1 / rl_rate rl \<le> Seconds (now - b_last b)"
  shows "fst (allow now key rl)"
proof -
  have "1 \<le> Seconds (now - b_last b) * rl_rate rl" using assms(1,5) by (simp add: field_simps)
  with assms show ?thesis by (simp add: allow_iff_credit credit_def)
qed

theorem waiting_is_enough_witness:
  "fst (allow (5 * second) ''u'' ((newRateLimiter 1)\<lparr>rl_buckets := [''u'' \<mapsto> \<lparr>b_tokens = 0, b_last = 4 * second\<rparr>]\<rparr>))"
  by (rule waiting_is_enough [where b = "\<lparr>b_tokens = 0, b_last = 4 * second\<rparr>"]) (simp_all add: newRateLimiter_def Seconds_def)

text \<open>A rate below one request in two seconds serves nobody: the capacity never reaches a whole token,
  so every request of every identity is refused, whatever the times are.\<close>

theorem low_rate_refuses_all:
  assumes "2 * rate < 1"
  shows "\<forall>ok \<in> set (fst (allow_all qs (newRateLimiter rate))). \<not> ok"
proof -
  have refused: "\<not> fst (allow now key rl)" if "2 * rl_rate rl < 1" for now key rl
  proof -
    have "credit now key rl \<le> rl_rate rl * 2" by (simp add: credit_def split: option.splits)
    with that show ?thesis by (simp add: allow_iff_credit)
  qed
  have "2 * rl_rate rl < 1 \<Longrightarrow> \<forall>ok \<in> set (fst (allow_all qs rl)). \<not> ok" for rl
  proof (induction qs arbitrary: rl)
    case (Cons q qs)
    let ?a = "allow (fst q) (snd q) rl"
    have "\<forall>ok \<in> set (fst (allow_all qs (snd ?a))). \<not> ok" by (rule Cons.IH) (use Cons.prems in simp)
    with refused [OF Cons.prems] show ?case by (simp add: Let_def)
  qed simp
  from this [of "newRateLimiter rate"] show ?thesis using assms by simp
qed

theorem low_rate_refuses_all_witness:
  "\<forall>ok \<in> set (fst (allow_all [(0, ''u''), (10 * second, ''u''), (60 * second, ''u'')] (newRateLimiter (1/5)))). \<not> ok"
  by (rule low_rate_refuses_all) simp

end
