(* ===== verification/Server_Auth.thy ===== *)
theory Server_Auth
  imports Server_Ratelimit Mem_Stores "HOL-Library.AList" "HOL-Library.Word"
begin

text \<open>
  Authentication at the control plane: \<^verbatim>\<open>src/pkg/server/auth.go\<close>, the token endpoints of
  \<^verbatim>\<open>tokens_api.go\<close>, the gates of \<^verbatim>\<open>main.go\<close> (\<^verbatim>\<open>authMiddleware\<close>, \<^verbatim>\<open>adminOnly\<close>, \<^verbatim>\<open>workerRoute\<close>) and the key
  shape of \<^verbatim>\<open>src/pkg/e2bcompat/apikey.go\<close>.

  The state is the part of \<^verbatim>\<open>Config\<close> that authentication reads and writes: the static tokens, the
  registry loaded from the tokens file, the in-memory index of issued keys (an association list,
  the Go map) and the token repository behind it, which \<^verbatim>\<open>Main\<close> wires as both \<^verbatim>\<open>TokenStore\<close> and
  \<^verbatim>\<open>stores.Tokens\<close>. SHA-256 is an arbitrary function \<open>hash\<close>; nothing below depends on which. The
  constant-time comparison is equality. A tokens file is what decoding it gives: unreadable, not
  the expected JSON, or a list of entries.

  Shown here: who is let in, exactly; issued keys work until revoked and not after; the index and
  the repository agree after any sequence of issues, revocations and logins; which tokens files
  are accepted; and that revoking the last key of a server without other tokens opens it to all.
\<close>

section \<open>Tokens and the tokens file\<close>

definition RoleAdmin :: string where "RoleAdmin = ''admin''"
definition RoleUser :: string where "RoleUser = ''user''"
definition RoleWorker :: string where "RoleWorker = ''worker''"

lemmas role_defs = RoleAdmin_def RoleUser_def RoleWorker_def

record named_token =
  nt_Name :: string
  nt_Token :: string
  nt_Role :: string

datatype tokens_file = TokensUnreadable | TokensNotJSON | TokensDecoded "named_token list"

datatype tokens_error = CannotReadTokens | NotTokensJSON | MissingField nat | RoleUnknown string | DuplicateEntry string

text \<open>The loop over the entries; an entry without a role gets the user role.\<close>

definition default_role :: "named_token \<Rightarrow> named_token" where
  "default_role t = (if nt_Role t = [] then t\<lparr>nt_Role := RoleUser\<rparr> else t)"

fun check_tokens :: "nat \<Rightarrow> string list \<Rightarrow> string list \<Rightarrow> named_token list \<Rightarrow> tokens_error + named_token list" where
  "check_tokens i seenName seenTok [] = Inr []"
| "check_tokens i seenName seenTok (t # ts) =
     (if nt_Name t = [] \<or> nt_Token t = [] then Inl (MissingField i)
      else let t1 = default_role t in
        if nt_Role t1 \<noteq> RoleAdmin \<and> nt_Role t1 \<noteq> RoleUser then Inl (RoleUnknown (nt_Name t1))
        else if nt_Name t1 \<in> set seenName \<or> nt_Token t1 \<in> set seenTok then Inl (DuplicateEntry (nt_Name t1))
        else case check_tokens (Suc i) (nt_Name t1 # seenName) (nt_Token t1 # seenTok) ts of
               Inl e \<Rightarrow> Inl e
             | Inr rest \<Rightarrow> Inr (t1 # rest))"

definition loadTokensFile :: "tokens_file \<Rightarrow> tokens_error + named_token list" where
  "loadTokensFile f =
     (case f of
        TokensUnreadable \<Rightarrow> Inl CannotReadTokens
      | TokensNotJSON \<Rightarrow> Inl NotTokensJSON
      | TokensDecoded ts \<Rightarrow> check_tokens 0 [] [] ts)"

text \<open>One tick of \<^verbatim>\<open>watchTokensFile\<close>: \<open>stat\<close> is the modification time, \<open>None\<close> when \<^verbatim>\<open>os.Stat\<close> fails. The
  state is the last modification time seen and the registry.\<close>

definition watch_tick ::
  "gotime option \<Rightarrow> tokens_file \<Rightarrow> gotime \<times> named_token list \<Rightarrow> gotime \<times> named_token list" where
  "watch_tick stat f s =
     (case (stat, s) of
        (None, _) \<Rightarrow> s
      | (Some t, (lastMod, reg)) \<Rightarrow>
          if \<not> t > lastMod then s
          else (case loadTokensFile f of Inl _ \<Rightarrow> (t, reg) | Inr toks \<Rightarrow> (t, toks)))"

section \<open>Identities and the index of issued keys\<close>

record identity =
  id_Name :: string
  id_Role :: string
  id_Tenant :: string

abbreviation the_identity :: "string \<Rightarrow> string \<Rightarrow> identity" where
  "the_identity name role \<equiv> \<lparr>id_Name = name, id_Role = role, id_Tenant = []\<rparr>"

definition IsAdmin :: "identity \<Rightarrow> bool" where "IsAdmin i \<longleftrightarrow> id_Role i = RoleAdmin"
definition IsWorker :: "identity \<Rightarrow> bool" where "IsWorker i \<longleftrightarrow> id_Role i = RoleWorker"

type_synonym key_index = "(string \<times> identity) list"

definition newAPIKeyIndex :: key_index where "newAPIKeyIndex = []"
definition index_get :: "string \<Rightarrow> key_index \<Rightarrow> identity option" where "index_get h x = map_of x h"
definition index_put :: "string \<Rightarrow> identity \<Rightarrow> key_index \<Rightarrow> key_index" where "index_put h i x = AList.update h i x"
definition index_remove :: "string \<Rightarrow> key_index \<Rightarrow> key_index" where "index_remove h x = AList.delete h x"
definition index_len :: "key_index \<Rightarrow> nat" where "index_len x = length x"

definition index_load :: "api_token list \<Rightarrow> key_index \<Rightarrow> key_index" where
  "index_load toks x = fold (\<lambda>t. index_put (at_Hash t) (the_identity (at_Name t) (at_Role t))) toks x"

definition index_replace :: "api_token list \<Rightarrow> key_index \<Rightarrow> key_index" where
  "index_replace toks x = index_load toks newAPIKeyIndex"

section \<open>Resolving a credential\<close>

record config =
  cfg_Token :: string
  cfg_Tokens :: "named_token list"
  cfg_Registry :: "named_token list option"
  cfg_Keys :: "key_index option"
  cfg_NodeURL :: string
  cfg_TokenStore :: "token_repo option"

definition authDisabled :: "config \<Rightarrow> bool" where
  "authDisabled cfg \<longleftrightarrow>
     cfg_Token cfg = [] \<and> length (cfg_Tokens cfg) = 0 \<and>
     (case cfg_Registry cfg of None \<Rightarrow> True | Some l \<Rightarrow> length l = 0) \<and>
     (case cfg_Keys cfg of None \<Rightarrow> True | Some x \<Rightarrow> index_len x = 0)"

definition candidates :: "config \<Rightarrow> named_token list" where
  "candidates cfg = cfg_Tokens cfg @ (case cfg_Registry cfg of None \<Rightarrow> [] | Some l \<Rightarrow> l)"

definition resolveToken :: "(string \<Rightarrow> string) \<Rightarrow> config \<Rightarrow> string \<Rightarrow> identity option \<times> config" where
  "resolveToken hash cfg presented =
     (if cfg_Token cfg \<noteq> [] \<and> presented = cfg_Token cfg then (Some (the_identity ''admin'' RoleAdmin), cfg)
      else case List.find (\<lambda>t. presented = nt_Token t) (candidates cfg) of
        Some t \<Rightarrow> (Some (the_identity (nt_Name t) (nt_Role t)), cfg)
      | None \<Rightarrow>
          (case cfg_Keys cfg of
             None \<Rightarrow> (None, cfg)
           | Some x \<Rightarrow>
               (let h = hash presented in
                case index_get h x of
                  Some i \<Rightarrow> (Some i, cfg)
                | None \<Rightarrow>
                    if cfg_NodeURL cfg \<noteq> [] \<and> cfg_TokenStore cfg \<noteq> None then
                      (case FindByHash h (the (cfg_TokenStore cfg)) of
                         Some t \<Rightarrow>
                           let i = the_identity (at_Name t) (at_Role t)
                           in (Some i, cfg\<lparr>cfg_Keys := Some (index_put h i x)\<rparr>)
                       | None \<Rightarrow> (None, cfg))
                    else (None, cfg))))"

text \<open>The two headers a credential can come in; an absent header is the empty string.\<close>

record auth_headers =
  ah_Sandrpod :: string
  ah_Authorization :: string

definition resolveRequest :: "(string \<Rightarrow> string) \<Rightarrow> config \<Rightarrow> auth_headers \<Rightarrow> identity option \<times> config" where
  "resolveRequest hash cfg r =
     (case (if ah_Sandrpod r \<noteq> [] then resolveToken hash cfg (ah_Sandrpod r) else (None, cfg)) of
        (Some i, cfg1) \<Rightarrow> (Some i, cfg1)
      | (None, cfg1) \<Rightarrow>
          if HasPrefix (ah_Authorization r) ''Bearer ''
          then resolveToken hash cfg1 (drop (length ''Bearer '') (ah_Authorization r))
          else (None, cfg1))"

datatype auth_error = ErrUnauthenticated | ErrForbidden | ErrRateLimited | OtherAuthError string

definition Authenticate ::
  "(string \<Rightarrow> string) \<Rightarrow> gotime \<Rightarrow> auth_headers \<Rightarrow> config \<times> rate_limiter option \<Rightarrow>
   (auth_error + identity) \<times> config \<times> rate_limiter option" where
  "Authenticate hash now r s =
     (case s of (cfg, limiter) \<Rightarrow>
        if authDisabled cfg then (Inr (the_identity [] RoleAdmin), cfg, limiter)
        else case resolveRequest hash cfg r of
          (None, cfg1) \<Rightarrow> (Inl ErrUnauthenticated, cfg1, limiter)
        | (Some i, cfg1) \<Rightarrow>
            (case limiter of
               None \<Rightarrow> (Inr i, cfg1, limiter)
             | Some rl \<Rightarrow>
                 if IsAdmin i then (Inr i, cfg1, limiter)
                 else (case allow now (id_Name i) rl of
                         (ok, rl1) \<Rightarrow> (if ok then Inr i else Inl ErrRateLimited, cfg1, Some rl1))))"

text \<open>The middlewares: the answer is an HTTP status, or the identity the wrapped handler runs as.\<close>

definition authMiddleware :: "auth_error + identity \<Rightarrow> int + identity" where
  "authMiddleware a =
     (case a of
        Inr i \<Rightarrow> Inr i
      | Inl e \<Rightarrow> Inl (case e of ErrForbidden \<Rightarrow> 403 | ErrRateLimited \<Rightarrow> 429 | ErrUnauthenticated \<Rightarrow> 401
                      | OtherAuthError _ \<Rightarrow> 500))"

definition adminOnly :: "auth_error + identity \<Rightarrow> int + identity" where
  "adminOnly a =
     (case authMiddleware a of Inl st \<Rightarrow> Inl st | Inr i \<Rightarrow> if \<not> IsAdmin i then Inl 403 else Inr i)"

definition workerRoute :: "auth_error + identity \<Rightarrow> int + identity" where
  "workerRoute a =
     (case authMiddleware a of
        Inl st \<Rightarrow> Inl st | Inr i \<Rightarrow> if \<not> IsAdmin i \<and> \<not> IsWorker i then Inl 403 else Inr i)"

definition canAccessSandbox :: "identity \<Rightarrow> sandbox_info \<Rightarrow> bool" where
  "canAccessSandbox i sb \<longleftrightarrow> IsAdmin i \<or> sb_Owner sb = [] \<or> sb_Owner sb = id_Name i"

definition canAccessJob :: "identity \<Rightarrow> job \<Rightarrow> bool" where
  "canAccessJob i j \<longleftrightarrow> IsAdmin i \<or> j_Owner j = [] \<or> j_Owner j = id_Name i"

section \<open>API keys\<close>

definition hex_char :: "8 word \<Rightarrow> char" where
  "hex_char n = ''0123456789abcdef'' ! (unat n mod 16)"

definition hex_EncodeToString :: "8 word list \<Rightarrow> string" where
  "hex_EncodeToString bs = concat (map (\<lambda>b. [hex_char (drop_bit 4 b), hex_char (take_bit 4 b)]) bs)"

text \<open>\<^verbatim>\<open>GenerateAPIKey\<close>: the 20 random bytes are an argument, \<open>None\<close> when reading them fails.\<close>

definition GenerateAPIKey :: "8 word list option \<Rightarrow> string option" where
  "GenerateAPIKey rnd = map_option (\<lambda>b. ''e2b_'' @ hex_EncodeToString b) rnd"

text \<open>The pattern \<^verbatim>\<open>^e2b_[0-9a-f]+$\<close>.\<close>

definition IsE2BKey :: "string \<Rightarrow> bool" where
  "IsE2BKey s \<longleftrightarrow>
     HasPrefix s ''e2b_'' \<and> drop 4 s \<noteq> [] \<and> list_all (\<lambda>c. c \<in> set ''0123456789abcdef'') (drop 4 s)"

definition TokenFromKey :: "string \<Rightarrow> string" where
  "TokenFromKey key = TrimPrefix key ''e2b_''"

definition presentedKey :: "string \<Rightarrow> string \<Rightarrow> string" where
  "presentedKey headerAPIKey authorization =
     (if headerAPIKey \<noteq> [] then headerAPIKey
      else if HasPrefix authorization ''Bearer '' then drop (length ''Bearer '') authorization else [])"

section \<open>Issuing and revoking\<close>

datatype token_response =
    TokenStatus int
  | TokenList "api_token list"
  | TokenIssued string string string string gotime

definition issued_role :: "string \<Rightarrow> string" where
  "issued_role role = (if role = RoleAdmin then RoleAdmin else RoleUser)"

text \<open>\<^verbatim>\<open>POST /api/v1/tokens\<close>. The name and role are what decoding the body left in the request; a body
  that does not decode leaves them empty.\<close>

definition issueToken ::
  "(string \<Rightarrow> string) \<Rightarrow> gotime \<Rightarrow> 8 word list option \<Rightarrow> string \<Rightarrow> string \<Rightarrow> config \<Rightarrow> token_response \<times> config" where
  "issueToken hash now rnd name0 role0 cfg =
     (case cfg_TokenStore cfg of
        None \<Rightarrow> (TokenStatus 501, cfg)
      | Some tokens \<Rightarrow>
          let name = TrimSpace name0 in
          if name = [] then (TokenStatus 400, cfg)
          else if role0 \<noteq> [] \<and> role0 \<noteq> RoleUser \<and> role0 \<noteq> RoleAdmin then (TokenStatus 400, cfg)
          else let role = issued_role role0 in
            case GenerateAPIKey rnd of
              None \<Rightarrow> (TokenStatus 500, cfg)
            | Some raw \<Rightarrow>
                let tok = \<lparr>at_Name = name, at_Prefix = take 16 raw, at_Hash = hash raw, at_Role = role, at_CreatedAt = now\<rparr>
                in case Token_Create tok tokens of
                     None \<Rightarrow> (TokenStatus 500, cfg)
                   | Some tokens1 \<Rightarrow>
                       (TokenIssued name role (take 16 raw) raw now,
                        cfg\<lparr>cfg_TokenStore := Some tokens1,
                            cfg_Keys := map_option (index_put (at_Hash tok) (the_identity name role)) (cfg_Keys cfg)\<rparr>))"

definition handleTokens ::
  "(string \<Rightarrow> string) \<Rightarrow> gotime \<Rightarrow> string list \<Rightarrow> 8 word list option \<Rightarrow> string \<Rightarrow> string \<Rightarrow> string \<Rightarrow> config \<Rightarrow>
   token_response \<times> config" where
  "handleTokens hash now ord rnd meth name role cfg =
     (case cfg_TokenStore cfg of
        None \<Rightarrow> (TokenStatus 501, cfg)
      | Some tokens \<Rightarrow>
          if meth = ''GET'' then (TokenList (Token_List ord tokens), cfg)
          else if meth = ''POST'' then issueToken hash now rnd name role cfg
          else (TokenStatus 405, cfg))"

definition handleTokenDelete ::
  "string list \<Rightarrow> string \<Rightarrow> string \<Rightarrow> config \<Rightarrow> token_response \<times> config" where
  "handleTokenDelete ord meth path cfg =
     (case cfg_TokenStore cfg of
        None \<Rightarrow> (TokenStatus 501, cfg)
      | Some tokens \<Rightarrow>
          if meth \<noteq> ''DELETE'' then (TokenStatus 405, cfg)
          else let pre = TrimPrefix path ''/api/v1/tokens/'' in
            if pre = [] \<or> Contains pre ''/'' then (TokenStatus 400, cfg)
            else case DeleteByPrefix ord pre tokens of
              (removed, tokens1) \<Rightarrow>
                if removed = [] then (TokenStatus 404, cfg\<lparr>cfg_TokenStore := Some tokens1\<rparr>)
                else (TokenStatus 204,
                      cfg\<lparr>cfg_TokenStore := Some tokens1,
                          cfg_Keys := map_option (fold index_remove removed) (cfg_Keys cfg)\<rparr>))"

text \<open>The start-up of \<^verbatim>\<open>Main\<close>: the index is loaded from the repository.\<close>

definition load_keys :: "string list \<Rightarrow> config \<Rightarrow> config" where
  "load_keys ord cfg =
     (case cfg_TokenStore cfg of
        None \<Rightarrow> cfg
      | Some tokens \<Rightarrow> cfg\<lparr>cfg_Keys := Some (index_load (Token_List ord tokens) newAPIKeyIndex)\<rparr>)"


section \<open>The tokens file\<close>

definition entry_ok :: "named_token \<Rightarrow> bool" where
  "entry_ok t \<longleftrightarrow> nt_Name t \<noteq> [] \<and> nt_Token t \<noteq> [] \<and> nt_Role t \<in> {[], RoleAdmin, RoleUser}"

definition tokens_ok :: "string list \<Rightarrow> string list \<Rightarrow> named_token list \<Rightarrow> bool" where
  "tokens_ok names toks ts \<longleftrightarrow>
     list_all entry_ok ts \<and> distinct (map nt_Name ts) \<and> distinct (map nt_Token ts) \<and>
     set (map nt_Name ts) \<inter> set names = {} \<and> set (map nt_Token ts) \<inter> set toks = {}"

lemma default_role_simps [simp]:
  "nt_Name (default_role t) = nt_Name t" "nt_Token (default_role t) = nt_Token t"
  by (simp_all add: default_role_def)

lemma entry_ok_role:
  "entry_ok t \<longleftrightarrow> nt_Name t \<noteq> [] \<and> nt_Token t \<noteq> [] \<and>
     (nt_Role (default_role t) = RoleAdmin \<or> nt_Role (default_role t) = RoleUser)"
  by (auto simp: entry_ok_def default_role_def role_defs)

lemma tokens_ok_Cons:
  "tokens_ok names toks (t # ts) \<longleftrightarrow>
     entry_ok t \<and> nt_Name t \<notin> set names \<and> nt_Token t \<notin> set toks \<and>
     tokens_ok (nt_Name t # names) (nt_Token t # toks) ts"
  by (auto simp: tokens_ok_def)

lemma check_tokens_correct:
  "case check_tokens i names toks ts of
     Inl _ \<Rightarrow> \<not> tokens_ok names toks ts
   | Inr l \<Rightarrow> tokens_ok names toks ts \<and> l = map default_role ts"
proof (induction ts arbitrary: i names toks)
  case (Cons t ts)
  show ?case
    using Cons.IH [of "nt_Name t # names" "nt_Token t # toks" "Suc i"]
    by (auto simp: tokens_ok_Cons entry_ok_role Let_def split: sum.splits)
qed (simp add: tokens_ok_def)


section \<open>The index of issued keys\<close>

lemma index_get_simps [simp]:
  "index_get h newAPIKeyIndex = None"
  "index_get h (index_put k i x) = (if h = k then Some i else index_get h x)"
  by (simp_all add: index_get_def index_put_def newAPIKeyIndex_def update_conv')

lemma index_get_remove [simp]:
  "distinct (map fst x) \<Longrightarrow> index_get h (index_remove k x) = (if h = k then None else index_get h x)"
  by (simp add: index_get_def index_remove_def delete_conv')

lemma index_keys [simp]:
  "distinct (map fst x) \<Longrightarrow> distinct (map fst (index_put k i x))"
  "distinct (map fst x) \<Longrightarrow> distinct (map fst (index_remove k x))"
  by (simp_all add: index_put_def index_remove_def distinct_update distinct_delete)

lemma index_len_0 [simp]: "index_len x = 0 \<longleftrightarrow> (\<forall>h. index_get h x = None)"
  by (cases x) (auto simp: index_len_def index_get_def)

lemma fold_remove:
  "distinct (map fst x) \<Longrightarrow> distinct (map fst (fold index_remove hs x)) \<and>
     (\<forall>h. index_get h (fold index_remove hs x) = (if h \<in> set hs then None else index_get h x))"
proof (induction hs arbitrary: x)
  case (Cons k hs)
  from Cons.IH [of "index_remove k x"] Cons.prems show ?case by simp
qed simp

lemma index_load_get:
  "index_get h (index_load toks x) =
     (case List.find (\<lambda>t. at_Hash t = h) (rev toks) of
        Some t \<Rightarrow> Some (the_identity (at_Name t) (at_Role t)) | None \<Rightarrow> index_get h x)"
proof (induction toks rule: rev_induct)
  case (snoc t ts)
  then show ?case by (simp add: index_load_def)
qed (simp add: index_load_def)

lemma index_load_distinct: "distinct (map fst x) \<Longrightarrow> distinct (map fst (index_load toks x))"
  by (induction toks arbitrary: x) (auto simp: index_load_def)

text \<open>The index mirrors the repository: the same hashes, with the identity of each token. A repository
  files every token under its own hash.\<close>

definition token_identity :: "api_token \<Rightarrow> identity" where
  "token_identity t = the_identity (at_Name t) (at_Role t)"

definition repo_wf :: "token_repo \<Rightarrow> bool" where
  "repo_wf r \<longleftrightarrow> (\<forall>h t. r h = Some t \<longrightarrow> at_Hash t = h)"

definition mirrors :: "key_index \<Rightarrow> token_repo \<Rightarrow> bool" where
  "mirrors x r \<longleftrightarrow>
     distinct (map fst x) \<and> repo_wf r \<and> (\<forall>h. index_get h x = map_option token_identity (FindByHash h r))"

definition keys_mirror_store :: "config \<Rightarrow> bool" where
  "keys_mirror_store cfg \<longleftrightarrow> (\<exists>x r. cfg_Keys cfg = Some x \<and> cfg_TokenStore cfg = Some r \<and> mirrors x r)"

text \<open>What the server does to the two: start-up, logins, issues and revocations. The map of the
  repository is visited in any order.\<close>

inductive auth_step :: "(string \<Rightarrow> string) \<Rightarrow> config \<Rightarrow> config \<Rightarrow> bool" for hash where
  login: "auth_step hash cfg (snd (resolveRequest hash cfg r))"
| tokens: "auth_step hash cfg (snd (handleTokens hash now ord rnd meth name role cfg))"
| revoke: "iteration_order ord (the (cfg_TokenStore cfg)) \<Longrightarrow>
    auth_step hash cfg (snd (handleTokenDelete ord meth path cfg))"

lemma mirrors_put:
  "mirrors x r \<Longrightarrow> Token_Create t r = Some r' \<Longrightarrow> mirrors (index_put (at_Hash t) (token_identity t) x) r'"
  by (auto simp: mirrors_def repo_wf_def Token_Create_def FindByHash_def split: option.splits if_splits)

lemma mirrors_remove:
  "mirrors x r \<Longrightarrow> iteration_order ord r \<Longrightarrow> DeleteByPrefix ord pre r = (removed, r') \<Longrightarrow>
   mirrors (fold index_remove removed x) r'"
  using fold_remove [of x removed]
  by (auto simp: mirrors_def repo_wf_def DeleteByPrefix_def FindByHash_def Let_def iteration_order_def split: if_splits)

lemma mirrors_cache:
  "mirrors x r \<Longrightarrow> FindByHash h r = Some t \<Longrightarrow> mirrors (index_put h (token_identity t) x) r"
  by (auto simp: mirrors_def)

lemma resolveToken_mirror:
  assumes "keys_mirror_store cfg" shows "keys_mirror_store (snd (resolveToken hash cfg p))"
proof -
  from assms obtain x r where k: "cfg_Keys cfg = Some x" "cfg_TokenStore cfg = Some r" and m: "mirrors x r"
    by (auto simp: keys_mirror_store_def)
  show ?thesis
    using assms m mirrors_cache [OF m, of "hash p"]
    by (auto simp: resolveToken_def k Let_def keys_mirror_store_def token_identity_def split: option.splits)
qed

lemma resolveRequest_mirror:
  "keys_mirror_store cfg \<Longrightarrow> keys_mirror_store (snd (resolveRequest hash cfg r))"
  using resolveToken_mirror [of cfg hash "ah_Sandrpod r"] resolveToken_mirror
  by (cases "resolveToken hash cfg (ah_Sandrpod r)") (auto simp: resolveRequest_def split: option.splits)

text \<open>A POST either refuses and changes nothing, or files a fresh token and answers with its key.\<close>

lemma issueToken_cases:
  assumes "issueToken hash now rnd name role cfg = (resp, cfg')"
  obtains (refused) st where "resp = TokenStatus st" "cfg' = cfg"
  | (issued) raw r r' tok where "cfg_TokenStore cfg = Some r" "GenerateAPIKey rnd = Some raw"
      "tok = \<lparr>at_Name = TrimSpace name, at_Prefix = take 16 raw, at_Hash = hash raw, at_Role = issued_role role, at_CreatedAt = now\<rparr>"
      "Token_Create tok r = Some r'"
      "resp = TokenIssued (TrimSpace name) (issued_role role) (take 16 raw) raw now"
      "cfg' = cfg\<lparr>cfg_TokenStore := Some r', cfg_Keys := map_option (index_put (hash raw) (token_identity tok)) (cfg_Keys cfg)\<rparr>"
  using assms by (auto simp: issueToken_def Let_def token_identity_def split: option.splits if_splits)

lemma handleTokens_mirror:
  assumes "keys_mirror_store cfg"
  shows "keys_mirror_store (snd (handleTokens hash now ord rnd meth name role cfg))"
proof -
  from assms obtain x r where k: "cfg_Keys cfg = Some x" "cfg_TokenStore cfg = Some r" and m: "mirrors x r"
    by (auto simp: keys_mirror_store_def)
  have "keys_mirror_store (snd (issueToken hash now rnd name role cfg))"
  proof (cases "issueToken hash now rnd name role cfg")
    case (Pair resp cfg')
    then show ?thesis
    proof (cases rule: issueToken_cases)
      case (issued raw r0 r' tok)
      with mirrors_put [OF m, of tok r'] k Pair show ?thesis by (simp add: keys_mirror_store_def)
    qed (use assms Pair in simp)
  qed
  with assms show ?thesis by (simp add: handleTokens_def k)
qed

lemma handleTokenDelete_mirror:
  assumes "keys_mirror_store cfg" and "iteration_order ord (the (cfg_TokenStore cfg))"
  shows "keys_mirror_store (snd (handleTokenDelete ord meth path cfg))"
proof -
  from assms obtain x r where k: "cfg_Keys cfg = Some x" "cfg_TokenStore cfg = Some r" and m: "mirrors x r"
    by (auto simp: keys_mirror_store_def)
  from assms(2) k have ord: "iteration_order ord r" by simp
  show ?thesis
    using assms(1) mirrors_remove [OF m ord]
    by (fastforce simp: handleTokenDelete_def k Let_def keys_mirror_store_def split: prod.splits)
qed


section \<open>Resolving\<close>

definition credentials :: "auth_headers \<Rightarrow> string set" where
  "credentials r =
     {p. p = ah_Sandrpod r \<and> p \<noteq> []} \<union> {p. ah_Authorization r = ''Bearer '' @ p}"

text \<open>What vouches for a credential: the server's own token, a named token, the index of issued keys, or,
  with several instances, the shared repository.\<close>

definition vouched :: "(string \<Rightarrow> string) \<Rightarrow> config \<Rightarrow> string \<Rightarrow> identity \<Rightarrow> bool" where
  "vouched hash cfg p i \<longleftrightarrow>
     cfg_Token cfg \<noteq> [] \<and> p = cfg_Token cfg \<and> i = the_identity ''admin'' RoleAdmin \<or>
     (\<exists>t \<in> set (candidates cfg). nt_Token t = p \<and> i = the_identity (nt_Name t) (nt_Role t)) \<or>
     (\<exists>x. cfg_Keys cfg = Some x \<and>
        (index_get (hash p) x = Some i \<or>
         cfg_NodeURL cfg \<noteq> [] \<and>
           (\<exists>r t. cfg_TokenStore cfg = Some r \<and> FindByHash (hash p) r = Some t \<and> i = token_identity t)))"

lemma find_token: "List.find (\<lambda>t. p = nt_Token t) ts = Some t \<Longrightarrow> t \<in> set ts \<and> nt_Token t = p"
  by (auto dest: find_SomeD)

lemma resolveToken_sound: "fst (resolveToken hash cfg p) = Some i \<Longrightarrow> vouched hash cfg p i"
  by (auto simp: resolveToken_def vouched_def token_identity_def Let_def dest!: find_token split: if_splits option.splits)

lemma resolveToken_None:
  "fst (resolveToken hash cfg p) = None \<longleftrightarrow> (\<forall>i. \<not> vouched hash cfg p i)"
proof
  assume "fst (resolveToken hash cfg p) = None"
  then show "\<forall>i. \<not> vouched hash cfg p i"
    by (auto simp: resolveToken_def vouched_def Let_def find_None_conv split: if_splits option.splits)
next
  assume none: "\<forall>i. \<not> vouched hash cfg p i"
  show "fst (resolveToken hash cfg p) = None"
    by (cases "fst (resolveToken hash cfg p)") (use none resolveToken_sound [of hash cfg p] in auto)
qed

lemma resolveToken_keeps: "fst (resolveToken hash cfg p) = None \<Longrightarrow> snd (resolveToken hash cfg p) = cfg"
  by (auto simp: resolveToken_def Let_def split: if_splits option.splits)

lemma bearer_iff:
  "HasPrefix a ''Bearer '' \<longleftrightarrow> (\<exists>p. a = ''Bearer '' @ p)" "drop (length ''Bearer '') (''Bearer '' @ p) = p"
  by (auto simp: HasPrefix_iff)

lemma resolveRequest_sound:
  assumes "fst (resolveRequest hash cfg r) = Some i"
  shows "\<exists>p \<in> credentials r. vouched hash cfg p i"
proof (cases "ah_Sandrpod r \<noteq> [] \<and> fst (resolveToken hash cfg (ah_Sandrpod r)) \<noteq> None")
  case True
  then have "fst (resolveToken hash cfg (ah_Sandrpod r)) = Some i"
    using assms by (auto simp: resolveRequest_def split: prod.splits)
  then have "vouched hash cfg (ah_Sandrpod r) i" by (rule resolveToken_sound)
  with True show ?thesis by (auto simp: credentials_def)
next
  case False
  then have "HasPrefix (ah_Authorization r) ''Bearer ''"
    and res: "fst (resolveToken hash cfg (drop (length ''Bearer '') (ah_Authorization r))) = Some i"
    using assms resolveToken_keeps [of hash cfg "ah_Sandrpod r"]
    by (auto simp: resolveRequest_def split: prod.splits if_splits option.splits)
  then obtain p where p: "ah_Authorization r = ''Bearer '' @ p" by (auto simp: HasPrefix_iff)
  with res have "vouched hash cfg p i" by (intro resolveToken_sound) simp
  with p show ?thesis by (auto simp: credentials_def)
qed

lemma resolveRequest_None:
  "fst (resolveRequest hash cfg r) = None \<longleftrightarrow> (\<forall>p \<in> credentials r. \<forall>i. \<not> vouched hash cfg p i)"
proof
  assume none: "fst (resolveRequest hash cfg r) = None"
  have "fst (resolveToken hash cfg p) = None" if "p \<in> credentials r" for p
    using none that resolveToken_keeps [of hash cfg "ah_Sandrpod r"]
    by (auto simp: credentials_def resolveRequest_def bearer_iff split: prod.splits if_splits option.splits)
  then show "\<forall>p \<in> credentials r. \<forall>i. \<not> vouched hash cfg p i" by (simp add: resolveToken_None)
next
  assume none: "\<forall>p \<in> credentials r. \<forall>i. \<not> vouched hash cfg p i"
  then show "fst (resolveRequest hash cfg r) = None"
    using resolveRequest_sound [of hash cfg r] by (cases "fst (resolveRequest hash cfg r)") auto
qed

section \<open>Properties\<close>

text \<open>Claim C7. Who is let in, exactly: on a server with any credential configured a request is refused as
  unauthenticated exactly when nothing vouches for the credentials it carries, and an identity it
  is granted is one that something vouches for; only a server with no credential of any kind
  answers everybody as an administrator.\<close>

theorem Authenticate_exact:
  "(fst (Authenticate hash now r (cfg, limiter)) = Inl ErrUnauthenticated \<longleftrightarrow>
      \<not> authDisabled cfg \<and> (\<forall>p \<in> credentials r. \<forall>i. \<not> vouched hash cfg p i)) \<and>
   (fst (Authenticate hash now r (cfg, limiter)) = Inr i \<longrightarrow>
      (if authDisabled cfg then i = the_identity [] RoleAdmin
       else \<exists>p \<in> credentials r. vouched hash cfg p i))"
proof (cases "authDisabled cfg")
  case False
  show ?thesis
  proof (cases "resolveRequest hash cfg r")
    case (Pair res cfg1)
    with False resolveRequest_None [of hash cfg r] resolveRequest_sound [of hash cfg r]
    show ?thesis
      by (cases res; cases limiter) (auto simp: Authenticate_def split: prod.splits)
  qed
qed (simp add: Authenticate_def)


definition demo_config :: config where
  "demo_config =
     \<lparr>cfg_Token = ''root'', cfg_Tokens = [], cfg_Registry = Some [\<lparr>nt_Name = ''ann'', nt_Token = ''t1'', nt_Role = RoleUser\<rparr>],
      cfg_Keys = Some newAPIKeyIndex, cfg_NodeURL = [], cfg_TokenStore = Some NewMemTokenRepo\<rparr>"

theorem Authenticate_exact_witness:
  "\<exists>p \<in> credentials \<lparr>ah_Sandrpod = ''x'', ah_Authorization = ''Bearer t1''\<rparr>.
     vouched id demo_config p (the_identity ''ann'' RoleUser)"
proof -
  let ?r = "\<lparr>ah_Sandrpod = ''x'', ah_Authorization = ''Bearer t1''\<rparr>"
  have "fst (Authenticate id 0 ?r (demo_config, None)) = Inr (the_identity ''ann'' RoleUser)"
    "\<not> authDisabled demo_config"
    by (code_simp, code_simp)
  with Authenticate_exact [of id 0 ?r demo_config None "the_identity ''ann'' RoleUser"] show ?thesis by simp
qed

text \<open>A tokens file is accepted exactly when every entry has a name, a token and a known role (or none)
  and no name and no token occurs twice; then its entries are taken over as they are, with the user
  role for those without one.\<close>

theorem loadTokensFile_exact:
  "case loadTokensFile (TokensDecoded ts) of
     Inr l \<Rightarrow> list_all entry_ok ts \<and> distinct (map nt_Name ts) \<and> distinct (map nt_Token ts) \<and> l = map default_role ts
   | Inl _ \<Rightarrow> \<not> (list_all entry_ok ts \<and> distinct (map nt_Name ts) \<and> distinct (map nt_Token ts))"
  using check_tokens_correct [where i = 0 and names = "[]" and toks = "[]" and ts = ts]
  by (simp add: loadTokensFile_def tokens_ok_def split: sum.splits)

lemma load_keys_mirror:
  assumes "cfg_TokenStore cfg = Some r" and "repo_wf r" and "iteration_order ord r"
  shows "keys_mirror_store (load_keys ord cfg)"
proof -
  have "index_get h (index_load (Token_List ord r) newAPIKeyIndex) = map_option token_identity (r h)" for h
  proof (cases "List.find (\<lambda>t. at_Hash t = h) (rev (Token_List ord r))")
    case None
    then have "r h = None"
      using assms(2,3) by (cases "r h") (force simp: find_None_conv Token_List_def visit_def repo_wf_def
          iteration_order_def List.map_filter_def)+
    with None show ?thesis by (simp add: index_load_get)
  next
    case (Some t)
    then obtain k where "r k = Some t" "at_Hash t = h"
      by (auto dest!: find_SomeD simp: Token_List_def visit_def List.map_filter_def)
    with assms(2) have "r h = Some t" by (auto simp: repo_wf_def)
    with Some show ?thesis by (simp add: index_load_get token_identity_def)
  qed
  moreover have "distinct (map fst (index_load (Token_List ord r) newAPIKeyIndex))"
    by (rule index_load_distinct) (simp add: newAPIKeyIndex_def)
  ultimately show ?thesis
    using assms by (simp add: load_keys_def keys_mirror_store_def mirrors_def FindByHash_def)
qed

text \<open>Claim C38. The index never disagrees with the repository: after start-up and any sequence of logins, issues
  and revocations, it holds exactly the hashes of the stored tokens, each with its token's identity.\<close>

theorem index_mirrors_repository:
  assumes "cfg_TokenStore cfg = Some r" and "repo_wf r" and "iteration_order ord r"
    and "(auth_step hash)\<^sup>*\<^sup>* (load_keys ord cfg) cfg'"
  shows "keys_mirror_store cfg'"
  using assms(4)
proof (induction rule: rtranclp_induct)
  case base
  show ?case by (rule load_keys_mirror [OF assms(1-3)])
next
  case (step c1 c2)
  from step.hyps(2) step.IH show ?case
    by cases (auto intro: resolveRequest_mirror handleTokens_mirror handleTokenDelete_mirror)
qed

theorem index_mirrors_repository_witness:
  "keys_mirror_store (snd (handleTokens id 5 [] (Some [1, 2, 3, 4, 5, 6, 7, 8]) ''POST'' ''ann'' [] (load_keys [] demo_config)))"
proof (rule index_mirrors_repository [where hash = id and r = NewMemTokenRepo])
  show "(auth_step id)\<^sup>*\<^sup>* (load_keys [] demo_config)
      (snd (handleTokens id 5 [] (Some [1, 2, 3, 4, 5, 6, 7, 8]) ''POST'' ''ann'' [] (load_keys [] demo_config)))"
    by (rule r_into_rtranclp) (rule auth_step.tokens)
qed (simp_all add: demo_config_def repo_wf_def NewMemTokenRepo_def iteration_order_def dom_def)

lemma hex_EncodeToString_chars:
  "list_all (\<lambda>c. c \<in> set ''0123456789abcdef'') (hex_EncodeToString bs)"
proof -
  have "hex_char b \<in> set ''0123456789abcdef''" for b
    unfolding hex_char_def by (rule nth_mem) simp
  then show ?thesis by (auto simp: hex_EncodeToString_def list_all_iff)
qed

text \<open>An issued key works: the answer to a successful request for a token carries a key of the E2B shape,
  under which its holder is from then on let in with the name and role of the answer, and the server
  is not open any more, whatever it was before.\<close>

theorem issued_key_works:
  assumes "handleTokens hash now ord (Some rnd) ''POST'' name role cfg = (TokenIssued nm rl pre raw tm, cfg')"
    and "rnd \<noteq> []" and "cfg_Keys cfg \<noteq> None" and "raw \<noteq> cfg_Token cfg" and "raw \<notin> nt_Token ` set (candidates cfg)"
  shows "IsE2BKey raw \<and> nm = TrimSpace name \<and> rl = issued_role role \<and>
     fst (resolveRequest hash cfg' \<lparr>ah_Sandrpod = [], ah_Authorization = ''Bearer '' @ raw\<rparr>) = Some (the_identity nm rl) \<and>
     \<not> authDisabled cfg'"
proof -
  from assms(1) have iss: "issueToken hash now (Some rnd) name role cfg = (TokenIssued nm rl pre raw tm, cfg')"
    by (auto simp: handleTokens_def split: option.splits)
  from assms(3) obtain x where x: "cfg_Keys cfg = Some x" by auto
  from iss show ?thesis
  proof (cases rule: issueToken_cases)
    case (issued raw' r r' tok)
    then have raw: "raw = ''e2b_'' @ hex_EncodeToString rnd" and nm: "nm = TrimSpace name" and rl: "rl = issued_role role"
      by (auto simp: GenerateAPIKey_def)
    have get: "index_get (hash raw) (the (cfg_Keys cfg')) = Some (the_identity nm rl)"
      and keys: "cfg_Keys cfg' = Some (index_put (hash raw) (token_identity tok) x)"
      and same: "cfg_Token cfg' = cfg_Token cfg" "candidates cfg' = candidates cfg"
      using issued x by (auto simp: token_identity_def candidates_def)
    have "List.find (\<lambda>t. raw = nt_Token t) (candidates cfg') = None"
      using assms(5) same by (auto simp: find_None_conv)
    with get assms(4) keys same have "fst (resolveToken hash cfg' raw) = Some (the_identity nm rl)"
      by (simp add: resolveToken_def Let_def)
    moreover have "IsE2BKey raw"
      using hex_EncodeToString_chars [of rnd] assms(2) by (cases rnd) (auto simp: raw IsE2BKey_def HasPrefix_iff hex_EncodeToString_def)
    moreover have "\<not> authDisabled cfg'" using keys by (auto simp: authDisabled_def)
    ultimately show ?thesis using nm rl by (simp add: resolveRequest_def HasPrefix_iff)
  qed auto
qed


theorem issued_key_works_witness:
  "case handleTokens id 5 [] (Some [1, 171]) ''POST'' '' ann '' ''admin'' demo_config of
     (TokenIssued nm rl pre raw tm, cfg') \<Rightarrow>
       IsE2BKey raw \<and> nm = ''ann'' \<and>
       fst (resolveRequest id cfg' \<lparr>ah_Sandrpod = [], ah_Authorization = ''Bearer '' @ raw\<rparr>) = Some (the_identity nm rl)
   | _ \<Rightarrow> False"
proof -
  obtain nm rl pre raw tm cfg' where
    run: "handleTokens id 5 [] (Some [1, 171]) ''POST'' '' ann '' ''admin'' demo_config = (TokenIssued nm rl pre raw tm, cfg')"
    and raw: "raw = ''e2b_01ab''"
  proof -
    have "case fst (handleTokens id 5 [] (Some [1, 171]) ''POST'' '' ann '' ''admin'' demo_config) of
        TokenIssued nm rl pre raw tm \<Rightarrow> raw = ''e2b_01ab'' | _ \<Rightarrow> False"
      by code_simp
    then show ?thesis
      using that by (cases "handleTokens id 5 [] (Some [1, 171]) ''POST'' '' ann '' ''admin'' demo_config")
        (auto split: token_response.splits)
  qed
  have tr: "TrimSpace '' ann '' = ''ann''" by code_simp
  have "raw \<noteq> cfg_Token demo_config" "raw \<notin> nt_Token ` set (candidates demo_config)" "cfg_Keys demo_config \<noteq> None"
    by (auto simp: raw demo_config_def candidates_def)
  with issued_key_works [OF run] tr run show ?thesis by auto
qed

text \<open>The repository without the tokens of a prefix, and what a successful revocation leaves.\<close>

definition unrevoked :: "string \<Rightarrow> token_repo \<Rightarrow> token_repo" where
  "unrevoked pre r h = (case r h of None \<Rightarrow> None | Some t \<Rightarrow> if at_Prefix t = pre then None else Some t)"

lemma revoke_effect:
  assumes "keys_mirror_store cfg" and "cfg_TokenStore cfg = Some r" and "iteration_order ord r"
    and "handleTokenDelete ord ''DELETE'' (''/api/v1/tokens/'' @ pre) cfg = (TokenStatus 204, cfg')"
  shows "\<exists>x'. cfg' = cfg\<lparr>cfg_TokenStore := Some (unrevoked pre r), cfg_Keys := Some x'\<rparr> \<and> mirrors x' (unrevoked pre r)"
proof -
  from assms(1,2) obtain x where x: "cfg_Keys cfg = Some x" and m: "mirrors x r"
    by (auto simp: keys_mirror_store_def)
  have "snd (DeleteByPrefix ord pre r) = unrevoked pre r"
    using assms(3) by (intro ext) (auto simp: DeleteByPrefix_def unrevoked_def Let_def iteration_order_def split: option.splits)
  then obtain removed where del: "DeleteByPrefix ord pre r = (removed, unrevoked pre r)" by (metis prod.collapse)
  have "cfg' = cfg\<lparr>cfg_TokenStore := Some (unrevoked pre r), cfg_Keys := Some (fold index_remove removed x)\<rparr>"
    using assms(4) [unfolded handleTokenDelete_def Let_def TrimPrefix_append] assms(2) x del
    by (auto split: if_splits)
  with mirrors_remove [OF m assms(3) del] show ?thesis by blast
qed

text \<open>Claim C22. A revoked key is dead at once on the instance that revoked it: when the instance's index mirrored the
  repository, a key that is neither the platform token nor a configured token resolves to nothing after the revocation if
  the record of its hash carried the prefix, also where a miss in the index looks the key up in a shared repository, and to
  the identity of its record otherwise. (What other instances have in their index is not covered, and a server whose
  last credential was revoked asks for none any more, as shown below.)\<close>

theorem revoked_key_is_refused:
  assumes "keys_mirror_store cfg" and "cfg_TokenStore cfg = Some r" and "iteration_order ord r"
    and "handleTokenDelete ord ''DELETE'' (''/api/v1/tokens/'' @ pre) cfg = (TokenStatus 204, cfg')"
    and "key \<noteq> cfg_Token cfg" and "key \<notin> nt_Token ` set (candidates cfg)"
  shows "fst (resolveToken hash cfg' key) =
     (case r (hash key) of
        None \<Rightarrow> None | Some t \<Rightarrow> if at_Prefix t = pre then None else Some (token_identity t))"
proof -
  from revoke_effect [OF assms(1-4)] obtain x' where
    cfg': "cfg' = cfg\<lparr>cfg_TokenStore := Some (unrevoked pre r), cfg_Keys := Some x'\<rparr>"
    and m': "mirrors x' (unrevoked pre r)" by blast
  have "List.find (\<lambda>t. key = nt_Token t) (candidates cfg') = None"
    using assms(6) by (auto simp: find_None_conv cfg' candidates_def)
  moreover have "index_get (hash key) x' = map_option token_identity (unrevoked pre r (hash key))"
    using m' by (simp add: mirrors_def FindByHash_def)
  ultimately show ?thesis
    using assms(5)
    by (auto simp: resolveToken_def cfg' Let_def FindByHash_def unrevoked_def split: option.splits)
qed


definition demo_token :: api_token where
  "demo_token = \<lparr>at_Name = ''bob'', at_Prefix = ''e2b_0'', at_Hash = ''e2b_01'', at_Role = RoleAdmin, at_CreatedAt = 0\<rparr>"

definition demo_keyed :: config where
  "demo_keyed =
     \<lparr>cfg_Token = [], cfg_Tokens = [], cfg_Registry = None,
      cfg_Keys = Some [(''e2b_01'', the_identity ''bob'' RoleAdmin)], cfg_NodeURL = [],
      cfg_TokenStore = Some [''e2b_01'' \<mapsto> demo_token]\<rparr>"

lemma demo_keyed_mirror: "keys_mirror_store demo_keyed"
  by (auto simp: keys_mirror_store_def demo_keyed_def mirrors_def repo_wf_def demo_token_def FindByHash_def
      index_get_def token_identity_def)

theorem revoked_key_is_refused_witness:
  "fst (resolveToken id (snd (handleTokenDelete [''e2b_01''] ''DELETE'' (''/api/v1/tokens/'' @ ''e2b_0'') demo_keyed)) ''e2b_01'') = None"
proof -
  let ?run = "handleTokenDelete [''e2b_01''] ''DELETE'' (''/api/v1/tokens/'' @ ''e2b_0'') demo_keyed"
  have "fst ?run = TokenStatus 204" by code_simp
  then have "?run = (TokenStatus 204, snd ?run)" by (metis prod.collapse)
  from revoked_key_is_refused [OF demo_keyed_mirror _ _ this, of "[''e2b_01'' \<mapsto> demo_token]" "''e2b_01''" id]
  show ?thesis
    by (simp add: demo_keyed_def demo_token_def iteration_order_def candidates_def)
qed

text \<open>Revoking the last key opens the server: when issued keys are its only credentials, a revocation
  that removes them all leaves a server that answers every request, with or without credentials, as
  an administrator.\<close>

theorem revoking_last_key_opens:
  assumes "keys_mirror_store cfg" and "cfg_TokenStore cfg = Some r" and "iteration_order ord r"
    and "cfg_Token cfg = []" and "candidates cfg = []"
    and "\<forall>h t. r h = Some t \<longrightarrow> at_Prefix t = pre"
    and "handleTokenDelete ord ''DELETE'' (''/api/v1/tokens/'' @ pre) cfg = (TokenStatus 204, cfg')"
  shows "fst (Authenticate hash now req (cfg', limiter)) = Inr (the_identity [] RoleAdmin)"
proof -
  from revoke_effect [OF assms(1-3,7)] obtain x' where
    cfg': "cfg' = cfg\<lparr>cfg_TokenStore := Some (unrevoked pre r), cfg_Keys := Some x'\<rparr>"
    and m': "mirrors x' (unrevoked pre r)" by blast
  have "unrevoked pre r h = None" for h
    using assms(6) by (auto simp: unrevoked_def split: option.splits)
  with m' have "authDisabled cfg'"
    using assms(4,5) by (auto simp: authDisabled_def cfg' candidates_def mirrors_def FindByHash_def split: option.splits)
  then show ?thesis by (simp add: Authenticate_def)
qed

theorem revoking_last_key_opens_witness:
  "fst (Authenticate id 0 \<lparr>ah_Sandrpod = [], ah_Authorization = []\<rparr>
     (snd (handleTokenDelete [''e2b_01''] ''DELETE'' (''/api/v1/tokens/'' @ ''e2b_0'') demo_keyed), None))
   = Inr (the_identity [] RoleAdmin)"
proof -
  let ?run = "handleTokenDelete [''e2b_01''] ''DELETE'' (''/api/v1/tokens/'' @ ''e2b_0'') demo_keyed"
  have "fst ?run = TokenStatus 204" by code_simp
  then have run: "?run = (TokenStatus 204, snd ?run)" by (metis prod.collapse)
  show ?thesis
    by (rule revoking_last_key_opens [OF demo_keyed_mirror _ _ _ _ _ run, where r = "[''e2b_01'' \<mapsto> demo_token]"])
      (auto simp: demo_keyed_def demo_token_def iteration_order_def candidates_def split: if_splits)
qed

end
