(* ===== verification/Server_State.thy ===== *)
theory Server_State
  imports Server_Auth Scheduler
begin

text \<open>
  The state of the control plane that its HTTP handlers and background passes share
  (\<^verbatim>\<open>src/pkg/server\<close>): the four repositories, the two tunnel stores of \<^verbatim>\<open>src/pkg/tunnel/tunnel.go\<close>, the
  two tables of tombstones and the activity throttle. A tunnel is an object with an identity: a
  number, and the set of closed tunnels is part of the state. What a handler does to the outside
  (a VM deleted, a tunnel closed, a request sent down a tunnel, an event emitted) is appended to
  \<open>cp_effects\<close>. Each repository call is one step and a handler is the sequence of its calls.

  Two lemmas on loops over a Go map carry the proofs about the background passes: a loop whose
  body only touches the entry it visits changes every entry by that body, in whatever order the
  map is visited.
\<close>

datatype effect =
    VMTermination string string bool
  | TunnelClosed nat
  | WorkerRequest nat string string
  | CreateSent nat string
  | PeerAsked string string
  | Emitted string string

record control =
  cp_poders :: poder_store
  cp_sandboxes :: sandbox_store
  cp_jobs :: job_store
  cp_tunnels :: "string \<Rightarrow> nat option"
  cp_direct :: "string \<Rightarrow> nat option"
  cp_closed :: "nat \<Rightarrow> bool"
  cp_owners :: tunnel_owners
  cp_poderTombstones :: tombstones
  cp_sandboxTombstones :: tombstones
  cp_activity :: "string \<Rightarrow> gotime option"
  cp_tenants :: sched_state
  cp_effects :: "effect list"

definition emit :: "effect \<Rightarrow> control \<Rightarrow> control" where
  "emit e st = st\<lparr>cp_effects := cp_effects st @ [e]\<rparr>"

section \<open>The tunnel store\<close>

type_synonym tunnel_store = "string \<Rightarrow> nat option"

definition NewTunnelStore :: tunnel_store where "NewTunnelStore = (\<lambda>_. None)"
definition Tunnel_Set :: "string \<Rightarrow> nat \<Rightarrow> tunnel_store \<Rightarrow> tunnel_store" where "Tunnel_Set key t s = s(key \<mapsto> t)"
definition Tunnel_Get :: "string \<Rightarrow> tunnel_store \<Rightarrow> nat option" where "Tunnel_Get key s = s key"
definition Tunnel_Remove :: "string \<Rightarrow> tunnel_store \<Rightarrow> tunnel_store" where "Tunnel_Remove key s = s(key := None)"
definition Tunnel_Keys :: "string list \<Rightarrow> tunnel_store \<Rightarrow> string list" where
  "Tunnel_Keys ord s = filter (\<lambda>k. s k \<noteq> None) ord"

definition closeTunnel :: "nat \<Rightarrow> control \<Rightarrow> control" where
  "closeTunnel t st = emit (TunnelClosed t) (st\<lparr>cp_closed := (cp_closed st)(t := True)\<rparr>)"

section \<open>Updating one repository\<close>

text \<open>The handlers ignore the error of \<^verbatim>\<open>Update\<close> (a record that is gone stays gone).\<close>

definition update_sandbox :: "string \<Rightarrow> (sandbox_info \<Rightarrow> sandbox_info) \<Rightarrow> control \<Rightarrow> control" where
  "update_sandbox name fn st =
     (case Sandbox_Update name fn (cp_sandboxes st) of None \<Rightarrow> st | Some s \<Rightarrow> st\<lparr>cp_sandboxes := s\<rparr>)"

definition delete_sandbox :: "string \<Rightarrow> control \<Rightarrow> control" where
  "delete_sandbox name st =
     (case Sandbox_Delete name (cp_sandboxes st) of None \<Rightarrow> st | Some s \<Rightarrow> st\<lparr>cp_sandboxes := s\<rparr>)"

definition update_job :: "gotime \<Rightarrow> string \<Rightarrow> (job \<Rightarrow> job) \<Rightarrow> control \<Rightarrow> control" where
  "update_job now i fn st =
     (case UpdateJob now i fn (cp_jobs st) of None \<Rightarrow> st | Some s \<Rightarrow> st\<lparr>cp_jobs := s\<rparr>)"

definition update_usage :: "string \<Rightarrow> (poder_usage \<Rightarrow> poder_usage) \<Rightarrow> control \<Rightarrow> control" where
  "update_usage i fn st = st\<lparr>cp_poders := snd (UpdateUsage i fn (cp_poders st))\<rparr>"

definition one_container_less :: "poder_usage \<Rightarrow> poder_usage" where
  "one_container_less u = (if pu_Containers u > 0 then u\<lparr>pu_Containers := pu_Containers u - 1\<rparr> else u)"

definition one_container_more :: "poder_usage \<Rightarrow> poder_usage" where
  "one_container_more u = u\<lparr>pu_Containers := pu_Containers u + 1\<rparr>"

lemma emit_simps [simp]:
  "cp_poders (emit e st) = cp_poders st" "cp_sandboxes (emit e st) = cp_sandboxes st"
  "cp_jobs (emit e st) = cp_jobs st" "cp_tunnels (emit e st) = cp_tunnels st"
  "cp_direct (emit e st) = cp_direct st" "cp_closed (emit e st) = cp_closed st"
  "cp_owners (emit e st) = cp_owners st" "cp_poderTombstones (emit e st) = cp_poderTombstones st"
  "cp_sandboxTombstones (emit e st) = cp_sandboxTombstones st" "cp_activity (emit e st) = cp_activity st"
  "cp_tenants (emit e st) = cp_tenants st" "cp_effects (emit e st) = cp_effects st @ [e]"
  by (simp_all add: emit_def)

lemma closeTunnel_simps [simp]:
  "cp_poders (closeTunnel t st) = cp_poders st" "cp_sandboxes (closeTunnel t st) = cp_sandboxes st"
  "cp_jobs (closeTunnel t st) = cp_jobs st" "cp_tunnels (closeTunnel t st) = cp_tunnels st"
  "cp_direct (closeTunnel t st) = cp_direct st" "cp_closed (closeTunnel t st) = (cp_closed st)(t := True)"
  "cp_owners (closeTunnel t st) = cp_owners st" "cp_poderTombstones (closeTunnel t st) = cp_poderTombstones st"
  "cp_sandboxTombstones (closeTunnel t st) = cp_sandboxTombstones st"
  "cp_activity (closeTunnel t st) = cp_activity st"
  "cp_tenants (closeTunnel t st) = cp_tenants st" "cp_effects (closeTunnel t st) = cp_effects st @ [TunnelClosed t]"
  by (simp_all add: closeTunnel_def)

lemma update_sandbox_other:
  "cp_poders (update_sandbox n f st) = cp_poders st" "cp_jobs (update_sandbox n f st) = cp_jobs st"
  "cp_tunnels (update_sandbox n f st) = cp_tunnels st" "cp_direct (update_sandbox n f st) = cp_direct st"
  "cp_closed (update_sandbox n f st) = cp_closed st" "cp_owners (update_sandbox n f st) = cp_owners st"
  "cp_poderTombstones (update_sandbox n f st) = cp_poderTombstones st"
  "cp_sandboxTombstones (update_sandbox n f st) = cp_sandboxTombstones st"
  "cp_activity (update_sandbox n f st) = cp_activity st" "cp_tenants (update_sandbox n f st) = cp_tenants st"
  "cp_effects (update_sandbox n f st) = cp_effects st"
  by (simp_all add: update_sandbox_def split: option.splits)

lemma delete_sandbox_other:
  "cp_poders (delete_sandbox n st) = cp_poders st" "cp_jobs (delete_sandbox n st) = cp_jobs st"
  "cp_tunnels (delete_sandbox n st) = cp_tunnels st" "cp_direct (delete_sandbox n st) = cp_direct st"
  "cp_closed (delete_sandbox n st) = cp_closed st" "cp_owners (delete_sandbox n st) = cp_owners st"
  "cp_poderTombstones (delete_sandbox n st) = cp_poderTombstones st"
  "cp_sandboxTombstones (delete_sandbox n st) = cp_sandboxTombstones st"
  "cp_activity (delete_sandbox n st) = cp_activity st" "cp_tenants (delete_sandbox n st) = cp_tenants st"
  "cp_effects (delete_sandbox n st) = cp_effects st"
  by (simp_all add: delete_sandbox_def split: option.splits)

lemma update_job_other:
  "cp_poders (update_job t i f st) = cp_poders st" "cp_sandboxes (update_job t i f st) = cp_sandboxes st"
  "cp_tunnels (update_job t i f st) = cp_tunnels st" "cp_direct (update_job t i f st) = cp_direct st"
  "cp_closed (update_job t i f st) = cp_closed st" "cp_owners (update_job t i f st) = cp_owners st"
  "cp_poderTombstones (update_job t i f st) = cp_poderTombstones st"
  "cp_sandboxTombstones (update_job t i f st) = cp_sandboxTombstones st"
  "cp_activity (update_job t i f st) = cp_activity st" "cp_tenants (update_job t i f st) = cp_tenants st"
  "cp_effects (update_job t i f st) = cp_effects st"
  by (simp_all add: update_job_def split: option.splits)

lemma update_usage_other:
  "cp_sandboxes (update_usage i f st) = cp_sandboxes st" "cp_jobs (update_usage i f st) = cp_jobs st"
  "cp_tunnels (update_usage i f st) = cp_tunnels st" "cp_direct (update_usage i f st) = cp_direct st"
  "cp_closed (update_usage i f st) = cp_closed st" "cp_owners (update_usage i f st) = cp_owners st"
  "cp_poderTombstones (update_usage i f st) = cp_poderTombstones st"
  "cp_sandboxTombstones (update_usage i f st) = cp_sandboxTombstones st"
  "cp_activity (update_usage i f st) = cp_activity st" "cp_tenants (update_usage i f st) = cp_tenants st"
  "cp_effects (update_usage i f st) = cp_effects st"
  by (simp_all add: update_usage_def)

lemmas control_frame = update_sandbox_other delete_sandbox_other update_job_other update_usage_other

declare control_frame [simp]

lemma update_sandbox_get [simp]:
  "cp_sandboxes (update_sandbox n f st) =
     (\<lambda>k. if k = n then map_option f (cp_sandboxes st k) else cp_sandboxes st k)"
  by (auto simp: update_sandbox_def Sandbox_Update_def split: option.splits)

lemma delete_sandbox_get [simp]: "cp_sandboxes (delete_sandbox n st) = (cp_sandboxes st)(n := None)"
  by (auto simp: delete_sandbox_def Sandbox_Delete_def split: option.splits)

lemma update_job_get [simp]:
  "js_jobs (cp_jobs (update_job now i f st)) =
     (\<lambda>k. if k = i then map_option (\<lambda>j. (f j)\<lparr>j_UpdatedAt := now\<rparr>) (js_jobs (cp_jobs st) k) else js_jobs (cp_jobs st) k)"
  by (auto simp: update_job_def UpdateJob_def split: option.splits)

lemma update_usage_get [simp]:
  "cp_poders (update_usage i f st) =
     (\<lambda>k. if k = i then map_option (\<lambda>p. p\<lparr>po_Usage := f (po_Usage p)\<rparr>) (cp_poders st k) else cp_poders st k)"
  by (auto simp: update_usage_def UpdateUsage_def split: option.splits)

section \<open>Loops over a map\<close>

lemma visit_Cons: "visit (k # ks) m = (case m k of None \<Rightarrow> visit ks m | Some v \<Rightarrow> v # visit ks m)"
  by (simp add: visit_def List.map_filter_def split: option.split)

lemma fold_visit: "fold f (visit ks m) s = fold (\<lambda>k. case m k of None \<Rightarrow> id | Some v \<Rightarrow> f v) ks s"
  by (induction ks arbitrary: s) (auto simp: visit_def List.map_filter_def split: option.splits)

text \<open>An entry-wise body: seen through a view of the state (\<open>get\<close>), handling a record changes the entry under
  the record's key by \<open>h\<close> and no other, as long as the rest of the state satisfies \<open>I\<close>, which the body
  keeps. The records are those of a snapshot \<open>m\<close> taken before the loop.\<close>

lemma fold_map_loop_inv:
  assumes body: "\<And>v s. I s \<Longrightarrow> get (body v s) = (get s)(key v := h v (get s (key v)))"
    and keep: "\<And>v s. I s \<Longrightarrow> I (body v s)"
    and wf: "\<And>k v. m k = Some v \<Longrightarrow> key v = k" and "distinct ks" and "I s"
  shows "get (fold body (filter P (visit ks m)) s) k =
     (if k \<in> set ks
      then (case m k of Some v \<Rightarrow> if P v then h v (get s k) else get s k | None \<Rightarrow> get s k)
      else get s k)"
  using assms(4,5)
proof (induction ks arbitrary: s)
  case (Cons j ks)
  show ?case
  proof (cases "m j")
    case None
    with Cons show ?thesis by (auto simp: visit_Cons)
  next
    case (Some v)
    with wf have "key v = j" by simp
    with Cons Some show ?thesis by (auto simp: visit_Cons body keep split: option.splits)
  qed
qed (simp add: visit_def List.map_filter_def)

lemma fold_visit_loop_inv:
  assumes "\<And>v s. I s \<Longrightarrow> get (body v s) = (get s)(key v := h v (get s (key v)))"
    and "\<And>v s. I s \<Longrightarrow> I (body v s)" and "\<And>k v. m k = Some v \<Longrightarrow> key v = k" and "iteration_order ks m" and "I s"
  shows "get (fold body (visit ks m) s) k = (case m k of Some v \<Rightarrow> h v (get s k) | None \<Rightarrow> get s k)"
proof -
  have "get (fold body (filter (\<lambda>_. True) (visit ks m)) s) k =
      (if k \<in> set ks then (case m k of Some v \<Rightarrow> if True then h v (get s k) else get s k | None \<Rightarrow> get s k) else get s k)"
    by (rule fold_map_loop_inv [where I = I and get = get and body = body and key = key and h = h])
      (use assms in \<open>auto simp: iteration_order_def\<close>)
  then show ?thesis using assms(4) by (auto simp: iteration_order_def split: option.splits)
qed

lemmas fold_map_loop = fold_map_loop_inv [where I = "\<lambda>_. True", simplified]

text \<open>What such a loop appends to a log depends on the entries as they were before it.\<close>

lemma fold_map_log:
  assumes body: "\<And>v s. I s \<Longrightarrow> get (body v s) = (get s)(key v := h v (get s (key v)))"
    and keep: "\<And>v s. I s \<Longrightarrow> I (body v s)"
    and log: "\<And>v s. I s \<Longrightarrow> logged (body v s) = logged s @ eff v (get s (key v))"
    and wf: "\<And>k v. m k = Some v \<Longrightarrow> key v = k" and "distinct ks" and "I s"
  shows "logged (fold body (visit ks m) s) = logged s @ concat (map (\<lambda>v. eff v (get s (key v))) (visit ks m))"
  using assms(5,6)
proof (induction ks arbitrary: s)
  case (Cons j ks)
  show ?case
  proof (cases "m j")
    case None
    with Cons show ?thesis by (auto simp: visit_Cons)
  next
    case (Some v)
    have other: "key w \<noteq> key v" if "w \<in> set (visit ks m)" for w
      using that Cons.prems(1) Some wf by (auto simp: visit_def List.map_filter_def)
    have "map (\<lambda>w. eff w (get (body v s) (key w))) (visit ks m) = map (\<lambda>w. eff w (get s (key w))) (visit ks m)"
      using other Cons.prems(2) by (intro map_cong) (auto simp: body)
    with Cons.IH [of "body v s"] Cons.prems Some show ?thesis by (simp add: visit_Cons log keep)
  qed
qed (simp add: visit_def List.map_filter_def)

lemma fold_keeps:
  assumes "\<And>x s. get (f x s) = get s" shows "get (fold f xs s) = get s"
  by (induction xs arbitrary: s) (simp_all add: assms)

definition sandboxes_wf :: "sandbox_store \<Rightarrow> bool" where
  "sandboxes_wf s \<longleftrightarrow> (\<forall>n sb. s n = Some sb \<longrightarrow> sb_Name sb = n)"

lemma iteration_order_all:
  "iteration_order ord m \<Longrightarrow> (if k \<in> set ord then (case m k of Some v \<Rightarrow> f v | None \<Rightarrow> d) else d) =
     (case m k of Some v \<Rightarrow> f v | None \<Rightarrow> d)"
  by (auto simp: iteration_order_def split: option.splits)

end
