(* ===== verification/Server_Fleet.thy ===== *)
theory Server_Fleet
  imports Server_State
begin

text \<open>
  The fleet of workers as the control plane keeps it (\<^verbatim>\<open>src/pkg/server/main.go\<close> and \<^verbatim>\<open>reclaim.go\<close>): a worker's
  tunnel connecting and disconnecting, its heartbeats with the reconciliation of sandbox states,
  the liveness sweep, the two passes that reclaim workers and their VMs, the idle reaper of
  sandboxes, and the administrator's delete of a worker. The clock of a pass, the order in which a
  map is visited, and what a provider answers to the deletion of a VM are arguments. A pass reads
  the list of workers once; the model takes the pass as one step.

  Shown here: a VM is terminated by the idle pass only after a worker of its worker's id was seen online, without a
  sandbox, at every pass for longer than the lifetime; neither pass drops the record of a VM it did
  not delete; heartbeats and disconnects set sandbox states exactly as meant and undo each other; a
  stale disconnect does not touch a fresh connection; a deleted worker cannot come back for ten
  minutes; and an idle timeout large enough to overflow expires at once.
\<close>

section \<open>Connecting and disconnecting\<close>

definition splitCapabilities :: "string \<Rightarrow> string list" where
  "splitCapabilities raw = filter (\<lambda>c. c \<noteq> []) (map TrimSpace (Split raw (CHR '','')))"

text \<open>The headers of a worker's handshake.\<close>

record connect_headers =
  ch_PoderID :: string
  ch_Name :: string
  ch_Region :: string
  ch_ProviderType :: string
  ch_VMID :: string
  ch_Workspace :: string
  ch_Capabilities :: string
  ch_CPUCores :: string
  ch_MemoryBytes :: string
  ch_MaxContainers :: string
  ch_Arch :: string
  ch_OS :: string
  ch_OSVersion :: string
  ch_KernelVersion :: string

definition poderWorkspace :: "identity \<Rightarrow> connect_headers \<Rightarrow> string" where
  "poderWorkspace ident h = (if id_Tenant ident \<noteq> [] then id_Tenant ident else TrimSpace (ch_Workspace h))"

definition poderWorkspaceOrProvisioner ::
  "gotime \<Rightarrow> identity \<Rightarrow> connect_headers \<Rightarrow> control \<Rightarrow> string \<times> control" where
  "poderWorkspaceOrProvisioner now ident h st =
     (if poderWorkspace ident h \<noteq> [] then (poderWorkspace ident h, st)
      else let vmID = TrimSpace (ch_VMID h) in
        if vmID = [] then ([], st)
        else case VMTenant now vmID (cp_tenants st) of
          (None, tn) \<Rightarrow> ([], st\<lparr>cp_tenants := tn\<rparr>)
        | (Some tenant, tn) \<Rightarrow> (tenant, st\<lparr>cp_tenants := tn\<rparr>))"

text \<open>\<^verbatim>\<open>strconv.Atoi\<close> and \<^verbatim>\<open>ParseInt\<close> with the error dropped: 0 for what is no number, the nearest bound for a
  number out of range. A 0 gives the default.\<close>

definition number_value :: "string \<Rightarrow> int" where
  "number_value s =
     (let neg = HasPrefix s ''-'';
          ds = (if neg \<or> HasPrefix s ''+'' then drop 1 s else s);
          v = (if neg then - int (digits_val ds) else int (digits_val ds))
      in if ds = [] \<or> \<not> list_all is_digit ds then 0 else max (- (2 ^ 63)) (min (2 ^ 63 - 1) v))"

definition header_number :: "string \<Rightarrow> int \<Rightarrow> int" where
  "header_number s dflt = (if number_value s = 0 then dflt else number_value s)"

definition connect_request :: "string \<Rightarrow> connect_headers \<Rightarrow> register_request" where
  "connect_request workspace h =
     \<lparr>rr_ID = ch_PoderID h, rr_Name = ch_Name h, rr_URL = ''tunnel://'' @ ch_PoderID h, rr_Region = ch_Region h,
      rr_ProviderType = ch_ProviderType h, rr_VMID = ch_VMID h,
      rr_Resources = \<lparr>pr_CPUCores = header_number (ch_CPUCores h) 4,
        pr_MemoryBytes = header_number (ch_MemoryBytes h) (8 * 1024 * 1024 * 1024),
        pr_MaxContainers = header_number (ch_MaxContainers h) 10, pr_Arch = ch_Arch h, pr_OS = ch_OS h,
        pr_OSVersion = ch_OSVersion h, pr_KernelVersion = ch_KernelVersion h\<rparr>,
      rr_Capabilities = splitCapabilities (ch_Capabilities h), rr_Workspace = workspace\<rparr>"

datatype connect_result = ConnectRefused int | UpgradeFailed | TunnelFailed | Connected nat

text \<open>\<open>/ws/poder/connect\<close> up to the point where it waits for the tunnel to close. \<open>upgraded\<close> and \<open>tunnel\<close> are
  the outcomes of the WebSocket upgrade and of building the tunnel on it.\<close>

definition poderConnect ::
  "gotime \<Rightarrow> string \<Rightarrow> identity \<Rightarrow> connect_headers \<Rightarrow> bool \<Rightarrow> nat option \<Rightarrow> control \<Rightarrow> connect_result \<times> control" where
  "poderConnect now nodeURL ident h upgraded tunnel st =
     (if ch_PoderID h = [] then (ConnectRefused 400, st)
      else case Tombstones_Contains now (ch_PoderID h) (cp_poderTombstones st) of
        (True, ts) \<Rightarrow> (ConnectRefused 410, st\<lparr>cp_poderTombstones := ts\<rparr>)
      | (False, ts) \<Rightarrow>
          let st1 = st\<lparr>cp_poderTombstones := ts\<rparr>; claimed = TrimSpace (ch_Workspace h) in
          if IsWorker ident \<and> id_Tenant ident \<noteq> [] \<and> claimed \<noteq> [] \<and> claimed \<noteq> id_Tenant ident
          then (ConnectRefused 403, st1)
          else if \<not> upgraded then (UpgradeFailed, st1)
          else case poderWorkspaceOrProvisioner now ident h st1 of
            (ws, st2) \<Rightarrow>
              let st3 = st2\<lparr>cp_poders := snd (Register now (connect_request ws h) (cp_poders st2))\<rparr> in
              case tunnel of
                None \<Rightarrow> (TunnelFailed, st3)
              | Some t \<Rightarrow>
                  (Connected t,
                   emit (Emitted ''poder.registered'' (ch_PoderID h))
                     (st3\<lparr>cp_tunnels := Tunnel_Set (ch_PoderID h) t (cp_tunnels st3),
                          cp_owners := (if nodeURL \<noteq> [] then Claim (ch_PoderID h) nodeURL (cp_owners st3) else cp_owners st3)\<rparr>)))"

definition mark_error :: "string list \<Rightarrow> string \<Rightarrow> control \<Rightarrow> control" where
  "mark_error ord poderID st =
     fold (\<lambda>sb st1. if sb_State sb = StateRunning \<or> sb_State sb = StateStarting
                    then update_sandbox (sb_Name sb) (\<lambda>s. s\<lparr>sb_State := StateError\<rparr>) st1 else st1)
       (ListByPoderID ord poderID (cp_sandboxes st)) st"

text \<open>The deferred clean-up of \<^verbatim>\<open>/ws/poder/connect\<close> for the tunnel \<open>t\<close> it had built.\<close>

definition poderDisconnect :: "string \<Rightarrow> string list \<Rightarrow> string \<Rightarrow> nat \<Rightarrow> control \<Rightarrow> control" where
  "poderDisconnect nodeURL ord poderID t st =
     closeTunnel t
       (if Tunnel_Get poderID (cp_tunnels st) = Some t
        then mark_error ord poderID
          (st\<lparr>cp_tunnels := Tunnel_Remove poderID (cp_tunnels st),
              cp_owners := (if nodeURL \<noteq> [] then Release poderID nodeURL (cp_owners st) else cp_owners st),
              cp_poders := SetOffline poderID (cp_poders st)\<rparr>)
        else st)"

section \<open>Heartbeats\<close>

definition reconcile_one :: "string list \<Rightarrow> sandbox_info \<Rightarrow> control \<Rightarrow> control" where
  "reconcile_one alive sb st =
     (if sb_State sb = StateRunning \<or> sb_State sb = StateStarting then
        (if sb_Name sb \<notin> set alive then update_sandbox (sb_Name sb) (\<lambda>s. s\<lparr>sb_State := StateError\<rparr>) st else st)
      else if sb_State sb = StateError \<and> sb_Name sb \<in> set alive
      then update_sandbox (sb_Name sb) (\<lambda>s. s\<lparr>sb_State := StateRunning\<rparr>) st else st)"

definition reconcileByHeartbeat :: "string list \<Rightarrow> string \<Rightarrow> string list \<Rightarrow> control \<Rightarrow> control" where
  "reconcileByHeartbeat ord poderID containerNames st =
     fold (reconcile_one containerNames) (ListByPoderID ord poderID (cp_sandboxes st)) st"

text \<open>\<open>POST /api/v1/poders/{id}/heartbeat\<close> behind its gate: who may send one, and what it does. \<open>names\<close> is
  \<open>None\<close> when the body carries no list, \<open>body\<close> is \<open>None\<close> when it does not decode.\<close>

definition mayHeartbeat :: "identity \<Rightarrow> string \<Rightarrow> control \<Rightarrow> bool" where
  "mayHeartbeat ident poderID st \<longleftrightarrow>
     IsAdmin ident \<or>
     IsWorker ident \<and>
       (case Poder_Get poderID (cp_poders st) of
          None \<Rightarrow> False | Some p \<Rightarrow> po_Workspace p = [] \<or> po_Workspace p = id_Tenant ident)"

definition poderHeartbeat ::
  "gotime \<Rightarrow> string \<Rightarrow> string list \<Rightarrow> identity \<Rightarrow> string \<Rightarrow> (heartbeat_request \<times> string list option) option \<Rightarrow>
   control \<Rightarrow> int \<times> control" where
  "poderHeartbeat now nodeURL ord ident poderID body st =
     (if \<not> mayHeartbeat ident poderID st then (403, st)
      else case body of
        None \<Rightarrow> (400, st)
      | Some (req, names) \<Rightarrow>
          (case Heartbeat now poderID req (cp_poders st) of
             (False, _) \<Rightarrow> (404, st)
           | (True, ps) \<Rightarrow>
               let st1 = st\<lparr>cp_poders := ps\<rparr>;
                   st2 = (case names of None \<Rightarrow> st1 | Some l \<Rightarrow> reconcileByHeartbeat ord poderID l st1)
               in (200, if nodeURL \<noteq> [] \<and> Tunnel_Get poderID (cp_tunnels st2) \<noteq> None
                        then st2\<lparr>cp_owners := Claim poderID nodeURL (cp_owners st2)\<rparr> else st2)))"

section \<open>The liveness sweep\<close>

definition tunnelUp :: "string \<Rightarrow> control \<Rightarrow> bool" where
  "tunnelUp i st = (case Tunnel_Get i (cp_tunnels st) of None \<Rightarrow> False | Some t \<Rightarrow> \<not> cp_closed st t)"

definition sweep_one :: "duration \<Rightarrow> gotime \<Rightarrow> poder_info \<Rightarrow> control \<Rightarrow> control" where
  "sweep_one timeout now p st =
     (if tunnelUp (po_ID p) st then
        (if po_State p \<noteq> PoderOnline then st\<lparr>cp_poders := snd (SetOnline now (po_ID p) (cp_poders st))\<rparr> else st)
      else if po_State p = PoderOnline \<and> now - po_LastHeartbeat p > timeout
      then st\<lparr>cp_poders := SetOffline (po_ID p) (cp_poders st)\<rparr> else st)"

definition sweepBody :: "duration \<Rightarrow> gotime \<Rightarrow> string list \<Rightarrow> control \<Rightarrow> control" where
  "sweepBody timeout now ord st = fold (sweep_one timeout now) (Poder_List ord (cp_poders st)) st"

section \<open>Reclaiming workers\<close>

definition isCloudProvider :: "string \<Rightarrow> bool" where
  "isCloudProvider providerType \<longleftrightarrow>
     providerType \<in> set [''aws'', ''aliyun'', ''azure'', ''gcp'', ''tencent'', ''digitalocean'', ''hetzner'', ''oracle'']"

text \<open>\<open>terminate\<close> tells whether the provider deletes the VM.\<close>

definition reap_offline_one ::
  "gotime \<Rightarrow> duration \<Rightarrow> (string \<Rightarrow> string \<Rightarrow> bool) \<Rightarrow> poder_info \<Rightarrow> control \<Rightarrow> control" where
  "reap_offline_one now timeout terminate p st =
     (if po_State p \<noteq> PoderOffline \<or> now - po_LastHeartbeat p \<le> timeout then st
      else let cloud = isCloudProvider (po_ProviderType p) \<and> po_VMID p \<noteq> [];
               ok = (\<not> cloud \<or> terminate (po_ProviderType p) (po_VMID p));
               st1 = (if cloud then emit (VMTermination (po_ProviderType p) (po_VMID p) ok) st else st)
           in if \<not> ok then st1
              else st1\<lparr>cp_poderTombstones := Tombstones_Add now (po_ID p) (cp_poderTombstones st1),
                       cp_poders := snd (Poder_Delete (po_ID p) (cp_poders st1))\<rparr>)"

definition reapOfflinePodersOnce ::
  "gotime \<Rightarrow> duration \<Rightarrow> (string \<Rightarrow> string \<Rightarrow> bool) \<Rightarrow> string list \<Rightarrow> control \<Rightarrow> control" where
  "reapOfflinePodersOnce now timeout terminate ord st =
     fold (reap_offline_one now timeout terminate) (Poder_List ord (cp_poders st)) st"

type_synonym empty_since = "string \<Rightarrow> gotime option"

definition reap_empty_one ::
  "gotime \<Rightarrow> duration \<Rightarrow> string list \<Rightarrow> (string \<Rightarrow> string \<Rightarrow> bool) \<Rightarrow> poder_info \<Rightarrow> empty_since \<times> control \<Rightarrow> empty_since \<times> control" where
  "reap_empty_one now ttl sord terminate p s =
     (case s of (es, st) \<Rightarrow>
        if po_State p \<noteq> PoderOnline \<or> \<not> isCloudProvider (po_ProviderType p) \<or> po_VMID p = []
        then (es(po_ID p := None), st)
        else if length (ListByPoderID sord (po_ID p) (cp_sandboxes st)) > 0 then (es(po_ID p := None), st)
        else case es (po_ID p) of
          None \<Rightarrow> (es(po_ID p \<mapsto> now), st)
        | Some since \<Rightarrow>
            if now - since \<le> ttl then (es, st)
            else if \<not> terminate (po_ProviderType p) (po_VMID p)
            then (es, emit (VMTermination (po_ProviderType p) (po_VMID p) False) st)
            else
              let st1 = emit (VMTermination (po_ProviderType p) (po_VMID p) True) st;
                  st2 = st1\<lparr>cp_poderTombstones := Tombstones_Add now (po_ID p) (cp_poderTombstones st1)\<rparr>;
                  st3 = (case Tunnel_Get (po_ID p) (cp_tunnels st2) of None \<Rightarrow> st2 | Some t \<Rightarrow> closeTunnel t st2)
              in case Poder_Delete (po_ID p) (cp_poders st3) of
                   (False, _) \<Rightarrow> (es, st3)
                 | (True, ps) \<Rightarrow>
                     (es(po_ID p := None), emit (Emitted ''poder.reclaimed'' (po_ID p)) (st3\<lparr>cp_poders := ps\<rparr>)))"

definition reapEmptyPodersOnce ::
  "gotime \<Rightarrow> duration \<Rightarrow> string list \<Rightarrow> string list \<Rightarrow> (string \<Rightarrow> string \<Rightarrow> bool) \<Rightarrow> empty_since \<times> control \<Rightarrow> empty_since \<times> control" where
  "reapEmptyPodersOnce now ttl ord sord terminate s =
     (let live = Poder_List ord (cp_poders (snd s));
          s1 = fold (reap_empty_one now ttl sord terminate) live s
      in ((\<lambda>i. if i \<in> po_ID ` set live then fst s1 i else None), snd s1))"

section \<open>The idle reaper of sandboxes\<close>

text \<open>A \<^verbatim>\<open>time.Duration\<close> is a 64-bit integer, so the conversion from seconds wraps around.\<close>

definition wrap64 :: "int \<Rightarrow> int" where
  "wrap64 x = (x + 2 ^ 63) mod 2 ^ 64 - 2 ^ 63"

definition effectiveSandboxTTL :: "sandbox_info \<Rightarrow> duration \<Rightarrow> duration" where
  "effectiveSandboxTTL sb ttl = (if sb_TTLSeconds sb > 0 then wrap64 (sb_TTLSeconds sb * second) else ttl)"

definition shouldReapSandbox :: "sandbox_info \<Rightarrow> gotime \<Rightarrow> duration \<Rightarrow> bool" where
  "shouldReapSandbox sb now ttl =
     (if HasPrefix (sb_ProxyURL sb) ''direct://'' then False
      else if sb_State sb \<notin> {StateRunning, StateStopped, StateError} then False
      else let effective = effectiveSandboxTTL sb ttl in
        if effective \<le> 0 then False
        else let last = (if sb_LastActivity sb = 0 then sb_CreatedAt sb else sb_LastActivity sb)
             in last \<noteq> 0 \<and> now - last > effective)"

definition teardownSandbox :: "sandbox_info \<Rightarrow> control \<Rightarrow> control" where
  "teardownSandbox sb st =
     (let st1 = update_usage (sb_PoderID sb) one_container_less (delete_sandbox (sb_Name sb) st)
      in case Tunnel_Get (sb_PoderID sb) (cp_tunnels st1) of
           None \<Rightarrow> st1
         | Some t \<Rightarrow> emit (WorkerRequest t ''DELETE'' (''http://poder/sandboxes/'' @ sb_Name sb)) st1)"

definition reap_idle_one :: "gotime \<Rightarrow> duration \<Rightarrow> sandbox_info \<Rightarrow> control \<Rightarrow> control" where
  "reap_idle_one now ttl sb st =
     (if \<not> shouldReapSandbox sb now ttl then st
      else teardownSandbox sb (emit (Emitted ''sandbox.reaped'' (sb_Name sb)) st))"

text \<open>One tick of \<^verbatim>\<open>reapIdleSandboxes\<close>.\<close>

definition reapIdleSandboxesOnce :: "gotime \<Rightarrow> duration \<Rightarrow> string list \<Rightarrow> control \<Rightarrow> control" where
  "reapIdleSandboxesOnce now ttl ord st = fold (reap_idle_one now ttl) (Sandbox_List ord (cp_sandboxes st)) st"

section \<open>The administrator's delete\<close>

definition delete_on_worker :: "nat option \<Rightarrow> sandbox_info \<Rightarrow> control \<Rightarrow> control" where
  "delete_on_worker t sb st =
     delete_sandbox (sb_Name sb)
       (case t of None \<Rightarrow> st | Some h \<Rightarrow> emit (WorkerRequest h ''DELETE'' (''http://poder/sandboxes/'' @ sb_Name sb)) st)"

definition deletePoder ::
  "gotime \<Rightarrow> string list \<Rightarrow> (string \<Rightarrow> string \<Rightarrow> bool) \<Rightarrow> bool \<Rightarrow> string \<Rightarrow> control \<Rightarrow> (int \<times> bool) \<times> control" where
  "deletePoder now sord terminate keepVM pID st =
     (case Poder_Get pID (cp_poders st) of
        None \<Rightarrow> ((404, False), st)
      | Some p \<Rightarrow>
          let t = Tunnel_Get pID (cp_tunnels st);
              st1 = fold (delete_on_worker t) (ListByPoderID sord pID (cp_sandboxes st)) st;
              st2 = (if keepVM then st1 else st1\<lparr>cp_poderTombstones := Tombstones_Add now pID (cp_poderTombstones st1)\<rparr>);
              st3 = (case t of None \<Rightarrow> st2 | Some h \<Rightarrow> closeTunnel h st2)
          in case Poder_Delete pID (cp_poders st3) of
               (False, _) \<Rightarrow> ((500, False), st3)
             | (True, ps) \<Rightarrow>
                 let st4 = st3\<lparr>cp_poders := ps\<rparr>;
                     try = (isCloudProvider (po_ProviderType p) \<and> po_VMID p \<noteq> [] \<and> \<not> keepVM);
                     gone = (try \<and> terminate (po_ProviderType p) (po_VMID p));
                     st5 = (if try then emit (VMTermination (po_ProviderType p) (po_VMID p) gone) st4 else st4)
                 in ((200, gone), emit (Emitted ''poder.deleted'' pID) st5))"


section \<open>What the loops do\<close>

lemma ListByPoderID_filter: "ListByPoderID ord i s = filter (\<lambda>sb. sb_PoderID sb = i) (visit ord s)"
  by (simp add: ListByPoderID_def)

definition errored :: "sandbox_info \<Rightarrow> sandbox_info" where
  "errored sb = (if sb_State sb = StateRunning \<or> sb_State sb = StateStarting then sb\<lparr>sb_State := StateError\<rparr> else sb)"

lemma errored_simps [simp]: "sb_Name (errored sb) = sb_Name sb" "sb_PoderID (errored sb) = sb_PoderID sb"
  by (simp_all add: errored_def)

lemma mark_error_get:
  assumes "iteration_order ord (cp_sandboxes st)" and "sandboxes_wf (cp_sandboxes st)"
  shows "cp_sandboxes (mark_error ord i st) n =
     map_option (\<lambda>sb. if sb_PoderID sb = i then errored sb else sb) (cp_sandboxes st n)"
proof -
  let ?h = "\<lambda>sb. if sb_State sb = StateRunning \<or> sb_State sb = StateStarting
                 then map_option (\<lambda>s. s\<lparr>sb_State := StateError\<rparr>) else id"
  have "cp_sandboxes (mark_error ord i st) n =
      (if n \<in> set ord
       then (case cp_sandboxes st n of
               Some sb \<Rightarrow> if sb_PoderID sb = i then ?h sb (cp_sandboxes st n) else cp_sandboxes st n
             | None \<Rightarrow> cp_sandboxes st n)
       else cp_sandboxes st n)"
    unfolding mark_error_def ListByPoderID_filter
    by (rule fold_map_loop [where key = sb_Name])
      (use assms in \<open>auto simp: sandboxes_wf_def iteration_order_def fun_eq_iff\<close>)
  then show ?thesis
    using assms(1) by (auto simp: iteration_order_def errored_def split: option.splits)
qed

lemma mark_error_frame [simp]:
  "cp_poders (mark_error ord i st) = cp_poders st" "cp_tunnels (mark_error ord i st) = cp_tunnels st"
  "cp_owners (mark_error ord i st) = cp_owners st" "cp_jobs (mark_error ord i st) = cp_jobs st"
  "cp_closed (mark_error ord i st) = cp_closed st"
  by (auto simp: mark_error_def intro!: fold_keeps)

definition reconciled :: "string list \<Rightarrow> sandbox_info \<Rightarrow> sandbox_info" where
  "reconciled alive sb =
     (if sb_Name sb \<notin> set alive then errored sb
      else if sb_State sb = StateError then sb\<lparr>sb_State := StateRunning\<rparr> else sb)"

lemma reconcile_get:
  assumes "iteration_order ord (cp_sandboxes st)" and "sandboxes_wf (cp_sandboxes st)"
  shows "cp_sandboxes (reconcileByHeartbeat ord i alive st) n =
     map_option (\<lambda>sb. if sb_PoderID sb = i then reconciled alive sb else sb) (cp_sandboxes st n)"
proof -
  let ?h = "\<lambda>sb. if sb_State sb = StateRunning \<or> sb_State sb = StateStarting
       then (if sb_Name sb \<notin> set alive then map_option (\<lambda>s. s\<lparr>sb_State := StateError\<rparr>) else id)
       else if sb_State sb = StateError \<and> sb_Name sb \<in> set alive then map_option (\<lambda>s. s\<lparr>sb_State := StateRunning\<rparr>) else id"
  have "cp_sandboxes (reconcileByHeartbeat ord i alive st) n =
      (if n \<in> set ord
       then (case cp_sandboxes st n of
               Some sb \<Rightarrow> if sb_PoderID sb = i then ?h sb (cp_sandboxes st n) else cp_sandboxes st n
             | None \<Rightarrow> cp_sandboxes st n)
       else cp_sandboxes st n)"
    unfolding reconcileByHeartbeat_def ListByPoderID_filter
    by (rule fold_map_loop [where key = sb_Name])
      (use assms in \<open>auto simp: sandboxes_wf_def iteration_order_def fun_eq_iff reconcile_one_def\<close>)
  then show ?thesis
    using assms(1) by (auto simp: iteration_order_def reconciled_def errored_def split: option.splits)
qed

lemma reconcile_frame [simp]:
  "cp_poders (reconcileByHeartbeat ord i a st) = cp_poders st" "cp_tunnels (reconcileByHeartbeat ord i a st) = cp_tunnels st"
  "cp_owners (reconcileByHeartbeat ord i a st) = cp_owners st" "cp_jobs (reconcileByHeartbeat ord i a st) = cp_jobs st"
  by (auto simp: reconcileByHeartbeat_def reconcile_one_def intro!: fold_keeps)

lemma reconciled_idem: "reconciled alive (reconciled alive sb) = reconciled alive sb"
  by (auto simp: reconciled_def errored_def)

section \<open>Properties of connections and heartbeats\<close>

text \<open>A heartbeat makes the records agree with the worker: afterwards exactly the sandboxes of that worker
  that it does not list are out of the states running and starting, those it lists are out of the
  error state, every other field and every other worker's sandbox is as before, and a second
  heartbeat with the same list changes no sandbox.\<close>

theorem heartbeat_reconciles:
  assumes "iteration_order ord (cp_sandboxes st)" and "sandboxes_wf (cp_sandboxes st)"
    and "poderHeartbeat now nodeURL ord ident i (Some (req, Some alive)) st = (200, st')"
  shows "cp_sandboxes st' n = map_option (\<lambda>sb. if sb_PoderID sb = i then reconciled alive sb else sb) (cp_sandboxes st n)
     \<and> (\<forall>sb. cp_sandboxes st' n = Some sb \<and> sb_PoderID sb = i \<longrightarrow>
           (n \<in> set alive \<longrightarrow> sb_State sb \<noteq> StateError) \<and>
           (n \<notin> set alive \<longrightarrow> sb_State sb \<noteq> StateRunning \<and> sb_State sb \<noteq> StateStarting))
     \<and> (\<forall>ord' now' st''. iteration_order ord' (cp_sandboxes st') \<and>
           poderHeartbeat now' nodeURL ord' ident i (Some (req, Some alive)) st' = (200, st'')
           \<longrightarrow> cp_sandboxes st'' = cp_sandboxes st')"
proof -
  define g where "g = (\<lambda>sb. if sb_PoderID sb = i then reconciled alive sb else sb)"
  have run: "cp_sandboxes st'' m = map_option g (cp_sandboxes s m)"
    if "iteration_order o' (cp_sandboxes s)" "sandboxes_wf (cp_sandboxes s)"
      "poderHeartbeat t nodeURL o' ident i (Some (req, Some alive)) s = (200, st'')" for o' s t st'' m
    using that(3) reconcile_get [of o' "s\<lparr>cp_poders := snd (Heartbeat t i req (cp_poders s))\<rparr>" i alive m] that(1,2)
    by (auto simp: poderHeartbeat_def g_def Let_def split: if_splits prod.splits bool.splits)
  have st': "cp_sandboxes st' m = map_option g (cp_sandboxes st m)" for m
    using run [OF assms] .
  have g_props: "sb_Name (g sb) = sb_Name sb" "sb_PoderID (g sb) = sb_PoderID sb" "g (g sb) = g sb" for sb
    by (auto simp: g_def reconciled_def errored_def)
  have wf': "sandboxes_wf (cp_sandboxes st')"
    using assms(2) by (auto simp: sandboxes_wf_def st' g_props)
  have again: "cp_sandboxes st'' = cp_sandboxes st'"
    if "iteration_order ord' (cp_sandboxes st')" "poderHeartbeat now' nodeURL ord' ident i (Some (req, Some alive)) st' = (200, st'')"
    for ord' now' st''
    using run [OF that(1) wf' that(2)] by (auto simp: st' g_props option.map_comp comp_def)
  have "(n \<in> set alive \<longrightarrow> sb_State sb \<noteq> StateError) \<and> (n \<notin> set alive \<longrightarrow> sb_State sb \<noteq> StateRunning \<and> sb_State sb \<noteq> StateStarting)"
    if "cp_sandboxes st' n = Some sb" "sb_PoderID sb = i" for sb
  proof -
    from that(1) obtain sb0 where sb0: "cp_sandboxes st n = Some sb0" "sb = g sb0" by (auto simp: st')
    with assms(2) that(2) have "sb_Name sb0 = n" "sb = reconciled alive sb0"
      by (auto simp: sandboxes_wf_def g_def reconciled_def errored_def split: if_splits)
    then show ?thesis by (auto simp: reconciled_def errored_def)
  qed
  with st' [of n] again show ?thesis unfolding g_def by blast
qed


definition demo_poder_record :: "string \<Rightarrow> poder_info" where
  "demo_poder_record i =
     \<lparr>po_ID = i, po_Name = i, po_URL = ''tunnel://'' @ i, po_Region = ''eu'', po_ProviderType = ''aws'', po_VMID = ''vm1'',
      po_State = PoderOnline,
      po_Resources = \<lparr>pr_CPUCores = 4, pr_MemoryBytes = 0, pr_MaxContainers = 10, pr_Arch = [], pr_OS = [], pr_OSVersion = [],
        pr_KernelVersion = []\<rparr>,
      po_Capabilities = [], po_Workspace = [], po_Usage = \<lparr>pu_Containers = 1, pu_CPUUsage = 0, pu_MemoryUsage = 0\<rparr>,
      po_LastHeartbeat = 0, po_CreatedAt = 0\<rparr>"

definition demo_control :: control where
  "demo_control =
     \<lparr>cp_poders = [''p1'' \<mapsto> demo_poder_record ''p1''],
      cp_sandboxes = [''box'' \<mapsto> (demo_sandbox ''box'' ''p1'')\<lparr>sb_State := StateRunning\<rparr>],
      cp_jobs = NewJobStore, cp_tunnels = [''p1'' \<mapsto> 7], cp_direct = NewTunnelStore, cp_closed = (\<lambda>_. False),
      cp_owners = (\<lambda>_. None), cp_poderTombstones = NewTombstones (10 * minute),
      cp_sandboxTombstones = NewTombstones (5 * minute), cp_activity = (\<lambda>_. None),
      cp_tenants = demo_state, cp_effects = []\<rparr>"

lemma demo_control_wf:
  "iteration_order [''box''] (cp_sandboxes demo_control)" "sandboxes_wf (cp_sandboxes demo_control)"
  "iteration_order [''p1''] (cp_poders demo_control)" "poders_wf (cp_poders demo_control)"
  by (auto simp: demo_control_def iteration_order_def sandboxes_wf_def poders_wf_def demo_sandbox_def demo_poder_record_def
      split: if_splits)


definition demo_beat :: heartbeat_request where
  "demo_beat = \<lparr>hb_Containers = 0, hb_CPUUsage = 0, hb_MemoryUsage = 0, hb_ContainerNames = []\<rparr>"

abbreviation admin_identity :: identity where "admin_identity \<equiv> the_identity ''admin'' RoleAdmin"

theorem heartbeat_reconciles_witness:
  "map_option sb_State (cp_sandboxes (snd (poderHeartbeat 5 [] [''box''] admin_identity ''p1'' (Some (demo_beat, Some [])) demo_control)) ''box'')
   = Some StateError"
proof -
  let ?run = "poderHeartbeat 5 [] [''box''] admin_identity ''p1'' (Some (demo_beat, Some [])) demo_control"
  have "fst ?run = 200" by code_simp
  then have "?run = (200, snd ?run)" by (metis prod.collapse)
  from heartbeat_reconciles [OF demo_control_wf(1,2) this, of "''box''"]
  show ?thesis by (simp add: demo_control_def demo_sandbox_def reconciled_def errored_def)
qed

lemma poderConnect_Connected:
  assumes "poderConnect now nodeURL ident h up tn st = (Connected t, st')"
  shows "cp_tunnels st' (ch_PoderID h) = Some t"
    and "map_option po_State (cp_poders st' (ch_PoderID h)) = Some PoderOnline"
proof -
  from assms show "cp_tunnels st' (ch_PoderID h) = Some t"
    by (auto simp: poderConnect_def Let_def Tunnel_Set_def split: if_splits prod.splits bool.splits option.splits)
  from assms show "map_option po_State (cp_poders st' (ch_PoderID h)) = Some PoderOnline"
    by (auto simp: poderConnect_def Let_def Register_def connect_request_def
        split: if_splits prod.splits bool.splits option.splits)
qed

lemma poderConnect_sandboxes:
  "poderConnect now nodeURL ident h up tn st = (r, st') \<Longrightarrow> cp_sandboxes st' = cp_sandboxes st"
  by (auto simp: poderConnect_def poderWorkspaceOrProvisioner_def Let_def split: if_splits prod.splits bool.splits option.splits)

text \<open>Claim C37. An outage heals: when a worker's tunnel breaks, its running sandboxes are marked as failed and the
  worker is offline; when it connects again under its id it is online and reachable through the new tunnel while the
  sandboxes stay failed; and when its next heartbeat lists a container that survived, the record of that sandbox is
  what it was before the outage, the worker is online and its tunnel in place.\<close>

theorem outage_heals:
  assumes "iteration_order ord (cp_sandboxes st)" and "sandboxes_wf (cp_sandboxes st)"
    and "Tunnel_Get i (cp_tunnels st) = Some t" and "cp_poders st i = Some p"
    and "cp_sandboxes st n = Some sb" and "sb_PoderID sb = i" and "sb_State sb = StateRunning" and "n \<in> set alive"
    and "poderDisconnect nodeURL ord i t st = down"
    and "poderConnect now nodeURL worker h up tn down = (Connected t', back)" and "ch_PoderID h = i"
    and "poderHeartbeat now' nodeURL ord ident i (Some (req, Some alive)) back = (200, st')"
  shows "map_option sb_State (cp_sandboxes down n) = Some StateError \<and>
    map_option po_State (cp_poders down i) = Some PoderOffline \<and> Tunnel_Get i (cp_tunnels down) = None \<and>
    map_option sb_State (cp_sandboxes back n) = Some StateError \<and>
    map_option po_State (cp_poders back i) = Some PoderOnline \<and> Tunnel_Get i (cp_tunnels back) = Some t' \<and>
    cp_sandboxes st' n = Some sb \<and> map_option po_State (cp_poders st' i) = Some PoderOnline \<and> Tunnel_Get i (cp_tunnels st') = Some t'"
proof -
  have sbs: "cp_sandboxes down m = map_option (\<lambda>sb. if sb_PoderID sb = i then errored sb else sb) (cp_sandboxes st m)" for m
    using assms(1-3,9) by (auto simp: poderDisconnect_def mark_error_get)
  have off: "cp_poders down = SetOffline i (cp_poders st)" "Tunnel_Get i (cp_tunnels down) = None"
    using assms(3,9) by (auto simp: poderDisconnect_def Tunnel_Get_def Tunnel_Remove_def)
  have same: "cp_sandboxes back = cp_sandboxes down" using poderConnect_sandboxes [OF assms(10)] .
  have on: "map_option po_State (cp_poders back i) = Some PoderOnline" "Tunnel_Get i (cp_tunnels back) = Some t'"
    using poderConnect_Connected [OF assms(10)] assms(11) by (simp_all add: Tunnel_Get_def)
  have dom: "iteration_order ord (cp_sandboxes back)"
    using assms(1) by (auto simp: iteration_order_def dom_def same sbs)
  have wf: "sandboxes_wf (cp_sandboxes back)" using assms(2) unfolding sandboxes_wf_def same sbs by (auto split: if_splits)
  have run: "cp_sandboxes st' = cp_sandboxes (reconcileByHeartbeat ord i alive (back\<lparr>cp_poders := snd (Heartbeat now' i req (cp_poders back))\<rparr>))"
    and pod': "cp_poders st' = snd (Heartbeat now' i req (cp_poders back))" and tun: "cp_tunnels st' = cp_tunnels back"
    using assms(12) by (auto simp: poderHeartbeat_def Let_def split: if_splits prod.splits bool.splits)
  have "cp_sandboxes st' n = map_option (\<lambda>sb. if sb_PoderID sb = i then reconciled alive sb else sb) (cp_sandboxes back n)"
    unfolding run by (subst reconcile_get) (use dom wf in simp_all)
  moreover have "sb_Name sb = n" using assms(2,5) by (simp add: sandboxes_wf_def)
  moreover have "map_option po_State (cp_poders st' i) = Some PoderOnline"
    using on(1) unfolding pod' by (cases "cp_poders back i") (auto simp: Heartbeat_def)
  ultimately show ?thesis
    using assms(4-8) on off tun by (simp add: same sbs errored_def reconciled_def SetOffline_def)
qed

definition demo_headers :: connect_headers where
  "demo_headers = \<lparr>ch_PoderID = ''p1'', ch_Name = ''p1'', ch_Region = ''eu'', ch_ProviderType = ''aws'', ch_VMID = ''vm1'',
     ch_Workspace = [], ch_Capabilities = ''egress, gpu'', ch_CPUCores = ''8'', ch_MemoryBytes = [], ch_MaxContainers = ''x'',
     ch_Arch = [], ch_OS = [], ch_OSVersion = [], ch_KernelVersion = []\<rparr>"

theorem outage_heals_witness:
  "\<exists>st'. poderHeartbeat 6 [] [''box''] admin_identity ''p1'' (Some (demo_beat, Some [''box'']))
     (snd (poderConnect 5 [] admin_identity demo_headers True (Some 8) (poderDisconnect [] [''box''] ''p1'' 7 demo_control))) = (200, st') \<and>
   cp_sandboxes st' ''box'' = Some ((demo_sandbox ''box'' ''p1'')\<lparr>sb_State := StateRunning\<rparr>) \<and> Tunnel_Get ''p1'' (cp_tunnels st') = Some 8"
proof -
  let ?down = "poderDisconnect [] [''box''] ''p1'' 7 demo_control"
  let ?conn = "poderConnect 5 [] admin_identity demo_headers True (Some 8) ?down"
  let ?run = "poderHeartbeat 6 [] [''box''] admin_identity ''p1'' (Some (demo_beat, Some [''box''])) (snd ?conn)"
  have "fst ?conn = Connected 8" by code_simp
  then have conn: "?conn = (Connected 8, snd ?conn)" by (metis prod.collapse)
  have "fst ?run = 200" by code_simp
  then have run: "?run = (200, snd ?run)" by (metis prod.collapse)
  have f: "Tunnel_Get ''p1'' (cp_tunnels demo_control) = Some 7" "cp_poders demo_control ''p1'' = Some (demo_poder_record ''p1'')"
    "cp_sandboxes demo_control ''box'' = Some ((demo_sandbox ''box'' ''p1'')\<lparr>sb_State := StateRunning\<rparr>)"
    "sb_PoderID ((demo_sandbox ''box'' ''p1'')\<lparr>sb_State := StateRunning\<rparr>) = ''p1''"
    "sb_State ((demo_sandbox ''box'' ''p1'')\<lparr>sb_State := StateRunning\<rparr>) = StateRunning" "''box'' \<in> set [''box'']"
    "ch_PoderID demo_headers = ''p1''"
    by (simp_all add: demo_control_def Tunnel_Get_def demo_sandbox_def demo_headers_def)
  show ?thesis using outage_heals [OF demo_control_wf(1,2) f(1-6) refl conn f(7) run] run by metis
qed

text \<open>A stale disconnect is harmless: when a worker has reconnected before its former connection is
  noticed to be dead, the clean-up of the former one only closes it; the worker stays online and
  reachable through the new tunnel, and no sandbox changes.\<close>

theorem stale_disconnect_is_harmless:
  assumes "poderConnect now nodeURL ident h up (Some t2) st = (Connected t2, st2)" and "t1 \<noteq> t2"
  shows "let st3 = poderDisconnect nodeURL' ord (ch_PoderID h) t1 st2 in
     cp_tunnels st3 (ch_PoderID h) = Some t2 \<and> cp_closed st3 t2 = cp_closed st2 t2 \<and>
     map_option po_State (cp_poders st3 (ch_PoderID h)) = Some PoderOnline \<and>
     cp_sandboxes st3 = cp_sandboxes st2 \<and> cp_owners st3 = cp_owners st2"
  using poderConnect_Connected [OF assms(1)] assms(2)
  by (auto simp: poderDisconnect_def Tunnel_Get_def Let_def)

theorem stale_disconnect_is_harmless_witness:
  "cp_tunnels (poderDisconnect [] [''box''] ''p1'' 7
      (snd (poderConnect 5 [] admin_identity demo_headers True (Some 8) demo_control))) ''p1'' = Some 8"
proof -
  let ?run = "poderConnect 5 [] admin_identity demo_headers True (Some 8) demo_control"
  have "fst ?run = Connected 8" by code_simp
  then have run: "?run = (Connected 8, snd ?run)" by (metis prod.collapse)
  have "ch_PoderID demo_headers = ''p1''" by (simp add: demo_headers_def)
  with stale_disconnect_is_harmless [OF run, of 7 "[]" "[''box'']"] show ?thesis by (simp add: Let_def)
qed

end
