(* ===== verification/Server_Reclaim.thy ===== *)
theory Server_Reclaim
  imports Server_Fleet
begin

text \<open>
  The properties of the passes that give resources back (\<^verbatim>\<open>reclaim.go\<close> and the offline pass of \<^verbatim>\<open>main.go\<close>),
  whose definitions are in \<open>Server_Fleet\<close>. Each pass is described entry by entry through the loop lemmas of
  \<open>Server_State\<close>; the statements over time are about sequences of passes between which anything may
  happen to the rest of the control plane.
\<close>

section \<open>The pass over workers without sandboxes\<close>

definition reclaimable :: "poder_info \<Rightarrow> bool" where
  "reclaimable p \<longleftrightarrow> po_State p = PoderOnline \<and> isCloudProvider (po_ProviderType p) \<and> po_VMID p \<noteq> []"

definition unused :: "string \<Rightarrow> sandbox_store \<Rightarrow> bool" where
  "unused i sbs \<longleftrightarrow> (\<forall>n sb. sbs n = Some sb \<longrightarrow> sb_PoderID sb \<noteq> i)"

definition vacant :: "string \<Rightarrow> control \<Rightarrow> bool" where
  "vacant i st \<longleftrightarrow> (\<exists>p. cp_poders st i = Some p \<and> reclaimable p) \<and> unused i (cp_sandboxes st)"

lemma ListByPoderID_unused:
  "iteration_order ord sbs \<Longrightarrow> (length (ListByPoderID ord i sbs) > 0) = (\<not> unused i sbs)"
  using visit_set [of ord sbs]
  by (auto simp: ListByPoderID_def unused_def filter_empty_conv ran_def)

text \<open>What the body does to the two entries of its worker.\<close>

definition vacancy_entry ::
  "gotime \<Rightarrow> duration \<Rightarrow> (string \<Rightarrow> string \<Rightarrow> bool) \<Rightarrow> sandbox_store \<Rightarrow> poder_info \<Rightarrow>
   gotime option \<times> poder_info option \<Rightarrow> gotime option \<times> poder_info option" where
  "vacancy_entry now ttl terminate sbs p x =
     (if \<not> reclaimable p \<or> \<not> unused (po_ID p) sbs then (None, snd x)
      else case fst x of
        None \<Rightarrow> (Some now, snd x)
      | Some since \<Rightarrow>
          if now - since \<le> ttl \<or> \<not> terminate (po_ProviderType p) (po_VMID p) \<or> snd x = None then x else (None, None))"

definition vacancy_effects ::
  "gotime \<Rightarrow> duration \<Rightarrow> (string \<Rightarrow> string \<Rightarrow> bool) \<Rightarrow> sandbox_store \<Rightarrow> (string \<Rightarrow> nat option) \<Rightarrow> poder_info \<Rightarrow>
   gotime option \<times> poder_info option \<Rightarrow> effect list" where
  "vacancy_effects now ttl terminate sbs tns p x =
     (case fst x of
        None \<Rightarrow> []
      | Some since \<Rightarrow>
          if \<not> reclaimable p \<or> \<not> unused (po_ID p) sbs \<or> now - since \<le> ttl then []
          else if \<not> terminate (po_ProviderType p) (po_VMID p) then [VMTermination (po_ProviderType p) (po_VMID p) False]
          else [VMTermination (po_ProviderType p) (po_VMID p) True]
            @ (case tns (po_ID p) of None \<Rightarrow> [] | Some t \<Rightarrow> [TunnelClosed t])
            @ (case snd x of None \<Rightarrow> [] | Some _ \<Rightarrow> [Emitted ''poder.reclaimed'' (po_ID p)]))"

abbreviation both_entries :: "empty_since \<times> control \<Rightarrow> string \<Rightarrow> gotime option \<times> poder_info option" where
  "both_entries s \<equiv> (\<lambda>k. (fst s k, cp_poders (snd s) k))"

abbreviation surroundings :: "sandbox_store \<Rightarrow> (string \<Rightarrow> nat option) \<Rightarrow> empty_since \<times> control \<Rightarrow> bool" where
  "surroundings sbs tns s \<equiv> cp_sandboxes (snd s) = sbs \<and> cp_tunnels (snd s) = tns"

lemmas reap_empty_unfold = reap_empty_one_def Let_def Tunnel_Get_def Poder_Delete_def

lemma reap_empty_surroundings:
  "surroundings sbs tns s \<Longrightarrow> surroundings sbs tns (reap_empty_one now ttl sord terminate p s)"
  by (cases s) (auto simp: reap_empty_unfold split: option.splits)

lemma reap_empty_entry:
  assumes "iteration_order sord sbs" and "surroundings sbs tns s"
  shows "both_entries (reap_empty_one now ttl sord terminate p s) =
     (both_entries s)(po_ID p := vacancy_entry now ttl terminate sbs p (both_entries s (po_ID p)))"
  using assms ListByPoderID_unused [OF assms(1), of "po_ID p"]
  by (cases s, intro ext) (auto simp: reap_empty_unfold vacancy_entry_def reclaimable_def split: option.splits)

lemma reap_empty_effects:
  assumes "iteration_order sord sbs" and "surroundings sbs tns s"
  shows "cp_effects (snd (reap_empty_one now ttl sord terminate p s)) =
     cp_effects (snd s) @ vacancy_effects now ttl terminate sbs tns p (both_entries s (po_ID p))"
  using assms ListByPoderID_unused [OF assms(1), of "po_ID p"]
  by (cases s) (auto simp: reap_empty_unfold vacancy_effects_def reclaimable_def split: option.splits)

text \<open>A pass, entry by entry.\<close>

definition reclaims :: "gotime \<Rightarrow> duration \<Rightarrow> (string \<Rightarrow> string \<Rightarrow> bool) \<Rightarrow> empty_since \<Rightarrow> string \<Rightarrow> control \<Rightarrow> bool" where
  "reclaims now ttl terminate es i st \<longleftrightarrow>
     vacant i st \<and> (\<exists>since. es i = Some since \<and> ttl < now - since) \<and>
     (\<exists>p. cp_poders st i = Some p \<and> terminate (po_ProviderType p) (po_VMID p))"

lemma reapEmpty_entries:
  assumes "iteration_order ord (cp_poders st)" and "poders_wf (cp_poders st)" and "iteration_order sord (cp_sandboxes st)"
  shows "fst (reapEmptyPodersOnce now ttl ord sord terminate (es, st)) i =
       (if reclaims now ttl terminate es i st \<or> \<not> vacant i st then None
        else case es i of None \<Rightarrow> Some now | Some since \<Rightarrow> Some since)"
    and "cp_poders (snd (reapEmptyPodersOnce now ttl ord sord terminate (es, st))) i =
       (if reclaims now ttl terminate es i st then None else cp_poders st i)"
proof -
  let ?run = "fold (reap_empty_one now ttl sord terminate) (Poder_List ord (cp_poders st)) (es, st)"
  have loop: "both_entries ?run i =
      (case cp_poders st i of
         Some p \<Rightarrow> vacancy_entry now ttl terminate (cp_sandboxes st) p (both_entries (es, st) i)
       | None \<Rightarrow> both_entries (es, st) i)"
    unfolding Poder_List_def
    by (rule fold_visit_loop_inv [where I = "surroundings (cp_sandboxes st) (cp_tunnels st)" and get = both_entries
          and body = "reap_empty_one now ttl sord terminate" and key = po_ID
          and h = "vacancy_entry now ttl terminate (cp_sandboxes st)", OF reap_empty_entry [OF assms(3)] reap_empty_surroundings])
      (use assms(1,2) in \<open>simp_all add: poders_wf_def\<close>)
  have live: "i \<in> po_ID ` set (Poder_List ord (cp_poders st)) \<longleftrightarrow> cp_poders st i \<noteq> None"
    using assms(1,2) by (force simp: Poder_List_def visit_set ran_def poders_wf_def)
  have at_i: "po_ID p = i" if "cp_poders st i = Some p" for p using that assms(2) by (simp add: poders_wf_def)
  note facts = reclaims_def vacant_def vacancy_entry_def
  show "cp_poders (snd (reapEmptyPodersOnce now ttl ord sord terminate (es, st))) i =
      (if reclaims now ttl terminate es i st then None else cp_poders st i)"
    using loop at_i assms(1)
    by (auto simp: reapEmptyPodersOnce_def Let_def facts iteration_order_def split: option.splits if_splits)
  show "fst (reapEmptyPodersOnce now ttl ord sord terminate (es, st)) i =
       (if reclaims now ttl terminate es i st \<or> \<not> vacant i st then None
        else case es i of None \<Rightarrow> Some now | Some since \<Rightarrow> Some since)"
    using loop at_i assms(1) live
    by (auto simp: reapEmptyPodersOnce_def Let_def facts iteration_order_def split: option.splits if_splits)
qed

lemma reapEmpty_effects:
  assumes "iteration_order ord (cp_poders st)" and "poders_wf (cp_poders st)" and "iteration_order sord (cp_sandboxes st)"
  shows "cp_effects (snd (reapEmptyPodersOnce now ttl ord sord terminate (es, st))) =
     cp_effects st @ concat (map (\<lambda>p. vacancy_effects now ttl terminate (cp_sandboxes st) (cp_tunnels st) p
        (es (po_ID p), cp_poders st (po_ID p))) (Poder_List ord (cp_poders st)))"
  using fold_map_log [where I = "surroundings (cp_sandboxes st) (cp_tunnels st)" and get = both_entries
      and body = "reap_empty_one now ttl sord terminate" and key = po_ID and logged = "\<lambda>s. cp_effects (snd s)"
      and h = "vacancy_entry now ttl terminate (cp_sandboxes st)" and m = "cp_poders st" and ks = ord and s = "(es, st)"
      and eff = "vacancy_effects now ttl terminate (cp_sandboxes st) (cp_tunnels st)"]
    reap_empty_entry [OF assms(3)] reap_empty_surroundings reap_empty_effects [OF assms(3)] assms(1,2)
  by (simp add: Poder_List_def reapEmptyPodersOnce_def Let_def iteration_order_def poders_wf_def)

section \<open>Passes over time\<close>

text \<open>A run of \<^verbatim>\<open>reapIdlePoders\<close>: the passes it makes, each on the state the control plane has reached by then.
  Only the table of first sightings is carried from one pass to the next.\<close>

record reclaim_pass =
  rp_now :: gotime
  rp_ord :: "string list"
  rp_sord :: "string list"
  rp_terminate :: "string \<Rightarrow> string \<Rightarrow> bool"
  rp_state :: control

definition pass_ok :: "reclaim_pass \<Rightarrow> bool" where
  "pass_ok q \<longleftrightarrow> iteration_order (rp_ord q) (cp_poders (rp_state q)) \<and> poders_wf (cp_poders (rp_state q)) \<and>
     iteration_order (rp_sord q) (cp_sandboxes (rp_state q))"

definition reclaim_run :: "duration \<Rightarrow> reclaim_pass \<Rightarrow> empty_since \<Rightarrow> empty_since \<times> control" where
  "reclaim_run ttl q es = reapEmptyPodersOnce (rp_now q) ttl (rp_ord q) (rp_sord q) (rp_terminate q) (es, rp_state q)"

definition reapIdlePoders :: "duration \<Rightarrow> reclaim_pass list \<Rightarrow> empty_since" where
  "reapIdlePoders ttl qs = fold (\<lambda>q es. fst (reclaim_run ttl q es)) qs (\<lambda>_. None)"

lemma reapIdlePoders_snoc: "reapIdlePoders ttl (qs @ [q]) = fst (reclaim_run ttl q (reapIdlePoders ttl qs))"
  by (simp add: reapIdlePoders_def)

lemmas pass_entries = reapEmpty_entries [of "rp_ord q" "rp_state q" "rp_sord q" for q, folded reclaim_run_def]

lemma first_sighting:
  assumes "\<forall>q \<in> set qs. pass_ok q" and "reapIdlePoders ttl qs i = Some since"
  shows "\<exists>k < length qs. rp_now (qs ! k) = since \<and> (\<forall>j \<in> {k..<length qs}. vacant i (rp_state (qs ! j)))"
  using assms
proof (induction qs rule: rev_induct)
  case (snoc q qs)
  let ?es = "reapIdlePoders ttl qs"
  have ok: "pass_ok q" using snoc.prems by simp
  from snoc.prems(2) ok have v: "vacant i (rp_state q)"
    and s: "since = (case ?es i of None \<Rightarrow> rp_now q | Some e \<Rightarrow> e)"
    by (auto simp: reapIdlePoders_snoc reclaim_run_def pass_ok_def reapEmpty_entries split: if_splits option.splits)
  show ?case
  proof (cases "?es i")
    case None
    with s v show ?thesis by (intro exI [of _ "length qs"]) auto
  next
    case (Some e)
    with snoc s obtain k where "k < length qs" "rp_now (qs ! k) = since" "\<forall>j \<in> {k..<length qs}. vacant i (rp_state (qs ! j))"
      by auto
    with v show ?thesis by (intro exI [of _ k]) (auto simp: nth_append less_Suc_eq)
  qed
qed (simp add: reapIdlePoders_def)

lemma vacancy_termination:
  assumes "VMTermination pt vm ok \<in> set (vacancy_effects now ttl terminate sbs tns p (es, q))"
  shows "reclaimable p \<and> unused (po_ID p) sbs \<and> po_ProviderType p = pt \<and> po_VMID p = vm \<and> ok = terminate pt vm \<and>
     (\<exists>since. es = Some since \<and> ttl < now - since)"
  using assms by (auto simp: vacancy_effects_def split: option.splits if_splits)

text \<open>Claim C25. A VM is given back only with patience: when a pass of the idle reaper asks a provider to delete a VM, a
  worker is registered on it whose id was registered, online, on some cloud VM and without a single sandbox record at
  that pass and at every earlier pass back to one that lies longer ago than the lifetime. A sandbox, a spell offline
  or a deleted record that a pass in between sees starts the clock anew. The clock belongs to the worker's id, not to its
  VM: under an id that is used again, a new VM inherits it, as shown below.\<close>

theorem idle_reaper_is_patient:
  assumes "\<forall>q \<in> set (qs @ [now_pass]). pass_ok q"
    and "cp_effects (snd (reclaim_run ttl now_pass (reapIdlePoders ttl qs))) = cp_effects (rp_state now_pass) @ new"
    and "VMTermination pt vm ok \<in> set new"
  shows "\<exists>i p k. cp_poders (rp_state now_pass) i = Some p \<and> po_ProviderType p = pt \<and> po_VMID p = vm \<and>
     k < length qs \<and> ttl < rp_now now_pass - rp_now (qs ! k) \<and> vacant i (rp_state now_pass) \<and>
     (\<forall>j \<in> {k..<length qs}. vacant i (rp_state (qs ! j)))"
proof -
  let ?st = "rp_state now_pass" and ?es = "reapIdlePoders ttl qs"
  have wf: "iteration_order (rp_ord now_pass) (cp_poders ?st)" "poders_wf (cp_poders ?st)"
    "iteration_order (rp_sord now_pass) (cp_sandboxes ?st)" using assms(1) by (auto simp: pass_ok_def)
  from assms(2,3) obtain p where "p \<in> set (Poder_List (rp_ord now_pass) (cp_poders ?st))"
    and e: "VMTermination pt vm ok \<in> set (vacancy_effects (rp_now now_pass) ttl (rp_terminate now_pass)
      (cp_sandboxes ?st) (cp_tunnels ?st) p (?es (po_ID p), cp_poders ?st (po_ID p)))"
    by (auto simp: reclaim_run_def reapEmpty_effects [OF wf])
  then have p: "cp_poders ?st (po_ID p) = Some p"
    using wf(1,2) by (auto simp: Poder_List_def visit_set ran_def poders_wf_def)
  from vacancy_termination [OF e] obtain since where
    r: "reclaimable p" "unused (po_ID p) (cp_sandboxes ?st)" "po_ProviderType p = pt" "po_VMID p = vm"
    and since: "?es (po_ID p) = Some since" "ttl < rp_now now_pass - since" by blast
  from first_sighting [OF _ since(1)] assms(1) obtain k where "k < length qs" "rp_now (qs ! k) = since"
    "\<forall>j \<in> {k..<length qs}. vacant (po_ID p) (rp_state (qs ! j))" by auto
  moreover have "vacant (po_ID p) ?st" using p r by (auto simp: vacant_def)
  ultimately show ?thesis using p r since(2) by blast
qed

definition vacant_control :: control where
  "vacant_control = demo_control\<lparr>cp_sandboxes := NewSandboxStore\<rparr>"

definition moved_control :: control where
  "moved_control = vacant_control\<lparr>cp_poders := map_option (\<lambda>p. p\<lparr>po_VMID := ''vm2''\<rparr>) \<circ> cp_poders vacant_control\<rparr>"

definition demo_pass :: "gotime \<Rightarrow> reclaim_pass" where
  "demo_pass now = \<lparr>rp_now = now, rp_ord = [''p1''], rp_sord = [], rp_terminate = (\<lambda>_ _. True), rp_state = vacant_control\<rparr>"

lemma demo_pass_ok: "pass_ok (demo_pass now)"
  using demo_control_wf(3,4)
  by (simp add: pass_ok_def demo_pass_def vacant_control_def NewSandboxStore_def iteration_order_def)

text \<open>A worker that registers again on a new VM between two passes keeps the clock of the old one: the pass that sees the new VM for
  the first time deletes it.\<close>

lemma new_vm_inherits_clock:
  "VMTermination ''aws'' ''vm2'' True \<in>
     set (cp_effects (snd (reclaim_run 10 ((demo_pass 12)\<lparr>rp_state := moved_control\<rparr>) (reapIdlePoders 10 [demo_pass 1]))))"
  by code_simp

theorem idle_reaper_is_patient_witness:
  "\<exists>i p. cp_poders vacant_control i = Some p \<and> po_VMID p = ''vm1'' \<and> vacant i vacant_control"
proof -
  let ?run = "reclaim_run 10 (demo_pass 12) (reapIdlePoders 10 [demo_pass 1])"
  have ok: "\<forall>q \<in> set ([demo_pass 1] @ [demo_pass 12]). pass_ok q" by (simp add: demo_pass_ok)
  have run: "cp_effects (snd ?run) = cp_effects (rp_state (demo_pass 12)) @
      [VMTermination ''aws'' ''vm1'' True, TunnelClosed 7, Emitted ''poder.reclaimed'' ''p1'']" by code_simp
  have "rp_state (demo_pass 12) = vacant_control" by (simp add: demo_pass_def)
  with idle_reaper_is_patient [OF ok run, of "''aws''" "''vm1''" True] show ?thesis by auto
qed

lemma sighting_stays:
  assumes "\<forall>q \<in> set qs. pass_ok q \<and> vacant i (rp_state q)" and "qs \<noteq> []"
    and "\<forall>j < length qs. cp_poders (snd (reclaim_run ttl (qs ! j) (reapIdlePoders ttl (take j qs)))) i \<noteq> None"
  shows "reapIdlePoders ttl qs i = Some (rp_now (hd qs))"
  using assms
proof (induction qs rule: rev_induct)
  case (snoc q qs)
  have ok: "iteration_order (rp_ord q) (cp_poders (rp_state q))" "poders_wf (cp_poders (rp_state q))"
    "iteration_order (rp_sord q) (cp_sandboxes (rp_state q))" and v: "vacant i (rp_state q)"
    using snoc.prems(1) by (auto simp: pass_ok_def)
  have "cp_poders (snd (reclaim_run ttl q (reapIdlePoders ttl qs))) i \<noteq> None"
    using snoc.prems(3) [rule_format, of "length qs"] by simp
  then have keep: "\<not> reclaims (rp_now q) ttl (rp_terminate q) (reapIdlePoders ttl qs) i (rp_state q)"
    by (auto simp: reclaim_run_def reapEmpty_entries [OF ok])
  have "reapIdlePoders ttl (qs @ [q]) i = (case reapIdlePoders ttl qs i of None \<Rightarrow> Some (rp_now q) | Some e \<Rightarrow> Some e)"
    using keep v by (simp add: reapIdlePoders_snoc reclaim_run_def reapEmpty_entries [OF ok])
  moreover have "reapIdlePoders ttl qs i = Some (rp_now (hd qs))" if "qs \<noteq> []"
  proof (rule snoc.IH)
    show "\<forall>j < length qs. cp_poders (snd (reclaim_run ttl (qs ! j) (reapIdlePoders ttl (take j qs)))) i \<noteq> None"
    proof (intro allI impI)
      fix j assume "j < length qs"
      with snoc.prems(3) [rule_format, of j]
      show "cp_poders (snd (reclaim_run ttl (qs ! j) (reapIdlePoders ttl (take j qs)))) i \<noteq> None"
        by (simp add: nth_append)
    qed
  qed (use snoc.prems that in auto)
  ultimately show ?case by (cases "qs = []") (simp_all add: reapIdlePoders_def)
qed simp

text \<open>No VM is kept for nothing: a worker on a cloud VM that every pass finds online and without a sandbox,
  over a span of passes longer than the lifetime, has lost its record, with its VM deleted, by
  the last of them, if the provider deletes VMs when asked.\<close>

theorem idle_reaper_gives_back:
  assumes "\<forall>q \<in> set qs. pass_ok q \<and> vacant i (rp_state q)"
    and "\<forall>q \<in> set qs. \<forall>p. cp_poders (rp_state q) i = Some p \<longrightarrow> rp_terminate q (po_ProviderType p) (po_VMID p)"
    and "qs \<noteq> []" and "0 \<le> ttl" and "ttl < rp_now (last qs) - rp_now (hd qs)"
  shows "\<exists>j < length qs. cp_poders (snd (reclaim_run ttl (qs ! j) (reapIdlePoders ttl (take j qs)))) i = None"
proof (rule ccontr)
  assume "\<not> ?thesis"
  then have kept: "\<forall>j < length qs. cp_poders (snd (reclaim_run ttl (qs ! j) (reapIdlePoders ttl (take j qs)))) i \<noteq> None"
    by simp
  from assms(3) obtain rs l where qs: "qs = rs @ [l]" by (cases qs rule: rev_cases) auto
  with assms(4,5) have ne: "rs \<noteq> []" by auto
  have early: "\<forall>j < length rs. cp_poders (snd (reclaim_run ttl (rs ! j) (reapIdlePoders ttl (take j rs)))) i \<noteq> None"
  proof (intro allI impI)
    fix j assume "j < length rs"
    with kept [rule_format, of j] show "cp_poders (snd (reclaim_run ttl (rs ! j) (reapIdlePoders ttl (take j rs)))) i \<noteq> None"
      by (simp add: qs nth_append)
  qed
  have since: "reapIdlePoders ttl rs i = Some (rp_now (hd rs))"
    using sighting_stays [OF _ ne early] assms(1) by (simp add: qs)
  have ok: "iteration_order (rp_ord l) (cp_poders (rp_state l))" "poders_wf (cp_poders (rp_state l))"
    "iteration_order (rp_sord l) (cp_sandboxes (rp_state l))" and v: "vacant i (rp_state l)"
    using assms(1) by (auto simp: pass_ok_def qs)
  have "reclaims (rp_now l) ttl (rp_terminate l) (reapIdlePoders ttl rs) i (rp_state l)"
    using since v assms(2,5) ne unfolding reclaims_def vacant_def by (auto simp: qs)
  then have "cp_poders (snd (reclaim_run ttl l (reapIdlePoders ttl rs))) i = None"
    by (simp add: reclaim_run_def reapEmpty_entries [OF ok])
  with kept [rule_format, of "length rs"] show False by (simp add: qs)
qed

theorem idle_reaper_gives_back_witness:
  "\<exists>j < 2. cp_poders (snd (reclaim_run 10 ([demo_pass 1, demo_pass 12] ! j)
     (reapIdlePoders 10 (take j [demo_pass 1, demo_pass 12])))) ''p1'' = None"
proof -
  have v: "vacant ''p1'' (rp_state (demo_pass now))" for now
    by (simp add: vacant_def demo_pass_def vacant_control_def demo_control_def reclaimable_def demo_poder_record_def
        isCloudProvider_def unused_def NewSandboxStore_def)
  have t: "rp_terminate (demo_pass now) = (\<lambda>_ _. True)" and n: "rp_now (demo_pass now) = now" for now
    by (simp_all add: demo_pass_def)
  have "length [demo_pass 1, demo_pass 12] = 2" by simp
  from idle_reaper_gives_back [where qs = "[demo_pass 1, demo_pass 12]" and i = "''p1''" and ttl = 10, unfolded this]
  show ?thesis by (simp only: demo_pass_ok v t n list.set last.simps hd_def list.case ball_simps) (simp add: n)
qed

section \<open>The pass over offline workers\<close>

definition lost :: "gotime \<Rightarrow> duration \<Rightarrow> poder_info \<Rightarrow> bool" where
  "lost now timeout p \<longleftrightarrow> po_State p = PoderOffline \<and> timeout < now - po_LastHeartbeat p"

definition on_vm :: "poder_info \<Rightarrow> bool" where
  "on_vm p \<longleftrightarrow> isCloudProvider (po_ProviderType p) \<and> po_VMID p \<noteq> []"

lemma reap_offline_entry:
  "cp_poders (reap_offline_one now timeout terminate p st) =
     (cp_poders st)(po_ID p :=
        (if lost now timeout p \<and> (on_vm p \<longrightarrow> terminate (po_ProviderType p) (po_VMID p)) then None else cp_poders st (po_ID p)))"
  by (auto simp: reap_offline_one_def lost_def on_vm_def Let_def Poder_Delete_def split: option.splits)

lemma reap_offline_effects:
  "cp_effects (reap_offline_one now timeout terminate p st) = cp_effects st @
     (if lost now timeout p \<and> on_vm p
      then [VMTermination (po_ProviderType p) (po_VMID p) (terminate (po_ProviderType p) (po_VMID p))] else [])"
  by (auto simp: reap_offline_one_def lost_def on_vm_def Let_def)

lemma reapOffline_effects:
  assumes "iteration_order ord (cp_poders st)" and "poders_wf (cp_poders st)"
  shows "set (cp_effects (reapOfflinePodersOnce now timeout terminate ord st)) = set (cp_effects st) \<union>
     {VMTermination (po_ProviderType p) (po_VMID p) (terminate (po_ProviderType p) (po_VMID p)) | p.
        p \<in> ran (cp_poders st) \<and> lost now timeout p \<and> on_vm p}"
proof -
  have "cp_effects (reapOfflinePodersOnce now timeout terminate ord st) = cp_effects st @
      concat (map (\<lambda>p. if lost now timeout p \<and> on_vm p
        then [VMTermination (po_ProviderType p) (po_VMID p) (terminate (po_ProviderType p) (po_VMID p))] else [])
        (visit ord (cp_poders st)))"
    unfolding reapOfflinePodersOnce_def Poder_List_def
    by (rule fold_map_log [where I = "\<lambda>_. True" and get = cp_poders and key = po_ID])
      (use assms in \<open>auto simp: reap_offline_entry reap_offline_effects iteration_order_def poders_wf_def\<close>)
  then show ?thesis by (auto simp: visit_set [OF assms(1)] split: if_splits)
qed

text \<open>Claim C36. No VM is leaked by the offline pass: a worker's record disappears exactly when it has been silent and
  offline for longer than the timeout and, if it runs on a cloud VM, the provider has deleted that VM
  in this pass; a worker whose VM could not be deleted keeps its record, so the next pass tries again;
  every other worker is left as it is.\<close>

theorem offline_pass_leaks_no_vm:
  assumes "iteration_order ord (cp_poders st)" and "poders_wf (cp_poders st)" and "cp_poders st i = Some p"
  shows "let st' = reapOfflinePodersOnce now timeout terminate ord st in
     (cp_poders st' i = None \<longleftrightarrow> lost now timeout p \<and> (on_vm p \<longrightarrow> terminate (po_ProviderType p) (po_VMID p))) \<and>
     (cp_poders st' i = None \<and> on_vm p \<longrightarrow> VMTermination (po_ProviderType p) (po_VMID p) True \<in> set (cp_effects st')) \<and>
     (cp_poders st' i \<noteq> None \<longrightarrow> cp_poders st' i = Some p)"
proof -
  let ?h = "\<lambda>p q. if lost now timeout p \<and> (on_vm p \<longrightarrow> terminate (po_ProviderType p) (po_VMID p)) then None else q"
  have "cp_poders (reapOfflinePodersOnce now timeout terminate ord st) i =
      (case cp_poders st i of Some q \<Rightarrow> ?h q (cp_poders st i) | None \<Rightarrow> cp_poders st i)"
    unfolding reapOfflinePodersOnce_def Poder_List_def
    by (rule fold_visit_loop_inv [where I = "\<lambda>_. True" and get = cp_poders and key = po_ID and h = ?h])
      (use assms(1,2) in \<open>simp_all add: poders_wf_def reap_offline_entry\<close>)
  then have gone: "cp_poders (reapOfflinePodersOnce now timeout terminate ord st) i = ?h p (Some p)"
    using assms(3) by simp
  have "p \<in> ran (cp_poders st)" using assms(3) by (rule ranI)
  then have "VMTermination (po_ProviderType p) (po_VMID p) (terminate (po_ProviderType p) (po_VMID p))
      \<in> set (cp_effects (reapOfflinePodersOnce now timeout terminate ord st))" if "lost now timeout p" "on_vm p"
    unfolding reapOffline_effects [OF assms(1,2)] using that by blast
  then show ?thesis by (cases "terminate (po_ProviderType p) (po_VMID p)") (simp_all add: Let_def gone)
qed

definition silent_control :: control where
  "silent_control = demo_control\<lparr>cp_poders := [''p1'' \<mapsto> (demo_poder_record ''p1'')\<lparr>po_State := PoderOffline\<rparr>]\<rparr>"

theorem offline_pass_leaks_no_vm_witness:
  "cp_poders (reapOfflinePodersOnce (30 * minute) (10 * minute) (\<lambda>_ _. True) [''p1''] silent_control) ''p1'' = None
   \<and> cp_poders (reapOfflinePodersOnce (30 * minute) (10 * minute) (\<lambda>_ _. False) [''p1''] silent_control) ''p1'' \<noteq> None"
proof -
  have wf: "iteration_order [''p1''] (cp_poders silent_control)" "poders_wf (cp_poders silent_control)"
    "cp_poders silent_control ''p1'' = Some ((demo_poder_record ''p1'')\<lparr>po_State := PoderOffline\<rparr>)"
    by (auto simp: silent_control_def iteration_order_def poders_wf_def demo_poder_record_def split: if_splits)
  have "lost (30 * minute) (10 * minute) ((demo_poder_record ''p1'')\<lparr>po_State := PoderOffline\<rparr>)"
    "on_vm ((demo_poder_record ''p1'')\<lparr>po_State := PoderOffline\<rparr>)"
    by (simp_all add: lost_def on_vm_def demo_poder_record_def isCloudProvider_def)
  with offline_pass_leaks_no_vm [OF wf, of "30 * minute" "10 * minute" "\<lambda>_ _. True"]
    offline_pass_leaks_no_vm [OF wf, of "30 * minute" "10 * minute" "\<lambda>_ _. False"]
  show ?thesis by (simp add: Let_def)
qed

section \<open>The sweep\<close>

lemma sweep_one_tunnels: "tunnelUp k (sweep_one timeout now p st) = tunnelUp k st"
  by (simp add: sweep_one_def tunnelUp_def split: option.split)

text \<open>The sweep trusts an open tunnel over a missing heartbeat: afterwards a worker with an open tunnel is
  online, whatever its heartbeats; one without is offline if its last heartbeat is older than the
  timeout and as before otherwise; and no worker is added or removed.\<close>

theorem sweep_trusts_tunnels:
  assumes "iteration_order ord (cp_poders st)" and "poders_wf (cp_poders st)" and "cp_poders st i = Some p"
  shows "map_option po_State (cp_poders (sweepBody timeout now ord st) i) =
     Some (if tunnelUp i st then PoderOnline
           else if timeout < now - po_LastHeartbeat p then PoderOffline else po_State p)"
proof -
  let ?I = "\<lambda>s. \<forall>k. tunnelUp k s = tunnelUp k st"
  let ?h = "\<lambda>p q. if tunnelUp (po_ID p) st
       then (if po_State p \<noteq> PoderOnline then map_option (\<lambda>p. p\<lparr>po_State := PoderOnline, po_LastHeartbeat := now\<rparr>) q else q)
       else if po_State p = PoderOnline \<and> timeout < now - po_LastHeartbeat p then map_option (\<lambda>p. p\<lparr>po_State := PoderOffline\<rparr>) q else q"
  have keep: "?I s \<Longrightarrow> ?I (sweep_one timeout now v s)" for v s by (simp add: sweep_one_tunnels)
  have body: "cp_poders (sweep_one timeout now v s) = (cp_poders s)(po_ID v := ?h v (cp_poders s (po_ID v)))" if "?I s" for v s
  proof -
    from that have "tunnelUp (po_ID v) s = tunnelUp (po_ID v) st" by blast
    then show ?thesis
      by (cases "cp_poders s (po_ID v)") (auto simp: sweep_one_def SetOnline_def SetOffline_def)
  qed
  have "cp_poders (sweepBody timeout now ord st) i =
      (case cp_poders st i of Some q \<Rightarrow> ?h q (cp_poders st i) | None \<Rightarrow> cp_poders st i)"
    unfolding sweepBody_def Poder_List_def
    by (rule fold_visit_loop_inv [where I = ?I and get = cp_poders and body = "sweep_one timeout now" and key = po_ID and h = ?h,
          OF body keep]) (use assms(1,2) in \<open>simp_all add: poders_wf_def\<close>)
  moreover have "po_ID p = i" using assms(2,3) by (simp add: poders_wf_def)
  ultimately show ?thesis using assms(3) by (cases "po_State p") auto
qed

theorem sweep_trusts_tunnels_witness:
  "map_option po_State (cp_poders (sweepBody (30 * second) (9 * minute) [''p1''] silent_control) ''p1'') = Some PoderOnline"
proof -
  have wf: "iteration_order [''p1''] (cp_poders silent_control)" "poders_wf (cp_poders silent_control)"
    "cp_poders silent_control ''p1'' = Some ((demo_poder_record ''p1'')\<lparr>po_State := PoderOffline\<rparr>)"
    by (auto simp: silent_control_def iteration_order_def poders_wf_def demo_poder_record_def split: if_splits)
  have "tunnelUp ''p1'' silent_control" by (simp add: tunnelUp_def silent_control_def demo_control_def Tunnel_Get_def)
  with sweep_trusts_tunnels [OF wf, of "30 * second" "9 * minute"] show ?thesis by simp
qed

section \<open>The administrator's delete\<close>

lemma delete_on_worker_tombstones:
  "cp_poderTombstones (fold (delete_on_worker t) sbs st) = cp_poderTombstones st"
  "cp_poders (fold (delete_on_worker t) sbs st) = cp_poders st"
  by (rule fold_keeps; simp add: delete_on_worker_def split: option.split)+

lemma deletePoder_tombstones:
  assumes "deletePoder now sord terminate False i st = ((200, gone), st')"
  shows "cp_poderTombstones st' = Tombstones_Add now i (cp_poderTombstones st)" and "cp_poders st' i = None"
  using assms
  by (auto simp: deletePoder_def Let_def delete_on_worker_tombstones Poder_Delete_def split: option.splits prod.splits if_splits)

text \<open>A deleted worker stays out: after an administrator deleted a worker, its id can connect again only when
  the tombstone has run out. Until then, whatever other ids are deleted or try to connect, a handshake
  is answered with \<^verbatim>\<open>410 Gone\<close> and registers nothing.\<close>

theorem deleted_worker_stays_out:
  assumes "deletePoder now sord terminate False (ch_PoderID h) st = ((200, gone), st1)"
    and "cp_poderTombstones st2 = fold tomb_step ops (cp_poderTombstones st1)"
    and "\<forall>op \<in> set ops. now \<le> tomb_time op \<and> tomb_time op \<le> now + ts_ttl (cp_poderTombstones st)"
    and "now \<le> now'" and "now' \<le> now + ts_ttl (cp_poderTombstones st)" and "ch_PoderID h \<noteq> []"
  shows "cp_poders st1 (ch_PoderID h) = None \<and>
     fst (poderConnect now' nodeURL ident h up tn st2) = ConnectRefused 410 \<and>
     cp_poders (snd (poderConnect now' nodeURL ident h up tn st2)) = cp_poders st2 \<and>
     cp_tunnels (snd (poderConnect now' nodeURL ident h up tn st2)) = cp_tunnels st2"
proof -
  let ?t = "cp_poderTombstones st" and ?i = "ch_PoderID h"
  have ttl: "0 \<le> ts_ttl ?t" using assms(4,5) by simp
  note t1 = deletePoder_tombstones [OF assms(1)]
  have "ts_m (Tombstones_Add now ?i ?t) ?i = Some (now + ts_ttl ?t)" "ts_ttl (Tombstones_Add now ?i ?t) = ts_ttl ?t"
    using ttl by (simp_all add: Tombstones_Add_def)
  then obtain e where "ts_m (cp_poderTombstones st2) ?i = Some e" "now + ts_ttl ?t \<le> e"
    using tomb_steps_keep [of "Tombstones_Add now ?i ?t" ?i "now + ts_ttl ?t" now ops] ttl assms(2,3) t1(1) by auto
  then have "Tombstones_Contains now' ?i (cp_poderTombstones st2) = (True, cp_poderTombstones st2)"
    using assms(5) by (simp add: Tombstones_Contains_def)
  then show ?thesis using t1(2) assms(6) by (simp add: poderConnect_def)
qed

theorem deleted_worker_stays_out_witness:
  "fst (poderConnect (9 * minute) [] admin_identity demo_headers True (Some 8)
     (snd (deletePoder minute [''box''] (\<lambda>_ _. True) False ''p1'' demo_control))) = ConnectRefused 410"
proof -
  have i: "ch_PoderID demo_headers = ''p1''" by (simp add: demo_headers_def)
  let ?run = "deletePoder minute [''box''] (\<lambda>_ _. True) False (ch_PoderID demo_headers) demo_control"
  have "fst ?run = (200, True)" by code_simp
  then have run: "?run = ((200, True), snd ?run)" by (metis prod.collapse)
  have "ts_ttl (cp_poderTombstones demo_control) = 10 * minute" by (simp add: demo_control_def NewTombstones_def)
  with deleted_worker_stays_out [OF run, of "snd ?run" "[]" "9 * minute" "[]" admin_identity True "Some 8"]
  show ?thesis by (simp add: i)
qed

section \<open>The idle reaper of sandboxes\<close>

definition reap_order :: "(string \<Rightarrow> nat option) \<Rightarrow> sandbox_info \<Rightarrow> effect list" where
  "reap_order tns sb = Emitted ''sandbox.reaped'' (sb_Name sb) #
     (case tns (sb_PoderID sb) of None \<Rightarrow> []
      | Some t \<Rightarrow> [WorkerRequest t ''DELETE'' (''http://poder/sandboxes/'' @ sb_Name sb)])"

lemma teardown_simps:
  "cp_sandboxes (teardownSandbox sb st) = (cp_sandboxes st)(sb_Name sb := None)"
  "cp_tunnels (teardownSandbox sb st) = cp_tunnels st"
  "cp_effects (teardownSandbox sb st) = cp_effects st @ (case cp_tunnels st (sb_PoderID sb) of None \<Rightarrow> []
      | Some t \<Rightarrow> [WorkerRequest t ''DELETE'' (''http://poder/sandboxes/'' @ sb_Name sb)])"
  by (simp_all add: teardownSandbox_def Tunnel_Get_def Let_def split: option.split)

lemma reap_idle_simps:
  "cp_sandboxes (reap_idle_one now ttl sb st) =
     (cp_sandboxes st)(sb_Name sb := (if shouldReapSandbox sb now ttl then None else cp_sandboxes st (sb_Name sb)))"
  "cp_tunnels (reap_idle_one now ttl sb st) = cp_tunnels st"
  "cp_effects (reap_idle_one now ttl sb st) = cp_effects st @
     (if shouldReapSandbox sb now ttl then reap_order (cp_tunnels st) sb else [])"
  by (simp_all add: reap_idle_one_def teardown_simps reap_order_def)

text \<open>The reaper takes exactly the idle sandboxes: after a tick a record is gone if and only if the sandbox is
  not a direct agent, has finished provisioning and was idle for longer than its own lifetime (or the
  server's default); other records are as before; and the worker of each reaped sandbox, if connected,
  is told to delete the container.\<close>

theorem idle_sandboxes_are_reaped:
  assumes "iteration_order ord (cp_sandboxes st)" and "sandboxes_wf (cp_sandboxes st)"
  shows "let st' = reapIdleSandboxesOnce now ttl ord st in
     (\<forall>n. cp_sandboxes st' n =
        (case cp_sandboxes st n of None \<Rightarrow> None | Some sb \<Rightarrow> if shouldReapSandbox sb now ttl then None else Some sb)) \<and>
     cp_effects st' = cp_effects st @
       concat (map (reap_order (cp_tunnels st)) (filter (\<lambda>sb. shouldReapSandbox sb now ttl) (Sandbox_List ord (cp_sandboxes st))))"
proof -
  let ?h = "\<lambda>sb q. if shouldReapSandbox sb now ttl then None else q" and ?I = "\<lambda>s. cp_tunnels s = cp_tunnels st"
  have "cp_sandboxes (reapIdleSandboxesOnce now ttl ord st) n =
      (case cp_sandboxes st n of Some sb \<Rightarrow> ?h sb (cp_sandboxes st n) | None \<Rightarrow> cp_sandboxes st n)" for n
    unfolding reapIdleSandboxesOnce_def Sandbox_List_def
    by (rule fold_visit_loop_inv [where I = "\<lambda>_. True" and get = cp_sandboxes and key = sb_Name and h = ?h])
      (use assms in \<open>simp_all add: sandboxes_wf_def reap_idle_simps\<close>)
  moreover have "cp_effects (reapIdleSandboxesOnce now ttl ord st) = cp_effects st @
      concat (map (\<lambda>sb. if shouldReapSandbox sb now ttl then reap_order (cp_tunnels st) sb else []) (Sandbox_List ord (cp_sandboxes st)))"
    unfolding reapIdleSandboxesOnce_def Sandbox_List_def
    by (rule fold_map_log [where I = ?I and get = cp_sandboxes and key = sb_Name and h = ?h])
      (use assms in \<open>simp_all add: sandboxes_wf_def reap_idle_simps iteration_order_def\<close>)
  moreover have "concat (map (\<lambda>sb. if P sb then f sb else []) xs) = concat (map f (filter P xs))"
    for P and f :: "sandbox_info \<Rightarrow> effect list" and xs by (induction xs) auto
  ultimately show ?thesis by (auto simp: Let_def split: option.splits)
qed

definition idle_box :: sandbox_info where
  "idle_box = (demo_sandbox ''box'' ''p1'')\<lparr>sb_State := StateRunning, sb_TTLSeconds := 60, sb_CreatedAt := 1, sb_ProxyURL := []\<rparr>"

theorem idle_sandboxes_are_reaped_witness:
  "cp_sandboxes (reapIdleSandboxesOnce (2 * hour) (12 * hour) [''box'']
     (demo_control\<lparr>cp_sandboxes := [''box'' \<mapsto> idle_box]\<rparr>)) ''box'' = None"
proof -
  let ?st = "demo_control\<lparr>cp_sandboxes := [''box'' \<mapsto> idle_box]\<rparr>"
  have wf: "iteration_order [''box''] (cp_sandboxes ?st)" "sandboxes_wf (cp_sandboxes ?st)"
    by (auto simp: iteration_order_def sandboxes_wf_def idle_box_def demo_sandbox_def)
  have "shouldReapSandbox idle_box (2 * hour) (12 * hour)" by code_simp
  with idle_sandboxes_are_reaped [OF wf, of "2 * hour" "12 * hour"] show ?thesis by (simp add: Let_def)
qed

text \<open>A lifetime given in seconds is multiplied by \<open>10\<^sup>9\<close> in 64 bits without a bound on it. Every lifetime of up
  to 9223372036 seconds (about 292 years) is what it says; the next one is negative and means forever;
  and 18446744074 seconds are 290448384 nanoseconds, so that such a sandbox is deleted by the first tick
  that finds it running and idle for a third of a second.\<close>

theorem sandbox_lifetime_overflows:
  "(\<forall>sb ttl. 0 < sb_TTLSeconds sb \<and> sb_TTLSeconds sb \<le> 9223372036 \<longrightarrow>
      effectiveSandboxTTL sb ttl = sb_TTLSeconds sb * second \<and> 0 < effectiveSandboxTTL sb ttl) \<and>
   (\<forall>sb ttl. sb_TTLSeconds sb = 9223372037 \<longrightarrow> effectiveSandboxTTL sb ttl < 0) \<and>
   (\<forall>sb ttl. sb_TTLSeconds sb = 18446744074 \<longrightarrow> effectiveSandboxTTL sb ttl = 290448384)"
proof (intro conjI allI impI)
  fix sb :: sandbox_info and ttl assume a: "0 < sb_TTLSeconds sb \<and> sb_TTLSeconds sb \<le> 9223372036"
  then have "0 < sb_TTLSeconds sb * 1000000000" "sb_TTLSeconds sb * 1000000000 \<le> 9223372036 * 1000000000" by auto
  with a show "effectiveSandboxTTL sb ttl = sb_TTLSeconds sb * second" "0 < effectiveSandboxTTL sb ttl"
    by (simp_all add: effectiveSandboxTTL_def wrap64_def)
qed (simp_all add: effectiveSandboxTTL_def wrap64_def)

theorem sandbox_lifetime_overflows_witness:
  "effectiveSandboxTTL ((demo_sandbox ''b'' ''p'')\<lparr>sb_TTLSeconds := 18446744074\<rparr>) hour = 290448384"
  using sandbox_lifetime_overflows by simp

end
