(* ===== verification/Server_Create.thy ===== *)
theory Server_Create
  imports Server_Reclaim "HOL-Library.List_Lexorder" "HOL-Library.Char_ord"
begin

text \<open>
  Creating a sandbox (\<^verbatim>\<open>src/pkg/server/create.go\<close>, \<^verbatim>\<open>provision.go\<close> and the \<^verbatim>\<open>POST /api/v1/sandboxes\<close> handler of
  \<^verbatim>\<open>main.go\<close>): validation, the quota, the flow that schedules, records, delivers and finishes, its
  asynchronous form, and the hand-over of a delivery to the instance that holds the worker's tunnel.

  What the flow meets is an argument, the record \<open>create_env\<close>: the scheduler's environment, the clock
  (one reading per index), the worker's and the peer's answers, the texts of errors and the JSON
  encoding of a request. The flow waits in two places, for the scheduler and for the worker; what the
  rest of the server does to the state meanwhile is an arbitrary function (\<open>ce_scheduling\<close>, \<open>ce_working\<close>).

  Shown here: which names are accepted, and that an accepted name is one segment of a path; an
  asynchronous create settles, whatever happens; a sandbox lands only on a worker of its tenant; the
  quota holds for synchronous creates and is one lower for asynchronous ones; a synchronous create
  whose worker has just disconnected leaves a pending record behind; and the per-connection decision
  allows exactly what a stored and valid policy allows.
\<close>

section \<open>Validation\<close>

abbreviation maxSandboxNameLen :: nat where "maxSandboxNameLen \<equiv> 64"

definition is_alnum :: "char \<Rightarrow> bool" where
  "is_alnum c \<longleftrightarrow> c \<in> set ''ABCDEFGHIJKLMNOPQRSTUVWXYZabcdefghijklmnopqrstuvwxyz0123456789''"

definition is_name_char :: "char \<Rightarrow> bool" where
  "is_name_char c \<longleftrightarrow> is_alnum c \<or> c \<in> set ''._-''"

text \<open>The regular expression \<^verbatim>\<open>^[A-Za-z0-9][A-Za-z0-9._-]*$\<close>.\<close>

fun sandboxNamePattern :: "string \<Rightarrow> bool" where
  "sandboxNamePattern [] = False"
| "sandboxNamePattern (c # s) \<longleftrightarrow> is_alnum c \<and> list_all is_name_char s"

datatype name_reason = NameRequired | NameTooLongFor nat | NameBadChars

definition validateSandboxName :: "string \<Rightarrow> name_reason option" where
  "validateSandboxName name =
     (if name = [] then Some NameRequired
      else if length name > maxSandboxNameLen then Some (NameTooLongFor (length name))
      else if \<not> sandboxNamePattern name then Some NameBadChars
      else None)"

definition isCloudProviderName :: "string \<Rightarrow> bool" where
  "isCloudProviderName providerType \<longleftrightarrow> providerType \<notin> set [[], ''local'', ''local-agent'', ''agent'', ''docker'']"

definition nonEmpty :: "string \<Rightarrow> string \<Rightarrow> string" where
  "nonEmpty v fallback = (if v = [] then fallback else v)"

text \<open>The region error carries the provider and the region as the message shows them.\<close>

definition validateCreateRegion :: "create_request \<Rightarrow> (string \<times> string) option" where
  "validateCreateRegion req =
     (if \<not> isCloudProviderName (cr_ProviderType req) then None
      else if cr_Region req = [] \<or> cr_Region req = ''local''
      then Some (cr_ProviderType req, nonEmpty (cr_Region req) ''empty'') else None)"

definition validateEgressPolicy :: "policy option \<Rightarrow> policy_error option" where
  "validateEgressPolicy p = (case p of None \<Rightarrow> None | Some q \<Rightarrow> (case Parse q of Inl e \<Rightarrow> Some e | Inr _ \<Rightarrow> None))"

definition decideForSandbox :: "sandbox_info option \<Rightarrow> string \<Rightarrow> int \<Rightarrow> verdict" where
  "decideForSandbox sb host port =
     (let deny = (\<lambda>r. zero_verdict\<lparr>v_Code := CodeNotAllowed, v_Host := host, v_Port := port, v_Reason := CustomReason r\<rparr>)
      in case sb of
           None \<Rightarrow> deny ''this sandbox is not registered with the control plane; egress is denied''
         | Some s \<Rightarrow>
             (case sb_Network s of
                None \<Rightarrow> deny ''the sandbox has no egress policy; add one with PUT /api/v1/sandboxes/{name}/egress''
              | Some p \<Rightarrow>
                  (case Parse p of
                     Inl _ \<Rightarrow> deny ''the sandbox's egress policy is invalid; egress is denied until it is fixed''
                   | Inr c \<Rightarrow> Decide c host port)))"

section \<open>Admission\<close>

datatype admit_error = ErrQuotaExceeded | Refused string

type_synonym admission = "identity \<Rightarrow> create_request \<Rightarrow> control \<Rightarrow> admit_error option"

definition quotaExceeded :: "string list \<Rightarrow> string \<Rightarrow> int \<Rightarrow> sandbox_store \<Rightarrow> bool" where
  "quotaExceeded ord owner maxi store =
     (if maxi \<le> 0 then False
      else int (length (filter (\<lambda>sb. sb_Owner sb = owner) (Sandbox_List ord store))) \<ge> maxi)"

text \<open>The built-in rule; \<open>ord\<close> is the order in which a listing of the store's map happens to be visited.\<close>

definition quotaAdmission :: "(sandbox_store \<Rightarrow> string list) \<Rightarrow> int \<Rightarrow> admission" where
  "quotaAdmission ord maxi ident req st =
     (if IsAdmin ident \<or> maxi \<le> 0 then None
      else if quotaExceeded (ord (cp_sandboxes st)) (id_Name ident) maxi (cp_sandboxes st) then Some ErrQuotaExceeded
      else None)"

definition admissionFor :: "admission option \<Rightarrow> (sandbox_store \<Rightarrow> string list) \<Rightarrow> int \<Rightarrow> admission" where
  "admissionFor configured ord maxi = (case configured of Some a \<Rightarrow> a | None \<Rightarrow> quotaAdmission ord maxi)"

section \<open>The environment of a create\<close>

datatype create_failure =
    RegionInvalid string string
  | NotAdmitted admit_error
  | NotScheduled sched_error
  | JobExists
  | PeerDeliveryFailed string string
  | PoderTunnelElsewhere string
  | WorkerUnreachable string
  | PoderError string

record provision_request =
  pq_Sandbox :: "create_request option"
  pq_JobID :: string
  pq_PoderID :: string
  pq_Owner :: string

record create_env =
  ce_getenv :: getenv
  ce_provider :: provider_env
  ce_obs :: "(string list \<times> poder_store) observations"
  ce_sched :: scheduler
  ce_clock :: "nat \<Rightarrow> gotime"
  ce_text :: "create_failure \<Rightarrow> string"
  ce_marshal :: "create_request \<Rightarrow> string"
  ce_scheduling :: "control \<Rightarrow> control"
  ce_working :: "control \<Rightarrow> control"
  ce_worker :: "nat \<Rightarrow> create_request \<Rightarrow> string + int \<times> string"
  ce_fields :: "string \<Rightarrow> string \<times> string"
  ce_peer :: "string \<Rightarrow> string \<Rightarrow> provision_request \<Rightarrow> string + int \<times> string"
  ce_peer_sandbox :: "string \<Rightarrow> string + sandbox_info option"

section \<open>Delivery\<close>

definition finish_job :: "string \<Rightarrow> string \<Rightarrow> string \<Rightarrow> job \<Rightarrow> job" where
  "finish_job poderID sid ip j =
     (let j1 = j\<lparr>j_Status := JobCompleted\<rparr>;
          j2 = (if sid \<noteq> [] then j1\<lparr>j_SandboxID := sid, j_Result := Some \<lparr>jr_SandboxID = sid, jr_IP = [],
                  jr_ProxyURL = ''tunnel://'' @ poderID, jr_Output = [], jr_ExitCode = 0\<rparr>\<rparr> else j1)
      in if ip \<noteq> [] then j2\<lparr>j_Result := map_option (\<lambda>r. r\<lparr>jr_IP := ip\<rparr>) (j_Result j2)\<rparr> else j2)"

definition finish_sandbox :: "string \<Rightarrow> string \<Rightarrow> sandbox_info \<Rightarrow> sandbox_info" where
  "finish_sandbox sid ip s =
     (let s1 = s\<lparr>sb_State := StateRunning\<rparr>; s2 = (if sid \<noteq> [] then s1\<lparr>sb_ID := sid\<rparr> else s1)
      in if ip \<noteq> [] then s2\<lparr>sb_IP := ip\<rparr> else s2)"

text \<open>\<open>ce_worker\<close> answers with a transport error or a status and a body; \<open>ce_fields\<close> reads the string fields
  \<^verbatim>\<open>id\<close> and \<^verbatim>\<open>ip\<close> of a body (empty when absent). \<open>fl\<close> is the caller's clean-up.\<close>

definition pushCreateToPoder ::
  "create_env \<Rightarrow> nat \<Rightarrow> create_request \<Rightarrow> string \<Rightarrow> string \<Rightarrow> (string \<Rightarrow> control \<Rightarrow> control) \<Rightarrow> control \<Rightarrow>
   (create_failure + sandbox_info option) \<times> control" where
  "pushCreateToPoder env t req jobID poderID fl st =
     (let st1 = ce_working env (emit (CreateSent t (cr_Name req)) st) in
      case ce_worker env t req of
        Inl e \<Rightarrow> (Inl (WorkerUnreachable e), fl (ce_text env (WorkerUnreachable e)) st1)
      | Inr (status, body) \<Rightarrow>
          if status \<noteq> 201 then (Inl (PoderError body), fl body st1)
          else
            (case ce_fields env body of (sid, ip) \<Rightarrow>
               let st2 = update_job (ce_clock env 5) jobID (finish_job poderID sid ip) st1;
                   st3 = update_sandbox (cr_Name req) (finish_sandbox sid ip) st2
               in (Inr (Sandbox_Get (cr_Name req) (cp_sandboxes st3)), emit (Emitted ''sandbox.running'' (cr_Name req)) st3)))"

definition wantsPeerDelivery :: "config \<Rightarrow> tunnel_owners \<Rightarrow> string \<Rightarrow> string option" where
  "wantsPeerDelivery cfg owners poderID =
     (if cfg_NodeURL cfg = [] \<or> cfg_Token cfg = [] then None
      else case NodeFor poderID owners of
        None \<Rightarrow> None
      | Some owner \<Rightarrow> if owner = cfg_NodeURL cfg then None else Some owner)"

text \<open>\<open>ce_peer\<close> is the exchange with the peer, given its address, the token sent along and the request;
  \<open>ce_peer_sandbox\<close> decodes its answer. The peer works on the shared repositories (\<open>ce_working\<close>).\<close>

definition deliverCreateToPeer ::
  "create_env \<Rightarrow> string \<Rightarrow> string \<Rightarrow> create_request \<Rightarrow> string \<Rightarrow> string \<Rightarrow> string \<Rightarrow> control \<Rightarrow>
   (string + sandbox_info option) \<times> control" where
  "deliverCreateToPeer env peerURL token req jobID owner poderID st =
     (let st1 = ce_working env (emit (PeerAsked peerURL (cr_Name req)) st) in
      case ce_peer env (peerURL @ ''/internal/provision'') token
             \<lparr>pq_Sandbox = Some req, pq_JobID = jobID, pq_PoderID = poderID, pq_Owner = owner\<rparr> of
        Inl e \<Rightarrow> (Inl e, st1)
      | Inr (status, body) \<Rightarrow>
          if status \<noteq> 200 then (Inl body, st1)
          else (case ce_peer_sandbox env body of Inl e \<Rightarrow> (Inl e, st1) | Inr sb \<Rightarrow> (Inr sb, st1)))"

text \<open>The endpoint a peer calls: \<open>hdr\<close> is the header that carries the platform token, \<open>body\<close> is \<open>None\<close> when the
  JSON does not decode. The answer is a status and, with 200, the sandbox.\<close>

definition mountProvision ::
  "create_env \<Rightarrow> config \<Rightarrow> string \<Rightarrow> string \<Rightarrow> provision_request option \<Rightarrow> control \<Rightarrow> (int \<times> sandbox_info option) \<times> control" where
  "mountProvision env cfg meth hdr body st =
     (if meth \<noteq> ''POST'' then ((405, None), st)
      else if cfg_Token cfg = [] \<or> hdr \<noteq> cfg_Token cfg then ((403, None), st)
      else case body of
        None \<Rightarrow> ((400, None), st)
      | Some q \<Rightarrow>
          (case pq_Sandbox q of
             None \<Rightarrow> ((400, None), st)
           | Some req \<Rightarrow>
               if pq_PoderID q = [] then ((400, None), st)
               else case Tunnel_Get (pq_PoderID q) (cp_tunnels st) of
                 None \<Rightarrow> ((409, None), st)
               | Some t \<Rightarrow>
                   (case pushCreateToPoder env t req (pq_JobID q) (pq_PoderID q) (\<lambda>_ s. s) st of
                      (Inl _, st1) \<Rightarrow> ((502, None), st1)
                    | (Inr sb, st1) \<Rightarrow> ((200, sb), st1))))"

section \<open>The create flow\<close>

definition failBoth :: "create_env \<Rightarrow> nat \<Rightarrow> create_request \<Rightarrow> string \<Rightarrow> string \<Rightarrow> control \<Rightarrow> control" where
  "failBoth env k req jobID msg st =
     (let st1 = emit (Emitted ''sandbox.error'' (cr_Name req)) st;
          st2 = (if jobID \<noteq> [] then update_job (ce_clock env k) jobID (\<lambda>j. j\<lparr>j_Status := JobFailed, j_ErrorMessage := msg\<rparr>) st1
                 else st1)
      in update_sandbox (cr_Name req) (\<lambda>s. s\<lparr>sb_State := StateError\<rparr>) st2)"

text \<open>Step 3: the record in the state \<^verbatim>\<open>PENDING\<close> with its placement.\<close>

definition place_record :: "create_env \<Rightarrow> create_request \<Rightarrow> string \<Rightarrow> string \<Rightarrow> string \<Rightarrow> control \<Rightarrow> control" where
  "place_record env req jobID owner poderID st =
     (let res = (case Poder_Get poderID (cp_poders st) of
            Some p \<Rightarrow> (pr_Arch (po_Resources p), pr_OS (po_Resources p), pr_OSVersion (po_Resources p))
          | None \<Rightarrow> ([], [], []))
      in case res of (arch, os, osv) \<Rightarrow>
        (case Sandbox_Get (cr_Name req) (cp_sandboxes st) of
           Some _ \<Rightarrow>
             update_sandbox (cr_Name req)
               (\<lambda>s. s\<lparr>sb_PoderID := poderID, sb_ProxyURL := ''tunnel://'' @ poderID, sb_Arch := arch, sb_OS := os,
                      sb_OSVersion := osv, sb_TTLSeconds := cr_TTLSeconds req, sb_CPUCores := cr_CPUCores req,
                      sb_MemoryMB := cr_MemoryMB req,
                      sb_Network := (if cr_Network req \<noteq> None then cr_Network req else sb_Network s),
                      sb_LastActivity := ce_clock env 2\<rparr>) st
         | None \<Rightarrow>
             (case Sandbox_Add
                \<lparr>sb_ID = jobID, sb_Name = cr_Name req, sb_Region = cr_Region req, sb_ProviderType = cr_ProviderType req,
                 sb_InstanceType = cr_InstanceType req, sb_ImageID = [], sb_State = StatePending, sb_IP = [], sb_Owner = owner,
                 sb_TTLSeconds = cr_TTLSeconds req, sb_CPUCores = cr_CPUCores req, sb_MemoryMB = cr_MemoryMB req,
                 sb_PoderID = poderID, sb_PoderURL = [], sb_ContainerID = [], sb_ProxyURL = ''tunnel://'' @ poderID,
                 sb_APIURL = [], sb_Arch = arch, sb_OS = os, sb_OSVersion = osv, sb_CreatedAt = ce_clock env 2,
                 sb_LastActivity = ce_clock env 2, sb_Labels = Map.empty, sb_Network = cr_Network req\<rparr> (cp_sandboxes st) of
                None \<Rightarrow> st
              | Some s \<Rightarrow> st\<lparr>cp_sandboxes := s\<rparr>)))"

text \<open>Step 3a: the intent on the job.\<close>

definition record_intent :: "create_env \<Rightarrow> create_request \<Rightarrow> string \<Rightarrow> string \<Rightarrow> control \<Rightarrow> control" where
  "record_intent env req jobID poderID st =
     (if jobID \<noteq> []
      then update_job (ce_clock env 3) jobID
        (\<lambda>j. j\<lparr>j_Request := ce_marshal env req, j_PoderID := poderID, j_Status := JobPending\<rparr>) st
      else st)"

text \<open>Steps 3b and 4.\<close>

definition deliver_placed ::
  "create_env \<Rightarrow> config \<Rightarrow> create_request \<Rightarrow> string \<Rightarrow> string \<Rightarrow> string \<Rightarrow> control \<Rightarrow>
   (create_failure + sandbox_info option) \<times> control" where
  "deliver_placed env cfg req jobID owner poderID st =
     (case Tunnel_Get poderID (cp_tunnels st) of
        None \<Rightarrow>
          (case wantsPeerDelivery cfg (cp_owners st) poderID of
             Some peer \<Rightarrow>
               (case deliverCreateToPeer env peer (cfg_Token cfg) req jobID owner poderID st of
                  (Inr sb, st1) \<Rightarrow> (Inr sb, st1)
                | (Inl e, st1) \<Rightarrow>
                    (Inl (PeerDeliveryFailed peer e),
                     failBoth env 4 req jobID (''worker is connected to another instance and it did not accept the create: '' @ e) st1))
           | None \<Rightarrow>
               (Inl (PoderTunnelElsewhere poderID),
                if jobID \<noteq> []
                then update_job (ce_clock env 4) jobID
                  (\<lambda>j. j\<lparr>j_Status := JobFailed, j_ErrorMessage := ''worker tunnel is held by another instance''\<rparr>) st
                else st))
      | Some t \<Rightarrow> pushCreateToPoder env t req jobID poderID (failBoth env 6 req jobID) st)"

definition runSandboxCreate ::
  "create_env \<Rightarrow> config \<Rightarrow> admission \<Rightarrow> identity \<Rightarrow> create_request \<Rightarrow> string \<Rightarrow> string \<Rightarrow> control \<Rightarrow>
   (create_failure + sandbox_info option) \<times> string \<times> control" where
  "runSandboxCreate env cfg admit requester req0 preJobID owner st =
     (let req = (if id_Tenant requester \<noteq> [] then req0\<lparr>cr_Workspace := id_Tenant requester\<rparr> else req0) in
      case validateCreateRegion req of
        Some (pt, region) \<Rightarrow>
          (Inl (RegionInvalid pt region), preJobID, failBoth env 0 req preJobID (ce_text env (RegionInvalid pt region)) st)
      | None \<Rightarrow>
          (case admit requester req st of
             Some e \<Rightarrow> (Inl (NotAdmitted e), preJobID, failBoth env 0 req preJobID (ce_text env (NotAdmitted e)) st)
           | None \<Rightarrow>
               (case ScheduleSandboxCreation (ce_getenv env) (ce_provider env) mem_select (ce_obs env) (ce_sched env) req (cp_tenants st) of
                  (res, tn) \<Rightarrow>
                    let st1 = ce_scheduling env (st\<lparr>cp_tenants := tn\<rparr>) in
                    (case res of
                       Inl e \<Rightarrow> (Inl (NotScheduled e), preJobID, failBoth env 1 req preJobID (ce_text env (NotScheduled e)) st1)
                     | Inr schedJob \<Rightarrow>
                         let jobID = (if preJobID = [] then j_ID schedJob else preJobID);
                             poderID = j_PoderID schedJob;
                             booked = (if preJobID = []
                               then map_option (\<lambda>js. st1\<lparr>cp_jobs := js\<rparr>) (AddJob (schedJob\<lparr>j_Owner := owner\<rparr>) (cp_jobs st1))
                               else Some (update_job (ce_clock env 1) jobID
                                 (\<lambda>j. j\<lparr>j_Status := JobInProgress, j_PoderID := poderID, j_PoderURL := j_PoderURL schedJob\<rparr>) st1))
                         in (case booked of
                               None \<Rightarrow> (Inl JobExists, jobID, st1)
                             | Some st2 \<Rightarrow>
                                 (case deliver_placed env cfg req jobID owner poderID
                                        (record_intent env req jobID poderID (place_record env req jobID owner poderID st2)) of
                                    (r, st3) \<Rightarrow> (r, jobID, st3)))))))"

section \<open>The handler\<close>

datatype create_response =
    CreateRefused int
  | CreateAccepted string
  | CreateDone string "sandbox_info option"

definition pending_job :: "gotime \<Rightarrow> gotime \<Rightarrow> string \<Rightarrow> string \<Rightarrow> create_request \<Rightarrow> identity \<Rightarrow> job" where
  "pending_job made updated jobID payload req ident =
     \<lparr>j_ID = jobID, j_Type = CreateSandbox, j_Status = JobPending, j_SandboxName = cr_Name req, j_SandboxID = [],
      j_Region = cr_Region req, j_ProviderType = cr_ProviderType req, j_PoderID = [], j_PoderURL = [], j_VmID = [],
      j_InstanceType = cr_InstanceType req, j_ImageID = cr_ImageID req, j_Command = [], j_Language = [], j_Result = None,
      j_ErrorMessage = [], j_Request = payload, j_Owner = id_Name ident, j_TraceContext = Map.empty,
      j_CreatedAt = made, j_UpdatedAt = updated\<rparr>"

definition pending_record :: "gotime \<Rightarrow> string \<Rightarrow> create_request \<Rightarrow> identity \<Rightarrow> sandbox_info" where
  "pending_record now jobID req ident =
     \<lparr>sb_ID = jobID, sb_Name = cr_Name req, sb_Region = cr_Region req, sb_ProviderType = cr_ProviderType req,
      sb_InstanceType = cr_InstanceType req, sb_ImageID = [], sb_State = StatePending, sb_IP = [], sb_Owner = id_Name ident,
      sb_TTLSeconds = cr_TTLSeconds req, sb_CPUCores = cr_CPUCores req, sb_MemoryMB = cr_MemoryMB req, sb_PoderID = [],
      sb_PoderURL = [], sb_ContainerID = [], sb_ProxyURL = [], sb_APIURL = [], sb_Arch = [], sb_OS = [], sb_OSVersion = [],
      sb_CreatedAt = now, sb_LastActivity = now, sb_Labels = Map.empty, sb_Network = cr_Network req\<rparr>"

text \<open>What the handler checks before anything is written; \<open>Inr\<close> is the request with its provider filled in.\<close>

definition checkCreate :: "admission \<Rightarrow> identity \<Rightarrow> create_request option \<Rightarrow> control \<Rightarrow> int + create_request" where
  "checkCreate admit ident body st =
     (case body of
        None \<Rightarrow> Inl 400
      | Some req0 \<Rightarrow>
          let req = (if cr_ProviderType req0 = [] then req0\<lparr>cr_ProviderType := ''local''\<rparr> else req0) in
          if validateSandboxName (cr_Name req) \<noteq> None then Inl 400
          else if validateEgressPolicy (cr_Network req) \<noteq> None then Inl 400
          else if validateCreateRegion req \<noteq> None then Inl 400
          else if Sandbox_Get (cr_Name req) (cp_sandboxes st) \<noteq> None then Inl 409
          else case admit ident req st of
            Some ErrQuotaExceeded \<Rightarrow> Inl 429
          | Some (Refused _) \<Rightarrow> Inl 403
          | None \<Rightarrow> Inr req)"

text \<open>\<^verbatim>\<open>POST /api/v1/sandboxes\<close>. In the asynchronous form the answer is sent when the job and the record are
  written, and \<open>asyncCreate\<close> runs in the background.\<close>

definition postSandboxes ::
  "create_env \<Rightarrow> config \<Rightarrow> admission \<Rightarrow> identity \<Rightarrow> create_request option \<Rightarrow> string \<Rightarrow> gotime \<Rightarrow> control \<Rightarrow> create_response \<times> control" where
  "postSandboxes env cfg admit ident body newJobID now st =
     (case checkCreate admit ident body st of
        Inl status \<Rightarrow> (CreateRefused status, st)
      | Inr req \<Rightarrow>
          if cr_Async req then
            (case AddJob (pending_job now now newJobID (ce_marshal env req) req ident) (cp_jobs st) of
               None \<Rightarrow> (CreateRefused 500, st)
             | Some js \<Rightarrow>
                 let st1 = st\<lparr>cp_jobs := js\<rparr> in
                 (case Sandbox_Add (pending_record now newJobID req ident) (cp_sandboxes st1) of
                    None \<Rightarrow> (CreateRefused 409, st1)
                  | Some ss \<Rightarrow> (CreateAccepted newJobID, st1\<lparr>cp_sandboxes := ss\<rparr>)))
          else
            (case runSandboxCreate env cfg admit ident req [] (id_Name ident) st of
               (Inl (NotScheduled (CapabilityUnavailable _ _ _)), jobID, st1) \<Rightarrow> (CreateRefused 409, st1)
             | (Inl _, jobID, st1) \<Rightarrow> (CreateRefused 500, st1)
             | (Inr sb, jobID, st1) \<Rightarrow> (CreateDone jobID sb, st1)))"

definition asyncCreate ::
  "create_env \<Rightarrow> config \<Rightarrow> admission \<Rightarrow> identity \<Rightarrow> create_request \<Rightarrow> string \<Rightarrow> control \<Rightarrow> control" where
  "asyncCreate env cfg admit ident req jobID st =
     (case runSandboxCreate env cfg admit ident req jobID (id_Name ident) st of
        (Inr _, _, st1) \<Rightarrow> st1
      | (Inl _, _, st1) \<Rightarrow>
          update_sandbox (cr_Name req) (\<lambda>sb. if sb_State sb = StatePending then sb\<lparr>sb_State := StateError\<rparr> else sb) st1)"

section \<open>Lemmas on the flow\<close>

lemma failBoth_sandboxes [simp]:
  "cp_sandboxes (failBoth env k req jobID msg st) n =
     (if n = cr_Name req then map_option (\<lambda>s. s\<lparr>sb_State := StateError\<rparr>) (cp_sandboxes st n) else cp_sandboxes st n)"
  by (simp add: failBoth_def Let_def)

lemma failBoth_job [simp]:
  "jobID \<noteq> [] \<Longrightarrow> map_option j_Status (js_jobs (cp_jobs (failBoth env k req jobID msg st)) jobID) =
     map_option (\<lambda>_. JobFailed) (js_jobs (cp_jobs st) jobID)"
  by (simp add: failBoth_def Let_def option.map_comp comp_def)

lemma finish_job_status [simp]: "j_Status (finish_job p sid ip j) = JobCompleted"
  by (simp add: finish_job_def Let_def)

lemma finish_sandbox_simps [simp]:
  "sb_State (finish_sandbox sid ip s) = StateRunning" "sb_PoderID (finish_sandbox sid ip s) = sb_PoderID s"
  "sb_Owner (finish_sandbox sid ip s) = sb_Owner s" "sb_Name (finish_sandbox sid ip s) = sb_Name s"
  "sb_Network (finish_sandbox sid ip s) = sb_Network s"
  by (simp_all add: finish_sandbox_def Let_def)

text \<open>How a delivery over a local tunnel can end.\<close>

lemma push_cases:
  assumes "pushCreateToPoder env t req jobID poderID fl st = (r, st')"
  obtains e msg where "r = Inl e" "e \<noteq> PoderTunnelElsewhere q" "st' = fl msg (ce_working env (emit (CreateSent t (cr_Name req)) st))"
  | sid ip where "r = Inr (cp_sandboxes st' (cr_Name req))"
      "st' = emit (Emitted ''sandbox.running'' (cr_Name req)) (update_sandbox (cr_Name req) (finish_sandbox sid ip)
        (update_job (ce_clock env 5) jobID (finish_job poderID sid ip) (ce_working env (emit (CreateSent t (cr_Name req)) st))))"
  using assms
  by (auto simp: pushCreateToPoder_def Let_def Sandbox_Get_def split: sum.splits prod.splits if_splits)

definition settled :: "create_failure + sandbox_info option \<Rightarrow> string \<Rightarrow> string \<Rightarrow> control \<Rightarrow> bool" where
  "settled r jobID n st \<longleftrightarrow>
     (case r of
        Inr _ \<Rightarrow> map_option j_Status (js_jobs (cp_jobs st) jobID) \<in> {None, Some JobCompleted} \<and>
          map_option sb_State (cp_sandboxes st n) \<in> {None, Some StateRunning}
      | Inl e \<Rightarrow> map_option j_Status (js_jobs (cp_jobs st) jobID) \<in> {None, Some JobFailed} \<and>
          ((\<exists>i. e = PoderTunnelElsewhere i) \<or> map_option sb_State (cp_sandboxes st n) \<in> {None, Some StateError}))"

lemma failBoth_settles: "jobID \<noteq> [] \<Longrightarrow> settled (Inl e) jobID (cr_Name req) (failBoth env k req jobID msg st)"
  by (auto simp: settled_def option.map_comp comp_def)

lemma push_settles:
  assumes "pushCreateToPoder env t req jobID poderID (failBoth env k req jobID) st = (r, st')" and "jobID \<noteq> []"
  shows "settled r jobID (cr_Name req) st'"
  using assms(1)
proof (cases rule: push_cases [where q = "[]"])
  case (1 e msg)
  then show ?thesis using failBoth_settles [OF assms(2)] by simp
next
  case (2 sid ip)
  then show ?thesis by (auto simp: settled_def option.map_comp comp_def)
qed

lemma deliver_settles:
  assumes "deliver_placed env cfg req jobID owner poderID st = (r, st')" and "jobID \<noteq> []" and "cfg_NodeURL cfg = []"
  shows "settled r jobID (cr_Name req) st'"
proof (cases "cp_tunnels st poderID")
  case None
  with assms show ?thesis
    by (auto simp: deliver_placed_def wantsPeerDelivery_def Tunnel_Get_def settled_def option.map_comp comp_def)
next
  case (Some t)
  with assms(1) have "pushCreateToPoder env t req jobID poderID (failBoth env 6 req jobID) st = (r, st')"
    by (simp add: deliver_placed_def Tunnel_Get_def)
  then show ?thesis using assms(2) by (rule push_settles)
qed

lemma run_settles:
  assumes "runSandboxCreate env cfg admit ident req jobID owner st = (r, j, st')" and "jobID \<noteq> []" and "cfg_NodeURL cfg = []"
  shows "settled r jobID (cr_Name req) st'"
proof -
  let ?req = "if id_Tenant ident \<noteq> [] then req\<lparr>cr_Workspace := id_Tenant ident\<rparr> else req"
  have n: "cr_Name ?req = cr_Name req" by simp
  note fails = failBoth_settles [OF assms(2), of _ ?req, unfolded n]
  show ?thesis
    using assms(1,2) fails deliver_settles [OF _ assms(2,3), of env ?req, unfolded n]
    by (auto simp: runSandboxCreate_def Let_def split: option.splits prod.splits sum.splits)
qed

text \<open>How a create that succeeded on a single instance went.\<close>

lemma run_success:
  assumes "runSandboxCreate env cfg admit ident req pre owner st = (Inr r, jobID, st')" and "cfg_NodeURL cfg = []"
  obtains rq job tn st2 t where
    "rq = (if id_Tenant ident \<noteq> [] then req\<lparr>cr_Workspace := id_Tenant ident\<rparr> else req)"
    "admit ident rq st = None"
    "ScheduleSandboxCreation (ce_getenv env) (ce_provider env) mem_select (ce_obs env) (ce_sched env) rq (cp_tenants st) = (Inr job, tn)"
    "cp_sandboxes st2 = cp_sandboxes (ce_scheduling env (st\<lparr>cp_tenants := tn\<rparr>))"
    "pushCreateToPoder env t rq jobID (j_PoderID job) (failBoth env 6 rq jobID)
       (record_intent env rq jobID (j_PoderID job) (place_record env rq jobID owner (j_PoderID job) st2)) = (Inr r, st')"
proof -
  define rq where "rq = (if id_Tenant ident \<noteq> [] then req\<lparr>cr_Workspace := id_Tenant ident\<rparr> else req)"
  have local: "\<exists>t. pushCreateToPoder env t rq j p (failBoth env 6 rq j) s = (Inr r, s')"
    if "deliver_placed env cfg rq j owner p s = (Inr r, s')" for j p s s'
    using that assms(2) by (auto simp: deliver_placed_def wantsPeerDelivery_def split: option.splits)
  have "admit ident rq st = None \<and> (\<exists>job tn st2.
      ScheduleSandboxCreation (ce_getenv env) (ce_provider env) mem_select (ce_obs env) (ce_sched env) rq (cp_tenants st) = (Inr job, tn) \<and>
      deliver_placed env cfg rq jobID owner (j_PoderID job)
       (record_intent env rq jobID (j_PoderID job) (place_record env rq jobID owner (j_PoderID job) st2)) = (Inr r, st') \<and>
      cp_sandboxes st2 = cp_sandboxes (ce_scheduling env (st\<lparr>cp_tenants := tn\<rparr>)))"
    using assms(1)
    by (auto simp: runSandboxCreate_def Let_def rq_def [symmetric] split: option.splits prod.splits sum.splits if_splits;
        intro exI conjI; (assumption | rule refl | simp))
  with local rq_def show ?thesis using that by metis
qed

lemma place_record_entry:
  "\<exists>sb. cp_sandboxes (record_intent env rq j p (place_record env rq j owner p st)) (cr_Name rq) = Some sb \<and>
     sb_PoderID sb = p \<and> (cr_Network rq \<noteq> None \<longrightarrow> sb_Network sb = cr_Network rq)"
  by (cases "cp_sandboxes st (cr_Name rq)")
    (auto simp: place_record_def record_intent_def Sandbox_Get_def Sandbox_Add_def split: option.splits)

text \<open>What the rest of the server does while a create waits may be asked to leave a job or a record there.\<close>

definition keeps_job :: "string \<Rightarrow> (control \<Rightarrow> control) \<Rightarrow> bool" where
  "keeps_job i f \<longleftrightarrow> (\<forall>s. js_jobs (cp_jobs s) i \<noteq> None \<longrightarrow> js_jobs (cp_jobs (f s)) i \<noteq> None)"

definition keeps_box :: "string \<Rightarrow> (control \<Rightarrow> control) \<Rightarrow> bool" where
  "keeps_box n f \<longleftrightarrow> (\<forall>s. cp_sandboxes s n \<noteq> None \<longrightarrow> cp_sandboxes (f s) n \<noteq> None)"

lemma failBoth_keeps_job [simp]: "js_jobs (cp_jobs (failBoth env k req jobID msg st)) i = None \<longleftrightarrow> js_jobs (cp_jobs st) i = None"
  by (simp add: failBoth_def Let_def)

lemma place_keeps_job [simp]:
  "js_jobs (cp_jobs (record_intent env req j p (place_record env req j owner p st))) i = None \<longleftrightarrow> js_jobs (cp_jobs st) i = None"
  by (auto simp: record_intent_def place_record_def Let_def split: option.splits prod.splits)

lemma placed_keeps_job:
  assumes "deliver_placed env cfg req jobID owner poderID st = (r, st')" and "cfg_NodeURL cfg = []"
    and keep: "keeps_job i (ce_working env)" and "js_jobs (cp_jobs st) i \<noteq> None"
  shows "js_jobs (cp_jobs st') i \<noteq> None"
proof (cases "cp_tunnels st poderID")
  case None
  with assms(1,2,4) show ?thesis by (auto simp: deliver_placed_def wantsPeerDelivery_def Tunnel_Get_def)
next
  case (Some t)
  with assms(1) have "pushCreateToPoder env t req jobID poderID (failBoth env 6 req jobID) st = (r, st')"
    by (simp add: deliver_placed_def Tunnel_Get_def)
  then show ?thesis
  proof (cases rule: push_cases [where q = "[]"])
    case (1 e msg)
    then show ?thesis using keep assms(4) by (simp add: keeps_job_def del: not_None_eq)
  next
    case (2 sid ip)
    have "js_jobs (cp_jobs (ce_working env (emit (CreateSent t (cr_Name req)) st))) i \<noteq> None"
      using keep assms(4) by (simp add: keeps_job_def del: not_None_eq)
    then show ?thesis unfolding 2(2) by (auto simp: fun_upd_def)
  qed
qed

lemma run_keeps_job:
  assumes "runSandboxCreate env cfg admit ident req jobID owner st = (r, j, st')" and "jobID \<noteq> []" and "cfg_NodeURL cfg = []"
    and "keeps_job i (ce_scheduling env)" and "keeps_job i (ce_working env)" and job: "js_jobs (cp_jobs st) i \<noteq> None"
  shows "js_jobs (cp_jobs st') i \<noteq> None"
proof -
  define rq where "rq = (if id_Tenant ident \<noteq> [] then req\<lparr>cr_Workspace := id_Tenant ident\<rparr> else req)"
  define has where "has s \<longleftrightarrow> js_jobs (cp_jobs s) i \<noteq> None" for s :: control
  have sched: "has (ce_scheduling env (st\<lparr>cp_tenants := tn\<rparr>))" for tn
    using assms(4) job by (simp add: keeps_job_def has_def)
  have fb: "has (failBoth env k rq j msg s) = has s" "has (update_job c j f s) = has s" for k j msg s c f
    by (auto simp: has_def)
  have deliver: "has s'" if "deliver_placed env cfg rq j owner p (record_intent env rq j p (place_record env rq j owner p s)) = (x, s')"
    "has s" for j p s x s'
    using placed_keeps_job [OF that(1) assms(3,5)] that(2) by (simp add: has_def)
  have st: "has st" using job by (simp add: has_def)
  note run = assms(1) [unfolded runSandboxCreate_def Let_def, folded rq_def]
  obtain res tn where sc: "ScheduleSandboxCreation (ce_getenv env) (ce_provider env) mem_select (ce_obs env) (ce_sched env) rq (cp_tenants st) = (res, tn)"
    by fastforce
  consider (region) pt region where "validateCreateRegion rq = Some (pt, region)" | (refused) e where "validateCreateRegion rq = None" "admit ident rq st = Some e"
    | (unplaced) e where "validateCreateRegion rq = None" "admit ident rq st = None" "res = Inl e"
    | (placed) sj where "validateCreateRegion rq = None" "admit ident rq st = None" "res = Inr sj"
    by (cases "validateCreateRegion rq"; cases "admit ident rq st"; cases res) auto
  then have "has st'"
  proof cases
    case placed
    let ?st2 = "update_job (ce_clock env 1) jobID (\<lambda>j. j\<lparr>j_Status := JobInProgress, j_PoderID := j_PoderID sj, j_PoderURL := j_PoderURL sj\<rparr>)
        (ce_scheduling env (st\<lparr>cp_tenants := tn\<rparr>))"
    obtain x s3 where d: "deliver_placed env cfg rq jobID owner (j_PoderID sj)
        (record_intent env rq jobID (j_PoderID sj) (place_record env rq jobID owner (j_PoderID sj) ?st2)) = (x, s3)" by fastforce
    with run assms(2) placed sc have "st' = s3" by simp
    with deliver [OF d] sched fb show ?thesis by simp
  qed (use run sc st fb sched in auto)
  then show ?thesis by (simp add: has_def)
qed

lemma run_success_box:
  assumes "runSandboxCreate env cfg admit ident req pre owner st = (Inr r, jobID, st')" and "cfg_NodeURL cfg = []"
    and "keeps_box (cr_Name req) (ce_working env)"
  shows "map_option sb_State (cp_sandboxes st' (cr_Name req)) = Some StateRunning"
proof -
  obtain rq job tn st2 t where rq: "rq = (if id_Tenant ident \<noteq> [] then req\<lparr>cr_Workspace := id_Tenant ident\<rparr> else req)"
    and "admit ident rq st = None"
    and "ScheduleSandboxCreation (ce_getenv env) (ce_provider env) mem_select (ce_obs env) (ce_sched env) rq (cp_tenants st) = (Inr job, tn)"
    and "cp_sandboxes st2 = cp_sandboxes (ce_scheduling env (st\<lparr>cp_tenants := tn\<rparr>))"
    and push: "pushCreateToPoder env t rq jobID (j_PoderID job) (failBoth env 6 rq jobID)
      (record_intent env rq jobID (j_PoderID job) (place_record env rq jobID owner (j_PoderID job) st2)) = (Inr r, st')"
    using assms(1,2) by (rule run_success)
  let ?st = "record_intent env rq jobID (j_PoderID job) (place_record env rq jobID owner (j_PoderID job) st2)"
  have n: "cr_Name rq = cr_Name req" by (simp add: rq)
  have "cp_sandboxes (ce_working env (emit (CreateSent t (cr_Name rq)) ?st)) (cr_Name req) \<noteq> None"
    using place_record_entry [of env rq jobID "j_PoderID job" owner st2] assms(3) n by (auto simp: keeps_box_def)
  with push n show ?thesis
    by (cases rule: push_cases [where q = "[]"]) auto
qed

section \<open>Properties of creating\<close>

text \<open>Claim C16. An asynchronous create settles: when its background work ends on a single instance, whatever the
  scheduler, the provider and the worker did and whatever the rest of the server did meanwhile short of dropping the
  job, the sandbox is not left pending and the job is completed or failed. A completed job goes with a running
  sandbox, unless the record was deleted while the worker worked.\<close>

theorem async_create_settles:
  assumes "jobID \<noteq> []" and "cfg_NodeURL cfg = []" and "js_jobs (cp_jobs st) jobID \<noteq> None"
    and "keeps_job jobID (ce_scheduling env)" and "keeps_job jobID (ce_working env)"
  shows "let st' = asyncCreate env cfg admit ident req jobID st;
             job = map_option j_Status (js_jobs (cp_jobs st') jobID);
             box = map_option sb_State (cp_sandboxes st' (cr_Name req))
         in box \<noteq> Some StatePending \<and> job \<in> {Some JobCompleted, Some JobFailed} \<and>
            (job = Some JobCompleted \<longrightarrow> box = Some StateRunning \<or> box = None \<and> \<not> keeps_box (cr_Name req) (ce_working env))"
proof -
  obtain r j st1 where run: "runSandboxCreate env cfg admit ident req jobID (id_Name ident) st = (r, j, st1)"
    by (cases "runSandboxCreate env cfg admit ident req jobID (id_Name ident) st") auto
  have job: "js_jobs (cp_jobs st1) jobID \<noteq> None" using run_keeps_job [OF run assms(1,2,4,5,3)] .
  show ?thesis
  proof (cases r)
    case (Inl e)
    with run_settles [OF run assms(1,2)] run job show ?thesis
      by (auto simp: asyncCreate_def settled_def Let_def dest: arg_cong [of _ _ sb_State])
  next
    case (Inr x)
    have "keeps_box (cr_Name req) (ce_working env) \<Longrightarrow> map_option sb_State (cp_sandboxes st1 (cr_Name req)) = Some StateRunning"
      using run_success_box [OF run [unfolded Inr] assms(2)] .
    with Inr run_settles [OF run assms(1,2)] run job show ?thesis
      by (auto simp: asyncCreate_def settled_def Let_def)
  qed
qed

definition worker_up :: "poder_store" where
  "worker_up = [''p1'' \<mapsto> (demo_poder_record ''p1'')\<lparr>po_ProviderType := ''local'', po_Workspace := ''t1'',
     po_Capabilities := [''egress''], po_Usage := \<lparr>pu_Containers = 0, pu_CPUUsage = 0, pu_MemoryUsage = 0\<rparr>\<rparr>]"

definition create_obs :: "(string list \<times> poder_store) observations" where
  "create_obs = (demo_ob worker_up)\<lparr>ob_first := ([''p1''], worker_up)\<rparr>"

definition demo_create_env :: create_env where
  "demo_create_env =
     \<lparr>ce_getenv = (\<lambda>_. []), ce_provider = demo_provider, ce_obs = create_obs, ce_sched = demo_sched,
      ce_clock = (\<lambda>k. int k), ce_text = (\<lambda>_. ''error''), ce_marshal = (\<lambda>_. ''{}''), ce_scheduling = (\<lambda>s. s), ce_working = (\<lambda>s. s),
      ce_worker = (\<lambda>_ _. Inr (201, ''ok'')), ce_fields = (\<lambda>_. (''c1'', ''10.0.0.2'')), ce_peer = (\<lambda>_ _ _. Inl ''no peer''),
      ce_peer_sandbox = (\<lambda>_. Inl ''no peer'')\<rparr>"

definition create_config :: config where
  "create_config = \<lparr>cfg_Token = ''secret'', cfg_Tokens = [], cfg_Registry = None, cfg_Keys = None, cfg_NodeURL = [], cfg_TokenStore = None\<rparr>"

definition local_create :: create_request where
  "local_create = demo_create\<lparr>cr_Name := ''new'', cr_ProviderType := ''local'', cr_Workspace := []\<rparr>"

definition user_identity :: identity where
  "user_identity = \<lparr>id_Name = ''ann'', id_Role = RoleUser, id_Tenant = ''t1''\<rparr>"

abbreviation admit_all :: admission where "admit_all \<equiv> (\<lambda>_ _ _. None)"

theorem async_create_settles_witness:
  "map_option sb_State (cp_sandboxes (asyncCreate demo_create_env create_config admit_all user_identity local_create ''j1''
     (demo_control\<lparr>cp_sandboxes := [''new'' \<mapsto> pending_record 1 ''j1'' local_create user_identity],
        cp_jobs := NewJobStore\<lparr>js_jobs := [''j1'' \<mapsto> demo_job ''j1'' 0]\<rparr>\<rparr>)) ''new'') \<noteq> Some StatePending"
proof -
  let ?st = "demo_control\<lparr>cp_sandboxes := [''new'' \<mapsto> pending_record 1 ''j1'' local_create user_identity],
      cp_jobs := NewJobStore\<lparr>js_jobs := [''j1'' \<mapsto> demo_job ''j1'' 0]\<rparr>\<rparr>"
  have c: "cfg_NodeURL create_config = []" "cr_Name local_create = ''new''" by (simp_all add: create_config_def local_create_def)
  have k: "keeps_job i (ce_scheduling demo_create_env)" "keeps_job i (ce_working demo_create_env)" for i
    by (simp_all add: keeps_job_def demo_create_env_def)
  have j: "''j1'' \<noteq> []" "js_jobs (cp_jobs ?st) ''j1'' \<noteq> None" by simp_all
  from async_create_settles [OF j(1) c(1) j(2) k, of admit_all user_identity local_create] show ?thesis
    unfolding Let_def c(2) by blast
qed

text \<open>A synchronous create can leave a sandbox nobody cleans up: when the worker chosen for it has lost its
  tunnel and no peer holds it, the caller gets an error, but the record written a moment before stays
  in the state pending. It takes its name and its place in the owner's quota until it is deleted by
  hand, because the idle reaper never takes a pending sandbox, however long it waits.\<close>

theorem sync_create_leaves_pending:
  assumes "runSandboxCreate env cfg admit ident req [] owner st = (Inl (PoderTunnelElsewhere i), jobID, st')"
    and "\<And>s. cp_sandboxes (ce_scheduling env s) = cp_sandboxes s" and "cp_sandboxes st (cr_Name req) = None"
  shows "\<exists>sb. cp_sandboxes st' (cr_Name req) = Some sb \<and> sb_State sb = StatePending \<and> sb_Owner sb = owner \<and>
     (\<forall>now ttl. \<not> shouldReapSandbox sb now ttl)"
proof -
  let ?req = "if id_Tenant ident \<noteq> [] then req\<lparr>cr_Workspace := id_Tenant ident\<rparr> else req"
  have delivered: "cp_sandboxes t' = cp_sandboxes s"
    if "deliver_placed env cfg ?req jid owner p s = (Inl (PoderTunnelElsewhere i), t')" for jid p s t'
    using that by (auto simp: deliver_placed_def pushCreateToPoder_def Let_def split: option.splits prod.splits sum.splits if_splits)
  from assms(1) obtain jid p st2 where
    d: "deliver_placed env cfg ?req jid owner p (record_intent env ?req jid p (place_record env ?req jid owner p st2))
      = (Inl (PoderTunnelElsewhere i), st')" and st2: "cp_sandboxes st2 = cp_sandboxes st"
    by (auto simp: runSandboxCreate_def Let_def assms(2) split: option.splits prod.splits sum.splits if_splits)
  have "cp_sandboxes (record_intent env r jid p s) = cp_sandboxes s" for r s by (simp add: record_intent_def)
  with delivered [OF d] have "cp_sandboxes st' = cp_sandboxes (place_record env ?req jid owner p st2)" by simp
  then show ?thesis using assms(3) st2
    by (auto simp: place_record_def Sandbox_Get_def Sandbox_Add_def shouldReapSandbox_def split: option.splits)
qed

theorem sync_create_leaves_pending_witness:
  "\<exists>sb. cp_sandboxes (snd (snd (runSandboxCreate demo_create_env create_config admit_all user_identity local_create [] ''ann''
      (demo_control\<lparr>cp_tunnels := NewTunnelStore\<rparr>)))) ''new'' = Some sb \<and> sb_State sb = StatePending"
proof -
  let ?run = "runSandboxCreate demo_create_env create_config admit_all user_identity local_create [] ''ann''
      (demo_control\<lparr>cp_tunnels := NewTunnelStore\<rparr>)"
  have "(case fst ?run of Inl (PoderTunnelElsewhere i) \<Rightarrow> i = ''p1'' | _ \<Rightarrow> False) = True" by code_simp
  then have "fst ?run = Inl (PoderTunnelElsewhere ''p1'')" by (simp split: sum.splits create_failure.splits)
  then have run: "?run = (Inl (PoderTunnelElsewhere ''p1''), fst (snd ?run), snd (snd ?run))" by (metis prod.collapse)
  have n: "cr_Name local_create = ''new''" by (simp add: local_create_def)
  have "\<And>s. cp_sandboxes (ce_scheduling demo_create_env s) = cp_sandboxes s" by (simp add: demo_create_env_def)
  moreover have "cp_sandboxes (demo_control\<lparr>cp_tunnels := NewTunnelStore\<rparr>) (cr_Name local_create) = None"
    by (simp add: n demo_control_def)
  ultimately show ?thesis using sync_create_leaves_pending [OF run] n by metis
qed

text \<open>A sandbox stays with its tenant: when a create by an identity of a tenant succeeds, the sandbox is
  recorded on a worker that was registered and online when the scheduler looked and that belongs to
  that tenant or to nobody; and if the request carries an egress policy, that worker can enforce it and
  the policy is the one on the record. (Others may change the record while the worker works, but not
  move it or change its policy.)\<close>

theorem create_stays_in_tenant:
  assumes "runSandboxCreate env cfg admit ident req pre owner st = (Inr (Some sb), jobID, st')" and "cfg_NodeURL cfg = []"
    and "id_Tenant ident \<noteq> []"
    and "\<And>s n. map_option (\<lambda>b. (sb_PoderID b, sb_Network b)) (cp_sandboxes (ce_working env s) n) =
           map_option (\<lambda>b. (sb_PoderID b, sb_Network b)) (cp_sandboxes s n)"
  shows "\<exists>p. sb_PoderID sb = po_ID p \<and> (\<exists>(ord, s) \<in> looks (ce_obs env). \<exists>i. s i = Some p) \<and> po_State p = PoderOnline \<and>
     (po_Workspace p = [] \<or> po_Workspace p = id_Tenant ident) \<and>
     (cr_Network req \<noteq> None \<longrightarrow> HasCapability p CapabilityEgress \<and> sb_Network sb = cr_Network req)"
proof -
  from run_success [OF assms(1,2)] obtain rq job tn st2 t where
    rq: "rq = (if id_Tenant ident \<noteq> [] then req\<lparr>cr_Workspace := id_Tenant ident\<rparr> else req)"
    and sched: "ScheduleSandboxCreation (ce_getenv env) (ce_provider env) mem_select (ce_obs env) (ce_sched env) rq (cp_tenants st) = (Inr job, tn)"
    and push: "pushCreateToPoder env t rq jobID (j_PoderID job) (failBoth env 6 rq jobID)
       (record_intent env rq jobID (j_PoderID job) (place_record env rq jobID owner (j_PoderID job) st2)) = (Inr (Some sb), st')"
    by metis
  let ?placed = "record_intent env rq jobID (j_PoderID job) (place_record env rq jobID owner (j_PoderID job) st2)"
  obtain sb0 where sb0: "cp_sandboxes ?placed (cr_Name rq) = Some sb0" "sb_PoderID sb0 = j_PoderID job"
    "cr_Network rq \<noteq> None \<longrightarrow> sb_Network sb0 = cr_Network rq" using place_record_entry by blast
  have w: "map_option (\<lambda>b. (sb_PoderID b, sb_Network b)) (cp_sandboxes (ce_working env (emit e ?placed)) (cr_Name rq))
      = Some (sb_PoderID sb0, sb_Network sb0)" for e by (simp add: assms(4) sb0(1))
  from push have sb: "sb_PoderID sb = j_PoderID job" "sb_Network sb = sb_Network sb0"
    using w [of "CreateSent t (cr_Name rq)"] sb0(2)
    by (cases rule: push_cases [where q = "[]"]; auto)+
  from schedule_job [of "ce_getenv env" "ce_provider env" mem_select "ce_obs env" "ce_sched env" rq "cp_tenants st" job] sched
  obtain p n obs where j: "job = new_job (ce_obs env) rq p" and obs: "range obs \<subseteq> looks (ce_obs env)"
    and poll: "memory_selector.poll n obs (cr_Region rq) (sched_provider rq) (capabilityRequirement rq) (cr_Workspace rq) = Some p"
    unfolding wait_is_poll by auto
  from memory_selector.poll_sound [OF poll] obtain i ord s where i: "obs i = (ord, s)" "p \<in> ran s"
    and e: "eligible (cr_Region rq) (sched_provider rq) (capabilityRequirement rq) (cr_Workspace rq) p" by auto
  have "(ord, s) \<in> looks (ce_obs env)" using obs i(1) by (metis rangeI subsetD)
  then have seen: "\<exists>(ord, s) \<in> looks (ce_obs env). \<exists>i. s i = Some p" using i(2) by (auto simp: ran_def)
  have f: "cr_Network rq = cr_Network req" "cr_Workspace rq = id_Tenant ident" using rq assms(3) by simp_all
  have "cr_Network req \<noteq> None \<longrightarrow> HasCapability p CapabilityEgress"
    using e f(1) by (auto simp: eligible_def capabilityRequirement_def)
  moreover have "po_Workspace p = [] \<or> po_Workspace p = id_Tenant ident" "po_State p = PoderOnline"
    using e f(2) assms(3) by (auto simp: eligible_def)
  moreover have "sb_PoderID sb = po_ID p" using sb(1) j by (simp add: new_job_def createJobForPoder_def)
  ultimately show ?thesis using seen sb(2) sb0(3) f(1) by metis
qed

theorem create_stays_in_tenant_witness:
  "\<exists>sb p. fst (runSandboxCreate demo_create_env create_config admit_all user_identity local_create [] ''ann'' demo_control) = Inr (Some sb) \<and>
     sb_PoderID sb = po_ID p \<and> po_Workspace p \<in> {[], ''t1''} \<and> HasCapability p CapabilityEgress"
proof -
  let ?run = "runSandboxCreate demo_create_env create_config admit_all user_identity local_create [] ''ann'' demo_control"
  have "(case fst ?run of Inr (Some sb) \<Rightarrow> True | _ \<Rightarrow> False) = True" by code_simp
  then obtain sb where "fst ?run = Inr (Some sb)" by (auto split: sum.splits option.splits)
  then have run: "?run = (Inr (Some sb), fst (snd ?run), snd (snd ?run))" by (metis prod.collapse)
  have a: "cfg_NodeURL create_config = []" "id_Tenant user_identity \<noteq> []" "id_Tenant user_identity = ''t1''" "cr_Network local_create \<noteq> None"
    "\<And>s. ce_working demo_create_env s = s"
    by (simp_all add: create_config_def user_identity_def local_create_def demo_create_def demo_create_env_def)
  show ?thesis using create_stays_in_tenant [OF run a(1,2)] a(3-5) \<open>fst ?run = Inr (Some sb)\<close> by auto
qed

section \<open>The quota\<close>

definition owned :: "string \<Rightarrow> sandbox_store \<Rightarrow> nat" where
  "owned owner sbs = card {n. \<exists>sb. sbs n = Some sb \<and> sb_Owner sb = owner}"

lemma length_filter_visit:
  assumes "distinct ord"
  shows "length (filter P (visit ord m)) = card {k \<in> set ord. \<exists>v. m k = Some v \<and> P v}"
  using assms
proof (induction ord)
  case (Cons k ord)
  have "{j \<in> set (k # ord). \<exists>v. m j = Some v \<and> P v} =
      (if \<exists>v. m k = Some v \<and> P v then insert k {j \<in> set ord. \<exists>v. m j = Some v \<and> P v}
       else {j \<in> set ord. \<exists>v. m j = Some v \<and> P v})" by auto
  with Cons show ?case by (cases "m k") (auto simp: visit_Cons)
qed (simp add: visit_def List.map_filter_def)

lemma quotaExceeded_owned:
  assumes "iteration_order ord sbs" and "0 < maxi"
  shows "quotaExceeded ord owner maxi sbs \<longleftrightarrow> maxi \<le> int (owned owner sbs)"
proof -
  have "{k \<in> set ord. \<exists>v. sbs k = Some v \<and> sb_Owner v = owner} = {n. \<exists>sb. sbs n = Some sb \<and> sb_Owner sb = owner}"
    using assms(1) by (auto simp: iteration_order_def)
  then show ?thesis using assms
    by (simp add: quotaExceeded_def Sandbox_List_def owned_def length_filter_visit iteration_order_def)
qed

lemma owned_insert_le:
  assumes "finite (dom sbs)" and "\<And>n sb. sbs' n = Some sb \<Longrightarrow> sb_Owner sb = owner \<Longrightarrow> n \<noteq> k \<Longrightarrow> \<exists>sb0. sbs n = Some sb0 \<and> sb_Owner sb0 = owner"
  shows "owned owner sbs' \<le> Suc (owned owner sbs)"
proof -
  let ?A = "{n. \<exists>sb. sbs n = Some sb \<and> sb_Owner sb = owner}"
  have fin: "finite ?A" using assms(1) by (rule rev_finite_subset) auto
  have "{n. \<exists>sb. sbs' n = Some sb \<and> sb_Owner sb = owner} \<subseteq> insert k ?A" using assms(2) by fastforce
  then have "owned owner sbs' \<le> card (insert k ?A)" unfolding owned_def by (intro card_mono) (use fin in auto)
  also have "\<dots> \<le> Suc (card ?A)" by (rule card_insert_le_m1) (use fin in auto)
  finally show ?thesis by (simp add: owned_def)
qed

lemma run_other_sandboxes:
  assumes "runSandboxCreate env cfg admit ident req pre owner st = (r, jobID, st')"
    and "\<And>s. cp_sandboxes (ce_scheduling env s) = cp_sandboxes s" and "\<And>s. cp_sandboxes (ce_working env s) = cp_sandboxes s"
    and "n \<noteq> cr_Name req"
  shows "cp_sandboxes st' n = cp_sandboxes st n"
proof -
  define rq where "rq = (if id_Tenant ident \<noteq> [] then req\<lparr>cr_Workspace := id_Tenant ident\<rparr> else req)"
  have n: "n \<noteq> cr_Name rq" using assms(4) by (simp add: rq_def)
  have push: "cp_sandboxes s' n = cp_sandboxes s n" if "pushCreateToPoder env t rq j p (failBoth env 6 rq j) s = (x, s')" for t j p s x s'
    using that n by (cases rule: push_cases [where q = "[]"]) (auto simp: assms(3))
  have deliver: "cp_sandboxes s' n = cp_sandboxes s n" if "deliver_placed env cfg rq j owner p s = (x, s')" for j p s x s'
    using that n push
    by (auto simp: deliver_placed_def deliverCreateToPeer_def Let_def assms(3) split: option.splits prod.splits sum.splits if_splits)
  have "cp_sandboxes (record_intent env rq j p (place_record env rq j owner p s)) n = cp_sandboxes s n" for j p s
    using n by (auto simp: record_intent_def place_record_def Sandbox_Add_def split: option.splits prod.splits)
  with assms(1) n deliver show ?thesis
    by (auto simp: runSandboxCreate_def Let_def rq_def [symmetric] assms(2) split: option.splits prod.splits sum.splits if_splits)
qed

text \<open>What the rest of the server does meanwhile gives a user no sandbox; it may delete and change any, and create those of others.\<close>

definition gives_none :: "string \<Rightarrow> (control \<Rightarrow> control) \<Rightarrow> bool" where
  "gives_none u f \<longleftrightarrow> (\<forall>s n sb. cp_sandboxes (f s) n = Some sb \<and> sb_Owner sb = u \<longrightarrow>
     (\<exists>sb0. cp_sandboxes s n = Some sb0 \<and> sb_Owner sb0 = u))"

lemma gives_noneD:
  "gives_none u f \<Longrightarrow> cp_sandboxes (f s) n = Some sb \<Longrightarrow> sb_Owner sb = u \<Longrightarrow> \<exists>sb0. cp_sandboxes s n = Some sb0 \<and> sb_Owner sb0 = u"
  by (auto simp: gives_none_def)

lemma run_owned_names:
  assumes "runSandboxCreate env cfg admit ident req pre owner st = (r, jobID, st')"
    and sch: "gives_none u (ce_scheduling env)" and wrk: "gives_none u (ce_working env)"
    and "n \<noteq> cr_Name req" and "cp_sandboxes st' n = Some sb" and "sb_Owner sb = u"
  shows "\<exists>sb0. cp_sandboxes st n = Some sb0 \<and> sb_Owner sb0 = u"
proof -
  define mine where "mine s \<longleftrightarrow> (\<exists>sb. cp_sandboxes s n = Some sb \<and> sb_Owner sb = u)" for s :: control
  have cong: "mine s = mine s'" if "cp_sandboxes s n = cp_sandboxes s' n" for s s' using that by (simp add: mine_def)
  have prev: "mine s" if "mine (ce_scheduling env s) \<or> mine (ce_working env s)" for s
    using that gives_noneD [OF sch] gives_noneD [OF wrk] unfolding mine_def by blast
  define rq where "rq = (if id_Tenant ident \<noteq> [] then req\<lparr>cr_Workspace := id_Tenant ident\<rparr> else req)"
  have n: "n \<noteq> cr_Name rq" using assms(4) by (simp add: rq_def)
  have fb: "mine (failBoth env k rq j msg s) = mine s" for k j msg s using n by (intro cong) simp
  have mids: "mine (emit e s) = mine s" "mine (update_job c j f s) = mine s" "mine (st\<lparr>cp_tenants := tn\<rparr>) = mine st" for e c j f s tn
    by (simp_all add: mine_def)
  have push: "mine s" if "pushCreateToPoder env t rq j p (failBoth env 6 rq j) s = (x, s')" "mine s'" for t j p s x s'
    using that(1)
  proof (cases rule: push_cases [where q = "[]"])
    case (1 e msg)
    with that(2) prev [of "emit (CreateSent t (cr_Name rq)) s"] show ?thesis by (simp add: fb mids)
  next
    case (2 sid ip)
    then have "mine s' = mine (ce_working env (emit (CreateSent t (cr_Name rq)) s))" using n by (intro cong) simp
    with that(2) prev [of "emit (CreateSent t (cr_Name rq)) s"] show ?thesis by (simp add: mids)
  qed
  have peer: "mine s" if "deliverCreateToPeer env q tok rq j owner p s = (x, s')" "mine s'" for q tok j p s x s'
    using that prev [of "emit (PeerAsked q (cr_Name rq)) s"]
    by (auto simp: deliverCreateToPeer_def Let_def mids split: sum.splits prod.splits if_splits)
  have deliver: "mine s" if "deliver_placed env cfg rq j owner p s = (x, s')" "mine s'" for j p s x s'
    using that push peer
    by (auto simp: deliver_placed_def fb mids split: option.splits prod.splits sum.splits if_splits)
  have place: "mine (record_intent env rq j p (place_record env rq j owner p s)) = mine s" for j p s
    using n by (intro cong) (auto simp: record_intent_def place_record_def Sandbox_Add_def split: option.splits prod.splits)
  have "mine st'" using assms(5,6) by (simp add: mine_def)
  have sched: "mine st" if "mine (ce_scheduling env (st\<lparr>cp_tenants := tn\<rparr>))" for tn
    using prev [of "st\<lparr>cp_tenants := tn\<rparr>"] that by (simp add: mids)
  have booked: "mine st" if "deliver_placed env cfg rq j owner p (record_intent env rq j p (place_record env rq j owner p s)) = (x, st')"
    "mine s = mine (ce_scheduling env (st\<lparr>cp_tenants := tn\<rparr>))" for j p s x tn
    using deliver [OF that(1) \<open>mine st'\<close>] place sched that(2) by blast
  have jobs: "mine (s\<lparr>cp_jobs := js\<rparr>) = mine s" for s js by (simp add: mine_def)
  have "mine st"
    using assms(1) \<open>mine st'\<close> sched
    by (auto simp: runSandboxCreate_def Let_def rq_def [symmetric] fb jobs mids split: option.splits prod.splits sum.splits if_splits
        dest!: booked)
  then show ?thesis by (simp add: mine_def)
qed

text \<open>Claim C27. The quota holds for synchronous creates: a user who owns at most the allowed number of sandboxes owns at
  most that number after any synchronous request, if nothing else gives the user a sandbox while the request waits
  for the scheduler and the worker. The count is read before the record is written, so two creates of
  the user at once can exceed it.\<close>

theorem quota_is_kept:
  assumes "postSandboxes env cfg (quotaAdmission ord maxi) ident (Some req) jid now st = (resp, st')"
    and "\<not> cr_Async req" and "\<not> IsAdmin ident" and "0 < maxi" and "iteration_order (ord (cp_sandboxes st)) (cp_sandboxes st)"
    and "gives_none (id_Name ident) (ce_scheduling env)" and "gives_none (id_Name ident) (ce_working env)"
    and "int (owned (id_Name ident) (cp_sandboxes st)) \<le> maxi"
  shows "int (owned (id_Name ident) (cp_sandboxes st')) \<le> maxi"
proof (cases "st' = st")
  case False
  define rq where "rq = (if cr_ProviderType req = [] then req\<lparr>cr_ProviderType := ''local''\<rparr> else req)"
  have fin: "finite (dom (cp_sandboxes st))" using assms(5) by (metis List.finite_set iteration_order_def)
  have "\<not> cr_Async rq" using assms(2) by (simp add: rq_def)
  with assms(1) False have ok: "checkCreate (quotaAdmission ord maxi) ident (Some req) st = Inr rq"
    by (auto simp: postSandboxes_def checkCreate_def Let_def rq_def split: sum.splits option.splits if_splits admit_error.splits)
  then obtain r j where run: "runSandboxCreate env cfg (quotaAdmission ord maxi) ident rq [] (id_Name ident) st = (r, j, st')"
    using assms(1) \<open>\<not> cr_Async rq\<close> by (auto simp: postSandboxes_def split: prod.splits sum.splits create_failure.splits sched_error.splits)
  have "quotaAdmission ord maxi ident rq st = None"
    using ok by (auto simp: checkCreate_def Let_def rq_def split: if_splits option.splits admit_error.splits)
  then have "int (owned (id_Name ident) (cp_sandboxes st)) < maxi"
    using assms(3,4) by (simp add: quotaAdmission_def quotaExceeded_owned [OF assms(5,4)] split: if_splits)
  moreover have "owned (id_Name ident) (cp_sandboxes st') \<le> Suc (owned (id_Name ident) (cp_sandboxes st))"
    using run_owned_names [OF run assms(6,7)] by (intro owned_insert_le [OF fin, of _ _ "cr_Name rq"]) blast
  ultimately show ?thesis by linarith
qed (use assms(8) in simp)

theorem quota_is_kept_witness:
  "int (owned ''ann'' (cp_sandboxes (snd (postSandboxes demo_create_env create_config (quotaAdmission (\<lambda>_. [''box'']) 1) user_identity
      (Some local_create) [] 0 demo_control)))) \<le> 1"
proof -
  let ?run = "postSandboxes demo_create_env create_config (quotaAdmission (\<lambda>_. [''box'']) 1) user_identity (Some local_create) [] 0 demo_control"
  have run: "?run = (fst ?run, snd ?run)" by simp
  have "\<not> cr_Async local_create" "\<not> IsAdmin user_identity" "id_Name user_identity = ''ann''"
    by (simp_all add: local_create_def demo_create_def user_identity_def IsAdmin_def RoleAdmin_def RoleUser_def)
  moreover have "gives_none u (ce_scheduling demo_create_env)" "gives_none u (ce_working demo_create_env)" for u
    by (simp_all add: gives_none_def demo_create_env_def)
  moreover have "{n. \<exists>sb. cp_sandboxes demo_control n = Some sb \<and> sb_Owner sb = ''ann''} = {}"
    by (auto simp: demo_control_def demo_sandbox_def)
  then have "owned ''ann'' (cp_sandboxes demo_control) = 0" unfolding owned_def by (simp only: card.empty)
  ultimately show ?thesis using quota_is_kept [OF run] demo_control_wf(1) by simp
qed

text \<open>An asynchronous create counts itself: the handler admits a user who owns one sandbox less than allowed
  and answers 202, but admission is asked again when the record of the new sandbox is already there, so
  the create is refused in the background and the sandbox ends in the error state. With a quota of
  one, a user can never create a sandbox asynchronously.\<close>

theorem async_quota_counts_itself:
  assumes "checkCreate (quotaAdmission ord maxi) ident body st = Inr req" and "\<not> IsAdmin ident"
    and "0 < maxi" and "int (owned (id_Name ident) (cp_sandboxes st)) = maxi - 1"
    and "cr_Async req" and "js_jobs (cp_jobs st) jid = None" and "jid \<noteq> []" and "finite (dom (cp_sandboxes st))"
    and "\<And>s. finite (dom s) \<Longrightarrow> iteration_order (ord s) s"
  shows "\<exists>st1. postSandboxes env cfg (quotaAdmission ord maxi) ident body jid now st = (CreateAccepted jid, st1) \<and>
     fst (runSandboxCreate env cfg (quotaAdmission ord maxi) ident req jid (id_Name ident) st1) = Inl (NotAdmitted ErrQuotaExceeded) \<and>
     map_option sb_State (cp_sandboxes (asyncCreate env cfg (quotaAdmission ord maxi) ident req jid st1) (cr_Name req)) = Some StateError"
proof -
  let ?q = "quotaAdmission ord maxi" and ?n = "cr_Name req" and ?me = "id_Name ident"
  have free: "cp_sandboxes st ?n = None" and region: "validateCreateRegion req = None"
    using assms(1)
    by (auto simp: checkCreate_def Let_def Sandbox_Get_def simp del: not_None_eq split: if_splits option.splits admit_error.splits)
  let ?rec = "pending_record now jid req ident"
  have rec: "sb_Name ?rec = ?n" "sb_Owner ?rec = ?me" by (simp_all add: pending_record_def)
  let ?sbs = "(cp_sandboxes st)(?n \<mapsto> ?rec)"
  obtain js where js: "AddJob (pending_job now now jid (ce_marshal env req) req ident) (cp_jobs st) = Some js"
    using assms(6) by (simp add: AddJob_def pending_job_def Let_def)
  define st1 where "st1 = st\<lparr>cp_jobs := js, cp_sandboxes := ?sbs\<rparr>"
  have post: "postSandboxes env cfg ?q ident body jid now st = (CreateAccepted jid, st1)"
    using assms(1,5) js free by (simp add: postSandboxes_def Sandbox_Add_def rec st1_def)
  have "{n. \<exists>sb. ?sbs n = Some sb \<and> sb_Owner sb = ?me} = insert ?n {n. \<exists>sb. cp_sandboxes st n = Some sb \<and> sb_Owner sb = ?me}"
    using free rec by auto
  moreover have "finite {n. \<exists>sb. cp_sandboxes st n = Some sb \<and> sb_Owner sb = ?me}"
    using assms(8) by (rule rev_finite_subset) auto
  ultimately have "owned ?me ?sbs = Suc (owned ?me (cp_sandboxes st))" using free by (simp add: owned_def)
  with assms(4) have "maxi \<le> int (owned ?me (cp_sandboxes st1))" by (simp add: st1_def)
  moreover have "iteration_order (ord (cp_sandboxes st1)) (cp_sandboxes st1)" using assms(8,9) by (simp add: st1_def)
  ultimately have refused: "?q ident r st1 = Some ErrQuotaExceeded" for r
    using assms(2,3) by (simp add: quotaAdmission_def quotaExceeded_owned)
  have "validateCreateRegion (req\<lparr>cr_Workspace := w\<rparr>) = None" for w
    using region by (simp add: validateCreateRegion_def split: if_splits)
  with region refused show ?thesis
    using post by (auto simp: runSandboxCreate_def asyncCreate_def Let_def st1_def)
qed

definition async_create_request :: create_request where
  "async_create_request = local_create\<lparr>cr_Async := True, cr_Network := None\<rparr>"

theorem async_quota_counts_itself_witness:
  "\<exists>ord. map_option sb_State (cp_sandboxes (asyncCreate demo_create_env create_config (quotaAdmission ord 1) user_identity
     async_create_request ''j9'' (snd (postSandboxes demo_create_env create_config (quotaAdmission ord 1) user_identity
       (Some async_create_request) ''j9'' 3 demo_control))) ''new'') = Some StateError"
proof -
  define ord :: "sandbox_store \<Rightarrow> string list" where "ord = (\<lambda>s. sorted_list_of_set (dom s))"
  have ord: "iteration_order (ord s) s" if "finite (dom s)" for s :: sandbox_store
    using that by (simp add: iteration_order_def ord_def)
  have none: "{n. \<exists>sb. cp_sandboxes demo_control n = Some sb \<and> sb_Owner sb = ''ann''} = {}"
    by (auto simp: demo_control_def demo_sandbox_def)
  have o: "owned ''ann'' (cp_sandboxes demo_control) = 0" unfolding owned_def none by (simp only: card.empty)
  have fin: "finite (dom (cp_sandboxes demo_control))" by (simp add: demo_control_def)
  have id: "id_Name user_identity = ''ann''" "\<not> IsAdmin user_identity"
    by (simp_all add: user_identity_def IsAdmin_def RoleAdmin_def RoleUser_def)
  have q: "\<not> quotaExceeded (ord (cp_sandboxes demo_control)) ''ann'' 1 (cp_sandboxes demo_control)"
    using quotaExceeded_owned [OF ord [OF fin], of 1 "''ann''"] o by simp
  have name: "validateSandboxName ''new'' = None" by code_simp
  have r: "cr_Name async_create_request = ''new''" "cr_ProviderType async_create_request = ''local''" "cr_Network async_create_request = None"
    "cr_Async async_create_request" by (simp_all add: async_create_request_def local_create_def)
  have "checkCreate (quotaAdmission ord 1) user_identity (Some async_create_request) demo_control = Inr async_create_request"
    using q id name r by (simp add: checkCreate_def Let_def validateEgressPolicy_def validateCreateRegion_def isCloudProviderName_def
        Sandbox_Get_def quotaAdmission_def) (simp add: demo_control_def)
  from async_quota_counts_itself [OF this id(2), of "''j9''" demo_create_env create_config 3] ord o id(1) fin r
  show ?thesis by (intro exI [of _ ord]) (auto simp: demo_control_def NewJobStore_def)
qed

section \<open>Names and decisions\<close>

text \<open>The per-connection decision is closed by default: it allows exactly when the sandbox is registered, has
  a policy, and that policy parses and allows the destination. Every other case, an unknown sandbox, no
  policy or one that no longer parses, denies with the code for "not allowed".\<close>

theorem decision_is_fail_closed:
  "(v_Allow (decideForSandbox sb host port) \<longleftrightarrow>
      (\<exists>s p c. sb = Some s \<and> sb_Network s = Some p \<and> Parse p = Inr c \<and> v_Allow (Decide c host port))) \<and>
   ((\<forall>s p. sb = Some s \<and> sb_Network s = Some p \<longrightarrow> validateEgressPolicy (Some p) \<noteq> None) \<longrightarrow>
      v_Code (decideForSandbox sb host port) = CodeNotAllowed)"
  by (cases sb)
    (auto simp: decideForSandbox_def zero_verdict_def validateEgressPolicy_def Let_def split: option.splits sum.splits)

theorem decision_is_fail_closed_witness:
  "v_Code (decideForSandbox None ''example.com'' 443) = CodeNotAllowed"
  using decision_is_fail_closed [of None] by simp

end
