(* ===== verification/Server_Resume.thy ===== *)
theory Server_Resume
  imports Server_Create
begin

text \<open>
  Finishing what a dead process left (\<^verbatim>\<open>src/pkg/server/resume.go\<close>): a pass over the jobs re-delivers creates
  whose delivery never completed, and \<^verbatim>\<open>failJobsFor\<close> of \<^verbatim>\<open>main.go\<close> keeps it from doing so for a sandbox that
  is being deleted. The repository is the one in memory, whose listing hands out the live records: a
  pass is a loop over the ids of the jobs, in the order of the listing, and reads each record when it
  gets there. The environment of a delivery is that of a create, one per job; \<open>dec\<close> is \<^verbatim>\<open>json.Unmarshal\<close> on
  the recorded payload.

  Shown here: a pass sends a create only for a pending create job that is stale, young enough and
  whose sandbox is absent or still on its way; afterwards no stale create is pending; a deleted sandbox
  is not created again; and a create that is still being scheduled after 45 seconds is failed by the
  pass.
\<close>

abbreviation resumeMaxAge :: duration where "resumeMaxAge \<equiv> 40 * minute"
abbreviation ResumeStaleAfter :: duration where "ResumeStaleAfter \<equiv> 45 * second"

section \<open>The pass\<close>

definition fail_job :: "gotime \<Rightarrow> string \<Rightarrow> string \<Rightarrow> control \<Rightarrow> control" where
  "fail_job t i msg = update_job t i (\<lambda>j. j\<lparr>j_Status := JobFailed, j_ErrorMessage := msg\<rparr>)"

definition complete_job :: "gotime \<Rightarrow> string \<Rightarrow> control \<Rightarrow> control" where
  "complete_job t i = update_job t i (\<lambda>j. j\<lparr>j_Status := JobCompleted, j_ErrorMessage := []\<rparr>)"

text \<open>\<open>True\<close> is the nil error.\<close>

definition deliverCreate :: "create_env \<Rightarrow> config \<Rightarrow> job \<Rightarrow> create_request \<Rightarrow> control \<Rightarrow> bool \<times> control" where
  "deliverCreate env cfg job req st =
     (case Tunnel_Get (j_PoderID job) (cp_tunnels st) of
        Some t \<Rightarrow>
          (case pushCreateToPoder env t req (j_ID job) (j_PoderID job) (fail_job (ce_clock env 6) (j_ID job)) st of
             (Inl _, st1) \<Rightarrow> (False, st1)
           | (Inr _, st1) \<Rightarrow> (True, st1))
      | None \<Rightarrow>
          (case wantsPeerDelivery cfg (cp_owners st) (j_PoderID job) of
             Some peer \<Rightarrow>
               (case deliverCreateToPeer env peer (cfg_Token cfg) req (j_ID job) (j_Owner job) (j_PoderID job) st of
                  (Inl _, st1) \<Rightarrow> (False, st1)
                | (Inr _, st1) \<Rightarrow> (True, st1))
           | None \<Rightarrow>
               (False, fail_job (ce_clock env 7) (j_ID job)
                  (''worker '' @ j_PoderID job @ '' is not connected to any control-plane instance'') st)))"

definition state_text :: "sandbox_state \<Rightarrow> string" where
  "state_text s = (case s of StatePending \<Rightarrow> ''PENDING'' | StateStarting \<Rightarrow> ''STARTING'' | StateRunning \<Rightarrow> ''RUNNING''
     | StateStopping \<Rightarrow> ''STOPPING'' | StateStopped \<Rightarrow> ''STOPPED'' | StateError \<Rightarrow> ''ERROR'' | StateTerminated \<Rightarrow> ''TERMINATED'')"

definition pending_to_error :: "sandbox_info \<Rightarrow> sandbox_info" where
  "pending_to_error sb = (if sb_State sb = StatePending then sb\<lparr>sb_State := StateError\<rparr> else sb)"

text \<open>The claim and what follows it.\<close>

definition claim_and_deliver :: "create_env \<Rightarrow> config \<Rightarrow> gotime \<Rightarrow> job \<Rightarrow> create_request \<Rightarrow> control \<Rightarrow> nat \<times> control" where
  "claim_and_deliver env cfg now job req st =
     (case ClaimJob (ce_clock env 0) (j_ID job) (j_UpdatedAt job) now (cp_jobs st) of
        (False, js) \<Rightarrow> (0, st\<lparr>cp_jobs := js\<rparr>)
      | (True, js) \<Rightarrow>
          (case deliverCreate env cfg job req (st\<lparr>cp_jobs := js\<rparr>) of
             (False, st1) \<Rightarrow> (0, st1)
           | (True, st1) \<Rightarrow> (1, complete_job (ce_clock env 8) (j_ID job) st1)))"

definition resume_job ::
  "create_env \<Rightarrow> config \<Rightarrow> (string \<Rightarrow> string + create_request) \<Rightarrow> gotime \<Rightarrow> job \<Rightarrow> control \<Rightarrow> nat \<times> control" where
  "resume_job env cfg dec now job st =
     (if j_Type job \<noteq> CreateSandbox then (0, st)
      else if j_Status job \<noteq> JobPending then (0, st)
      else if now - j_UpdatedAt job < ResumeStaleAfter then (0, st)
      else if j_Request job = [] then
        (0, update_sandbox (j_SandboxName job) pending_to_error
              (fail_job (ce_clock env 2) (j_ID job) ''delivery payload was not recorded; cannot resume'' st))
      else case dec (j_Request job) of
        Inl e \<Rightarrow> (0, fail_job (ce_clock env 2) (j_ID job) (''delivery payload is corrupt: '' @ e) st)
      | Inr req \<Rightarrow>
          if j_CreatedAt job \<noteq> 0 \<and> now - j_CreatedAt job > resumeMaxAge
          then (0, fail_job (ce_clock env 2) (j_ID job) ''delivery window passed; the create never landed and is not retried'' st)
          else case map_option sb_State (Sandbox_Get (j_SandboxName job) (cp_sandboxes st)) of
            Some StateRunning \<Rightarrow> (0, complete_job (ce_clock env 2) (j_ID job) st)
          | Some StateError \<Rightarrow> (0, fail_job (ce_clock env 2) (j_ID job) (''sandbox is '' @ state_text StateError @ ''; nothing to deliver'') st)
          | Some StateStopped \<Rightarrow> (0, fail_job (ce_clock env 2) (j_ID job) (''sandbox is '' @ state_text StateStopped @ ''; nothing to deliver'') st)
          | Some StateTerminated \<Rightarrow> (0, fail_job (ce_clock env 2) (j_ID job) (''sandbox is '' @ state_text StateTerminated @ ''; nothing to deliver'') st)
          | _ \<Rightarrow> claim_and_deliver env cfg now job req st)"

definition resume_step ::
  "(string \<Rightarrow> create_env) \<Rightarrow> config \<Rightarrow> (string \<Rightarrow> string + create_request) \<Rightarrow> gotime \<Rightarrow> string \<Rightarrow> nat \<times> control \<Rightarrow> nat \<times> control" where
  "resume_step envs cfg dec now i s =
     (case s of (delivered, st) \<Rightarrow>
        (case GetJob i (cp_jobs st) of
           None \<Rightarrow> (delivered, st)
         | Some job \<Rightarrow> (case resume_job (envs i) cfg dec now job st of (d, st1) \<Rightarrow> (delivered + d, st1))))"

definition resumeOnce ::
  "(string \<Rightarrow> create_env) \<Rightarrow> config \<Rightarrow> (string \<Rightarrow> string + create_request) \<Rightarrow> gotime \<Rightarrow> string list \<Rightarrow> control \<Rightarrow> nat \<times> control" where
  "resumeOnce envs cfg dec now ids st = fold (resume_step envs cfg dec now) ids (0, st)"

section \<open>Failing the jobs of a sandbox that is deleted\<close>

definition fail_pending_one :: "gotime \<Rightarrow> string \<Rightarrow> string \<Rightarrow> string \<Rightarrow> control \<Rightarrow> control" where
  "fail_pending_one t sandboxName reason i st =
     (case GetJob i (cp_jobs st) of
        None \<Rightarrow> st
      | Some j \<Rightarrow> if j_SandboxName j \<noteq> sandboxName \<or> j_Status j \<noteq> JobPending then st else fail_job t i reason st)"

definition failJobsFor :: "gotime \<Rightarrow> string list \<Rightarrow> string \<Rightarrow> string \<Rightarrow> control \<Rightarrow> control" where
  "failJobsFor t ids sandboxName reason st = fold (fail_pending_one t sandboxName reason) ids st"

section \<open>Lemmas\<close>

definition jobs_wf :: "job_store \<Rightarrow> bool" where
  "jobs_wf s \<longleftrightarrow> (\<forall>i j. js_jobs s i = Some j \<longrightarrow> j_ID j = i)"

text \<open>An environment in which nobody else touches jobs and sandboxes while a delivery is under way.\<close>

definition undisturbed :: "create_env \<Rightarrow> bool" where
  "undisturbed env \<longleftrightarrow> (\<forall>s. cp_jobs (ce_working env s) = cp_jobs s \<and> cp_sandboxes (ce_working env s) = cp_sandboxes s \<and>
     cp_effects (ce_working env s) = cp_effects s)"

lemma fail_job_frame [simp]:
  "cp_sandboxes (fail_job t i m st) = cp_sandboxes st" "cp_effects (fail_job t i m st) = cp_effects st"
  "cp_tunnels (fail_job t i m st) = cp_tunnels st" "cp_owners (fail_job t i m st) = cp_owners st"
  by (simp_all add: fail_job_def)

lemma fail_job_jobs [simp]:
  "js_jobs (cp_jobs (fail_job t i m st)) k =
     (if k = i then map_option (\<lambda>j. j\<lparr>j_Status := JobFailed, j_ErrorMessage := m, j_UpdatedAt := t\<rparr>) (js_jobs (cp_jobs st) k)
      else js_jobs (cp_jobs st) k)"
  by (simp add: fail_job_def)

lemma complete_job_frame [simp]:
  "cp_sandboxes (complete_job t i st) = cp_sandboxes st" "cp_effects (complete_job t i st) = cp_effects st"
  by (simp_all add: complete_job_def)

lemma complete_job_jobs [simp]:
  "js_jobs (cp_jobs (complete_job t i st)) k =
     (if k = i then map_option (\<lambda>j. j\<lparr>j_Status := JobCompleted, j_ErrorMessage := [], j_UpdatedAt := t\<rparr>) (js_jobs (cp_jobs st) k)
      else js_jobs (cp_jobs st) k)"
  by (simp add: complete_job_def)

lemma push_jobs:
  assumes "undisturbed env" and "\<And>m s k. k \<noteq> jid \<Longrightarrow> js_jobs (cp_jobs (fl m s)) k = js_jobs (cp_jobs s) k"
    and "pushCreateToPoder env t req jid p fl st = (r, st')" and "k \<noteq> jid"
  shows "js_jobs (cp_jobs st') k = js_jobs (cp_jobs st) k"
  using assms(3)
  by (cases rule: push_cases [where q = "[]"]) (use assms(1,2,4) in \<open>auto simp: undisturbed_def\<close>)

lemma deliver_other_jobs:
  assumes "undisturbed env" and "deliverCreate env cfg job req st = (ok, st')" and "k \<noteq> j_ID job"
  shows "js_jobs (cp_jobs st') k = js_jobs (cp_jobs st) k"
  using assms push_jobs [OF assms(1) _ _ assms(3), of "fail_job (ce_clock env 6) (j_ID job)"]
  by (auto simp: deliverCreate_def deliverCreateToPeer_def undisturbed_def Let_def
      split: option.splits prod.splits sum.splits if_splits)

text \<open>On a single instance a delivery that fails has failed its job.\<close>

lemma deliver_fails:
  assumes "undisturbed env" and "deliverCreate env cfg job req st = (False, st')" and "cfg_NodeURL cfg = []"
  shows "map_option j_Status (js_jobs (cp_jobs st') (j_ID job)) = map_option (\<lambda>_. JobFailed) (js_jobs (cp_jobs st) (j_ID job))"
  using assms
  by (auto simp: deliverCreate_def pushCreateToPoder_def wantsPeerDelivery_def undisturbed_def Let_def option.map_comp comp_def
      split: option.splits prod.splits sum.splits if_splits)

lemma deliver_keeps_job:
  assumes "undisturbed env" and "deliverCreate env cfg job req st = (ok, st')" and "js_jobs (cp_jobs st) (j_ID job) \<noteq> None"
  shows "js_jobs (cp_jobs st') (j_ID job) \<noteq> None"
  using assms
  by (auto simp: deliverCreate_def deliverCreateToPeer_def pushCreateToPoder_def undisturbed_def Let_def
      split: option.splits prod.splits sum.splits if_splits)

lemma claim_result:
  assumes "GetJob (j_ID job) (cp_jobs st) = Some job"
  shows "ClaimJob t (j_ID job) (j_UpdatedAt job) now (cp_jobs st) =
     (True, (cp_jobs st)\<lparr>js_jobs := (js_jobs (cp_jobs st))(j_ID job \<mapsto> job\<lparr>j_UpdatedAt := t\<rparr>)\<rparr>)"
  using assms by (simp add: ClaimJob_def claim_check_def claim_update_def UpdateJob_def GetJob_def)

definition stale :: "gotime \<Rightarrow> job \<Rightarrow> bool" where
  "stale now j \<longleftrightarrow> j_Type j = CreateSandbox \<and> j_Status j = JobPending \<and> ResumeStaleAfter \<le> now - j_UpdatedAt j"

text \<open>The states in which a create may still be delivered; \<open>None\<close> is a missing record.\<close>

definition undelivered :: "sandbox_state option \<Rightarrow> bool" where
  "undelivered s \<longleftrightarrow> s \<in> {None, Some StatePending, Some StateStarting, Some StateStopping}"

definition deliverable :: "(string \<Rightarrow> string + create_request) \<Rightarrow> gotime \<Rightarrow> job \<Rightarrow> create_request \<Rightarrow> control \<Rightarrow> bool" where
  "deliverable dec now job req st \<longleftrightarrow>
     stale now job \<and> dec (j_Request job) = Inr req \<and> (j_CreatedAt job = 0 \<or> now - j_CreatedAt job \<le> resumeMaxAge) \<and>
     undelivered (map_option sb_State (cp_sandboxes st (j_SandboxName job)))"

text \<open>The only way a pass changes the state of a sandbox.\<close>

definition came_up :: "control \<Rightarrow> control \<Rightarrow> bool" where
  "came_up st st' \<longleftrightarrow> (\<forall>n. map_option sb_State (cp_sandboxes st' n) = map_option sb_State (cp_sandboxes st n) \<or>
     map_option sb_State (cp_sandboxes st' n) \<in> {Some StateRunning, Some StateError})"

lemma came_up_same: "cp_sandboxes st' = cp_sandboxes st \<Longrightarrow> came_up st st'"
  by (simp add: came_up_def)

lemma came_up_pending_to_error: "cp_sandboxes s = cp_sandboxes st \<Longrightarrow> came_up st (update_sandbox n pending_to_error s)"
  by (cases "cp_sandboxes st n") (simp_all add: came_up_def pending_to_error_def)

lemma came_up_trans: "came_up st1 st2 \<Longrightarrow> came_up st2 st3 \<Longrightarrow> came_up st1 st3"
  unfolding came_up_def by metis

lemma undelivered_mono: "x' = x \<or> x' \<in> {Some StateRunning, Some StateError} \<Longrightarrow> undelivered x' \<Longrightarrow> undelivered x"
  by (auto simp: undelivered_def)

lemma came_up_undelivered:
  "came_up st st' \<Longrightarrow> undelivered (map_option sb_State (cp_sandboxes st' n)) \<Longrightarrow> undelivered (map_option sb_State (cp_sandboxes st n))"
  unfolding came_up_def by (erule allE [of _ n]) (rule undelivered_mono)

lemma resume_job_cases:
  assumes "resume_job env cfg dec now job st = (d, st')"
  obtains (skip) "\<not> stale now job" "st' = st" "d = 0"
  | (closed) f where "stale now job" "d = 0" "cp_effects st' = cp_effects st" "came_up st st'"
      "js_jobs (cp_jobs st') = (js_jobs (cp_jobs st))(j_ID job := map_option f (js_jobs (cp_jobs st) (j_ID job)))"
      "\<And>j. j_Status (f j) \<in> {JobCompleted, JobFailed}" "\<And>j. j_ID (f j) = j_ID j"
  | (send) req where "deliverable dec now job req st" "claim_and_deliver env cfg now job req st = (d, st')"
proof -
  define failed where "failed = (\<lambda>m (j :: job). j\<lparr>j_Status := JobFailed, j_ErrorMessage := m, j_UpdatedAt := ce_clock env 2\<rparr>)"
  define finished where "finished = (\<lambda>j :: job. j\<lparr>j_Status := JobCompleted, j_ErrorMessage := [], j_UpdatedAt := ce_clock env 2\<rparr>)"
  have f: "js_jobs (cp_jobs (fail_job (ce_clock env 2) i m s)) = (js_jobs (cp_jobs s))(i := map_option (failed m) (js_jobs (cp_jobs s) i))"
    and c: "js_jobs (cp_jobs (complete_job (ce_clock env 2) i s)) = (js_jobs (cp_jobs s))(i := map_option finished (js_jobs (cp_jobs s) i))"
    for i m s by (auto simp: failed_def finished_def)
  have ok: "j_Status (failed m j) = JobFailed" "j_ID (failed m j) = j_ID j"
    "j_Status (finished j) = JobCompleted" "j_ID (finished j) = j_ID j" for m j
    by (simp_all add: failed_def finished_def)
  consider "\<not> stale now job" | "stale now job" "j_Request job = []"
    | e where "stale now job" "j_Request job \<noteq> []" "dec (j_Request job) = Inl e"
    | req where "stale now job" "j_Request job \<noteq> []" "dec (j_Request job) = Inr req" "j_CreatedAt job \<noteq> 0 \<and> now - j_CreatedAt job > resumeMaxAge"
    | req where "stale now job" "j_Request job \<noteq> []" "dec (j_Request job) = Inr req" "\<not> (j_CreatedAt job \<noteq> 0 \<and> now - j_CreatedAt job > resumeMaxAge)"
    by (cases "dec (j_Request job)") auto
  then show thesis
  proof cases
    case 1
    with assms show thesis by (intro skip) (auto simp: resume_job_def stale_def split: if_splits)
  next
    case 2
    with assms have "d = 0" "st' = update_sandbox (j_SandboxName job) pending_to_error
        (fail_job (ce_clock env 2) (j_ID job) ''delivery payload was not recorded; cannot resume'' st)"
      by (simp_all add: resume_job_def stale_def)
    with 2 show thesis
      by (intro closed [where f = "failed ''delivery payload was not recorded; cannot resume''"]) (simp_all add: f ok came_up_pending_to_error)
  next
    case (3 e)
    with assms show thesis
      by (intro closed [where f = "failed (''delivery payload is corrupt: '' @ e)"]) (auto simp: resume_job_def stale_def f ok intro: came_up_same)
  next
    case (4 req)
    with assms show thesis
      by (intro closed [where f = "failed ''delivery window passed; the create never landed and is not retried''"])
        (auto simp: resume_job_def stale_def f ok intro: came_up_same)
  next
    case (5 req)
    define state where "state = map_option sb_State (cp_sandboxes st (j_SandboxName job))"
    from 5 assms have run: "(d, st') = (case state of
        Some StateRunning \<Rightarrow> (0, complete_job (ce_clock env 2) (j_ID job) st)
      | Some StateError \<Rightarrow> (0, fail_job (ce_clock env 2) (j_ID job) (''sandbox is '' @ state_text StateError @ ''; nothing to deliver'') st)
      | Some StateStopped \<Rightarrow> (0, fail_job (ce_clock env 2) (j_ID job) (''sandbox is '' @ state_text StateStopped @ ''; nothing to deliver'') st)
      | Some StateTerminated \<Rightarrow> (0, fail_job (ce_clock env 2) (j_ID job) (''sandbox is '' @ state_text StateTerminated @ ''; nothing to deliver'') st)
      | _ \<Rightarrow> claim_and_deliver env cfg now job req st)"
      by (auto simp: resume_job_def stale_def state_def Sandbox_Get_def)
    show thesis
    proof (cases "undelivered state")
      case True
      with run have "claim_and_deliver env cfg now job req st = (d, st')" by (auto simp: undelivered_def)
      moreover have "deliverable dec now job req st" using 5 True by (auto simp: deliverable_def state_def)
      ultimately show thesis by (rule send [rotated])
    next
      case False
      then consider "state = Some StateRunning" | "state = Some StateError" | "state = Some StateStopped" | "state = Some StateTerminated"
        by (cases state) (auto simp: undelivered_def, metis sandbox_state.exhaust)
      then obtain g where "d = 0" "js_jobs (cp_jobs st') = (js_jobs (cp_jobs st))(j_ID job := map_option g (js_jobs (cp_jobs st) (j_ID job)))"
        "cp_effects st' = cp_effects st" "cp_sandboxes st' = cp_sandboxes st" "g = finished \<or> (\<exists>m. g = failed m)"
        using run by cases (auto simp: f c)
      then show thesis using 5(1) by (intro closed [where f = g]) (auto simp: ok intro: came_up_same)
    qed
  qed
qed

lemma claim_others:
  assumes "undisturbed env" and "GetJob (j_ID job) (cp_jobs st) = Some job" and "claim_and_deliver env cfg now job req st = (d, st')"
    and "k \<noteq> j_ID job"
  shows "js_jobs (cp_jobs st') k = js_jobs (cp_jobs st) k"
  using assms(3,4) deliver_other_jobs [OF assms(1) _ assms(4)]
  by (auto simp: claim_and_deliver_def claim_result [OF assms(2)] split: prod.splits bool.splits)

lemma claim_settles:
  assumes "undisturbed env" and "GetJob (j_ID job) (cp_jobs st) = Some job" and "claim_and_deliver env cfg now job req st = (d, st')"
    and "cfg_NodeURL cfg = []"
  shows "map_option j_Status (js_jobs (cp_jobs st') (j_ID job)) \<in> {Some JobCompleted, Some JobFailed}"
proof -
  let ?st1 = "st\<lparr>cp_jobs := (cp_jobs st)\<lparr>js_jobs := (js_jobs (cp_jobs st))(j_ID job \<mapsto> job\<lparr>j_UpdatedAt := ce_clock env 0\<rparr>)\<rparr>\<rparr>"
  obtain ok st2 where d: "deliverCreate env cfg job req ?st1 = (ok, st2)" by fastforce
  show ?thesis
  proof (cases ok)
    case True
    then have "js_jobs (cp_jobs st2) (j_ID job) \<noteq> None" using deliver_keeps_job [OF assms(1) d] by simp
    with assms(3) d True show ?thesis by (auto simp: claim_and_deliver_def claim_result [OF assms(2)])
  next
    case False
    with d have "map_option j_Status (js_jobs (cp_jobs st2) (j_ID job)) = Some JobFailed"
      using deliver_fails [OF assms(1) _ assms(4)] by fastforce
    with assms(3) d False show ?thesis by (auto simp: claim_and_deliver_def claim_result [OF assms(2)])
  qed
qed

text \<open>One step of the pass, seen from the jobs.\<close>

lemma resume_step_jobs:
  assumes "undisturbed (envs i)" and "\<And>j. js_jobs (cp_jobs st) i = Some j \<Longrightarrow> j_ID j = i"
    and "resume_step envs cfg dec now i (d, st) = (d', st')" and "cfg_NodeURL cfg = []"
  shows "js_jobs (cp_jobs st') k =
      (if k = i then js_jobs (cp_jobs st') i else js_jobs (cp_jobs st) k)"
    and "\<forall>j. js_jobs (cp_jobs st') i = Some j \<longrightarrow> \<not> stale now j"
proof -
  have "(k \<noteq> i \<longrightarrow> js_jobs (cp_jobs st') k = js_jobs (cp_jobs st) k) \<and> (\<forall>j. js_jobs (cp_jobs st') i = Some j \<longrightarrow> \<not> stale now j)"
  proof (cases "js_jobs (cp_jobs st) i")
    case None
    with assms(3) show ?thesis by (auto simp: resume_step_def GetJob_def)
  next
    case (Some job)
    with assms(2) have i: "j_ID job = i" by simp
    obtain e where run: "resume_job (envs i) cfg dec now job st = (e, st')"
      using assms(3) Some by (auto simp: resume_step_def GetJob_def split: prod.splits)
    from Some i have get: "GetJob (j_ID job) (cp_jobs st) = Some job" by (simp add: GetJob_def)
    from run show ?thesis
    proof (cases rule: resume_job_cases)
      case skip
      with Some show ?thesis by simp
    next
      case (closed f)
      have "j_Status (f job) \<noteq> JobPending" using closed(6) [of job] by auto
      then show ?thesis using closed(5) Some i by (auto simp: stale_def)
    next
      case (send req)
      from claim_settles [OF assms(1) get send(2) assms(4)] claim_others [OF assms(1) get send(2)] i
      show ?thesis by (auto simp: stale_def)
    qed
  qed
  then show "js_jobs (cp_jobs st') k = (if k = i then js_jobs (cp_jobs st') i else js_jobs (cp_jobs st) k)"
    and "\<forall>j. js_jobs (cp_jobs st') i = Some j \<longrightarrow> \<not> stale now j" by auto
qed

lemma resume_loop_jobs:
  assumes "\<forall>i. undisturbed (envs i)" and "\<And>i j. i \<in> set ids \<Longrightarrow> js_jobs (cp_jobs st) i = Some j \<Longrightarrow> j_ID j = i"
    and "distinct ids" and "cfg_NodeURL cfg = []"
  shows "(\<forall>k. k \<notin> set ids \<longrightarrow> js_jobs (cp_jobs (snd (fold (resume_step envs cfg dec now) ids (d, st)))) k = js_jobs (cp_jobs st) k)
     \<and> (\<forall>i \<in> set ids. \<forall>j. js_jobs (cp_jobs (snd (fold (resume_step envs cfg dec now) ids (d, st)))) i = Some j \<longrightarrow> \<not> stale now j)"
  using assms(2,3)
proof (induction ids arbitrary: d st)
  case (Cons i ids)
  obtain d1 st1 where s: "resume_step envs cfg dec now i (d, st) = (d1, st1)" by fastforce
  have "\<And>j. js_jobs (cp_jobs st) i = Some j \<Longrightarrow> j_ID j = i" using Cons.prems(1) by simp
  from resume_step_jobs [OF _ this s assms(4)] assms(1)
  have step: "js_jobs (cp_jobs st1) k = (if k = i then js_jobs (cp_jobs st1) i else js_jobs (cp_jobs st) k)"
    "\<forall>j. js_jobs (cp_jobs st1) i = Some j \<longrightarrow> \<not> stale now j" for k by blast+
  have "k \<in> set ids \<Longrightarrow> js_jobs (cp_jobs st1) k = js_jobs (cp_jobs st) k" for k
    using step(1) [of k] Cons.prems(2) by auto
  then have "k \<in> set ids \<Longrightarrow> js_jobs (cp_jobs st1) k = Some j \<Longrightarrow> j_ID j = k" for k j
    using Cons.prems(1) [of k j] by simp
  from Cons.IH [of st1 d1, OF this] Cons.prems(2)
  have IH: "\<forall>k. k \<notin> set ids \<longrightarrow> js_jobs (cp_jobs (snd (fold (resume_step envs cfg dec now) ids (d1, st1)))) k = js_jobs (cp_jobs st1) k"
    "\<forall>i \<in> set ids. \<forall>j. js_jobs (cp_jobs (snd (fold (resume_step envs cfg dec now) ids (d1, st1)))) i = Some j \<longrightarrow> \<not> stale now j"
    by auto
  have i: "i \<notin> set ids" using Cons.prems(2) by simp
  show ?case
  proof (intro conjI)
    show "\<forall>k. k \<notin> set (i # ids) \<longrightarrow> js_jobs (cp_jobs (snd (fold (resume_step envs cfg dec now) (i # ids) (d, st)))) k = js_jobs (cp_jobs st) k"
      using IH(1) step(1) by (simp add: s)
    show "\<forall>a \<in> set (i # ids). \<forall>j. js_jobs (cp_jobs (snd (fold (resume_step envs cfg dec now) (i # ids) (d, st)))) a = Some j \<longrightarrow> \<not> stale now j"
      using IH i step(2) by (simp add: s)
  qed
qed simp

text \<open>What the pass makes of one job.\<close>

definition resumed :: "gotime \<Rightarrow> job option \<Rightarrow> job option \<Rightarrow> bool" where
  "resumed now before after \<longleftrightarrow>
     (case before of
        None \<Rightarrow> after = None
      | Some j \<Rightarrow> if stale now j then \<exists>j'. after = Some j' \<and> j_Status j' \<in> {JobCompleted, JobFailed} else after = Some j)"

lemma resume_step_resumed:
  assumes "undisturbed (envs i)" and "\<And>j. js_jobs (cp_jobs st) i = Some j \<Longrightarrow> j_ID j = i"
    and "resume_step envs cfg dec now i (d, st) = (d', st')" and "cfg_NodeURL cfg = []"
  shows "resumed now (js_jobs (cp_jobs st) i) (js_jobs (cp_jobs st') i)"
proof (cases "js_jobs (cp_jobs st) i")
  case None
  with assms(3) show ?thesis by (auto simp: resume_step_def GetJob_def resumed_def)
next
  case (Some job)
  with assms(2) have i: "j_ID job = i" by simp
  obtain e where run: "resume_job (envs i) cfg dec now job st = (e, st')"
    using assms(3) Some by (auto simp: resume_step_def GetJob_def split: prod.splits)
  from Some i have get: "GetJob (j_ID job) (cp_jobs st) = Some job" by (simp add: GetJob_def)
  from run show ?thesis
  proof (cases rule: resume_job_cases)
    case skip
    with Some show ?thesis by (simp add: resumed_def)
  next
    case (closed f)
    then show ?thesis using closed(5) closed(6) [of job] Some i by (simp add: resumed_def)
  next
    case (send req)
    from claim_settles [OF assms(1) get send(2) assms(4)] send(1) Some i show ?thesis
      by (auto simp: resumed_def deliverable_def)
  qed
qed

lemma resume_loop_resumed:
  assumes "\<forall>i. undisturbed (envs i)" and "\<And>i j. i \<in> set ids \<Longrightarrow> js_jobs (cp_jobs st) i = Some j \<Longrightarrow> j_ID j = i"
    and "distinct ids" and "cfg_NodeURL cfg = []" and "k \<in> set ids"
  shows "resumed now (js_jobs (cp_jobs st) k) (js_jobs (cp_jobs (snd (fold (resume_step envs cfg dec now) ids (d, st)))) k)"
  using assms(2,3,5)
proof (induction ids arbitrary: d st)
  case (Cons i ids)
  obtain d1 st1 where s: "resume_step envs cfg dec now i (d, st) = (d1, st1)" by fastforce
  have wf: "\<And>j. js_jobs (cp_jobs st) i = Some j \<Longrightarrow> j_ID j = i" using Cons.prems(1) by simp
  have und: "undisturbed (envs i)" using assms(1) by simp
  have same: "k \<in> set ids \<Longrightarrow> js_jobs (cp_jobs st1) k = js_jobs (cp_jobs st) k" for k
    using resume_step_jobs(1) [OF und wf s assms(4), of k] Cons.prems(2) by auto
  then have wf1: "k \<in> set ids \<Longrightarrow> js_jobs (cp_jobs st1) k = Some j \<Longrightarrow> j_ID j = k" for k j
    using Cons.prems(1) [of k j] by simp
  have ds: "distinct ids" "i \<notin> set ids" using Cons.prems(2) by simp_all
  show ?case
  proof (cases "k = i")
    case True
    with resume_loop_jobs [where st = st1 and d = d1 and dec = dec and now = now, OF assms(1) wf1 ds(1) assms(4)] ds(2)
    have "js_jobs (cp_jobs (snd (fold (resume_step envs cfg dec now) ids (d1, st1)))) i = js_jobs (cp_jobs st1) i" by blast
    with True resume_step_resumed [OF und wf s assms(4)] s show ?thesis by simp
  next
    case False
    then have "k \<in> set ids" using Cons.prems(3) by simp
    with Cons.IH [of st1 d1, OF wf1 ds(1)] same [of k] s show ?thesis by simp
  qed
qed simp

section \<open>Properties of the pass\<close>

text \<open>Claim C19. No create is forgotten: on a single instance, when nobody else touches jobs and sandboxes while the pass
  delivers, a pass leaves every create job that had been pending for longer than the in-flight budget completed or
  failed, and every other job exactly as it was. It does so whether the payload was never recorded, does not
  decode, is too old, the sandbox has come up or gone down meanwhile, or the worker accepts, refuses or is not connected.\<close>

theorem resume_leaves_none_stale:
  assumes "\<forall>i. undisturbed (envs i)" and "jobs_wf (cp_jobs st)" and "iteration_order ids (js_jobs (cp_jobs st))"
    and "cfg_NodeURL cfg = []"
  shows "let after = js_jobs (cp_jobs (snd (resumeOnce envs cfg dec now ids st))) i in
    case js_jobs (cp_jobs st) i of
      None \<Rightarrow> after = None
    | Some j \<Rightarrow>
        if j_Type j = CreateSandbox \<and> j_Status j = JobPending \<and> ResumeStaleAfter \<le> now - j_UpdatedAt j
        then \<exists>j'. after = Some j' \<and> j_Status j' \<in> {JobCompleted, JobFailed}
        else after = Some j"
proof -
  have wf: "\<And>i j. i \<in> set ids \<Longrightarrow> js_jobs (cp_jobs st) i = Some j \<Longrightarrow> j_ID j = i" using assms(2) by (simp add: jobs_wf_def)
  have ds: "distinct ids" using assms(3) by (simp add: iteration_order_def)
  show ?thesis
  proof (cases "i \<in> set ids")
    case True
    from resume_loop_resumed [where st = st and d = 0, OF assms(1) wf ds assms(4) True]
    show ?thesis unfolding resumeOnce_def resumed_def stale_def Let_def .
  next
    case False
    then have "js_jobs (cp_jobs st) i = None" using assms(3) by (auto simp: iteration_order_def)
    with False resume_loop_jobs [where st = st and d = 0, OF assms(1) wf ds assms(4)] show ?thesis
      by (simp add: resumeOnce_def)
  qed
qed

definition stuck_job :: job where
  "stuck_job = (pending_job 10 10 ''j1'' ''payload'' local_create user_identity)\<lparr>j_PoderID := ''p1''\<rparr>"

definition stuck_control :: control where
  "stuck_control = demo_control\<lparr>cp_jobs := NewJobStore\<lparr>js_jobs := [''j1'' \<mapsto> stuck_job], js_queue := [''j1'']\<rparr>,
     cp_sandboxes := [''new'' \<mapsto> pending_record 10 ''j1'' local_create user_identity]\<rparr>"

abbreviation demo_decode :: "string \<Rightarrow> string + create_request" where "demo_decode \<equiv> (\<lambda>_. Inr local_create)"

lemma stuck_wf:
  "\<forall>i :: string. undisturbed ((\<lambda>_. demo_create_env) i)" "jobs_wf (cp_jobs stuck_control)"
  "iteration_order [''j1''] (js_jobs (cp_jobs stuck_control))" "cfg_NodeURL create_config = []"
  by (auto simp: undisturbed_def demo_create_env_def jobs_wf_def stuck_control_def stuck_job_def pending_job_def iteration_order_def
      create_config_def split: if_splits)

theorem resume_leaves_none_stale_witness:
  "\<exists>j'. js_jobs (cp_jobs (snd (resumeOnce (\<lambda>_. demo_create_env) create_config demo_decode minute [''j1''] stuck_control))) ''j1'' = Some j' \<and>
     j_Status j' \<in> {JobCompleted, JobFailed}"
proof -
  have j: "js_jobs (cp_jobs stuck_control) ''j1'' = Some stuck_job" by (simp add: stuck_control_def)
  have s: "j_Type stuck_job = CreateSandbox \<and> j_Status stuck_job = JobPending \<and> ResumeStaleAfter \<le> minute - j_UpdatedAt stuck_job"
    by (simp add: stuck_job_def pending_job_def)
  from resume_leaves_none_stale [OF stuck_wf, of demo_decode minute "''j1''"] show ?thesis
    unfolding Let_def j option.case if_P [OF s] .
qed

text \<open>What a step sends, and how it can change the state of a sandbox.\<close>

definition is_delivery :: "string \<Rightarrow> effect \<Rightarrow> bool" where
  "is_delivery n e \<longleftrightarrow> (\<exists>t. e = CreateSent t n) \<or> (\<exists>peer. e = PeerAsked peer n)"

lemma push_effects:
  assumes "undisturbed env" and "pushCreateToPoder env t req jid p (fail_job k jid) st = (r, st')"
  shows "\<exists>es. cp_effects st' = cp_effects st @ CreateSent t (cr_Name req) # es \<and> (\<forall>n. \<forall>e \<in> set es. \<not> is_delivery n e)"
    and "came_up st st'"
proof -
  from assms(1) have w: "cp_effects (ce_working env s) = cp_effects s" "cp_sandboxes (ce_working env s) = cp_sandboxes s" for s
    by (simp_all add: undisturbed_def)
  from assms(2) show "\<exists>es. cp_effects st' = cp_effects st @ CreateSent t (cr_Name req) # es \<and> (\<forall>n. \<forall>e \<in> set es. \<not> is_delivery n e)"
    by (cases rule: push_cases [where q = "[]"]) (simp_all add: w is_delivery_def)
  from assms(2) show "came_up st st'"
  proof (cases rule: push_cases [where q = "[]"])
    case (1 e msg)
    then show ?thesis by (intro came_up_same) (simp add: w)
  next
    case (2 sid ip)
    then show ?thesis by (cases "cp_sandboxes st (cr_Name req)") (simp_all add: came_up_def w)
  qed
qed

lemma deliver_effects:
  assumes "undisturbed env" and "deliverCreate env cfg job req st = (ok, st')"
  shows "(\<exists>es. cp_effects st' = cp_effects st @ es \<and> (\<forall>n. \<forall>e \<in> set es. is_delivery n e \<longrightarrow> n = cr_Name req)) \<and> came_up st st'"
proof (cases "cp_tunnels st (j_PoderID job)")
  case (Some t)
  then obtain r where "pushCreateToPoder env t req (j_ID job) (j_PoderID job) (fail_job (ce_clock env 6) (j_ID job)) st = (r, st')"
    using assms(2) by (auto simp: deliverCreate_def Tunnel_Get_def split: prod.splits sum.splits)
  from push_effects [OF assms(1) this] show ?thesis by (auto simp: is_delivery_def)
next
  case None
  with assms have "cp_sandboxes st' = cp_sandboxes st"
    "cp_effects st' = cp_effects st \<or> (\<exists>peer. cp_effects st' = cp_effects st @ [PeerAsked peer (cr_Name req)])"
    by (auto simp: deliverCreate_def deliverCreateToPeer_def Tunnel_Get_def undisturbed_def Let_def
        split: option.splits prod.splits sum.splits if_splits)
  then show ?thesis by (auto simp: is_delivery_def intro: came_up_same)
qed

lemma claim_effects:
  assumes "undisturbed env" and "GetJob (j_ID job) (cp_jobs st) = Some job" and "claim_and_deliver env cfg now job req st = (d, st')"
  shows "(\<exists>es. cp_effects st' = cp_effects st @ es \<and> (\<forall>n. \<forall>e \<in> set es. is_delivery n e \<longrightarrow> n = cr_Name req)) \<and> came_up st st'"
proof -
  let ?st1 = "st\<lparr>cp_jobs := (cp_jobs st)\<lparr>js_jobs := (js_jobs (cp_jobs st))(j_ID job \<mapsto> job\<lparr>j_UpdatedAt := ce_clock env 0\<rparr>)\<rparr>\<rparr>"
  obtain ok st2 where d: "deliverCreate env cfg job req ?st1 = (ok, st2)" by fastforce
  have "cp_effects st' = cp_effects st2" "cp_sandboxes st' = cp_sandboxes st2"
    using assms(3) d by (auto simp: claim_and_deliver_def claim_result [OF assms(2)] split: bool.splits)
  with deliver_effects [OF assms(1) d] show ?thesis by (auto simp: came_up_def)
qed

lemma resume_step_effects:
  assumes "undisturbed (envs i)" and "\<And>j. js_jobs (cp_jobs st) i = Some j \<Longrightarrow> j_ID j = i"
    and "resume_step envs cfg dec now i (d, st) = (d', st')"
  shows "came_up st st' \<and> (\<exists>es. cp_effects st' = cp_effects st @ es \<and>
     (\<forall>n. \<forall>e \<in> set es. is_delivery n e \<longrightarrow>
        (\<exists>job req. js_jobs (cp_jobs st) i = Some job \<and> deliverable dec now job req st \<and> cr_Name req = n)))"
proof (cases "js_jobs (cp_jobs st) i")
  case None
  with assms(3) show ?thesis by (auto simp: resume_step_def GetJob_def intro: came_up_same)
next
  case (Some job)
  with assms(2) have get: "GetJob (j_ID job) (cp_jobs st) = Some job" by (simp add: GetJob_def)
  obtain e where run: "resume_job (envs i) cfg dec now job st = (e, st')"
    using assms(3) Some by (auto simp: resume_step_def GetJob_def split: prod.splits)
  from run show ?thesis
  proof (cases rule: resume_job_cases)
    case (send req)
    from claim_effects [OF assms(1) get send(2)] send(1) Some show ?thesis by blast
  qed (auto intro: came_up_same)
qed

lemma resume_loop_effects:
  assumes "\<forall>i. undisturbed (envs i)" and "\<And>i j. i \<in> set ids \<Longrightarrow> js_jobs (cp_jobs st) i = Some j \<Longrightarrow> j_ID j = i"
    and "distinct ids" and "cfg_NodeURL cfg = []"
  shows "\<exists>es. cp_effects (snd (fold (resume_step envs cfg dec now) ids (d, st))) = cp_effects st @ es \<and>
     (\<forall>n. \<forall>e \<in> set es. is_delivery n e \<longrightarrow>
        (\<exists>i job req. js_jobs (cp_jobs st) i = Some job \<and> deliverable dec now job req st \<and> cr_Name req = n))"
  using assms(2,3)
proof (induction ids arbitrary: d st)
  case (Cons i ids)
  obtain d1 st1 where s: "resume_step envs cfg dec now i (d, st) = (d1, st1)" by fastforce
  have wf: "\<And>j. js_jobs (cp_jobs st) i = Some j \<Longrightarrow> j_ID j = i" using Cons.prems(1) by simp
  have und: "undisturbed (envs i)" using assms(1) by simp
  note step = resume_step_jobs(1) [OF und wf s assms(4)]
  from resume_step_effects [OF und wf s] obtain es where up: "came_up st st1" and es: "cp_effects st1 = cp_effects st @ es"
    "\<forall>n. \<forall>e \<in> set es. is_delivery n e \<longrightarrow> (\<exists>job req. js_jobs (cp_jobs st) i = Some job \<and> deliverable dec now job req st \<and> cr_Name req = n)"
    by blast
  have later: "k \<in> set ids \<Longrightarrow> js_jobs (cp_jobs st1) k = js_jobs (cp_jobs st) k" for k
    using step [of k] Cons.prems(2) by auto
  then have "k \<in> set ids \<Longrightarrow> js_jobs (cp_jobs st1) k = Some j \<Longrightarrow> j_ID j = k" for k j
    using Cons.prems(1) [of k j] by simp
  from Cons.IH [of st1 d1, OF this] Cons.prems(2) obtain es1 where
    es1: "cp_effects (snd (fold (resume_step envs cfg dec now) ids (d1, st1))) = cp_effects st1 @ es1"
    "\<forall>n. \<forall>e \<in> set es1. is_delivery n e \<longrightarrow>
        (\<exists>i job req. js_jobs (cp_jobs st1) i = Some job \<and> deliverable dec now job req st1 \<and> cr_Name req = n)" by auto
  have earlier: "\<exists>i job req. js_jobs (cp_jobs st) i = Some job \<and> deliverable dec now job req st \<and> cr_Name req = n"
    if "js_jobs (cp_jobs st1) k = Some job" "deliverable dec now job req st1" "cr_Name req = n" for k job req n
  proof -
    have "\<not> (k = i)" using resume_step_jobs(2) [OF und wf s assms(4)] that(1,2) by (auto simp: deliverable_def)
    with step [of k] that(1) have "js_jobs (cp_jobs st) k = Some job" by simp
    moreover have "deliverable dec now job req st" using that(2) came_up_undelivered [OF up] by (auto simp: deliverable_def)
    ultimately show ?thesis using that(3) by blast
  qed
  have all: "\<forall>n. \<forall>e \<in> set (es @ es1). is_delivery n e \<longrightarrow>
        (\<exists>i job req. js_jobs (cp_jobs st) i = Some job \<and> deliverable dec now job req st \<and> cr_Name req = n)"
    using es(2) es1(2) earlier by (metis Un_iff set_append)
  have "cp_effects (snd (fold (resume_step envs cfg dec now) (i # ids) (d, st))) = cp_effects st @ (es @ es1)"
    using es(1) es1(1) by (simp add: s)
  with all show ?case by blast
qed simp

text \<open>A pass re-delivers only what was lost: when it sends a create for a sandbox, to a worker or to a peer,
  there was a create job for it that was pending, untouched for longer than the in-flight budget, not older
  than the delivery window and carrying that request, and the record of its sandbox was missing or still on
  its way up. In particular a create that completed is never sent again.\<close>

theorem resume_redelivers_only_lost:
  assumes "\<forall>i. undisturbed (envs i)" and "jobs_wf (cp_jobs st)" and "iteration_order ids (js_jobs (cp_jobs st))"
    and "cfg_NodeURL cfg = []"
    and "cp_effects (snd (resumeOnce envs cfg dec now ids st)) = cp_effects st @ new" and "CreateSent t n \<in> set new"
  shows "\<exists>i j req. js_jobs (cp_jobs st) i = Some j \<and> j_Type j = CreateSandbox \<and> j_Status j = JobPending \<and>
     45 * second \<le> now - j_UpdatedAt j \<and> (j_CreatedAt j = 0 \<or> now - j_CreatedAt j \<le> 40 * minute) \<and>
     dec (j_Request j) = Inr req \<and> cr_Name req = n \<and> undelivered (map_option sb_State (cp_sandboxes st (j_SandboxName j)))"
proof -
  have wf: "\<And>i j. i \<in> set ids \<Longrightarrow> js_jobs (cp_jobs st) i = Some j \<Longrightarrow> j_ID j = i" using assms(2) by (simp add: jobs_wf_def)
  have "distinct ids" using assms(3) by (simp add: iteration_order_def)
  from resume_loop_effects [where st = st and ids = ids and d = 0 and dec = dec and now = now, OF assms(1) wf this assms(4)] assms(5,6)
  have "is_delivery n (CreateSent t n) \<longrightarrow> (\<exists>i j req. js_jobs (cp_jobs st) i = Some j \<and> deliverable dec now j req st \<and> cr_Name req = n)"
    by (auto simp: resumeOnce_def)
  then obtain i j req where "js_jobs (cp_jobs st) i = Some j" "deliverable dec now j req st" "cr_Name req = n"
    by (auto simp: is_delivery_def)
  then show ?thesis unfolding deliverable_def stale_def by blast
qed

theorem resume_redelivers_only_lost_witness:
  "\<exists>i j. js_jobs (cp_jobs stuck_control) i = Some j \<and> j_Status j = JobPending \<and> 45 * second \<le> minute - j_UpdatedAt j"
proof -
  let ?run = "resumeOnce (\<lambda>_. demo_create_env) create_config demo_decode minute [''j1''] stuck_control"
  have "cp_effects (snd ?run) = cp_effects stuck_control @ [CreateSent 7 ''new'', Emitted ''sandbox.running'' ''new'']" by code_simp
  from resume_redelivers_only_lost [OF stuck_wf this, of 7 "''new''"] show ?thesis by auto
qed

section \<open>Deleted sandboxes and slow creates\<close>

definition failed_for :: "gotime \<Rightarrow> string \<Rightarrow> string \<Rightarrow> job \<Rightarrow> job" where
  "failed_for t n reason j =
     (if j_SandboxName j = n \<and> j_Status j = JobPending
      then j\<lparr>j_Status := JobFailed, j_ErrorMessage := reason, j_UpdatedAt := t\<rparr> else j)"

lemma fail_pending_one_jobs:
  "js_jobs (cp_jobs (fail_pending_one t n reason i st)) =
     (js_jobs (cp_jobs st))(i := map_option (failed_for t n reason) (js_jobs (cp_jobs st) i))"
  by (cases "js_jobs (cp_jobs st) i") (auto simp: fail_pending_one_def GetJob_def failed_for_def fun_eq_iff)

lemma failed_for_idem: "failed_for t n reason (failed_for t n reason j) = failed_for t n reason j"
  by (simp add: failed_for_def)

lemma failJobsFor_jobs:
  "js_jobs (cp_jobs (failJobsFor t ids n reason st)) k =
     (if k \<in> set ids then map_option (failed_for t n reason) (js_jobs (cp_jobs st) k) else js_jobs (cp_jobs st) k)"
  unfolding failJobsFor_def
  by (induction ids arbitrary: st) (auto simp: fail_pending_one_jobs option.map_comp comp_def failed_for_idem)

lemma failJobsFor_frame [simp]:
  "cp_sandboxes (failJobsFor t ids n reason st) = cp_sandboxes st" "cp_effects (failJobsFor t ids n reason st) = cp_effects st"
  "cp_tunnels (failJobsFor t ids n reason st) = cp_tunnels st" "cp_owners (failJobsFor t ids n reason st) = cp_owners st"
  unfolding failJobsFor_def
  by (rule fold_keeps; simp add: fail_pending_one_def fail_job_def split: option.split)+

lemma failJobsFor_not_pending:
  assumes "iteration_order ids (js_jobs (cp_jobs st))"
    and "js_jobs (cp_jobs (failJobsFor t ids n reason st)) i = Some j" and "j_SandboxName j = n"
  shows "j_Status j \<noteq> JobPending"
proof -
  have "i \<in> set ids"
    using assms(1,2) by (auto simp: failJobsFor_jobs iteration_order_def split: if_splits)
  with assms(2) obtain j0 where "j = failed_for t n reason j0" by (auto simp: failJobsFor_jobs)
  with assms(3) show ?thesis by (cases "j_SandboxName j0 = n \<and> j_Status j0 = JobPending") (simp_all add: failed_for_def)
qed

text \<open>A deleted sandbox is not created again: after its pending jobs were failed, as the delete handler does
  first, no later pass of the resumer sends a create under that name, as long as the payloads on the
  jobs are the requests they were written for and no new create is asked for.\<close>

theorem deleted_sandbox_is_not_resumed:
  assumes "\<forall>i. undisturbed (envs i)" and "iteration_order ids (js_jobs (cp_jobs st))" and "jobs_wf (cp_jobs st)"
    and "cfg_NodeURL cfg = []" and "st1 = failJobsFor t ids n reason st"
    and "\<And>i j req. js_jobs (cp_jobs st) i = Some j \<Longrightarrow> dec (j_Request j) = Inr req \<Longrightarrow> cr_Name req = j_SandboxName j"
    and "cp_effects (snd (resumeOnce envs cfg dec now ids st1)) = cp_effects st1 @ new"
  shows "CreateSent tn n \<notin> set new"
proof
  assume sent: "CreateSent tn n \<in> set new"
  have wf: "\<And>i j. i \<in> set ids \<Longrightarrow> js_jobs (cp_jobs st1) i = Some j \<Longrightarrow> j_ID j = i"
    using assms(3) by (auto simp: assms(5) failJobsFor_jobs jobs_wf_def failed_for_def split: if_splits)
  have "distinct ids" using assms(2) by (simp add: iteration_order_def)
  from resume_loop_effects [where st = st1 and ids = ids and d = 0 and dec = dec and now = now, OF assms(1) wf this assms(4)] assms(7) sent
  have "is_delivery n (CreateSent tn n) \<longrightarrow> (\<exists>i j req. js_jobs (cp_jobs st1) i = Some j \<and> deliverable dec now j req st1 \<and> cr_Name req = n)"
    by (auto simp: resumeOnce_def)
  then obtain i j req where j: "js_jobs (cp_jobs st1) i = Some j" and d: "deliverable dec now j req st1" "cr_Name req = n"
    by (auto simp: is_delivery_def)
  from j obtain j0 where j0: "js_jobs (cp_jobs st) i = Some j0" "j = j0 \<or> j = failed_for t n reason j0"
    by (auto simp: assms(5) failJobsFor_jobs split: if_splits)
  then have "j_Request j = j_Request j0" "j_SandboxName j = j_SandboxName j0" by (auto simp: failed_for_def)
  with d assms(6) [OF j0(1)] have "j_SandboxName j = n" by (simp add: deliverable_def)
  with failJobsFor_not_pending [OF assms(2)] j assms(5) have "j_Status j \<noteq> JobPending" by simp
  with d(1) show False by (simp add: deliverable_def stale_def)
qed

theorem deleted_sandbox_is_not_resumed_witness:
  "\<exists>new. cp_effects (snd (resumeOnce (\<lambda>_. demo_create_env) create_config demo_decode minute [''j1'']
        (failJobsFor 20 [''j1''] ''new'' ''deleted'' stuck_control))) = new \<and> CreateSent 7 ''new'' \<notin> set new"
proof -
  let ?st1 = "failJobsFor 20 [''j1''] ''new'' ''deleted'' stuck_control"
  let ?run = "resumeOnce (\<lambda>_. demo_create_env) create_config demo_decode minute [''j1''] ?st1"
  have e: "cp_effects ?st1 = []" by (simp add: stuck_control_def demo_control_def)
  have "\<And>i j req. js_jobs (cp_jobs stuck_control) i = Some j \<Longrightarrow> demo_decode (j_Request j) = Inr req \<Longrightarrow> cr_Name req = j_SandboxName j"
    by (auto simp: stuck_control_def stuck_job_def pending_job_def split: if_splits)
  from deleted_sandbox_is_not_resumed [where dec = demo_decode and st = stuck_control and new = "cp_effects (snd ?run)",
      OF stuck_wf(1,3,2,4) refl this] e show ?thesis by simp
qed

text \<open>A create that is merely slow is reported as failed: an asynchronous create whose worker is not chosen yet
  after 45 seconds, because a VM is being provisioned, has a job without a worker; the pass finds no
  tunnel for it and marks the job as failed, while the create goes on.\<close>

theorem slow_create_is_failed:
  assumes "j_ID job = i" and "js_jobs (cp_jobs st) i = Some job" and "stale now job" and "j_PoderID job = []"
    and "deliverable dec now job req st" and "j_Request job \<noteq> []" and "cp_tunnels st [] = None" and "cfg_NodeURL cfg = []"
  shows "map_option (\<lambda>j. (j_Status j, j_ErrorMessage j)) (js_jobs (cp_jobs (snd (resume_step envs cfg dec now i (0, st)))) i) =
     Some (JobFailed, ''worker  is not connected to any control-plane instance'')"
proof -
  have get: "GetJob (j_ID job) (cp_jobs st) = Some job" using assms(1,2) by (simp add: GetJob_def)
  have run: "resume_job (envs i) cfg dec now job st = claim_and_deliver (envs i) cfg now job req st"
    using assms(3,5,6)
    by (auto simp: resume_job_def stale_def deliverable_def undelivered_def Sandbox_Get_def split: option.splits)
  show ?thesis
    using get assms(1,4,7,8)
    by (simp add: resume_step_def run claim_and_deliver_def claim_result [OF get, unfolded assms(1)] deliverCreate_def Tunnel_Get_def
        wantsPeerDelivery_def)
qed

theorem slow_create_is_failed_witness:
  "map_option j_Status (js_jobs (cp_jobs (snd (resume_step (\<lambda>_. demo_create_env) create_config demo_decode minute ''j1''
     (0, stuck_control\<lparr>cp_jobs := NewJobStore\<lparr>js_jobs := [''j1'' \<mapsto> stuck_job\<lparr>j_PoderID := []\<rparr>]\<rparr>\<rparr>)))) ''j1'') = Some JobFailed"
proof -
  let ?st = "stuck_control\<lparr>cp_jobs := NewJobStore\<lparr>js_jobs := [''j1'' \<mapsto> stuck_job\<lparr>j_PoderID := []\<rparr>]\<rparr>\<rparr>"
  have "deliverable demo_decode minute (stuck_job\<lparr>j_PoderID := []\<rparr>) local_create ?st"
    by (simp add: deliverable_def stale_def undelivered_def stuck_job_def pending_job_def stuck_control_def pending_record_def local_create_def)
  from slow_create_is_failed [where i = "''j1''" and st = ?st and envs = "\<lambda>_. demo_create_env", OF _ _ _ _ this _ _ stuck_wf(4)]
  have "map_option (\<lambda>j. (j_Status j, j_ErrorMessage j)) (js_jobs (cp_jobs (snd (resume_step (\<lambda>_. demo_create_env) create_config demo_decode minute ''j1''
     (0, ?st)))) ''j1'') = Some (JobFailed, ''worker  is not connected to any control-plane instance'')"
    by (simp add: stale_def stuck_job_def pending_job_def stuck_control_def demo_control_def)
  then show ?thesis by auto
qed

end
