(* ===== verification/Server_Sandbox_API.thy ===== *)
theory Server_Sandbox_API
  imports Server_Resume
begin

text \<open>
  The handlers of one sandbox (\<^verbatim>\<open>src/pkg/server/main.go\<close>): finding the tunnel a request goes through, the
  routes under \<^verbatim>\<open>/api/v1/sandboxes/\<close> with the egress policy, start, stop and delete, and the decision end
  point. A request is a record of what the handlers read of it; a body is given decoded. What a
  worker answers to a proxied request is an argument (\<open>None\<close> is a transport error); the answer of a
  handler is an HTTP status, a hand-over to a peer instance, or a record or policy.

  Shown here: a request never reads or changes a sandbox of somebody else; one that was forwarded is not
  forwarded again; code reaches only running sandboxes; a sandbox in use is not reaped as idle if its lifetime is above the write interval of
  its activity, and can be if it is below; platform credentials do not reach a worker, except on the
  streaming route; two accepted names cannot be addressed.
\<close>

section \<open>Paths and headers\<close>

definition Trim_byte :: "char \<Rightarrow> string \<Rightarrow> string" where
  "Trim_byte c s = rev (dropWhile (\<lambda>x. x = c) (rev (dropWhile (\<lambda>x. x = c) s)))"

definition splitPath :: "string \<Rightarrow> string list" where
  "splitPath path = (if path = [] then [] else Split (Trim_byte (CHR ''/'') path) (CHR ''/''))"

definition toolboxSubPath :: "string \<Rightarrow> string \<Rightarrow> string" where
  "toolboxSubPath fullPath sandboxName =
     (let pre = ''/api/v1/sandboxes/'' @ sandboxName @ ''/toolbox/'';
          sub1 = TrimPrefix fullPath pre;
          sub = (if sub1 = fullPath then TrimPrefix fullPath (''/api/v1/sandboxes/'' @ sandboxName @ ''/toolbox'') else sub1)
      in if sub = [] \<or> sub = fullPath then ''files'' else sub)"

type_synonym headers = "(string \<times> string list) list"

definition copyProxyHeaders :: "headers \<Rightarrow> bool \<Rightarrow> headers" where
  "copyProxyHeaders src keepAuthorization =
     filter (\<lambda>(k, _). k \<noteq> ''Host'' \<and> k \<noteq> ''X-Sandrpod-Token'' \<and> (k = ''Authorization'' \<longrightarrow> keepAuthorization)) src"

text \<open>The loop of the streaming route.\<close>

definition streamHeaders :: "headers \<Rightarrow> headers" where
  "streamHeaders src = filter (\<lambda>(k, _). k \<noteq> ''Host'') src"

section \<open>Finding the tunnel\<close>

abbreviation activityPersistEvery :: duration where "activityPersistEvery \<equiv> 30 * second"

definition shouldPersistActivity :: "string \<Rightarrow> gotime \<Rightarrow> (string \<Rightarrow> gotime option) \<Rightarrow> bool \<times> (string \<Rightarrow> gotime option)" where
  "shouldPersistActivity name now seen =
     (case seen name of
        Some prev \<Rightarrow> if now - prev < activityPersistEvery then (False, seen) else (True, seen(name \<mapsto> now))
      | None \<Rightarrow> (True, seen(name \<mapsto> now)))"

datatype api_answer = Status int | Forwarded string | Record sandbox_info | PolicyOf "policy option" | Deciding verdict
  | Listing "sandbox_info list" | Terminal nat string | NoUpgrade | SocketMessage string

text \<open>\<open>Inr\<close> is the record and the tunnel. The record handed out is the live one: in memory it is the one the
  activity write has just changed.\<close>

definition sandboxPoderTunnel ::
  "string \<Rightarrow> gotime \<Rightarrow> bool \<Rightarrow> string \<Rightarrow> control \<Rightarrow> (api_answer + sandbox_info \<times> nat) \<times> control" where
  "sandboxPoderTunnel nodeURL now forwarded name st =
     (case Sandbox_Get name (cp_sandboxes st) of
        None \<Rightarrow> (Inl (Status 404), st)
      | Some sb0 \<Rightarrow>
          (case shouldPersistActivity name now (cp_activity st) of (persist, seen) \<Rightarrow>
             let st1 = st\<lparr>cp_activity := seen\<rparr>;
                 st2 = (if persist then update_sandbox name (\<lambda>s. s\<lparr>sb_LastActivity := now\<rparr>) st1 else st1);
                 sb = (if persist then sb0\<lparr>sb_LastActivity := now\<rparr> else sb0);
                 direct = HasPrefix (sb_ProxyURL sb) ''direct://'';
                 key = (if direct then name else sb_PoderID sb);
                 local_store = (if direct then cp_direct st2 else cp_tunnels st2)
             in case Tunnel_Get key local_store of
                  Some t \<Rightarrow> (Inr (sb, t), st2)
                | None \<Rightarrow>
                    (case (if nodeURL \<noteq> [] \<and> \<not> forwarded then NodeFor key (cp_owners st2) else None) of
                       Some owner \<Rightarrow> if owner \<noteq> nodeURL then (Inl (Forwarded owner), st2) else (Inl (Status 503), st2)
                     | None \<Rightarrow> (Inl (Status 503), st2))))"

definition sandboxTunnel ::
  "string \<Rightarrow> gotime \<Rightarrow> bool \<Rightarrow> string \<Rightarrow> control \<Rightarrow> (api_answer + sandbox_info \<times> nat) \<times> control" where
  "sandboxTunnel nodeURL now forwarded name st =
     (case sandboxPoderTunnel nodeURL now forwarded name st of
        (Inl a, st1) \<Rightarrow> (Inl a, st1)
      | (Inr (sb, t), st1) \<Rightarrow> if sb_State sb \<noteq> StateRunning then (Inl (Status 409), st1) else (Inr (sb, t), st1))"

section \<open>A request\<close>

record api_request =
  ar_Method :: string
  ar_Path :: string
  ar_RawQuery :: string
  ar_Sandbox :: string
  ar_Admin :: bool
  ar_Tail :: string
  ar_Forwarded :: bool
  ar_Policy :: "policy option"

text \<open>What lies outside: \<open>ae_worker t method url\<close> is the status a worker answers with, \<open>ae_upgrade\<close> whether the
  client completes the WebSocket upgrade, \<open>ae_ptySession t\<close> the session id in an agent's answer to the creation
  of a terminal (\<open>None\<close>: no answer, another status than 200, or an answer without an id), \<open>ae_wsDial\<close> whether a
  WebSocket opens through a tunnel.\<close>

record api_env =
  ae_node :: string
  ae_now :: gotime
  ae_worker :: "nat \<Rightarrow> string \<Rightarrow> string \<Rightarrow> int option"
  ae_jobs :: "string list"
  ae_encode :: "string \<Rightarrow> string \<Rightarrow> string"
  ae_upgrade :: bool
  ae_ptySession :: "nat \<Rightarrow> string option"
  ae_wsDial :: "nat \<Rightarrow> string \<Rightarrow> bool"

definition with_query :: "string \<Rightarrow> string \<Rightarrow> string" where
  "with_query url raw = (if raw \<noteq> [] then url @ ''?'' @ raw else url)"

text \<open>\<^verbatim>\<open>proxyHTTP\<close> and \<^verbatim>\<open>proxyHTTPStreaming\<close>: the worker's status, or 502.\<close>

definition proxyHTTP :: "api_env \<Rightarrow> nat \<Rightarrow> string \<Rightarrow> string \<Rightarrow> control \<Rightarrow> api_answer \<times> control" where
  "proxyHTTP e t meth url st =
     (Status (case ae_worker e t meth url of Some s \<Rightarrow> s | None \<Rightarrow> 502), emit (WorkerRequest t meth url) st)"

text \<open>\<^verbatim>\<open>proxyHTTPErr\<close>: \<open>False\<close> is an error.\<close>

definition proxyHTTPErr :: "api_env \<Rightarrow> nat \<Rightarrow> string \<Rightarrow> string \<Rightarrow> control \<Rightarrow> (bool \<times> api_answer) \<times> control" where
  "proxyHTTPErr e t meth url st =
     (case ae_worker e t meth url of
        None \<Rightarrow> ((False, Status 502), emit (WorkerRequest t meth url) st)
      | Some s \<Rightarrow> ((s < 400, Status s), emit (WorkerRequest t meth url) st))"

text \<open>The common form of a proxied route: resolve the tunnel, then proxy to a URL.\<close>

definition via_running :: "api_env \<Rightarrow> api_request \<Rightarrow> string \<Rightarrow> (sandbox_info \<Rightarrow> string) \<Rightarrow> control \<Rightarrow> api_answer \<times> control" where
  "via_running e r name url st =
     (case sandboxTunnel (ae_node e) (ae_now e) (ar_Forwarded r) name st of
        (Inl a, st1) \<Rightarrow> (a, st1)
      | (Inr (sb, t), st1) \<Rightarrow> proxyHTTP e t (ar_Method r) (url sb) st1)"

definition via_worker :: "api_env \<Rightarrow> api_request \<Rightarrow> string \<Rightarrow> string \<Rightarrow> control \<Rightarrow> api_answer \<times> control" where
  "via_worker e r name url st =
     (case sandboxPoderTunnel (ae_node e) (ae_now e) (ar_Forwarded r) name st of
        (Inl a, st1) \<Rightarrow> (a, st1)
      | (Inr (sb, t), st1) \<Rightarrow> proxyHTTP e t (ar_Method r) url st1)"

section \<open>The egress policy of a sandbox\<close>

definition egressHandler :: "api_env \<Rightarrow> api_request \<Rightarrow> string \<Rightarrow> control \<Rightarrow> api_answer \<times> control" where
  "egressHandler e r name st =
     (case Sandbox_Get name (cp_sandboxes st) of
        None \<Rightarrow> (Status 404, st)
      | Some sb \<Rightarrow>
          if ar_Method r = ''GET'' then (PolicyOf (sb_Network sb), st)
          else if ar_Method r = ''PUT'' \<or> ar_Method r = ''POST'' then
            (case ar_Policy r of
               None \<Rightarrow> (Status 400, st)
             | Some p \<Rightarrow>
                 if validateEgressPolicy (Some p) \<noteq> None then (Status 400, st)
                 else (PolicyOf (Some p), emit (Emitted ''sandbox.egress.updated'' name)
                        (update_sandbox name (\<lambda>s. s\<lparr>sb_Network := Some p, sb_LastActivity := ae_now e\<rparr>) st)))
          else if ar_Method r = ''DELETE'' then
            (PolicyOf None, emit (Emitted ''sandbox.egress.cleared'' name)
               (update_sandbox name (\<lambda>s. s\<lparr>sb_Network := None, sb_LastActivity := ae_now e\<rparr>) st))
          else (Status 405, st))"

section \<open>Start, stop and delete\<close>

definition set_state :: "sandbox_state \<Rightarrow> string \<Rightarrow> control \<Rightarrow> control" where
  "set_state s name = update_sandbox name (\<lambda>b. b\<lparr>sb_State := s\<rparr>)"

text \<open>Start and stop have the same shape: \<open>during\<close> while the worker works, \<open>after\<close> when it has succeeded.\<close>

definition change_state ::
  "api_env \<Rightarrow> api_request \<Rightarrow> string \<Rightarrow> string \<Rightarrow> sandbox_state \<Rightarrow> sandbox_state \<Rightarrow> control \<Rightarrow> api_answer \<times> control" where
  "change_state e r name verb during after st =
     (case sandboxPoderTunnel (ae_node e) (ae_now e) (ar_Forwarded r) name st of
        (Inl a, st1) \<Rightarrow> (a, st1)
      | (Inr (sb, t), st1) \<Rightarrow>
          if HasPrefix (sb_ProxyURL sb) ''direct://'' then (Status 200, set_state after name st1)
          else (case proxyHTTPErr e t (ar_Method r) (''http://poder/sandboxes/'' @ name @ ''/'' @ verb) (set_state during name st1) of
                  ((False, a), st2) \<Rightarrow> (a, set_state StateError name st2)
                | ((True, a), st2) \<Rightarrow> (a, set_state after name st2)))"

definition startSandbox where "startSandbox e r name = change_state e r name ''start'' StateStarting StateRunning"
definition stopSandbox where "stopSandbox e r name = change_state e r name ''stop'' StateStopping StateStopped"

definition close_direct :: "string \<Rightarrow> control \<Rightarrow> control" where
  "close_direct name st = (case Tunnel_Get name (cp_direct st) of None \<Rightarrow> st | Some t \<Rightarrow> closeTunnel t st)"

definition deleted_reason :: string where
  "deleted_reason = ''sandbox was deleted before its delivery completed''"

definition deleteSandbox :: "api_env \<Rightarrow> string \<Rightarrow> control \<Rightarrow> api_answer \<times> control" where
  "deleteSandbox e name st =
     (case Sandbox_Get name (cp_sandboxes st) of
        None \<Rightarrow> (Status 404, st)
      | Some sb \<Rightarrow>
          if HasPrefix (sb_ProxyURL sb) ''direct://'' then
            let st1 = failJobsFor (ae_now e) (ae_jobs e) name deleted_reason st;
                st2 = st1\<lparr>cp_sandboxTombstones := Tombstones_Add (ae_now e) name (cp_sandboxTombstones st1)\<rparr>;
                st3 = close_direct name st2;
                st4 = (if ae_node e \<noteq> [] then st3\<lparr>cp_owners := Release name (ae_node e) (cp_owners st3)\<rparr> else st3);
                st5 = delete_sandbox name st4
            in (Status 200, emit (Emitted ''sandbox.deleted'' name) (st5\<lparr>cp_direct := Tunnel_Remove name (cp_direct st5)\<rparr>))
          else
            let pID = sb_PoderID sb;
                st1 = (if pID = []
                       then close_direct name (st\<lparr>cp_sandboxTombstones := Tombstones_Add (ae_now e) name (cp_sandboxTombstones st)\<rparr>)
                       else st);
                st2 = failJobsFor (ae_now e) (ae_jobs e) name deleted_reason st1;
                st3 = update_usage pID one_container_less (delete_sandbox name st2);
                st4 = (case Tunnel_Get pID (cp_tunnels st3) of
                         None \<Rightarrow> st3
                       | Some t \<Rightarrow> emit (WorkerRequest t ''DELETE'' (''http://poder/sandboxes/'' @ name)) st3)
            in (Status 200, emit (Emitted ''sandbox.deleted'' name) st4))"

section \<open>The routes\<close>

text \<open>\<^verbatim>\<open>execute\<close> and \<^verbatim>\<open>stream\<close> name the sandbox in the query.\<close>

definition named_route :: "api_env \<Rightarrow> identity \<Rightarrow> api_request \<Rightarrow> string list \<Rightarrow> string \<Rightarrow> control \<Rightarrow> api_answer \<times> control" where
  "named_route e ident r methods url st =
     (if ar_Method r \<notin> set methods then (Status 405, st)
      else if ar_Sandbox r = [] then (Status 400, st)
      else if (case Sandbox_Get (ar_Sandbox r) (cp_sandboxes st) of Some sb \<Rightarrow> \<not> canAccessSandbox ident sb | None \<Rightarrow> False)
      then (Status 404, st)
      else via_running e r (ar_Sandbox r) (\<lambda>_. url) st)"

definition session_path :: "string \<Rightarrow> string \<Rightarrow> string" where
  "session_path path name =
     (if HasPrefix path (name @ ''/session'')
      then (let s = TrimPrefix path (name @ ''/session'') in if s = [] then ''/'' else s) else [])"

text \<open>The terminal: \<open>Terminal t url\<close> is the point where the bytes of the two sockets are relayed. Once the client's
  connection is upgraded a failure can only be told on the socket.\<close>

definition ptyRoute :: "api_env \<Rightarrow> nat \<Rightarrow> sandbox_info \<Rightarrow> string \<Rightarrow> control \<Rightarrow> api_answer \<times> control" where
  "ptyRoute e t sb name st =
     (if \<not> ae_upgrade e then (NoUpgrade, st)
      else if HasPrefix (sb_ProxyURL sb) ''direct://'' then
        let st1 = emit (WorkerRequest t ''POST'' ''http://agent/pty/create?width=80&height=24'') st in
        (case ae_ptySession e t of
           None \<Rightarrow> (SocketMessage ''Failed to create PTY session'', st1)
         | Some sid \<Rightarrow>
             if sid = [] then (SocketMessage ''Failed to create PTY session'', st1)
             else if ae_wsDial e t (''ws://agent/pty/'' @ sid) then (Terminal t (''ws://agent/pty/'' @ sid), st1)
             else (SocketMessage ''Failed to connect to PTY session'', st1))
      else if ae_wsDial e t (''ws://poder/pty/'' @ name @ ''/connect'') then (Terminal t (''ws://poder/pty/'' @ name @ ''/connect''), st)
      else (SocketMessage ''Failed to connect to PTY session'', st))"

definition getRoutes :: "api_env \<Rightarrow> api_request \<Rightarrow> string \<Rightarrow> string \<Rightarrow> control \<Rightarrow> api_answer \<times> control" where
  "getRoutes e r name action st =
     (let sp = session_path (ar_Path r) name in
      if sp \<noteq> [] then
        via_running e r name (\<lambda>_. with_query (''http://poder/process/session/'' @ name @ (if sp = ''/'' then [] else sp)) (ar_RawQuery r)) st
      else if action = ''logs'' then
        via_worker e r name (''http://poder/logs?'' @ ae_encode e name (ar_Tail r)) st
      else if action = ''toolbox'' \<or> HasPrefix action ''toolbox/'' then
        via_running e r name (\<lambda>_. with_query (''http://poder/toolbox/'' @ name @ ''/'' @
          toolboxSubPath (''/api/v1/sandboxes/'' @ ar_Path r) name) (ar_RawQuery r)) st
      else if HasPrefix action ''session/'' then
        via_running e r name (\<lambda>_. with_query (''http://poder/process/session/'' @ action) (ar_RawQuery r)) st
      else if action = ''pty'' then
        (case sandboxTunnel (ae_node e) (ae_now e) (ar_Forwarded r) name st of
           (Inl a, st1) \<Rightarrow> (a, st1)
         | (Inr (sb, t), st1) \<Rightarrow> ptyRoute e t sb name st1)
      else case Sandbox_Get name (cp_sandboxes st) of None \<Rightarrow> (Status 404, st) | Some sb \<Rightarrow> (Record sb, st))"

definition postRoutes :: "api_env \<Rightarrow> api_request \<Rightarrow> string \<Rightarrow> string \<Rightarrow> control \<Rightarrow> api_answer \<times> control" where
  "postRoutes e r name action st =
     (let sp = session_path (ar_Path r) name in
      if sp \<noteq> [] then
        via_running e r name (\<lambda>_. ''http://poder/process/session/'' @ name @
          (if sp = ''/'' then [] else ''/'' @ TrimPrefix sp ''/'')) st
      else if action = ''toolbox'' \<or> HasPrefix action ''toolbox/'' then
        via_running e r name (\<lambda>_. with_query (''http://poder/toolbox/'' @ name @ ''/'' @
          toolboxSubPath (''/api/v1/sandboxes/'' @ ar_Path r) name) (ar_RawQuery r)) st
      else if action = ''start'' then startSandbox e r name st
      else if action = ''stop'' then stopSandbox e r name st
      else if action = ''snapshot'' then
        via_worker e r name (with_query (''http://poder/sandboxes/'' @ name @ ''/snapshot'') (ar_RawQuery r)) st
      else (Status 405, st))"

definition deleteRoutes :: "api_env \<Rightarrow> api_request \<Rightarrow> string \<Rightarrow> string \<Rightarrow> control \<Rightarrow> api_answer \<times> control" where
  "deleteRoutes e r name action st =
     (let sp = session_path (ar_Path r) name in
      if sp \<noteq> [] then
        via_running e r name (\<lambda>_. ''http://poder/process/session/'' @ name @ ''/'' @ TrimPrefix sp ''/'') st
      else if HasPrefix action ''session/'' then
        via_running e r name (\<lambda>_. ''http://poder/process/session/'' @ name @ ''/'' @ TrimPrefix action ''session/'') st
      else if action = ''toolbox'' \<or> HasPrefix action ''toolbox/'' then
        via_running e r name (\<lambda>_. with_query (''http://poder/toolbox/'' @ name @ ''/'' @
          toolboxSubPath (''/api/v1/sandboxes/'' @ ar_Path r) name) (ar_RawQuery r)) st
      else deleteSandbox e name st)"

definition mcpRoute :: "api_env \<Rightarrow> identity \<Rightarrow> api_request \<Rightarrow> string \<Rightarrow> control \<Rightarrow> api_answer \<times> control" where
  "mcpRoute e ident r name st =
     (case sandboxTunnel (ae_node e) (ae_now e) (ar_Forwarded r) name st of
        (Inl a, st1) \<Rightarrow> (a, st1)
      | (Inr (sb, t), st1) \<Rightarrow>
          if ar_Admin r \<and> \<not> canAccessSandbox ident sb then (Status 403, st1)
          else
            let sub = TrimPrefix (ar_Path r) (name @ ''/'');
                url = (if HasPrefix (sb_ProxyURL sb) ''direct://'' then ''http://agent/'' @ sub
                       else ''http://poder/toolbox/'' @ name @ ''/'' @ sub)
            in proxyHTTP e t (ar_Method r) (with_query url (ar_RawQuery r)) st1)"

definition target_name :: "api_request \<Rightarrow> string" where
  "target_name r = (case splitPath (ar_Path r) of [] \<Rightarrow> [] | n # _ \<Rightarrow> n)"

definition target_action :: "api_request \<Rightarrow> string" where
  "target_action r = (case splitPath (ar_Path r) of _ # a # _ \<Rightarrow> a | _ \<Rightarrow> [])"

text \<open>The handler of \<^verbatim>\<open>/api/v1/sandboxes/*\<close>; \<open>ar_Path\<close> is what follows that prefix. A method without a case writes
  nothing, which is an empty 200.\<close>

definition sandboxHandler :: "api_env \<Rightarrow> identity \<Rightarrow> api_request \<Rightarrow> control \<Rightarrow> api_answer \<times> control" where
  "sandboxHandler e ident r st =
     (if ar_Path r = [] then (Status 404, st)
      else if ar_Path r = ''execute'' then
        named_route e ident r [''POST''] (''http://poder/execute?sandbox='' @ ar_Sandbox r) st
      else if ar_Path r = ''stream'' then
        named_route e ident r [''GET'', ''POST''] (''http://poder/stream?'' @ ar_RawQuery r) st
      else let name = target_name r; action = target_action r in
        if (case Sandbox_Get name (cp_sandboxes st) of Some sb \<Rightarrow> \<not> canAccessSandbox ident sb | None \<Rightarrow> False) then (Status 404, st)
        else if action = ''egress'' then egressHandler e r name st
        else if action = ''mcp'' \<or> HasPrefix action ''mcp/'' then mcpRoute e ident r name st
        else if ar_Method r = ''GET'' then getRoutes e r name action st
        else if ar_Method r = ''POST'' then postRoutes e r name action st
        else if ar_Method r = ''DELETE'' then deleteRoutes e r name action st
        else (Status 200, st))"

text \<open>\<^verbatim>\<open>GET /api/v1/sandboxes\<close> and \<^verbatim>\<open>POST /api/v1/policy/decide\<close> (\<open>body\<close> is \<open>None\<close> when it does not decode).\<close>

definition listSandboxes :: "identity \<Rightarrow> string list \<Rightarrow> control \<Rightarrow> api_answer" where
  "listSandboxes ident ord st =
     Listing (if IsAdmin ident then Sandbox_List ord (cp_sandboxes st)
              else filter (canAccessSandbox ident) (Sandbox_List ord (cp_sandboxes st)))"

definition policyDecide :: "identity \<Rightarrow> string \<Rightarrow> (string \<times> string \<times> int) option \<Rightarrow> control \<Rightarrow> api_answer" where
  "policyDecide ident meth body st =
     (if meth \<noteq> ''POST'' then Status 405
      else case body of
        None \<Rightarrow> Status 400
      | Some (sandbox, host, port) \<Rightarrow>
          if sandbox = [] \<or> host = [] \<or> port \<le> 0 then Status 400
          else let sb = Sandbox_Get sandbox (cp_sandboxes st) in
            if (case sb of Some s \<Rightarrow> \<not> canAccessSandbox ident s | None \<Rightarrow> False) then Status 404
            else Deciding (decideForSandbox sb host port))"

section \<open>Which sandboxes a request can touch\<close>

lemma sandboxPoderTunnel_other:
  assumes "sandboxPoderTunnel nodeURL now fw name st = (x, st')" and "n \<noteq> name"
  shows "cp_sandboxes st' n = cp_sandboxes st n"
  using assms
  by (auto simp: sandboxPoderTunnel_def Let_def Sandbox_Get_def split: option.splits prod.splits if_splits)

lemma sandboxTunnel_via:
  assumes "sandboxTunnel nodeURL now fw name st = (x, st')"
  shows "\<exists>y. sandboxPoderTunnel nodeURL now fw name st = (y, st')"
  using assms by (auto simp: sandboxTunnel_def split: prod.splits sum.splits if_splits)

lemma proxy_frame [simp]:
  "cp_sandboxes (snd (proxyHTTP e t m u st)) = cp_sandboxes st" "cp_sandboxes (snd (proxyHTTPErr e t m u st)) = cp_sandboxes st"
  by (simp_all add: proxyHTTP_def proxyHTTPErr_def split: option.split)

lemma ptyRoute_frame [simp]: "cp_sandboxes (snd (ptyRoute e t sb name st)) = cp_sandboxes st"
  by (simp add: ptyRoute_def Let_def split: option.split)

lemma via_other:
  assumes "n \<noteq> name"
  shows "cp_sandboxes (snd (via_running e r name url st)) n = cp_sandboxes st n"
    and "cp_sandboxes (snd (via_worker e r name url' st)) n = cp_sandboxes st n"
proof -
  obtain x st1 where t: "sandboxTunnel (ae_node e) (ae_now e) (ar_Forwarded r) name st = (x, st1)" by fastforce
  from sandboxTunnel_via [OF t] sandboxPoderTunnel_other assms have "cp_sandboxes st1 n = cp_sandboxes st n" by blast
  with t show "cp_sandboxes (snd (via_running e r name url st)) n = cp_sandboxes st n"
    by (cases x) (auto simp: via_running_def)
  obtain y st2 where p: "sandboxPoderTunnel (ae_node e) (ae_now e) (ar_Forwarded r) name st = (y, st2)" by fastforce
  from sandboxPoderTunnel_other [OF p assms] p show "cp_sandboxes (snd (via_worker e r name url' st)) n = cp_sandboxes st n"
    by (cases y) (auto simp: via_worker_def)
qed

lemma change_state_other:
  assumes "n \<noteq> name"
  shows "cp_sandboxes (snd (change_state e r name verb during after st)) n = cp_sandboxes st n"
proof -
  obtain y st2 where p: "sandboxPoderTunnel (ae_node e) (ae_now e) (ar_Forwarded r) name st = (y, st2)" by fastforce
  have err: "cp_sandboxes s' = cp_sandboxes s" if "proxyHTTPErr e t m u s = (x, s')" for t m u s x s'
    using proxy_frame(2) [of e t m u s] that by simp
  from sandboxPoderTunnel_other [OF p assms] p assms show ?thesis
    by (auto simp: change_state_def set_state_def split: sum.splits prod.splits bool.splits dest!: err)
qed

lemma close_direct_frame [simp]: "cp_sandboxes (close_direct name st) = cp_sandboxes st" "cp_jobs (close_direct name st) = cp_jobs st"
  by (simp_all add: close_direct_def split: option.split)

lemma deleteSandbox_sandboxes:
  "cp_sandboxes (snd (deleteSandbox e name st)) = (cp_sandboxes st)(name := None)"
proof (cases "cp_sandboxes st name")
  case None
  then show ?thesis by (auto simp: deleteSandbox_def Sandbox_Get_def)
qed (auto simp: deleteSandbox_def Sandbox_Get_def Let_def split: option.split)

lemma tunnel_route_other:
  assumes "n \<noteq> name"
  shows "sandboxTunnel nodeURL now fw name st = (x, st') \<Longrightarrow> cp_sandboxes st' n = cp_sandboxes st n"
  using sandboxTunnel_via sandboxPoderTunnel_other assms by blast

lemma routes_other:
  assumes "n \<noteq> name"
  shows "cp_sandboxes (snd (egressHandler e r name st)) n = cp_sandboxes st n"
    and "cp_sandboxes (snd (mcpRoute e ident r name st)) n = cp_sandboxes st n"
    and "cp_sandboxes (snd (getRoutes e r name action st)) n = cp_sandboxes st n"
    and "cp_sandboxes (snd (postRoutes e r name action st)) n = cp_sandboxes st n"
    and "cp_sandboxes (snd (deleteRoutes e r name action st)) n = cp_sandboxes st n"
proof -
  note other = via_other [OF assms] change_state_other [OF assms]
  show "cp_sandboxes (snd (egressHandler e r name st)) n = cp_sandboxes st n"
    using assms by (auto simp: egressHandler_def split: option.splits)
  show "cp_sandboxes (snd (mcpRoute e ident r name st)) n = cp_sandboxes st n"
    by (auto simp: mcpRoute_def Let_def split: prod.splits sum.splits dest: tunnel_route_other [OF assms])
  show "cp_sandboxes (snd (getRoutes e r name action st)) n = cp_sandboxes st n"
    by (auto simp: getRoutes_def Let_def other split: prod.splits sum.splits option.splits dest: tunnel_route_other [OF assms])
  show "cp_sandboxes (snd (postRoutes e r name action st)) n = cp_sandboxes st n"
    by (simp add: postRoutes_def Let_def other startSandbox_def stopSandbox_def)
  show "cp_sandboxes (snd (deleteRoutes e r name action st)) n = cp_sandboxes st n"
    using assms by (simp add: deleteRoutes_def Let_def other deleteSandbox_sandboxes)
qed

definition request_target :: "api_request \<Rightarrow> string" where
  "request_target r = (if ar_Path r = ''execute'' \<or> ar_Path r = ''stream'' then ar_Sandbox r else target_name r)"

lemma handler_other:
  assumes "n \<noteq> request_target r"
  shows "cp_sandboxes (snd (sandboxHandler e ident r st)) n = cp_sandboxes st n"
proof (cases "ar_Path r = ''execute'' \<or> ar_Path r = ''stream''")
  case True
  then have "n \<noteq> ar_Sandbox r" using assms by (simp add: request_target_def)
  with True show ?thesis by (auto simp: sandboxHandler_def named_route_def via_other)
next
  case False
  then have "n \<noteq> target_name r" using assms by (simp add: request_target_def)
  from routes_other [OF this] False show ?thesis by (simp add: sandboxHandler_def Let_def)
qed

section \<open>Properties\<close>

definition foreign_status :: "api_request \<Rightarrow> int" where
  "foreign_status r =
     (if ar_Path r = ''execute'' \<and> ar_Method r \<noteq> ''POST'' \<or> ar_Path r = ''stream'' \<and> ar_Method r \<notin> {''GET'', ''POST''} then 405
      else if ar_Path r \<in> {''execute'', ''stream''} \<and> ar_Sandbox r = [] then 400
      else 404)"

lemma foreign_answer:
  assumes "request_target r = n" and "cp_sandboxes st n = Some sb" and "\<not> canAccessSandbox ident sb"
  shows "sandboxHandler e ident r st = (Status (foreign_status r), st)"
  using assms
  by (auto simp: sandboxHandler_def named_route_def request_target_def foreign_status_def Sandbox_Get_def Let_def split: if_splits)

text \<open>A name that no sandbox has.\<close>

lemma unknown_tunnel [simp]:
  assumes "cp_sandboxes st n = None"
  shows "sandboxPoderTunnel nodeURL now fw n st = (Inl (Status 404), st)" "sandboxTunnel nodeURL now fw n st = (Inl (Status 404), st)"
  using assms by (simp_all add: sandboxPoderTunnel_def sandboxTunnel_def Sandbox_Get_def)

lemma unknown_answer:
  assumes "request_target r = n" and "cp_sandboxes st n = None"
    and "ar_Method r \<in> {''GET'', ''DELETE''} \<or> ar_Path r \<in> {''execute'', ''stream''}"
  shows "fst (sandboxHandler e ident r st) = Status (foreign_status r)"
proof -
  have named: "fst (named_route e ident r ms u st) = Status (if ar_Method r \<notin> set ms then 405 else if n = [] then 400 else 404)"
    if "ar_Sandbox r = n" for ms u
    using that assms(2) by (simp add: named_route_def via_running_def Sandbox_Get_def)
  have routes: "fst (getRoutes e r n a st) = Status 404" "fst (deleteRoutes e r n a st) = Status 404"
    "fst (egressHandler e r n st) = Status 404" "fst (mcpRoute e ident r n st) = Status 404" for a
    using assms(2)
    by (simp_all add: getRoutes_def deleteRoutes_def egressHandler_def mcpRoute_def via_running_def via_worker_def deleteSandbox_def
        Sandbox_Get_def Let_def)
  show ?thesis
    using assms named routes by (auto simp: sandboxHandler_def request_target_def foreign_status_def Sandbox_Get_def Let_def)
qed


definition demo_api_env :: api_env where
  "demo_api_env = \<lparr>ae_node = [], ae_now = 100 * second, ae_worker = (\<lambda>_ _ _. Some 200), ae_jobs = [], ae_encode = (\<lambda>n t. n),
     ae_upgrade = True, ae_ptySession = (\<lambda>_. None), ae_wsDial = (\<lambda>_ _. True)\<rparr>"

definition plain_request :: "string \<Rightarrow> string \<Rightarrow> api_request" where
  "plain_request m p = \<lparr>ar_Method = m, ar_Path = p, ar_RawQuery = [], ar_Sandbox = [], ar_Admin = False, ar_Tail = [],
     ar_Forwarded = False, ar_Policy = None\<rparr>"

definition bobs_control :: control where
  "bobs_control = demo_control\<lparr>cp_sandboxes := [''box'' \<mapsto> (demo_sandbox ''box'' ''p1'')\<lparr>sb_State := StateRunning, sb_Owner := ''bob''\<rparr>]\<rparr>"


definition hop_ok :: "api_env \<Rightarrow> api_request \<Rightarrow> api_answer \<Rightarrow> bool" where
  "hop_ok e r a \<longleftrightarrow> (\<forall>p. a = Forwarded p \<longrightarrow> \<not> ar_Forwarded r \<and> ae_node e \<noteq> [] \<and> p \<noteq> ae_node e)"

lemma hop_ok_simps [simp]:
  "hop_ok e r (Status s)" "hop_ok e r (Record b)" "hop_ok e r (PolicyOf q)" "hop_ok e r (Terminal t u)"
  "hop_ok e r NoUpgrade" "hop_ok e r (SocketMessage m)"
  by (simp_all add: hop_ok_def)

lemma tunnel_hops:
  "sandboxPoderTunnel (ae_node e) (ae_now e) (ar_Forwarded r) name st = (Inl a, st') \<Longrightarrow> hop_ok e r a"
  "sandboxTunnel (ae_node e) (ae_now e) (ar_Forwarded r) name st = (Inl a, st') \<Longrightarrow> hop_ok e r a"
proof -
  show poder: "sandboxPoderTunnel (ae_node e) (ae_now e) (ar_Forwarded r) name st = (Inl a, st') \<Longrightarrow> hop_ok e r a" for a st'
    by (auto simp: sandboxPoderTunnel_def hop_ok_def Let_def split: option.splits prod.splits if_splits)
  show "sandboxTunnel (ae_node e) (ae_now e) (ar_Forwarded r) name st = (Inl a, st') \<Longrightarrow> hop_ok e r a"
    by (auto simp: sandboxTunnel_def split: prod.splits sum.splits if_splits dest: poder)
qed

lemma route_hops [simp]:
  "hop_ok e r (fst (via_running e r name url st))" "hop_ok e r (fst (via_worker e r name url' st))"
  "hop_ok e r (fst (change_state e r name verb d a st))" "hop_ok e r (fst (mcpRoute e ident r name st))"
  "hop_ok e r (fst (egressHandler e r name st))" "hop_ok e r (fst (deleteSandbox e name st))"
  by (auto simp: via_running_def via_worker_def change_state_def mcpRoute_def egressHandler_def deleteSandbox_def proxyHTTP_def
      proxyHTTPErr_def Let_def split: prod.splits sum.splits option.splits bool.splits dest: tunnel_hops)

lemma ptyRoute_hops [simp]: "hop_ok e r (fst (ptyRoute e t sb name st))"
  by (simp add: ptyRoute_def Let_def split: option.split)

lemma routes_hops [simp]:
  "hop_ok e r (fst (getRoutes e r name a st))" "hop_ok e r (fst (postRoutes e r name a st))" "hop_ok e r (fst (deleteRoutes e r name a st))"
  by (auto simp: getRoutes_def postRoutes_def deleteRoutes_def startSandbox_def stopSandbox_def Let_def
      split: prod.splits sum.splits option.splits dest: tunnel_hops)

text \<open>A request hops between instances at most once, and never to where it already is: only a request that was
  not forwarded before is handed to a peer, and the peer is another node than this one.\<close>

theorem forwarded_at_most_once:
  assumes "fst (sandboxHandler e ident r st) = Forwarded p"
  shows "\<not> ar_Forwarded r \<and> ae_node e \<noteq> [] \<and> p \<noteq> ae_node e"
proof -
  have "hop_ok e r (fst (sandboxHandler e ident r st))"
    by (simp add: sandboxHandler_def named_route_def Let_def)
  with assms show ?thesis by (simp add: hop_ok_def)
qed

theorem forwarded_at_most_once_witness:
  "\<not> ar_Forwarded (plain_request ''GET'' ''box/logs'') \<and> ''http://b'' \<noteq> ''http://a''"
proof -
  let ?e = "demo_api_env\<lparr>ae_node := ''http://a''\<rparr>"
  let ?st = "bobs_control\<lparr>cp_tunnels := NewTunnelStore, cp_owners := [''p1'' \<mapsto> ''http://b'']\<rparr>"
  have "(case fst (sandboxHandler ?e admin_identity (plain_request ''GET'' ''box/logs'') ?st) of Forwarded p \<Rightarrow> p = ''http://b'' | _ \<Rightarrow> False) = True"
    by code_simp
  then have "fst (sandboxHandler ?e admin_identity (plain_request ''GET'' ''box/logs'') ?st) = Forwarded ''http://b''"
    by (simp split: api_answer.splits)
  from forwarded_at_most_once [OF this] show ?thesis by simp
qed

lemma sandboxPoderTunnel_effects:
  "sandboxPoderTunnel nodeURL now fw name st = (x, st') \<Longrightarrow> cp_effects st' = cp_effects st"
  by (auto simp: sandboxPoderTunnel_def Let_def split: option.splits prod.splits if_splits)

lemma sandboxTunnel_Inr:
  assumes "sandboxTunnel nodeURL now fw name st = (Inr (sb, t), st')"
  shows "\<exists>sb0. cp_sandboxes st name = Some sb0 \<and> sb_State sb0 = StateRunning \<and>
     (if HasPrefix (sb_ProxyURL sb0) ''direct://'' then cp_direct st name = Some t else cp_tunnels st (sb_PoderID sb0) = Some t)"
  using assms
  by (auto simp: sandboxTunnel_def sandboxPoderTunnel_def Let_def Sandbox_Get_def Tunnel_Get_def
      split: option.splits prod.splits if_splits sum.splits)

text \<open>Code runs only in a running sandbox: a request to execute or to stream reaches a worker only when the
  sandbox exists, is running, may be accessed by the caller and its tunnel is on this instance. In every
  other case no worker is asked, so the caller is answered instead of waiting on a stopped container.\<close>

theorem code_reaches_only_running:
  assumes "ar_Path r = ''execute'' \<or> ar_Path r = ''stream''"
    and "WorkerRequest t m url \<in> set (cp_effects (snd (sandboxHandler e ident r st)))"
    and "WorkerRequest t m url \<notin> set (cp_effects st)"
  shows "\<exists>sb. cp_sandboxes st (ar_Sandbox r) = Some sb \<and> sb_State sb = StateRunning \<and> canAccessSandbox ident sb \<and>
     (if HasPrefix (sb_ProxyURL sb) ''direct://'' then cp_direct st (ar_Sandbox r) = Some t else cp_tunnels st (sb_PoderID sb) = Some t)"
proof -
  have "\<exists>ms u. sandboxHandler e ident r st = named_route e ident r ms u st"
    using assms(1) by (elim disjE; intro exI) (simp_all add: sandboxHandler_def)
  then obtain ms u where h: "sandboxHandler e ident r st = named_route e ident r ms u st" by blast
  from assms(2,3) have new: "WorkerRequest t m url \<in> set (cp_effects (snd (via_running e r (ar_Sandbox r) (\<lambda>_. u) st)))"
    and ok: "\<forall>sb. cp_sandboxes st (ar_Sandbox r) = Some sb \<longrightarrow> canAccessSandbox ident sb"
    unfolding h by (auto simp: named_route_def Sandbox_Get_def split: if_splits)
  obtain x st1 where x: "sandboxTunnel (ae_node e) (ae_now e) (ar_Forwarded r) (ar_Sandbox r) st = (x, st1)" by fastforce
  from sandboxTunnel_via [OF x] sandboxPoderTunnel_effects have "cp_effects st1 = cp_effects st" by blast
  with new assms(3) x obtain sb0 where "x = Inr (sb0, t)"
    by (cases x) (auto simp: via_running_def proxyHTTP_def)
  with x sandboxTunnel_Inr ok show ?thesis by blast
qed

theorem code_reaches_only_running_witness:
  "\<exists>sb. cp_sandboxes bobs_control ''box'' = Some sb \<and> sb_State sb = StateRunning"
proof -
  let ?r = "(plain_request ''POST'' ''execute'')\<lparr>ar_Sandbox := ''box''\<rparr>"
  have "(WorkerRequest 7 ''POST'' ''http://poder/execute?sandbox=box''
      \<in> set (cp_effects (snd (sandboxHandler demo_api_env admin_identity ?r bobs_control)))) = True" by code_simp
  moreover have "cp_effects bobs_control = []" by (simp add: bobs_control_def demo_control_def)
  ultimately show ?thesis
    using code_reaches_only_running [of ?r 7 "''POST''" "''http://poder/execute?sandbox=box''" demo_api_env admin_identity bobs_control]
    by (auto simp: plain_request_def)
qed

section \<open>Activity and the idle reaper\<close>

definition activity_ok :: "control \<Rightarrow> bool" where
  "activity_ok st \<longleftrightarrow> (\<forall>n seen sb. cp_activity st n = Some seen \<and> cp_sandboxes st n = Some sb \<longrightarrow> seen \<le> sb_LastActivity sb)"

text \<open>A sandbox in use is not reaped: activity is written at most every 30 seconds, and after a request at
  some time the record shows an activity less than 30 seconds older. So the idle reaper leaves the
  sandbox alone until its lifetime minus 30 seconds after the request; the invariant this rests on,
  that the last write remembered is on the record, is kept by the request.\<close>

theorem sandbox_in_use_is_kept:
  assumes "activity_ok st" and "cp_sandboxes st name = Some sb0" and "30 * second \<le> now"
    and "sandboxPoderTunnel nodeURL now fw name st = (x, st')" and "cp_sandboxes st' name = Some sb"
    and "now' - now \<le> effectiveSandboxTTL sb ttl - 30 * second"
  shows "\<not> shouldReapSandbox sb now' ttl \<and> activity_ok st'"
proof -
  from assms(2,4,5) have st': "cp_sandboxes st' = (if fst (shouldPersistActivity name now (cp_activity st))
        then (\<lambda>k. if k = name then map_option (\<lambda>s. s\<lparr>sb_LastActivity := now\<rparr>) (cp_sandboxes st k) else cp_sandboxes st k)
        else cp_sandboxes st)" "cp_activity st' = snd (shouldPersistActivity name now (cp_activity st))"
    by (auto simp: sandboxPoderTunnel_def Let_def Sandbox_Get_def split: option.splits prod.splits if_splits)
  have recent: "now - 30 * second < sb_LastActivity sb"
    using assms(1,2,5) st'(1)
    by (fastforce simp: shouldPersistActivity_def activity_ok_def split: option.splits if_splits)
  have "activity_ok st'"
    using assms(1) unfolding activity_ok_def st'
    by (auto simp: shouldPersistActivity_def split: option.splits if_splits)
  moreover have "\<not> shouldReapSandbox sb now' ttl"
    using recent assms(3,6) by (auto simp: shouldReapSandbox_def Let_def)
  ultimately show ?thesis by blast
qed

definition busy_control :: "int \<Rightarrow> control" where
  "busy_control ttl = demo_control\<lparr>cp_sandboxes := [''box'' \<mapsto> idle_box\<lparr>sb_TTLSeconds := ttl, sb_LastActivity := 100 * second\<rparr>],
     cp_activity := [''box'' \<mapsto> 100 * second]\<rparr>"

theorem sandbox_in_use_is_kept_witness:
  "\<exists>sb. cp_sandboxes (snd (sandboxPoderTunnel [] (125 * second) False ''box'' (busy_control 60))) ''box'' = Some sb \<and>
     \<not> shouldReapSandbox sb (155 * second) 0"
proof -
  let ?run = "sandboxPoderTunnel [] (125 * second) False ''box'' (busy_control 60)"
  have run: "?run = (fst ?run, snd ?run)" by simp
  have ok: "activity_ok (busy_control 60)" by (auto simp: activity_ok_def busy_control_def split: if_splits)
  have rec: "cp_sandboxes (busy_control 60) ''box'' = Some (idle_box\<lparr>sb_TTLSeconds := 60, sb_LastActivity := 100 * second\<rparr>)"
    by (simp add: busy_control_def)
  have "map_option sb_TTLSeconds (cp_sandboxes (snd ?run) ''box'') = Some 60" by code_simp
  then obtain sb where sb: "cp_sandboxes (snd ?run) ''box'' = Some sb" "sb_TTLSeconds sb = 60" by auto
  have "effectiveSandboxTTL sb 0 = 60 * second" using sb(2) by (simp add: effectiveSandboxTTL_def wrap64_def)
  with sandbox_in_use_is_kept [OF ok rec _ run sb(1), of "155 * second" 0] sb(1) show ?thesis by auto
qed

text \<open>Below that interval the promise breaks: a sandbox with a lifetime of 20 seconds that is used at second 100
  and again at second 125 is reaped at second 126, one second after its last request, because the
  second use was not written.\<close>

theorem short_lived_sandbox_reaped_in_use:
  "let st = snd (sandboxPoderTunnel [] (125 * second) False ''box'' (busy_control 20))
   in (case cp_sandboxes st ''box'' of None \<Rightarrow> False | Some sb \<Rightarrow> shouldReapSandbox sb (126 * second) 0)"
  by code_simp

section \<open>Deleting\<close>

lemma deleteSandbox_jobs:
  assumes "cp_sandboxes st name = Some sb"
  shows "cp_jobs (snd (deleteSandbox e name st)) = cp_jobs (failJobsFor (ae_now e) (ae_jobs e) name deleted_reason
     (if HasPrefix (sb_ProxyURL sb) ''direct://'' \<or> sb_PoderID sb \<noteq> [] then st
      else close_direct name (st\<lparr>cp_sandboxTombstones := Tombstones_Add (ae_now e) name (cp_sandboxTombstones st)\<rparr>)))"
  using assms by (auto simp: deleteSandbox_def Sandbox_Get_def Let_def split: option.split)

section \<open>Names and headers\<close>

lemma name_char_no_slash: "is_name_char c \<Longrightarrow> c \<noteq> CHR ''/''"
  by (auto simp: is_name_char_def is_alnum_def)

lemma validName_chars:
  assumes "validateSandboxName n = None"
  shows "n \<noteq> [] \<and> CHR ''/'' \<notin> set n \<and> length n \<le> 64"
proof -
  from assms have n: "n \<noteq> []" "length n \<le> 64" "sandboxNamePattern n" by (auto simp: validateSandboxName_def split: if_splits)
  then obtain c cs where "n = c # cs" "is_alnum c" "list_all is_name_char cs" by (cases n) auto
  then have "\<forall>x \<in> set n. is_name_char x" by (auto simp: is_name_char_def list_all_iff)
  with n name_char_no_slash show ?thesis by blast
qed

lemma Trim_byte_free: "c \<notin> set s \<Longrightarrow> Trim_byte c s = s"
proof -
  assume "c \<notin> set s"
  moreover have "dropWhile (\<lambda>x. x = c) t = t" if "c \<notin> set t" for t using that by (cases t) auto
  ultimately show ?thesis by (simp add: Trim_byte_def)
qed

text \<open>An accepted name is one segment of a path: a request under \<^verbatim>\<open>/api/v1/sandboxes/\<close> with the name alone is a
  request about that sandbox, so its owner can read and delete it. Two accepted names are exceptions,
  \<^verbatim>\<open>execute\<close> and \<^verbatim>\<open>stream\<close>: a \<^verbatim>\<open>DELETE\<close> with one of them as its path is refused, and the sandbox stays.\<close>

theorem accepted_names_are_addressable:
  assumes "validateSandboxName n = None"
  shows "(n \<noteq> ''execute'' \<and> n \<noteq> ''stream'' \<and> ar_Path r = n \<and> cp_sandboxes st n = Some sb \<and> canAccessSandbox ident sb \<longrightarrow>
        (ar_Method r = ''GET'' \<longrightarrow> sandboxHandler e ident r st = (Record sb, st)) \<and>
        (ar_Method r = ''DELETE'' \<longrightarrow> fst (sandboxHandler e ident r st) = Status 200 \<and>
           cp_sandboxes (snd (sandboxHandler e ident r st)) n = None)) \<and>
     validateSandboxName ''execute'' = None \<and> validateSandboxName ''stream'' = None \<and>
     ((ar_Path r = ''execute'' \<or> ar_Path r = ''stream'') \<and> ar_Method r = ''DELETE'' \<longrightarrow> sandboxHandler e ident r st = (Status 405, st))"
proof -
  note n = validName_chars [OF assms]
  have split: "splitPath n = [n]" using n by (simp add: splitPath_def Trim_byte_free Split_free)
  have "\<not> HasPrefix n (n @ ''/session'')" by (auto simp: HasPrefix_iff)
  then have sp: "session_path n n = []" by (simp add: session_path_def)
  have "n \<noteq> ''execute'' \<and> n \<noteq> ''stream'' \<and> ar_Path r = n \<and> cp_sandboxes st n = Some sb \<and> canAccessSandbox ident sb \<longrightarrow>
        (ar_Method r = ''GET'' \<longrightarrow> sandboxHandler e ident r st = (Record sb, st)) \<and>
        (ar_Method r = ''DELETE'' \<longrightarrow> fst (sandboxHandler e ident r st) = Status 200 \<and>
           cp_sandboxes (snd (sandboxHandler e ident r st)) n = None)"
  proof
    assume that: "n \<noteq> ''execute'' \<and> n \<noteq> ''stream'' \<and> ar_Path r = n \<and> cp_sandboxes st n = Some sb \<and> canAccessSandbox ident sb"
    then have "target_name r = n" "target_action r = []" using split by (simp_all add: target_name_def target_action_def)
    moreover have "fst (deleteSandbox e n st) = Status 200" using that by (simp add: deleteSandbox_def Sandbox_Get_def Let_def)
    ultimately show "(ar_Method r = ''GET'' \<longrightarrow> sandboxHandler e ident r st = (Record sb, st)) \<and>
        (ar_Method r = ''DELETE'' \<longrightarrow> fst (sandboxHandler e ident r st) = Status 200 \<and>
           cp_sandboxes (snd (sandboxHandler e ident r st)) n = None)"
      using that n sp deleteSandbox_sandboxes [of e n st]
      by (simp add: sandboxHandler_def Sandbox_Get_def getRoutes_def deleteRoutes_def Let_def HasPrefix_iff)
  qed
  moreover have "validateSandboxName ''execute'' = None" "validateSandboxName ''stream'' = None" by code_simp+
  moreover have "(ar_Path r = ''execute'' \<or> ar_Path r = ''stream'') \<and> ar_Method r = ''DELETE'' \<longrightarrow> sandboxHandler e ident r st = (Status 405, st)"
    by (auto simp: sandboxHandler_def named_route_def)
  ultimately show ?thesis by (intro conjI)
qed

theorem accepted_names_are_addressable_witness:
  "sandboxHandler demo_api_env admin_identity (plain_request ''GET'' ''box'') bobs_control =
     (Record ((demo_sandbox ''box'' ''p1'')\<lparr>sb_State := StateRunning, sb_Owner := ''bob''\<rparr>), bobs_control)"
proof -
  have v: "validateSandboxName ''box'' = None" by code_simp
  have "cp_sandboxes bobs_control ''box'' = Some ((demo_sandbox ''box'' ''p1'')\<lparr>sb_State := StateRunning, sb_Owner := ''bob''\<rparr>)"
    "canAccessSandbox admin_identity ((demo_sandbox ''box'' ''p1'')\<lparr>sb_State := StateRunning, sb_Owner := ''bob''\<rparr>)"
    by (simp_all add: bobs_control_def canAccessSandbox_def IsAdmin_def)
  with accepted_names_are_addressable [OF v] show ?thesis by (simp add: plain_request_def)
qed

text \<open>Platform credentials stop at the server, with one gap: of the headers of a proxied request exactly the
  host, the platform token and (except on the MCP route) the authorization are dropped and all others go
  through unchanged. The streaming route has a loop of its own that drops only the host, so the worker
  receives the caller's platform token.\<close>

theorem credentials_stop_at_the_server:
  "((k, v) \<in> set (copyProxyHeaders src keep) \<longleftrightarrow>
      (k, v) \<in> set src \<and> k \<notin> {''Host'', ''X-Sandrpod-Token''} \<and> (k \<noteq> ''Authorization'' \<or> keep)) \<and>
   (''X-Sandrpod-Token'', [tok]) \<in> set (streamHeaders [(''X-Sandrpod-Token'', [tok]), (''Host'', [h])])"
  by (auto simp: copyProxyHeaders_def streamHeaders_def)

theorem credentials_stop_at_the_server_witness:
  "(''X-Sandrpod-Token'', [''secret'']) \<notin> set (copyProxyHeaders [(''X-Sandrpod-Token'', [''secret''])] True)"
  using credentials_stop_at_the_server [of "''X-Sandrpod-Token''" "[''secret'']" "[(''X-Sandrpod-Token'', [''secret''])]" True] by blast

end
