(* ===== verification/Go_Utf8.thy ===== *)
theory Go_Utf8
  imports Go_Prelude
begin

text \<open>
  UTF-8 as the package \<^verbatim>\<open>unicode/utf8\<close> decodes it, and \<^verbatim>\<open>strings.ToValidUTF8\<close> with an empty replacement. The
  width of the first character of a text is 0 if its bytes are no character: a stray continuation
  byte, an overlong form, a surrogate, a value above the last code point, or a form cut short.
\<close>

definition byte_of :: "char \<Rightarrow> nat" where "byte_of c = of_char c"

text \<open>What the first byte says: the number of bytes and the range of the second one.\<close>

definition utf8_first :: "nat \<Rightarrow> (nat \<times> nat \<times> nat) option" where
  "utf8_first b =
     (if 0xC2 \<le> b \<and> b \<le> 0xDF then Some (2, 0x80, 0xBF)
      else if b = 0xE0 then Some (3, 0xA0, 0xBF)
      else if b = 0xED then Some (3, 0x80, 0x9F)
      else if 0xE1 \<le> b \<and> b \<le> 0xEF then Some (3, 0x80, 0xBF)
      else if b = 0xF0 then Some (4, 0x90, 0xBF)
      else if 0xF1 \<le> b \<and> b \<le> 0xF3 then Some (4, 0x80, 0xBF)
      else if b = 0xF4 then Some (4, 0x80, 0x8F)
      else None)"

definition continuation :: "char \<Rightarrow> bool" where
  "continuation c \<longleftrightarrow> 0x80 \<le> byte_of c \<and> byte_of c \<le> 0xBF"

definition rune_width :: "string \<Rightarrow> nat" where
  "rune_width s =
     (case s of
        [] \<Rightarrow> 0
      | c # cs \<Rightarrow>
          if byte_of c < 0x80 then 1
          else case utf8_first (byte_of c) of
            None \<Rightarrow> 0
          | Some (n, lo, hi) \<Rightarrow>
              if n \<le> length s \<and> lo \<le> byte_of (s ! 1) \<and> byte_of (s ! 1) \<le> hi \<and>
                 list_all continuation (take (n - 2) (drop 2 s))
              then n else 0)"

text \<open>\<^verbatim>\<open>utf8.ValidString\<close>.\<close>

function ValidString :: "string \<Rightarrow> bool" where
  "ValidString [] = True"
| "ValidString (c # cs) = (case rune_width (c # cs) of 0 \<Rightarrow> False | Suc n \<Rightarrow> ValidString (drop n cs))"
  by pat_completeness auto
termination by (relation "measure length") auto

function ToValidUTF8 :: "string \<Rightarrow> string" where
  "ToValidUTF8 [] = []"
| "ToValidUTF8 (c # cs) =
     (case rune_width (c # cs) of
        0 \<Rightarrow> ToValidUTF8 cs
      | Suc n \<Rightarrow> c # take n cs @ ToValidUTF8 (drop n cs))"
  by pat_completeness auto
termination by (relation "measure length") auto

declare ValidString.simps(2) [simp del] ToValidUTF8.simps(2) [simp del]

lemma utf8_first_size: "utf8_first b = Some (n, lo, hi) \<Longrightarrow> n \<in> {2, 3, 4}"
  by (auto simp: utf8_first_def split: if_splits)

lemma rune_width_le: "rune_width s \<le> length s"
  by (auto simp: rune_width_def split: list.split option.split)

lemma rune_width_multi:
  "s = c # cs \<Longrightarrow> \<not> byte_of c < 0x80 \<Longrightarrow> utf8_first (byte_of c) = Some (n, lo, hi) \<Longrightarrow>
     rune_width s = (if n \<le> length s \<and> lo \<le> byte_of (s ! 1) \<and> byte_of (s ! 1) \<le> hi \<and>
       list_all continuation (take (n - 2) (drop 2 s)) then n else 0)"
  by (simp add: rune_width_def)

text \<open>The width depends on the bytes of the character only.\<close>

lemma rune_width_prefix:
  assumes "rune_width s = n" and "0 < n"
  shows "rune_width (take n s @ r) = n"
proof (cases s)
  case Nil
  with assms show ?thesis by (simp add: rune_width_def)
next
  case (Cons c cs)
  show ?thesis
  proof (cases "byte_of c < 0x80")
    case True
    with assms Cons show ?thesis by (auto simp: rune_width_def)
  next
    case False
    with assms Cons obtain lo hi where f: "utf8_first (byte_of c) = Some (n, lo, hi)" and "n \<le> length s"
      and s: "lo \<le> byte_of (s ! 1)" "byte_of (s ! 1) \<le> hi" "list_all continuation (take (n - 2) (drop 2 s))"
      by (auto simp: rune_width_def split: option.splits if_splits)
    have n: "2 \<le> n" using utf8_first_size [OF f] by auto
    define t where "t = take n s @ r"
    have "n \<le> length t" "t ! 1 = s ! 1" "take (n - 2) (drop 2 t) = take (n - 2) (drop 2 s)"
      using n \<open>n \<le> length s\<close> by (simp_all add: t_def nth_append drop_take)
    moreover obtain x where "t = c # x" using Cons n by (cases n) (auto simp: t_def)
    ultimately have "rune_width t = n" using False s f
      by (cases "utf8_first (byte_of c)") (simp_all add: rune_width_multi)
    then show ?thesis by (simp add: t_def)
  qed
qed

lemma rune_width_Cons:
  "rune_width (c # cs) = Suc n \<Longrightarrow> rune_width (c # take n cs @ r) = Suc n \<and> n \<le> length cs"
  using rune_width_prefix [of "c # cs" "Suc n" r] rune_width_le [of "c # cs"] by simp

lemma ValidString_ToValidUTF8: "ValidString (ToValidUTF8 s)"
proof (induction s rule: ToValidUTF8.induct)
  case (2 c cs)
  show ?case
  proof (cases "rune_width (c # cs)")
    case 0
    with 2 show ?thesis by (simp add: ToValidUTF8.simps)
  next
    case (Suc n)
    with rune_width_Cons [OF Suc, of "ToValidUTF8 (drop n cs)"] 2 show ?thesis
      by (simp add: ToValidUTF8.simps ValidString.simps)
  qed
qed simp

lemma length_ToValidUTF8: "length (ToValidUTF8 s) \<le> length s"
proof (induction s rule: ToValidUTF8.induct)
  case (2 c cs)
  then show ?case by (cases "rune_width (c # cs)") (auto simp: ToValidUTF8.simps)
qed simp

lemma ToValidUTF8_id: "ToValidUTF8 s = s \<longleftrightarrow> ValidString s"
proof (induction s rule: ToValidUTF8.induct)
  case (2 c cs)
  show ?case
  proof (cases "rune_width (c # cs)")
    case 0
    have "ToValidUTF8 cs \<noteq> c # cs" using length_ToValidUTF8 [of cs] by (metis length_Cons not_less_eq_eq le_refl)
    with 0 show ?thesis by (simp add: ToValidUTF8.simps ValidString.simps)
  next
    case (Suc n)
    have "take n cs @ ToValidUTF8 (drop n cs) = cs \<longleftrightarrow> ToValidUTF8 (drop n cs) = drop n cs"
      by (metis append_take_drop_id same_append_eq)
    with Suc 2 show ?thesis by (simp add: ToValidUTF8.simps ValidString.simps)
  qed
qed simp

lemma ToValidUTF8_idem: "ToValidUTF8 (ToValidUTF8 s) = ToValidUTF8 s"
  by (simp add: ToValidUTF8_id ValidString_ToValidUTF8)

lemma ascii_valid: "list_all (\<lambda>c. byte_of c < 0x80) s \<Longrightarrow> ValidString s"
  by (induction s) (auto simp: ValidString.simps rune_width_def)

end
