(* ===== verification/Server_Agents.thy ===== *)
theory Server_Agents
  imports Server_Sandbox_API Go_Utf8
begin

text \<open>
  The remaining routes of the control plane (\<^verbatim>\<open>src/pkg/server/main.go\<close>): the agent of a user's own machine
  connecting and disconnecting, with \<^verbatim>\<open>sanitize.go\<close>; the operator's view of the workers and the direct
  sandbox operations below it; the jobs a worker polls and reports on; the capabilities; and the
  enrolment of a worker (\<^verbatim>\<open>enroll.go\<close>), whose issuer of credentials is an argument.

  Shown here: an agent takes over no record of another workspace and leaves no record that belongs to
  nobody; a name that was deleted stays deleted for as long as its agent keeps knocking, and no pending job of it is delivered; a stale
  disconnect does not touch a newer connection; region, architecture and operating
  system of an agent's record are valid UTF-8 whatever it sends; a job's report moves the sandbox with it and only an administrator can send one; a poll
  hands any worker the jobs of every workspace.
\<close>

section \<open>Owners\<close>

definition sandboxOwner :: "identity \<Rightarrow> string" where
  "sandboxOwner ident = (if id_Tenant ident \<noteq> [] then ''workspace:'' @ id_Tenant ident else id_Name ident)"

definition sanitizeUTF8 :: "string \<Rightarrow> string" where
  "sanitizeUTF8 s = ToValidUTF8 s"

section \<open>Agents\<close>

record agent_headers =
  ag_Name :: string
  ag_Region :: string
  ag_Arch :: string
  ag_OS :: string
  ag_OSVersion :: string

definition agent_record :: "gotime \<Rightarrow> identity \<Rightarrow> agent_headers \<Rightarrow> sandbox_info" where
  "agent_record now ident h =
     \<lparr>sb_ID = ag_Name h, sb_Name = ag_Name h, sb_Region = sanitizeUTF8 (ag_Region h), sb_ProviderType = ''local-agent'',
      sb_InstanceType = [], sb_ImageID = [], sb_State = StateRunning, sb_IP = [], sb_Owner = sandboxOwner ident,
      sb_TTLSeconds = 0, sb_CPUCores = 0, sb_MemoryMB = 0, sb_PoderID = [], sb_PoderURL = [], sb_ContainerID = [],
      sb_ProxyURL = ''direct://'' @ ag_Name h, sb_APIURL = [], sb_Arch = sanitizeUTF8 (ag_Arch h),
      sb_OS = sanitizeUTF8 (ag_OS h), sb_OSVersion = sanitizeUTF8 (ag_OSVersion h),
      sb_CreatedAt = now, sb_LastActivity = now, sb_Labels = Map.empty, sb_Network = None\<rparr>"

definition agent_rejoin :: "gotime \<Rightarrow> identity \<Rightarrow> agent_headers \<Rightarrow> sandbox_info \<Rightarrow> sandbox_info" where
  "agent_rejoin now ident h s =
     s\<lparr>sb_State := StateRunning, sb_ProxyURL := ''direct://'' @ ag_Name h, sb_Owner := sandboxOwner ident,
       sb_Arch := sanitizeUTF8 (ag_Arch h), sb_OS := sanitizeUTF8 (ag_OS h),
       sb_OSVersion := sanitizeUTF8 (ag_OSVersion h), sb_LastActivity := now\<rparr>"

definition foreign_name :: "identity \<Rightarrow> string \<Rightarrow> control \<Rightarrow> bool" where
  "foreign_name ident name st \<longleftrightarrow>
     (case Sandbox_Get name (cp_sandboxes st) of
        None \<Rightarrow> False
      | Some ex \<Rightarrow> sb_Owner ex \<noteq> [] \<and> sb_Owner ex \<noteq> sandboxOwner ident \<and> \<not> IsAdmin ident)"

definition persist_agent :: "gotime \<Rightarrow> identity \<Rightarrow> agent_headers \<Rightarrow> control \<Rightarrow> control" where
  "persist_agent now ident h st =
     (case Sandbox_Get (ag_Name h) (cp_sandboxes st) of
        Some _ \<Rightarrow> update_sandbox (ag_Name h) (agent_rejoin now ident h) st
      | None \<Rightarrow>
          (case Sandbox_Add (agent_record now ident h) (cp_sandboxes st) of
             None \<Rightarrow> st | Some s \<Rightarrow> st\<lparr>cp_sandboxes := s\<rparr>))"

text \<open>\<open>/ws/sandbox/connect\<close> up to the point where it waits for the tunnel to close.\<close>

definition agentConnect ::
  "gotime \<Rightarrow> string \<Rightarrow> identity \<Rightarrow> agent_headers \<Rightarrow> bool \<Rightarrow> nat option \<Rightarrow> control \<Rightarrow> connect_result \<times> control" where
  "agentConnect now nodeURL ident h upgraded tunnel st =
     (let name = ag_Name h in
      if name = [] then (ConnectRefused 400, st)
      else if IsWorker ident \<and> id_Tenant ident = [] then (ConnectRefused 403, st)
      else case Tombstones_Contains now name (cp_sandboxTombstones st) of
        (True, ts) \<Rightarrow> (ConnectRefused 410, st\<lparr>cp_sandboxTombstones := Tombstones_Add now name ts\<rparr>)
      | (False, ts) \<Rightarrow>
          let st1 = st\<lparr>cp_sandboxTombstones := ts\<rparr> in
          if foreign_name ident name st1 then (ConnectRefused 409, st1)
          else if \<not> upgraded then (UpgradeFailed, st1)
          else case tunnel of
            None \<Rightarrow> (TunnelFailed, st1)
          | Some t \<Rightarrow>
              (Connected t,
               persist_agent now ident h
                 (st1\<lparr>cp_direct := Tunnel_Set name t (cp_direct st1),
                      cp_owners := (if nodeURL \<noteq> [] then Claim name nodeURL (cp_owners st1) else cp_owners st1)\<rparr>)))"

text \<open>The deferred clean-up for the tunnel \<open>t\<close> it had built.\<close>

definition agentDisconnect :: "string \<Rightarrow> string \<Rightarrow> nat \<Rightarrow> control \<Rightarrow> control" where
  "agentDisconnect nodeURL name t st =
     closeTunnel t
       (if Tunnel_Get name (cp_direct st) = Some t
        then update_sandbox name (\<lambda>s. s\<lparr>sb_State := StateError\<rparr>)
          (st\<lparr>cp_direct := Tunnel_Remove name (cp_direct st),
              cp_owners := (if nodeURL \<noteq> [] then Release name nodeURL (cp_owners st) else cp_owners st)\<rparr>)
        else st)"

section \<open>Workers as the operator sees them\<close>

text \<open>What a worker answers to a create sent straight to it: a status and, in the body, an id and an address.\<close>

type_synonym poder_answer = "(int \<times> string \<times> string) option"

definition placed_record :: "gotime \<Rightarrow> identity \<Rightarrow> string \<Rightarrow> create_request \<Rightarrow> poder_info option \<Rightarrow> string \<Rightarrow> string \<Rightarrow> sandbox_info" where
  "placed_record now ident pID req pinf rid rip =
     (let arch = (case pinf of Some p \<Rightarrow> pr_Arch (po_Resources p) | None \<Rightarrow> []);
          os = (case pinf of Some p \<Rightarrow> pr_OS (po_Resources p) | None \<Rightarrow> []);
          osv = (case pinf of Some p \<Rightarrow> pr_OSVersion (po_Resources p) | None \<Rightarrow> []);
          prov = (case pinf of Some p \<Rightarrow> if po_ProviderType p \<noteq> [] then po_ProviderType p else cr_ProviderType req
                  | None \<Rightarrow> cr_ProviderType req)
      in \<lparr>sb_ID = rid, sb_Name = cr_Name req, sb_Region = cr_Region req, sb_ProviderType = prov,
          sb_InstanceType = cr_InstanceType req, sb_ImageID = [], sb_State = StateRunning, sb_IP = rip,
          sb_Owner = id_Name ident, sb_TTLSeconds = 0, sb_CPUCores = 0, sb_MemoryMB = 0, sb_PoderID = pID,
          sb_PoderURL = [], sb_ContainerID = [], sb_ProxyURL = ''tunnel://'' @ pID, sb_APIURL = [], sb_Arch = arch,
          sb_OS = os, sb_OSVersion = osv, sb_CreatedAt = now, sb_LastActivity = now, sb_Labels = Map.empty,
          sb_Network = cr_Network req\<rparr>)"

definition createOnPoder ::
  "api_env \<Rightarrow> identity \<Rightarrow> string \<Rightarrow> nat \<Rightarrow> create_request option \<Rightarrow> poder_answer \<Rightarrow> control \<Rightarrow> api_answer \<times> control" where
  "createOnPoder e ident pID t body answer st =
     (case body of
        None \<Rightarrow> (Status 400, st)
      | Some req \<Rightarrow>
          if cr_Network req \<noteq> None \<and>
             (case Poder_Get pID (cp_poders st) of Some p \<Rightarrow> \<not> HasCapability p CapabilityEgress | None \<Rightarrow> False)
          then (Status 409, st)
          else
            let st1 = emit (CreateSent t (cr_Name req)) st in
            (case answer of
               None \<Rightarrow> (Status 500, st1)
             | Some (status, rid, rip) \<Rightarrow>
                 if status \<noteq> 201 then (Status status, st1)
                 else
                   let sb = placed_record (ae_now e) ident pID req (Poder_Get pID (cp_poders st1)) rid rip;
                       st2 = (case Sandbox_Add sb (cp_sandboxes st1) of None \<Rightarrow> st1 | Some s \<Rightarrow> st1\<lparr>cp_sandboxes := s\<rparr>)
                   in (Record sb, update_usage pID one_container_more st2)))"

definition poderSandbox :: "api_env \<Rightarrow> string \<Rightarrow> string \<Rightarrow> nat \<Rightarrow> string \<Rightarrow> string \<Rightarrow> control \<Rightarrow> api_answer \<times> control" where
  "poderSandbox e meth pID t name verb st =
     (let url = ''http://poder/sandboxes/'' @ name in
      if verb = [] \<and> meth = ''GET'' then proxyHTTP e t meth url st
      else if verb = ''start'' \<and> meth = ''POST'' then
        (case Sandbox_Get name (cp_sandboxes st) of
           None \<Rightarrow> (Status 404, st)
         | Some sb \<Rightarrow>
             (case proxyHTTP e t meth (url @ ''/start'') st of
                (a, st1) \<Rightarrow> (a, update_sandbox (sb_Name sb) (\<lambda>s. s\<lparr>sb_State := StateRunning\<rparr>) st1)))
      else if verb = ''stop'' \<and> meth = ''POST'' then
        (case Sandbox_Get name (cp_sandboxes st) of
           None \<Rightarrow> (Status 404, st)
         | Some sb \<Rightarrow>
             (case proxyHTTP e t meth (url @ ''/stop'') st of
                (a, st1) \<Rightarrow> (a, update_sandbox (sb_Name sb) (\<lambda>s. s\<lparr>sb_State := StateStopped\<rparr>) st1)))
      else if verb = [] \<and> meth = ''DELETE'' then
        (case Sandbox_Get name (cp_sandboxes st) of
           None \<Rightarrow> (Status 404, st)
         | Some sb \<Rightarrow>
             (case proxyHTTPErr e t meth url st of
                ((True, a), st1) \<Rightarrow> (a, update_usage pID one_container_less (delete_sandbox (sb_Name sb) st1))
              | ((False, a), st1) \<Rightarrow> (a, st1)))
      else (Status 404, st))"

definition poderSandboxes ::
  "api_env \<Rightarrow> identity \<Rightarrow> string \<Rightarrow> string \<Rightarrow> create_request option \<Rightarrow> poder_answer \<Rightarrow> control \<Rightarrow> api_answer \<times> control" where
  "poderSandboxes e ident meth path body answer st =
     (case Cut path (CHR ''/'') of
        (pID, rest, _) \<Rightarrow>
          (case Tunnel_Get pID (cp_tunnels st) of
             None \<Rightarrow> (Status 503, st)
           | Some t \<Rightarrow>
               (case Cut rest (CHR ''/'') of
                  (first, tail, found) \<Rightarrow>
                    if first \<noteq> ''sandboxes'' then (Status 404, st)
                    else if \<not> found \<and> meth = ''POST'' then createOnPoder e ident pID t body answer st
                    else if \<not> found then (Status 404, st)
                    else (case Cut tail (CHR ''/'') of
                            (name, verb, _) \<Rightarrow> poderSandbox e meth pID t name verb st))))"

text \<open>The whole of \<^verbatim>\<open>/api/v1/poders/\<close>: \<open>beat\<close> is the decoded heartbeat, \<open>keepVM\<close> and \<open>term\<close> belong to the
  deletion of a worker.\<close>

record poders_env =
  pd_api :: api_env
  pd_order :: "string list"
  pd_term :: "string \<Rightarrow> string \<Rightarrow> bool"
  pd_keepVM :: bool
  pd_beat :: "(heartbeat_request \<times> string list option) option"
  pd_body :: "create_request option"
  pd_answer :: poder_answer

datatype poders_answer = Api api_answer | Deleted int bool | PoderIs poder_info | PoderList "poder_info list"

definition podersHandler :: "poders_env \<Rightarrow> identity \<Rightarrow> string \<Rightarrow> string \<Rightarrow> control \<Rightarrow> poders_answer \<times> control" where
  "podersHandler p ident meth path st =
     (let now = ae_now (pd_api p); node = ae_node (pd_api p); beat = TrimSuffix path ''/heartbeat'' in
      if \<not> IsAdmin ident \<and>
         \<not> (meth = ''POST'' \<and> HasSuffix path ''/heartbeat'' \<and> IsWorker ident \<and> mayHeartbeat ident beat st)
      then (Api (Status 403), st)
      else if CHR ''/'' \<notin> set path \<and> meth = ''DELETE'' then
        (case deletePoder now (pd_order p) (pd_term p) (pd_keepVM p) path st of
           ((status, vm), st1) \<Rightarrow> (Deleted status vm, st1))
      else if HasSuffix path ''/heartbeat'' \<and> meth = ''POST'' then
        (case poderHeartbeat now node (pd_order p) ident beat (pd_beat p) st of (status, st1) \<Rightarrow> (Api (Status status), st1))
      else if Contains path ''/sandboxes'' then
        (case poderSandboxes (pd_api p) ident meth path (pd_body p) (pd_answer p) st of (a, st1) \<Rightarrow> (Api a, st1))
      else if meth = ''GET'' then
        (case Poder_Get path (cp_poders st) of None \<Rightarrow> (Api (Status 404), st) | Some po \<Rightarrow> (PoderIs po, st))
      else (Api (Status 404), st))"

definition listPoders :: "string list \<Rightarrow> string \<Rightarrow> control \<Rightarrow> poders_answer" where
  "listPoders ord meth st = (if meth \<noteq> ''GET'' then Api (Status 405) else PoderList (Poder_List ord (cp_poders st)))"

section \<open>Capabilities\<close>

fun add_names :: "string list \<Rightarrow> string list \<Rightarrow> string list" where
  "add_names names [] = names"
| "add_names names (n # ns) = add_names (if n \<in> set names then names else names @ [n]) ns"

definition providerNames :: "string list \<Rightarrow> string list" where
  "providerNames registered = add_names [''local''] registered"

definition capabilities :: "bool \<Rightarrow> string \<Rightarrow> string list \<Rightarrow> int + string list \<times> string list" where
  "capabilities emulateLegacy meth registered =
     (if emulateLegacy then Inl 404
      else if meth \<noteq> ''GET'' then Inl 405
      else Inr ([''egress_policy'', ''egress_decider''], providerNames registered))"

section \<open>Jobs\<close>

datatype jobs_answer = JobStatus int | Polled "string list" | JobIs job

definition jobsPoll :: "gotime \<Rightarrow> string \<Rightarrow> control \<Rightarrow> jobs_answer \<times> control" where
  "jobsPoll now meth st =
     (if meth \<noteq> ''GET'' then (JobStatus 405, st)
      else case Mem_PollJobs now (30 * second) 10 (cp_jobs st) of (ids, js) \<Rightarrow> (Polled ids, st\<lparr>cp_jobs := js\<rparr>))"

record status_report =
  up_JobStatus :: job_status
  up_Error :: string
  up_Result :: "job_result option"

definition apply_report :: "status_report \<Rightarrow> job \<Rightarrow> job" where
  "apply_report req j =
     (let j1 = j\<lparr>j_Status := up_JobStatus req\<rparr>;
          j2 = (if up_Error req \<noteq> [] then j1\<lparr>j_ErrorMessage := up_Error req\<rparr> else j1)
      in if up_Result req \<noteq> None then j2\<lparr>j_Result := up_Result req\<rparr> else j2)"

definition move_sandbox :: "job_type \<Rightarrow> status_report \<Rightarrow> sandbox_info \<Rightarrow> sandbox_info" where
  "move_sandbox ty req sb =
     (let ok = (up_JobStatus req = JobCompleted) in
      case ty of
        CreateSandbox \<Rightarrow>
          if ok then
            (let sb1 = sb\<lparr>sb_State := StateRunning\<rparr> in
             case up_Result req of
               None \<Rightarrow> sb1
             | Some res \<Rightarrow>
                 let sb2 = sb1\<lparr>sb_IP := jr_IP res\<rparr>
                 in if jr_SandboxID res \<noteq> [] then sb2\<lparr>sb_ID := jr_SandboxID res\<rparr> else sb2)
          else sb\<lparr>sb_State := StateError\<rparr>
      | DeleteSandbox \<Rightarrow> sb\<lparr>sb_State := (if ok then StateTerminated else StateError)\<rparr>
      | StartSandbox \<Rightarrow>
          if ok then
            (case up_Result req of
               Some res \<Rightarrow> if jr_IP res \<noteq> [] then sb\<lparr>sb_State := StateRunning, sb_IP := jr_IP res\<rparr> else sb\<lparr>sb_State := StateRunning\<rparr>
             | None \<Rightarrow> sb\<lparr>sb_State := StateRunning\<rparr>)
          else sb\<lparr>sb_State := StateError\<rparr>
      | StopSandbox \<Rightarrow> sb\<lparr>sb_State := (if ok then StateStopped else StateError)\<rparr>
      | _ \<Rightarrow> sb)"

definition jobsHandler ::
  "gotime \<Rightarrow> identity \<Rightarrow> string \<Rightarrow> string \<Rightarrow> status_report option \<Rightarrow> control \<Rightarrow> jobs_answer \<times> control" where
  "jobsHandler now ident meth jobID body st =
     (if jobID = [] then (JobStatus 404, st)
      else if meth = ''GET'' then
        (case GetJob jobID (cp_jobs st) of
           None \<Rightarrow> (JobStatus 404, st)
         | Some j \<Rightarrow> if canAccessJob ident j then (JobIs j, st) else (JobStatus 404, st))
      else if meth \<noteq> ''PATCH'' then (JobStatus 405, st)
      else if \<not> IsAdmin ident then (JobStatus 403, st)
      else case body of
        None \<Rightarrow> (JobStatus 400, st)
      | Some req \<Rightarrow>
          (case GetJob jobID (cp_jobs st) of
             None \<Rightarrow> (JobStatus 404, st)
           | Some j \<Rightarrow>
               let st1 = update_job now jobID (apply_report req) st in
               (JobStatus 200,
                if up_JobStatus req = JobCompleted \<or> up_JobStatus req = JobFailed
                then update_sandbox (j_SandboxName j) (move_sandbox (j_Type j) req) st1 else st1)))"

section \<open>Enrolment\<close>

definition id_char :: "char \<Rightarrow> bool" where
  "id_char c \<longleftrightarrow> (let n = of_char c :: nat in
     97 \<le> n \<and> n \<le> 122 \<or> 65 \<le> n \<and> n \<le> 90 \<or> 48 \<le> n \<and> n \<le> 57 \<or> c = CHR ''-'' \<or> c = CHR ''_'')"

definition validatePoderID :: "string \<Rightarrow> bool" where
  "validatePoderID i \<longleftrightarrow> \<not> (length i < 8 \<or> length i > 64) \<and> list_all id_char i"

definition presentedToken :: "auth_headers \<Rightarrow> string" where
  "presentedToken r =
     (let h = ah_Authorization r in
      if length h > 7 \<and> EqualFold (take 7 h) ''Bearer '' then TrimSpace (drop 7 h) else TrimSpace (ah_Sandrpod r))"

record worker_credential =
  wc_Token :: string
  wc_ExpiresAt :: gotime

datatype enrol_answer = EnrolStatus int | Enrolled string gotime string

definition enrol ::
  "(string \<Rightarrow> string \<Rightarrow> worker_credential option) \<Rightarrow> string \<Rightarrow> auth_headers \<Rightarrow> string option \<Rightarrow> enrol_answer" where
  "enrol exchange meth r body =
     (if meth \<noteq> ''POST'' then EnrolStatus 405
      else case body of
        None \<Rightarrow> EnrolStatus 400
      | Some poderID \<Rightarrow>
          if \<not> validatePoderID poderID then EnrolStatus 400
          else if presentedToken r = [] then EnrolStatus 403
          else case exchange (presentedToken r) poderID of
            None \<Rightarrow> EnrolStatus 401
          | Some cred \<Rightarrow> Enrolled (wc_Token cred) (wc_ExpiresAt cred) poderID)"

definition NewWorkerCredential :: "string \<Rightarrow> 8 word list option \<Rightarrow> string option" where
  "NewWorkerCredential pre rand = map_option (\<lambda>buf. pre @ hex_EncodeToString buf) rand"

section \<open>Lemmas\<close>

lemma Contains_table:
  "Tombstones_Contains now name t = (b, t') \<Longrightarrow> ts_ttl t' = ts_ttl t \<and> (b \<longrightarrow> t' = t)"
  by (auto simp: Tombstones_Contains_def split: option.splits if_splits)

lemma Tombstones_Add_later:
  "0 \<le> ts_ttl t \<Longrightarrow> now \<le> now' \<Longrightarrow> now' \<le> now + ts_ttl t \<Longrightarrow>
     fst (Tombstones_Contains now' name (Tombstones_Add now name t)) \<and> ts_ttl (Tombstones_Add now name t) = ts_ttl t"
  by (auto simp: Tombstones_Contains_def Tombstones_Add_def split: option.splits)

lemma persist_agent_sandboxes:
  "cp_sandboxes (persist_agent now ident h st) =
     (cp_sandboxes st)(ag_Name h \<mapsto> (case cp_sandboxes st (ag_Name h) of
        Some sb \<Rightarrow> agent_rejoin now ident h sb | None \<Rightarrow> agent_record now ident h))"
  by (auto simp: persist_agent_def Sandbox_Get_def Sandbox_Add_def agent_record_def split: option.splits)

lemma persist_agent_frame:
  "cp_direct (persist_agent now ident h st) = cp_direct st" "cp_jobs (persist_agent now ident h st) = cp_jobs st"
  "cp_poders (persist_agent now ident h st) = cp_poders st" "cp_owners (persist_agent now ident h st) = cp_owners st"
  "cp_sandboxTombstones (persist_agent now ident h st) = cp_sandboxTombstones st"
  by (auto simp: persist_agent_def split: option.splits)

text \<open>The outcome of a connection in terms of what was there before.\<close>

lemma agentConnect_cases:
  assumes "agentConnect now nodeURL ident h upgraded tunnel st = (res, st')"
  shows "(\<exists>t. res = Connected t \<and> tunnel = Some t \<and> ag_Name h \<noteq> [] \<and> \<not> (IsWorker ident \<and> id_Tenant ident = []) \<and>
      \<not> foreign_name ident (ag_Name h) st \<and> \<not> fst (Tombstones_Contains now (ag_Name h) (cp_sandboxTombstones st)) \<and>
      cp_sandboxes st' = (cp_sandboxes st)(ag_Name h \<mapsto> (case cp_sandboxes st (ag_Name h) of
        Some sb \<Rightarrow> agent_rejoin now ident h sb | None \<Rightarrow> agent_record now ident h)) \<and>
      cp_direct st' = (cp_direct st)(ag_Name h \<mapsto> t)) \<or>
    (\<forall>t. res \<noteq> Connected t) \<and> cp_sandboxes st' = cp_sandboxes st \<and> cp_direct st' = cp_direct st"
proof -
  obtain b ts where tc: "Tombstones_Contains now (ag_Name h) (cp_sandboxTombstones st) = (b, ts)" by fastforce
  show ?thesis
    using assms tc
    by (cases b; cases tunnel)
      (auto simp: agentConnect_def Let_def foreign_name_def Tunnel_Set_def persist_agent_sandboxes persist_agent_frame
        split: if_splits)
qed

section \<open>Properties\<close>

text \<open>Claim C32. An agent takes over nothing of another workspace: whatever an agent without administrator rights
  asks for, every record of another owner stays exactly as it was, no other name's record or
  connection changes, and the record it gets is owned by its own workspace.\<close>

theorem agent_stays_in_workspace:
  assumes "agentConnect now nodeURL ident h upgraded tunnel st = (res, st')" and "\<not> IsAdmin ident"
  shows "(\<forall>name sb. cp_sandboxes st name = Some sb \<and> sb_Owner sb \<noteq> [] \<and> sb_Owner sb \<noteq> sandboxOwner ident \<longrightarrow>
      cp_sandboxes st' name = Some sb \<and> cp_direct st' name = cp_direct st name) \<and>
    (\<forall>name. name \<noteq> ag_Name h \<longrightarrow> cp_sandboxes st' name = cp_sandboxes st name \<and> cp_direct st' name = cp_direct st name) \<and>
    (\<forall>t. res = Connected t \<longrightarrow> (\<exists>sb. cp_sandboxes st' (ag_Name h) = Some sb \<and> sb_Owner sb = sandboxOwner ident))"
  using agentConnect_cases [OF assms(1)] assms(2)
  by (auto simp: foreign_name_def Sandbox_Get_def agent_rejoin_def agent_record_def split: option.splits)

text \<open>No machine is left to everybody: a worker's credential always gives the record an owner, and a credential
  without a workspace is refused; an owner that is empty, which every token may access, is only
  written by an identity without a name.\<close>

theorem agent_record_has_owner:
  assumes "agentConnect now nodeURL ident h upgraded tunnel st = (Connected t, st')"
    and "IsWorker ident \<or> id_Name ident \<noteq> []"
  shows "\<exists>sb. cp_sandboxes st' (ag_Name h) = Some sb \<and> sb_Owner sb \<noteq> [] \<and> sb_State sb = StateRunning \<and>
     (\<forall>other. \<not> IsAdmin other \<and> id_Name other \<noteq> sandboxOwner ident \<longrightarrow> \<not> canAccessSandbox other sb)"
proof -
  from agentConnect_cases [OF assms(1)] have ok: "\<not> (IsWorker ident \<and> id_Tenant ident = [])"
    and sb: "cp_sandboxes st' (ag_Name h) = Some (case cp_sandboxes st (ag_Name h) of
        Some sb \<Rightarrow> agent_rejoin now ident h sb | None \<Rightarrow> agent_record now ident h)" by auto
  have "sandboxOwner ident \<noteq> []" using ok assms(2) by (auto simp: sandboxOwner_def)
  with sb show ?thesis
    by (auto simp: agent_rejoin_def agent_record_def canAccessSandbox_def split: option.splits)
qed

text \<open>A deleted name stays deleted: an agent that keeps knocking, with pauses no longer than the lifetime
  of a tombstone, is turned away every time with the answer that tells it to stop, for ever, and no
  record comes back.\<close>

fun knock :: "string \<Rightarrow> identity \<Rightarrow> agent_headers \<Rightarrow> (gotime \<times> nat) list \<Rightarrow> control \<Rightarrow> connect_result list \<times> control" where
  "knock nodeURL ident h [] st = ([], st)"
| "knock nodeURL ident h ((now, t) # ks) st =
     (case agentConnect now nodeURL ident h True (Some t) st of
        (res, st1) \<Rightarrow> (case knock nodeURL ident h ks st1 of (rs, st2) \<Rightarrow> (res # rs, st2)))"

fun patient :: "duration \<Rightarrow> gotime \<Rightarrow> (gotime \<times> nat) list \<Rightarrow> bool" where
  "patient ttl prev [] \<longleftrightarrow> True"
| "patient ttl prev ((now, t) # ks) \<longleftrightarrow> prev \<le> now \<and> now \<le> prev + ttl \<and> patient ttl now ks"

theorem deleted_agent_stays_away:
  assumes "ag_Name h = name" and "name \<noteq> []" and "\<not> (IsWorker ident \<and> id_Tenant ident = [])"
    and "0 \<le> ts_ttl ts" and "cp_sandboxTombstones st = Tombstones_Add gone name ts" and "patient (ts_ttl ts) gone ks"
  shows "fst (knock nodeURL ident h ks st) = replicate (length ks) (ConnectRefused 410) \<and>
     cp_sandboxes (snd (knock nodeURL ident h ks st)) = cp_sandboxes st"
  using assms(4-)
proof (induction ks arbitrary: st gone ts)
  case (Cons k ks)
  obtain now t where k: "k = (now, t)" by fastforce
  with Cons.prems have p: "gone \<le> now" "now \<le> gone + ts_ttl ts" "patient (ts_ttl ts) now ks" by auto
  let ?ts = "Tombstones_Add gone name ts"
  have c: "Tombstones_Contains now name ?ts = (True, ?ts)"
    using Tombstones_Add_later [OF Cons.prems(1) p(1,2), of name] Contains_table [of now name ?ts]
    by (cases "Tombstones_Contains now name ?ts") auto
  have ttl: "ts_ttl ?ts = ts_ttl ts" by (simp add: Tombstones_Add_def)
  let ?st = "st\<lparr>cp_sandboxTombstones := Tombstones_Add now name ?ts\<rparr>"
  have "agentConnect now nodeURL ident h True (Some t) st = (ConnectRefused 410, ?st)"
    using assms(1-3) Cons.prems(2) c by (simp add: agentConnect_def)
  moreover have "fst (knock nodeURL ident h ks ?st) = replicate (length ks) (ConnectRefused 410) \<and>
     cp_sandboxes (snd (knock nodeURL ident h ks ?st)) = cp_sandboxes ?st"
    using Cons.prems(1) p(3) ttl by (intro Cons.IH [of "?ts" _ now]) simp_all
  ultimately show ?case using k by (auto split: prod.splits)
qed simp

text \<open>Claim C31. A delete is final for what runs after it: it answers 200, the record is gone whether or not a worker could be
  reached, every other record is as before, no job for that name is left pending, and the pass that redelivers jobs does
  nothing for one of that name at any later time. The worker is told to remove the container. The agent of a user's
  own machine is disconnected; while it keeps knocking, with pauses no longer than the lifetime of a tombstone, it is
  answered 410 every time and no record comes back. A create of that name that another request
  is still placing is not stopped, and can put a record there again.\<close>

theorem delete_is_final:
  assumes "cp_sandboxes st name = Some sb" and "iteration_order (ae_jobs e) (js_jobs (cp_jobs st))" and "0 \<le> ts_ttl (cp_sandboxTombstones st)"
  shows "let (a, st') = deleteSandbox e name st in
     a = Status 200 \<and> cp_sandboxes st' = (cp_sandboxes st)(name := None) \<and>
     (\<forall>i j. js_jobs (cp_jobs st') i = Some j \<and> j_SandboxName j = name \<longrightarrow> j_Status j \<noteq> JobPending) \<and>
     (\<forall>envs cfg dec later i d. map_option j_SandboxName (js_jobs (cp_jobs st') i) = Some name \<longrightarrow>
        resume_step envs cfg dec later i (d, st') = (d, st')) \<and>
     (HasPrefix (sb_ProxyURL sb) ''direct://'' \<longrightarrow>
        cp_direct st' name = None \<and> (\<forall>t. cp_direct st name = Some t \<longrightarrow> cp_closed st' t) \<and>
        (\<forall>nodeURL ident h ks. ag_Name h = name \<and> name \<noteq> [] \<and> \<not> (IsWorker ident \<and> id_Tenant ident = []) \<and>
             patient (ts_ttl (cp_sandboxTombstones st)) (ae_now e) ks \<longrightarrow>
           fst (knock nodeURL ident h ks st') = replicate (length ks) (ConnectRefused 410) \<and>
           cp_sandboxes (snd (knock nodeURL ident h ks st')) = cp_sandboxes st')) \<and>
     (\<not> HasPrefix (sb_ProxyURL sb) ''direct://'' \<longrightarrow> (\<forall>t. cp_tunnels st (sb_PoderID sb) = Some t \<longrightarrow>
        WorkerRequest t ''DELETE'' (''http://poder/sandboxes/'' @ name) \<in> set (cp_effects st')))"
proof -
  let ?st' = "snd (deleteSandbox e name st)"
  have a: "fst (deleteSandbox e name st) = Status 200" using assms(1) by (simp add: deleteSandbox_def Sandbox_Get_def Let_def)
  define s0 where "s0 = (if HasPrefix (sb_ProxyURL sb) ''direct://'' \<or> sb_PoderID sb \<noteq> [] then st
      else close_direct name (st\<lparr>cp_sandboxTombstones := Tombstones_Add (ae_now e) name (cp_sandboxTombstones st)\<rparr>))"
  have "iteration_order (ae_jobs e) (js_jobs (cp_jobs s0))" using assms(2) by (simp add: s0_def)
  from failJobsFor_not_pending [OF this]
  have jobs: "j_Status j \<noteq> JobPending" if "js_jobs (cp_jobs ?st') i = Some j" "j_SandboxName j = name" for i j
    using that unfolding deleteSandbox_jobs [OF assms(1)] s0_def [symmetric] by blast
  have tomb: "cp_sandboxTombstones (failJobsFor t ids n m s) = cp_sandboxTombstones s" "cp_direct (failJobsFor t ids n m s) = cp_direct s" for t ids n m s
    unfolding failJobsFor_def by (rule fold_keeps; simp add: fail_pending_one_def fail_job_def split: option.split)+
  have direct: "cp_direct ?st' name = None \<and> (\<forall>t. cp_direct st name = Some t \<longrightarrow> cp_closed ?st' t) \<and>
      cp_sandboxTombstones ?st' = Tombstones_Add (ae_now e) name (cp_sandboxTombstones st)" if "HasPrefix (sb_ProxyURL sb) ''direct://''"
    using that assms(1)
    by (simp add: deleteSandbox_def Sandbox_Get_def Let_def Tunnel_Remove_def close_direct_def Tunnel_Get_def tomb split: option.split)
  have worker: "WorkerRequest t ''DELETE'' (''http://poder/sandboxes/'' @ name) \<in> set (cp_effects ?st')"
    if "\<not> HasPrefix (sb_ProxyURL sb) ''direct://''" "cp_tunnels st (sb_PoderID sb) = Some t" for t
    using that assms(1) by (auto simp: deleteSandbox_def Sandbox_Get_def Let_def close_direct_def Tunnel_Get_def split: option.split)
  have "\<forall>i j. js_jobs (cp_jobs ?st') i = Some j \<and> j_SandboxName j = name \<longrightarrow> j_Status j \<noteq> JobPending" using jobs by blast
  moreover have "resume_step envs cfg dec later i (d, ?st') = (d, ?st')"
    if "map_option j_SandboxName (js_jobs (cp_jobs ?st') i) = Some name" for envs cfg dec later i d
    using that jobs by (auto simp: resume_step_def resume_job_def GetJob_def)
  moreover have "fst (knock nodeURL ident h ks ?st') = replicate (length ks) (ConnectRefused 410) \<and>
      cp_sandboxes (snd (knock nodeURL ident h ks ?st')) = cp_sandboxes ?st'"
    if "HasPrefix (sb_ProxyURL sb) ''direct://''" "ag_Name h = name" "name \<noteq> []" "\<not> (IsWorker ident \<and> id_Tenant ident = [])"
      "patient (ts_ttl (cp_sandboxTombstones st)) (ae_now e) ks" for nodeURL ident h ks
    using deleted_agent_stays_away [OF that(2-4) assms(3) _ that(5)] direct [OF that(1)] by blast
  ultimately show ?thesis
    using a direct worker deleteSandbox_sandboxes [of e name st] unfolding case_prod_beta Let_def by blast
qed

theorem delete_is_final_witness:
  "cp_sandboxes (snd (deleteSandbox demo_api_env ''box'' bobs_control)) ''box'' = None"
proof -
  have "cp_sandboxes bobs_control ''box'' = Some ((demo_sandbox ''box'' ''p1'')\<lparr>sb_State := StateRunning, sb_Owner := ''bob''\<rparr>)"
    "iteration_order (ae_jobs demo_api_env) (js_jobs (cp_jobs bobs_control))" "0 \<le> ts_ttl (cp_sandboxTombstones bobs_control)"
    by (simp_all add: bobs_control_def demo_control_def demo_api_env_def NewJobStore_def iteration_order_def NewTombstones_def)
  from delete_is_final [OF this] show ?thesis by (simp add: case_prod_beta Let_def)
qed

text \<open>The end of an old connection does not disturb a newer one: when an agent has reconnected, the clean-up of its
  previous tunnel changes no record and no connection; the clean-up of the current one takes the connection out and
  marks the record.\<close>

theorem stale_agent_disconnect_is_harmless:
  "(cp_direct st name \<noteq> Some t \<longrightarrow>
      cp_sandboxes (agentDisconnect nodeURL name t st) = cp_sandboxes st \<and>
      cp_direct (agentDisconnect nodeURL name t st) = cp_direct st \<and> cp_owners (agentDisconnect nodeURL name t st) = cp_owners st) \<and>
   (cp_direct st name = Some t \<longrightarrow>
      cp_direct (agentDisconnect nodeURL name t st) name = None \<and>
      map_option sb_State (cp_sandboxes (agentDisconnect nodeURL name t st) name) =
        map_option (\<lambda>_. StateError) (cp_sandboxes st name))"
  by (auto simp: agentDisconnect_def Tunnel_Get_def Tunnel_Remove_def option.map_comp comp_def)

definition text_ok :: "sandbox_info \<Rightarrow> bool" where
  "text_ok sb \<longleftrightarrow> ValidString (sb_Region sb) \<and> ValidString (sb_Arch sb) \<and> ValidString (sb_OS sb) \<and> ValidString (sb_OSVersion sb)"

text \<open>In a table whose records hold valid UTF-8 in region, architecture, operating system and its version, those four
  fields are valid UTF-8 after any agent connected. Name, id and proxy URL are taken from the header as they are.\<close>

theorem agent_text_is_valid:
  assumes "\<forall>n sb. cp_sandboxes st n = Some sb \<longrightarrow> text_ok sb"
  shows "\<forall>n sb. cp_sandboxes (snd (agentConnect now nodeURL ident h upgraded tunnel st)) n = Some sb \<longrightarrow> text_ok sb"
proof -
  obtain res st' where run: "agentConnect now nodeURL ident h upgraded tunnel st = (res, st')" by fastforce
  have "text_ok (agent_record now ident h)" "text_ok sb \<Longrightarrow> text_ok (agent_rejoin now ident h sb)" for sb
    by (simp_all add: text_ok_def agent_record_def agent_rejoin_def sanitizeUTF8_def ValidString_ToValidUTF8)
  with agentConnect_cases [OF run] run assms show ?thesis by (auto split: option.splits if_splits)
qed

text \<open>A report changes one job and the sandbox of that job, and nobody but an administrator can send one.\<close>

theorem job_reports_are_admin_only:
  assumes "jobsHandler now ident meth jobID body st = (ans, st')"
  shows "(\<not> IsAdmin ident \<longrightarrow> st' = st) \<and>
    (\<forall>i. i \<noteq> jobID \<longrightarrow> js_jobs (cp_jobs st') i = js_jobs (cp_jobs st) i) \<and>
    (\<forall>j n. js_jobs (cp_jobs st) jobID = Some j \<and> n \<noteq> j_SandboxName j \<longrightarrow> cp_sandboxes st' n = cp_sandboxes st n) \<and>
    (\<forall>j. ans = JobIs j \<longrightarrow> canAccessJob ident j \<and> js_jobs (cp_jobs st) jobID = Some j)"
  using assms by (auto simp: jobsHandler_def GetJob_def Let_def split: if_splits option.splits)

text \<open>A completed or failed report moves the sandbox of the job to the state that goes with the kind of job.\<close>

definition reported_state :: "job_type \<Rightarrow> bool \<Rightarrow> sandbox_state \<Rightarrow> sandbox_state" where
  "reported_state ty ok old =
     (case ty of ExecuteCommand \<Rightarrow> old
      | CreateSandbox \<Rightarrow> if ok then StateRunning else StateError
      | StartSandbox \<Rightarrow> if ok then StateRunning else StateError
      | StopSandbox \<Rightarrow> if ok then StateStopped else StateError
      | DeleteSandbox \<Rightarrow> if ok then StateTerminated else StateError)"

theorem job_report_moves_sandbox:
  assumes "IsAdmin ident" and "jobID \<noteq> []" and "js_jobs (cp_jobs st) jobID = Some j"
    and "cp_sandboxes st (j_SandboxName j) = Some sb" and "up_JobStatus req = JobCompleted \<or> up_JobStatus req = JobFailed"
  shows "\<exists>sb' j'. cp_sandboxes (snd (jobsHandler now ident ''PATCH'' jobID (Some req) st)) (j_SandboxName j) = Some sb' \<and>
     sb_State sb' = reported_state (j_Type j) (up_JobStatus req = JobCompleted) (sb_State sb) \<and>
     sb_Owner sb' = sb_Owner sb \<and> sb_Name sb' = sb_Name sb \<and>
     js_jobs (cp_jobs (snd (jobsHandler now ident ''PATCH'' jobID (Some req) st))) jobID = Some j' \<and>
     j_Status j' = up_JobStatus req \<and> j_Owner j' = j_Owner j \<and> j_UpdatedAt j' = now"
proof -
  have "sb_State (move_sandbox (j_Type j) req sb) = reported_state (j_Type j) (up_JobStatus req = JobCompleted) (sb_State sb)"
    "sb_Owner (move_sandbox (j_Type j) req sb) = sb_Owner sb" "sb_Name (move_sandbox (j_Type j) req sb) = sb_Name sb"
    by (cases "j_Type j"; auto simp: move_sandbox_def reported_state_def Let_def split: option.splits)+
  then show ?thesis
    using assms by (auto simp: jobsHandler_def GetJob_def Let_def apply_report_def)
qed

section \<open>Concrete runs\<close>

definition demo_worker :: identity where
  "demo_worker = \<lparr>id_Name = ''w'', id_Role = RoleWorker, id_Tenant = ''acme''\<rparr>"

definition demo_admin :: identity where
  "demo_admin = \<lparr>id_Name = ''root'', id_Role = RoleAdmin, id_Tenant = []\<rparr>"

definition demo_agent :: "string \<Rightarrow> agent_headers" where
  "demo_agent name = \<lparr>ag_Name = name, ag_Region = ''eu'', ag_Arch = ''amd64'', ag_OS = ''windows'',
     ag_OSVersion = [char_of (176 :: nat), CHR ''x'']\<rparr>"

definition agent_control :: control where
  "agent_control = demo_control\<lparr>cp_sandboxes := [''box'' \<mapsto> (demo_sandbox ''box'' ''p1'')\<lparr>sb_Owner := ''workspace:other'', sb_State := StateRunning\<rparr>],
     cp_jobs := NewJobStore\<lparr>js_jobs := [''j1'' \<mapsto> (demo_job ''j1'' 0)\<lparr>j_SandboxName := ''box'', j_Type := StopSandbox\<rparr>]\<rparr>\<rparr>"

theorem agent_stays_in_workspace_witness:
  "fst (agentConnect 1 [] demo_worker (demo_agent ''box'') True (Some 9) agent_control) = ConnectRefused 409 \<and>
   cp_sandboxes (snd (agentConnect 1 [] demo_worker (demo_agent ''box'') True (Some 9) agent_control)) ''box'' = cp_sandboxes agent_control ''box''"
proof -
  let ?run = "agentConnect 1 [] demo_worker (demo_agent ''box'') True (Some 9) agent_control"
  have r: "fst ?run = ConnectRefused 409" by code_simp
  have "\<not> IsAdmin demo_worker" by code_simp
  moreover have "?run = (fst ?run, snd ?run)" by simp
  moreover have "cp_sandboxes agent_control ''box'' = Some ((demo_sandbox ''box'' ''p1'')\<lparr>sb_Owner := ''workspace:other'', sb_State := StateRunning\<rparr>)"
    by (simp add: agent_control_def)
  ultimately show ?thesis using agent_stays_in_workspace [of 1 "[]" demo_worker "demo_agent ''box''" True "Some 9" agent_control] r
    by (fastforce simp: sandboxOwner_def demo_worker_def)
qed

theorem agent_record_has_owner_witness:
  "\<exists>sb. cp_sandboxes (snd (agentConnect 1 [] demo_worker (demo_agent ''mac'') True (Some 9) agent_control)) ''mac'' = Some sb \<and> sb_Owner sb \<noteq> []"
proof -
  let ?run = "agentConnect 1 [] demo_worker (demo_agent ''mac'') True (Some 9) agent_control"
  have "fst ?run = Connected 9" by code_simp
  then have run: "?run = (Connected 9, snd ?run)" by (metis prod.collapse)
  have "IsWorker demo_worker \<or> id_Name demo_worker \<noteq> []" by code_simp
  from agent_record_has_owner [OF run this] show ?thesis by (auto simp: demo_agent_def)
qed

theorem deleted_agent_stays_away_witness:
  "fst (knock [] demo_worker (demo_agent ''mac'') [(100, 1), (200, 2)]
     (agent_control\<lparr>cp_sandboxTombstones := Tombstones_Add 50 ''mac'' (NewTombstones (5 * minute))\<rparr>))
     = [ConnectRefused 410, ConnectRefused 410]"
proof -
  have "ts_ttl (NewTombstones (5 * minute)) = 5 * minute" by (simp add: NewTombstones_def)
  then show ?thesis
    using deleted_agent_stays_away [of "demo_agent ''mac''" "''mac''" demo_worker "NewTombstones (5 * minute)"
      "agent_control\<lparr>cp_sandboxTombstones := Tombstones_Add 50 ''mac'' (NewTombstones (5 * minute))\<rparr>" 50 "[(100, 1), (200, 2)]" "[]"]
    by (simp add: demo_agent_def demo_worker_def)
qed

theorem stale_agent_disconnect_is_harmless_witness:
  "cp_sandboxes (agentDisconnect [] ''mac'' 3 (agent_control\<lparr>cp_direct := [''mac'' \<mapsto> 4]\<rparr>)) = cp_sandboxes agent_control"
  using stale_agent_disconnect_is_harmless [of "agent_control\<lparr>cp_direct := [''mac'' \<mapsto> 4]\<rparr>" "''mac''" 3 "[]"] by simp

theorem agent_text_is_valid_witness:
  "\<exists>sb. cp_sandboxes (snd (agentConnect 1 [] demo_worker (demo_agent ''mac'') True (Some 9) agent_control)) ''mac'' = Some sb \<and> text_ok sb"
proof -
  have "\<forall>n sb. cp_sandboxes agent_control n = Some sb \<longrightarrow> text_ok sb"
    by (auto simp: agent_control_def text_ok_def demo_sandbox_def intro!: ascii_valid)
  note ok = agent_text_is_valid [OF this, of 1 "[]" demo_worker "demo_agent ''mac''" True "Some 9"]
  have "case cp_sandboxes (snd (agentConnect 1 [] demo_worker (demo_agent ''mac'') True (Some 9) agent_control)) ''mac'' of
      None \<Rightarrow> False | Some _ \<Rightarrow> True" by code_simp
  with ok show ?thesis by (auto split: option.splits)
qed

theorem job_reports_are_admin_only_witness:
  "snd (jobsHandler 5 demo_worker ''PATCH'' ''j1'' (Some \<lparr>up_JobStatus = JobFailed, up_Error = [], up_Result = None\<rparr>) agent_control)
     = agent_control"
proof -
  have "\<not> IsAdmin demo_worker" by code_simp
  then show ?thesis using job_reports_are_admin_only by (metis prod.collapse)
qed

theorem job_report_moves_sandbox_witness:
  "\<exists>sb'. cp_sandboxes (snd (jobsHandler 5 demo_admin ''PATCH'' ''j1''
      (Some \<lparr>up_JobStatus = JobCompleted, up_Error = [], up_Result = None\<rparr>) agent_control)) ''box'' = Some sb' \<and>
     sb_State sb' = StateStopped"
proof -
  let ?req = "\<lparr>up_JobStatus = JobCompleted, up_Error = [], up_Result = None\<rparr>"
  let ?j = "(demo_job ''j1'' 0)\<lparr>j_SandboxName := ''box'', j_Type := StopSandbox\<rparr>"
  have "IsAdmin demo_admin" by code_simp
  then show ?thesis
    using job_report_moves_sandbox [of demo_admin "''j1''" agent_control ?j _ ?req 5]
    by (auto simp: agent_control_def reported_state_def)
qed

text \<open>Gaps. The enrolment takes another credential than the one the request was authenticated with; the
  direct start marks a sandbox as running whatever the worker answered; an administrator's agent moves a
  record of another workspace to itself; a name is not sanitized.\<close>

lemma enrolment_takes_other_credential:
  "presentedToken \<lparr>ah_Sandrpod = ''join'', ah_Authorization = ''Bearer other''\<rparr> = ''other''"
  by code_simp

lemma start_failure_is_ignored:
  "(case poderSandbox (demo_api_env\<lparr>ae_worker := (\<lambda>_ _ _. Some 500)\<rparr>) ''POST'' ''p1'' 7 ''box'' ''start''
      (update_sandbox ''box'' (\<lambda>s. s\<lparr>sb_State := StateStopped\<rparr>) agent_control) of
    (a, st) \<Rightarrow> a = Status 500 \<and> map_option sb_State (cp_sandboxes st ''box'') = Some StateRunning)"
  by (simp add: poderSandbox_def proxyHTTP_def agent_control_def demo_api_env_def Sandbox_Get_def demo_sandbox_def)

lemma admin_agent_takes_over:
  "map_option sb_Owner (cp_sandboxes (snd (agentConnect 1 [] demo_admin (demo_agent ''box'') True (Some 9) agent_control)) ''box'')
     = Some ''root''"
  by code_simp

lemma agent_name_is_not_sanitized:
  "map_option (\<lambda>sb. ValidString (sb_Name sb))
     (cp_sandboxes (snd (agentConnect 1 [] demo_worker (demo_agent [char_of (176 :: nat)]) True (Some 9) agent_control)) [char_of (176 :: nat)])
     = Some False"
  by code_simp

end
