(* ===== verification/Toolbox_Files.thy ===== *)
theory Toolbox_Files
  imports Perm_Gate Go_Http
begin

text \<open>
  File operations of the toolbox, the service inside a sandbox: \<^verbatim>\<open>src/pkg/toolbox/files.go\<close>, the path
  checks of \<^verbatim>\<open>src/pkg/toolbox/executor.go\<close> and the file routes of \<^verbatim>\<open>src/pkg/toolbox/api.go\<close>. This is the
  main client of the permission gate. An access to the disk is recorded in a log; what the disk
  answers to it, after the accesses before it, is an argument, as are the user, the clock and the
  concurrent calls of the gate.

  Shown here: of the operations that ask the gate, no access reaches a path that is black-listed or was
  hard-locked when the operation began, and no change reaches a mandatory-deny path; what the search, the
  search in contents, the recursive delete and the move do to paths the gate is never asked about.
\<close>

section \<open>State\<close>

datatype file_access =
    AcReadDir string
  | AcStat string
  | AcReadFile string
  | AcWriteFile string string
  | AcRemoveAll string
  | AcRename string string
  | AcMkdirAll string
  | AcChmod string nat
  | AcChown string int int
  | AcGlob string
  | AcWalk string

record toolbox_info =
  ti_Name :: string
  ti_Path :: string
  ti_IsDir :: bool
  ti_Size :: nat

text \<open>An entry of a directory is its name, whether it is a directory, and its size if it can be read; a walk
  meets paths in its order, each a directory or a file with its size, unreadable ones left out.\<close>

datatype disk_answer =
    DkErr string
  | DkOk
  | DkEntries "(string \<times> bool \<times> nat option) list"
  | DkStat bool nat
  | DkData string
  | DkPaths "string list"
  | DkTree "(string \<times> bool \<times> nat) list"

record files_state =
  fl_gate :: gate
  fl_log :: "file_access list"

record executor =
  ex_env :: os_env
  ex_workDir :: string
  ex_manager :: "manager option"
  ex_session :: string
  ex_notify :: notifier
  ex_call :: "request \<Rightarrow> others \<times> flush_outcome \<times> gotime"
  ex_disk :: "file_access list \<Rightarrow> file_access \<Rightarrow> disk_answer"
  ex_readBlacklist :: "string list"
  ex_writeBlacklist :: "string list"

datatype file_error =
    AccessDenied
  | Required string
  | ReadDirFailed string
  | StatFailed string
  | OpFailed string

section \<open>Paths\<close>

definition rawReadBlacklist :: "string list" where
  "rawReadBlacklist = [''/proc'', ''/sys'', ''/dev'', ''/boot'']"

definition rawWriteBlacklist :: "string list" where
  "rawWriteBlacklist = [''/etc'', ''/root'', ''/bin'', ''/sbin'', ''/usr'', ''/lib'', ''/lib64'', ''/var/run'']"

definition add_unseen :: "string \<Rightarrow> string list \<Rightarrow> string list" where
  "add_unseen p res = (if p \<in> set res then res else res @ [p])"

definition expandBlacklist :: "os_env \<Rightarrow> string list \<Rightarrow> string list" where
  "expandBlacklist env ps =
     fold (\<lambda>p res. let res1 = add_unseen p res in
       case env_eval env p of None \<Rightarrow> res1 | Some r \<Rightarrow> add_unseen r res1) ps []"

definition isBlacklisted :: "string \<Rightarrow> string list \<Rightarrow> bool" where
  "isBlacklisted clean ps = list_ex (\<lambda>prefix. clean = prefix \<or> HasPrefix clean (prefix @ [sep])) ps"

function resolveSymlinks :: "os_env \<Rightarrow> string \<Rightarrow> string" where
  "resolveSymlinks env p =
     (case env_eval env p of
        Some r \<Rightarrow> r
      | None \<Rightarrow> let parent = Dir p in
          if parent = p then p else filepath_Join [resolveSymlinks env parent, Base p])"
  by pat_completeness auto
termination
  by (relation "measure (\<lambda>(env, p). dir_measure p)") (auto intro: Dir_progress)

declare resolveSymlinks.simps [simp del]

definition resolveSafePath :: "executor \<Rightarrow> string \<Rightarrow> bool \<Rightarrow> file_error + string" where
  "resolveSafePath ex p write =
     (if p = [] then Inr (ex_workDir ex)
      else let q = (if IsAbs p then p else filepath_Join [ex_workDir ex, p]);
               clean = resolveSymlinks (ex_env ex) (Clean q)
           in if isBlacklisted clean (ex_readBlacklist ex) then Inl AccessDenied
              else if write \<and> isBlacklisted clean (ex_writeBlacklist ex) then Inl AccessDenied
              else Inr clean)"

definition file_request :: "executor \<Rightarrow> string \<Rightarrow> mode \<Rightarrow> string \<Rightarrow> request" where
  "file_request ex safe md caller =
     \<lparr>rq_Path = safe, rq_Mode = md, rq_Caller = caller, rq_SessionID = ex_session ex\<rparr>"

definition resolveAndAuthorize ::
  "executor \<Rightarrow> string \<Rightarrow> mode \<Rightarrow> string \<Rightarrow> files_state \<Rightarrow> (file_error + string) \<times> files_state" where
  "resolveAndAuthorize ex p md caller st =
     (case resolveSafePath ex p (md = ModeWrite \<or> md = ModeReadWrite) of
        Inl e \<Rightarrow> (Inl e, st)
      | Inr safe \<Rightarrow>
          (case ex_manager ex of
             None \<Rightarrow> (Inr safe, st)
           | Some m \<Rightarrow>
               let req = file_request ex safe md caller in
               (case ex_call ex req of (oth, out, now) \<Rightarrow>
                  (case Check (ex_env ex) m (ex_notify ex) oth out now req (fl_gate st) of (dec, g) \<Rightarrow>
                     (if d_Action dec = ActionDeny then Inl AccessDenied else Inr safe, st\<lparr>fl_gate := g\<rparr>)))))"

text \<open>An access: the answer of the disk and the log with it.\<close>

definition access :: "executor \<Rightarrow> file_access \<Rightarrow> files_state \<Rightarrow> disk_answer \<times> files_state" where
  "access ex a st = (ex_disk ex (fl_log st) a, st\<lparr>fl_log := fl_log st @ [a]\<rparr>)"

definition and_then :: "('e + 'a) \<times> 's \<Rightarrow> ('a \<Rightarrow> 's \<Rightarrow> ('e + 'b) \<times> 's) \<Rightarrow> ('e + 'b) \<times> 's" where
  "and_then r k = (case r of (Inl e, s) \<Rightarrow> (Inl e, s) | (Inr x, s) \<Rightarrow> k x s)"

section \<open>The operations\<close>

definition ListFiles :: "executor \<Rightarrow> string \<Rightarrow> files_state \<Rightarrow> (file_error + toolbox_info list) \<times> files_state" where
  "ListFiles ex path st =
     and_then (resolveAndAuthorize ex path ModeRead ''files.list'' st) (\<lambda>safe st1.
       case access ex (AcReadDir safe) st1 of
         (DkEntries es, st2) \<Rightarrow>
           (Inr (map (\<lambda>(n, d, sz). \<lparr>ti_Name = n, ti_Path = filepath_Join [safe, n], ti_IsDir = d,
              ti_Size = (case sz of Some k \<Rightarrow> k | None \<Rightarrow> 0)\<rparr>) es), st2)
       | (DkErr e, st2) \<Rightarrow> (Inl (ReadDirFailed e), st2)
       | (_, st2) \<Rightarrow> (Inl (ReadDirFailed []), st2))"

text \<open>An access whose answer is only an error or none.\<close>

definition act :: "executor \<Rightarrow> file_access \<Rightarrow> files_state \<Rightarrow> (file_error + unit) \<times> files_state" where
  "act ex a st = (case access ex a st of (DkErr e, st1) \<Rightarrow> (Inl (OpFailed e), st1) | (_, st1) \<Rightarrow> (Inr (), st1))"

definition DeleteFile :: "executor \<Rightarrow> string \<Rightarrow> files_state \<Rightarrow> (file_error + unit) \<times> files_state" where
  "DeleteFile ex path st =
     (if path = [] then (Inl (Required ''path''), st)
      else and_then (resolveAndAuthorize ex path ModeWrite ''files.delete'' st) (\<lambda>safe. act ex (AcRemoveAll safe)))"

definition MoveFile :: "executor \<Rightarrow> string \<Rightarrow> string \<Rightarrow> files_state \<Rightarrow> (file_error + unit) \<times> files_state" where
  "MoveFile ex src dst st =
     (if src = [] \<or> dst = [] then (Inl (Required ''source and destination''), st)
      else and_then (resolveAndAuthorize ex src ModeWrite ''files.move.src'' st) (\<lambda>safeSrc st1.
        and_then (resolveAndAuthorize ex dst ModeWrite ''files.move.dst'' st1) (\<lambda>safeDst. act ex (AcRename safeSrc safeDst))))"

definition CreateFolder :: "executor \<Rightarrow> string \<Rightarrow> files_state \<Rightarrow> (file_error + unit) \<times> files_state" where
  "CreateFolder ex path st =
     (if path = [] then (Inl (Required ''path''), st)
      else and_then (resolveAndAuthorize ex path ModeWrite ''files.mkdir'' st) (\<lambda>safe. act ex (AcMkdirAll safe)))"

definition GetFileInfo :: "executor \<Rightarrow> string \<Rightarrow> files_state \<Rightarrow> (file_error + toolbox_info) \<times> files_state" where
  "GetFileInfo ex path st =
     and_then (resolveAndAuthorize ex path ModeRead ''files.info'' st) (\<lambda>safe st1.
       case access ex (AcStat safe) st1 of
         (DkStat d sz, st2) \<Rightarrow> (Inr \<lparr>ti_Name = Base safe, ti_Path = safe, ti_IsDir = d, ti_Size = sz\<rparr>, st2)
       | (DkErr e, st2) \<Rightarrow> (Inl (StatFailed e), st2)
       | (_, st2) \<Rightarrow> (Inl (StatFailed []), st2))"

definition read_data :: "executor \<Rightarrow> string \<Rightarrow> files_state \<Rightarrow> (file_error + string) \<times> files_state" where
  "read_data ex safe st =
     (case access ex (AcReadFile safe) st of
        (DkData b, st1) \<Rightarrow> (Inr b, st1)
      | (DkErr e, st1) \<Rightarrow> (Inl (OpFailed e), st1)
      | (_, st1) \<Rightarrow> (Inl (OpFailed []), st1))"

definition DownloadFile :: "executor \<Rightarrow> string \<Rightarrow> files_state \<Rightarrow> (file_error + string) \<times> files_state" where
  "DownloadFile ex path st =
     (if path = [] then (Inl (Required ''path''), st)
      else and_then (resolveAndAuthorize ex path ModeRead ''files.download'' st) (read_data ex))"

definition SearchFiles :: "executor \<Rightarrow> string \<Rightarrow> string \<Rightarrow> files_state \<Rightarrow> (file_error + string list) \<times> files_state" where
  "SearchFiles ex path pat st =
     and_then (resolveAndAuthorize ex path ModeRead ''files.search'' st) (\<lambda>safe st1.
       if pat = [] then (Inl (Required ''pattern''), st1)
       else case access ex (AcGlob (filepath_Join [safe, pat])) st1 of
         (DkPaths ps, st2) \<Rightarrow> (Inr ps, st2)
       | (DkErr e, st2) \<Rightarrow> (Inl (OpFailed e), st2)
       | (_, st2) \<Rightarrow> (Inl (OpFailed []), st2))"

record find_match =
  fm_File :: string
  fm_Line :: nat
  fm_Content :: string

definition findMaxFileSize :: nat where "findMaxFileSize = 5 * 2 ^ 20"
definition findMaxMatches :: nat where "findMaxMatches = 5000"

text \<open>The lines of one file; the flag tells that enough matches are collected.\<close>

fun find_lines :: "string \<Rightarrow> string \<Rightarrow> nat \<Rightarrow> string list \<Rightarrow> find_match list \<Rightarrow> find_match list \<times> bool" where
  "find_lines pat file i [] res = (res, False)"
| "find_lines pat file i (l # ls) res =
     (if Contains l pat then
        let res1 = res @ [\<lparr>fm_File = file, fm_Line = Suc i, fm_Content = l\<rparr>] in
        if findMaxMatches \<le> length res1 then (res1, True) else find_lines pat file (Suc i) ls res1
      else find_lines pat file (Suc i) ls res)"

fun find_walk :: "executor \<Rightarrow> string \<Rightarrow> (string \<times> bool \<times> nat) list \<Rightarrow> find_match list \<Rightarrow> files_state \<Rightarrow> find_match list \<times> files_state" where
  "find_walk ex pat [] res st = (res, st)"
| "find_walk ex pat ((file, isDir, sz) # rest) res st =
     (if isDir then find_walk ex pat rest res st
      else if sz > findMaxFileSize then find_walk ex pat rest res st
      else case read_data ex file st of
        (Inl _, st1) \<Rightarrow> find_walk ex pat rest res st1
      | (Inr content, st1) \<Rightarrow>
          (case find_lines pat file 0 (Split content (CHR 0x0A)) res of
             (res1, True) \<Rightarrow> (res1, st1)
           | (res1, False) \<Rightarrow> find_walk ex pat rest res1 st1))"

definition FindInFiles :: "executor \<Rightarrow> string \<Rightarrow> string \<Rightarrow> files_state \<Rightarrow> (file_error + find_match list) \<times> files_state" where
  "FindInFiles ex path pat st =
     and_then (resolveAndAuthorize ex path ModeRead ''files.find'' st) (\<lambda>safe st1.
       if pat = [] then (Inl (Required ''pattern''), st1)
       else case access ex (AcWalk safe) st1 of
         (DkTree tree, st2) \<Rightarrow> (case find_walk ex pat tree [] st2 of (res, st3) \<Rightarrow> (Inr res, st3))
       | (_, st2) \<Rightarrow> (Inr [], st2))"

record replace_result =
  rr_File :: string
  rr_Success :: bool

fun replace_loop :: "executor \<Rightarrow> string \<Rightarrow> string \<Rightarrow> string list \<Rightarrow> files_state \<Rightarrow> replace_result list \<times> files_state" where
  "replace_loop ex pat new [] st = ([], st)"
| "replace_loop ex pat new (file # files) st =
     (case (case resolveAndAuthorize ex file ModeWrite ''files.replace'' st of
              (Inl e, st1) \<Rightarrow> (\<lparr>rr_File = file, rr_Success = False\<rparr>, st1)
            | (Inr safe, st1) \<Rightarrow>
                (case and_then (read_data ex safe st1) (\<lambda>content. act ex (AcWriteFile safe (ReplaceAll content pat new))) of
                   (r, st2) \<Rightarrow> (\<lparr>rr_File = safe, rr_Success = \<not> isl r\<rparr>, st2))) of
        (r, st1) \<Rightarrow> (case replace_loop ex pat new files st1 of (rs, st2) \<Rightarrow> (r # rs, st2)))"

definition ReplaceInFiles ::
  "executor \<Rightarrow> string list \<Rightarrow> string \<Rightarrow> string \<Rightarrow> files_state \<Rightarrow> (file_error + replace_result list) \<times> files_state" where
  "ReplaceInFiles ex files pat new st =
     (if files = [] then (Inl (Required ''files''), st)
      else if pat = [] then (Inl (Required ''pattern''), st)
      else case replace_loop ex pat new files st of (rs, st1) \<Rightarrow> (Inr rs, st1))"

text \<open>\<^verbatim>\<open>fmt.Sscanf\<close> with \<^verbatim>\<open>%d\<close> and with \<^verbatim>\<open>%o\<close>: leading blanks, the longest run of digits, nothing if it is empty or too large.\<close>

definition scan_dec :: "string \<Rightarrow> int option" where
  "scan_dec s0 =
     (let s = dropWhile (\<lambda>c. c = CHR '' '' \<or> c = CHR 0x09) s0;
          neg = HasPrefix s ''-''; s1 = (if neg \<or> HasPrefix s ''+'' then tl s else s); ds = takeWhile is_digit s1;
          v = (if neg then - int (digits_val ds) else int (digits_val ds))
      in if ds = [] \<or> v < - (2 ^ 63) \<or> v \<ge> 2 ^ 63 then None else Some v)"

definition scan_oct :: "string \<Rightarrow> nat option" where
  "scan_oct s0 =
     (let s = dropWhile (\<lambda>c. c = CHR '' '' \<or> c = CHR 0x09) s0; ds = takeWhile (\<lambda>c. is_digit c \<and> digit_val c < 8) s;
          v = foldl (\<lambda>n c. 8 * n + digit_val c) 0 ds
      in if ds = [] \<or> v \<ge> 2 ^ 32 then None else Some v)"

definition SetFilePermissions ::
  "executor \<Rightarrow> string \<Rightarrow> string \<Rightarrow> string \<Rightarrow> nat \<Rightarrow> files_state \<Rightarrow> (file_error + unit) \<times> files_state" where
  "SetFilePermissions ex path owner grp md st =
     (if path = [] then (Inl (Required ''path''), st)
      else and_then (resolveAndAuthorize ex path ModeWrite ''files.chmod'' st) (\<lambda>safe st1.
        and_then (act ex (AcChmod safe md) st1) (\<lambda>_ st2.
          let uid = (case scan_dec owner of Some n \<Rightarrow> n | None \<Rightarrow> -1);
              gid = (case scan_dec grp of Some n \<Rightarrow> n | None \<Rightarrow> -1)
          in if (owner \<noteq> [] \<or> grp \<noteq> []) \<and> (uid \<ge> 0 \<or> gid \<ge> 0)
             then (Inr (), snd (access ex (AcChown safe uid gid) st2)) else (Inr (), st2))))"

section \<open>The routes\<close>

text \<open>A form is its fields, in the order in which the map is visited, each with its files: the file name in the header and the
  data, or nothing if the part cannot be opened.\<close>

type_synonym upload_form = "(string \<times> (string \<times> string option) list) list"

record files_request =
  fr_Method :: string
  fr_Path :: string
  fr_Authorization :: string
  fr_path :: string
  fr_source :: string
  fr_destination :: string
  fr_pattern :: string
  fr_owner :: string
  fr_group :: string
  fr_mode :: string
  fr_Replace :: "(string list \<times> string \<times> string) option"
  fr_Form :: "upload_form option"

datatype files_answer =
    FaStatus int
  | FaPath string
  | FaList string "toolbox_info list"
  | FaDone
  | FaInfo toolbox_info
  | FaContent string string
  | FaFound "string list"
  | FaMatches "find_match list"
  | FaReplaced "replace_result list"
  | FaUploaded string string nat
  | FaBulk "(string \<times> (string \<times> nat) option) list"

definition writeError :: "file_error \<Rightarrow> files_answer" where
  "writeError e = (if e = AccessDenied then FaStatus 403 else FaStatus 500)"

definition respond :: "(file_error \<Rightarrow> files_answer) \<Rightarrow> ('a \<Rightarrow> files_answer) \<Rightarrow> (file_error + 'a) \<times> files_state \<Rightarrow> files_answer \<times> files_state" where
  "respond bad good r = (case r of (Inl e, s) \<Rightarrow> (bad e, s) | (Inr x, s) \<Rightarrow> (good x, s))"

definition filesHandler :: "executor \<Rightarrow> files_request \<Rightarrow> files_state \<Rightarrow> files_answer \<times> files_state" where
  "filesHandler ex r st =
     (if fr_Method r \<noteq> ''GET'' then (FaStatus 405, st)
      else let path = (if fr_path r = [] then ex_workDir ex else fr_path r) in
        respond (\<lambda>e. case e of ReadDirFailed _ \<Rightarrow> FaStatus 400 | _ \<Rightarrow> writeError e) (FaList path) (ListFiles ex path st))"

definition filesDeleteHandler :: "executor \<Rightarrow> files_request \<Rightarrow> files_state \<Rightarrow> files_answer \<times> files_state" where
  "filesDeleteHandler ex r st =
     (if fr_Method r \<noteq> ''DELETE'' then (FaStatus 405, st)
      else if fr_path r = [] then (FaStatus 400, st)
      else respond writeError (\<lambda>_. FaDone) (DeleteFile ex (fr_path r) st))"

definition filesInfoHandler :: "executor \<Rightarrow> files_request \<Rightarrow> files_state \<Rightarrow> files_answer \<times> files_state" where
  "filesInfoHandler ex r st =
     (if fr_Method r \<noteq> ''GET'' then (FaStatus 405, st)
      else if fr_path r = [] then (FaStatus 400, st)
      else respond (\<lambda>e. case e of StatFailed msg \<Rightarrow> if Contains (''failed to stat: '' @ msg) ''no such file'' then FaStatus 404 else FaStatus 500
                         | _ \<Rightarrow> writeError e)
             FaInfo (GetFileInfo ex (fr_path r) st))"

definition filesMoveHandler :: "executor \<Rightarrow> files_request \<Rightarrow> files_state \<Rightarrow> files_answer \<times> files_state" where
  "filesMoveHandler ex r st =
     (if fr_Method r \<noteq> ''POST'' then (FaStatus 405, st)
      else if fr_source r = [] \<or> fr_destination r = [] then (FaStatus 400, st)
      else respond writeError (\<lambda>_. FaDone) (MoveFile ex (fr_source r) (fr_destination r) st))"

definition filesFolderHandler :: "executor \<Rightarrow> files_request \<Rightarrow> files_state \<Rightarrow> files_answer \<times> files_state" where
  "filesFolderHandler ex r st =
     (if fr_Method r \<noteq> ''POST'' then (FaStatus 405, st)
      else if fr_path r = [] then (FaStatus 400, st)
      else respond writeError (\<lambda>_. FaDone) (CreateFolder ex (fr_path r) st))"

text \<open>\<^verbatim>\<open>os.IsNotExist\<close>, by the text of the error; opening a file to serve it is recorded as reading it.\<close>

definition IsNotExist :: "string \<Rightarrow> bool" where
  "IsNotExist e = HasSuffix e ''no such file or directory''"

definition filesDownloadHandler :: "executor \<Rightarrow> files_request \<Rightarrow> files_state \<Rightarrow> files_answer \<times> files_state" where
  "filesDownloadHandler ex r st =
     (if fr_Method r \<noteq> ''GET'' \<and> fr_Method r \<noteq> ''HEAD'' then (FaStatus 405, st)
      else if fr_path r = [] then (FaStatus 400, st)
      else case resolveAndAuthorize ex (fr_path r) ModeRead ''files.download'' st of
        (Inl e, st1) \<Rightarrow> (writeError e, st1)
      | (Inr safe, st1) \<Rightarrow>
          (case read_data ex safe st1 of
             (Inl (OpFailed e), st2) \<Rightarrow> (FaStatus (if IsNotExist e then 404 else 500), st2)
           | (Inl _, st2) \<Rightarrow> (FaStatus 500, st2)
           | (Inr content, st2) \<Rightarrow>
               (case access ex (AcStat safe) st2 of
                  (DkStat isDir _, st3) \<Rightarrow> (if isDir then FaStatus 400 else FaContent (Base safe) content, st3)
                | (_, st3) \<Rightarrow> (FaStatus 500, st3))))"

definition filesSearchHandler :: "executor \<Rightarrow> files_request \<Rightarrow> files_state \<Rightarrow> files_answer \<times> files_state" where
  "filesSearchHandler ex r st =
     (if fr_Method r \<noteq> ''GET'' then (FaStatus 405, st)
      else if fr_pattern r = [] then (FaStatus 400, st)
      else respond writeError FaFound (SearchFiles ex (fr_path r) (fr_pattern r) st))"

definition filesFindHandler :: "executor \<Rightarrow> files_request \<Rightarrow> files_state \<Rightarrow> files_answer \<times> files_state" where
  "filesFindHandler ex r st =
     (if fr_Method r \<noteq> ''GET'' then (FaStatus 405, st)
      else if fr_pattern r = [] then (FaStatus 400, st)
      else respond writeError FaMatches (FindInFiles ex (fr_path r) (fr_pattern r) st))"

definition filesReplaceHandler :: "executor \<Rightarrow> files_request \<Rightarrow> files_state \<Rightarrow> files_answer \<times> files_state" where
  "filesReplaceHandler ex r st =
     (if fr_Method r \<noteq> ''POST'' then (FaStatus 405, st)
      else case fr_Replace r of
        None \<Rightarrow> (FaStatus 400, st)
      | Some (files, new, pat) \<Rightarrow> respond writeError FaReplaced (ReplaceInFiles ex files pat new st))"

definition filesPermissionsHandler :: "executor \<Rightarrow> files_request \<Rightarrow> files_state \<Rightarrow> files_answer \<times> files_state" where
  "filesPermissionsHandler ex r st =
     (if fr_Method r \<noteq> ''POST'' then (FaStatus 405, st)
      else if fr_path r = [] then (FaStatus 400, st)
      else let md = (if fr_mode r = [] then 420 else case scan_oct (fr_mode r) of Some k \<Rightarrow> k | None \<Rightarrow> 420) in
        respond writeError (\<lambda>_. FaDone) (SetFilePermissions ex (fr_path r) (fr_owner r) (fr_group r) md st))"

definition upload_file :: "upload_form \<Rightarrow> (string \<times> string) option" where
  "upload_file form =
     (case map_of form ''file'' of
        Some ((name, Some data) # _) \<Rightarrow> Some (name, data)
      | _ \<Rightarrow> None)"

definition filesUploadHandler :: "executor \<Rightarrow> files_request \<Rightarrow> files_state \<Rightarrow> files_answer \<times> files_state" where
  "filesUploadHandler ex r st =
     (if fr_Method r \<noteq> ''POST'' then (FaStatus 405, st)
      else if fr_path r = [] then (FaStatus 400, st)
      else case (case fr_Form r of None \<Rightarrow> None | Some form \<Rightarrow> upload_file form) of
        None \<Rightarrow> (FaStatus 400, st)
      | Some (name, data) \<Rightarrow>
          (case access ex (AcStat (fr_path r)) st of
             (info, st1) \<Rightarrow>
               let dest = (case info of DkStat True _ \<Rightarrow> filepath_Join [fr_path r, Base name] | _ \<Rightarrow> fr_path r) in
               (case resolveAndAuthorize ex dest ModeWrite ''files.upload'' st1 of
                  (Inl e, st2) \<Rightarrow> (writeError e, st2)
                | (Inr safe, st2) \<Rightarrow>
                    respond writeError (\<lambda>_. FaUploaded safe (Base name) (length data)) (act ex (AcWriteFile safe data) st2))))"

definition bulk_one :: "executor \<Rightarrow> string \<Rightarrow> string \<Rightarrow> string \<times> string option \<Rightarrow> files_state \<Rightarrow> (string \<times> (string \<times> nat) option) \<times> files_state" where
  "bulk_one ex path field header st =
     (case header of (name, content) \<Rightarrow>
        let safeName = Base (if name = [] then field else name) in
        (case content of
           None \<Rightarrow> ((safeName, None), st)
         | Some data \<Rightarrow>
             (case and_then (resolveAndAuthorize ex (filepath_Join [path, safeName]) ModeWrite ''files.bulk_upload'' st)
                     (\<lambda>safe st1. and_then (act ex (AcWriteFile safe data) st1) (\<lambda>_ st2. (Inr (safe, length data), st2))) of
                (Inl _, st1) \<Rightarrow> ((safeName, None), st1)
              | (Inr done_, st1) \<Rightarrow> ((safeName, Some done_), st1))))"

fun bulk_loop :: "executor \<Rightarrow> string \<Rightarrow> (string \<times> string \<times> string option) list \<Rightarrow> files_state \<Rightarrow>
    (string \<times> (string \<times> nat) option) list \<times> files_state" where
  "bulk_loop ex path [] st = ([], st)"
| "bulk_loop ex path ((field, header) # hs) st =
     (case bulk_one ex path field header st of
        (r, st1) \<Rightarrow> (case bulk_loop ex path hs st1 of (rs, st2) \<Rightarrow> (r # rs, st2)))"

definition filesBulkUploadHandler :: "executor \<Rightarrow> files_request \<Rightarrow> files_state \<Rightarrow> files_answer \<times> files_state" where
  "filesBulkUploadHandler ex r st =
     (if fr_Method r \<noteq> ''POST'' then (FaStatus 405, st)
      else if fr_path r = [] then (FaStatus 400, st)
      else case fr_Form r of
        None \<Rightarrow> (FaStatus 400, st)
      | Some form \<Rightarrow>
          (case bulk_loop ex (fr_path r) (concat (map (\<lambda>(field, hs). map (Pair field) hs) form)) st of
             (rs, st1) \<Rightarrow> (FaBulk rs, st1)))"

definition dirHandler :: "string \<Rightarrow> files_request \<Rightarrow> files_state \<Rightarrow> files_answer \<times> files_state" where
  "dirHandler dir r st = (if fr_Method r \<noteq> ''GET'' then (FaStatus 405, st) else (FaPath dir, st))"

text \<open>\<^verbatim>\<open>authMiddleware\<close> and the file routes of \<^verbatim>\<open>Handler\<close>; \<open>home\<close> is what \<^verbatim>\<open>homedir.DataHome\<close> returns.\<close>

definition file_routes :: "executor \<Rightarrow> string \<Rightarrow> string \<Rightarrow> files_request \<Rightarrow> files_state \<Rightarrow> files_answer \<times> files_state" where
  "file_routes ex token home r st =
     (let p = fr_Path r in
      if token \<noteq> [] \<and> fr_Authorization r \<noteq> ''Bearer '' @ token then (FaStatus 401, st)
      else if p = ''/files/project-dir'' \<or> p = ''/files/work-dir'' then dirHandler (ex_workDir ex) r st
      else if p = ''/files/user-home-dir'' then dirHandler home r st
      else if p = ''/files'' then filesHandler ex r st
      else if p = ''/files/delete'' then filesDeleteHandler ex r st
      else if p = ''/files/info'' then filesInfoHandler ex r st
      else if p = ''/files/move'' then filesMoveHandler ex r st
      else if p = ''/files/folder'' then filesFolderHandler ex r st
      else if p = ''/files/download'' then filesDownloadHandler ex r st
      else if p = ''/files/search'' then filesSearchHandler ex r st
      else if p = ''/files/find'' then filesFindHandler ex r st
      else if p = ''/files/replace'' then filesReplaceHandler ex r st
      else if p = ''/files/permissions'' then filesPermissionsHandler ex r st
      else if p = ''/files/upload'' then filesUploadHandler ex r st
      else if p = ''/files/bulk-upload'' then filesBulkUploadHandler ex r st
      else (FaStatus 404, st))"

section \<open>What the gate let through\<close>

fun access_paths :: "file_access \<Rightarrow> string list" where
  "access_paths (AcReadDir p) = [p]"
| "access_paths (AcStat p) = [p]"
| "access_paths (AcReadFile p) = [p]"
| "access_paths (AcWriteFile p data) = [p]"
| "access_paths (AcRemoveAll p) = [p]"
| "access_paths (AcRename p q) = [p, q]"
| "access_paths (AcMkdirAll p) = [p]"
| "access_paths (AcChmod p md) = [p]"
| "access_paths (AcChown p u g) = [p]"
| "access_paths (AcGlob p) = [p]"
| "access_paths (AcWalk p) = [p]"

fun changes :: "file_access \<Rightarrow> bool" where
  "changes (AcWriteFile p data) = True"
| "changes (AcRemoveAll p) = True"
| "changes (AcRename p q) = True"
| "changes (AcMkdirAll p) = True"
| "changes (AcChmod p md) = True"
| "changes (AcChown p u g) = True"
| "changes _ = False"

text \<open>The path behind the links, as the gate sees it.\<close>

definition gate_path :: "os_env \<Rightarrow> string \<Rightarrow> string" where
  "gate_path env p = (case canonicalize env p of Some c \<Rightarrow> c | None \<Rightarrow> p)"

definition open_path :: "executor \<Rightarrow> manager \<Rightarrow> perm_store \<Rightarrow> string \<Rightarrow> bool" where
  "open_path ex m s p \<longleftrightarrow>
     matchHardlock (ex_env ex) (gate_path (ex_env ex) p) (sn_Rules (ps_snap s)) (m_homeDir m) = None \<and>
     (p = ex_workDir ex \<or> \<not> isBlacklisted p (ex_readBlacklist ex))"

definition changeable :: "executor \<Rightarrow> string \<Rightarrow> bool" where
  "changeable ex p \<longleftrightarrow>
     \<not> IsMandatoryDenied (ex_env ex) (gate_path (ex_env ex) p) \<and> (p = ex_workDir ex \<or> \<not> isBlacklisted p (ex_writeBlacklist ex))"

definition guarded :: "executor \<Rightarrow> manager \<Rightarrow> perm_store \<Rightarrow> file_access \<Rightarrow> bool" where
  "guarded ex m s a \<longleftrightarrow> (\<forall>p \<in> set (access_paths a). open_path ex m s p \<and> (changes a \<longrightarrow> changeable ex p))"

text \<open>The concurrent calls change the store by its operations only, the explicit unlock apart.\<close>

definition calls_ok :: "executor \<Rightarrow> bool" where
  "calls_ok ex \<longleftrightarrow> (\<forall>req. case ex_call ex req of (oth, _) \<Rightarrow>
     (\<forall>s. store_step\<^sup>*\<^sup>* s (before_lock oth s) \<and> store_step\<^sup>*\<^sup>* s (during_prompt oth s)))"

text \<open>From \<open>s\<close> and \<open>log\<close> on, the store made its steps and the new accesses are guarded.\<close>

definition kept_to :: "executor \<Rightarrow> manager \<Rightarrow> perm_store \<Rightarrow> file_access list \<Rightarrow> files_state \<Rightarrow> bool" where
  "kept_to ex m s h st \<longleftrightarrow> store_step\<^sup>*\<^sup>* s (g_store (fl_gate st)) \<and> (\<exists>new. fl_log st = h @ new \<and> list_all (guarded ex m s) new)"

lemma gate_path_request: "rq_Path (canonical_request env (file_request ex p md c)) = gate_path env p"
  by (simp add: canonical_request_def gate_path_def file_request_def split: option.split)

lemma checkBody_steps:
  assumes "\<forall>s. store_step\<^sup>*\<^sup>* s (before_lock oth s) \<and> store_step\<^sup>*\<^sup>* s (during_prompt oth s)"
  shows "store_step\<^sup>*\<^sup>* s (snd (checkBody env m notify oth out now req s))"
proof -
  have waited: "store_step\<^sup>*\<^sup>* s (during_prompt oth (before_lock oth s))"
    using assms by (meson rtranclp_trans)
  have "store_step\<^sup>*\<^sup>* s (snd (AddSessionRule out now r (during_prompt oth (before_lock oth s))))"
    "store_step\<^sup>*\<^sup>* s (snd (AddPermanentRule out now r (during_prompt oth (before_lock oth s))))" for r
    using waited store_step.add_session store_step.add_permanent by (meson rtranclp.rtrancl_into_rtrancl)+
  then have "store_step\<^sup>*\<^sup>* s (snd (askAndPersist env m notify oth out now r s))" for r
    using assms waited by (simp add: askAndPersist_def Let_def split: sum.split prompt_response.split)
  then show ?thesis by (simp add: checkBody_def Let_def)
qed

lemma checkBody_allowed:
  assumes "d_Action (fst (checkBody env m notify oth out now req s)) \<noteq> ActionDeny"
  shows "matchHardlock env (rq_Path (canonical_request env req)) (sn_Rules (ps_snap s)) (m_homeDir m) = None"
    and "rq_Mode req \<noteq> ModeRead \<Longrightarrow> \<not> IsMandatoryDenied env (rq_Path (canonical_request env req))"
proof -
  have md: "rq_Mode (canonical_request env req) = rq_Mode req" by (simp add: canonical_request_def split: option.split)
  show "matchHardlock env (rq_Path (canonical_request env req)) (sn_Rules (ps_snap s)) (m_homeDir m) = None"
    using assms by (auto simp: checkBody_def Let_def split: if_splits)
  show "rq_Mode req \<noteq> ModeRead \<Longrightarrow> \<not> IsMandatoryDenied env (rq_Path (canonical_request env req))"
    using assms by (auto simp: checkBody_def Let_def md split: if_splits)
qed

lemma resolveSafePath_free:
  assumes "resolveSafePath ex p w = Inr safe"
  shows "safe = ex_workDir ex \<or> \<not> isBlacklisted safe (ex_readBlacklist ex)"
    and "w \<Longrightarrow> safe = ex_workDir ex \<or> \<not> isBlacklisted safe (ex_writeBlacklist ex)"
  using assms by (auto simp: resolveSafePath_def Let_def split: if_splits)

lemma authorized_path:
  assumes "resolveAndAuthorize ex p md caller st = (r, st1)" and "ex_manager ex = Some m" and "calls_ok ex" and "kept_to ex m s h st"
  shows "kept_to ex m s h st1"
    and "r = Inr safe \<Longrightarrow> open_path ex m s safe"
    and "r = Inr safe \<Longrightarrow> md = ModeWrite \<Longrightarrow> changeable ex safe"
proof -
  have "kept_to ex m s h st1 \<and> (r = Inr safe \<longrightarrow> open_path ex m s safe \<and> (md = ModeWrite \<longrightarrow> changeable ex safe))" for safe
  proof (cases "resolveSafePath ex p (md = ModeWrite \<or> md = ModeReadWrite)")
    case (Inl e)
    with assms(1,4) show ?thesis by (auto simp: resolveAndAuthorize_def)
  next
    case (Inr q)
    obtain oth out now where call: "ex_call ex (file_request ex q md caller) = (oth, out, now)" by (cases "ex_call ex (file_request ex q md caller)")
    let ?s = "g_store (fl_gate st)"
    obtain dec t where check: "checkBody (ex_env ex) m (ex_notify ex) oth out now (file_request ex q md caller) ?s = (dec, t)" by fastforce
    have steps: "store_step\<^sup>*\<^sup>* s ?s" using assms(4) by (simp add: kept_to_def)
    have "\<forall>s. store_step\<^sup>*\<^sup>* s (before_lock oth s) \<and> store_step\<^sup>*\<^sup>* s (during_prompt oth s)"
      using assms(3) [unfolded calls_ok_def, rule_format, of "file_request ex q md caller"] by (simp add: call)
    from checkBody_steps [OF this, of ?s] check have "store_step\<^sup>*\<^sup>* ?s t" by (metis snd_conv)
    then have kept: "kept_to ex m s h st1"
      using assms(1,2,4) Inr call check steps
      by (auto simp: resolveAndAuthorize_def Let_def Check_def recordDecision_def kept_to_def)
    have r: "r = Inr safe \<longleftrightarrow> safe = q \<and> d_Action dec \<noteq> ActionDeny"
      using assms(1,2) Inr call check by (auto simp: resolveAndAuthorize_def Let_def Check_def split: if_splits)
    have "d_Action dec \<noteq> ActionDeny \<Longrightarrow> matchHardlock (ex_env ex) (gate_path (ex_env ex) q) (sn_Rules (ps_snap ?s)) (m_homeDir m) = None"
      using checkBody_allowed(1) [of "ex_env ex" m "ex_notify ex" oth out now "file_request ex q md caller" ?s] check
      by (simp add: gate_path_request)
    then have "d_Action dec \<noteq> ActionDeny \<Longrightarrow> matchHardlock (ex_env ex) (gate_path (ex_env ex) q) (sn_Rules (ps_snap s)) (m_homeDir m) = None"
      using pstore.locked_stays_locked [OF steps] by blast
    moreover have "d_Action dec \<noteq> ActionDeny \<Longrightarrow> md = ModeWrite \<Longrightarrow> \<not> IsMandatoryDenied (ex_env ex) (gate_path (ex_env ex) q)"
      using checkBody_allowed(2) [of "ex_env ex" m "ex_notify ex" oth out now "file_request ex q md caller" ?s] check
      by (simp add: gate_path_request) (simp add: file_request_def ModeWrite_def ModeRead_def)
    ultimately show ?thesis
      using kept resolveSafePath_free [OF Inr] unfolding r open_path_def changeable_def by auto
  qed
  then show "kept_to ex m s h st1" "r = Inr safe \<Longrightarrow> open_path ex m s safe" "r = Inr safe \<Longrightarrow> md = ModeWrite \<Longrightarrow> changeable ex safe"
    by blast+
qed

text \<open>From here on: a gate is installed and the concurrent calls are fair.\<close>

lemma access_kept:
  assumes "kept_to ex m s h st" and "guarded ex m s a"
  shows "kept_to ex m s h (snd (access ex a st))"
  using assms by (auto simp: kept_to_def access_def)

lemma act_kept: "kept_to ex m s h st \<Longrightarrow> guarded ex m s a \<Longrightarrow> kept_to ex m s h (snd (act ex a st))"
  using access_kept [of ex m s h st a] by (auto simp: act_def split: prod.split disk_answer.split)

lemma read_data_kept: "kept_to ex m s h st \<Longrightarrow> open_path ex m s p \<Longrightarrow> kept_to ex m s h (snd (read_data ex p st))"
  using access_kept [of ex m s h st "AcReadFile p"] by (auto simp: read_data_def guarded_def split: prod.split disk_answer.split)

lemma and_then_kept:
  assumes "kept_to ex m s h (snd r)" and "\<And>x t. r = (Inr x, t) \<Longrightarrow> kept_to ex m s h t \<Longrightarrow> kept_to ex m s h (snd (k x t))"
  shows "kept_to ex m s h (snd (and_then r k))"
  using assms by (cases r) (auto simp: and_then_def split: sum.split)

lemma and_then_authorized:
  assumes "ex_manager ex = Some m" "calls_ok ex" "kept_to ex m s h st"
    and "\<And>safe t. open_path ex m s safe \<Longrightarrow> (md = ModeWrite \<longrightarrow> changeable ex safe) \<Longrightarrow> kept_to ex m s h t \<Longrightarrow> kept_to ex m s h (snd (k safe t))"
  shows "kept_to ex m s h (snd (and_then (resolveAndAuthorize ex p md caller st) k))"
proof -
  obtain r t where "resolveAndAuthorize ex p md caller st = (r, t)" by fastforce
  from authorized_path [OF this assms(1-3)] this assms(4) show ?thesis by (auto simp: and_then_def split: sum.split)
qed

lemma guarded_one:
  "open_path ex m s p \<Longrightarrow> access_paths a = [p] \<Longrightarrow> \<not> changes a \<Longrightarrow> guarded ex m s a"
  "open_path ex m s p \<Longrightarrow> changeable ex p \<Longrightarrow> access_paths a = [p] \<Longrightarrow> guarded ex m s a"
  by (simp_all add: guarded_def)

lemma reading_kept:
  assumes "ex_manager ex = Some m" "calls_ok ex" "kept_to ex m s h st"
  shows "kept_to ex m s h (snd (ListFiles ex path st))" and "kept_to ex m s h (snd (GetFileInfo ex path st))"
proof -
  show "kept_to ex m s h (snd (ListFiles ex path st))"
    unfolding ListFiles_def
  proof (rule and_then_authorized [OF assms])
    fix safe t assume "open_path ex m s safe" "kept_to ex m s h t"
    then have "kept_to ex m s h (snd (access ex (AcReadDir safe) t))" by (intro access_kept guarded_one) simp_all
    then show "kept_to ex m s h (snd (case access ex (AcReadDir safe) t of
        (DkEntries es, st2) \<Rightarrow>
          (Inr (map (\<lambda>(n, d, sz). \<lparr>ti_Name = n, ti_Path = filepath_Join [safe, n], ti_IsDir = d,
             ti_Size = (case sz of Some k \<Rightarrow> k | None \<Rightarrow> 0)\<rparr>) es), st2)
      | (DkErr e, st2) \<Rightarrow> (Inl (ReadDirFailed e), st2)
      | (_, st2) \<Rightarrow> (Inl (ReadDirFailed []), st2)))"
      by (auto split: prod.split disk_answer.split)
  qed
  show "kept_to ex m s h (snd (GetFileInfo ex path st))"
    unfolding GetFileInfo_def
  proof (rule and_then_authorized [OF assms])
    fix safe t assume "open_path ex m s safe" "kept_to ex m s h t"
    then have "kept_to ex m s h (snd (access ex (AcStat safe) t))" by (intro access_kept guarded_one) simp_all
    then show "kept_to ex m s h (snd (case access ex (AcStat safe) t of
        (DkStat d sz, st2) \<Rightarrow> (Inr \<lparr>ti_Name = Base safe, ti_Path = safe, ti_IsDir = d, ti_Size = sz\<rparr>, st2)
      | (DkErr e, st2) \<Rightarrow> (Inl (StatFailed e), st2)
      | (_, st2) \<Rightarrow> (Inl (StatFailed []), st2)))"
      by (auto split: prod.split disk_answer.split)
  qed
qed

lemma changing_kept:
  assumes "ex_manager ex = Some m" "calls_ok ex" "kept_to ex m s h st"
  shows "kept_to ex m s h (snd (DeleteFile ex path st))" and "kept_to ex m s h (snd (CreateFolder ex path st))"
    and "kept_to ex m s h (snd (MoveFile ex src dst st))" and "kept_to ex m s h (snd (SetFilePermissions ex path owner grp md st))"
proof -
  have one: "kept_to ex m s h (snd (and_then (resolveAndAuthorize ex path ModeWrite caller st) (\<lambda>safe. act ex (f safe))))"
    if "\<And>safe. access_paths (f safe) = [safe]" for f caller
    using that by (intro and_then_authorized [OF assms] act_kept guarded_one(2)) auto
  show "kept_to ex m s h (snd (DeleteFile ex path st))" "kept_to ex m s h (snd (CreateFolder ex path st))"
    using assms(3) one [of AcRemoveAll] one [of AcMkdirAll] by (simp_all add: DeleteFile_def CreateFolder_def)
  show "kept_to ex m s h (snd (MoveFile ex src dst st))"
  proof (cases "src = [] \<or> dst = []")
    case False
    have "kept_to ex m s h (snd (and_then (resolveAndAuthorize ex dst ModeWrite ''files.move.dst'' t) (\<lambda>q. act ex (AcRename p q))))"
      if "open_path ex m s p" "changeable ex p" "kept_to ex m s h t" for p t
      using that by (intro and_then_authorized [OF assms(1,2)] act_kept) (auto simp: guarded_def)
    then show ?thesis using False unfolding MoveFile_def by (simp add: and_then_authorized [OF assms])
  qed (use assms(3) in \<open>simp add: MoveFile_def\<close>)
  show "kept_to ex m s h (snd (SetFilePermissions ex path owner grp md st))"
  proof (cases "path = []")
    case False
    have "kept_to ex m s h (snd (and_then (act ex (AcChmod p md) t) (\<lambda>_ st2.
          let uid = (case scan_dec owner of Some n \<Rightarrow> n | None \<Rightarrow> -1); gid = (case scan_dec grp of Some n \<Rightarrow> n | None \<Rightarrow> -1)
          in if (owner \<noteq> [] \<or> grp \<noteq> []) \<and> (uid \<ge> 0 \<or> gid \<ge> 0)
             then (Inr () :: file_error + unit, snd (access ex (AcChown p uid gid) st2)) else (Inr (), st2))))"
      if "open_path ex m s p" "changeable ex p" "kept_to ex m s h t" for p t
      using that by (intro and_then_kept act_kept guarded_one(2)) (auto simp: Let_def intro!: access_kept guarded_one(2))
    then show ?thesis using False unfolding SetFilePermissions_def by (simp add: and_then_authorized [OF assms])
  qed (use assms(3) in \<open>simp add: SetFilePermissions_def\<close>)
qed

lemma replace_loop_kept:
  assumes "ex_manager ex = Some m" "calls_ok ex" "kept_to ex m s h st"
  shows "kept_to ex m s h (snd (replace_loop ex pat new files st))"
  using assms(3)
proof (induction files arbitrary: st)
  case (Cons f fs)
  obtain r t where auth: "resolveAndAuthorize ex f ModeWrite ''files.replace'' st = (r, t)" by fastforce
  note free = authorized_path [OF auth assms(1,2) Cons.prems]
  show ?case
  proof (cases r)
    case (Inl e)
    with auth Cons.IH [OF free(1)] show ?thesis by (simp split: prod.split) (metis snd_conv)
  next
    case (Inr safe)
    let ?k = "\<lambda>content. act ex (AcWriteFile safe (ReplaceAll content pat new))"
    have "open_path ex m s safe" "changeable ex safe" using free(2,3) Inr by auto
    then have "kept_to ex m s h (snd (and_then (read_data ex safe t) ?k))"
      using free(1) by (intro and_then_kept read_data_kept act_kept guarded_one(2)) auto
    moreover obtain x u where "and_then (read_data ex safe t) ?k = (x, u)" by fastforce
    ultimately show ?thesis using auth Inr Cons.IH [of u] by (simp split: prod.split) (metis snd_conv)
  qed
qed simp

lemma ReplaceInFiles_kept:
  assumes "ex_manager ex = Some m" "calls_ok ex" "kept_to ex m s h st"
  shows "kept_to ex m s h (snd (ReplaceInFiles ex files pat new st))"
  using assms(3) replace_loop_kept [OF assms, of pat new files] by (auto simp: ReplaceInFiles_def split: prod.split)

lemma snd_respond [simp]: "snd (respond bad good r) = snd r"
  by (simp add: respond_def split: prod.split sum.split)

lemma download_kept:
  assumes "ex_manager ex = Some m" "calls_ok ex" "kept_to ex m s h st"
  shows "kept_to ex m s h (snd (filesDownloadHandler ex r st))"
proof -
  obtain x t where auth: "resolveAndAuthorize ex (fr_path r) ModeRead ''files.download'' st = (x, t)" by fastforce
  note free = authorized_path [OF auth assms]
  have "kept_to ex m s h (snd (case x of Inl e \<Rightarrow> (writeError e, t)
      | Inr safe \<Rightarrow> (case read_data ex safe t of
          (Inl (OpFailed e), st2) \<Rightarrow> (FaStatus (if IsNotExist e then 404 else 500), st2)
        | (Inl _, st2) \<Rightarrow> (FaStatus 500, st2)
        | (Inr content, st2) \<Rightarrow> (case access ex (AcStat safe) st2 of
            (DkStat isDir _, st3) \<Rightarrow> (if isDir then FaStatus 400 else FaContent (Base safe) content, st3)
          | (_, st3) \<Rightarrow> (FaStatus 500, st3)))))"
  proof (cases x)
    case (Inr safe)
    have "open_path ex m s safe" using free(2) Inr by auto
    obtain y u where u: "read_data ex safe t = (y, u)" by fastforce
    obtain z v where v: "access ex (AcStat safe) u = (z, v)" by fastforce
    have "kept_to ex m s h u" using read_data_kept [OF free(1) \<open>open_path ex m s safe\<close>] u by simp
    moreover from this have "kept_to ex m s h v"
      using access_kept [of ex m s h u "AcStat safe"] guarded_one(1) [OF \<open>open_path ex m s safe\<close>, of "AcStat safe"] v by simp
    ultimately show ?thesis using Inr u v by (auto split: sum.split file_error.split disk_answer.split)
  qed (use free(1) in simp)
  then show ?thesis
    using assms(3) auth by (auto simp: filesDownloadHandler_def split: sum.splits)
qed


lemma bulk_loop_kept:
  assumes "ex_manager ex = Some m" "calls_ok ex" "kept_to ex m s h st"
  shows "kept_to ex m s h (snd (bulk_loop ex path hs st))"
  using assms(3)
proof (induction hs arbitrary: st)
  case (Cons x hs)
  obtain field name content where x: "x = (field, name, content)" by (cases x) auto
  have "kept_to ex m s h (snd (bulk_one ex path field (name, content) st))"
  proof (cases content)
    case (Some data)
    let ?k = "\<lambda>safe st1. and_then (act ex (AcWriteFile safe data) st1) (\<lambda>_ st2. (Inr (safe, length data), st2))"
    have "kept_to ex m s h (snd (?k safe t))" if "open_path ex m s safe" "changeable ex safe" "kept_to ex m s h t" for safe t
      using that by (intro and_then_kept act_kept guarded_one(2)) simp_all
    then have "kept_to ex m s h (snd (and_then
        (resolveAndAuthorize ex (filepath_Join [path, Base (if name = [] then field else name)]) ModeWrite ''files.bulk_upload'' st) ?k))"
      by (intro and_then_authorized [OF assms(1,2) Cons.prems]) simp
    then show ?thesis using Some by (auto simp: bulk_one_def Let_def split: prod.split sum.split)
  qed (use Cons.prems in \<open>simp add: bulk_one_def Let_def\<close>)
  moreover obtain y t where y: "bulk_one ex path field (name, content) st = (y, t)" by fastforce
  ultimately show ?case using Cons.IH [of t] x by (simp split: prod.split) (metis snd_conv)
qed simp

lemma upload_kept:
  assumes "ex_manager ex = Some m" "calls_ok ex" "fl_log st = h" "store_step\<^sup>*\<^sup>* s (g_store (fl_gate st))"
  shows "kept_to ex m s h (snd (filesUploadHandler ex r st)) \<or> kept_to ex m s (h @ [AcStat (fr_path r)]) (snd (filesUploadHandler ex r st))"
proof (cases "fr_Method r \<noteq> ''POST'' \<or> fr_path r = [] \<or> (case fr_Form r of None \<Rightarrow> None | Some form \<Rightarrow> upload_file form) = None")
  case True
  then show ?thesis using assms(3,4) by (auto simp: filesUploadHandler_def kept_to_def)
next
  case False
  then obtain name data where f: "(case fr_Form r of None \<Rightarrow> None | Some form \<Rightarrow> upload_file form) = Some (name, data)" by fastforce
  obtain info t where i: "access ex (AcStat (fr_path r)) st = (info, t)" by fastforce
  define dest where "dest = (case info of DkStat True _ \<Rightarrow> filepath_Join [fr_path r, Base name] | _ \<Rightarrow> fr_path r)"
  have t: "kept_to ex m s (h @ [AcStat (fr_path r)]) t" using i assms(3,4) by (auto simp: access_def kept_to_def)
  obtain x u where u: "resolveAndAuthorize ex dest ModeWrite ''files.upload'' t = (x, u)" by fastforce
  note free = authorized_path [OF u assms(1,2) t]
  have "kept_to ex m s (h @ [AcStat (fr_path r)]) (snd (act ex (AcWriteFile safe data) u))" if "x = Inr safe" for safe
    using free that by (intro act_kept guarded_one(2)) simp_all
  then show ?thesis
    using False f i u free(1) unfolding filesUploadHandler_def dest_def by (auto split: sum.split)
qed

section \<open>Properties\<close>

lemma kept_start: "fl_log st = h \<Longrightarrow> g_store (fl_gate st) = s \<Longrightarrow> kept_to ex m s h st"
  by (simp add: kept_to_def)

lemma kept_new: "kept_to ex m s h st \<Longrightarrow> \<exists>new. fl_log st = h @ new \<and> list_all (guarded ex m s) new"
  by (simp add: kept_to_def)


definition demo_executor :: executor where
  "demo_executor = \<lparr>ex_env = demo_env, ex_workDir = ''/home/me'', ex_manager = Some demo_manager, ex_session = [],
     ex_notify = AlwaysAllowNotifier, ex_call = (\<lambda>_. (quiet, FlushOk, 1)),
     ex_disk = (\<lambda>_ a. case a of AcReadFile p \<Rightarrow> DkData ''k: s3cret'' | AcWalk p \<Rightarrow> DkTree [(''/home/me/.ssh'', True, 0), (''/home/me/.ssh/key'', False, 9)]
        | _ \<Rightarrow> DkOk),
     ex_readBlacklist = rawReadBlacklist, ex_writeBlacklist = rawWriteBlacklist\<rparr>"

definition demo_files :: files_state where
  "demo_files = \<lparr>fl_gate = \<lparr>g_store = demo_store, g_audit = []\<rparr>, fl_log = []\<rparr>"

definition demo_files_request :: "string \<Rightarrow> string \<Rightarrow> string \<Rightarrow> files_request" where
  "demo_files_request meth route path = \<lparr>fr_Method = meth, fr_Path = route, fr_Authorization = [], fr_path = path, fr_source = [],
     fr_destination = [], fr_pattern = [], fr_owner = [], fr_group = [], fr_mode = [], fr_Replace = None, fr_Form = None\<rparr>"

lemma demo_calls: "calls_ok demo_executor"
  by (simp add: calls_ok_def demo_executor_def)


section \<open>The searches\<close>

definition line_hits :: "string \<Rightarrow> string \<Rightarrow> nat \<Rightarrow> string list \<Rightarrow> find_match list" where
  "line_hits pat f i ls =
     map (\<lambda>(k, l). \<lparr>fm_File = f, fm_Line = Suc k, fm_Content = l\<rparr>) (filter (\<lambda>(k, l). Contains l pat) (enumerate i ls))"

definition file_hits :: "string \<Rightarrow> (string \<Rightarrow> disk_answer) \<Rightarrow> string \<times> bool \<times> nat \<Rightarrow> find_match list" where
  "file_hits pat disk x =
     (case x of (f, isDir, sz) \<Rightarrow>
        if isDir \<or> sz > findMaxFileSize then []
        else case disk f of DkData content \<Rightarrow> line_hits pat f 0 (Split content (CHR 0x0A)) | _ \<Rightarrow> [])"

lemma find_lines_hits:
  "length res < findMaxMatches \<Longrightarrow>
    find_lines pat f i ls res = (take findMaxMatches (res @ line_hits pat f i ls), findMaxMatches \<le> length (res @ line_hits pat f i ls))"
proof (induction ls arbitrary: i res)
  case (Cons l ls)
  show ?case
  proof (cases "Contains l pat")
    case True
    let ?x = "\<lparr>fm_File = f, fm_Line = Suc i, fm_Content = l\<rparr>"
    have hits: "line_hits pat f i (l # ls) = ?x # line_hits pat f (Suc i) ls" using True by (simp add: line_hits_def)
    show ?thesis
    proof (cases "findMaxMatches \<le> length (res @ [?x])")
      case True
      then have "findMaxMatches - length res = 1" using Cons.prems by simp
      then show ?thesis using \<open>Contains l pat\<close> True unfolding hits by (simp add: Let_def)
    next
      case False
      then show ?thesis using \<open>Contains l pat\<close> Cons.IH [of "res @ [?x]" "Suc i"] unfolding hits by (simp add: Let_def)
    qed
  next
    case False
    then show ?thesis using Cons.IH [OF Cons.prems, of "Suc i"] by (simp add: line_hits_def)
  qed
qed (simp add: line_hits_def)

lemma find_walk_hits:
  assumes "\<And>h f. ex_disk ex h (AcReadFile f) = disk f"
  shows "length res < findMaxMatches \<Longrightarrow>
    fst (find_walk ex pat tree res st) = take findMaxMatches (res @ concat (map (file_hits pat disk) tree))"
proof (induction tree arbitrary: res st)
  case (Cons x tree)
  obtain f isDir sz where x: "x = (f, isDir, sz)" by (cases x) auto
  show ?case
  proof (cases "isDir \<or> sz > findMaxFileSize")
    case True
    then show ?thesis using Cons by (auto simp: x file_hits_def)
  next
    case small: False
    obtain r st1 where read: "read_data ex f st = (r, st1)" by fastforce
    show ?thesis
    proof (cases r)
      case (Inl e)
      then have "file_hits pat disk x = []" using read assms small by (auto simp: x file_hits_def read_data_def access_def split: disk_answer.splits)
      then show ?thesis using Cons small read Inl by (simp add: x)
    next
      case (Inr content)
      let ?hits = "line_hits pat f 0 (Split content (CHR 0x0A))"
      have hits: "file_hits pat disk x = ?hits"
        using Inr read assms small by (auto simp: x file_hits_def read_data_def access_def split: disk_answer.splits)
      show ?thesis
      proof (cases "findMaxMatches \<le> length (res @ ?hits)")
        case True
        then show ?thesis using small read Inr find_lines_hits [OF Cons.prems, of pat f 0] hits by (simp add: x take_append) 
      next
        case False
        then show ?thesis
          using small read Inr find_lines_hits [OF Cons.prems, of pat f 0] Cons.IH [of "res @ ?hits" st1] hits by (simp add: x)
      qed
    qed
  qed
qed simp

text \<open>Claim C15. The search in contents is asked once, for the directory: its answer is the first 5000 matching lines, in the
  order of the walk, of every file below that is not larger than 5 MiB and can be read. The files themselves are
  not shown to the gate, so the lines of hard-locked ones are among them.\<close>

theorem content_search_asks_once:
  assumes "resolveAndAuthorize ex path ModeRead ''files.find'' st = (Inr safe, st1)" and "pat \<noteq> []"
    and "ex_disk ex (fl_log st1) (AcWalk safe) = DkTree tree" and "\<And>h f. ex_disk ex h (AcReadFile f) = disk f"
  shows "fst (FindInFiles ex path pat st) = Inr (take 5000 (concat (map (file_hits pat disk) tree))) \<and>
    g_audit (fl_gate (snd (FindInFiles ex path pat st))) = g_audit (fl_gate st1)"
proof -
  have gate: "fl_gate (snd (find_walk ex pat tree res t)) = fl_gate t" for res t
    by (induction ex pat tree res t rule: find_walk.induct)
      (auto simp: read_data_def access_def split: prod.splits disk_answer.splits sum.splits bool.splits)
  show ?thesis
    using assms find_walk_hits [of ex disk "[]" pat tree, OF assms(4)] gate
    by (simp add: FindInFiles_def and_then_def access_def case_prod_beta findMaxMatches_def)
qed

theorem content_search_asks_once_witness:
  "fst (FindInFiles demo_executor [] ''s3'' demo_files) = Inr [\<lparr>fm_File = ''/home/me/.ssh/key'', fm_Line = 1, fm_Content = ''k: s3cret''\<rparr>] \<and>
   fst (DownloadFile demo_executor ''/home/me/.ssh/key'' demo_files) = Inl AccessDenied"
proof
  let ?disk = "\<lambda>f. DkData ''k: s3cret''"
  let ?tree = "[(''/home/me/.ssh'', True, 0), (''/home/me/.ssh/key'', False, 9)] :: (string \<times> bool \<times> nat) list"
  obtain r st1 where auth: "resolveAndAuthorize demo_executor [] ModeRead ''files.find'' demo_files = (r, st1)" by fastforce
  have "fst (resolveAndAuthorize demo_executor [] ModeRead ''files.find'' demo_files) = Inr ''/home/me''" by code_simp
  with auth have "resolveAndAuthorize demo_executor [] ModeRead ''files.find'' demo_files = (Inr ''/home/me'', st1)" by simp
  moreover have "ex_disk demo_executor h (AcWalk p) = DkTree ?tree" "ex_disk demo_executor h (AcReadFile f) = ?disk f" for h p f
    by (simp_all add: demo_executor_def)
  ultimately have "fst (FindInFiles demo_executor [] ''s3'' demo_files) = Inr (take 5000 (concat (map (file_hits ''s3'' ?disk) ?tree)))"
    using content_search_asks_once [of demo_executor "[]" demo_files "''/home/me''" st1 "''s3''" ?tree ?disk] by simp
  moreover have "Contains ''k: s3cret'' ''s3''" by code_simp
  ultimately show "fst (FindInFiles demo_executor [] ''s3'' demo_files) = Inr [\<lparr>fm_File = ''/home/me/.ssh/key'', fm_Line = 1, fm_Content = ''k: s3cret''\<rparr>]"
    by (simp add: file_hits_def line_hits_def findMaxFileSize_def)
  show "fst (DownloadFile demo_executor ''/home/me/.ssh/key'' demo_files) = Inl AccessDenied" by code_simp
qed

text \<open>A pattern with dots leaves the directory that was asked for.\<close>

lemma glob_leaves_directory:
  "fl_log (snd (SearchFiles demo_executor [] ''../../etc/*'' demo_files)) = [AcGlob ''/etc/*'']"
  by code_simp

text \<open>Deleting or moving a directory takes the hard-locked paths below it along: the gate looks up, not down.\<close>

lemma delete_takes_locked_paths:
  "fl_log (snd (DeleteFile demo_executor ''/home/me'' demo_files)) = [AcRemoveAll ''/home/me'']"
  "HardlocksUnder demo_env ''/home/me'' (sn_Rules (ps_snap demo_store)) ''/home/me'' = [''~/.ssh'']"
  by code_simp+

end
