(* ===== verification/E2B_Gateway.thy ===== *)
theory E2B_Gateway
  imports Server_Sandbox_API Go_Http Go_Strconv
begin

text \<open>
  The E2B-compatible surface: the dispatch of \<^verbatim>\<open>src/pkg/e2bcompat/gateway.go\<close>, the REST control plane of
  \<^verbatim>\<open>src/pkg/e2bcompat/controlplane.go\<close>, and what the server plugs into them in
  \<^verbatim>\<open>src/pkg/server/e2bgateway.go\<close>. A request is what the gateway reads of it, a body is given decoded. The
  hooks of the gateway's configuration are functions of the state the request finds; where a request
  ends up is an answer, and the control plane then runs on the state. The random part of a name, the
  environment of a create and what workers answer are arguments.

  Shown here: an authenticated caller acts on its own sandboxes only, on both planes, one request of the data plane
  excepted; without a
  credential a request gets no further than the services of a sandbox named by its host name, if
  private ports are asked for; by default it falls through to the control plane, where an
  empty identity owns everything; metadata and template come back as they were given.
\<close>

section \<open>Hosts and paths\<close>

definition host_id_char :: "char \<Rightarrow> bool" where
  "host_id_char c \<longleftrightarrow> (let n = of_char c :: nat in
     97 \<le> n \<and> n \<le> 122 \<or> 65 \<le> n \<and> n \<le> 90 \<or> 48 \<le> n \<and> n \<le> 57 \<or> c = CHR ''_'' \<or> c = CHR ''-'')"

text \<open>The match of \<^verbatim>\<open>envdHostRe\<close>: port and sandbox. The digits end at the first hyphen and the name at the first dot, so
  there is one way to match.\<close>

definition envdHostRe :: "string \<Rightarrow> string \<Rightarrow> (string \<times> string) option" where
  "envdHostRe domain host =
     (if domain = [] then None
      else let port = takeWhile is_digit host; rest = dropWhile is_digit host in
        if port = [] \<or> \<not> HasPrefix rest ''-'' then None
        else case Cut (drop 1 rest) (CHR ''.'') of
          (sid, domain1, found) \<Rightarrow>
            if found \<and> sid \<noteq> [] \<and> list_all host_id_char sid \<and> domain1 = domain then Some (port, sid) else None)"

definition isEnvdPath :: "string \<Rightarrow> bool" where
  "isEnvdPath p \<longleftrightarrow> HasPrefix p ''/filesystem.'' \<or> HasPrefix p ''/process.'' \<or> p = ''/files''"

definition hostOnly :: "string \<Rightarrow> string" where
  "hostOnly host = (case Cut host (CHR '':'') of (h, _, found) \<Rightarrow> if found then h else host)"

definition controlPlaneNamespaces :: "string list" where
  "controlPlaneNamespaces = [''/sandboxes'', ''/templates'', ''/snapshots'', ''/volumes'']"

definition strip_version :: "string \<Rightarrow> string" where
  "strip_version p =
     (if HasPrefix p ''/v'' \<and> takeWhile is_digit (drop 2 p) \<noteq> [] then dropWhile is_digit (drop 2 p) else p)"

definition IsControlPlanePath :: "string \<Rightarrow> bool" where
  "IsControlPlanePath p0 =
     (let p = strip_version p0 in list_ex (\<lambda>ns. p = ns \<or> HasPrefix p (ns @ ''/'')) controlPlaneNamespaces)"

text \<open>\<^verbatim>\<open>e2bHostRouter\<close>: whether a request goes to the gateway rather than to the native API.\<close>

definition e2bHostRouter :: "string \<Rightarrow> string \<Rightarrow> string \<Rightarrow> bool" where
  "e2bHostRouter domain host0 path =
     (let host = (case IndexByte host0 (CHR '':'') of None \<Rightarrow> host0 | Some i \<Rightarrow> take i host0)
      in envdHostRe domain host \<noteq> None \<or> host = ''api.'' @ domain \<and> IsControlPlanePath path)"

section \<open>The gateway\<close>

record gateway_request =
  gr_Method :: string
  gr_Host :: string
  gr_Path :: string
  gr_APIKey :: string
  gr_Authorization :: string
  gr_AccessToken :: string
  gr_SandboxHeader :: string
  gr_XSandbox :: string
  gr_PortHeader :: string

record e2b_caller =
  ec_Ident :: string
  ec_Admin :: bool
  ec_Tenant :: string

record gateway_config =
  gc_Domain :: string
  gc_Auth :: "(string \<Rightarrow> (string \<times> bool) option) option"
  gc_Authz :: "(string \<Rightarrow> e2b_caller option) option"
  gc_Throttle :: "(string \<Rightarrow> bool \<Rightarrow> bool) option"
  gc_CodePort :: int
  gc_Resolver :: "(string \<Rightarrow> string) option"
  gc_Authorize :: "(string \<Rightarrow> string \<Rightarrow> bool) option"
  gc_Forwarder :: "(string \<Rightarrow> bool) option"
  gc_PortProxy :: "(string \<Rightarrow> int \<Rightarrow> bool) option"
  gc_Stat :: "(string \<Rightarrow> bool) option"
  gc_Private :: bool

datatype gateway_answer =
    GwStatus int
  | GwForwarded string
  | GwEnvd e2b_caller string
  | GwCode e2b_caller string
  | GwPort string int
  | GwControl e2b_caller

definition anonymous :: e2b_caller where
  "anonymous = \<lparr>ec_Ident = [], ec_Admin = False, ec_Tenant = []\<rparr>"

definition gw_key :: "gateway_request \<Rightarrow> string" where
  "gw_key r = (let key = presentedKey (gr_APIKey r) (gr_Authorization r) in if key = [] then gr_AccessToken r else key)"

definition gw_authenticate :: "gateway_config \<Rightarrow> string \<Rightarrow> e2b_caller option" where
  "gw_authenticate cfg key =
     (case gc_Authz cfg of
        Some az \<Rightarrow> az key
      | None \<Rightarrow>
          (case gc_Auth cfg of
             None \<Rightarrow> None
           | Some auth \<Rightarrow> map_option (\<lambda>(i, adm). \<lparr>ec_Ident = i, ec_Admin = adm, ec_Tenant = []\<rparr>) (auth key)))"

definition code_port :: "gateway_config \<Rightarrow> int" where
  "code_port cfg = (if gc_CodePort cfg = 0 then 49999 else gc_CodePort cfg)"

definition resolved :: "gateway_config \<Rightarrow> e2b_caller \<Rightarrow> string \<Rightarrow> string" where
  "resolved cfg c sandbox =
     (if sandbox = [] then (case gc_Resolver cfg of Some f \<Rightarrow> f (ec_Ident c) | None \<Rightarrow> []) else sandbox)"

definition authorized_for :: "gateway_config \<Rightarrow> e2b_caller \<Rightarrow> string \<Rightarrow> bool" where
  "authorized_for cfg c sandbox = (case gc_Authorize cfg of None \<Rightarrow> True | Some f \<Rightarrow> f (ec_Ident c) sandbox)"

definition forwards :: "gateway_config \<Rightarrow> string \<Rightarrow> bool" where
  "forwards cfg sandbox = (case gc_Forwarder cfg of None \<Rightarrow> False | Some f \<Rightarrow> f sandbox)"

text \<open>After authentication: \<open>byHost\<close> is the sandbox the host name gave, \<open>port\<close> the port in it (0 without one).\<close>

definition gw_probe :: "gateway_config \<Rightarrow> e2b_caller \<Rightarrow> string \<Rightarrow> gateway_answer" where
  "gw_probe cfg c sandbox0 =
     (let sandbox = resolved cfg c sandbox0;
          unreachable = (sandbox = [] \<or> \<not> authorized_for cfg c sandbox)
      in if \<not> unreachable \<and> forwards cfg sandbox then GwForwarded sandbox
         else if unreachable \<or> (case gc_Stat cfg of None \<Rightarrow> False | Some f \<Rightarrow> \<not> f sandbox) then GwStatus 502
         else GwStatus 200)"

text \<open>What the handlers of the data plane take as the sandbox: what the gateway resolved, and the client's own header where that is
  empty. The gateway asks for ownership only of a name it resolved.\<close>

definition sandboxOf :: "gateway_request \<Rightarrow> string \<Rightarrow> string" where
  "sandboxOf r ctxSandbox = (if ctxSandbox \<noteq> [] then ctxSandbox else gr_XSandbox r)"

definition gw_dispatch :: "gateway_config \<Rightarrow> gateway_request \<Rightarrow> e2b_caller \<Rightarrow> string \<Rightarrow> bool \<Rightarrow> int \<Rightarrow> gateway_answer" where
  "gw_dispatch cfg r c byHost codeHost port =
     (let sb1 = (if byHost = [] then (if gr_SandboxHeader r \<noteq> [] then gr_SandboxHeader r else gr_XSandbox r) else byHost);
          sb2 = (if sb1 = ''debug_sandbox_id'' then [] else sb1);
          isCode = (codeHost \<or> gr_PortHeader r = itoa (code_port cfg));
          isCodePath = (gr_Path r = ''/execute'' \<or> HasPrefix (gr_Path r) ''/contexts'')
      in if port > 0 \<and> gr_Path r = ''/health'' then gw_probe cfg c sb2
         else if isEnvdPath (gr_Path r) \<or> isCodePath then
           (let sandbox = resolved cfg c sb2 in
            if sandbox \<noteq> [] \<and> \<not> authorized_for cfg c sandbox then GwStatus 404
            else if sandbox \<noteq> [] \<and> forwards cfg sandbox then GwForwarded sandbox
            else if isCode \<or> isCodePath then GwCode c (sandboxOf r sandbox)
            else GwEnvd c (sandboxOf r sandbox))
         else if port > 0 \<and> \<not> isCode \<and> gc_PortProxy cfg \<noteq> None \<and> resolved cfg c sb2 \<noteq> [] then
           (let sandbox = resolved cfg c sb2 in
            if \<not> authorized_for cfg c sandbox then GwStatus 404
            else if forwards cfg sandbox then GwForwarded sandbox
            else if the (gc_PortProxy cfg) sandbox port then GwPort sandbox port
            else GwControl c)
         else GwControl c)"

text \<open>\<^verbatim>\<open>strconv.Atoi\<close> on the digits of the host name: the largest number when they do not fit.\<close>

definition host_port :: "string \<Rightarrow> int" where
  "host_port p = min (number_value p) (2 ^ 63 - 1)"

text \<open>The handler. The second component is the identity the throttle was asked about.\<close>

definition gw_Handler :: "gateway_config \<Rightarrow> gateway_request \<Rightarrow> gateway_answer \<times> (string \<times> bool) option" where
  "gw_Handler cfg r =
     (let m = envdHostRe (gc_Domain cfg) (hostOnly (gr_Host r));
          sandbox = (case m of None \<Rightarrow> [] | Some (_, sid) \<Rightarrow> sid);
          isCode = (case m of None \<Rightarrow> False | Some (p, _) \<Rightarrow> p = itoa (code_port cfg));
          port = (case m of None \<Rightarrow> 0 | Some (p, _) \<Rightarrow> host_port p);
          healthProbe = (port > 0 \<and> gr_Path r = ''/health'');
          codeCtxPath = HasPrefix (gr_Path r) ''/contexts'';
          hostScopedCtx = (sandbox \<noteq> [] \<and> isCode \<and> codeCtxPath);
          publicPort = (\<not> gc_Private cfg \<and> sandbox \<noteq> [] \<and> port > 0 \<and> \<not> isCode \<and>
            \<not> isEnvdPath (gr_Path r) \<and> \<not> codeCtxPath \<and> gr_Path r \<noteq> ''/execute'');
          key = gw_key r;
          debugCodePath = (gc_Domain cfg = [] \<and> key = [] \<and> (gr_Path r = ''/execute'' \<or> codeCtxPath));
          anonAllowed = (key = [] \<and> (hostScopedCtx \<or> publicPort));
          caller = gw_authenticate cfg key
      in if caller = None \<and> healthProbe then (GwStatus 502, None)
         else if caller = None \<and> \<not> debugCodePath \<and> \<not> anonAllowed then (GwStatus 401, None)
         else
           let c = (case caller of Some c \<Rightarrow> c | None \<Rightarrow> anonymous);
               asked = (if gc_Throttle cfg = None then None else Some (ec_Ident c, ec_Admin c))
           in if (case gc_Throttle cfg of None \<Rightarrow> False | Some f \<Rightarrow> \<not> f (ec_Ident c) (ec_Admin c)) then (GwStatus 429, asked)
              else (gw_dispatch cfg r c sandbox isCode port, asked))"

section \<open>What the server plugs in\<close>

definition e2b_owns :: "string \<Rightarrow> sandbox_info \<Rightarrow> bool" where
  "e2b_owns ident sb \<longleftrightarrow> ident = [] \<or> sb_Owner sb = [] \<or> sb_Owner sb = ident"

definition authorizeSandbox :: "control \<Rightarrow> string \<Rightarrow> string \<Rightarrow> bool" where
  "authorizeSandbox st ident sandbox =
     (case Sandbox_Get sandbox (cp_sandboxes st) of None \<Rightarrow> True | Some sb \<Rightarrow> ident = [] \<or> sb_Owner sb = [] \<or> sb_Owner sb = ident)"

fun single_match :: "string \<Rightarrow> sandbox_info list \<Rightarrow> string \<Rightarrow> string" where
  "single_match ident [] m = m"
| "single_match ident (sb # sbs) m =
     (if ident \<noteq> [] \<and> sb_Owner sb \<noteq> [] \<and> sb_Owner sb \<noteq> ident then single_match ident sbs m
      else if \<not> HasPrefix (sb_Name sb) ''e2b'' then single_match ident sbs m
      else if m \<noteq> [] then []
      else single_match ident sbs (sb_Name sb))"

definition resolveSingleSandbox :: "string list \<Rightarrow> control \<Rightarrow> string \<Rightarrow> string" where
  "resolveSingleSandbox ord st ident = single_match ident (Sandbox_List ord (cp_sandboxes st)) []"

definition e2bEnvdTokenLabel :: string where "e2bEnvdTokenLabel = ''e2b.envd-token''"
definition e2bMetaPrefix :: string where "e2bMetaPrefix = ''e2b.meta/''"
definition e2bTemplateLabel :: string where "e2bTemplateLabel = ''e2b.template''"

definition label_of :: "string \<Rightarrow> sandbox_info \<Rightarrow> string" where
  "label_of k sb = (case sb_Labels sb k of Some v \<Rightarrow> v | None \<Rightarrow> [])"

definition envdTokenIdentity :: "string list \<Rightarrow> control \<Rightarrow> string \<Rightarrow> string option" where
  "envdTokenIdentity ord st key =
     map_option sb_Owner (List.find (\<lambda>sb. label_of e2bEnvdTokenLabel sb \<noteq> [] \<and> label_of e2bEnvdTokenLabel sb = key)
       (Sandbox_List ord (cp_sandboxes st)))"

text \<open>\<^verbatim>\<open>authenticator\<close>: \<open>portal\<close> is a host-supplied resolver of its own keys.\<close>

definition e2b_authenticator ::
  "(string \<Rightarrow> string) \<Rightarrow> config \<Rightarrow> (string \<Rightarrow> identity option) option \<Rightarrow> string list \<Rightarrow> control \<Rightarrow> string \<Rightarrow> (string \<times> bool) option" where
  "e2b_authenticator hash cfg portal ord st key =
     (if authDisabled cfg then Some ([], True)
      else if key = [] then None
      else case (case portal of None \<Rightarrow> None | Some f \<Rightarrow> f key) of
        Some i \<Rightarrow> Some (id_Name i, IsAdmin i)
      | None \<Rightarrow>
          (case fst (resolveToken hash cfg key) of
             Some i \<Rightarrow> Some (id_Name i, IsAdmin i)
           | None \<Rightarrow> map_option (\<lambda>owner. (owner, False)) (envdTokenIdentity ord st key)))"

definition e2b_authz ::
  "(string \<Rightarrow> identity option) option \<Rightarrow> string list \<Rightarrow> control \<Rightarrow> (string \<Rightarrow> e2b_caller option) option" where
  "e2b_authz portal ord st =
     map_option (\<lambda>f key. case f key of
        Some i \<Rightarrow> Some \<lparr>ec_Ident = id_Name i, ec_Admin = IsAdmin i, ec_Tenant = id_Tenant i\<rparr>
      | None \<Rightarrow> map_option (\<lambda>owner. \<lparr>ec_Ident = owner, ec_Admin = False, ec_Tenant = []\<rparr>) (envdTokenIdentity ord st key)) portal"

definition e2b_throttle :: "gotime \<Rightarrow> rate_limiter option \<Rightarrow> string \<Rightarrow> bool \<Rightarrow> bool \<times> rate_limiter option" where
  "e2b_throttle now rl ident admin =
     (case rl of
        None \<Rightarrow> (True, None)
      | Some l \<Rightarrow> if admin \<or> ident = [] then (True, rl) else (case allow now ident l of (b, l') \<Rightarrow> (b, Some l')))"

definition toolboxTarget :: "control \<Rightarrow> string \<Rightarrow> string \<Rightarrow> (nat \<times> string) option" where
  "toolboxTarget st name subpath =
     (case Sandbox_Get name (cp_sandboxes st) of
        None \<Rightarrow> None
      | Some sb \<Rightarrow>
          if sb_State sb \<noteq> StateRunning then None
          else if HasPrefix (sb_ProxyURL sb) ''direct://'' then
            map_option (\<lambda>t. (t, ''http://agent/'' @ subpath)) (Tunnel_Get name (cp_direct st))
          else map_option (\<lambda>t. (t, ''http://poder/toolbox/'' @ name @ ''/'' @ subpath)) (Tunnel_Get (sb_PoderID sb) (cp_tunnels st)))"

definition forwardE2B :: "string \<Rightarrow> bool \<Rightarrow> control \<Rightarrow> string \<Rightarrow> bool" where
  "forwardE2B nodeURL forwarded st sandbox =
     (if nodeURL = [] \<or> forwarded then False
      else case Sandbox_Get sandbox (cp_sandboxes st) of
        None \<Rightarrow> False
      | Some sb \<Rightarrow>
          let direct = HasPrefix (sb_ProxyURL sb) ''direct://'';
              key = (if direct then sandbox else sb_PoderID sb);
              here = (if direct then cp_direct st else cp_tunnels st)
          in if Tunnel_Get key here \<noteq> None then False
             else (case NodeFor key (cp_owners st) of None \<Rightarrow> False | Some owner \<Rightarrow> owner \<noteq> nodeURL))"

definition portProxy :: "control \<Rightarrow> string \<Rightarrow> string \<Rightarrow> int \<Rightarrow> (nat \<times> string) option" where
  "portProxy st path sandbox port = toolboxTarget st sandbox (''proxy/'' @ itoa port @ path)"

section \<open>Sandboxes as E2B sees them\<close>

record e2b_detail =
  ed_TemplateID :: string
  ed_SandboxID :: string
  ed_StartedAt :: gotime
  ed_Paused :: bool
  ed_Metadata :: "string \<Rightarrow> string option"
  ed_EnvdAccessToken :: string

definition e2bMetaFromLabels :: "(string \<Rightarrow> string option) \<Rightarrow> string \<Rightarrow> string option" where
  "e2bMetaFromLabels labels = (\<lambda>k. labels (e2bMetaPrefix @ k))"

definition e2bTemplateFromLabels :: "(string \<Rightarrow> string option) \<Rightarrow> string" where
  "e2bTemplateFromLabels labels =
     (case labels e2bTemplateLabel of Some t \<Rightarrow> if t \<noteq> [] then t else ''base'' | None \<Rightarrow> ''base'')"

definition metaMatches :: "(string \<Rightarrow> string option) \<Rightarrow> (string \<times> string) list \<Rightarrow> bool" where
  "metaMatches meta filt = list_all (\<lambda>(k, v). (case meta k of Some x \<Rightarrow> x | None \<Rightarrow> []) = v) filt"

text \<open>\<^verbatim>\<open>parseMetadataFilter\<close>: the map as its entries, the last value of a key.\<close>

definition parseMetadataFilter :: "string \<Rightarrow> (string \<times> string) list" where
  "parseMetadataFilter s =
     (if s = [] then []
      else fold (\<lambda>pair m. case Cut pair (CHR ''='') of (k, v, ok) \<Rightarrow> if ok then AList.update k v m else m)
        (Split s (CHR ''&'')) [])"

definition stateFor :: "sandbox_info \<Rightarrow> bool" where
  "stateFor sb = (sb_State sb = StateStopped)"

text \<open>\<open>fresh\<close> is the token \<^verbatim>\<open>GenerateAPIKey\<close> would draw.\<close>

definition envdToken :: "string \<Rightarrow> sandbox_info \<Rightarrow> control \<Rightarrow> string \<times> control" where
  "envdToken fresh sb st =
     (if label_of e2bEnvdTokenLabel sb \<noteq> [] then (label_of e2bEnvdTokenLabel sb, st)
      else (fresh, update_sandbox (sb_Name sb) (\<lambda>s. s\<lparr>sb_Labels := (sb_Labels s)(e2bEnvdTokenLabel \<mapsto> fresh)\<rparr>) st))"

definition detailFromInfo :: "string \<Rightarrow> sandbox_info \<Rightarrow> control \<Rightarrow> e2b_detail \<times> control" where
  "detailFromInfo fresh sb st =
     (case envdToken fresh sb st of
        (tok, st1) \<Rightarrow>
          (\<lparr>ed_TemplateID = e2bTemplateFromLabels (sb_Labels sb), ed_SandboxID = sb_Name sb, ed_StartedAt = sb_CreatedAt sb,
            ed_Paused = stateFor sb, ed_Metadata = e2bMetaFromLabels (sb_Labels sb), ed_EnvdAccessToken = tok\<rparr>, st1))"

definition e2b_owned :: "string \<Rightarrow> string \<Rightarrow> control \<Rightarrow> sandbox_info option" where
  "e2b_owned ident sandboxID st =
     (case Sandbox_Get sandboxID (cp_sandboxes st) of
        None \<Rightarrow> None | Some sb \<Rightarrow> if e2b_owns ident sb then Some sb else None)"

definition GetSandbox :: "string \<Rightarrow> string \<Rightarrow> string \<Rightarrow> control \<Rightarrow> e2b_detail option \<times> control" where
  "GetSandbox fresh ident sandboxID st =
     (case e2b_owned ident sandboxID st of
        None \<Rightarrow> (None, st)
      | Some sb \<Rightarrow> (case detailFromInfo fresh sb st of (d, st1) \<Rightarrow> (Some d, st1)))"

definition ListSandboxes :: "string list \<Rightarrow> string \<Rightarrow> (string \<times> string) list \<Rightarrow> control \<Rightarrow> sandbox_info list" where
  "ListSandboxes ord ident filt st =
     filter (\<lambda>sb. e2b_owns ident sb \<and> metaMatches (e2bMetaFromLabels (sb_Labels sb)) filt) (Sandbox_List ord (cp_sandboxes st))"

definition KillSandbox :: "string \<Rightarrow> string \<Rightarrow> control \<Rightarrow> bool \<times> control" where
  "KillSandbox ident sandboxID st =
     (case e2b_owned ident sandboxID st of None \<Rightarrow> (False, st) | Some sb \<Rightarrow> (True, teardownSandbox sb st))"

definition SetTimeout :: "gotime \<Rightarrow> string \<Rightarrow> string \<Rightarrow> int \<Rightarrow> control \<Rightarrow> bool \<times> control" where
  "SetTimeout now ident sandboxID seconds st =
     (case e2b_owned ident sandboxID st of
        None \<Rightarrow> (False, st)
      | Some sb \<Rightarrow> (True, update_sandbox sandboxID (\<lambda>s. s\<lparr>sb_TTLSeconds := seconds, sb_LastActivity := now\<rparr>) st))"

definition poderPodAction :: "api_env \<Rightarrow> sandbox_info \<Rightarrow> string \<Rightarrow> control \<Rightarrow> bool \<times> control" where
  "poderPodAction e sb verb st =
     (case Tunnel_Get (sb_PoderID sb) (cp_tunnels st) of
        None \<Rightarrow> (False, st)
      | Some t \<Rightarrow>
          let url = ''http://poder/sandboxes/'' @ sb_Name sb @ ''/'' @ verb in
          (case ae_worker e t ''POST'' url of Some s \<Rightarrow> s < 300 | None \<Rightarrow> False, emit (WorkerRequest t ''POST'' url) st))"

definition PauseSandbox :: "api_env \<Rightarrow> string \<Rightarrow> string \<Rightarrow> control \<Rightarrow> bool \<times> control" where
  "PauseSandbox e ident sandboxID st =
     (case e2b_owned ident sandboxID st of
        None \<Rightarrow> (False, st)
      | Some sb \<Rightarrow>
          if HasPrefix (sb_ProxyURL sb) ''direct://'' then (False, st)
          else (case poderPodAction e sb ''stop'' st of
                  (False, st1) \<Rightarrow> (False, st1)
                | (True, st1) \<Rightarrow> (True, update_sandbox sandboxID (\<lambda>s. s\<lparr>sb_State := StateStopped\<rparr>) st1)))"

definition ResumeSandbox :: "api_env \<Rightarrow> string \<Rightarrow> string \<Rightarrow> string \<Rightarrow> int \<Rightarrow> control \<Rightarrow> e2b_detail option \<times> control" where
  "ResumeSandbox e fresh ident sandboxID seconds st =
     (case e2b_owned ident sandboxID st of
        None \<Rightarrow> (None, st)
      | Some sb \<Rightarrow>
          if HasPrefix (sb_ProxyURL sb) ''direct://'' then (None, st)
          else (case poderPodAction e sb ''start'' st of
                  (False, st1) \<Rightarrow> (None, st1)
                | (True, st1) \<Rightarrow>
                    let st2 = update_sandbox sandboxID (\<lambda>s. s\<lparr>sb_State := StateRunning\<rparr>) st1;
                        st3 = (if seconds > 0 then snd (SetTimeout (ae_now e) ident sandboxID seconds st2) else st2)
                    in (case Sandbox_Get sandboxID (cp_sandboxes st3) of
                          None \<Rightarrow> (None, st3)
                        | Some sb3 \<Rightarrow> (case detailFromInfo fresh sb3 st3 of (d, st4) \<Rightarrow> (Some d, st4)))))"

definition GetMetrics :: "api_env \<Rightarrow> string \<Rightarrow> string \<Rightarrow> control \<Rightarrow> bool option \<times> control" where
  "GetMetrics e ident sandboxID st =
     (case e2b_owned ident sandboxID st of
        None \<Rightarrow> (None, st)
      | Some sb \<Rightarrow>
          (case toolboxTarget st sandboxID ''metrics'' of
             None \<Rightarrow> (Some False, st)
           | Some (t, url) \<Rightarrow>
               (Some (case ae_worker e t ''GET'' url of Some s \<Rightarrow> s < 300 | None \<Rightarrow> False), emit (WorkerRequest t ''GET'' url) st)))"

section \<open>Creating\<close>

record new_sandbox =
  ns_TemplateID :: string
  ns_Timeout :: int
  ns_Metadata :: "(string \<times> string) list"

definition e2bSubstrate :: "getenv \<Rightarrow> string \<times> string \<times> string" where
  "e2bSubstrate env =
     (if env ''SANDRPOD_E2B_PROVIDER'' = [] then (''local'', ''local'', [])
      else (env ''SANDRPOD_E2B_PROVIDER'',
            if env ''SANDRPOD_E2B_REGION'' = [] then ''local'' else env ''SANDRPOD_E2B_REGION'',
            env ''SANDRPOD_E2B_INSTANCE_TYPE''))"

definition e2b_create_request :: "getenv \<Rightarrow> string \<Rightarrow> new_sandbox \<Rightarrow> create_request" where
  "e2b_create_request env name req =
     (case e2bSubstrate env of
        (prov, region, itype) \<Rightarrow>
          \<lparr>cr_Name = name, cr_Region = region, cr_ProviderType = prov, cr_InstanceType = itype,
           cr_ImageID = (if CHR ''/'' \<in> set (ns_TemplateID req) \<or> CHR '':'' \<in> set (ns_TemplateID req) then ns_TemplateID req else []),
           cr_TTLSeconds = ns_Timeout req, cr_CPUCores = 0, cr_MemoryMB = 0, cr_Workspace = [], cr_Async = False,
           cr_Network = None\<rparr>)"

definition set_labels :: "new_sandbox \<Rightarrow> sandbox_info \<Rightarrow> sandbox_info" where
  "set_labels req s =
     (let l1 = fold (\<lambda>(k, v) l. l(e2bMetaPrefix @ k \<mapsto> v)) (ns_Metadata req) (sb_Labels s);
          l2 = (if ns_TemplateID req \<noteq> [] then l1(e2bTemplateLabel \<mapsto> ns_TemplateID req) else l1)
      in s\<lparr>sb_Labels := l2\<rparr>)"

datatype e2b_answer = E2BStatus int | E2BDetail int e2b_detail | E2BList "sandbox_info list" | E2BMetrics bool | E2BPanic

definition CreateSandbox_e2b ::
  "create_env \<Rightarrow> config \<Rightarrow> admission \<Rightarrow> string \<Rightarrow> string \<Rightarrow> e2b_caller \<Rightarrow> new_sandbox \<Rightarrow> control \<Rightarrow> e2b_answer \<times> control" where
  "CreateSandbox_e2b env cfg admit rnd fresh c req st =
     (let name = ''e2b'' @ rnd;
          requester = \<lparr>id_Name = ec_Ident c, id_Role = (if ec_Admin c then RoleAdmin else RoleUser), id_Tenant = ec_Tenant c\<rparr>
      in case runSandboxCreate env cfg admit requester (e2b_create_request (ce_getenv env) name req) [] (ec_Ident c) st of
           (Inl (NotAdmitted ErrQuotaExceeded), _, st1) \<Rightarrow> (E2BStatus 429, st1)
         | (Inl _, _, st1) \<Rightarrow> (E2BStatus 500, st1)
         | (Inr sb0, _, st1) \<Rightarrow>
             let labelled = (ns_Metadata req \<noteq> [] \<or> ns_TemplateID req \<noteq> []);
                 st2 = (if labelled then update_sandbox name (set_labels req) st1 else st1);
                 sb = (if labelled then Sandbox_Get name (cp_sandboxes st2) else sb0)
             in (case sb of
                   None \<Rightarrow> (E2BPanic, st2)
                 | Some s \<Rightarrow> (case detailFromInfo fresh s st2 of (d, st3) \<Rightarrow> (E2BDetail 201 d, st3))))"

section \<open>The control plane\<close>

record e2b_body =
  eb_Create :: "new_sandbox option"
  eb_Filter :: string
  eb_Seconds :: int

record e2b_env =
  ee_api :: api_env
  ee_create :: create_env
  ee_admit :: admission
  ee_order :: "string list"
  ee_rand :: string
  ee_fresh :: string

definition DefaultTimeoutSeconds :: int where "DefaultTimeoutSeconds = 15"

definition handleSandboxes :: "e2b_env \<Rightarrow> config \<Rightarrow> string \<Rightarrow> e2b_body \<Rightarrow> e2b_caller \<Rightarrow> control \<Rightarrow> e2b_answer \<times> control" where
  "handleSandboxes e cfg meth b c st =
     (if meth = ''POST'' then
        (case eb_Create b of
           None \<Rightarrow> (E2BStatus 400, st)
         | Some req \<Rightarrow>
             CreateSandbox_e2b (ee_create e) cfg (ee_admit e) (ee_rand e) (ee_fresh e) c
               (if ns_Timeout req = 0 then req\<lparr>ns_Timeout := DefaultTimeoutSeconds\<rparr> else req) st)
      else if meth = ''GET'' then (E2BList (ListSandboxes (ee_order e) (ec_Ident c) (parseMetadataFilter (eb_Filter b)) st), st)
      else (E2BStatus 405, st))"

definition or_404 :: "int \<Rightarrow> bool \<times> control \<Rightarrow> e2b_answer \<times> control" where
  "or_404 status r = (case r of (ok, st) \<Rightarrow> (E2BStatus (if ok then status else 404), st))"

definition detail_or_404 :: "int \<Rightarrow> e2b_detail option \<times> control \<Rightarrow> e2b_answer \<times> control" where
  "detail_or_404 status r = (case r of (None, st) \<Rightarrow> (E2BStatus 404, st) | (Some d, st) \<Rightarrow> (E2BDetail status d, st))"

definition handleSandboxByID :: "e2b_env \<Rightarrow> string \<Rightarrow> string \<Rightarrow> e2b_body \<Rightarrow> e2b_caller \<Rightarrow> control \<Rightarrow> e2b_answer \<times> control" where
  "handleSandboxByID e meth path b c st =
     (let rest = TrimPrefix path ''/sandboxes/''; ident = ec_Ident c; secs = eb_Seconds b;
          orDefault = (if secs \<le> 0 then DefaultTimeoutSeconds else secs); now = ae_now (ee_api e)
      in if rest = [] then (E2BStatus 404, st)
         else case Cut rest (CHR ''/'') of
           (sandboxID, act, _) \<Rightarrow>
             if act = [] \<and> meth = ''GET'' then detail_or_404 200 (GetSandbox (ee_fresh e) ident sandboxID st)
             else if act = [] \<and> meth = ''DELETE'' then or_404 204 (KillSandbox ident sandboxID st)
             else if act = ''timeout'' \<and> meth = ''POST'' then or_404 204 (SetTimeout now ident sandboxID secs st)
             else if act = ''refreshes'' \<and> meth = ''POST'' then or_404 204 (SetTimeout now ident sandboxID orDefault st)
             else if act = ''connect'' \<and> meth = ''POST'' then
               (case ResumeSandbox (ee_api e) (ee_fresh e) ident sandboxID secs st of
                  (Some d, st1) \<Rightarrow> (E2BDetail 200 d, st1)
                | (None, st1) \<Rightarrow>
                    detail_or_404 200 (GetSandbox (ee_fresh e) ident sandboxID
                      (if secs > 0 then snd (SetTimeout now ident sandboxID secs st1) else st1)))
             else if act = ''pause'' \<and> meth = ''POST'' then or_404 204 (PauseSandbox (ee_api e) ident sandboxID st)
             else if act = ''resume'' \<and> meth = ''POST'' then
               detail_or_404 201 (ResumeSandbox (ee_api e) (ee_fresh e) ident sandboxID orDefault st)
             else if act = ''metrics'' \<and> meth = ''GET'' then
               (case GetMetrics (ee_api e) ident sandboxID st of
                  (None, st1) \<Rightarrow> (E2BStatus 404, st1) | (Some m, st1) \<Rightarrow> (E2BMetrics m, st1))
             else (E2BStatus 405, st))"

text \<open>\<^verbatim>\<open>controlPlane.routes\<close>.\<close>

definition cp_routes :: "e2b_env \<Rightarrow> config \<Rightarrow> string \<Rightarrow> string \<Rightarrow> e2b_body \<Rightarrow> e2b_caller \<Rightarrow> control \<Rightarrow> e2b_answer \<times> control" where
  "cp_routes e cfg meth path b c st =
     (if path = ''/sandboxes'' \<or> path = ''/v2/sandboxes'' then handleSandboxes e cfg meth b c st
      else if HasPrefix path ''/sandboxes/'' \<or> HasPrefix path ''/v2/sandboxes/'' then handleSandboxByID e meth path b c st
      else if path = ''/health'' then (E2BStatus 200, st)
      else (E2BStatus 404, st))"

section \<open>The whole surface\<close>

text \<open>\<^verbatim>\<open>newE2BGateway\<close> on the state a request finds, in a server without a portal of its own (\<open>portal\<close> is \<open>None\<close>) or with
  one; \<open>stat\<close> is whether the toolbox answers, \<open>forwarded\<close> whether a peer sent the request.\<close>

record e2b_server =
  es_domain :: string
  es_hash :: "string \<Rightarrow> string"
  es_portal :: "(string \<Rightarrow> identity option) option"
  es_limit :: "rate_limiter option"
  es_private :: bool
  es_stat :: "string \<Rightarrow> bool"
  es_forwarded :: bool

definition newE2BGateway :: "e2b_server \<Rightarrow> gotime \<Rightarrow> config \<Rightarrow> string list \<Rightarrow> string \<Rightarrow> control \<Rightarrow> gateway_config" where
  "newE2BGateway g now cfg ord path st =
     \<lparr>gc_Domain = es_domain g,
      gc_Auth = Some (e2b_authenticator (es_hash g) cfg (es_portal g) ord st),
      gc_Authz = e2b_authz (es_portal g) ord st,
      gc_Throttle = Some (\<lambda>ident admin. fst (e2b_throttle now (es_limit g) ident admin)),
      gc_CodePort = 0,
      gc_Resolver = Some (resolveSingleSandbox ord st),
      gc_Authorize = Some (authorizeSandbox st),
      gc_Forwarder = Some (forwardE2B (cfg_NodeURL cfg) (es_forwarded g) st),
      gc_PortProxy = Some (\<lambda>sandbox port. portProxy st path sandbox port \<noteq> None),
      gc_Stat = Some (\<lambda>sandbox. toolboxTarget st sandbox ''files/info'' \<noteq> None \<and> es_stat g sandbox),
      gc_Private = es_private g\<rparr>"

datatype e2b_reply = Answered gateway_answer | Control e2b_answer

definition e2bServe ::
  "e2b_server \<Rightarrow> e2b_env \<Rightarrow> config \<Rightarrow> gateway_request \<Rightarrow> e2b_body \<Rightarrow> control \<Rightarrow> e2b_reply \<times> control \<times> rate_limiter option" where
  "e2bServe g e cfg r b st =
     (let now = ae_now (ee_api e) in
      case gw_Handler (newE2BGateway g now cfg (ee_order e) (gr_Path r) st) r of
        (ans, asked) \<Rightarrow>
          let rl = (case asked of None \<Rightarrow> es_limit g | Some (i, adm) \<Rightarrow> snd (e2b_throttle now (es_limit g) i adm)) in
          (case ans of
             GwControl c \<Rightarrow>
               (case cp_routes e cfg (gr_Method r) (gr_Path r) b c st of (a, st1) \<Rightarrow> (Control a, st1, rl))
           | GwPort sandbox port \<Rightarrow>
               (case portProxy st (gr_Path r) sandbox port of
                  None \<Rightarrow> (Answered ans, st, rl)
                | Some (t, url) \<Rightarrow> (Answered ans, emit (WorkerRequest t (gr_Method r) url) st, rl))
           | _ \<Rightarrow> (Answered ans, st, rl)))"

section \<open>Lemmas\<close>

lemma ownedD: "e2b_owned ident n st = Some sb \<Longrightarrow> cp_sandboxes st n = Some sb \<and> (ident = [] \<or> sb_Owner sb = [] \<or> sb_Owner sb = ident)"
  by (auto simp: e2b_owned_def Sandbox_Get_def e2b_owns_def split: option.splits if_splits)

lemma envdToken_sandboxes:
  "envdToken fresh sb st = (tok, st') \<Longrightarrow> n \<noteq> sb_Name sb \<Longrightarrow> cp_sandboxes st' n = cp_sandboxes st n"
  by (auto simp: envdToken_def split: if_splits)

lemma detailFromInfo_sandboxes:
  "detailFromInfo fresh sb st = (d, st') \<Longrightarrow>
     ed_SandboxID d = sb_Name sb \<and> (\<forall>n. n \<noteq> sb_Name sb \<longrightarrow> cp_sandboxes st' n = cp_sandboxes st n)"
  by (auto simp: detailFromInfo_def envdToken_sandboxes split: prod.splits)

lemma teardown_other: "n \<noteq> sb_Name sb \<Longrightarrow> cp_sandboxes (teardownSandbox sb st) n = cp_sandboxes st n"
  by (auto simp: teardownSandbox_def Let_def split: option.splits)

lemma podAction_sandboxes: "cp_sandboxes (snd (poderPodAction e sb verb st)) = cp_sandboxes st"
  by (auto simp: poderPodAction_def Let_def split: option.splits)

text \<open>A step that leaves the records of others alone, in a table where every record is kept under its name.\<close>

definition keeps_others :: "string \<Rightarrow> control \<Rightarrow> control \<Rightarrow> bool" where
  "keeps_others ident st st' \<longleftrightarrow>
     (\<forall>n sb. cp_sandboxes st n = Some sb \<and> sb_Owner sb \<noteq> [] \<and> sb_Owner sb \<noteq> ident \<longrightarrow> cp_sandboxes st' n = Some sb)"

lemma keeps_others_refl [simp]: "keeps_others ident st st"
  by (simp add: keeps_others_def)

lemma keeps_others_trans: "keeps_others ident st st1 \<Longrightarrow> keeps_others ident st1 st2 \<Longrightarrow> keeps_others ident st st2"
  by (auto simp: keeps_others_def)

text \<open>Touching one record that the caller owns keeps the others.\<close>

lemma keeps_others_one:
  assumes "e2b_owned ident i st = Some sb" and "ident \<noteq> []" and "\<And>n. n \<noteq> i \<Longrightarrow> cp_sandboxes st' n = cp_sandboxes st n"
  shows "keeps_others ident st st'"
  using ownedD [OF assms(1)] assms(2,3) unfolding keeps_others_def by (metis option.inject)

lemma GetSandbox_keeps:
  assumes "GetSandbox fresh ident i st = (r, st')" and "ident \<noteq> []" and "sandboxes_wf (cp_sandboxes st)"
  shows "keeps_others ident st st' \<and> (\<forall>d. r = Some d \<longrightarrow> ed_SandboxID d = i \<and> (\<exists>sb. e2b_owned ident i st = Some sb))"
proof (cases "e2b_owned ident i st")
  case (Some sb)
  obtain d st1 where d: "detailFromInfo fresh sb st = (d, st1)" by fastforce
  from Some assms(3) have n: "sb_Name sb = i" by (auto dest: ownedD simp: sandboxes_wf_def)
  from d Some assms(1) have "r = Some d" "st' = st1" by (auto simp: GetSandbox_def)
  then show ?thesis using Some n detailFromInfo_sandboxes [OF d] keeps_others_one [OF Some assms(2)] by auto
qed (use assms(1) in \<open>simp add: GetSandbox_def\<close>)

lemma KillSandbox_keeps:
  assumes "KillSandbox ident i st = (r, st')" and "ident \<noteq> []" and "sandboxes_wf (cp_sandboxes st)"
  shows "keeps_others ident st st'"
proof (cases "e2b_owned ident i st")
  case (Some sb)
  from Some assms(3) have n: "sb_Name sb = i" by (auto dest: ownedD simp: sandboxes_wf_def)
  with Some assms(1) show ?thesis
    by (auto simp: KillSandbox_def intro!: keeps_others_one [OF Some assms(2)] teardown_other)
qed (use assms(1) in \<open>simp add: KillSandbox_def\<close>)

lemma SetTimeout_keeps: "ident \<noteq> [] \<Longrightarrow> keeps_others ident st (snd (SetTimeout now ident i secs st))"
  by (auto simp: SetTimeout_def split: option.splits intro: keeps_others_one)

lemma PauseSandbox_keeps:
  assumes "ident \<noteq> []"
  shows "keeps_others ident st (snd (PauseSandbox e ident i st))"
proof (cases "e2b_owned ident i st")
  case (Some sb)
  then show ?thesis
    using podAction_sandboxes [of e sb "''stop''" st]
    by (intro keeps_others_one [OF Some assms]) (auto simp: PauseSandbox_def split: prod.splits bool.splits)
qed (simp add: PauseSandbox_def)

lemma wf_update: "sandboxes_wf (cp_sandboxes st) \<Longrightarrow> (\<And>s. sb_Name (f s) = sb_Name s) \<Longrightarrow> sandboxes_wf (cp_sandboxes (update_sandbox n f st))"
  by (auto simp: sandboxes_wf_def split: if_splits)

lemma SetTimeout_wf: "sandboxes_wf (cp_sandboxes st) \<Longrightarrow> sandboxes_wf (cp_sandboxes (snd (SetTimeout now ident i secs st)))"
  by (auto simp: sandboxes_wf_def SetTimeout_def split: option.splits if_splits)

lemma detailFromInfo_wf: "detailFromInfo fresh sb st = (d, st') \<Longrightarrow> sandboxes_wf (cp_sandboxes st) \<Longrightarrow> sandboxes_wf (cp_sandboxes st')"
  by (auto simp: sandboxes_wf_def detailFromInfo_def envdToken_def split: prod.splits if_splits)

lemma ResumeSandbox_keeps:
  assumes "ResumeSandbox e fresh ident i secs st = (r, st')" and "ident \<noteq> []" and "sandboxes_wf (cp_sandboxes st)"
  shows "keeps_others ident st st' \<and> sandboxes_wf (cp_sandboxes st') \<and> (\<forall>d. r = Some d \<longrightarrow> ed_SandboxID d = i \<and> (\<exists>sb. e2b_owned ident i st = Some sb))"
proof (cases "e2b_owned ident i st")
  case (Some sb)
  obtain ok st1 where p: "poderPodAction e sb ''start'' st = (ok, st1)" by fastforce
  then have s1: "cp_sandboxes st1 = cp_sandboxes st" using podAction_sandboxes by (metis snd_conv)
  show ?thesis
  proof (cases "HasPrefix (sb_ProxyURL sb) ''direct://'' \<or> \<not> ok")
    case True
    then show ?thesis using assms Some p s1 by (auto simp: ResumeSandbox_def keeps_others_def split: if_splits)
  next
    case False
    define st2 where "st2 = update_sandbox i (\<lambda>s. s\<lparr>sb_State := StateRunning\<rparr>) st1"
    define st3 where "st3 = (if secs > 0 then snd (SetTimeout (ae_now e) ident i secs st2) else st2)"
    have wf2: "sandboxes_wf (cp_sandboxes st2)" unfolding st2_def using assms(3) s1 by (intro wf_update) auto
    then have wf3: "sandboxes_wf (cp_sandboxes st3)"
      unfolding st3_def by (simp add: SetTimeout_wf)
    have others3: "\<And>n. n \<noteq> i \<Longrightarrow> cp_sandboxes st3 n = cp_sandboxes st n"
      using s1 by (auto simp: st3_def st2_def SetTimeout_def split: option.splits)
    have "ResumeSandbox e fresh ident i secs st =
        (case Sandbox_Get i (cp_sandboxes st3) of None \<Rightarrow> (None, st3)
         | Some sb3 \<Rightarrow> (case detailFromInfo fresh sb3 st3 of (d, st4) \<Rightarrow> (Some d, st4)))"
      using Some False p unfolding ResumeSandbox_def st3_def st2_def Let_def by simp
    with assms(1) have res: "(case Sandbox_Get i (cp_sandboxes st3) of None \<Rightarrow> (None, st3)
         | Some sb3 \<Rightarrow> (case detailFromInfo fresh sb3 st3 of (d, st4) \<Rightarrow> (Some d, st4))) = (r, st')" by simp
    show ?thesis
    proof (cases "cp_sandboxes st3 i")
      case None
      with res show ?thesis using wf3 others3 keeps_others_one [OF Some assms(2)] by (auto simp: Sandbox_Get_def)
    next
      case (Some sb3)
      with wf3 have n3: "sb_Name sb3 = i" by (auto simp: sandboxes_wf_def)
      obtain d st4 where d: "detailFromInfo fresh sb3 st3 = (d, st4)" by fastforce
      with res Some have r: "r = Some d" "st' = st4" by (auto simp: Sandbox_Get_def)
      have "\<And>n. n \<noteq> i \<Longrightarrow> cp_sandboxes st4 n = cp_sandboxes st n"
        using detailFromInfo_sandboxes [OF d] n3 others3 by auto
      moreover have "sandboxes_wf (cp_sandboxes st4)"
        using d wf3 by (rule detailFromInfo_wf)
      ultimately show ?thesis
        using r keeps_others_one [OF \<open>e2b_owned ident i st = Some sb\<close> assms(2), of st4] detailFromInfo_sandboxes [OF d] n3
          \<open>e2b_owned ident i st = Some sb\<close> by auto
    qed
  qed
qed (use assms in \<open>auto simp: ResumeSandbox_def\<close>)

lemma snd_or_404 [simp]: "snd (or_404 s r) = snd r" "snd (detail_or_404 s d) = snd d"
  by (auto simp: or_404_def detail_or_404_def split: prod.splits option.splits)

lemma snd_metrics:
  "snd (case m of (None, st1) \<Rightarrow> (E2BStatus 404, st1) | (Some x, st1) \<Rightarrow> (E2BMetrics x, st1)) = snd m"
  by (simp split: prod.split option.split)

lemma handleSandboxByID_keeps:
  assumes "handleSandboxByID e meth path b c st = (r, st')" and "ec_Ident c \<noteq> []" and "sandboxes_wf (cp_sandboxes st)"
  shows "keeps_others (ec_Ident c) st st'"
proof -
  obtain i act found where cut: "Cut (TrimPrefix path ''/sandboxes/'') (CHR ''/'') = (i, act, found)" by (metis prod_cases3)
  let ?id = "ec_Ident c" and ?f = "ee_fresh e" and ?now = "ae_now (ee_api e)"
  note [split del] = if_split
  have get: "keeps_others ?id st (snd (GetSandbox ?f ?id i st))" if "sandboxes_wf (cp_sandboxes st)" for st
    using GetSandbox_keeps [OF prod.collapse [symmetric] assms(2) that] by blast
  have kill: "keeps_others ?id st (snd (KillSandbox ?id i st))"
    using KillSandbox_keeps [OF prod.collapse [symmetric] assms(2,3)] .
  have resume: "keeps_others ?id st (snd (ResumeSandbox (ee_api e) ?f ?id i s st)) \<and>
      sandboxes_wf (cp_sandboxes (snd (ResumeSandbox (ee_api e) ?f ?id i s st)))" for s
    using ResumeSandbox_keeps [OF prod.collapse [symmetric] assms(2,3)] by blast
  have timeout: "keeps_others ?id st (snd (SetTimeout ?now ?id i s st))" for s st
    using assms(2) by (rule SetTimeout_keeps)
  have metrics: "keeps_others ?id st (snd (GetMetrics (ee_api e) ?id i st))"
    by (auto simp: GetMetrics_def keeps_others_def split: option.splits)
  have connect: "keeps_others ?id st (snd (GetSandbox ?f ?id i
      (if s > 0 then snd (SetTimeout ?now ?id i s st1) else st1)))"
    if "ResumeSandbox (ee_api e) ?f ?id i s st = (None, st1)" for s st1
    using resume [of s] get timeout [of st1 s] SetTimeout_wf [of st1 ?now ?id i s] unfolding that
    by (auto split: if_split intro: keeps_others_trans)
  have conn: "keeps_others ?id st (snd (case ResumeSandbox (ee_api e) ?f ?id i s st of
      (Some d, st1) \<Rightarrow> (E2BDetail 200 d, st1)
    | (None, st1) \<Rightarrow> detail_or_404 200 (GetSandbox ?f ?id i (if s > 0 then snd (SetTimeout ?now ?id i s st1) else st1))))" for s
    using connect [of s] resume [of s] by (auto split: prod.split option.split)
  have "st' = snd (handleSandboxByID e meth path b c st)" using assms(1) by simp
  also have "keeps_others ?id st \<dots>"
    unfolding handleSandboxByID_def Let_def cut prod.case
    using get [OF assms(3)] kill resume timeout [of st] metrics PauseSandbox_keeps [OF assms(2), of st "ee_api e" i] conn
    by (simp add: snd_metrics split: if_split)
  finally show ?thesis .
qed

text \<open>What an answer shows or leads to: sandboxes of the identity, or of nobody.\<close>

definition may_reach :: "string \<Rightarrow> control \<Rightarrow> string \<Rightarrow> bool" where
  "may_reach ident st n \<longleftrightarrow> (\<forall>sb. cp_sandboxes st n = Some sb \<longrightarrow> sb_Owner sb = [] \<or> sb_Owner sb = ident)"

fun reply_within :: "string \<Rightarrow> control \<Rightarrow> e2b_reply \<Rightarrow> bool" where
  "reply_within ident st (Answered (GwForwarded n)) = may_reach ident st n"
| "reply_within ident st (Answered (GwEnvd _ n)) = may_reach ident st n"
| "reply_within ident st (Answered (GwCode _ n)) = may_reach ident st n"
| "reply_within ident st (Answered (GwPort n _)) = may_reach ident st n"
| "reply_within ident st (Control (E2BDetail _ d)) = may_reach ident st (ed_SandboxID d)"
| "reply_within ident st (Control (E2BList l)) = (\<forall>sb \<in> set l. sb_Owner sb = [] \<or> sb_Owner sb = ident)"
| "reply_within ident st _ = True"

lemma may_reach_owned: "ident \<noteq> [] \<Longrightarrow> e2b_owned ident i st = Some sb \<Longrightarrow> may_reach ident st i"
  by (auto simp: may_reach_def dest: ownedD)

lemma authorize_may_reach: "ident \<noteq> [] \<Longrightarrow> authorizeSandbox st ident n \<Longrightarrow> may_reach ident st n"
  by (auto simp: authorizeSandbox_def may_reach_def Sandbox_Get_def)

text \<open>The steps of the control plane leave the owners as they are.\<close>

definition same_owners :: "control \<Rightarrow> control \<Rightarrow> bool" where
  "same_owners st st' \<longleftrightarrow> (\<forall>n. map_option sb_Owner (cp_sandboxes st' n) = map_option sb_Owner (cp_sandboxes st n))"

lemma same_owners_refl [simp]: "same_owners st st"
  by (simp add: same_owners_def)

lemma same_owners_trans: "same_owners st st1 \<Longrightarrow> same_owners st1 st2 \<Longrightarrow> same_owners st st2"
  by (simp add: same_owners_def)

lemma same_owners_may_reach: "same_owners st st' \<Longrightarrow> may_reach ident st' n = may_reach ident st n"
proof -
  assume "same_owners st st'"
  then have "map_option sb_Owner (cp_sandboxes st' n) = map_option sb_Owner (cp_sandboxes st n)" by (simp add: same_owners_def)
  then show ?thesis by (cases "cp_sandboxes st n"; cases "cp_sandboxes st' n") (auto simp: may_reach_def)
qed

lemma SetTimeout_owners: "same_owners st (snd (SetTimeout now ident i secs st))"
  by (auto simp: same_owners_def SetTimeout_def option.map_comp comp_def split: option.splits)

lemma ResumeSandbox_owners:
  assumes "ResumeSandbox e fresh ident i secs st = (None, st')"
  shows "same_owners st st'"
proof -
  have act: "same_owners st s" if "poderPodAction e sb ''start'' st = (ok, s)" for sb ok s
    using that podAction_sandboxes [of e sb "''start''" st] by (simp add: same_owners_def)
  have run: "same_owners s (update_sandbox i (\<lambda>s. s\<lparr>sb_State := StateRunning\<rparr>) s)" for s
    by (simp add: same_owners_def option.map_comp comp_def)
  show ?thesis
    using assms act same_owners_trans [OF act run] same_owners_trans [OF same_owners_trans [OF act run] SetTimeout_owners]
    by (auto simp: ResumeSandbox_def Let_def split: option.splits if_splits prod.splits bool.splits)
qed

lemma detail_within:
  assumes "\<And>d. fst r = Some d \<Longrightarrow> may_reach ident st (ed_SandboxID d)"
  shows "reply_within ident st (Control (fst (detail_or_404 s r)))"
  using assms by (auto simp: detail_or_404_def split: prod.splits option.splits)

lemma GetSandbox_within:
  assumes "ident \<noteq> []" and "sandboxes_wf (cp_sandboxes st)" and "fst (GetSandbox fresh ident i st) = Some d"
  shows "may_reach ident st (ed_SandboxID d)"
  using GetSandbox_keeps [OF prod.collapse [symmetric] assms(1,2)] assms(1,3) may_reach_owned by metis

lemma ResumeSandbox_within:
  assumes "ident \<noteq> []" and "sandboxes_wf (cp_sandboxes st)" and "fst (ResumeSandbox e fresh ident i secs st) = Some d"
  shows "may_reach ident st (ed_SandboxID d)"
  using ResumeSandbox_keeps [OF prod.collapse [symmetric] assms(1,2)] assms(1,3) may_reach_owned by metis

lemma handleSandboxByID_within:
  assumes "ec_Ident c \<noteq> []" and "sandboxes_wf (cp_sandboxes st)"
  shows "reply_within (ec_Ident c) st (Control (fst (handleSandboxByID e meth path b c st)))"
proof -
  obtain i act found where cut: "Cut (TrimPrefix path ''/sandboxes/'') (CHR ''/'') = (i, act, found)" by (metis prod_cases3)
  let ?id = "ec_Ident c" and ?f = "ee_fresh e" and ?now = "ae_now (ee_api e)" and ?api = "ee_api e"
  have again: "reply_within ?id st (Control (fst (detail_or_404 200 (GetSandbox ?f ?id i
      (if s > 0 then snd (SetTimeout ?now ?id i s st1) else st1)))))"
    if "ResumeSandbox ?api ?f ?id i s st = (None, st1)" for s st1
  proof (rule detail_within)
    let ?st2 = "if s > 0 then snd (SetTimeout ?now ?id i s st1) else st1"
    fix d assume d: "fst (GetSandbox ?f ?id i ?st2) = Some d"
    have "sandboxes_wf (cp_sandboxes st1)" using ResumeSandbox_keeps [OF that assms] by simp
    then have "sandboxes_wf (cp_sandboxes ?st2)" by (simp add: SetTimeout_wf)
    from GetSandbox_within [OF assms(1) this d] have "may_reach ?id ?st2 (ed_SandboxID d)" .
    moreover have "same_owners st ?st2"
      using same_owners_trans [OF ResumeSandbox_owners [OF that] SetTimeout_owners] ResumeSandbox_owners [OF that] by simp
    ultimately show "may_reach ?id st (ed_SandboxID d)" by (simp add: same_owners_may_reach)
  qed
  have conn: "reply_within ?id st (Control (fst (case ResumeSandbox ?api ?f ?id i s st of
      (Some d, st1) \<Rightarrow> (E2BDetail 200 d, st1)
    | (None, st1) \<Rightarrow> detail_or_404 200 (GetSandbox ?f ?id i (if s > 0 then snd (SetTimeout ?now ?id i s st1) else st1)))))" for s
  proof (cases "ResumeSandbox ?api ?f ?id i s st")
    case (Pair r st1)
    then show ?thesis using again [of s st1] ResumeSandbox_within [OF assms, of ?api ?f i s] by (cases r) auto
  qed
  have get: "reply_within ?id st (Control (fst (detail_or_404 s (GetSandbox ?f ?id i st))))" for s
    using GetSandbox_within [OF assms] by (rule detail_within)
  have resume: "reply_within ?id st (Control (fst (detail_or_404 s (ResumeSandbox ?api ?f ?id i k st))))" for s k
    using ResumeSandbox_within [OF assms] by (rule detail_within)
  have status: "reply_within ?id st (Control (fst (or_404 s x)))" for s x
    by (simp add: or_404_def split: prod.split)
  have metrics: "reply_within ?id st (Control (fst (case m of (None, st1) \<Rightarrow> (E2BStatus 404, st1) | (Some x, st1) \<Rightarrow> (E2BMetrics x, st1))))" for m :: "bool option \<times> control"
    by (simp split: prod.split option.split)
  show ?thesis
    unfolding handleSandboxByID_def Let_def cut prod.case
    using get resume status metrics conn by simp
qed

lemma finish_sandbox_labels: "sb_Labels (finish_sandbox sid ip s) = sb_Labels s"
  by (simp add: finish_sandbox_def Let_def)

lemma run_fresh:
  assumes run: "runSandboxCreate env cfg admit ident req pre owner st = (Inr r, jobID, st')" and "cfg_NodeURL cfg = []"
    and frame: "\<And>s. cp_sandboxes (ce_scheduling env s) = cp_sandboxes s" "\<And>s. cp_sandboxes (ce_working env s) = cp_sandboxes s"
    and free: "cp_sandboxes st (cr_Name req) = None"
  shows "r = cp_sandboxes st' (cr_Name req) \<and>
    (\<forall>sb. r = Some sb \<longrightarrow> sb_Name sb = cr_Name req \<and> sb_Labels sb = Map.empty \<and> sb_Owner sb = owner)"
proof (rule run_success [OF run assms(2)])
  fix rq job tn st2 t
  assume rq: "rq = (if id_Tenant ident \<noteq> [] then req\<lparr>cr_Workspace := id_Tenant ident\<rparr> else req)"
    and st2: "cp_sandboxes st2 = cp_sandboxes (ce_scheduling env (st\<lparr>cp_tenants := tn\<rparr>))"
    and push: "pushCreateToPoder env t rq jobID (j_PoderID job) (failBoth env 6 rq jobID)
       (record_intent env rq jobID (j_PoderID job) (place_record env rq jobID owner (j_PoderID job) st2)) = (Inr r, st')"
  have n: "cr_Name rq = cr_Name req" by (simp add: rq)
  have "cp_sandboxes st2 (cr_Name rq) = None" using st2 frame free n by simp
  then have "\<forall>sb. cp_sandboxes (record_intent env rq jobID (j_PoderID job) (place_record env rq jobID owner (j_PoderID job) st2)) (cr_Name rq) = Some sb
      \<longrightarrow> sb_Name sb = cr_Name rq \<and> sb_Labels sb = Map.empty \<and> sb_Owner sb = owner"
    by (auto simp: place_record_def record_intent_def Sandbox_Get_def Sandbox_Add_def split: option.splits)
  with push show ?thesis
    by (cases rule: push_cases [where q = "[]"]) (auto simp: frame n finish_sandbox_labels split: if_splits)
qed

lemma set_labels_name [simp]: "sb_Name (set_labels req s) = sb_Name s" "sb_Owner (set_labels req s) = sb_Owner s"
  by (simp_all add: set_labels_def Let_def)

text \<open>How a create through the control plane went, under a name that was free.\<close>

lemma CreateSandbox_e2b_cases:
  assumes create: "CreateSandbox_e2b env cfg admit rnd fresh c req st = (r, st')" and "cfg_NodeURL cfg = []"
    and frame: "\<And>s. cp_sandboxes (ce_scheduling env s) = cp_sandboxes s" "\<And>s. cp_sandboxes (ce_working env s) = cp_sandboxes s"
    and free: "cp_sandboxes st (''e2b'' @ rnd) = None"
  obtains (failed) "\<forall>k. k \<noteq> ''e2b'' @ rnd \<longrightarrow> cp_sandboxes st' k = cp_sandboxes st k" "(\<exists>s. r = E2BStatus s) \<or> r = E2BPanic"
  | (made) sb0 sb st2 d where "\<forall>k. k \<noteq> ''e2b'' @ rnd \<longrightarrow> cp_sandboxes st2 k = cp_sandboxes st k"
      "sb_Labels sb0 = Map.empty" "sb_Owner sb0 = ec_Ident c" "sb_Name sb0 = ''e2b'' @ rnd"
      "sb = (if ns_Metadata req \<noteq> [] \<or> ns_TemplateID req \<noteq> [] then set_labels req sb0 else sb0)"
      "cp_sandboxes st2 (''e2b'' @ rnd) = Some sb" "detailFromInfo fresh sb st2 = (d, st')" "r = E2BDetail 201 d"
proof -
  let ?name = "''e2b'' @ rnd" and ?rq = "e2b_create_request (ce_getenv env) (''e2b'' @ rnd) req"
    and ?who = "\<lparr>id_Name = ec_Ident c, id_Role = (if ec_Admin c then RoleAdmin else RoleUser), id_Tenant = ec_Tenant c\<rparr>"
  have n: "cr_Name ?rq = ?name" by (simp add: e2b_create_request_def split: prod.split)
  obtain x j st1 where run: "runSandboxCreate env cfg admit ?who ?rq [] (ec_Ident c) st = (x, j, st1)" by (metis prod_cases3)
  have others1: "cp_sandboxes st1 k = cp_sandboxes st k" if "k \<noteq> ?name" for k
    using run_other_sandboxes [OF run frame] that n by simp
  let ?lab = "ns_Metadata req \<noteq> [] \<or> ns_TemplateID req \<noteq> []"
  show thesis
  proof (cases x)
    case (Inl e)
    with create run have "(\<exists>s. r = E2BStatus s) \<and> st' = st1"
      by (auto simp: CreateSandbox_e2b_def Let_def split: create_failure.splits admit_error.splits)
    then show thesis using others1 failed by simp
  next
    case (Inr sb0)
    have sb0: "sb0 = cp_sandboxes st1 ?name"
      "\<And>sb. sb0 = Some sb \<Longrightarrow> sb_Name sb = ?name \<and> sb_Labels sb = Map.empty \<and> sb_Owner sb = ec_Ident c"
      using run_fresh [OF run [unfolded Inr] assms(2) frame] free n by auto
    define st2 where "st2 = (if ?lab then update_sandbox ?name (set_labels req) st1 else st1)"
    have others2: "\<forall>k. k \<noteq> ?name \<longrightarrow> cp_sandboxes st2 k = cp_sandboxes st k" using others1 by (simp add: st2_def)
    have "CreateSandbox_e2b env cfg admit rnd fresh c req st =
        (case if ?lab then Sandbox_Get ?name (cp_sandboxes st2) else sb0 of None \<Rightarrow> (E2BPanic, st2)
         | Some s \<Rightarrow> (case detailFromInfo fresh s st2 of (d, st3) \<Rightarrow> (E2BDetail 201 d, st3)))"
      unfolding CreateSandbox_e2b_def Let_def run Inr st2_def prod.case sum.case by (rule refl)
    moreover have look: "(if ?lab then Sandbox_Get ?name (cp_sandboxes st2) else sb0) = cp_sandboxes st2 ?name"
      using sb0(1) by (simp add: st2_def Sandbox_Get_def)
    ultimately have res: "(r, st') = (case cp_sandboxes st2 ?name of None \<Rightarrow> (E2BPanic, st2)
        | Some s \<Rightarrow> (case detailFromInfo fresh s st2 of (d, st3) \<Rightarrow> (E2BDetail 201 d, st3)))" using create by simp
    show thesis
    proof (cases "cp_sandboxes st2 ?name")
      case None
      then show thesis using res others2 failed by simp
    next
      case (Some sb)
      then obtain s where s: "cp_sandboxes st1 ?name = Some s" "sb = (if ?lab then set_labels req s else s)"
        by (auto simp: st2_def split: if_splits)
      obtain d st3 where "detailFromInfo fresh sb st2 = (d, st3)" by fastforce
      then show thesis using res Some s sb0 others2 by (intro made [of st2 s sb d]) auto
    qed
  qed
qed

lemma CreateSandbox_e2b_keeps:
  assumes "CreateSandbox_e2b env cfg admit rnd fresh c req st = (r, st')" and "cfg_NodeURL cfg = []"
    and "\<And>s. cp_sandboxes (ce_scheduling env s) = cp_sandboxes s" "\<And>s. cp_sandboxes (ce_working env s) = cp_sandboxes s"
    and free: "cp_sandboxes st (''e2b'' @ rnd) = None"
  shows "keeps_others ident st st' \<and> (\<forall>s d. r = E2BDetail s d \<longrightarrow> ed_SandboxID d = ''e2b'' @ rnd)"
proof -
  have keep: "keeps_others ident st s" if "\<forall>k. k \<noteq> ''e2b'' @ rnd \<longrightarrow> cp_sandboxes s k = cp_sandboxes st k" for s
    using that free unfolding keeps_others_def by (metis option.distinct(1))
  from assms show ?thesis
  proof (cases rule: CreateSandbox_e2b_cases)
    case failed
    then show ?thesis using keep by auto
  next
    case (made sb0 sb st2 d)
    then have "sb_Name sb = ''e2b'' @ rnd" by (cases "ns_Metadata req \<noteq> [] \<or> ns_TemplateID req \<noteq> []") simp_all
    then show ?thesis using made(1,8) detailFromInfo_sandboxes [OF made(7)] keep by simp
  qed
qed

text \<open>Where the gateway can send an authenticated caller.\<close>

definition host_sandbox :: "string \<Rightarrow> gateway_request \<Rightarrow> string" where
  "host_sandbox domain r = (case envdHostRe domain (hostOnly (gr_Host r)) of None \<Rightarrow> [] | Some (_, sid) \<Rightarrow> sid)"

lemma gw_Handler_caller:
  assumes "gw_authenticate cfg (gw_key r) = Some c"
  shows "(\<exists>s. fst (gw_Handler cfg r) = GwStatus s) \<or>
    (\<exists>code port. fst (gw_Handler cfg r) = gw_dispatch cfg r c (host_sandbox (gc_Domain cfg) r) code port)"
  using assms by (auto simp: gw_Handler_def Let_def host_sandbox_def)

text \<open>The sandbox a request names: by its host name, else by one of two headers. \<open>debug_sandbox_id\<close> is the placeholder of the
  SDK's debug mode and counts as no name.\<close>

definition named_sandbox :: "string \<Rightarrow> gateway_request \<Rightarrow> string" where
  "named_sandbox byHost r =
     (if byHost \<noteq> [] then byHost else if gr_SandboxHeader r \<noteq> [] then gr_SandboxHeader r else gr_XSandbox r)"

text \<open>The name the data plane serves is one the gateway resolved, or nobody's: the placeholder was not used, or stands for the caller's
  only sandbox.\<close>

definition resolvable :: "gateway_config \<Rightarrow> e2b_caller \<Rightarrow> gateway_request \<Rightarrow> bool" where
  "resolvable cfg c r \<longleftrightarrow> named_sandbox (host_sandbox (gc_Domain cfg) r) r \<noteq> ''debug_sandbox_id'' \<or> resolved cfg c [] \<noteq> []"

text \<open>The dispatch with its choices named.\<close>

definition dispatch_to :: "gateway_config \<Rightarrow> gateway_request \<Rightarrow> e2b_caller \<Rightarrow> int \<Rightarrow> string \<Rightarrow> string \<Rightarrow> bool \<Rightarrow> bool \<Rightarrow> gateway_answer" where
  "dispatch_to cfg r c port sb target isCode isCodePath =
     (if port > 0 \<and> gr_Path r = ''/health'' then gw_probe cfg c sb
      else if isEnvdPath (gr_Path r) \<or> isCodePath then
        (if target \<noteq> [] \<and> \<not> authorized_for cfg c target then GwStatus 404
         else if target \<noteq> [] \<and> forwards cfg target then GwForwarded target
         else if isCode \<or> isCodePath then GwCode c (sandboxOf r target) else GwEnvd c (sandboxOf r target))
      else if port > 0 \<and> \<not> isCode \<and> gc_PortProxy cfg \<noteq> None \<and> target \<noteq> [] then
        (if \<not> authorized_for cfg c target then GwStatus 404
         else if forwards cfg target then GwForwarded target
         else if the (gc_PortProxy cfg) target port then GwPort target port else GwControl c)
      else GwControl c)"

lemma gw_dispatch_shape:
  obtains sb isCode isCodePath where
    "gw_dispatch cfg r c byHost code port = dispatch_to cfg r c port sb (resolved cfg c sb) isCode isCodePath"
    "isCodePath \<longleftrightarrow> gr_Path r = ''/execute'' \<or> HasPrefix (gr_Path r) ''/contexts''"
    "isCode \<longleftrightarrow> code \<or> gr_PortHeader r = itoa (code_port cfg)"
    "byHost \<noteq> [] \<Longrightarrow> sb = (if byHost = ''debug_sandbox_id'' then [] else byHost)"
    "sb = (if named_sandbox byHost r = ''debug_sandbox_id'' then [] else named_sandbox byHost r)"
proof -
  define sb1 where "sb1 = (if byHost = [] then (if gr_SandboxHeader r \<noteq> [] then gr_SandboxHeader r else gr_XSandbox r) else byHost)"
  show thesis
  proof (rule that)
    show "gw_dispatch cfg r c byHost code port =
        dispatch_to cfg r c port (if sb1 = ''debug_sandbox_id'' then [] else sb1) (resolved cfg c (if sb1 = ''debug_sandbox_id'' then [] else sb1))
          (code \<or> gr_PortHeader r = itoa (code_port cfg)) (gr_Path r = ''/execute'' \<or> HasPrefix (gr_Path r) ''/contexts'')"
      unfolding gw_dispatch_def dispatch_to_def Let_def sb1_def by (rule refl)
  qed (simp_all add: sb1_def named_sandbox_def)
qed

lemma gw_dispatch_within:
  assumes "ec_Ident c \<noteq> []" and "gc_Authorize cfg = Some (authorizeSandbox st)"
    and none: "cp_sandboxes st [] = None" and "resolvable cfg c r" and "byHost = host_sandbox (gc_Domain cfg) r"
  shows "reply_within (ec_Ident c) st (Answered (gw_dispatch cfg r c byHost code port)) \<and>
    (\<forall>c'. gw_dispatch cfg r c byHost code port = GwControl c' \<longrightarrow> c' = c)"
proof -
  obtain sb isCode isCodePath where
    d: "gw_dispatch cfg r c byHost code port = dispatch_to cfg r c port sb (resolved cfg c sb) isCode isCodePath"
    and sb: "sb = (if named_sandbox byHost r = ''debug_sandbox_id'' then [] else named_sandbox byHost r)"
    by (rule gw_dispatch_shape)
  have "reply_within (ec_Ident c) st (Answered (gw_probe cfg c sb))" "\<And>c'. gw_probe cfg c sb \<noteq> GwControl c'"
    using authorize_may_reach [OF assms(1), of st "resolved cfg c sb"] assms(2)
    by (simp_all add: gw_probe_def authorized_for_def Let_def)
  moreover have "sandboxOf r (resolved cfg c sb) = resolved cfg c sb"
    using assms(4,5) sb by (auto simp: resolvable_def sandboxOf_def named_sandbox_def resolved_def split: if_splits)
  moreover have "may_reach (ec_Ident c) st []" using none by (simp add: may_reach_def)
  ultimately show ?thesis
    unfolding d using authorize_may_reach [OF assms(1), of st "resolved cfg c sb"] assms(2)
    by (auto simp: dispatch_to_def authorized_for_def)
qed

lemma CreateSandbox_e2b_shape: "CreateSandbox_e2b env cfg admit rnd fresh c req st = (r, st') \<Longrightarrow> r \<noteq> E2BList l \<and> r \<noteq> E2BMetrics m"
  by (auto simp: CreateSandbox_e2b_def Let_def split: prod.splits sum.splits option.splits create_failure.splits admit_error.splits if_splits)

lemma cp_routes_keeps:
  assumes "cp_routes e cfg meth path b c st = (r, st')" and "ec_Ident c \<noteq> []" and "sandboxes_wf (cp_sandboxes st)"
    and "cfg_NodeURL cfg = []"
    and frame: "\<And>s. cp_sandboxes (ce_scheduling (ee_create e) s) = cp_sandboxes s" "\<And>s. cp_sandboxes (ce_working (ee_create e) s) = cp_sandboxes s"
    and free: "cp_sandboxes st (''e2b'' @ ee_rand e) = None"
  shows "keeps_others (ec_Ident c) st st' \<and> reply_within (ec_Ident c) st (Control r)"
proof -
  have list: "sb_Owner sb = [] \<or> sb_Owner sb = ec_Ident c" if "sb \<in> set (ListSandboxes ord (ec_Ident c) f st)" for sb ord f
    using that assms(2) by (auto simp: ListSandboxes_def e2b_owns_def)
  have create: "keeps_others (ec_Ident c) st s \<and> reply_within (ec_Ident c) st (Control x)"
    if "CreateSandbox_e2b (ee_create e) cfg (ee_admit e) (ee_rand e) (ee_fresh e) c req st = (x, s)" for req x s
    using CreateSandbox_e2b_keeps [OF that assms(4) frame free, of "ec_Ident c"] free by (cases x) (auto simp: may_reach_def CreateSandbox_e2b_shape [OF that])
  have "keeps_others (ec_Ident c) st s \<and> reply_within (ec_Ident c) st (Control x)" if "handleSandboxes e cfg meth b c st = (x, s)" for x s
    using that create list by (auto simp: handleSandboxes_def split: if_splits option.splits)
  moreover have "keeps_others (ec_Ident c) st s \<and> reply_within (ec_Ident c) st (Control x)" if "handleSandboxByID e meth path b c st = (x, s)" for x s
    using handleSandboxByID_keeps [OF that assms(2,3)] handleSandboxByID_within [OF assms(2,3), of e meth path b] that by simp
  ultimately show ?thesis using assms(1) by (auto simp: cp_routes_def split: if_splits)
qed

section \<open>Properties\<close>


definition demo_e2b :: e2b_server where
  "demo_e2b = \<lparr>es_domain = ''e2b.test'', es_hash = id, es_portal = None, es_limit = None, es_private = False,
     es_stat = (\<lambda>_. True), es_forwarded = False\<rparr>"

definition demo_e2b_env :: e2b_env where
  "demo_e2b_env = \<lparr>ee_api = demo_api_env, ee_create = demo_create_env, ee_admit = admit_all, ee_order = [''box''],
     ee_rand = ''x1'', ee_fresh = ''tok''\<rparr>"

definition demo_e2b_body :: e2b_body where
  "demo_e2b_body = \<lparr>eb_Create = None, eb_Filter = [], eb_Seconds = 0\<rparr>"

definition e2b_call :: "string \<Rightarrow> string \<Rightarrow> string \<Rightarrow> string \<Rightarrow> gateway_request" where
  "e2b_call key meth host path = \<lparr>gr_Method = meth, gr_Host = host, gr_Path = path, gr_APIKey = key, gr_Authorization = [],
     gr_AccessToken = [], gr_SandboxHeader = [], gr_XSandbox = [], gr_PortHeader = []\<rparr>"

lemma demo_e2b_setting:
  "sandboxes_wf (cp_sandboxes bobs_control)" "cfg_NodeURL demo_config = []"
  "cp_sandboxes (ce_scheduling (ee_create demo_e2b_env) s) = cp_sandboxes s"
  "cp_sandboxes (ce_working (ee_create demo_e2b_env) s) = cp_sandboxes s"
  "cp_sandboxes bobs_control (''e2b'' @ ee_rand demo_e2b_env) = None"
  by (auto simp: sandboxes_wf_def bobs_control_def demo_sandbox_def demo_config_def demo_e2b_env_def demo_create_env_def split: if_splits)


section \<open>Requests without a credential\<close>

definition anonymous_ok :: "gateway_config \<Rightarrow> gateway_request \<Rightarrow> bool" where
  "anonymous_ok cfg r \<longleftrightarrow>
     gc_Domain cfg = [] \<and> (gr_Path r = ''/execute'' \<or> HasPrefix (gr_Path r) ''/contexts'') \<or>
     HasPrefix (gr_Path r) ''/contexts'' \<or>
     \<not> gc_Private cfg \<and> envdHostRe (gc_Domain cfg) (hostOnly (gr_Host r)) \<noteq> None \<and> \<not> isEnvdPath (gr_Path r)"

lemma gw_Handler_anonymous:
  assumes "gw_authenticate cfg (gw_key r) = None"
  shows "fst (gw_Handler cfg r) \<in> {GwStatus 401, GwStatus 502} \<or>
    gw_key r = [] \<and> anonymous_ok cfg r \<and>
    (fst (gw_Handler cfg r) = GwStatus 429 \<or> (\<exists>n b p. fst (gw_Handler cfg r) = gw_dispatch cfg r anonymous n b p))"
proof -
  define m where "m = envdHostRe (gc_Domain cfg) (hostOnly (gr_Host r))"
  show ?thesis
    unfolding gw_Handler_def Let_def m_def [symmetric] assms option.case anonymous_ok_def
    by (cases m; simp split: prod.split; blast)
qed

text \<open>Without a valid credential the gateway never leads to files or processes of a sandbox; a key that is wrong gets
  an error; the control plane is reached only if ports are public and the host name has the form of a
  sandbox's. With private ports under a domain, whatever is not a kernel request ends in an error.\<close>

theorem anonymous_reach:
  assumes "gw_authenticate cfg (gw_key r) = None"
  shows "(\<forall>c n. fst (gw_Handler cfg r) \<noteq> GwEnvd c n) \<and>
    (gw_key r \<noteq> [] \<longrightarrow> fst (gw_Handler cfg r) \<in> {GwStatus 401, GwStatus 502}) \<and>
    (\<forall>c. fst (gw_Handler cfg r) = GwControl c \<longrightarrow>
       c = anonymous \<and> \<not> gc_Private cfg \<and> envdHostRe (gc_Domain cfg) (hostOnly (gr_Host r)) \<noteq> None) \<and>
    (gc_Private cfg \<and> gc_Domain cfg \<noteq> [] \<and> \<not> HasPrefix (gr_Path r) ''/contexts'' \<longrightarrow>
       fst (gw_Handler cfg r) \<in> {GwStatus 401, GwStatus 502})"
proof -
  from gw_Handler_anonymous [OF assms] consider
      (refused) "fst (gw_Handler cfg r) \<in> {GwStatus 401, GwStatus 502}"
    | (limited) "fst (gw_Handler cfg r) = GwStatus 429" "gw_key r = []" "anonymous_ok cfg r"
    | (on) n b p where "fst (gw_Handler cfg r) = gw_dispatch cfg r anonymous n b p" "gw_key r = []" "anonymous_ok cfg r"
    by blast
  then show ?thesis
  proof cases
    case on
    have "gw_dispatch cfg r anonymous n b p \<noteq> GwEnvd c k"
      "gw_dispatch cfg r anonymous n b p = GwControl c \<Longrightarrow> c = anonymous \<and> gr_Path r \<noteq> ''/execute'' \<and> \<not> HasPrefix (gr_Path r) ''/contexts''" for c k
    proof -
      obtain sb isCode isCodePath where
        d: "gw_dispatch cfg r anonymous n b p = dispatch_to cfg r anonymous p sb (resolved cfg anonymous sb) isCode isCodePath"
        and path: "isCodePath \<longleftrightarrow> gr_Path r = ''/execute'' \<or> HasPrefix (gr_Path r) ''/contexts''"
        by (rule gw_dispatch_shape)
      have probe: "gw_probe cfg anonymous sb \<noteq> GwEnvd c k" "gw_probe cfg anonymous sb \<noteq> GwControl c"
        by (simp_all add: gw_probe_def Let_def)
      have envd: "isEnvdPath (gr_Path r) \<Longrightarrow> isCodePath" using on(3) path by (auto simp: anonymous_ok_def)
      show "gw_dispatch cfg r anonymous n b p \<noteq> GwEnvd c k" unfolding d dispatch_to_def using probe envd by simp
      show "gw_dispatch cfg r anonymous n b p = GwControl c \<Longrightarrow> c = anonymous \<and> gr_Path r \<noteq> ''/execute'' \<and> \<not> HasPrefix (gr_Path r) ''/contexts''"
        unfolding d dispatch_to_def using probe path by (simp split: if_splits)
    qed
    with on show ?thesis by (auto simp: anonymous_ok_def)
  qed (auto simp: anonymous_ok_def)
qed

theorem anonymous_reach_witness:
  "fst (gw_Handler (newE2BGateway demo_e2b 0 demo_config [''box''] ''/sandboxes'' bobs_control) (e2b_call ''wrong'' ''GET'' ''api.e2b.test'' ''/sandboxes''))
     \<in> {GwStatus 401, GwStatus 502}"
proof -
  let ?r = "e2b_call ''wrong'' ''GET'' ''api.e2b.test'' ''/sandboxes''"
  have "gw_authenticate (newE2BGateway demo_e2b 0 demo_config [''box''] ''/sandboxes'' bobs_control) (gw_key ?r) = None" by code_simp
  moreover have "gw_key ?r \<noteq> []" by code_simp
  ultimately show ?thesis using anonymous_reach by blast
qed

lemma envdHostRe_Some: "envdHostRe d h = Some (p, x) \<Longrightarrow> x \<noteq> [] \<and> d \<noteq> []"
  by (auto simp: envdHostRe_def Let_def split: if_splits prod.splits)

lemma Cut_free: "c \<notin> set s \<Longrightarrow> Cut s c = (s, [], False)"
  by (induction s) (auto split: prod.splits)

lemma sandboxes_path:
  "\<not> isEnvdPath (''/sandboxes/'' @ n)" "\<not> HasPrefix (''/sandboxes/'' @ n) ''/contexts''"
  by (simp_all add: isEnvdPath_def HasPrefix_def)

lemma gw_reaches_control:
  assumes "es_portal g = None" and "\<not> authDisabled cfg" and "\<not> es_private g" and "gw_key r = []"
    and host: "envdHostRe (es_domain g) (hostOnly (gr_Host r)) = Some (p, x)"
    and "number_value p > 0" and "p \<noteq> itoa 49999" and "gr_PortHeader r \<noteq> itoa 49999"
    and "x \<noteq> ''debug_sandbox_id''" and "cp_sandboxes st x = None" and path: "gr_Path r = ''/sandboxes/'' @ n"
  shows "gw_Handler (newE2BGateway g now cfg ord (gr_Path r) st) r = (GwControl anonymous, Some ([], False))"
proof -
  have pos: "host_port p > 0" using assms(6) by (simp add: host_port_def)
  let ?gw = "newE2BGateway g now cfg ord (gr_Path r) st"
  have cp: "code_port ?gw = 49999" by (simp add: code_port_def newE2BGateway_def)
  have auth: "gw_authenticate ?gw (gw_key r) = None"
    using assms(1,2,4) by (simp add: gw_authenticate_def newE2BGateway_def e2b_authz_def e2b_authenticator_def)
  obtain sb isCode isCodePath where
    d: "gw_dispatch ?gw r anonymous x False (host_port p) = dispatch_to ?gw r anonymous (host_port p) sb (resolved ?gw anonymous sb) isCode isCodePath"
    and c: "isCodePath \<longleftrightarrow> gr_Path r = ''/execute'' \<or> HasPrefix (gr_Path r) ''/contexts''"
      "isCode \<longleftrightarrow> False \<or> gr_PortHeader r = itoa (code_port ?gw)" "sb = x"
    using gw_dispatch_shape [of ?gw r anonymous x False "host_port p"] envdHostRe_Some [OF host] assms(9) by metis
  have "\<not> isCodePath" "\<not> isCode" using c assms(8) cp sandboxes_path path by (auto simp: HasPrefix_def)
  moreover have "resolved ?gw anonymous sb = x" using c envdHostRe_Some [OF host] by (simp add: resolved_def)
  moreover have "authorized_for ?gw anonymous x" "\<not> forwards ?gw x" "\<not> the (gc_PortProxy ?gw) x (host_port p)"
    using assms(10) by (simp_all add: authorized_for_def forwards_def newE2BGateway_def authorizeSandbox_def forwardE2B_def
      portProxy_def toolboxTarget_def Sandbox_Get_def anonymous_def)
  ultimately have "gw_dispatch ?gw r anonymous x False (host_port p) = GwControl anonymous"
    unfolding d dispatch_to_def using pos path sandboxes_path envdHostRe_Some [OF host] by simp
  moreover have "gc_Domain ?gw = es_domain g" "gc_Private ?gw = es_private g" "gc_Throttle ?gw \<noteq> None"
    "case gc_Throttle ?gw of None \<Rightarrow> True | Some f \<Rightarrow> f [] False"
    by (simp_all add: newE2BGateway_def e2b_throttle_def split: option.split)
  ultimately show ?thesis
    unfolding gw_Handler_def Let_def auth option.case
    using assms(3,4,7) pos path sandboxes_path [of n] envdHostRe_Some [OF host] cp host
    by (auto simp: anonymous_def split: option.splits)
qed

text \<open>Claim C28. While ports are public (the default), anybody owns everything: a request without a credential whose host name has
  the form of a sandbox's, with a name no sandbox has, falls through to the control plane, where the empty
  identity passes as the owner. It deletes any sandbox of anyone, or learns the token that
  opens its files and processes.\<close>

theorem public_ports_open_the_control_plane:
  assumes "es_portal g = None" and "\<not> authDisabled cfg" and "\<not> es_private g" and "gw_key r = []"
    and "envdHostRe (es_domain g) (hostOnly (gr_Host r)) = Some (p, x)"
    and "number_value p > 0" and "p \<noteq> itoa 49999" and "gr_PortHeader r \<noteq> itoa 49999"
    and "x \<noteq> ''debug_sandbox_id''" and "cp_sandboxes st x = None" and path: "gr_Path r = ''/sandboxes/'' @ n"
    and n: "n \<noteq> []" "CHR ''/'' \<notin> set n" and sb: "cp_sandboxes st n = Some sb" and wf: "sandboxes_wf (cp_sandboxes st)"
  shows "case e2bServe g e cfg r b st of (a, st', rl) \<Rightarrow>
     (gr_Method r = ''DELETE'' \<longrightarrow> a = Control (E2BStatus 204) \<and> cp_sandboxes st' n = None) \<and>
     (gr_Method r = ''GET'' \<longrightarrow> (\<exists>d sb'. a = Control (E2BDetail 200 d) \<and> cp_sandboxes st' n = Some sb' \<and>
        ed_EnvdAccessToken d = label_of e2bEnvdTokenLabel sb'))"
proof -
  have owned: "e2b_owned [] n st = Some sb" using sb by (simp add: e2b_owned_def Sandbox_Get_def e2b_owns_def)
  have name: "sb_Name sb = n" using sb wf by (simp add: sandboxes_wf_def)
  have route: "cp_routes e cfg m (gr_Path r) b anonymous st = handleSandboxByID e m (gr_Path r) b anonymous st" for m
    using n path by (auto simp: cp_routes_def HasPrefix_def)
  have rest: "TrimPrefix (gr_Path r) ''/sandboxes/'' = n" using TrimPrefix_append [of "''/sandboxes/''" n] path by simp
  have cut: "Cut n (CHR ''/'') = (n, [], False)" using n by (rule_tac Cut_free)
  have h: "gw_Handler (newE2BGateway g (ae_now (ee_api e)) cfg (ee_order e) (gr_Path r) st) r = (GwControl anonymous, Some ([], False))"
    by (rule gw_reaches_control [OF assms(1-10) path])
  have "handleSandboxByID e ''DELETE'' (gr_Path r) b anonymous st = (E2BStatus 204, teardownSandbox sb st)"
    using n owned by (simp add: handleSandboxByID_def rest cut Let_def KillSandbox_def or_404_def anonymous_def)
  moreover have "handleSandboxByID e ''GET'' (gr_Path r) b anonymous st = (E2BDetail 200 (fst (detailFromInfo (ee_fresh e) sb st)), snd (detailFromInfo (ee_fresh e) sb st))"
    using n owned by (simp add: handleSandboxByID_def rest cut Let_def GetSandbox_def detail_or_404_def anonymous_def split: prod.split)
  moreover have "cp_sandboxes (teardownSandbox sb st) n = None" by (simp add: teardown_simps name)
  moreover have "\<exists>sb'. cp_sandboxes (snd (detailFromInfo (ee_fresh e) sb st)) n = Some sb' \<and>
      ed_EnvdAccessToken (fst (detailFromInfo (ee_fresh e) sb st)) = label_of e2bEnvdTokenLabel sb'"
    using sb name by (auto simp: detailFromInfo_def envdToken_def label_of_def)
  ultimately show ?thesis using h route by (auto simp: e2bServe_def Let_def)
qed

theorem public_ports_open_the_control_plane_witness:
  "\<exists>a st' rl. e2bServe demo_e2b demo_e2b_env demo_config (e2b_call [] ''DELETE'' ''80-ghost.e2b.test'' ''/sandboxes/box'') demo_e2b_body bobs_control
      = (a, st', rl) \<and> a = Control (E2BStatus 204) \<and> cp_sandboxes bobs_control ''box'' \<noteq> None \<and> cp_sandboxes st' ''box'' = None"
proof -
  let ?r = "e2b_call [] ''DELETE'' ''80-ghost.e2b.test'' ''/sandboxes/box''"
  have hyps: "es_portal demo_e2b = None" "\<not> authDisabled demo_config" "\<not> es_private demo_e2b" "gw_key ?r = []"
    "envdHostRe (es_domain demo_e2b) (hostOnly (gr_Host ?r)) = Some (''80'', ''ghost'')" "number_value ''80'' > 0"
    by code_simp+
  have port: "itoa 49999 = ''49999''" by (simp add: itoa_def nat_digits.simps, code_simp)
  obtain sb where sb: "cp_sandboxes bobs_control ''box'' = Some sb" by (simp add: bobs_control_def)
  have none: "cp_sandboxes bobs_control ''ghost'' = None" by (simp add: bobs_control_def)
  have path: "gr_Path ?r = ''/sandboxes/'' @ ''box''" by (simp add: e2b_call_def)
  have "case e2bServe demo_e2b demo_e2b_env demo_config ?r demo_e2b_body bobs_control of (a, st', rl) \<Rightarrow>
      (gr_Method ?r = ''DELETE'' \<longrightarrow> a = Control (E2BStatus 204) \<and> cp_sandboxes st' ''box'' = None) \<and>
      (gr_Method ?r = ''GET'' \<longrightarrow> (\<exists>d sb'. a = Control (E2BDetail 200 d) \<and> cp_sandboxes st' ''box'' = Some sb' \<and>
        ed_EnvdAccessToken d = label_of e2bEnvdTokenLabel sb'))"
    by (rule public_ports_open_the_control_plane [OF hyps _ _ _ none path _ _ sb demo_e2b_setting(1)])
      (simp_all add: port e2b_call_def)
  moreover have "gr_Method ?r = ''DELETE''" by (simp add: e2b_call_def)
  ultimately show ?thesis using sb by auto
qed

section \<open>Creating and reading back\<close>

lemma meta_labels:
  "distinct (map fst kvs) \<Longrightarrow>
     (fold (\<lambda>(k, v) l. l(e2bMetaPrefix @ k \<mapsto> v)) kvs l0) (e2bMetaPrefix @ x) =
       (case map_of kvs x of Some v \<Rightarrow> Some v | None \<Rightarrow> l0 (e2bMetaPrefix @ x))"
  by (induction kvs arbitrary: l0) (auto simp: map_of_eq_None_iff [THEN iffD2] split: option.splits)

lemma meta_labels_other:
  "(\<And>k. y \<noteq> e2bMetaPrefix @ k) \<Longrightarrow> (fold (\<lambda>(k, v) l. l(e2bMetaPrefix @ k \<mapsto> v)) kvs l0) y = l0 y"
  by (induction kvs arbitrary: l0) auto

lemma label_names: "e2bTemplateLabel \<noteq> e2bMetaPrefix @ k" "e2bEnvdTokenLabel \<noteq> e2bMetaPrefix @ k" "e2bTemplateLabel \<noteq> e2bEnvdTokenLabel"
  by (simp_all add: e2bTemplateLabel_def e2bMetaPrefix_def e2bEnvdTokenLabel_def)

lemma set_labels_read:
  assumes "distinct (map fst (ns_Metadata req))" and "sb_Labels s = Map.empty"
  shows "e2bMetaFromLabels (sb_Labels (set_labels req s)) = map_of (ns_Metadata req)"
    and "e2bTemplateFromLabels (sb_Labels (set_labels req s)) = (if ns_TemplateID req = [] then ''base'' else ns_TemplateID req)"
    and "sb_Labels (set_labels req s) e2bEnvdTokenLabel = None"
  using label_names label_names(1,2) [symmetric] assms
  by (auto simp: set_labels_def Let_def e2bMetaFromLabels_def e2bTemplateFromLabels_def meta_labels meta_labels_other fun_eq_iff
      split: option.split)

text \<open>What a create was given comes back: its answer carries the metadata and the template of the request under the
  name of the sandbox, and whatever the metadata says, the token in it is the one drawn by the server;
  asking for the sandbox afterwards gives the creator the same details.\<close>

theorem e2b_create_reads_back:
  assumes create: "CreateSandbox_e2b env cfg admit rnd fresh c req st = (E2BDetail s d, st')" and "cfg_NodeURL cfg = []"
    and "\<And>s. cp_sandboxes (ce_scheduling env s) = cp_sandboxes s" "\<And>s. cp_sandboxes (ce_working env s) = cp_sandboxes s"
    and "cp_sandboxes st (''e2b'' @ rnd) = None" and keys: "distinct (map fst (ns_Metadata req))" and "fresh \<noteq> []"
  shows "ed_Metadata d = map_of (ns_Metadata req) \<and> ed_TemplateID d = (if ns_TemplateID req = [] then ''base'' else ns_TemplateID req) \<and>
    ed_SandboxID d = ''e2b'' @ rnd \<and> ed_EnvdAccessToken d = fresh \<and>
    fst (GetSandbox other (ec_Ident c) (''e2b'' @ rnd) st') = Some d"
  using assms(1-5)
proof (cases rule: CreateSandbox_e2b_cases)
  case (made sb0 sb st2 d')
  have labels: "e2bMetaFromLabels (sb_Labels sb) = map_of (ns_Metadata req)"
      "e2bTemplateFromLabels (sb_Labels sb) = (if ns_TemplateID req = [] then ''base'' else ns_TemplateID req)"
      "sb_Labels sb e2bEnvdTokenLabel = None"
    using set_labels_read [OF keys made(2)] made(2,5) by (auto simp: e2bMetaFromLabels_def e2bTemplateFromLabels_def)
  have sb: "sb_Name sb = ''e2b'' @ rnd" "sb_Owner sb = ec_Ident c" using made(3,4,5) by (simp_all split: if_splits)
  have d: "d = fst (detailFromInfo fresh sb st2)" "st' = snd (detailFromInfo fresh sb st2)" using made(7,8) by auto
  show ?thesis
    unfolding d using labels sb made(6) \<open>fresh \<noteq> []\<close> label_names label_names(1,2) [symmetric]
    by (auto simp: detailFromInfo_def envdToken_def label_of_def GetSandbox_def e2b_owned_def e2b_owns_def Sandbox_Get_def
        stateFor_def e2bMetaFromLabels_def e2bTemplateFromLabels_def fun_eq_iff)
qed simp

definition demo_new :: new_sandbox where
  "demo_new = \<lparr>ns_TemplateID = ''py'', ns_Timeout = 60, ns_Metadata = [(''team'', ''red'')]\<rparr>"

definition e2b_create_env :: create_env where
  "e2b_create_env = demo_create_env\<lparr>ce_getenv := (\<lambda>k. if k = ''SANDRPOD_E2B_PROVIDER'' then ''local''
     else if k = ''SANDRPOD_E2B_REGION'' then ''eu'' else [])\<rparr>"

theorem e2b_create_reads_back_witness:
  "\<exists>s d st'. CreateSandbox_e2b e2b_create_env create_config admit_all ''x1'' ''tok'' \<lparr>ec_Ident = ''ann'', ec_Admin = False, ec_Tenant = ''t1''\<rparr>
      demo_new demo_control = (E2BDetail s d, st') \<and> ed_Metadata d ''team'' = Some ''red''"
proof -
  let ?c = "\<lparr>ec_Ident = ''ann'', ec_Admin = False, ec_Tenant = ''t1''\<rparr>"
  let ?run = "CreateSandbox_e2b e2b_create_env create_config admit_all ''x1'' ''tok'' ?c demo_new demo_control"
  have "case fst ?run of E2BDetail _ _ \<Rightarrow> True | _ \<Rightarrow> False" by code_simp
  then obtain s d where "fst ?run = E2BDetail s d" by (simp split: e2b_answer.splits)
  then have run: "?run = (E2BDetail s d, snd ?run)" by (metis prod.collapse)
  have "ed_Metadata d = map_of (ns_Metadata demo_new)"
    using e2b_create_reads_back [OF run] by (simp add: create_config_def e2b_create_env_def demo_create_env_def demo_control_def demo_new_def)
  then show ?thesis using run by (intro exI [of _ s] exI [of _ d] exI [of _ "snd ?run"]) (simp add: demo_new_def)
qed

section \<open>Further facts\<close>

text \<open>Under the versioned path nothing but 405 comes back: the handler cuts off the unversioned prefix only.\<close>

lemma versioned_sandbox_path_is_refused:
  "cp_routes e cfg meth (''/v2/sandboxes/'' @ n) b c st = (E2BStatus 405, st)"
proof -
  have "TrimPrefix (''/v2/sandboxes/'' @ n) ''/sandboxes/'' = ''/v2/sandboxes/'' @ n"
    by (simp add: TrimPrefix_other HasPrefix_def)
  then show ?thesis by (simp add: cp_routes_def handleSandboxByID_def HasPrefix_def Let_def split: prod.split)
qed

text \<open>The token of a sandbox without an owner opens everything: its identity is the empty one.\<close>

lemma ownerless_token_is_master:
  assumes "List.find (\<lambda>sb. label_of e2bEnvdTokenLabel sb \<noteq> [] \<and> label_of e2bEnvdTokenLabel sb = key) (Sandbox_List ord (cp_sandboxes st)) = Some sb"
    and "sb_Owner sb = []"
  shows "envdTokenIdentity ord st key = Some [] \<and> authorizeSandbox st [] n \<and> (cp_sandboxes st n = Some x \<longrightarrow> e2b_owned [] n st = Some x)"
  using assms by (auto simp: envdTokenIdentity_def authorizeSandbox_def e2b_owned_def e2b_owns_def Sandbox_Get_def split: option.splits)

text \<open>The native API stays with the server: on the API host only the paths of the E2B control plane go to the gateway.\<close>

lemma native_paths_stay:
  assumes "HasPrefix path ''/api/''" and "CHR '':'' \<notin> set domain"
  shows "\<not> e2bHostRouter domain (''api.'' @ domain) path"
proof -
  from assms(1) obtain s where "path = ''/api/'' @ s" by (auto simp: HasPrefix_iff)
  then have "\<not> IsControlPlanePath path"
    by (simp add: IsControlPlanePath_def strip_version_def controlPlaneNamespaces_def HasPrefix_def)
  moreover have "IndexByte (''api.'' @ domain) (CHR '':'') = None" using assms(2) by (simp add: IndexByte_None)
  moreover have "envdHostRe domain (''api.'' @ domain) = None" by (simp add: envdHostRe_def is_digit_def Let_def)
  ultimately show ?thesis by (simp add: e2bHostRouter_def)
qed

end
