(* ===== verification/E2B_Wire.thy ===== *)
theory E2B_Wire
  imports Go_Prelude "HOL-Library.Word"
begin

text \<open>
  The binary messages of the E2B surface: the hand-written codecs of \<^verbatim>\<open>src/pkg/e2bcompat/protobuf.go\<close> and
  \<^verbatim>\<open>src/pkg/e2bcompat/protobuf_process.go\<close>, and the stream framing of \<^verbatim>\<open>src/pkg/e2bcompat/envd.go\<close>. The package
  \<^verbatim>\<open>protowire\<close> is not part of the repository: it is the record \<open>protowire\<close> of the operations the codecs
  call. A result of \<open>None\<close> stands for a negative length, and what is consumed is a count of bytes.

  The loops are partial functions, since they end only if \<^verbatim>\<open>ConsumeTag\<close> makes progress. The locale
  \<open>wire_progress\<close> states what the documentation of the package says about lengths, \<open>wire\<close> adds that what was
  appended is consumed again; both are interpreted on an implementation of the wire format.

  Shown here: under the first contract every decoder returns on every input; under the second a
  message of well-formed fields decodes to its last singular fields and all its repeated ones,
  unknown fields skipped, so that a start request arrives, and the frames of a stream come apart again.
\<close>

section \<open>The package protowire\<close>

datatype wire_type = VarintType | Fixed64Type | BytesType | StartGroupType | EndGroupType | Fixed32Type | ReservedType nat

record protowire =
  pw_ConsumeTag :: "string \<Rightarrow> (nat \<times> wire_type \<times> nat) option"
  pw_ConsumeBytes :: "string \<Rightarrow> (string \<times> nat) option"
  pw_ConsumeVarint :: "string \<Rightarrow> (64 word \<times> nat) option"
  pw_ConsumeFieldValue :: "nat \<Rightarrow> wire_type \<Rightarrow> string \<Rightarrow> nat option"
  pw_AppendTag :: "nat \<Rightarrow> wire_type \<Rightarrow> string"
  pw_AppendVarint :: "64 word \<Rightarrow> string"
  pw_AppendBytes :: "string \<Rightarrow> string"
  pw_EncodeZigZag :: "64 word \<Rightarrow> 64 word"

section \<open>The loop of the decoders\<close>

text \<open>Every decoder is a loop that consumes a tag and then lets the field decide: leave the loop with a result, or go on
  with the rest of the input. A result of \<open>None\<close> stands for a loop that does not end or for a panic.\<close>

datatype 'a step = Stop 'a | Next 'a string

text \<open>The slice \<^verbatim>\<open>b[n:]\<close>; \<open>None\<close> is the panic of a bound that is out of range.\<close>

definition slice_from :: "nat \<Rightarrow> string \<Rightarrow> string option" where
  "slice_from n b = (if n \<le> length b then Some (drop n b) else None)"

partial_function (option) scan ::
  "protowire \<Rightarrow> (nat \<Rightarrow> wire_type \<Rightarrow> string \<Rightarrow> 'a \<Rightarrow> 'a step option) \<Rightarrow> 'a \<Rightarrow> string \<Rightarrow> 'a option" where
  "scan pw f acc b =
     (if b = [] then Some acc
      else case pw_ConsumeTag pw b of
        None \<Rightarrow> Some acc
      | Some (num, typ, n) \<Rightarrow>
          (case slice_from n b of
             None \<Rightarrow> None
           | Some rest \<Rightarrow>
               (case f num typ rest acc of
                  None \<Rightarrow> None
                | Some (Stop r) \<Rightarrow> Some r
                | Some (Next acc' b') \<Rightarrow> scan pw f acc' b')))"

declare scan.simps [code]

definition on_bytes :: "protowire \<Rightarrow> string \<Rightarrow> 'a \<Rightarrow> (string \<Rightarrow> 'a option) \<Rightarrow> 'a step option" where
  "on_bytes pw b acc k =
     (case pw_ConsumeBytes pw b of
        None \<Rightarrow> Some (Stop acc)
      | Some (v, vn) \<Rightarrow>
          (case slice_from vn b of
             None \<Rightarrow> None
           | Some rest \<Rightarrow> (case k v of None \<Rightarrow> None | Some a \<Rightarrow> Some (Next a rest))))"

definition on_varint :: "protowire \<Rightarrow> string \<Rightarrow> 'a \<Rightarrow> (64 word \<Rightarrow> 'a) \<Rightarrow> 'a step option" where
  "on_varint pw b acc k =
     (case pw_ConsumeVarint pw b of
        None \<Rightarrow> Some (Stop acc)
      | Some (v, vn) \<Rightarrow> map_option (Next (k v)) (slice_from vn b))"

definition on_other :: "protowire \<Rightarrow> nat \<Rightarrow> wire_type \<Rightarrow> string \<Rightarrow> 'a \<Rightarrow> 'a step option" where
  "on_other pw num typ b acc =
     (case pw_ConsumeFieldValue pw num typ b of None \<Rightarrow> Some (Stop acc) | Some fn \<Rightarrow> map_option (Next acc) (slice_from fn b))"

section \<open>Decoding: protobuf.go\<close>

definition isProtoContentType :: "string \<Rightarrow> bool" where
  "isProtoContentType ct = Contains ct ''proto''"

record process_config =
  pc_Cmd :: string
  pc_Args :: "string list"
  pc_Envs :: "(string \<times> string) list"
  pc_Cwd :: "string option"

definition no_config :: process_config where
  "no_config = \<lparr>pc_Cmd = [], pc_Args = [], pc_Envs = [], pc_Cwd = None\<rparr>"

definition config_field :: "protowire \<Rightarrow> nat \<Rightarrow> wire_type \<Rightarrow> string \<Rightarrow> process_config \<Rightarrow> process_config step option" where
  "config_field pw num typ b cfg =
     (if num = 1 \<and> typ = BytesType then on_bytes pw b cfg (\<lambda>v. Some (cfg\<lparr>pc_Cmd := v\<rparr>))
      else if num = 2 \<and> typ = BytesType then on_bytes pw b cfg (\<lambda>v. Some (cfg\<lparr>pc_Args := pc_Args cfg @ [v]\<rparr>))
      else if num = 4 \<and> typ = BytesType then on_bytes pw b cfg (\<lambda>v. Some (cfg\<lparr>pc_Cwd := Some v\<rparr>))
      else on_other pw num typ b cfg)"

definition decodeProcessConfig :: "protowire \<Rightarrow> string \<Rightarrow> process_config option" where
  "decodeProcessConfig pw b = scan pw (config_field pw) no_config b"

definition decodeStartRequest :: "protowire \<Rightarrow> string \<Rightarrow> process_config option" where
  "decodeStartRequest pw b =
     scan pw (\<lambda>num typ b cfg.
       if num = 1 \<and> typ = BytesType then on_bytes pw b cfg (decodeProcessConfig pw) else on_other pw num typ b cfg) no_config b"

definition decodeStringField :: "protowire \<Rightarrow> string \<Rightarrow> nat \<Rightarrow> string option" where
  "decodeStringField pw b field =
     scan pw (\<lambda>num typ b s.
       if num = field \<and> typ = BytesType
       then Some (Stop (case pw_ConsumeBytes pw b of None \<Rightarrow> [] | Some (v, _) \<Rightarrow> v))
       else on_other pw num typ b s) [] b"

definition decodeListDirRequest :: "protowire \<Rightarrow> string \<Rightarrow> (string \<times> 32 word) option" where
  "decodeListDirRequest pw b =
     scan pw (\<lambda>num typ b acc. case acc of (path, depth) \<Rightarrow>
       if num = 1 \<and> typ = BytesType then on_bytes pw b acc (\<lambda>v. Some (v, depth))
       else if num = 2 \<and> typ = VarintType then on_varint pw b acc (\<lambda>v. (path, ucast v))
       else on_other pw num typ b acc) ([], 0) b"

definition decodeMoveRequest :: "protowire \<Rightarrow> string \<Rightarrow> (string \<times> string) option" where
  "decodeMoveRequest pw b =
     (case decodeStringField pw b 1 of
        None \<Rightarrow> None
      | Some s \<Rightarrow> (case decodeStringField pw b 2 of None \<Rightarrow> None | Some d \<Rightarrow> Some (s, d)))"

section \<open>Decoding: protobuf_process.go\<close>

record pty_size =
  pt_Rows :: "32 word"
  pt_Cols :: "32 word"

text \<open>The message \<^verbatim>\<open>Size\<close>, the inner loop of \<^verbatim>\<open>decodePTYSize\<close>.\<close>

definition size_field :: "protowire \<Rightarrow> nat \<Rightarrow> wire_type \<Rightarrow> string \<Rightarrow> pty_size \<Rightarrow> pty_size step option" where
  "size_field pw num typ b sz =
     (if typ = VarintType then
        on_varint pw b sz (\<lambda>v. if num = 1 then sz\<lparr>pt_Rows := ucast v\<rparr> else if num = 2 then sz\<lparr>pt_Cols := ucast v\<rparr> else sz)
      else on_other pw num typ b sz)"

definition no_size :: pty_size where "no_size = \<lparr>pt_Rows = 0, pt_Cols = 0\<rparr>"

definition decodePTYSize :: "protowire \<Rightarrow> string \<Rightarrow> pty_size option" where
  "decodePTYSize pw b =
     scan pw (\<lambda>num typ b sz.
       if num = 1 \<and> typ = BytesType then
         (case pw_ConsumeBytes pw b of
            None \<Rightarrow> Some (Stop sz)
          | Some (v, _) \<Rightarrow> map_option Stop (scan pw (size_field pw) sz v))
       else on_other pw num typ b sz) no_size b"

record start_request =
  sq_Process :: process_config
  sq_PTY :: "pty_size option"
  sq_Stdin :: bool

definition no_start :: start_request where
  "no_start = \<lparr>sq_Process = no_config, sq_PTY = None, sq_Stdin = False\<rparr>"

definition start_field :: "protowire \<Rightarrow> nat \<Rightarrow> wire_type \<Rightarrow> string \<Rightarrow> start_request \<Rightarrow> start_request step option" where
  "start_field pw num typ b q =
     (if num = 1 \<and> typ = BytesType then on_bytes pw b q (\<lambda>v. map_option (\<lambda>c. q\<lparr>sq_Process := c\<rparr>) (decodeProcessConfig pw v))
      else if num = 2 \<and> typ = BytesType then on_bytes pw b q (\<lambda>v. map_option (\<lambda>s. q\<lparr>sq_PTY := Some s\<rparr>) (decodePTYSize pw v))
      else if num = 4 \<and> typ = VarintType then on_varint pw b q (\<lambda>v. q\<lparr>sq_Stdin := (v \<noteq> 0)\<rparr>)
      else on_other pw num typ b q)"

definition decodeStartRequestFull :: "protowire \<Rightarrow> string \<Rightarrow> start_request option" where
  "decodeStartRequestFull pw b = scan pw (start_field pw) no_start b"

definition decodeSelectorPID :: "protowire \<Rightarrow> string \<Rightarrow> 32 word option" where
  "decodeSelectorPID pw b =
     scan pw (\<lambda>num typ b p.
       if num = 1 \<and> typ = VarintType
       then Some (Stop (case pw_ConsumeVarint pw b of None \<Rightarrow> 0 | Some (v, _) \<Rightarrow> ucast v))
       else on_other pw num typ b p) 0 b"

definition decodeSubMessagePID :: "protowire \<Rightarrow> string \<Rightarrow> nat \<Rightarrow> 32 word option" where
  "decodeSubMessagePID pw b field =
     scan pw (\<lambda>num typ b p.
       if num = field \<and> typ = BytesType
       then (case pw_ConsumeBytes pw b of None \<Rightarrow> Some (Stop 0) | Some (v, _) \<Rightarrow> map_option Stop (decodeSelectorPID pw v))
       else on_other pw num typ b p) 0 b"

definition decodeConnectRequest :: "protowire \<Rightarrow> string \<Rightarrow> 32 word option" where
  "decodeConnectRequest pw b = decodeSubMessagePID pw b 1"

definition decodeSignalRequest :: "protowire \<Rightarrow> string \<Rightarrow> (32 word \<times> 32 word) option" where
  "decodeSignalRequest pw b =
     scan pw (\<lambda>num typ b acc. case acc of (pid, signal) \<Rightarrow>
       if num = 1 \<and> typ = BytesType then on_bytes pw b acc (\<lambda>v. map_option (\<lambda>p. (p, signal)) (decodeSelectorPID pw v))
       else if num = 2 \<and> typ = VarintType then on_varint pw b acc (\<lambda>v. (pid, ucast v))
       else on_other pw num typ b acc) (0, 0) b"

definition decodeProcessInput :: "protowire \<Rightarrow> string \<Rightarrow> (string \<times> bool) option" where
  "decodeProcessInput pw b =
     scan pw (\<lambda>num typ b acc.
       if typ = BytesType \<and> (num = 1 \<or> num = 2) then on_bytes pw b acc (\<lambda>v. Some (v, num = 2))
       else on_other pw num typ b acc) ([], False) b"

definition decodeInputRequest :: "protowire \<Rightarrow> string \<Rightarrow> (32 word \<times> string \<times> bool) option" where
  "decodeInputRequest pw b =
     scan pw (\<lambda>num typ b acc. case acc of (pid, input) \<Rightarrow>
       if num = 1 \<and> typ = BytesType then on_bytes pw b acc (\<lambda>v. map_option (\<lambda>p. (p, input)) (decodeSelectorPID pw v))
       else if num = 2 \<and> typ = BytesType then on_bytes pw b acc (\<lambda>v. map_option (\<lambda>i. (pid, i)) (decodeProcessInput pw v))
       else on_other pw num typ b acc) (0, [], False) b"

definition decodeUpdateRequest :: "protowire \<Rightarrow> string \<Rightarrow> (32 word \<times> pty_size) option" where
  "decodeUpdateRequest pw b =
     scan pw (\<lambda>num typ b acc. case acc of (pid, sz) \<Rightarrow>
       if num = 1 \<and> typ = BytesType then on_bytes pw b acc (\<lambda>v. map_option (\<lambda>p. (p, sz)) (decodeSelectorPID pw v))
       else if num = 2 \<and> typ = BytesType then on_bytes pw b acc (\<lambda>v. map_option (\<lambda>s. (pid, s)) (decodePTYSize pw v))
       else on_other pw num typ b acc) (0, no_size) b"

definition decodeBoolField :: "protowire \<Rightarrow> string \<Rightarrow> nat \<Rightarrow> bool option" where
  "decodeBoolField pw b field =
     scan pw (\<lambda>num typ b r.
       if num = field \<and> typ = VarintType
       then Some (Stop (case pw_ConsumeVarint pw b of None \<Rightarrow> False | Some (v, _) \<Rightarrow> v \<noteq> 0))
       else on_other pw num typ b r) False b"

section \<open>Encoding\<close>

definition FileTypeUnspecified :: string where "FileTypeUnspecified = ''FILE_TYPE_UNSPECIFIED''"
definition FileTypeFile :: string where "FileTypeFile = ''FILE_TYPE_FILE''"
definition FileTypeDirectory :: string where "FileTypeDirectory = ''FILE_TYPE_DIRECTORY''"

record entry_info =
  en_Name :: string
  en_Type :: string
  en_Path :: string
  en_Size :: "64 word"
  en_Mode :: "32 word"
  en_Permissions :: string
  en_Owner :: string
  en_Group :: string
  en_ModifiedTime :: "gotime option"
  en_SymlinkTarget :: "string option"

definition fileTypeEnum :: "string \<Rightarrow> 64 word" where
  "fileTypeEnum t = (if t = FileTypeFile then 1 else if t = FileTypeDirectory then 2 else 0)"

definition bytes_field :: "protowire \<Rightarrow> nat \<Rightarrow> string \<Rightarrow> string" where
  "bytes_field pw num s = pw_AppendTag pw num BytesType @ pw_AppendBytes pw s"

definition varint_field :: "protowire \<Rightarrow> nat \<Rightarrow> 64 word \<Rightarrow> string" where
  "varint_field pw num v = pw_AppendTag pw num VarintType @ pw_AppendVarint pw v"

definition encodeEntryInfo :: "protowire \<Rightarrow> entry_info \<Rightarrow> string" where
  "encodeEntryInfo pw e =
     bytes_field pw 1 (en_Name e) @ varint_field pw 2 (fileTypeEnum (en_Type e)) @ bytes_field pw 3 (en_Path e) @
     varint_field pw 4 (en_Size e) @
     (if en_Mode e \<noteq> 0 then varint_field pw 5 (ucast (en_Mode e)) else []) @
     (if en_Permissions e \<noteq> [] then bytes_field pw 6 (en_Permissions e) else [])"

definition encodeMsgField :: "protowire \<Rightarrow> nat \<Rightarrow> string \<Rightarrow> string" where
  "encodeMsgField pw num inner = bytes_field pw num inner"

definition encodeStatResponse :: "protowire \<Rightarrow> entry_info \<Rightarrow> string" where
  "encodeStatResponse pw e = encodeMsgField pw 1 (encodeEntryInfo pw e)"

definition encodeEntryResponse :: "protowire \<Rightarrow> entry_info \<Rightarrow> string" where
  "encodeEntryResponse pw e = encodeMsgField pw 1 (encodeEntryInfo pw e)"

definition encodeListDirResponse :: "protowire \<Rightarrow> entry_info list \<Rightarrow> string" where
  "encodeListDirResponse pw es = concat (map (\<lambda>e. encodeMsgField pw 1 (encodeEntryInfo pw e)) es)"

definition wrapStartResponse :: "protowire \<Rightarrow> string \<Rightarrow> string" where
  "wrapStartResponse pw event = encodeMsgField pw 1 event"

definition procStartEvent :: "protowire \<Rightarrow> 32 word \<Rightarrow> string" where
  "procStartEvent pw pid = wrapStartResponse pw (encodeMsgField pw 1 (varint_field pw 1 (ucast pid)))"

definition chStdout :: nat where "chStdout = 1"
definition chStderr :: nat where "chStderr = 2"
definition chPTY :: nat where "chPTY = 3"

definition procDataEvent :: "protowire \<Rightarrow> string \<Rightarrow> nat \<Rightarrow> string" where
  "procDataEvent pw data channel = wrapStartResponse pw (encodeMsgField pw 2 (bytes_field pw channel data))"

definition procEndEvent :: "protowire \<Rightarrow> 32 word \<Rightarrow> string \<Rightarrow> string" where
  "procEndEvent pw exitCode status =
     wrapStartResponse pw (encodeMsgField pw 3
       (varint_field pw 1 (pw_EncodeZigZag pw (signed_take_bit 31 (ucast exitCode))) @ varint_field pw 2 1 @ bytes_field pw 3 status))"

definition encodeCreateWatcherResponse :: "protowire \<Rightarrow> string \<Rightarrow> string" where
  "encodeCreateWatcherResponse pw i = bytes_field pw 1 i"

definition watchEventTypeEnum :: "string \<Rightarrow> 64 word" where
  "watchEventTypeEnum n =
     (if n = ''EVENT_TYPE_CREATE'' then 1 else if n = ''EVENT_TYPE_WRITE'' then 2 else if n = ''EVENT_TYPE_REMOVE'' then 3
      else if n = ''EVENT_TYPE_RENAME'' then 4 else if n = ''EVENT_TYPE_CHMOD'' then 5 else 0)"

definition encodeWatcherEventsResponse :: "protowire \<Rightarrow> (string \<times> string) list \<Rightarrow> string" where
  "encodeWatcherEventsResponse pw events =
     concat (map (\<lambda>(name, typ). encodeMsgField pw 1 (bytes_field pw 1 name @ varint_field pw 2 (watchEventTypeEnum typ))) events)"

record proc_info =
  pi_PID :: "32 word"
  pi_Tag :: string
  pi_Cmd :: string
  pi_Args :: "string list"
  pi_Cwd :: string

definition encode_config :: "protowire \<Rightarrow> proc_info \<Rightarrow> string" where
  "encode_config pw p =
     bytes_field pw 1 (pi_Cmd p) @ concat (map (bytes_field pw 2) (pi_Args p)) @
     (if pi_Cwd p \<noteq> [] then bytes_field pw 4 (pi_Cwd p) else [])"

definition encodeListResponse :: "protowire \<Rightarrow> proc_info list \<Rightarrow> string" where
  "encodeListResponse pw procs =
     concat (map (\<lambda>p. encodeMsgField pw 1 (encodeMsgField pw 1 (encode_config pw p) @ varint_field pw 2 (ucast (pi_PID p)) @
       (if pi_Tag p \<noteq> [] then bytes_field pw 3 (pi_Tag p) else []))) procs)"

section \<open>Frames of a stream: envd.go\<close>

text \<open>\<^verbatim>\<open>binary.BigEndian\<close> on 32 bits.\<close>

definition PutUint32 :: "32 word \<Rightarrow> string" where
  "PutUint32 n =
     (let k = unat n in [char_of (k div 2 ^ 24), char_of (k div 2 ^ 16), char_of (k div 2 ^ 8), char_of k])"

definition Uint32 :: "string \<Rightarrow> 32 word" where
  "Uint32 b = of_nat (foldl (\<lambda>n c. 256 * n + of_char c) 0 b)"

definition stripEnvelope :: "string \<Rightarrow> string" where
  "stripEnvelope body =
     (if length body < 5 then body
      else let n = unat (Uint32 (take 4 (drop 1 body))) in
        if n \<le> length body - 5 then take n (drop 5 body) else drop 5 body)"

definition writeEnvelope :: "char \<Rightarrow> string \<Rightarrow> string" where
  "writeEnvelope flag msg = flag # PutUint32 (of_nat (length msg)) @ msg"

definition writeConnectFrame :: "string \<Rightarrow> string" where
  "writeConnectFrame payload = CHR 0x00 # PutUint32 (of_nat (length payload)) @ payload"

definition writeConnectEndFrame :: string where
  "writeConnectEndFrame = CHR 0x02 # PutUint32 (of_nat (length ''{}'')) @ ''{}''"

section \<open>Every decoder returns\<close>

text \<open>A step that returns and does not give back more input than it got.\<close>

definition shrinks :: "string \<Rightarrow> 'a step option \<Rightarrow> bool" where
  "shrinks b r \<longleftrightarrow> (\<exists>s. r = Some s \<and> (\<forall>a b'. s = Next a b' \<longrightarrow> length b' \<le> length b))"

definition step_ok :: "(nat \<Rightarrow> wire_type \<Rightarrow> string \<Rightarrow> 'a \<Rightarrow> 'a step option) \<Rightarrow> bool" where
  "step_ok f \<longleftrightarrow> (\<forall>num ty b acc. shrinks b (f num ty b acc))"

locale wire_progress =
  fixes pw :: protowire
  assumes tag_progress: "pw_ConsumeTag pw b = Some (num, ty, n) \<Longrightarrow> 0 < n \<and> n \<le> length b"
    and bytes_within: "pw_ConsumeBytes pw b = Some (v, n) \<Longrightarrow> n \<le> length b"
    and varint_within: "pw_ConsumeVarint pw b = Some (u, n) \<Longrightarrow> n \<le> length b"
    and value_within: "pw_ConsumeFieldValue pw num ty b = Some n \<Longrightarrow> n \<le> length b"
begin

lemma scan_total:
  assumes "step_ok f"
  shows "\<exists>r. scan pw f acc b = Some r"
proof (induction "length b" arbitrary: acc b rule: less_induct)
  case less
  show ?case
  proof (cases "b = [] \<or> pw_ConsumeTag pw b = None")
    case False
    then obtain num ty n where t: "pw_ConsumeTag pw b = Some (num, ty, n)" by fastforce
    from tag_progress [OF t] have n: "0 < n" "n \<le> length b" by auto
    obtain s where s: "f num ty (drop n b) acc = Some s" "\<forall>a b'. s = Next a b' \<longrightarrow> length b' \<le> length (drop n b)"
      using assms unfolding step_ok_def shrinks_def by blast
    show ?thesis
    proof (cases s)
      case (Next a b')
      with s n False have "length b' < length b" by auto
      from less [OF this] show ?thesis using t n s Next False by (subst scan.simps) (simp add: slice_from_def)
    qed (use t n s False in \<open>subst scan.simps, simp add: slice_from_def\<close>)
  qed (subst scan.simps, auto)
qed

lemma on_other_ok: "shrinks b (on_other pw num ty b acc)"
  using value_within by (auto simp: shrinks_def on_other_def slice_from_def split: option.splits)

lemma on_varint_ok: "shrinks b (on_varint pw b acc k)"
  using varint_within by (auto simp: shrinks_def on_varint_def slice_from_def split: option.splits)

lemma on_bytes_ok:
  assumes "\<And>v. \<exists>a. k v = Some a"
  shows "shrinks b (on_bytes pw b acc k)"
proof (cases "pw_ConsumeBytes pw b")
  case (Some vn)
  then obtain v n where v: "pw_ConsumeBytes pw b = Some (v, n)" by (cases vn) auto
  then show ?thesis using bytes_within [OF v] assms [of v] by (auto simp: shrinks_def on_bytes_def slice_from_def)
qed (simp add: shrinks_def on_bytes_def)

lemma on_bytes_map_ok:
  assumes "\<And>v. \<exists>r. g v = Some r"
  shows "shrinks b (on_bytes pw b acc (\<lambda>v. map_option h (g v)))"
proof (rule on_bytes_ok)
  show "\<exists>a. map_option h (g v) = Some a" for v using assms [of v] by auto
qed

lemma stop_ok: "shrinks b (Some (Stop r))"
  by (simp add: shrinks_def)

lemma stop_map_ok: "\<exists>r. x = Some r \<Longrightarrow> shrinks b (map_option Stop x)"
  by (auto simp: shrinks_def)

lemma config_total: "\<exists>r. decodeProcessConfig pw b = Some r"
  unfolding decodeProcessConfig_def
  by (rule scan_total) (simp add: step_ok_def stop_ok config_field_def on_bytes_ok on_other_ok)

lemma selector_total: "\<exists>r. decodeSelectorPID pw b = Some r"
  unfolding decodeSelectorPID_def
  by (rule scan_total) (simp add: step_ok_def stop_ok on_other_ok)

lemma input_total: "\<exists>r. decodeProcessInput pw b = Some r"
  unfolding decodeProcessInput_def
  by (rule scan_total) (simp add: step_ok_def stop_ok on_bytes_ok on_other_ok)

lemma size_total: "\<exists>r. scan pw (size_field pw) sz b = Some r"
  by (rule scan_total) (simp add: step_ok_def stop_ok size_field_def on_varint_ok on_other_ok)

lemma pty_total: "\<exists>r. decodePTYSize pw b = Some r"
  unfolding decodePTYSize_def
proof (rule scan_total, unfold step_ok_def, intro allI)
  fix num ty b sz
  show "shrinks b (if num = 1 \<and> ty = BytesType
      then case pw_ConsumeBytes pw b of None \<Rightarrow> Some (Stop sz) | Some (v, _) \<Rightarrow> map_option Stop (scan pw (size_field pw) sz v)
      else on_other pw num ty b sz)"
    by (simp add: on_other_ok stop_ok stop_map_ok [OF size_total] split: option.split prod.split)
qed

lemma string_total: "\<exists>r. decodeStringField pw b field = Some r"
  unfolding decodeStringField_def
  by (rule scan_total) (simp add: step_ok_def stop_ok on_other_ok)

lemma bool_total: "\<exists>r. decodeBoolField pw b field = Some r"
  unfolding decodeBoolField_def
  by (rule scan_total) (simp add: step_ok_def stop_ok on_other_ok)

lemma move_total: "\<exists>r. decodeMoveRequest pw b = Some r"
  using string_total [of b 1] string_total [of b 2] by (auto simp: decodeMoveRequest_def)

lemma listdir_total: "\<exists>r. decodeListDirRequest pw b = Some r"
  unfolding decodeListDirRequest_def
  by (rule scan_total) (simp add: step_ok_def stop_ok on_other_ok on_bytes_ok on_varint_ok split: prod.split)

lemma start_total: "\<exists>r. decodeStartRequest pw b = Some r"
  unfolding decodeStartRequest_def
  by (rule scan_total) (simp add: step_ok_def stop_ok on_other_ok on_bytes_ok config_total)

lemma start_full_total: "\<exists>r. decodeStartRequestFull pw b = Some r"
  unfolding decodeStartRequestFull_def
  by (rule scan_total)
    (simp add: step_ok_def stop_ok start_field_def on_other_ok on_varint_ok on_bytes_ok on_bytes_map_ok [OF config_total] on_bytes_map_ok [OF pty_total])

lemma signal_total: "\<exists>r. decodeSignalRequest pw b = Some r"
  unfolding decodeSignalRequest_def
  by (rule scan_total)
    (simp add: step_ok_def stop_ok on_other_ok on_varint_ok on_bytes_ok on_bytes_map_ok [OF selector_total] split: prod.split)

lemma input_request_total: "\<exists>r. decodeInputRequest pw b = Some r"
  unfolding decodeInputRequest_def
  by (rule scan_total)
    (simp add: step_ok_def stop_ok on_other_ok on_bytes_ok on_bytes_map_ok [OF selector_total] on_bytes_map_ok [OF input_total] split: prod.split)

lemma update_total: "\<exists>r. decodeUpdateRequest pw b = Some r"
  unfolding decodeUpdateRequest_def
  by (rule scan_total)
    (simp add: step_ok_def stop_ok on_other_ok on_bytes_ok on_bytes_map_ok [OF selector_total] on_bytes_map_ok [OF pty_total] split: prod.split)

lemma sub_pid_total: "\<exists>r. decodeSubMessagePID pw b field = Some r"
  unfolding decodeSubMessagePID_def
proof (rule scan_total, unfold step_ok_def, intro allI)
  fix num ty b p
  show "shrinks b (if num = field \<and> ty = BytesType
      then case pw_ConsumeBytes pw b of None \<Rightarrow> Some (Stop 0) | Some (v, _) \<Rightarrow> map_option Stop (decodeSelectorPID pw v)
      else on_other pw num ty b p)"
    by (simp add: on_other_ok stop_ok stop_map_ok [OF selector_total] split: option.split prod.split)
qed

end

section \<open>Messages as lists of fields\<close>

datatype wire_field = BytesField nat string | VarintField nat "64 word"

fun encode_field :: "protowire \<Rightarrow> wire_field \<Rightarrow> string" where
  "encode_field pw (BytesField num v) = bytes_field pw num v"
| "encode_field pw (VarintField num v) = varint_field pw num v"

definition encode_message :: "protowire \<Rightarrow> wire_field list \<Rightarrow> string" where
  "encode_message pw fs = concat (map (encode_field pw) fs)"

fun field_ok :: "wire_field \<Rightarrow> bool" where
  "field_ok (BytesField num v) \<longleftrightarrow> 1 \<le> num \<and> num < 2 ^ 29 \<and> length v < 2 ^ 63"
| "field_ok (VarintField num v) \<longleftrightarrow> 1 \<le> num \<and> num < 2 ^ 29"

locale wire = wire_progress +
  assumes tag_again: "\<lbrakk>1 \<le> num; num < 2 ^ 29; ty \<in> {VarintType, BytesType}\<rbrakk> \<Longrightarrow>
      pw_ConsumeTag pw (pw_AppendTag pw num ty @ rest) = Some (num, ty, length (pw_AppendTag pw num ty))"
    and bytes_again: "length v < 2 ^ 63 \<Longrightarrow> pw_ConsumeBytes pw (pw_AppendBytes pw v @ rest) = Some (v, length (pw_AppendBytes pw v))"
    and varint_again: "pw_ConsumeVarint pw (pw_AppendVarint pw u @ rest) = Some (u, length (pw_AppendVarint pw u))"
    and value_bytes_again: "\<lbrakk>1 \<le> num; num < 2 ^ 29; length v < 2 ^ 63\<rbrakk> \<Longrightarrow>
      pw_ConsumeFieldValue pw num BytesType (pw_AppendBytes pw v @ rest) = Some (length (pw_AppendBytes pw v))"
    and value_varint_again: "\<lbrakk>1 \<le> num; num < 2 ^ 29\<rbrakk> \<Longrightarrow>
      pw_ConsumeFieldValue pw num VarintType (pw_AppendVarint pw u @ rest) = Some (length (pw_AppendVarint pw u))"
begin

lemma on_bytes_field:
  "length v < 2 ^ 63 \<Longrightarrow> on_bytes pw (pw_AppendBytes pw v @ rest) acc k = map_option (\<lambda>a. Next a rest) (k v)"
  by (simp add: on_bytes_def bytes_again slice_from_def split: option.split)

lemma on_varint_field: "on_varint pw (pw_AppendVarint pw u @ rest) acc k = Some (Next (k u) rest)"
  by (simp add: on_varint_def varint_again slice_from_def)

lemma on_other_field:
  "\<lbrakk>1 \<le> num; num < 2 ^ 29; length v < 2 ^ 63\<rbrakk> \<Longrightarrow> on_other pw num BytesType (pw_AppendBytes pw v @ rest) acc = Some (Next acc rest)"
  "\<lbrakk>1 \<le> num; num < 2 ^ 29\<rbrakk> \<Longrightarrow> on_other pw num VarintType (pw_AppendVarint pw u @ rest) acc = Some (Next acc rest)"
  by (simp_all add: on_other_def value_bytes_again value_varint_again slice_from_def)

text \<open>What the loop body does with a well-formed field is what \<open>g\<close> does with it.\<close>

definition acts_as :: "(nat \<Rightarrow> wire_type \<Rightarrow> string \<Rightarrow> 'a \<Rightarrow> 'a step option) \<Rightarrow> (wire_field \<Rightarrow> 'a \<Rightarrow> 'a) \<Rightarrow> bool" where
  "acts_as f g \<longleftrightarrow>
     (\<forall>num v rest acc. 1 \<le> num \<and> num < 2 ^ 29 \<and> length v < 2 ^ 63 \<longrightarrow>
        f num BytesType (pw_AppendBytes pw v @ rest) acc = Some (Next (g (BytesField num v) acc) rest)) \<and>
     (\<forall>num u rest acc. 1 \<le> num \<and> num < 2 ^ 29 \<longrightarrow>
        f num VarintType (pw_AppendVarint pw u @ rest) acc = Some (Next (g (VarintField num u) acc) rest))"

lemma scan_again:
  assumes "1 \<le> num" and "num < 2 ^ 29" and "ty \<in> {VarintType, BytesType}"
    and "f num ty (v @ rest) acc = Some (Next acc' rest)"
  shows "scan pw f acc (pw_AppendTag pw num ty @ v @ rest) = scan pw f acc' rest"
proof -
  have "pw_AppendTag pw num ty \<noteq> []" using tag_again [OF assms(1-3), of "[]"] tag_progress by fastforce
  then show ?thesis using tag_again [OF assms(1-3), of "v @ rest"] assms(4) by (subst scan.simps) (simp add: slice_from_def)
qed

lemma scan_message:
  assumes "acts_as f g" and "list_all field_ok fs"
  shows "scan pw f acc (encode_message pw fs) = Some (fold g fs acc)"
  using assms(2)
proof (induction fs arbitrary: acc)
  case Nil
  show ?case by (subst scan.simps) (simp add: encode_message_def)
next
  case (Cons fld fs)
  have "scan pw f acc (encode_message pw (fld # fs)) = scan pw f (g fld acc) (encode_message pw fs)"
    using Cons.prems assms(1) unfolding acts_as_def
    by (cases fld) (simp_all add: encode_message_def bytes_field_def varint_field_def scan_again)
  then show ?case using Cons by simp
qed

end

section \<open>Requests as clients send them\<close>

text \<open>A client leaves out the fields that have their default value; an entry of a map is a message of its own.\<close>

definition bytes_unless_empty :: "nat \<Rightarrow> string \<Rightarrow> wire_field list" where
  "bytes_unless_empty num v = (if v = [] then [] else [BytesField num v])"

definition varint_unless_zero :: "nat \<Rightarrow> 64 word \<Rightarrow> wire_field list" where
  "varint_unless_zero num u = (if u = 0 then [] else [VarintField num u])"

definition client_config :: "protowire \<Rightarrow> process_config \<Rightarrow> wire_field list" where
  "client_config pw c =
     bytes_unless_empty 1 (pc_Cmd c) @ map (BytesField 2) (pc_Args c) @
     map (\<lambda>(k, v). BytesField 3 (encode_message pw [BytesField 1 k, BytesField 2 v])) (pc_Envs c) @
     (case pc_Cwd c of None \<Rightarrow> [] | Some d \<Rightarrow> [BytesField 4 d])"

definition client_size :: "pty_size \<Rightarrow> wire_field list" where
  "client_size sz = varint_unless_zero 1 (ucast (pt_Rows sz)) @ varint_unless_zero 2 (ucast (pt_Cols sz))"

definition client_start :: "protowire \<Rightarrow> string \<Rightarrow> start_request \<Rightarrow> wire_field list" where
  "client_start pw tag q =
     [BytesField 1 (encode_message pw (client_config pw (sq_Process q)))] @
     (case sq_PTY q of None \<Rightarrow> [] | Some sz \<Rightarrow> [BytesField 2 (encode_message pw [BytesField 1 (encode_message pw (client_size sz))])]) @
     bytes_unless_empty 3 tag @ (if sq_Stdin q then [VarintField 4 1] else [])"

text \<open>The effect of a field on what a decoder has so far.\<close>

fun config_effect :: "wire_field \<Rightarrow> process_config \<Rightarrow> process_config" where
  "config_effect (BytesField num v) c =
     (if num = 1 then c\<lparr>pc_Cmd := v\<rparr> else if num = 2 then c\<lparr>pc_Args := pc_Args c @ [v]\<rparr>
      else if num = 4 then c\<lparr>pc_Cwd := Some v\<rparr> else c)"
| "config_effect (VarintField num u) c = c"

fun size_effect :: "wire_field \<Rightarrow> pty_size \<Rightarrow> pty_size" where
  "size_effect (VarintField num u) sz =
     (if num = 1 then sz\<lparr>pt_Rows := ucast u\<rparr> else if num = 2 then sz\<lparr>pt_Cols := ucast u\<rparr> else sz)"
| "size_effect (BytesField num v) sz = sz"

fun start_effect :: "protowire \<Rightarrow> wire_field \<Rightarrow> start_request \<Rightarrow> start_request" where
  "start_effect pw (BytesField num v) q =
     (if num = 1 then q\<lparr>sq_Process := the (decodeProcessConfig pw v)\<rparr>
      else if num = 2 then q\<lparr>sq_PTY := Some (the (decodePTYSize pw v))\<rparr> else q)"
| "start_effect pw (VarintField num u) q = (if num = 4 then q\<lparr>sq_Stdin := (u \<noteq> 0)\<rparr> else q)"

context wire
begin

lemma config_decoded: "list_all field_ok fs \<Longrightarrow> decodeProcessConfig pw (encode_message pw fs) = Some (fold config_effect fs no_config)"
  unfolding decodeProcessConfig_def
  by (rule scan_message) (auto simp: acts_as_def config_field_def on_bytes_field on_other_field)

lemma size_decoded: "list_all field_ok fs \<Longrightarrow> scan pw (size_field pw) sz (encode_message pw fs) = Some (fold size_effect fs sz)"
  by (rule scan_message) (auto simp: acts_as_def size_field_def on_varint_field on_other_field)

lemma start_decoded: "list_all field_ok fs \<Longrightarrow> decodeStartRequestFull pw (encode_message pw fs) = Some (fold (start_effect pw) fs no_start)"
  unfolding decodeStartRequestFull_def
proof (rule scan_message)
  have "\<exists>r. decodeProcessConfig pw v = Some r" "\<exists>r. decodePTYSize pw v = Some r" for v using config_total pty_total by auto
  then show "acts_as (start_field pw) (start_effect pw)"
    by (fastforce simp: acts_as_def start_field_def on_bytes_field on_varint_field on_other_field)
qed

lemma pty_decoded:
  assumes "list_all field_ok fs" and "length (encode_message pw fs) < 2 ^ 63"
  shows "decodePTYSize pw (encode_message pw [BytesField 1 (encode_message pw fs)]) = Some (fold size_effect fs no_size)"
proof -
  have "pw_AppendTag pw 1 BytesType \<noteq> []" using tag_again [of 1 BytesType "[]"] tag_progress by fastforce
  then show ?thesis
    using tag_again [of 1 BytesType] bytes_again [OF assms(2), of "[]"] size_decoded [OF assms(1)]
    unfolding decodePTYSize_def encode_message_def bytes_field_def
    by (subst scan.simps) (simp add: slice_from_def bytes_field_def)
qed

end

section \<open>The wire format\<close>

text \<open>Base-128 numbers, least significant group first, at most ten bytes for 64 bits. Groups, which no message here has, are
  refused.\<close>

function put_varint :: "nat \<Rightarrow> string" where
  "put_varint n = (if n < 128 then [char_of n] else char_of (128 + n mod 128) # put_varint (n div 128))"
  by auto
termination by (relation "measure id") auto

declare put_varint.simps [simp del]

fun get_varint :: "string \<Rightarrow> (nat \<times> nat) option" where
  "get_varint [] = None"
| "get_varint (c # cs) =
     (let k = of_char c in
      if k < 128 then Some (k, 1) else map_option (\<lambda>(v, n). (k - 128 + 128 * v, Suc n)) (get_varint cs))"

definition get_varint64 :: "string \<Rightarrow> (nat \<times> nat) option" where
  "get_varint64 b = (case get_varint b of None \<Rightarrow> None | Some (v, n) \<Rightarrow> if n \<le> 10 \<and> v < 2 ^ 64 then Some (v, n) else None)"

fun type_number :: "wire_type \<Rightarrow> nat" where
  "type_number VarintType = 0" | "type_number Fixed64Type = 1" | "type_number BytesType = 2"
| "type_number StartGroupType = 3" | "type_number EndGroupType = 4" | "type_number Fixed32Type = 5" | "type_number (ReservedType n) = n"

definition number_type :: "nat \<Rightarrow> wire_type" where
  "number_type n = (if n = 0 then VarintType else if n = 1 then Fixed64Type else if n = 2 then BytesType
     else if n = 3 then StartGroupType else if n = 4 then EndGroupType else if n = 5 then Fixed32Type else ReservedType n)"

definition get_bytes :: "string \<Rightarrow> (string \<times> nat) option" where
  "get_bytes b =
     (case get_varint64 b of
        None \<Rightarrow> None
      | Some (m, n) \<Rightarrow> if m \<le> length b - n then Some (take m (drop n b), n + m) else None)"

definition std_wire :: protowire where
  "std_wire = \<lparr>
     pw_ConsumeTag = (\<lambda>b. case get_varint64 b of None \<Rightarrow> None
       | Some (v, n) \<Rightarrow> if 1 \<le> v div 8 \<and> v div 8 < 2 ^ 29 then Some (v div 8, number_type (v mod 8), n) else None),
     pw_ConsumeBytes = get_bytes,
     pw_ConsumeVarint = (\<lambda>b. map_option (\<lambda>(v, n). (of_nat v, n)) (get_varint64 b)),
     pw_ConsumeFieldValue = (\<lambda>num ty b.
       case ty of VarintType \<Rightarrow> map_option snd (get_varint64 b)
       | Fixed32Type \<Rightarrow> if 4 \<le> length b then Some 4 else None
       | Fixed64Type \<Rightarrow> if 8 \<le> length b then Some 8 else None
       | BytesType \<Rightarrow> map_option snd (get_bytes b)
       | _ \<Rightarrow> None),
     pw_AppendTag = (\<lambda>num ty. put_varint (8 * num + type_number ty)),
     pw_AppendVarint = (\<lambda>v. put_varint (unat v)),
     pw_AppendBytes = (\<lambda>v. put_varint (length v) @ v),
     pw_EncodeZigZag = (\<lambda>x. if bit x 63 then push_bit 1 (- x) - 1 else push_bit 1 x)\<rparr>"

lemma get_put_varint: "get_varint (put_varint n @ rest) = Some (n, length (put_varint n))"
proof (induction n rule: put_varint.induct)
  case (1 n)
  show ?case
  proof (cases "n < 128")
    case False
    have "128 + n mod 128 < 256" by simp
    then show ?thesis using 1 [OF False] False by (simp add: put_varint.simps [of n] of_char_of)
  qed (simp add: put_varint.simps of_char_of)
qed

lemma put_varint_length: "n < 128 ^ Suc k \<Longrightarrow> length (put_varint n) \<le> Suc k"
proof (induction k arbitrary: n)
  case (Suc k)
  then have "n div 128 < 128 ^ Suc k" by (simp add: div_less_iff_less_mult mult.commute)
  then show ?case using Suc.IH [of "n div 128"] by (simp add: put_varint.simps [of n])
qed (simp add: put_varint.simps)

lemma get_put_varint64: "n < 2 ^ 64 \<Longrightarrow> get_varint64 (put_varint n @ rest) = Some (n, length (put_varint n))"
proof -
  assume n: "n < 2 ^ 64"
  then have "n < 128 ^ Suc 9" by simp
  from put_varint_length [OF this] n show ?thesis by (simp add: get_varint64_def get_put_varint)
qed

lemma get_put_word: "get_varint64 (put_varint (unat (u :: 64 word)) @ rest) = Some (unat u, length (put_varint (unat u)))"
proof (rule get_put_varint64)
  have "unat u < 2 ^ LENGTH(64)" by (rule unsigned_less)
  then show "unat u < 2 ^ 64" by simp
qed

lemma get_varint_bounds: "get_varint b = Some (v, n) \<Longrightarrow> 0 < n \<and> n \<le> length b"
  by (induction b arbitrary: v n rule: get_varint.induct) (auto simp: Let_def split: if_splits)

lemma get_varint64_bounds: "get_varint64 b = Some (v, n) \<Longrightarrow> 0 < n \<and> n \<le> length b"
  by (auto simp: get_varint64_def split: option.splits if_splits dest: get_varint_bounds)

lemma get_bytes_bounds: "get_bytes b = Some (v, n) \<Longrightarrow> n \<le> length b"
  by (auto simp: get_bytes_def split: option.splits if_splits dest!: get_varint64_bounds)

lemma number_type_again: "ty \<in> {VarintType, BytesType} \<Longrightarrow> number_type (type_number ty) = ty \<and> type_number ty < 8"
  by (auto simp: number_type_def)

lemma get_put_bytes: "length v < 2 ^ 63 \<Longrightarrow> get_bytes (put_varint (length v) @ v @ rest) = Some (v, length (put_varint (length v)) + length v)"
  by (simp add: get_bytes_def get_put_varint64)

interpretation std: wire std_wire
proof
  fix b and num n :: nat and ty v and u :: "64 word" and rest
  show "pw_ConsumeTag std_wire b = Some (num, ty, n) \<Longrightarrow> 0 < n \<and> n \<le> length b"
    by (auto simp: std_wire_def split: option.splits if_splits dest: get_varint64_bounds)
  show "pw_ConsumeBytes std_wire b = Some (v, n) \<Longrightarrow> n \<le> length b"
    by (auto simp: std_wire_def dest: get_bytes_bounds)
  show "pw_ConsumeVarint std_wire b = Some (u, n) \<Longrightarrow> n \<le> length b"
    by (auto simp: std_wire_def dest: get_varint64_bounds)
  show "pw_ConsumeFieldValue std_wire num ty b = Some n \<Longrightarrow> n \<le> length b"
    by (auto simp: std_wire_def split: wire_type.splits if_splits dest: get_bytes_bounds get_varint64_bounds)
  show "pw_ConsumeVarint std_wire (pw_AppendVarint std_wire u @ rest) = Some (u, length (pw_AppendVarint std_wire u))"
    by (simp add: std_wire_def get_put_word)
  {
    assume num: "1 \<le> num" "num < 2 ^ 29"
    show "pw_ConsumeTag std_wire (pw_AppendTag std_wire num ty @ rest) = Some (num, ty, length (pw_AppendTag std_wire num ty))"
      if "ty \<in> {VarintType, BytesType}"
    proof -
      have t: "number_type (type_number ty) = ty" "type_number ty < 8" using number_type_again [OF that] by auto
      then have "8 * num + type_number ty < 2 ^ 64" "(8 * num + type_number ty) div 8 = num" "(8 * num + type_number ty) mod 8 = type_number ty"
        using num by auto
      then show ?thesis using num t by (simp add: std_wire_def get_put_varint64)
    qed
    show "pw_ConsumeFieldValue std_wire num BytesType (pw_AppendBytes std_wire v @ rest) = Some (length (pw_AppendBytes std_wire v))"
      if "length v < 2 ^ 63" using that by (simp add: std_wire_def get_put_bytes)
    show "pw_ConsumeFieldValue std_wire num VarintType (pw_AppendVarint std_wire u @ rest) = Some (length (pw_AppendVarint std_wire u))"
      by (simp add: std_wire_def get_put_word)
  }
  show "pw_ConsumeBytes std_wire (pw_AppendBytes std_wire v @ rest) = Some (v, length (pw_AppendBytes std_wire v))"
    if "length v < 2 ^ 63" using that by (simp add: std_wire_def get_put_bytes)
qed

section \<open>Properties\<close>

text \<open>No message hangs or crashes the server: every decoder returns on every input, well formed or not, provided
  that consuming a tag takes at least one byte and nothing consumes more than there is.\<close>

theorem every_message_is_decoded:
  assumes "wire_progress pw"
  shows "(\<exists>r. decodeStartRequestFull pw b = Some r) \<and> (\<exists>r. decodeStartRequest pw b = Some r) \<and>
    (\<exists>r. decodeInputRequest pw b = Some r) \<and> (\<exists>r. decodeSignalRequest pw b = Some r) \<and>
    (\<exists>r. decodeUpdateRequest pw b = Some r) \<and> (\<exists>r. decodeConnectRequest pw b = Some r) \<and>
    (\<exists>r. decodeListDirRequest pw b = Some r) \<and> (\<exists>r. decodeMoveRequest pw b = Some r) \<and>
    (\<exists>r. decodeStringField pw b field = Some r) \<and> (\<exists>r. decodeBoolField pw b field = Some r)"
  unfolding decodeConnectRequest_def
  by (intro conjI wire_progress.start_full_total [OF assms] wire_progress.start_total [OF assms] wire_progress.input_request_total [OF assms]
      wire_progress.signal_total [OF assms] wire_progress.update_total [OF assms] wire_progress.sub_pid_total [OF assms]
      wire_progress.listdir_total [OF assms] wire_progress.move_total [OF assms] wire_progress.string_total [OF assms]
      wire_progress.bool_total [OF assms])

theorem every_message_is_decoded_witness:
  "\<exists>r. decodeStartRequestFull std_wire [CHR 0x0A, CHR 0x85, CHR ''x''] = Some r"
  using every_message_is_decoded [OF std.wire_progress_axioms] by blast

lemma fold_args: "fold config_effect (map (BytesField 2) xs) c = c\<lparr>pc_Args := pc_Args c @ xs\<rparr>"
  by (induction xs arbitrary: c) simp_all

lemma fold_envs: "fold config_effect (map (\<lambda>(k, v). BytesField 3 (h k v)) xs) c = c"
  by (induction xs) auto

lemma client_config_effect: "fold config_effect (client_config pw c) no_config = c\<lparr>pc_Envs := []\<rparr>"
  by (cases c) (auto simp: client_config_def bytes_unless_empty_def fold_args fold_envs no_config_def split: option.split)

lemma word_there_and_back: "ucast (ucast x :: 64 word) = (x :: 32 word)"
  by (transfer, simp)

lemma word_there_zero: "(ucast x :: 64 word) = 0 \<longleftrightarrow> (x :: 32 word) = 0"
proof
  assume "(ucast x :: 64 word) = 0"
  then have "ucast (ucast x :: 64 word) = (0 :: 32 word)" by simp
  then show "x = 0" by (simp only: word_there_and_back)
qed simp

lemma client_size_effect: "fold size_effect (client_size sz) no_size = sz"
  by (cases sz) (auto simp: client_size_def varint_unless_zero_def no_size_def word_there_and_back word_there_zero)

text \<open>A start request arrives: what a client encodes is decoded to the same command, arguments, directory, terminal size and
  input flag, whatever the tag. The environment variables of the command are lost.\<close>

lemma start_request_arrives:
  assumes "wire pw" and "list_all field_ok (client_start pw tag q)" and "list_all field_ok (client_config pw (sq_Process q))"
    and "\<And>sz. sq_PTY q = Some sz \<Longrightarrow> length (encode_message pw (client_size sz)) < 2 ^ 63"
  shows "decodeStartRequestFull pw (encode_message pw (client_start pw tag q)) =
    Some (q\<lparr>sq_Process := (sq_Process q)\<lparr>pc_Envs := []\<rparr>\<rparr>)"
proof -
  have conf: "decodeProcessConfig pw (encode_message pw (client_config pw (sq_Process q))) = Some ((sq_Process q)\<lparr>pc_Envs := []\<rparr>)"
    using wire.config_decoded [OF assms(1,3)] by (simp add: client_config_effect)
  have size: "decodePTYSize pw (encode_message pw [BytesField 1 (encode_message pw (client_size sz))]) = Some sz"
    if "sq_PTY q = Some sz" for sz
  proof -
    have "list_all field_ok (client_size sz)" by (simp add: client_size_def varint_unless_zero_def)
    from wire.pty_decoded [OF assms(1) this assms(4) [OF that]] show ?thesis by (simp add: client_size_effect)
  qed
  have "fold (start_effect pw) (client_start pw tag q) no_start = q\<lparr>sq_Process := (sq_Process q)\<lparr>pc_Envs := []\<rparr>\<rparr>"
    using size by (intro start_request.equality) (auto simp: client_start_def conf bytes_unless_empty_def no_start_def split: option.split)
  with wire.start_decoded [OF assms(1,2)] show ?thesis by simp
qed

definition demo_start :: start_request where
  "demo_start = \<lparr>sq_Process = \<lparr>pc_Cmd = ''ls'', pc_Args = [''-l'', []], pc_Envs = [(''K'', ''v'')], pc_Cwd = Some ''/tmp''\<rparr>,
     sq_PTY = Some \<lparr>pt_Rows = 24, pt_Cols = 80\<rparr>, sq_Stdin = True\<rparr>"

lemma demo_start_fields:
  "list_all field_ok (client_start std_wire ''t'' demo_start)"
  "list_all field_ok (client_config std_wire (sq_Process demo_start))"
  "sq_PTY demo_start = Some sz \<Longrightarrow> length (encode_message std_wire (client_size sz)) < 2 ^ 63"
  "length (encode_message std_wire (client_start std_wire ''t'' demo_start)) < 200"
proof -
  have small: "length (encode_message std_wire (client_config std_wire (sq_Process demo_start))) < 100"
    "\<And>sz. sq_PTY demo_start = Some sz \<Longrightarrow> length (encode_message std_wire (client_size sz)) < 100"
    "\<And>sz. sq_PTY demo_start = Some sz \<Longrightarrow> length (encode_message std_wire [BytesField 1 (encode_message std_wire (client_size sz))]) < 100"
    "length (encode_message std_wire [BytesField 1 ''K'', BytesField 2 ''v'']) < 100"
    "length (encode_message std_wire (client_start std_wire ''t'' demo_start)) < 200"
    by (simp_all add: demo_start_def client_config_def client_size_def client_start_def encode_message_def bytes_field_def varint_field_def
        bytes_unless_empty_def varint_unless_zero_def std_wire_def put_varint.simps)
  show "list_all field_ok (client_start std_wire ''t'' demo_start)" "list_all field_ok (client_config std_wire (sq_Process demo_start))"
    using small by (simp_all add: client_start_def client_config_def bytes_unless_empty_def demo_start_def)
  show "length (encode_message std_wire (client_size sz)) < 2 ^ 63" if "sq_PTY demo_start = Some sz" using small(2) [OF that] by simp
  show "length (encode_message std_wire (client_start std_wire ''t'' demo_start)) < 200" by (rule small)
qed

section \<open>Frames\<close>

lemma four_bytes:
  assumes "k < 2 ^ 32"
  shows "256 * (256 * (256 * (k div 2 ^ 24 mod 256) + k div 2 ^ 16 mod 256) + k div 2 ^ 8 mod 256) + k mod 256 = (k :: nat)"
proof -
  have "k div 2 ^ 24 < 256" using assms by (simp add: div_less_iff_less_mult)
  moreover have "k div 2 ^ 16 = k div 2 ^ 8 div 256" "k div 2 ^ 24 = k div 2 ^ 16 div 256"
    by (simp_all add: div_mult2_eq [symmetric])
  ultimately show ?thesis
    using mult_div_mod_eq [of 256 k] mult_div_mod_eq [of 256 "k div 2 ^ 8"] mult_div_mod_eq [of 256 "k div 2 ^ 16"] by simp
qed

lemma Uint32_Put [simp]: "Uint32 (PutUint32 n) = n"
proof -
  have "unat n < 2 ^ LENGTH(32)" by (rule unsigned_less)
  then have "unat n < 2 ^ 32" by simp
  then have "foldl (\<lambda>n c. 256 * n + of_char c) 0 (PutUint32 n) = unat n"
    using four_bytes [of "unat n"] by (simp add: PutUint32_def Let_def of_char_of)
  then show ?thesis by (simp add: Uint32_def)
qed

lemma PutUint32_length [simp]: "length (PutUint32 n) = 4"
  by (simp add: PutUint32_def Let_def)

text \<open>How a reader takes a stream apart: flag and message of each frame, \<open>None\<close> when the input ends inside of one.\<close>

function read_frames :: "string \<Rightarrow> (char \<times> string) list option" where
  "read_frames b =
     (if b = [] then Some []
      else if length b < 5 then None
      else let n = unat (Uint32 (take 4 (drop 1 b))) in
        if length b - 5 < n then None
        else map_option (Cons (hd b, take n (drop 5 b))) (read_frames (drop (5 + n) b)))"
  by auto
termination by (relation "measure length") auto

declare read_frames.simps [simp del]

lemma unat_of_length: "length msg < 2 ^ 32 \<Longrightarrow> unat (of_nat (length msg) :: 32 word) = length msg"
  by (simp add: unat_of_nat)

lemma read_frame:
  "length msg < 2 ^ 32 \<Longrightarrow> read_frames (writeEnvelope flag msg @ rest) = map_option (Cons (flag, msg)) (read_frames rest)"
  by (subst read_frames.simps) (simp add: writeEnvelope_def unat_of_length Let_def drop_Cons')

lemma read_frames_append:
  "\<forall>m \<in> set ms. length m < 2 ^ 32 \<Longrightarrow>
    read_frames (concat (map (writeEnvelope flag) ms) @ rest) = map_option ((@) (map (Pair flag) ms)) (read_frames rest)"
proof (induction ms)
  case Nil
  show ?case by (cases "read_frames rest") simp_all
next
  case (Cons m ms)
  then show ?case by (simp add: read_frame option.map_comp comp_def)
qed

lemma read_end_frame: "read_frames writeConnectEndFrame = Some [(CHR 0x02, ''{}'')]"
  using read_frame [of "''{}''" "CHR 0x02" "[]"] by (simp add: writeConnectEndFrame_def writeEnvelope_def read_frames.simps [of "[]"])

lemma strip_one_frame: "length msg < 2 ^ 32 \<Longrightarrow> stripEnvelope (writeEnvelope flag msg) = msg"
  by (simp add: stripEnvelope_def writeEnvelope_def unat_of_length Let_def)

text \<open>A body that is not enveloped loses its first five bytes.\<close>

lemma unenveloped_body_is_cut: "5 \<le> length body \<Longrightarrow> \<exists>n. stripEnvelope body = take n (drop 5 body)"
  unfolding stripEnvelope_def Let_def by (metis linorder_not_less order_refl take_all)

end
