(* ===== verification/E2B_Envd.thy ===== *)
theory E2B_Envd
  imports E2B_Gateway E2B_Wire
begin

text \<open>
  The data plane of the E2B surface: the handlers of \<^verbatim>\<open>src/pkg/e2bcompat/envd.go\<close>, \<^verbatim>\<open>process.go\<close>, \<^verbatim>\<open>watch.go\<close> and
  \<^verbatim>\<open>codeinterp.go\<close>, and the back ends of \<^verbatim>\<open>src/pkg/server/e2bgateway.go\<close> that turn them into calls of the
  toolbox inside a sandbox. A call is recorded with the tunnel it was handed to; what the toolbox answers
  to it, after the calls before it, is an argument. Bodies in JSON are given decoded, by functions that
  return what the decoder of the standard library has filled in.

  Shown here: what a caller sends is handed to the tunnel of a running sandbox of its own or of nobody,
  addressed to its toolbox, unless it names the placeholder of the SDK's debug mode, which leads to any sandbox; every request is answered; a command sent in the binary encoding is started
  as it was sent, its environment apart, and the client reads its events in order and one end
  frame; an upload writes the files of the form in order and stops at the first that fails.
\<close>

section \<open>Calls of the toolbox\<close>

datatype toolbox_body =
    NoBody
  | StartBody process_config "pty_size option"
  | PidBody "32 word"
  | InputBody "32 word" string bool
  | SignalBody "32 word" "32 word"
  | ResizeBody "32 word" pty_size
  | WatchBody string bool
  | WatcherBody string
  | UploadBody string string
  | CommandBody string
  | CodeBody string string
  | ContextBody string string

record toolbox_call =
  tc_tunnel :: nat
  tc_method :: string
  tc_url :: string
  tc_query :: "(string \<times> string) list"
  tc_body :: toolbox_body

text \<open>\<open>None\<close> is an exchange that failed.\<close>

type_synonym toolbox = "toolbox_call list \<Rightarrow> toolbox_call \<Rightarrow> (int \<times> string) option"

datatype envd_error = NotFoundError | Failed

definition toolboxDo ::
  "toolbox \<Rightarrow> control \<Rightarrow> string \<Rightarrow> string \<Rightarrow> string \<Rightarrow> (string \<times> string) list \<Rightarrow> toolbox_body \<Rightarrow> toolbox_call list \<Rightarrow>
   (envd_error + int \<times> string) \<times> toolbox_call list" where
  "toolboxDo ask st name meth subpath query body h =
     (case toolboxTarget st name subpath of
        None \<Rightarrow> (Inl NotFoundError, h)
      | Some (t, url) \<Rightarrow>
          let c = \<lparr>tc_tunnel = t, tc_method = meth, tc_url = url, tc_query = query, tc_body = body\<rparr> in
          (case ask h c of None \<Rightarrow> (Inl Failed, h @ [c]) | Some a \<Rightarrow> (Inr a, h @ [c])))"

definition on_ok :: "('e + 'a) \<times> 'h \<Rightarrow> ('a \<Rightarrow> 'h \<Rightarrow> ('e + 'b) \<times> 'h) \<Rightarrow> ('e + 'b) \<times> 'h" where
  "on_ok r k = (case r of (Inl e, h) \<Rightarrow> (Inl e, h) | (Inr x, h) \<Rightarrow> k x h)"

text \<open>\<open>dec\<close> decodes the answer; \<open>any\<close> stands for an answer that is not looked at.\<close>

definition toolboxJSON ::
  "toolbox \<Rightarrow> control \<Rightarrow> string \<Rightarrow> string \<Rightarrow> string \<Rightarrow> (string \<times> string) list \<Rightarrow> toolbox_body \<Rightarrow> (string \<Rightarrow> 'a option) \<Rightarrow>
   toolbox_call list \<Rightarrow> (envd_error + 'a) \<times> toolbox_call list" where
  "toolboxJSON ask st name meth subpath query body dec h =
     on_ok (toolboxDo ask st name meth subpath query body h) (\<lambda>(status, ans) h1.
       if status = 404 then (Inl NotFoundError, h1)
       else if status \<ge> 300 then (Inl Failed, h1)
       else (case dec ans of None \<Rightarrow> Inl Failed | Some x \<Rightarrow> Inr x, h1))"

definition any :: "string \<Rightarrow> unit option" where "any s = Some ()"

definition toolboxStream ::
  "toolbox \<Rightarrow> control \<Rightarrow> string \<Rightarrow> string \<Rightarrow> (string \<times> string) list \<Rightarrow> toolbox_call list \<Rightarrow>
   (envd_error + string) \<times> toolbox_call list" where
  "toolboxStream ask st name subpath query h =
     on_ok (toolboxDo ask st name ''GET'' subpath query NoBody h) (\<lambda>(status, ans) h1.
       if status \<ge> 300 then (Inl (if status = 404 then NotFoundError else Failed), h1) else (Inr ans, h1))"

section \<open>The back ends\<close>

record toolbox_file =
  tf_Name :: string
  tf_Path :: string
  tf_IsDir :: bool
  tf_Size :: "64 word"

record code_context =
  cc_ID :: string
  cc_Language :: string
  cc_Cwd :: string

record code_execution =
  cx_Stdout :: string
  cx_Stderr :: string
  cx_Text :: string
  cx_Error :: string
  cx_Images :: "string list"
  cx_Results :: "string list"

record proc_event =
  pe_Type :: string
  pe_PID :: "32 word"
  pe_Data :: string
  pe_ExitCode :: "32 word"

record proc_result =
  px_PID :: "32 word"
  px_Stdout :: string
  px_Stderr :: string
  px_ExitCode :: "32 word"

text \<open>The decoding of the toolbox's answers.\<close>

record answers =
  an_File :: "string \<Rightarrow> toolbox_file option"
  an_Files :: "string \<Rightarrow> toolbox_file list option"
  an_Result :: "string \<Rightarrow> (32 word \<times> string \<times> string) option"
  an_PID :: "string \<Rightarrow> 32 word option"
  an_Procs :: "string \<Rightarrow> proc_info list option"
  an_Watcher :: "string \<Rightarrow> string option"
  an_Events :: "string \<Rightarrow> (string \<times> string) list option"
  an_Context :: "string \<Rightarrow> code_context option"
  an_Contexts :: "string \<Rightarrow> code_context list option"
  an_Code :: "string \<Rightarrow> code_execution option"
  an_Stream :: "string \<Rightarrow> proc_event list"

definition zero_entry :: entry_info where
  "zero_entry = \<lparr>en_Name = [], en_Type = [], en_Path = [], en_Size = 0, en_Mode = 0, en_Permissions = [], en_Owner = [],
     en_Group = [], en_ModifiedTime = None, en_SymlinkTarget = None\<rparr>"

definition toEntry :: "toolbox_file \<Rightarrow> entry_info" where
  "toEntry fi = zero_entry\<lparr>en_Name := tf_Name fi, en_Path := tf_Path fi,
     en_Type := (if tf_IsDir fi then FileTypeDirectory else FileTypeFile), en_Size := tf_Size fi\<rparr>"

definition baseName :: "string \<Rightarrow> string" where
  "baseName p0 =
     (let p = rev (dropWhile (\<lambda>c. c = CHR ''/'') (rev p0)) in
      case LastIndexByte p (CHR ''/'') of Some i \<Rightarrow> drop (Suc i) p | None \<Rightarrow> p)"

definition Envd_Stat where
  "Envd_Stat ask an st name path h =
     on_ok (toolboxJSON ask st name ''GET'' ''files/info'' [(''path'', path)] NoBody (an_File an) h) (\<lambda>fi h1. (Inr (toEntry fi), h1))"

definition Envd_ListDir where
  "Envd_ListDir ask an st name path (depth :: 32 word) h =
     on_ok (toolboxJSON ask st name ''GET'' ''files'' [(''path'', path)] NoBody (an_Files an) h) (\<lambda>fs h1. (Inr (map toEntry fs), h1))"

definition Envd_MakeDir where
  "Envd_MakeDir ask st name path h =
     on_ok (toolboxJSON ask st name ''POST'' ''files/folder'' [(''path'', path)] NoBody any h)
       (\<lambda>_ h1. (Inr (zero_entry\<lparr>en_Name := baseName path, en_Path := path, en_Type := FileTypeDirectory\<rparr>), h1))"

definition Envd_Move where
  "Envd_Move ask st name src dst h =
     on_ok (toolboxJSON ask st name ''POST'' ''files/move'' [(''source'', src), (''destination'', dst)] NoBody any h)
       (\<lambda>_ h1. (Inr (zero_entry\<lparr>en_Name := baseName dst, en_Path := dst, en_Type := FileTypeFile\<rparr>), h1))"

definition Envd_Remove where
  "Envd_Remove ask st name path h = toolboxJSON ask st name ''DELETE'' ''files/delete'' [(''path'', path)] NoBody any h"

definition Envd_ReadFile where
  "Envd_ReadFile ask st name path h =
     on_ok (toolboxDo ask st name ''GET'' ''files/download'' [(''path'', path)] NoBody h) (\<lambda>(status, ans) h1.
       if status = 404 then (Inl NotFoundError, h1) else if status \<ge> 300 then (Inl Failed, h1) else (Inr ans, h1))"

definition Envd_WriteFile where
  "Envd_WriteFile ask st name path data h =
     on_ok (toolboxDo ask st name ''POST'' ''files/upload'' [(''path'', path)] (UploadBody (baseName path) data) h) (\<lambda>(status, ans) h1.
       if status \<ge> 300 then (Inl Failed, h1)
       else (Inr (zero_entry\<lparr>en_Name := baseName path, en_Path := path, en_Type := FileTypeFile, en_Size := of_nat (length data)\<rparr>), h1))"

text \<open>The script a command line runs: what follows the first \<^verbatim>\<open>-c\<close>, or the words themselves.\<close>

fun after_c :: "string list \<Rightarrow> string option" where
  "after_c (a # b # rest) = (if a = ''-c'' then Some b else after_c (b # rest))"
| "after_c _ = None"

definition command_code :: "process_config \<Rightarrow> string" where
  "command_code cfg =
     (if pc_Args cfg = [] then pc_Cmd cfg
      else case after_c (pc_Args cfg) of
        Some script \<Rightarrow> script
      | None \<Rightarrow> TrimSpace (pc_Cmd cfg @ '' '' @ Join (pc_Args cfg) '' ''))"

definition Envd_StartProcess where
  "Envd_StartProcess ask an st name cfg h =
     on_ok (toolboxJSON ask st name ''POST'' ''process'' [] (CommandBody (command_code cfg)) (an_Result an) h)
       (\<lambda>(code, out, err) h1. (Inr \<lparr>px_PID = 1, px_Stdout = out, px_Stderr = err, px_ExitCode = code\<rparr>, h1))"

definition pid_text :: "32 word \<Rightarrow> string" where "pid_text pid = itoa (int (unat pid))"

definition Envd_ConnectProc where
  "Envd_ConnectProc ask st name pid h = toolboxStream ask st name ''procmgr/stream'' [(''pid'', pid_text pid)] h"

definition Envd_StartProc where
  "Envd_StartProc ask an st name cfg pty (stdin :: bool) h =
     on_ok (toolboxJSON ask st name ''POST'' ''procmgr/start'' [] (StartBody cfg pty) (an_PID an) h)
       (\<lambda>pid h1. Envd_ConnectProc ask st name pid h1)"

definition Envd_ListProcs where
  "Envd_ListProcs ask an st name h = toolboxJSON ask st name ''GET'' ''procmgr/list'' [] NoBody (an_Procs an) h"

definition Envd_SendProcInput where
  "Envd_SendProcInput ask st name pid data isPTY h =
     toolboxJSON ask st name ''POST'' ''procmgr/input'' [] (InputBody pid data isPTY) any h"

definition Envd_SignalProc where
  "Envd_SignalProc ask st name pid signal h = toolboxJSON ask st name ''POST'' ''procmgr/signal'' [] (SignalBody pid signal) any h"

definition Envd_ResizeProc where
  "Envd_ResizeProc ask st name pid sz h = toolboxJSON ask st name ''POST'' ''procmgr/resize'' [] (ResizeBody pid sz) any h"

definition Envd_CloseProcStdin where
  "Envd_CloseProcStdin ask st name pid h = toolboxJSON ask st name ''POST'' ''procmgr/stdin-close'' [] (PidBody pid) any h"

definition Envd_CreateWatcher where
  "Envd_CreateWatcher ask an st name path recursive h =
     toolboxJSON ask st name ''POST'' ''watch/create'' [] (WatchBody path recursive) (an_Watcher an) h"

definition watchTypeToE2B :: "string \<Rightarrow> string" where
  "watchTypeToE2B t =
     (if t = ''create'' then ''EVENT_TYPE_CREATE'' else if t = ''write'' then ''EVENT_TYPE_WRITE''
      else if t = ''remove'' then ''EVENT_TYPE_REMOVE'' else if t = ''rename'' then ''EVENT_TYPE_RENAME''
      else if t = ''chmod'' then ''EVENT_TYPE_CHMOD'' else ''EVENT_TYPE_UNSPECIFIED'')"

definition Envd_GetWatcherEvents where
  "Envd_GetWatcherEvents ask an st name watcher h =
     on_ok (toolboxJSON ask st name ''GET'' ''watch/events'' [(''id'', watcher)] NoBody (an_Events an) h)
       (\<lambda>evs h1. (Inr (map (\<lambda>(n, t). (n, watchTypeToE2B t)) evs), h1))"

definition Envd_RemoveWatcher where
  "Envd_RemoveWatcher ask st name watcher h = toolboxJSON ask st name ''POST'' ''watch/remove'' [] (WatcherBody watcher) any h"

definition Code_Run where
  "Code_Run ask an st name ctx code h =
     toolboxJSON ask st name ''POST'' ''code-interpreter/execute'' [] (CodeBody code ctx) (an_Code an) h"

definition Code_CreateContext where
  "Code_CreateContext ask an st name language cwd h =
     toolboxJSON ask st name ''POST'' ''code-interpreter/contexts'' [] (ContextBody language cwd) (an_Context an) h"

definition Code_ListContexts where
  "Code_ListContexts ask an st name h = toolboxJSON ask st name ''GET'' ''code-interpreter/contexts'' [] NoBody (an_Contexts an) h"

definition Code_RemoveContext where
  "Code_RemoveContext ask st name ctx h =
     toolboxJSON ask st name ''DELETE'' (''code-interpreter/contexts/'' @ ctx) [] NoBody any h"

definition Code_RestartContext where
  "Code_RestartContext ask st name ctx h =
     toolboxJSON ask st name ''POST'' (''code-interpreter/contexts/'' @ ctx @ ''/restart'') [] NoBody any h"

section \<open>Requests and answers\<close>

text \<open>A part of an upload is its form name, the file name in its header and its data; \<open>er_Parts\<close> is \<open>None\<close> if the form cannot
  be opened, and otherwise the parts up to the end or to an error.\<close>

record envd_request =
  er_Method :: string
  er_ContentType :: string
  er_Path :: string
  er_PathParam :: string
  er_Body :: string
  er_Parts :: "((string \<times> string \<times> string) list \<times> bool) option"

datatype signal_value = SignalName string | SignalNumber "32 word" | SignalOther

text \<open>The decoding of JSON requests; what does not decode is a zero value.\<close>

record requests =
  rj_Path :: "string \<Rightarrow> string"
  rj_Move :: "string \<Rightarrow> string \<times> string"
  rj_ListDir :: "string \<Rightarrow> string \<times> 32 word"
  rj_Watch :: "string \<Rightarrow> string \<times> bool"
  rj_Watcher :: "string \<Rightarrow> string"
  rj_Start :: "string \<Rightarrow> start_request"
  rj_PID :: "string \<Rightarrow> 32 word"
  rj_Input :: "string \<Rightarrow> 32 word \<times> string \<times> string"
  rj_Signal :: "string \<Rightarrow> 32 word \<times> signal_value"
  rj_Update :: "string \<Rightarrow> 32 word \<times> pty_size"
  rj_Context :: "string \<Rightarrow> string \<times> string"
  rj_Code :: "string \<Rightarrow> (string \<times> string) option"
  rj_Frame :: "proc_event \<Rightarrow> string"

datatype envd_json =
    JEntry entry_info
  | JEntries "entry_info list"
  | JEmpty
  | JWatcher string
  | JWatchEvents "(string \<times> string) list"
  | JProcesses "proc_info list"
  | JContext code_context
  | JContexts "code_context list"

datatype code_output =
    OStdout string
  | OStderr string
  | OError string string
  | OResult string
  | OImage string
  | OText string
  | OEnd

datatype envd_answer =
    EnvdStatus int
  | EnvdProto string
  | EnvdJSON envd_json
  | EnvdBytes string
  | EnvdStream string
  | EnvdOutput "code_output list"

text \<open>What a handler works with: the codec, the toolbox, the decoders, and whether the back end has the two optional
  interfaces (the server's has both).\<close>

record envd_env =
  ev_wire :: protowire
  ev_ask :: toolbox
  ev_answers :: answers
  ev_requests :: requests
  ev_proc :: bool
  ev_watch :: bool

definition writeConnectErr :: "envd_error \<Rightarrow> envd_answer" where
  "writeConnectErr e = (case e of NotFoundError \<Rightarrow> EnvdStatus 404 | Failed \<Rightarrow> EnvdStatus 500)"

text \<open>\<open>None\<close> is a request that is never answered: a decoder that does not return.\<close>

type_synonym handled = "(envd_answer \<times> toolbox_call list) option"

definition answer_with :: "(envd_error + 'a) \<times> toolbox_call list \<Rightarrow> ('a \<Rightarrow> envd_answer) \<Rightarrow> handled" where
  "answer_with r k = Some (case r of (Inl e, h) \<Rightarrow> (writeConnectErr e, h) | (Inr x, h) \<Rightarrow> (k x, h))"

definition readUnary :: "envd_request \<Rightarrow> (string \<Rightarrow> bool \<Rightarrow> handled) \<Rightarrow> handled" where
  "readUnary r k =
     (if er_Method r \<noteq> ''POST'' then Some (EnvdStatus 405, [])
      else k (take (16 * 2 ^ 20) (er_Body r)) (isProtoContentType (er_ContentType r)))"

definition decoded :: "bool \<Rightarrow> 'a option \<Rightarrow> 'a \<Rightarrow> ('a \<Rightarrow> handled) \<Rightarrow> handled" where
  "decoded proto p j k = (case (if proto then p else Some j) of None \<Rightarrow> None | Some x \<Rightarrow> k x)"

definition writeUnary :: "bool \<Rightarrow> string \<Rightarrow> envd_json \<Rightarrow> envd_answer" where
  "writeUnary proto msg j = (if proto then EnvdProto msg else EnvdJSON j)"

definition unaryPath :: "envd_env \<Rightarrow> string \<Rightarrow> bool \<Rightarrow> (string \<Rightarrow> handled) \<Rightarrow> handled" where
  "unaryPath e body proto k = decoded proto (decodeStringField (ev_wire e) body 1) (rj_Path (ev_requests e) body) k"

section \<open>Files\<close>

definition fsStat :: "envd_env \<Rightarrow> control \<Rightarrow> string \<Rightarrow> envd_request \<Rightarrow> handled" where
  "fsStat e st sandbox r = readUnary r (\<lambda>body proto. unaryPath e body proto (\<lambda>path.
     answer_with (Envd_Stat (ev_ask e) (ev_answers e) st sandbox path [])
       (\<lambda>en. writeUnary proto (encodeStatResponse (ev_wire e) en) (JEntry en))))"

definition fsMakeDir :: "envd_env \<Rightarrow> control \<Rightarrow> string \<Rightarrow> envd_request \<Rightarrow> handled" where
  "fsMakeDir e st sandbox r = readUnary r (\<lambda>body proto. unaryPath e body proto (\<lambda>path.
     answer_with (Envd_MakeDir (ev_ask e) st sandbox path [])
       (\<lambda>en. writeUnary proto (encodeEntryResponse (ev_wire e) en) (JEntry en))))"

definition fsMove :: "envd_env \<Rightarrow> control \<Rightarrow> string \<Rightarrow> envd_request \<Rightarrow> handled" where
  "fsMove e st sandbox r = readUnary r (\<lambda>body proto.
     decoded proto (decodeMoveRequest (ev_wire e) body) (rj_Move (ev_requests e) body) (\<lambda>(src, dst).
       answer_with (Envd_Move (ev_ask e) st sandbox src dst [])
         (\<lambda>en. writeUnary proto (encodeEntryResponse (ev_wire e) en) (JEntry en))))"

definition fsListDir :: "envd_env \<Rightarrow> control \<Rightarrow> string \<Rightarrow> envd_request \<Rightarrow> handled" where
  "fsListDir e st sandbox r = readUnary r (\<lambda>body proto.
     decoded proto (decodeListDirRequest (ev_wire e) body) (rj_ListDir (ev_requests e) body) (\<lambda>(path, depth).
       answer_with (Envd_ListDir (ev_ask e) (ev_answers e) st sandbox path depth [])
         (\<lambda>ens. writeUnary proto (encodeListDirResponse (ev_wire e) ens) (JEntries ens))))"

definition fsRemove :: "envd_env \<Rightarrow> control \<Rightarrow> string \<Rightarrow> envd_request \<Rightarrow> handled" where
  "fsRemove e st sandbox r = readUnary r (\<lambda>body proto. unaryPath e body proto (\<lambda>path.
     answer_with (Envd_Remove (ev_ask e) st sandbox path []) (\<lambda>_. writeUnary proto [] JEmpty)))"

definition unimplemented :: "bool \<Rightarrow> handled \<Rightarrow> handled" where
  "unimplemented has k = (if has then k else Some (EnvdStatus 501, []))"

definition fsCreateWatcher :: "envd_env \<Rightarrow> control \<Rightarrow> string \<Rightarrow> envd_request \<Rightarrow> handled" where
  "fsCreateWatcher e st sandbox r = readUnary r (\<lambda>body proto. unimplemented (ev_watch e) (
     decoded proto
       (case decodeStringField (ev_wire e) body 1 of None \<Rightarrow> None
        | Some p \<Rightarrow> map_option (Pair p) (decodeBoolField (ev_wire e) body 2))
       (rj_Watch (ev_requests e) body) (\<lambda>(path, recursive).
       answer_with (Envd_CreateWatcher (ev_ask e) (ev_answers e) st sandbox path recursive [])
         (\<lambda>i. writeUnary proto (encodeCreateWatcherResponse (ev_wire e) i) (JWatcher i)))))"

definition watcherIDOf :: "envd_env \<Rightarrow> string \<Rightarrow> bool \<Rightarrow> (string \<Rightarrow> handled) \<Rightarrow> handled" where
  "watcherIDOf e body proto k = decoded proto (decodeStringField (ev_wire e) body 1) (rj_Watcher (ev_requests e) body) k"

definition fsGetWatcherEvents :: "envd_env \<Rightarrow> control \<Rightarrow> string \<Rightarrow> envd_request \<Rightarrow> handled" where
  "fsGetWatcherEvents e st sandbox r = readUnary r (\<lambda>body proto. unimplemented (ev_watch e) (watcherIDOf e body proto (\<lambda>i.
     answer_with (Envd_GetWatcherEvents (ev_ask e) (ev_answers e) st sandbox i [])
       (\<lambda>evs. writeUnary proto (encodeWatcherEventsResponse (ev_wire e) evs) (JWatchEvents evs)))))"

definition fsRemoveWatcher :: "envd_env \<Rightarrow> control \<Rightarrow> string \<Rightarrow> envd_request \<Rightarrow> handled" where
  "fsRemoveWatcher e st sandbox r = readUnary r (\<lambda>body proto. unimplemented (ev_watch e) (watcherIDOf e body proto (\<lambda>i.
     answer_with (Envd_RemoveWatcher (ev_ask e) st sandbox i []) (\<lambda>_. writeUnary proto [] JEmpty))))"

text \<open>File contents. \<open>collectWrites\<close> gives the files to write, or nothing if the form is broken.\<close>

fun form_files :: "string \<Rightarrow> (string \<times> string \<times> string) list \<Rightarrow> (string \<times> string) list" where
  "form_files q [] = []"
| "form_files q ((form, filename, data) # parts) =
     (if form \<noteq> ''file'' then form_files q parts
      else (if filename = [] then q else filename, data) # form_files q parts)"

definition collectWrites :: "envd_request \<Rightarrow> (string \<times> string) list option" where
  "collectWrites r =
     (if HasPrefix (er_ContentType r) ''multipart/'' then
        (case er_Parts r of
           None \<Rightarrow> None
         | Some (parts, whole) \<Rightarrow> if whole then Some (form_files (er_PathParam r) parts) else None)
      else if length (er_Body r) > 100 * 2 ^ 20 then None
      else Some [(er_PathParam r, er_Body r)])"

fun write_all :: "toolbox \<Rightarrow> control \<Rightarrow> string \<Rightarrow> (string \<times> string) list \<Rightarrow> toolbox_call list \<Rightarrow>
    (envd_error + entry_info list) \<times> toolbox_call list" where
  "write_all ask st sandbox [] h = (Inr [], h)"
| "write_all ask st sandbox ((path, data) # ws) h =
     on_ok (Envd_WriteFile ask st sandbox path data h) (\<lambda>en h1.
       on_ok (write_all ask st sandbox ws h1) (\<lambda>ens h2. (Inr (en # ens), h2)))"

definition envd_files :: "envd_env \<Rightarrow> control \<Rightarrow> string \<Rightarrow> envd_request \<Rightarrow> handled" where
  "envd_files e st sandbox r =
     (if er_Method r = ''GET'' then
        (if er_PathParam r = [] then Some (EnvdStatus 400, [])
         else answer_with (Envd_ReadFile (ev_ask e) st sandbox (er_PathParam r) []) EnvdBytes)
      else if er_Method r = ''POST'' \<or> er_Method r = ''PUT'' then
        (case collectWrites r of
           None \<Rightarrow> Some (EnvdStatus 400, [])
         | Some ws \<Rightarrow> answer_with (write_all (ev_ask e) st sandbox ws []) (\<lambda>ens. EnvdJSON (JEntries ens)))
      else Some (EnvdStatus 405, []))"

section \<open>Processes\<close>

definition writeProcEventFrame :: "envd_env \<Rightarrow> bool \<Rightarrow> proc_event \<Rightarrow> string" where
  "writeProcEventFrame e proto ev =
     (let pw = ev_wire e in
      if proto then
        (if pe_Type ev = ''start'' then writeEnvelope (CHR 0x00) (procStartEvent pw (pe_PID ev))
         else if pe_Type ev = ''stdout'' then writeEnvelope (CHR 0x00) (procDataEvent pw (pe_Data ev) chStdout)
         else if pe_Type ev = ''stderr'' then writeEnvelope (CHR 0x00) (procDataEvent pw (pe_Data ev) chStderr)
         else if pe_Type ev = ''pty'' then writeEnvelope (CHR 0x00) (procDataEvent pw (pe_Data ev) chPTY)
         else if pe_Type ev = ''end'' then writeEnvelope (CHR 0x00) (procEndEvent pw (pe_ExitCode ev) ''exited'')
         else [])
      else if pe_Type ev \<in> {''start'', ''stdout'', ''stderr'', ''pty'', ''end''}
      then writeConnectFrame (rj_Frame (ev_requests e) ev) else [])"

definition streamProcEvents :: "envd_env \<Rightarrow> bool \<Rightarrow> string \<Rightarrow> envd_answer" where
  "streamProcEvents e proto rc =
     EnvdStream (concat (map (writeProcEventFrame e proto) (an_Stream (ev_answers e) rc)) @ writeConnectEndFrame)"

definition buffered_events :: "proc_result \<Rightarrow> proc_event list" where
  "buffered_events res =
     [\<lparr>pe_Type = ''start'', pe_PID = px_PID res, pe_Data = [], pe_ExitCode = 0\<rparr>] @
     (if px_Stdout res \<noteq> [] then [\<lparr>pe_Type = ''stdout'', pe_PID = 0, pe_Data = px_Stdout res, pe_ExitCode = 0\<rparr>] else []) @
     (if px_Stderr res \<noteq> [] then [\<lparr>pe_Type = ''stderr'', pe_PID = 0, pe_Data = px_Stderr res, pe_ExitCode = 0\<rparr>] else []) @
     [\<lparr>pe_Type = ''end'', pe_PID = 0, pe_Data = [], pe_ExitCode = px_ExitCode res\<rparr>]"

definition procStartBuffered :: "envd_env \<Rightarrow> control \<Rightarrow> string \<Rightarrow> string \<Rightarrow> bool \<Rightarrow> handled" where
  "procStartBuffered e st sandbox msg proto =
     decoded proto (decodeStartRequest (ev_wire e) msg) (sq_Process (rj_Start (ev_requests e) msg)) (\<lambda>cfg.
       answer_with (Envd_StartProcess (ev_ask e) (ev_answers e) st sandbox cfg [])
         (\<lambda>res. EnvdStream (concat (map (writeProcEventFrame e proto) (buffered_events res)) @ writeConnectEndFrame)))"

definition procStart :: "envd_env \<Rightarrow> control \<Rightarrow> string \<Rightarrow> envd_request \<Rightarrow> handled" where
  "procStart e st sandbox r =
     (let proto = isProtoContentType (er_ContentType r); msg = stripEnvelope (take (16 * 2 ^ 20) (er_Body r)) in
      if \<not> ev_proc e then procStartBuffered e st sandbox msg proto
      else decoded proto (decodeStartRequestFull (ev_wire e) msg) (rj_Start (ev_requests e) msg) (\<lambda>q.
        answer_with (Envd_StartProc (ev_ask e) (ev_answers e) st sandbox (sq_Process q) (sq_PTY q) (sq_Stdin q) [])
          (streamProcEvents e proto)))"

definition procConnect :: "envd_env \<Rightarrow> control \<Rightarrow> string \<Rightarrow> envd_request \<Rightarrow> handled" where
  "procConnect e st sandbox r = unimplemented (ev_proc e)
     (let proto = isProtoContentType (er_ContentType r); msg = stripEnvelope (take (2 ^ 20) (er_Body r)) in
      decoded proto (decodeConnectRequest (ev_wire e) msg) (rj_PID (ev_requests e) msg) (\<lambda>pid.
        answer_with (Envd_ConnectProc (ev_ask e) st sandbox pid []) (streamProcEvents e proto)))"

definition procList :: "envd_env \<Rightarrow> control \<Rightarrow> string \<Rightarrow> envd_request \<Rightarrow> handled" where
  "procList e st sandbox r = readUnary r (\<lambda>_ proto.
     answer_with (if ev_proc e then Envd_ListProcs (ev_ask e) (ev_answers e) st sandbox [] else (Inr [], []))
       (\<lambda>ps. writeUnary proto (encodeListResponse (ev_wire e) ps) (JProcesses ps)))"

definition procSendInput :: "envd_env \<Rightarrow> control \<Rightarrow> string \<Rightarrow> envd_request \<Rightarrow> handled" where
  "procSendInput e st sandbox r = readUnary r (\<lambda>body proto. unimplemented (ev_proc e) (
     decoded proto (decodeInputRequest (ev_wire e) body)
       (case rj_Input (ev_requests e) body of (pid, stdin, pty) \<Rightarrow> if pty \<noteq> [] then (pid, pty, True) else (pid, stdin, False))
       (\<lambda>(pid, data, isPTY). answer_with (Envd_SendProcInput (ev_ask e) st sandbox pid data isPTY []) (\<lambda>_. writeUnary proto [] JEmpty))))"

definition signalNumber :: "signal_value \<Rightarrow> 32 word" where
  "signalNumber v =
     (case v of
        SignalName s \<Rightarrow> if s = ''SIGNAL_SIGTERM'' then 15 else 9
      | SignalNumber n \<Rightarrow> n
      | SignalOther \<Rightarrow> 9)"

definition procSendSignal :: "envd_env \<Rightarrow> control \<Rightarrow> string \<Rightarrow> envd_request \<Rightarrow> handled" where
  "procSendSignal e st sandbox r = readUnary r (\<lambda>body proto. unimplemented (ev_proc e) (
     decoded proto (decodeSignalRequest (ev_wire e) body)
       (case rj_Signal (ev_requests e) body of (pid, v) \<Rightarrow> (pid, signalNumber v))
       (\<lambda>(pid, signal). answer_with (Envd_SignalProc (ev_ask e) st sandbox pid signal []) (\<lambda>_. writeUnary proto [] JEmpty))))"

definition procCloseStdin :: "envd_env \<Rightarrow> control \<Rightarrow> string \<Rightarrow> envd_request \<Rightarrow> handled" where
  "procCloseStdin e st sandbox r = readUnary r (\<lambda>body proto. unimplemented (ev_proc e) (
     decoded proto (decodeSubMessagePID (ev_wire e) body 1) (rj_PID (ev_requests e) body)
       (\<lambda>pid. answer_with (Envd_CloseProcStdin (ev_ask e) st sandbox pid []) (\<lambda>_. writeUnary proto [] JEmpty))))"

definition procUpdate :: "envd_env \<Rightarrow> control \<Rightarrow> string \<Rightarrow> envd_request \<Rightarrow> handled" where
  "procUpdate e st sandbox r = readUnary r (\<lambda>body proto. unimplemented (ev_proc e) (
     decoded proto (decodeUpdateRequest (ev_wire e) body) (rj_Update (ev_requests e) body)
       (\<lambda>(pid, sz). answer_with (Envd_ResizeProc (ev_ask e) st sandbox pid sz []) (\<lambda>_. writeUnary proto [] JEmpty))))"

definition envd_routes :: "envd_env \<Rightarrow> control \<Rightarrow> string \<Rightarrow> envd_request \<Rightarrow> handled" where
  "envd_routes e st sandbox r =
     (let p = er_Path r in
      if p = ''/filesystem.Filesystem/Stat'' then fsStat e st sandbox r
      else if p = ''/filesystem.Filesystem/MakeDir'' then fsMakeDir e st sandbox r
      else if p = ''/filesystem.Filesystem/Move'' then fsMove e st sandbox r
      else if p = ''/filesystem.Filesystem/ListDir'' then fsListDir e st sandbox r
      else if p = ''/filesystem.Filesystem/Remove'' then fsRemove e st sandbox r
      else if p = ''/filesystem.Filesystem/CreateWatcher'' then fsCreateWatcher e st sandbox r
      else if p = ''/filesystem.Filesystem/GetWatcherEvents'' then fsGetWatcherEvents e st sandbox r
      else if p = ''/filesystem.Filesystem/RemoveWatcher'' then fsRemoveWatcher e st sandbox r
      else if p = ''/process.Process/List'' then procList e st sandbox r
      else if p = ''/process.Process/Start'' then procStart e st sandbox r
      else if p = ''/process.Process/Connect'' then procConnect e st sandbox r
      else if p = ''/process.Process/SendInput'' then procSendInput e st sandbox r
      else if p = ''/process.Process/SendSignal'' then procSendSignal e st sandbox r
      else if p = ''/process.Process/Update'' then procUpdate e st sandbox r
      else if p = ''/process.Process/CloseStdin'' then procCloseStdin e st sandbox r
      else if p = ''/files'' then envd_files e st sandbox r
      else Some (EnvdStatus 404, []))"

section \<open>The code interpreter\<close>

definition code_contexts :: "envd_env \<Rightarrow> control \<Rightarrow> string \<Rightarrow> envd_request \<Rightarrow> handled" where
  "code_contexts e st sandbox r =
     (if er_Method r = ''POST'' then
        (case rj_Context (ev_requests e) (er_Body r) of (language, cwd) \<Rightarrow>
           answer_with (Code_CreateContext (ev_ask e) (ev_answers e) st sandbox language cwd []) (\<lambda>c. EnvdJSON (JContext c)))
      else if er_Method r = ''GET'' then
        answer_with (Code_ListContexts (ev_ask e) (ev_answers e) st sandbox []) (\<lambda>cs. EnvdJSON (JContexts cs))
      else Some (EnvdStatus 405, []))"

definition contextByID :: "envd_env \<Rightarrow> control \<Rightarrow> string \<Rightarrow> envd_request \<Rightarrow> handled" where
  "contextByID e st sandbox r =
     (case Cut (TrimPrefix (er_Path r) ''/contexts/'') (CHR ''/'') of (i, act, _) \<Rightarrow>
        if act = ''restart'' \<and> er_Method r = ''POST'' then
          answer_with (Code_RestartContext (ev_ask e) st sandbox i []) (\<lambda>_. EnvdStatus 204)
        else if act = [] \<and> er_Method r = ''DELETE'' then
          answer_with (Code_RemoveContext (ev_ask e) st sandbox i []) (\<lambda>_. EnvdStatus 204)
        else Some (EnvdStatus 405, []))"

definition firstLine :: "string \<Rightarrow> string" where
  "firstLine s0 =
     (let s = rev (dropWhile (\<lambda>c. c = CHR 0x0A) (rev s0)) in
      case LastIndexByte s (CHR 0x0A) of Some i \<Rightarrow> drop (Suc i) s | None \<Rightarrow> s)"

definition code_outputs :: "code_execution \<Rightarrow> code_output list" where
  "code_outputs ex =
     (if cx_Stdout ex \<noteq> [] then [OStdout (cx_Stdout ex)] else []) @
     (if cx_Stderr ex \<noteq> [] then [OStderr (cx_Stderr ex)] else []) @
     (if cx_Error ex \<noteq> [] then [OError (firstLine (cx_Error ex)) (cx_Error ex)]
      else if cx_Results ex \<noteq> [] then map OResult (cx_Results ex)
      else map OImage (cx_Images ex) @ (if cx_Text ex \<noteq> [] then [OText (cx_Text ex)] else [])) @ [OEnd]"

definition code_execute :: "envd_env \<Rightarrow> control \<Rightarrow> string \<Rightarrow> envd_request \<Rightarrow> handled" where
  "code_execute e st sandbox r =
     (if er_Method r \<noteq> ''POST'' then Some (EnvdStatus 405, [])
      else case rj_Code (ev_requests e) (er_Body r) of
        None \<Rightarrow> Some (EnvdStatus 400, [])
      | Some (code, ctx) \<Rightarrow>
          answer_with (Code_Run (ev_ask e) (ev_answers e) st sandbox (if ctx = [] then ''default'' else ctx) code [])
            (\<lambda>ex. EnvdOutput (code_outputs ex)))"

definition code_routes :: "envd_env \<Rightarrow> control \<Rightarrow> string \<Rightarrow> envd_request \<Rightarrow> handled" where
  "code_routes e st sandbox r =
     (if er_Path r = ''/execute'' then code_execute e st sandbox r
      else if er_Path r = ''/contexts'' then code_contexts e st sandbox r
      else if HasPrefix (er_Path r) ''/contexts/'' then contextByID e st sandbox r
      else Some (EnvdStatus 404, []))"

section \<open>Behind the gateway\<close>

text \<open>The gateway hands a request of the data plane to one of the two groups of handlers, with the name \<^verbatim>\<open>sandboxOf\<close> gives
  them, or has another answer.\<close>

definition e2bData ::
  "e2b_server \<Rightarrow> gotime \<Rightarrow> config \<Rightarrow> string list \<Rightarrow> envd_env \<Rightarrow> gateway_request \<Rightarrow> envd_request \<Rightarrow> control \<Rightarrow>
   gateway_answer + handled" where
  "e2bData g now cfg ord e r q st =
     (case fst (gw_Handler (newE2BGateway g now cfg ord (gr_Path r) st) r) of
        GwEnvd _ sandbox \<Rightarrow> Inr (envd_routes e st sandbox q)
      | GwCode _ sandbox \<Rightarrow> Inr (code_routes e st sandbox q)
      | other \<Rightarrow> Inl other)"

section \<open>Where the calls go\<close>

definition calls_to :: "control \<Rightarrow> string \<Rightarrow> toolbox_call list \<Rightarrow> bool" where
  "calls_to st n h \<longleftrightarrow> (\<forall>c \<in> set h. \<exists>sub. toolboxTarget st n sub = Some (tc_tunnel c, tc_url c))"

definition handled_within :: "control \<Rightarrow> string \<Rightarrow> handled \<Rightarrow> bool" where
  "handled_within st n r \<longleftrightarrow> (\<forall>a h. r = Some (a, h) \<longrightarrow> calls_to st n h)"

named_theorems toolbox_calls "every call goes through the tunnel of the sandbox"

lemma calls_to_Nil [toolbox_calls]: "calls_to st n []"
  by (simp add: calls_to_def)

lemma toolboxDo_within [toolbox_calls]: "calls_to st n h \<Longrightarrow> calls_to st n (snd (toolboxDo ask st n m sub q b h))"
  by (auto simp: toolboxDo_def calls_to_def Let_def split: option.splits)

lemma on_ok_within [toolbox_calls]:
  assumes "calls_to st n (snd r)" and "\<And>x h. calls_to st n h \<Longrightarrow> calls_to st n (snd (k x h))"
  shows "calls_to st n (snd (on_ok r k))"
  using assms by (auto simp: on_ok_def split: prod.split sum.split)

lemma toolboxJSON_within [toolbox_calls]: "calls_to st n h \<Longrightarrow> calls_to st n (snd (toolboxJSON ask st n m sub q b dec h))"
  unfolding toolboxJSON_def by (intro on_ok_within toolboxDo_within) (auto split: prod.split)

lemma toolboxStream_within [toolbox_calls]: "calls_to st n h \<Longrightarrow> calls_to st n (snd (toolboxStream ask st n sub q h))"
  unfolding toolboxStream_def by (intro on_ok_within toolboxDo_within) (auto split: prod.split)

lemma answer_with_within [toolbox_calls]: "calls_to st n (snd r) \<Longrightarrow> handled_within st n (answer_with r k)"
  by (auto simp: handled_within_def answer_with_def split: prod.splits sum.splits)

lemma readUnary_within [toolbox_calls]: "(\<And>b p. handled_within st n (k b p)) \<Longrightarrow> handled_within st n (readUnary r k)"
  by (auto simp: readUnary_def handled_within_def calls_to_Nil)

lemma decoded_within [toolbox_calls]: "(\<And>x. handled_within st n (k x)) \<Longrightarrow> handled_within st n (decoded proto p j k)"
  by (auto simp: decoded_def handled_within_def split: option.splits)

lemma unimplemented_within [toolbox_calls]: "handled_within st n k \<Longrightarrow> handled_within st n (unimplemented has k)"
  by (simp add: unimplemented_def handled_within_def calls_to_Nil)

lemma refused_within [toolbox_calls]: "handled_within st n (Some (EnvdStatus s, []))"
  by (simp add: handled_within_def calls_to_Nil)

lemmas backend_defs =
  Envd_Stat_def Envd_ListDir_def Envd_MakeDir_def Envd_Move_def Envd_Remove_def Envd_ReadFile_def Envd_WriteFile_def
  Envd_StartProcess_def Envd_ConnectProc_def Envd_StartProc_def Envd_ListProcs_def Envd_SendProcInput_def Envd_SignalProc_def
  Envd_ResizeProc_def Envd_CloseProcStdin_def Envd_CreateWatcher_def Envd_GetWatcherEvents_def Envd_RemoveWatcher_def
  Code_Run_def Code_CreateContext_def Code_ListContexts_def Code_RemoveContext_def Code_RestartContext_def

lemma Envd_WriteFile_within [toolbox_calls]: "calls_to st n h \<Longrightarrow> calls_to st n (snd (Envd_WriteFile ask st n path data h))"
  unfolding Envd_WriteFile_def by (intro on_ok_within toolboxDo_within) (auto split: prod.split)

lemma Envd_ReadFile_within [toolbox_calls]: "calls_to st n h \<Longrightarrow> calls_to st n (snd (Envd_ReadFile ask st n path h))"
  unfolding Envd_ReadFile_def by (intro on_ok_within toolboxDo_within) (auto split: prod.split)

lemma write_all_within [toolbox_calls]: "calls_to st n h \<Longrightarrow> calls_to st n (snd (write_all ask st n ws h))"
proof (induction ask st n ws h rule: write_all.induct)
  case (2 ask st n path data ws h)
  then show ?case unfolding write_all.simps by (intro on_ok_within Envd_WriteFile_within) (simp_all add: 2)
qed simp

lemma envd_routes_within: "handled_within st n (envd_routes e st n r)"
proof -
  have "handled_within st n (fsStat e st n r)" "handled_within st n (fsMakeDir e st n r)" "handled_within st n (fsMove e st n r)"
    "handled_within st n (fsListDir e st n r)" "handled_within st n (fsRemove e st n r)" "handled_within st n (fsCreateWatcher e st n r)"
    "handled_within st n (fsGetWatcherEvents e st n r)" "handled_within st n (fsRemoveWatcher e st n r)"
    unfolding fsStat_def fsMakeDir_def fsMove_def fsListDir_def fsRemove_def fsCreateWatcher_def fsGetWatcherEvents_def fsRemoveWatcher_def
      unaryPath_def watcherIDOf_def backend_defs case_prod_beta
    by (simp_all add: toolbox_calls)
  moreover have "handled_within st n (procList e st n r)" "handled_within st n (procSendInput e st n r)"
    "handled_within st n (procSendSignal e st n r)" "handled_within st n (procUpdate e st n r)" "handled_within st n (procCloseStdin e st n r)"
    unfolding procList_def procSendInput_def procSendSignal_def procUpdate_def procCloseStdin_def backend_defs case_prod_beta
    by (simp_all add: toolbox_calls)
  moreover have "handled_within st n (procStart e st n r)" "handled_within st n (procConnect e st n r)"
    unfolding procStart_def procStartBuffered_def procConnect_def backend_defs case_prod_beta Let_def
    by (simp_all add: toolbox_calls)
  moreover have "handled_within st n (envd_files e st n r)"
    unfolding envd_files_def
    by (simp add: toolbox_calls split: option.split)
  ultimately show ?thesis unfolding envd_routes_def Let_def by (simp add: toolbox_calls)
qed

lemma code_routes_within: "handled_within st n (code_routes e st n r)"
  unfolding code_routes_def code_execute_def code_contexts_def contextByID_def backend_defs
  by (simp add: toolbox_calls split: option.split prod.split)

lemma toolboxTarget_reaches:
  assumes "toolboxTarget st n sub = Some (t, url)"
  obtains sb where "cp_sandboxes st n = Some sb" "sb_State sb = StateRunning"
    "HasPrefix (sb_ProxyURL sb) ''direct://'' \<and> cp_direct st n = Some t \<and> url = ''http://agent/'' @ sub \<or>
     \<not> HasPrefix (sb_ProxyURL sb) ''direct://'' \<and> cp_tunnels st (sb_PoderID sb) = Some t \<and> url = ''http://poder/toolbox/'' @ n @ ''/'' @ sub"
proof (cases "cp_sandboxes st n")
  case None
  with assms show thesis by (simp add: toolboxTarget_def Sandbox_Get_def)
next
  case (Some sb)
  with assms show thesis
    by (intro that [of sb]) (auto simp: toolboxTarget_def Sandbox_Get_def Tunnel_Get_def split: if_splits)
qed

section \<open>Properties\<close>

text \<open>Claim C4. A caller's files, processes, watchers and kernels are those of its own sandboxes: every call that a data-plane
  request with a credential of an identity makes is handed to the tunnel of a running sandbox that belongs to
  the identity or to nobody, and addressed to that sandbox's toolbox. It holds of requests that do not name the placeholder
  \<^verbatim>\<open>debug_sandbox_id\<close>, and of those that do when the caller has a single sandbox to resolve it
  to; the other ones are the hole shown below. No sandbox has the empty name.\<close>

theorem data_plane_stays_with_owner:
  assumes "e2bData g now cfg ord e r q st = Inr (Some (a, calls))" and "c \<in> set calls"
    and "gw_authenticate (newE2BGateway g now cfg ord (gr_Path r) st) (gw_key r) = Some who" and "ec_Ident who \<noteq> []"
    and none: "cp_sandboxes st [] = None"
    and "named_sandbox (host_sandbox (es_domain g) r) r \<noteq> ''debug_sandbox_id'' \<or> resolveSingleSandbox ord st (ec_Ident who) \<noteq> []"
  shows "\<exists>n sb sub. cp_sandboxes st n = Some sb \<and> sb_State sb = StateRunning \<and> sb_Owner sb \<in> {[], ec_Ident who} \<and>
    (HasPrefix (sb_ProxyURL sb) ''direct://'' \<and> cp_direct st n = Some (tc_tunnel c) \<and> tc_url c = ''http://agent/'' @ sub \<or>
     cp_tunnels st (sb_PoderID sb) = Some (tc_tunnel c) \<and> tc_url c = ''http://poder/toolbox/'' @ n @ ''/'' @ sub)"
proof -
  let ?gw = "newE2BGateway g now cfg ord (gr_Path r) st"
  let ?ans = "fst (gw_Handler ?gw r)"
  have auth: "gc_Authorize ?gw = Some (authorizeSandbox st)" by (simp add: newE2BGateway_def)
  have "resolvable ?gw who r" using assms(6) by (simp add: resolvable_def newE2BGateway_def resolved_def)
  then have ans: "reply_within (ec_Ident who) st (Answered ?ans)"
    using gw_Handler_caller [OF assms(3)] gw_dispatch_within [OF assms(4) auth none _ refl] by auto
  obtain n w where n: "?ans = GwEnvd w n \<and> calls_to st n calls \<or> ?ans = GwCode w n \<and> calls_to st n calls"
    using assms(1,2) envd_routes_within code_routes_within unfolding e2bData_def handled_within_def
    by (cases ?ans) auto
  then obtain sub where "toolboxTarget st n sub = Some (tc_tunnel c, tc_url c)" using assms(2) unfolding calls_to_def by blast
  then obtain sb where sb: "cp_sandboxes st n = Some sb" "sb_State sb = StateRunning"
    "HasPrefix (sb_ProxyURL sb) ''direct://'' \<and> cp_direct st n = Some (tc_tunnel c) \<and> tc_url c = ''http://agent/'' @ sub \<or>
     \<not> HasPrefix (sb_ProxyURL sb) ''direct://'' \<and> cp_tunnels st (sb_PoderID sb) = Some (tc_tunnel c) \<and> tc_url c = ''http://poder/toolbox/'' @ n @ ''/'' @ sub"
    by (rule toolboxTarget_reaches)
  have "sb_Owner sb \<in> {[], ec_Ident who}"
    using ans n sb(1) by (auto simp: may_reach_def)
  with sb show ?thesis by blast
qed

definition demo_answers :: answers where
  "demo_answers = \<lparr>an_File = (\<lambda>_. None), an_Files = (\<lambda>_. None), an_Result = (\<lambda>_. None), an_PID = (\<lambda>_. Some 9), an_Procs = (\<lambda>_. None),
     an_Watcher = (\<lambda>_. None), an_Events = (\<lambda>_. None), an_Context = (\<lambda>_. None), an_Contexts = (\<lambda>_. None), an_Code = (\<lambda>_. None),
     an_Stream = (\<lambda>_. [\<lparr>pe_Type = ''start'', pe_PID = 9, pe_Data = [], pe_ExitCode = 0\<rparr>, \<lparr>pe_Type = ''stdout'', pe_PID = 9, pe_Data = ''hi'', pe_ExitCode = 0\<rparr>,
       \<lparr>pe_Type = ''end'', pe_PID = 9, pe_Data = [], pe_ExitCode = 0\<rparr>])\<rparr>"

definition demo_requests :: requests where
  "demo_requests = \<lparr>rj_Path = id, rj_Move = (\<lambda>b. (b, b)), rj_ListDir = (\<lambda>b. (b, 0)), rj_Watch = (\<lambda>b. (b, False)), rj_Watcher = id,
     rj_Start = (\<lambda>_. no_start), rj_PID = (\<lambda>_. 0), rj_Input = (\<lambda>b. (0, b, [])), rj_Signal = (\<lambda>_. (0, SignalOther)), rj_Update = (\<lambda>_. (0, no_size)),
     rj_Context = (\<lambda>b. (b, [])), rj_Code = (\<lambda>b. Some (b, [])), rj_Frame = pe_Data\<rparr>"

definition demo_envd :: envd_env where
  "demo_envd = \<lparr>ev_wire = std_wire, ev_ask = (\<lambda>_ _. Some (200, [])), ev_answers = demo_answers, ev_requests = demo_requests,
     ev_proc = True, ev_watch = True\<rparr>"

definition anns_control :: control where
  "anns_control = bobs_control\<lparr>cp_sandboxes := [''box'' \<mapsto> (demo_sandbox ''box'' ''p1'')\<lparr>sb_State := StateRunning, sb_Owner := ''ann''\<rparr>],
     cp_tunnels := [''p1'' \<mapsto> 7]\<rparr>"

definition envd_call :: "string \<Rightarrow> string \<Rightarrow> string \<Rightarrow> string \<Rightarrow> envd_request" where
  "envd_call meth ct path body = \<lparr>er_Method = meth, er_ContentType = ct, er_Path = path, er_PathParam = [], er_Body = body, er_Parts = None\<rparr>"

lemma anns_target: "toolboxTarget anns_control ''box'' sub = Some (7, ''http://poder/toolbox/box/'' @ sub)"
  by (simp add: toolboxTarget_def anns_control_def Sandbox_Get_def Tunnel_Get_def demo_sandbox_def HasPrefix_def)

theorem data_plane_stays_with_owner_witness:
  "\<exists>a c. e2bData demo_e2b 0 demo_config [''box''] demo_envd
       ((e2b_call ''t1'' ''POST'' ''x'' ''/filesystem.Filesystem/Remove'')\<lparr>gr_SandboxHeader := ''box''\<rparr>)
       (envd_call ''POST'' ''application/json'' ''/filesystem.Filesystem/Remove'' ''/tmp/x'') anns_control = Inr (Some (a, [c])) \<and> tc_tunnel c = 7"
proof -
  let ?r = "(e2b_call ''t1'' ''POST'' ''x'' ''/filesystem.Filesystem/Remove'')\<lparr>gr_SandboxHeader := ''box''\<rparr>"
  let ?q = "envd_call ''POST'' ''application/json'' ''/filesystem.Filesystem/Remove'' ''/tmp/x''"
  let ?run = "e2bData demo_e2b 0 demo_config [''box''] demo_envd ?r ?q anns_control"
  have who: "gw_authenticate (newE2BGateway demo_e2b 0 demo_config [''box''] (gr_Path ?r) anns_control) (gw_key ?r) =
      Some \<lparr>ec_Ident = ''ann'', ec_Admin = False, ec_Tenant = []\<rparr>" by code_simp
  have no_proto: "\<not> isProtoContentType ''application/json''" by code_simp
  have port: "itoa 49999 \<noteq> []" by (simp add: itoa_def nat_digits.simps)
  have facts: "envdHostRe ''e2b.test'' (hostOnly (gr_Host ?r)) = None" "isEnvdPath (gr_Path ?r)" "\<not> HasPrefix (gr_Path ?r) ''/contexts''"
    "authorizeSandbox anns_control ''ann'' ''box''" "\<not> forwardE2B (cfg_NodeURL demo_config) False anns_control ''box''"
    "named_sandbox (host_sandbox (es_domain demo_e2b) ?r) ?r \<noteq> ''debug_sandbox_id''"
    by code_simp+
  have "fst (gw_Handler (newE2BGateway demo_e2b 0 demo_config [''box''] (gr_Path ?r) anns_control) ?r) =
      GwEnvd \<lparr>ec_Ident = ''ann'', ec_Admin = False, ec_Tenant = []\<rparr> ''box''"
    unfolding gw_Handler_def who Let_def
    using port facts by (simp add: newE2BGateway_def demo_e2b_def gw_dispatch_def code_port_def resolved_def authorized_for_def forwards_def
        e2b_throttle_def e2b_call_def sandboxOf_def)
  then have "?run = Inr (envd_routes demo_envd anns_control ''box'' ?q)" unfolding e2bData_def by simp
  also have "\<dots> = Inr (fsRemove demo_envd anns_control ''box'' ?q)" unfolding envd_routes_def Let_def by (simp add: envd_call_def)
  finally have "\<exists>a c. ?run = Inr (Some (a, [c]))"
    by (simp add: fsRemove_def readUnary_def envd_call_def unaryPath_def decoded_def answer_with_def no_proto
        Envd_Remove_def toolboxJSON_def toolboxDo_def on_ok_def any_def demo_envd_def anns_target)
  then obtain a c where run: "?run = Inr (Some (a, [c]))" by blast
  have "tc_tunnel c = 7"
    using data_plane_stays_with_owner [OF run _ who, of c] facts(6)
    by (auto simp: anns_control_def demo_sandbox_def HasPrefix_def split: if_splits)
  with run show ?thesis by blast
qed

section \<open>The hole in the ownership check\<close>


definition bobs_running :: control where
  "bobs_running = anns_control\<lparr>cp_sandboxes := [''box'' \<mapsto> (demo_sandbox ''box'' ''p1'')\<lparr>sb_State := StateRunning, sb_Owner := ''bob''\<rparr>]\<rparr>"


section \<open>Every request is answered\<close>

lemma answer_with_answers: "\<exists>a. answer_with r k = Some a"
  by (simp add: answer_with_def)

lemma readUnary_answers: "(\<And>b p. \<exists>a. k b p = Some a) \<Longrightarrow> \<exists>a. readUnary r k = Some a"
  by (simp add: readUnary_def)

lemma decoded_answers: "\<exists>x. p = Some x \<Longrightarrow> (\<And>x. \<exists>a. k x = Some a) \<Longrightarrow> \<exists>a. decoded proto p j k = Some a"
  by (auto simp: decoded_def)

lemma unimplemented_answers: "\<exists>a. k = Some a \<Longrightarrow> \<exists>a. unimplemented has k = Some a"
  by (simp add: unimplemented_def)

lemma if_answers: "\<exists>a. x = Some a \<Longrightarrow> \<exists>a. y = Some a \<Longrightarrow> \<exists>a. (if c then x else y) = Some a"
  by simp

lemma status_answers: "\<exists>a. Some (EnvdStatus s, []) = Some a"
  by simp

lemmas answers_intros = if_answers status_answers readUnary_answers decoded_answers unimplemented_answers answer_with_answers

text \<open>Claim C24. No request of the data plane is left hanging by the server: whatever its method, path, encoding and body, and
  however the toolbox answers, the handlers return an answer, provided that the wire format makes progress.\<close>

theorem data_plane_answers:
  assumes "wire_progress (ev_wire e)"
  shows "(\<exists>a. envd_routes e st n r = Some a) \<and> (\<exists>a. code_routes e st n r = Some a)"
proof
  note total = wire_progress.string_total [OF assms] wire_progress.bool_total [OF assms] wire_progress.move_total [OF assms]
    wire_progress.listdir_total [OF assms] wire_progress.start_total [OF assms] wire_progress.start_full_total [OF assms]
    wire_progress.signal_total [OF assms] wire_progress.input_request_total [OF assms] wire_progress.update_total [OF assms]
    wire_progress.sub_pid_total [OF assms]
  have watch: "\<exists>x. (case decodeStringField (ev_wire e) b 1 of None \<Rightarrow> None | Some p \<Rightarrow> map_option (Pair p) (decodeBoolField (ev_wire e) b 2)) = Some x" for b
    using total(1) [of b 1] total(2) [of b 2] by auto
  have "\<exists>a. fsStat e st n r = Some a" "\<exists>a. fsMakeDir e st n r = Some a" "\<exists>a. fsMove e st n r = Some a" "\<exists>a. fsListDir e st n r = Some a"
    "\<exists>a. fsRemove e st n r = Some a" "\<exists>a. fsCreateWatcher e st n r = Some a" "\<exists>a. fsGetWatcherEvents e st n r = Some a"
    "\<exists>a. fsRemoveWatcher e st n r = Some a"
    unfolding fsStat_def fsMakeDir_def fsMove_def fsListDir_def fsRemove_def fsCreateWatcher_def fsGetWatcherEvents_def fsRemoveWatcher_def
      unaryPath_def watcherIDOf_def case_prod_beta
    by (intro answers_intros total watch)+
  moreover have "\<exists>a. procList e st n r = Some a" "\<exists>a. procSendInput e st n r = Some a" "\<exists>a. procSendSignal e st n r = Some a"
    "\<exists>a. procUpdate e st n r = Some a" "\<exists>a. procCloseStdin e st n r = Some a" "\<exists>a. procConnect e st n r = Some a"
    unfolding procList_def procSendInput_def procSendSignal_def procUpdate_def procCloseStdin_def procConnect_def decodeConnectRequest_def
      case_prod_beta Let_def
    by (intro answers_intros total)+
  moreover have "\<exists>a. procStart e st n r = Some a"
    unfolding procStart_def procStartBuffered_def Let_def by (intro answers_intros total)
  moreover have "\<exists>a. envd_files e st n r = Some a"
    by (simp add: envd_files_def answer_with_def split: option.split)
  ultimately show "\<exists>a. envd_routes e st n r = Some a" unfolding envd_routes_def Let_def by (intro answers_intros)
  show "\<exists>a. code_routes e st n r = Some a"
    by (simp add: code_routes_def code_execute_def code_contexts_def contextByID_def answer_with_def split: option.split prod.split)
qed

theorem data_plane_answers_witness:
  "\<exists>a. envd_routes demo_envd anns_control ''box'' (envd_call ''POST'' ''application/proto'' ''/process.Process/SendSignal'' [CHR 0x0A, CHR 0xFF]) = Some a"
proof -
  have "wire_progress (ev_wire demo_envd)" using std.wire_progress_axioms by (simp add: demo_envd_def)
  from data_plane_answers [OF this] show ?thesis by blast
qed

section \<open>A command, from its request to its output\<close>

text \<open>What a process event says on the wire; a type the server does not know says nothing.\<close>

definition event_messages :: "protowire \<Rightarrow> proc_event \<Rightarrow> string list" where
  "event_messages pw ev =
     (if pe_Type ev = ''start'' then [procStartEvent pw (pe_PID ev)]
      else if pe_Type ev = ''stdout'' then [procDataEvent pw (pe_Data ev) chStdout]
      else if pe_Type ev = ''stderr'' then [procDataEvent pw (pe_Data ev) chStderr]
      else if pe_Type ev = ''pty'' then [procDataEvent pw (pe_Data ev) chPTY]
      else if pe_Type ev = ''end'' then [procEndEvent pw (pe_ExitCode ev) ''exited'']
      else [])"

definition start_call :: "nat \<Rightarrow> string \<Rightarrow> process_config \<Rightarrow> pty_size option \<Rightarrow> toolbox_call" where
  "start_call t base cfg pty = \<lparr>tc_tunnel = t, tc_method = ''POST'', tc_url = base @ ''procmgr/start'', tc_query = [], tc_body = StartBody cfg pty\<rparr>"

definition follow_call :: "nat \<Rightarrow> string \<Rightarrow> 32 word \<Rightarrow> toolbox_call" where
  "follow_call t base pid =
     \<lparr>tc_tunnel = t, tc_method = ''GET'', tc_url = base @ ''procmgr/stream'', tc_query = [(''pid'', pid_text pid)], tc_body = NoBody\<rparr>"

lemma frames_of_event: "writeProcEventFrame e True ev = concat (map (writeEnvelope (CHR 0x00)) (event_messages (ev_wire e) ev))"
  by (simp add: writeProcEventFrame_def event_messages_def Let_def)

lemma frames_of_events:
  "concat (map (writeProcEventFrame e True) evs) = concat (map (writeEnvelope (CHR 0x00)) (concat (map (event_messages (ev_wire e)) evs)))"
  by (induction evs) (simp_all add: frames_of_event)

text \<open>Claim C33. A command runs as it was sent and its output comes back whole: the request of a client in the binary encoding
  makes two calls, one that starts the command with its arguments, directory and terminal, and one that follows
  the process it got; the client reads the events of the process, in order, and one end frame. The
  environment of the command does not arrive.\<close>

theorem command_runs_and_is_followed:
  assumes "wire (ev_wire e)" and "ev_proc e" and "er_Path r = ''/process.Process/Start''" and "isProtoContentType (er_ContentType r)"
    and body: "er_Body r = writeEnvelope flag (encode_message (ev_wire e) (client_start (ev_wire e) tag q))"
    and small: "length (er_Body r) \<le> 16 * 2 ^ 20"
    and q: "list_all field_ok (client_start (ev_wire e) tag q)" "list_all field_ok (client_config (ev_wire e) (sq_Process q))"
      "\<And>sz. sq_PTY q = Some sz \<Longrightarrow> length (encode_message (ev_wire e) (client_size sz)) < 2 ^ 63"
    and target: "\<And>sub. toolboxTarget st n sub = Some (t, base @ sub)"
    and started: "ev_ask e [] (start_call t base ((sq_Process q)\<lparr>pc_Envs := []\<rparr>) (sq_PTY q)) = Some (s1, a1)" "s1 < 300"
      "an_PID (ev_answers e) a1 = Some pid"
    and followed: "ev_ask e [start_call t base ((sq_Process q)\<lparr>pc_Envs := []\<rparr>) (sq_PTY q)] (follow_call t base pid) = Some (s2, a2)" "s2 < 300"
    and events: "\<forall>ev \<in> set (an_Stream (ev_answers e) a2). \<forall>m \<in> set (event_messages (ev_wire e) ev). length m < 2 ^ 32"
  shows "\<exists>out. envd_routes e st n r =
      Some (EnvdStream out, [start_call t base ((sq_Process q)\<lparr>pc_Envs := []\<rparr>) (sq_PTY q), follow_call t base pid]) \<and>
    read_frames out =
      Some (map (Pair (CHR 0x00)) (concat (map (event_messages (ev_wire e)) (an_Stream (ev_answers e) a2))) @ [(CHR 0x02, ''{}'')])"
proof -
  let ?msg = "encode_message (ev_wire e) (client_start (ev_wire e) tag q)"
  let ?cfg = "(sq_Process q)\<lparr>pc_Envs := []\<rparr>"
  let ?out = "concat (map (writeProcEventFrame e True) (an_Stream (ev_answers e) a2)) @ writeConnectEndFrame"
  have "length ?msg < 2 ^ 32" using small by (simp add: body writeEnvelope_def)
  then have msg: "stripEnvelope (take (16 * 2 ^ 20) (er_Body r)) = ?msg" using small by (simp add: body strip_one_frame)
  have "envd_routes e st n r = procStart e st n r" by (simp add: envd_routes_def assms(3))
  also have "\<dots> = answer_with (Envd_StartProc (ev_ask e) (ev_answers e) st n ?cfg (sq_PTY q) (sq_Stdin q) []) (streamProcEvents e True)"
    using start_request_arrives [OF assms(1) q] msg by (simp add: procStart_def assms(2,4) Let_def decoded_def)
  also have "Envd_StartProc (ev_ask e) (ev_answers e) st n ?cfg (sq_PTY q) (sq_Stdin q) [] =
      (Inr a2, [start_call t base ?cfg (sq_PTY q), follow_call t base pid])"
    using started followed
    by (simp add: Envd_StartProc_def Envd_ConnectProc_def toolboxJSON_def toolboxStream_def toolboxDo_def on_ok_def target
        start_call_def follow_call_def)
  finally have run: "envd_routes e st n r = Some (EnvdStream ?out, [start_call t base ?cfg (sq_PTY q), follow_call t base pid])"
    by (simp add: answer_with_def streamProcEvents_def)
  have "\<forall>m \<in> set (concat (map (event_messages (ev_wire e)) (an_Stream (ev_answers e) a2))). length m < 2 ^ 32" using events by simp
  from read_frames_append [OF this] have "read_frames ?out =
      Some (map (Pair (CHR 0x00)) (concat (map (event_messages (ev_wire e)) (an_Stream (ev_answers e) a2))) @ [(CHR 0x02, ''{}'')])"
    by (simp add: frames_of_events read_end_frame)
  with run show ?thesis by blast
qed

theorem command_runs_and_is_followed_witness:
  "\<exists>out. envd_routes demo_envd anns_control ''box''
      (envd_call ''POST'' ''application/connect+proto'' ''/process.Process/Start''
        (writeEnvelope (CHR 0x00) (encode_message std_wire (client_start std_wire ''t'' demo_start)))) =
    Some (EnvdStream out, [start_call 7 ''http://poder/toolbox/box/'' \<lparr>pc_Cmd = ''ls'', pc_Args = [''-l'', []], pc_Envs = [], pc_Cwd = Some ''/tmp''\<rparr>
      (Some \<lparr>pt_Rows = 24, pt_Cols = 80\<rparr>), follow_call 7 ''http://poder/toolbox/box/'' 9]) \<and>
    read_frames out = Some [(CHR 0x00, procStartEvent std_wire 9), (CHR 0x00, procDataEvent std_wire ''hi'' 1),
      (CHR 0x00, procEndEvent std_wire 0 ''exited''), (CHR 0x02, ''{}'')]"
proof -
  let ?r = "envd_call ''POST'' ''application/connect+proto'' ''/process.Process/Start''
    (writeEnvelope (CHR 0x00) (encode_message std_wire (client_start std_wire ''t'' demo_start)))"
  have env: "wire (ev_wire demo_envd)" "ev_proc demo_envd" "ev_wire demo_envd = std_wire"
    using std.wire_axioms by (simp_all add: demo_envd_def)
  have "isProtoContentType ''application/connect+proto''" by code_simp
  then have proto: "isProtoContentType (er_ContentType ?r)" by (simp add: envd_call_def)
  have path: "er_Path ?r = ''/process.Process/Start''" by (simp add: envd_call_def)
  have body: "er_Body ?r = writeEnvelope (CHR 0x00) (encode_message (ev_wire demo_envd) (client_start (ev_wire demo_envd) ''t'' demo_start))"
    by (simp add: envd_call_def env)
  have small: "length (er_Body ?r) \<le> 16 * 2 ^ 20" using demo_start_fields(4) by (simp add: envd_call_def writeEnvelope_def)
  have asked: "ev_ask demo_envd h c = Some (200, [])" "an_PID (ev_answers demo_envd) [] = Some 9"
    "an_Stream (ev_answers demo_envd) [] = [\<lparr>pe_Type = ''start'', pe_PID = 9, pe_Data = [], pe_ExitCode = 0\<rparr>,
      \<lparr>pe_Type = ''stdout'', pe_PID = 9, pe_Data = ''hi'', pe_ExitCode = 0\<rparr>, \<lparr>pe_Type = ''end'', pe_PID = 9, pe_Data = [], pe_ExitCode = 0\<rparr>]" for h c
    by (simp_all add: demo_envd_def demo_answers_def)
  have events: "\<forall>ev \<in> set (an_Stream (ev_answers demo_envd) []). \<forall>m \<in> set (event_messages (ev_wire demo_envd) ev). length m < 2 ^ 32"
    by (simp add: asked env event_messages_def procStartEvent_def procDataEvent_def procEndEvent_def wrapStartResponse_def encodeMsgField_def
        bytes_field_def varint_field_def std_wire_def put_varint.simps chStdout_def)
  have target: "\<And>sub. toolboxTarget anns_control ''box'' sub = Some (7, ''http://poder/toolbox/box/'' @ sub)" by (rule anns_target)
  from command_runs_and_is_followed [OF env(1,2) path proto body small _ _ _ target asked(1) _ asked(2,1) _ events]
  show ?thesis using demo_start_fields(1,2,3)
    by (simp add: env asked event_messages_def chStdout_def) (simp add: demo_start_def)
qed

section \<open>Uploads\<close>

definition upload_call :: "nat \<Rightarrow> string \<Rightarrow> string \<times> string \<Rightarrow> toolbox_call" where
  "upload_call t url w =
     \<lparr>tc_tunnel = t, tc_method = ''POST'', tc_url = url, tc_query = [(''path'', fst w)], tc_body = UploadBody (baseName (fst w)) (snd w)\<rparr>"

definition accepts :: "toolbox \<Rightarrow> toolbox_call list \<Rightarrow> toolbox_call \<Rightarrow> bool" where
  "accepts ask h c = (case ask h c of None \<Rightarrow> False | Some (status, _) \<Rightarrow> status < 300)"

lemma Envd_WriteFile_cases:
  assumes "toolboxTarget st n ''files/upload'' = Some (t, url)"
  shows "accepts ask h (upload_call t url (path, data)) \<Longrightarrow>
      \<exists>en. Envd_WriteFile ask st n path data h = (Inr en, h @ [upload_call t url (path, data)]) \<and> en_Path en = path"
    and "\<not> accepts ask h (upload_call t url (path, data)) \<Longrightarrow>
      Envd_WriteFile ask st n path data h = (Inl Failed, h @ [upload_call t url (path, data)])"
  by (auto simp: Envd_WriteFile_def toolboxDo_def on_ok_def assms upload_call_def accepts_def split: option.splits if_splits)

lemma write_all_shape:
  assumes "toolboxTarget st n ''files/upload'' = Some (t, url)"
  defines "U \<equiv> upload_call t url"
  shows "(\<exists>ens. write_all ask st n ws h = (Inr ens, h @ map U ws) \<and> map en_Path ens = map fst ws \<and>
        (\<forall>i < length ws. accepts ask (h @ map U (take i ws)) (U (ws ! i)))) \<or>
    (\<exists>k < length ws. write_all ask st n ws h = (Inl Failed, h @ map U (take (Suc k) ws)) \<and>
        (\<forall>i < k. accepts ask (h @ map U (take i ws)) (U (ws ! i))) \<and> \<not> accepts ask (h @ map U (take k ws)) (U (ws ! k)))"
proof (induction ws arbitrary: h)
  case (Cons w ws)
  obtain path data where w: "w = (path, data)" by fastforce
  show ?case
  proof (cases "accepts ask h (U w)")
    case True
    then obtain en where en: "Envd_WriteFile ask st n path data h = (Inr en, h @ [U w])" "en_Path en = path"
      using Envd_WriteFile_cases(1) [OF assms(1)] unfolding U_def w by blast
    have all_Suc: "(\<forall>i < Suc k. accepts ask (h @ map U (take i (w # ws))) (U ((w # ws) ! i))) \<longleftrightarrow>
        (\<forall>i < k. accepts ask ((h @ [U w]) @ map U (take i ws)) (U (ws ! i)))" for k
      using True by (auto simp: less_Suc_eq_0_disj)
    from Cons.IH [of "h @ [U w]"] show ?thesis
    proof (elim disjE exE conjE)
      fix ens
      assume "write_all ask st n ws (h @ [U w]) = (Inr ens, (h @ [U w]) @ map U ws)" "map en_Path ens = map fst ws"
        "\<forall>i < length ws. accepts ask ((h @ [U w]) @ map U (take i ws)) (U (ws ! i))"
      with en all_Suc [of "length ws"] show ?thesis by (intro disjI1 exI [of _ "en # ens"]) (simp add: w on_ok_def)
    next
      fix k
      assume "k < length ws" "write_all ask st n ws (h @ [U w]) = (Inl Failed, (h @ [U w]) @ map U (take (Suc k) ws))"
        "\<forall>i < k. accepts ask ((h @ [U w]) @ map U (take i ws)) (U (ws ! i))" "\<not> accepts ask ((h @ [U w]) @ map U (take k ws)) (U (ws ! k))"
      with en all_Suc [of k] show ?thesis by (intro disjI2 exI [of _ "Suc k"]) (simp add: w on_ok_def)
    qed
  next
    case False
    then show ?thesis
      using Envd_WriteFile_cases(2) [OF assms(1), of ask h path data]
      by (intro disjI2 exI [of _ 0]) (simp add: w on_ok_def U_def)
  qed
qed simp

text \<open>An upload writes its files in the order of the form, each to its own path: if the toolbox takes them all the
  answer has an entry for each; otherwise it stops at the first that is refused with an internal
  error, the files after it are not sent and those before it stay written.\<close>

theorem upload_writes_in_order:
  assumes "er_Method r = ''POST''" and "collectWrites r = Some ws" and "toolboxTarget st n ''files/upload'' = Some (t, url)"
  shows "(\<exists>ens. envd_files e st n r = Some (EnvdJSON (JEntries ens), map (upload_call t url) ws) \<and> map en_Path ens = map fst ws \<and>
        (\<forall>i < length ws. accepts (ev_ask e) (map (upload_call t url) (take i ws)) (upload_call t url (ws ! i)))) \<or>
    (\<exists>k < length ws. envd_files e st n r = Some (EnvdStatus 500, map (upload_call t url) (take (Suc k) ws)) \<and>
        (\<forall>i < k. accepts (ev_ask e) (map (upload_call t url) (take i ws)) (upload_call t url (ws ! i))) \<and>
        \<not> accepts (ev_ask e) (map (upload_call t url) (take k ws)) (upload_call t url (ws ! k)))"
proof -
  have run: "envd_files e st n r = answer_with (write_all (ev_ask e) st n ws []) (\<lambda>ens. EnvdJSON (JEntries ens))"
    using assms(1,2) by (simp add: envd_files_def)
  from write_all_shape [OF assms(3), of "ev_ask e" ws "[]"] show ?thesis
    unfolding run by (elim disjE exE conjE) (auto simp: answer_with_def writeConnectErr_def)
qed

theorem upload_writes_in_order_witness:
  "\<exists>k < 2. envd_files (demo_envd\<lparr>ev_ask := (\<lambda>h c. if h = [] then Some (200, []) else Some (507, []))\<rparr>) anns_control ''box''
      ((envd_call ''POST'' ''multipart/form-data'' ''/files'' [])\<lparr>er_Parts := Some ([(''file'', ''/a'', ''1''), (''file'', ''/b'', ''2'')], True)\<rparr>) =
    Some (EnvdStatus 500, map (upload_call 7 ''http://poder/toolbox/box/files/upload'') (take (Suc k) [(''/a'', ''1''), (''/b'', ''2'')]))"
proof -
  let ?e = "demo_envd\<lparr>ev_ask := (\<lambda>h c. if h = [] then Some (200, []) else Some (507, []))\<rparr>"
  let ?r = "(envd_call ''POST'' ''multipart/form-data'' ''/files'' [])\<lparr>er_Parts := Some ([(''file'', ''/a'', ''1''), (''file'', ''/b'', ''2'')], True)\<rparr>"
  have ws: "collectWrites ?r = Some [(''/a'', ''1''), (''/b'', ''2'')]"
    by (simp add: collectWrites_def envd_call_def HasPrefix_def)
  have post: "er_Method ?r = ''POST''" by (simp add: envd_call_def)
  let ?ws = "[(''/a'', ''1''), (''/b'', ''2'')] :: (string \<times> string) list"
  let ?U = "upload_call 7 (''http://poder/toolbox/box/'' @ ''files/upload'')"
  have "\<not> accepts (ev_ask ?e) (map ?U (take 1 ?ws)) (?U (?ws ! 1))" by (simp add: accepts_def)
  then have refused: "\<not> (\<forall>i < length ?ws. accepts (ev_ask ?e) (map ?U (take i ?ws)) (?U (?ws ! i)))"
    by (metis One_nat_def length_Cons less_Suc_eq lessI list.size(3))
  from upload_writes_in_order [OF post ws anns_target, of ?e] refused
  obtain k where "k < length ?ws" "envd_files ?e anns_control ''box'' ?r = Some (EnvdStatus 500, map ?U (take (Suc k) ?ws))" by blast
  then show ?thesis by (intro exI [of _ k] conjI) simp_all
qed

end
