(* ===== verification/Toolbox_Procs.thy ===== *)
theory Toolbox_Procs
  imports Toolbox_Files E2B_Envd
begin

text \<open>
  Processes in a sandbox: the table of \<^verbatim>\<open>src/pkg/toolbox/procmgr.go\<close> and the child environment of
  \<^verbatim>\<open>src/pkg/toolbox/env.go\<close>; the routes of the table are in \<open>Toolbox_Exec\<close>. The goroutines of a process (a reader per pipe and
  the one that waits for the exit) and any number of subscribers of its output are interleaved by a step
  relation; each step is what happens under the lock of the process. The operating system is a record
  of functions, what is done to it a log.

  Shown here: a subscriber, whenever it attaches, is given the start event and then the buffer in order; when its
  stream ends it has all output of every pipe and one end event, which is the last; no interleaving
  loses a wake-up, and every stream ends once the process has. The environment of a child has each variable of
  the sandbox in place of the agent's.
\<close>

section \<open>The child environment\<close>

text \<open>The index of the first equals sign if it is not the first character.\<close>

definition env_key :: "string \<Rightarrow> string option" where
  "env_key kv = (case IndexByte kv (CHR ''='') of Some i \<Rightarrow> if i > 0 then Some (take i kv) else None | None \<Rightarrow> None)"

definition mergeEnvList :: "string list \<Rightarrow> string list \<Rightarrow> string list" where
  "mergeEnvList base extra =
     (if extra = [] then base
      else let override = List.map_filter env_key extra in
        filter (\<lambda>kv. (case env_key kv of Some k \<Rightarrow> k | None \<Rightarrow> kv) \<notin> set override) base @
        filter (\<lambda>kv. env_key kv \<noteq> None) extra)"

section \<open>State\<close>

record proc_meta =
  pm_PID :: "32 word"
  pm_Tag :: string
  pm_Cmd :: string
  pm_Args :: "string list"
  pm_Envs :: "(string \<times> string) list"
  pm_Cwd :: string

record start_config =
  sc_Cmd :: string
  sc_Args :: "string list"
  sc_Envs :: "(string \<times> string) list"
  sc_Cwd :: string
  sc_Tag :: string
  sc_PTY :: bool
  sc_Rows :: "16 word"
  sc_Cols :: "16 word"

record managed_proc =
  mp_Info :: proc_meta
  mp_isPTY :: bool
  mp_Buf :: "proc_event list"
  mp_Done :: bool
  mp_Exit :: "32 word"

definition event_of :: "string \<Rightarrow> string \<Rightarrow> proc_event" where
  "event_of kind data = \<lparr>pe_Type = kind, pe_PID = 0, pe_Data = data, pe_ExitCode = 0\<rparr>"

definition end_event :: "32 word \<Rightarrow> proc_event" where
  "end_event code = \<lparr>pe_Type = ''end'', pe_PID = 0, pe_Data = [], pe_ExitCode = code\<rparr>"

definition start_event :: "32 word \<Rightarrow> proc_event" where
  "start_event pid = \<lparr>pe_Type = ''start'', pe_PID = pid, pe_Data = [], pe_ExitCode = 0\<rparr>"

definition proc_append :: "proc_event \<Rightarrow> managed_proc \<Rightarrow> managed_proc" where
  "proc_append ev p =
     (let p1 = p\<lparr>mp_Buf := mp_Buf p @ [ev]\<rparr> in
      if pe_Type ev = ''end'' then p1\<lparr>mp_Done := True, mp_Exit := pe_ExitCode ev\<rparr> else p1)"

section \<open>The goroutines of a process\<close>

text \<open>A subscriber has a cursor and what it was given so far. It is ready to look at the buffer, asleep on the condition
  variable, or has left: because the stream ended, or because its client is gone.\<close>

datatype subscriber =
    Ready nat "proc_event list"
  | Asleep nat "proc_event list"
  | Returned "proc_event list"
  | Gone "proc_event list"

fun wake :: "subscriber \<Rightarrow> subscriber" where
  "wake (Asleep c d) = Ready c d"
| "wake s = s"

text \<open>A reader per pipe, with the chunks it has yet to read.\<close>

record proc_run =
  ru_proc :: managed_proc
  ru_pumps :: "(string \<times> string list) list"
  ru_ended :: bool
  ru_code :: "32 word"
  ru_subs :: "subscriber list"

definition append_and_wake :: "proc_event \<Rightarrow> proc_run \<Rightarrow> proc_run" where
  "append_and_wake ev w = w\<lparr>ru_proc := proc_append ev (ru_proc w), ru_subs := map wake (ru_subs w)\<rparr>"

text \<open>A chunk that a read returned; an empty one is not recorded.\<close>

definition read_chunk :: "string \<Rightarrow> string \<Rightarrow> proc_run \<Rightarrow> proc_run" where
  "read_chunk kind d w = (if d = [] then w else append_and_wake (event_of kind d) w)"

definition run_buf :: "proc_run \<Rightarrow> proc_event list" where "run_buf w = mp_Buf (ru_proc w)"
definition run_done :: "proc_run \<Rightarrow> bool" where "run_done w = mp_Done (ru_proc w)"
definition run_pid :: "proc_run \<Rightarrow> 32 word" where "run_pid w = pm_PID (mp_Info (ru_proc w))"

inductive run_step :: "proc_run \<Rightarrow> proc_run \<Rightarrow> bool" where
  pump: "ru_pumps w = ps @ (k, d # ds) # qs \<Longrightarrow> run_step w (read_chunk k d (w\<lparr>ru_pumps := ps @ (k, ds) # qs\<rparr>))"
| pump_eof: "ru_pumps w = ps @ (k, []) # qs \<Longrightarrow> run_step w (w\<lparr>ru_pumps := ps @ qs\<rparr>)"
| exited: "ru_pumps w = [] \<Longrightarrow> \<not> ru_ended w \<Longrightarrow> run_step w (append_and_wake (end_event (ru_code w)) (w\<lparr>ru_ended := True\<rparr>))"
| deliver: "i < length (ru_subs w) \<Longrightarrow> ru_subs w ! i = Ready c d \<Longrightarrow> c < length (run_buf w) \<Longrightarrow>
    run_step w (w\<lparr>ru_subs := (ru_subs w)[i := Ready (Suc c) (d @ [run_buf w ! c])]\<rparr>)"
| client_gone: "i < length (ru_subs w) \<Longrightarrow> ru_subs w ! i = Ready c d \<Longrightarrow> c < length (run_buf w) \<Longrightarrow>
    run_step w (w\<lparr>ru_subs := (ru_subs w)[i := Gone d]\<rparr>)"
| finish: "i < length (ru_subs w) \<Longrightarrow> ru_subs w ! i = Ready c d \<Longrightarrow> length (run_buf w) \<le> c \<Longrightarrow> run_done w \<Longrightarrow>
    run_step w (w\<lparr>ru_subs := (ru_subs w)[i := Returned d]\<rparr>)"
| cond_wait: "i < length (ru_subs w) \<Longrightarrow> ru_subs w ! i = Ready c d \<Longrightarrow> length (run_buf w) \<le> c \<Longrightarrow> \<not> run_done w \<Longrightarrow>
    run_step w (w\<lparr>ru_subs := (ru_subs w)[i := Asleep c d]\<rparr>)"

text \<open>\<^verbatim>\<open>Stream\<close>: a subscriber attaches with the start event, which it is given first.\<close>

definition attach :: "proc_run \<Rightarrow> proc_run" where
  "attach w = w\<lparr>ru_subs := ru_subs w @ [Ready 0 [start_event (run_pid w)]]\<rparr>"

inductive run_reach :: "proc_run \<Rightarrow> proc_run \<Rightarrow> bool" for w where
  reach_start: "run_reach w w"
| reach_step: "run_reach w v \<Longrightarrow> run_step v u \<Longrightarrow> run_reach w u"
| reach_attach: "run_reach w v \<Longrightarrow> run_reach w (attach v)"

section \<open>The table\<close>

type_synonym proc_table = "32 word \<Rightarrow> proc_run option"

record spawn =
  sn_Path :: string
  sn_Argv :: "string list"
  sn_Dir :: string
  sn_Environ :: "string list"
  sn_Window :: "(16 word \<times> 16 word) option"

datatype proc_effect =
    Spawned spawn "32 word"
  | Wrote "32 word" string
  | ClosedStdin "32 word"
  | GroupSignal "32 word" "32 word"
  | WindowSize "32 word" "16 word" "16 word"

text \<open>How a child ends, and what is known of it once it was started: its number, the chunks that the reads of
  its standard output (or of its terminal) and of its standard error return, and its end.\<close>

datatype wait_outcome = WaitOk | WaitExited "32 word" | WaitFailed

record child =
  ch_PID :: "32 word"
  ch_Stdout :: "string list"
  ch_Stderr :: "string list"
  ch_Wait :: wait_outcome

text \<open>What lies outside: \<open>ox_stat\<close> tells of a path that exists whether it is a directory, \<open>ox_wrap\<close> looks a program up and puts it in
  the OS sandbox (\<open>None\<close> if that refuses), \<open>ox_spawn\<close> starts a process or fails, \<open>ox_resize\<close> tells whether the terminal took the size.\<close>

record proc_os =
  ox_stat :: "string \<Rightarrow> bool option"
  ox_workDir :: string
  ox_environ :: "string list"
  ox_extra :: "string list"
  ox_wrap :: "string \<times> string list \<Rightarrow> (string \<times> string list) option"
  ox_spawn :: "proc_effect list \<Rightarrow> spawn \<Rightarrow> child option"
  ox_resize :: "proc_effect list \<Rightarrow> 32 word \<Rightarrow> bool"

record proc_state =
  pt_Table :: proc_table
  pt_Log :: "proc_effect list"

definition nativeShell :: string where "nativeShell = ''/bin/bash''"

definition ChildEnv :: "proc_os \<Rightarrow> string list" where
  "ChildEnv os = mergeEnvList (ox_environ os) (ox_extra os)"

definition mergeEnv :: "proc_os \<Rightarrow> (string \<times> string) list \<Rightarrow> string list" where
  "mergeEnv os envs = mergeEnvList (ChildEnv os) (map (\<lambda>(k, v). k @ ''='' @ v) envs)"

definition waitExit :: "wait_outcome \<Rightarrow> 32 word" where
  "waitExit r = (case r of WaitOk \<Rightarrow> 0 | WaitExited c \<Rightarrow> c | WaitFailed \<Rightarrow> - 1)"

definition startPTY :: "16 word \<Rightarrow> 16 word \<Rightarrow> 16 word \<times> 16 word" where
  "startPTY rows cols = (if rows = 0 then 24 else rows, if cols = 0 then 80 else cols)"

text \<open>The goroutines that are started with a process, none of which has run.\<close>

definition new_run :: "start_config \<Rightarrow> string \<Rightarrow> child \<Rightarrow> proc_run" where
  "new_run cfg cwd c =
     \<lparr>ru_proc = \<lparr>mp_Info = \<lparr>pm_PID = ch_PID c, pm_Tag = sc_Tag cfg, pm_Cmd = sc_Cmd cfg, pm_Args = sc_Args cfg,
                    pm_Envs = sc_Envs cfg, pm_Cwd = cwd\<rparr>,
                  mp_isPTY = sc_PTY cfg, mp_Buf = [], mp_Done = False, mp_Exit = 0\<rparr>,
      ru_pumps = (if sc_PTY cfg then [(''pty'', ch_Stdout c)] else [(''stdout'', ch_Stdout c), (''stderr'', ch_Stderr c)]),
      ru_ended = False, ru_code = waitExit (ch_Wait c), ru_subs = []\<rparr>"

datatype proc_error = CwdUnusable | CwdNotDir | SandboxRefused | SpawnFailed

definition Proc_Start :: "proc_os \<Rightarrow> start_config \<Rightarrow> proc_state \<Rightarrow> (proc_error + 32 word) \<times> proc_state" where
  "Proc_Start os cfg0 st =
     (let cfg = (if sc_Cmd cfg0 = [] then cfg0\<lparr>sc_Cmd := nativeShell\<rparr> else cfg0);
          cwd = (if sc_Cwd cfg = [] then ox_workDir os else sc_Cwd cfg) in
      case ox_stat os cwd of
        None \<Rightarrow> (Inl CwdUnusable, st)
      | Some False \<Rightarrow> (Inl CwdNotDir, st)
      | Some True \<Rightarrow>
          (case ox_wrap os (sc_Cmd cfg, sc_Args cfg) of
             None \<Rightarrow> (Inl SandboxRefused, st)
           | Some (path, args) \<Rightarrow>
               let s = \<lparr>sn_Path = path, sn_Argv = args, sn_Dir = cwd, sn_Environ = mergeEnv os (sc_Envs cfg),
                        sn_Window = (if sc_PTY cfg then Some (startPTY (sc_Rows cfg) (sc_Cols cfg)) else None)\<rparr> in
               (case ox_spawn os (pt_Log st) s of
                  None \<Rightarrow> (Inl SpawnFailed, st)
                | Some c \<Rightarrow>
                    (Inr (ch_PID c), \<lparr>pt_Table = (pt_Table st)(ch_PID c \<mapsto> new_run cfg cwd c),
                                      pt_Log = pt_Log st @ [Spawned s (ch_PID c)]\<rparr>))))"

text \<open>\<^verbatim>\<open>List\<close>: \<open>ord\<close> is the order in which the map is visited.\<close>

definition Proc_List :: "32 word list \<Rightarrow> proc_state \<Rightarrow> proc_meta list" where
  "Proc_List ord st = List.map_filter (\<lambda>pid. case pt_Table st pid of
     Some w \<Rightarrow> if run_done w then None else Some (mp_Info (ru_proc w)) | None \<Rightarrow> None) ord"

definition Proc_Stream :: "32 word \<Rightarrow> proc_state \<Rightarrow> bool \<times> proc_state" where
  "Proc_Stream pid st =
     (case pt_Table st pid of None \<Rightarrow> (False, st) | Some w \<Rightarrow> (True, st\<lparr>pt_Table := (pt_Table st)(pid \<mapsto> attach w)\<rparr>))"

definition on_proc :: "32 word \<Rightarrow> proc_effect \<Rightarrow> proc_state \<Rightarrow> bool \<times> proc_state" where
  "on_proc pid e st =
     (case pt_Table st pid of None \<Rightarrow> (False, st) | Some w \<Rightarrow> (True, st\<lparr>pt_Log := pt_Log st @ [e]\<rparr>))"

text \<open>The standard input of a process, or the terminal that stands for it, is never nil once it was started.\<close>

definition Proc_SendInput :: "32 word \<Rightarrow> string \<Rightarrow> bool \<Rightarrow> proc_state \<Rightarrow> bool \<times> proc_state" where
  "Proc_SendInput pid data isPTY = on_proc pid (Wrote pid data)"

definition Proc_CloseStdin :: "32 word \<Rightarrow> proc_state \<Rightarrow> bool \<times> proc_state" where
  "Proc_CloseStdin pid = on_proc pid (ClosedStdin pid)"

definition Proc_Signal :: "32 word \<Rightarrow> 32 word \<Rightarrow> proc_state \<Rightarrow> bool \<times> proc_state" where
  "Proc_Signal pid sig = on_proc pid (GroupSignal pid sig)"

definition Proc_Resize :: "proc_os \<Rightarrow> 32 word \<Rightarrow> 16 word \<Rightarrow> 16 word \<Rightarrow> proc_state \<Rightarrow> bool \<times> proc_state" where
  "Proc_Resize os pid rows cols st =
     (case pt_Table st pid of
        None \<Rightarrow> (False, st)
      | Some w \<Rightarrow>
          if \<not> mp_isPTY (ru_proc w) then (False, st)
          else (ox_resize os (pt_Log st) pid, st\<lparr>pt_Log := pt_Log st @ [WindowSize pid rows cols]\<rparr>))"

section \<open>What a subscriber is given\<close>

text \<open>The bytes of one pipe among events, and those that are yet to be read.\<close>

definition kind_data :: "string \<Rightarrow> proc_event list \<Rightarrow> string" where
  "kind_data k evs = concat (map pe_Data (filter (\<lambda>e. pe_Type e = k) evs))"

definition pipe_data :: "string \<Rightarrow> (string \<times> string list) list \<Rightarrow> string" where
  "pipe_data k pumps = concat (map (\<lambda>(k', ds). if k' = k then concat ds else []) pumps)"

definition no_end :: "proc_event list \<Rightarrow> bool" where
  "no_end evs \<longleftrightarrow> list_all (\<lambda>e. pe_Type e \<noteq> ''end'') evs"

definition delivered :: "subscriber \<Rightarrow> proc_event list" where
  "delivered s = (case s of Ready c d \<Rightarrow> d | Asleep c d \<Rightarrow> d | Returned d \<Rightarrow> d | Gone d \<Rightarrow> d)"

fun sub_ok :: "proc_event \<Rightarrow> proc_event list \<Rightarrow> bool \<Rightarrow> subscriber \<Rightarrow> bool" where
  "sub_ok e buf fin (Ready c d) \<longleftrightarrow> c \<le> length buf \<and> d = e # take c buf"
| "sub_ok e buf fin (Asleep c d) \<longleftrightarrow> c = length buf \<and> d = e # buf \<and> \<not> fin"
| "sub_ok e buf fin (Returned d) \<longleftrightarrow> fin \<and> d = e # buf"
| "sub_ok e buf fin (Gone d) \<longleftrightarrow> (\<exists>c \<le> length buf. d = e # take c buf)"

text \<open>The events so far: data, then nothing more but the end event once the pipes are drained.\<close>

definition events_ok :: "32 word \<Rightarrow> proc_run \<Rightarrow> bool" where
  "events_ok code w \<longleftrightarrow>
     ru_code w = code \<and> run_done w = ru_ended w \<and> (ru_ended w \<longrightarrow> ru_pumps w = []) \<and>
     list_all (\<lambda>(k, ds). k \<noteq> ''end'') (ru_pumps w) \<and>
     (\<exists>body. run_buf w = body @ (if ru_ended w then [end_event code] else []) \<and> no_end body)"

definition run_ok :: "32 word \<Rightarrow> 32 word \<Rightarrow> proc_run \<Rightarrow> bool" where
  "run_ok pid code w \<longleftrightarrow> run_pid w = pid \<and> events_ok code w \<and>
     list_all (sub_ok (start_event pid) (run_buf w) (run_done w)) (ru_subs w)"

lemma event_fields [simp]:
  "pe_Type (event_of k d) = k" "pe_Data (event_of k d) = d" "pe_Type (end_event c) = ''end''" "pe_Data (end_event c) = []"
  by (simp_all add: event_of_def end_event_def)

lemma append_fields [simp]:
  "run_buf (append_and_wake e w) = run_buf w @ [e]"
  "run_done (append_and_wake e w) = (pe_Type e = ''end'' \<or> run_done w)"
  "run_pid (append_and_wake e w) = run_pid w"
  "ru_pumps (append_and_wake e w) = ru_pumps w" "ru_ended (append_and_wake e w) = ru_ended w"
  "ru_code (append_and_wake e w) = ru_code w" "ru_subs (append_and_wake e w) = map wake (ru_subs w)"
  by (simp_all add: append_and_wake_def run_buf_def run_done_def run_pid_def proc_append_def Let_def)

lemma run_upd [simp]:
  "run_buf (w\<lparr>ru_pumps := x\<rparr>) = run_buf w" "run_done (w\<lparr>ru_pumps := x\<rparr>) = run_done w" "run_pid (w\<lparr>ru_pumps := x\<rparr>) = run_pid w"
  "run_buf (w\<lparr>ru_ended := y\<rparr>) = run_buf w" "run_done (w\<lparr>ru_ended := y\<rparr>) = run_done w" "run_pid (w\<lparr>ru_ended := y\<rparr>) = run_pid w"
  "run_buf (w\<lparr>ru_subs := z\<rparr>) = run_buf w" "run_done (w\<lparr>ru_subs := z\<rparr>) = run_done w" "run_pid (w\<lparr>ru_subs := z\<rparr>) = run_pid w"
  by (simp_all add: run_buf_def run_done_def run_pid_def)

text \<open>An append wakes the sleepers, which then have one event to take; nobody has returned.\<close>

lemma sub_ok_append: "sub_ok e buf False s \<Longrightarrow> sub_ok e (buf @ [x]) fin (wake s)"
proof (cases s)
  case (Gone d)
  moreover assume "sub_ok e buf False s"
  ultimately obtain c where "c \<le> length buf" "d = e # take c buf" by auto
  then show ?thesis using Gone by (auto intro!: exI [of _ c])
qed auto

lemma subs_append:
  "list_all (sub_ok e buf False) ss \<Longrightarrow> list_all (sub_ok e (buf @ [x]) fin) (map wake ss)"
  by (induction ss) (simp_all add: sub_ok_append)

lemma subs_update:
  "list_all P ss \<Longrightarrow> i < length ss \<Longrightarrow> P x \<Longrightarrow> list_all P (ss[i := x])"
  by (auto simp: list_all_length nth_list_update)

lemma subs_nth: "list_all P ss \<Longrightarrow> i < length ss \<Longrightarrow> ss ! i = x \<Longrightarrow> P x"
  by (auto simp: list_all_length)

lemma run_ok_sub:
  "run_ok pid code w \<Longrightarrow> i < length (ru_subs w) \<Longrightarrow> ru_subs w ! i = s \<Longrightarrow> sub_ok (start_event pid) (run_buf w) (run_done w) s"
  by (auto simp: run_ok_def dest: subs_nth)

lemma run_ok_put:
  assumes "run_ok pid code w" "i < length (ru_subs w)" "sub_ok (start_event pid) (run_buf w) (run_done w) s"
  shows "run_ok pid code (w\<lparr>ru_subs := (ru_subs w)[i := s]\<rparr>)"
proof -
  have "events_ok code (w\<lparr>ru_subs := x\<rparr>) = events_ok code w" for x by (simp add: events_ok_def)
  with assms show ?thesis by (simp add: run_ok_def subs_update)
qed

lemma run_step_ok: "run_step w v \<Longrightarrow> run_ok pid code w \<Longrightarrow> run_ok pid code v"
proof (induction rule: run_step.induct)
  case (pump w ps k d ds qs)
  then have "\<not> run_done w" "k \<noteq> ''end''" by (auto simp: run_ok_def events_ok_def)
  with pump show ?case
    by (auto simp: read_chunk_def run_ok_def events_ok_def no_end_def intro: subs_append)
next
  case (exited w)
  then show ?case by (auto simp: run_ok_def events_ok_def intro: subs_append)
next
  case (deliver i w c d)
  from run_ok_sub [OF deliver(4,1,2)] deliver(3)
  have "sub_ok (start_event pid) (run_buf w) (run_done w) (Ready (Suc c) (d @ [run_buf w ! c]))"
    by (simp add: take_Suc_conv_app_nth)
  then show ?case using deliver by (intro run_ok_put)
next
  case (client_gone i w c d)
  from run_ok_sub [OF client_gone(4,1,2)] client_gone show ?case by (intro run_ok_put) (auto intro!: exI [of _ c])
next
  case (finish i w c d)
  from run_ok_sub [OF finish(5,1,2)] finish show ?case by (intro run_ok_put) auto
next
  case (cond_wait i w c d)
  from run_ok_sub [OF cond_wait(5,1,2)] cond_wait show ?case by (intro run_ok_put) auto
qed (auto simp: run_ok_def events_ok_def)

lemma attach_ok: "run_ok pid code w \<Longrightarrow> run_ok pid code (attach w)"
  by (auto simp: run_ok_def events_ok_def attach_def)

lemma run_reach_ok: "run_reach w v \<Longrightarrow> run_ok pid code w \<Longrightarrow> run_ok pid code v"
  by (induction rule: run_reach.induct) (auto intro: run_step_ok attach_ok)

text \<open>No byte of a pipe is lost or moved: what was recorded of it and what is left are together all that was written.\<close>

definition data_ok :: "string \<Rightarrow> string \<Rightarrow> proc_run \<Rightarrow> bool" where
  "data_ok k out w \<longleftrightarrow> distinct (map fst (ru_pumps w)) \<and> kind_data k (run_buf w) @ pipe_data k (ru_pumps w) = out"

lemma kind_data_append [simp]: "kind_data k (xs @ ys) = kind_data k xs @ kind_data k ys"
  by (simp add: kind_data_def)

lemma kind_data_one [simp]: "kind_data k [e] = (if pe_Type e = k then pe_Data e else [])"
  by (simp add: kind_data_def)

lemma kind_data_Nil [simp]: "kind_data k [] = []"
  by (simp add: kind_data_def)

lemma pipe_data_simps [simp]:
  "pipe_data k [] = []" "pipe_data k (p # ps) = (if fst p = k then concat (snd p) else []) @ pipe_data k ps"
  "pipe_data k (xs @ ys) = pipe_data k xs @ pipe_data k ys"
  by (simp_all add: pipe_data_def case_prod_beta)

lemma pipe_data_absent: "k \<notin> set (map fst ps) \<Longrightarrow> pipe_data k ps = []"
  by (induction ps) auto

lemma run_step_data: "run_step w v \<Longrightarrow> data_ok k out w \<Longrightarrow> data_ok k out v"
  by (induction rule: run_step.induct) (auto simp: data_ok_def read_chunk_def pipe_data_absent)

lemma attach_data: "data_ok k out w \<Longrightarrow> data_ok k out (attach w)"
  by (simp add: data_ok_def attach_def)

lemma run_reach_data: "run_reach w v \<Longrightarrow> data_ok k out w \<Longrightarrow> data_ok k out v"
  by (induction rule: run_reach.induct) (auto intro: run_step_data attach_data)

section \<open>Every stream ends\<close>

definition sub_work :: "nat \<Rightarrow> subscriber \<Rightarrow> nat" where
  "sub_work n s = (case s of Ready c d \<Rightarrow> 2 + 2 * (n - c) | Asleep c d \<Rightarrow> 1 | _ \<Rightarrow> 0)"

definition subs_work :: "proc_run \<Rightarrow> nat" where
  "subs_work w = sum_list (map (sub_work (length (run_buf w))) (ru_subs w))"

definition pumps_work :: "proc_run \<Rightarrow> nat" where
  "pumps_work w = sum_list (map (\<lambda>(k, ds). Suc (length ds)) (ru_pumps w)) + (if ru_ended w then 0 else 1)"

definition left_stream :: "subscriber \<Rightarrow> bool" where
  "left_stream s = (case s of Returned d \<Rightarrow> True | Gone d \<Rightarrow> True | _ \<Rightarrow> False)"

lemma pumps_work_upd [simp]:
  "pumps_work (w\<lparr>ru_subs := z\<rparr>) = pumps_work w" "pumps_work (append_and_wake e w) = pumps_work w"
  by (simp_all add: pumps_work_def)

lemma sum_list_put_less:
  "i < length xs \<Longrightarrow> f y < (f (xs ! i) :: nat) \<Longrightarrow> sum_list (map f (xs[i := y])) < sum_list (map f xs)"
  by (induction xs arbitrary: i) (auto split: nat.split simp: less_Suc_eq_0_disj)

lemma run_step_work: "run_step w v \<Longrightarrow> (v, w) \<in> measures [pumps_work, subs_work]"
proof (induction rule: run_step.induct)
  case (pump w ps k d ds qs)
  then show ?case by (simp add: read_chunk_def) (simp add: pumps_work_def)
next
  case (pump_eof w ps k qs)
  then show ?case by (simp add: pumps_work_def)
next
  case (exited w)
  then show ?case by (simp add: pumps_work_def)
qed (auto simp: subs_work_def sub_work_def intro!: sum_list_put_less)

lemma run_step_wf: "wf {(v, w). run_step w v}"
  by (rule wf_subset [OF wf_measures [of "[pumps_work, subs_work]"]]) (auto dest: run_step_work)

text \<open>While a pipe is open, or the end is not recorded, or a subscriber has not left, there is a step.\<close>

lemma run_progress:
  assumes "run_ok pid code w" "\<And>v. \<not> run_step w v"
  shows "run_done w \<and> ru_pumps w = [] \<and> list_all left_stream (ru_subs w)"
proof -
  have drained: "ru_pumps w = []"
  proof (rule ccontr)
    assume "ru_pumps w \<noteq> []"
    then obtain k ds qs where "ru_pumps w = [] @ (k, ds) # qs" by (metis append_Nil list.exhaust surj_pair)
    then show False using assms(2) pump pump_eof by (cases ds) blast+
  qed
  then have ended: "ru_ended w" using assms(2) exited by blast
  then have fin: "run_done w" using assms(1) by (simp add: run_ok_def events_ok_def)
  have "left_stream (ru_subs w ! i)" if "i < length (ru_subs w)" for i
  proof (cases "ru_subs w ! i")
    case (Ready c d)
    then have "run_step w (w\<lparr>ru_subs := (ru_subs w)[i := Ready (Suc c) (d @ [run_buf w ! c])]\<rparr>) \<or>
        run_step w (w\<lparr>ru_subs := (ru_subs w)[i := Returned d]\<rparr>)"
      using that fin deliver [of i w c d] finish [of i w c d] by (cases "c < length (run_buf w)") auto
    then show ?thesis using assms(2) by blast
  next
    case (Asleep c d)
    then show ?thesis using run_ok_sub [OF assms(1) that Asleep] fin by simp
  qed (simp_all add: left_stream_def)
  then show ?thesis using drained fin by (simp add: list_all_length)
qed

section \<open>The streams of a started process\<close>

lemma Proc_Start_done:
  assumes "Proc_Start os cfg st = (Inr pid, st1)"
  obtains s c cfg' cwd where "ox_spawn os (pt_Log st) s = Some c" "ch_PID c = pid" "sc_PTY cfg' = sc_PTY cfg"
    "st1 = \<lparr>pt_Table = (pt_Table st)(pid \<mapsto> new_run cfg' cwd c), pt_Log = pt_Log st @ [Spawned s pid]\<rparr>"
proof -
  define cfg' where "cfg' = (if sc_Cmd cfg = [] then cfg\<lparr>sc_Cmd := nativeShell\<rparr> else cfg)"
  have "\<exists>s c cwd. ox_spawn os (pt_Log st) s = Some c \<and> ch_PID c = pid \<and>
      st1 = \<lparr>pt_Table = (pt_Table st)(pid \<mapsto> new_run cfg' cwd c), pt_Log = pt_Log st @ [Spawned s pid]\<rparr>"
    using assms unfolding Proc_Start_def Let_def cfg'_def [symmetric]
    by (fastforce split: option.splits bool.splits prod.splits)
  moreover have "sc_PTY cfg' = sc_PTY cfg" by (simp add: cfg'_def)
  ultimately show ?thesis using that by blast
qed

lemma Proc_Start_failed: "Proc_Start os cfg st = (Inl e, st1) \<Longrightarrow> st1 = st"
proof -
  define cfg' where "cfg' = (if sc_Cmd cfg = [] then cfg\<lparr>sc_Cmd := nativeShell\<rparr> else cfg)"
  assume "Proc_Start os cfg st = (Inl e, st1)"
  then show ?thesis unfolding Proc_Start_def Let_def cfg'_def [symmetric]
    by (fastforce split: option.splits bool.splits prod.splits)
qed

lemma take_beginning: "\<exists>rest. xs = take n xs @ rest"
  by (metis append_take_drop_id)

lemma new_run_ok: "run_ok (ch_PID c) (waitExit (ch_Wait c)) (new_run cfg cwd c)"
  by (simp add: run_ok_def events_ok_def new_run_def run_pid_def run_done_def run_buf_def no_end_def)

lemma new_run_data:
  "data_ok k (pipe_data k (if sc_PTY cfg then [(''pty'', ch_Stdout c)] else [(''stdout'', ch_Stdout c), (''stderr'', ch_Stderr c)])) (new_run cfg cwd c)"
  by (simp add: data_ok_def new_run_def run_buf_def)

text \<open>Claim C12. A stream that came to its end, whenever its subscriber attached and however the readers, the wait for the exit
  and other subscribers were interleaved, is the start event with the number of the process, then all that was read of
  each pipe in the order in which it was read, then one end event with the exit code: nothing is lost, repeated or
  after the end. A stream that was cut short, or is not yet at its end, is a beginning of such a stream.\<close>

theorem stream_is_complete:
  assumes "Proc_Start os cfg st = (Inr pid, st1)" "pt_Table st1 pid = Some w0" "run_reach w0 w"
  shows "\<exists>s c. ox_spawn os (pt_Log st) s = Some c \<and> ch_PID c = pid \<and>
     (\<forall>d. Returned d \<in> set (ru_subs w) \<longrightarrow>
       (\<exists>body. d = start_event pid # body @ [end_event (waitExit (ch_Wait c))] \<and> no_end body \<and>
         (if sc_PTY cfg then kind_data ''pty'' body = concat (ch_Stdout c)
          else kind_data ''stdout'' body = concat (ch_Stdout c) \<and> kind_data ''stderr'' body = concat (ch_Stderr c)))) \<and>
     (\<forall>x \<in> set (ru_subs w). \<exists>rest. start_event pid # run_buf w = delivered x @ rest)"
proof -
  obtain s c cfg' cwd where c: "ox_spawn os (pt_Log st) s = Some c" "ch_PID c = pid" "sc_PTY cfg' = sc_PTY cfg"
    and st1: "st1 = \<lparr>pt_Table = (pt_Table st)(pid \<mapsto> new_run cfg' cwd c), pt_Log = pt_Log st @ [Spawned s pid]\<rparr>"
    using assms(1) by (rule Proc_Start_done)
  have w0: "w0 = new_run cfg' cwd c" using assms(2) st1 by simp
  let ?e = "start_event pid" and ?fin = "end_event (waitExit (ch_Wait c))"
  have ok: "run_ok pid (waitExit (ch_Wait c)) w"
    using run_reach_ok [OF assms(3)] new_run_ok [of c cfg' cwd] c(2) w0 by simp
  have data: "data_ok k (pipe_data k (if sc_PTY cfg then [(''pty'', ch_Stdout c)] else [(''stdout'', ch_Stdout c), (''stderr'', ch_Stderr c)])) w" for k
    using run_reach_data [OF assms(3)] new_run_data [of k cfg' c cwd] c(3) w0 by simp
  have sub: "sub_ok ?e (run_buf w) (run_done w) x" if "x \<in> set (ru_subs w)" for x
    using ok that by (simp add: run_ok_def list_all_iff)
  have "\<exists>body. d = ?e # body @ [?fin] \<and> no_end body \<and>
      (if sc_PTY cfg then kind_data ''pty'' body = concat (ch_Stdout c)
       else kind_data ''stdout'' body = concat (ch_Stdout c) \<and> kind_data ''stderr'' body = concat (ch_Stderr c))"
    if "Returned d \<in> set (ru_subs w)" for d
  proof -
    have d: "run_done w" "d = ?e # run_buf w" using sub [OF that] by simp_all
    then obtain body where b: "run_buf w = body @ [?fin]" "no_end body" "ru_pumps w = []"
      using ok by (auto simp: run_ok_def events_ok_def)
    show ?thesis
      using d b data [of "''pty''"] data [of "''stdout''"] data [of "''stderr''"]
      by (intro exI [of _ body]) (simp add: data_ok_def split: if_splits)
  qed
  moreover have "\<exists>rest. ?e # run_buf w = delivered x @ rest" if "x \<in> set (ru_subs w)" for x
    using sub [OF that] by (cases x) (auto simp: delivered_def intro: take_beginning)
  ultimately show ?thesis using c by blast
qed

text \<open>A command that writes two lines to its standard output and ends with the code 3.\<close>

definition demo_child :: child where
  "demo_child = \<lparr>ch_PID = 7, ch_Stdout = [''one'', ''two''], ch_Stderr = [], ch_Wait = WaitExited 3\<rparr>"

definition demo_proc_os :: proc_os where
  "demo_proc_os = \<lparr>ox_stat = (\<lambda>p. if p = ''/work'' then Some True else None), ox_workDir = ''/work'', ox_environ = [''PATH=/bin'', ''HTTP_PROXY=direct''],
     ox_extra = [''HTTP_PROXY=http://proxy''], ox_wrap = Some, ox_spawn = (\<lambda>_ _. Some demo_child), ox_resize = (\<lambda>_ _. True)\<rparr>"

definition demo_pty_start :: "bool \<Rightarrow> start_config" where
  "demo_pty_start pty = \<lparr>sc_Cmd = ''sh'', sc_Args = [''-c'', ''printf one; printf two; exit 3''], sc_Envs = [], sc_Cwd = [], sc_Tag = [],
     sc_PTY = pty, sc_Rows = 0, sc_Cols = 0\<rparr>"

definition no_procs :: proc_state where "no_procs = \<lparr>pt_Table = (\<lambda>_. None), pt_Log = []\<rparr>"

definition demo_run :: "proc_event list \<Rightarrow> (string \<times> string list) list \<Rightarrow> bool \<Rightarrow> subscriber list \<Rightarrow> proc_run" where
  "demo_run buf pumps fin subs = (new_run (demo_pty_start True) ''/work'' demo_child)
     \<lparr>ru_proc := (ru_proc (new_run (demo_pty_start True) ''/work'' demo_child))\<lparr>mp_Buf := buf, mp_Done := fin, mp_Exit := (if fin then 3 else 0)\<rparr>,
      ru_pumps := pumps, ru_ended := fin, ru_subs := subs\<rparr>"

lemma demo_run_start:
  "fst (Proc_Start demo_proc_os (demo_pty_start True) no_procs) = Inr 7"
  "pt_Table (snd (Proc_Start demo_proc_os (demo_pty_start True) no_procs)) 7 = Some (demo_run [] [(''pty'', [''one'', ''two''])] False [])"
  by (simp_all add: Proc_Start_def Let_def waitExit_def demo_pty_start_def demo_proc_os_def no_procs_def demo_child_def demo_run_def new_run_def)

lemmas demo_run_simps = demo_run_def new_run_def demo_pty_start_def demo_child_def run_buf_def run_done_def run_pid_def read_chunk_def append_and_wake_def
  proc_append_def event_of_def end_event_def start_event_def attach_def waitExit_def Let_def

text \<open>The first line is read, a subscriber attaches, takes it and sleeps; the second line wakes it.\<close>

lemma demo_run_reach:
  defines "o1 \<equiv> event_of ''pty'' ''one''" and "o2 \<equiv> event_of ''pty'' ''two''" and "s0 \<equiv> start_event 7" and "fin \<equiv> end_event 3"
  shows "run_reach (demo_run [] [(''pty'', [''one'', ''two''])] False []) (demo_run [o1, o2, fin] [] True [Returned [s0, o1, o2, fin]])"
proof -
  note ds = demo_run_simps o1_def o2_def s0_def fin_def
  let ?w0 = "demo_run [] [(''pty'', [''one'', ''two''])] False []"
  have step: "run_reach ?w0 u" if "run_reach ?w0 v" "run_step v u'" "u' = u" for v u u'
    using that reach_step by simp
  have 1: "run_reach ?w0 (demo_run [o1] [(''pty'', [''two''])] False [])"
    by (rule step [OF reach_start pump [where ps = "[]" and k = "''pty''" and d = "''one''" and ds = "[''two'']" and qs = "[]"]]) (simp_all add: ds)
  have 2: "run_reach ?w0 (demo_run [o1] [(''pty'', [''two''])] False [Ready 0 [s0]])"
    using reach_attach [OF 1] by (simp add: ds)
  have 3: "run_reach ?w0 (demo_run [o1] [(''pty'', [''two''])] False [Ready 1 [s0, o1]])"
    by (rule step [OF 2 deliver [where i = 0 and c = 0 and d = "[s0]"]]) (simp_all add: ds)
  have 4: "run_reach ?w0 (demo_run [o1] [(''pty'', [''two''])] False [Asleep 1 [s0, o1]])"
    by (rule step [OF 3 cond_wait [where i = 0 and c = 1 and d = "[s0, o1]"]]) (simp_all add: ds)
  have 5: "run_reach ?w0 (demo_run [o1, o2] [(''pty'', [])] False [Ready 1 [s0, o1]])"
    by (rule step [OF 4 pump [where ps = "[]" and k = "''pty''" and d = "''two''" and ds = "[]" and qs = "[]"]]) (simp_all add: ds)
  have 6: "run_reach ?w0 (demo_run [o1, o2] [(''pty'', [])] False [Ready 2 [s0, o1, o2]])"
    by (rule step [OF 5 deliver [where i = 0 and c = 1 and d = "[s0, o1]"]]) (simp_all add: ds)
  have 7: "run_reach ?w0 (demo_run [o1, o2] [] False [Ready 2 [s0, o1, o2]])"
    by (rule step [OF 6 pump_eof [where ps = "[]" and k = "''pty''" and qs = "[]"]]) (simp_all add: ds)
  have 8: "run_reach ?w0 (demo_run [o1, o2, fin] [] True [Ready 2 [s0, o1, o2]])"
    by (rule step [OF 7 exited]) (simp_all add: ds)
  have 9: "run_reach ?w0 (demo_run [o1, o2, fin] [] True [Ready 3 [s0, o1, o2, fin]])"
    by (rule step [OF 8 deliver [where i = 0 and c = 2 and d = "[s0, o1, o2]"]]) (simp_all add: ds)
  show ?thesis
    by (rule step [OF 9 finish [where i = 0 and c = 3 and d = "[s0, o1, o2, fin]"]]) (simp_all add: ds)
qed

theorem stream_is_complete_witness:
  "\<exists>body. [start_event 7, event_of ''pty'' ''one'', event_of ''pty'' ''two'', end_event 3] =
       start_event 7 # body @ [end_event 3] \<and> kind_data ''pty'' body = ''onetwo''"
proof -
  obtain st1 where st1: "Proc_Start demo_proc_os (demo_pty_start True) no_procs = (Inr 7, st1)"
    "pt_Table st1 7 = Some (demo_run [] [(''pty'', [''one'', ''two''])] False [])"
    using demo_run_start by (metis prod.collapse)
  from stream_is_complete [OF st1 demo_run_reach] show ?thesis
    by (auto simp: demo_run_def demo_pty_start_def demo_proc_os_def demo_child_def waitExit_def)
qed

text \<open>Claim C13. From every state of a started process, however many subscribers it has, every run of its goroutines ends, and when
  nothing can go on the pipes are drained, the end is recorded and every subscriber has left: no wake-up is lost. (The pipes
  of the process are taken to be closed at some time; a child that outlives it can keep them open.)\<close>

theorem stream_ends:
  assumes "Proc_Start os cfg st = (Inr pid, st1)" "pt_Table st1 pid = Some w0" "run_reach w0 w"
  shows "\<not> (\<exists>f. f 0 = w \<and> (\<forall>n. run_step (f n) (f (Suc n)))) \<and>
     ((\<forall>v. \<not> run_step w v) \<longrightarrow> run_done w \<and> ru_pumps w = [] \<and> list_all left_stream (ru_subs w))"
proof -
  obtain s c cfg' cwd where "ch_PID c = pid"
    "st1 = \<lparr>pt_Table = (pt_Table st)(pid \<mapsto> new_run cfg' cwd c), pt_Log = pt_Log st @ [Spawned s pid]\<rparr>"
    using assms(1) by (rule Proc_Start_done)
  moreover from this have "w0 = new_run cfg' cwd c" using assms(2) by simp
  ultimately have "run_ok pid (waitExit (ch_Wait c)) w" using run_reach_ok [OF assms(3)] new_run_ok [of c cfg' cwd] by simp
  moreover have "\<not> (\<exists>f. f 0 = w \<and> (\<forall>n. run_step (f n) (f (Suc n))))"
    using run_step_wf unfolding wf_iff_no_infinite_down_chain by auto
  ultimately show ?thesis using run_progress by blast
qed

theorem stream_ends_witness:
  "run_done (demo_run [event_of ''pty'' ''one'', event_of ''pty'' ''two'', end_event 3] [] True
     [Returned [start_event 7, event_of ''pty'' ''one'', event_of ''pty'' ''two'', end_event 3]]) \<and>
   \<not> (\<exists>f. f 0 = demo_run [event_of ''pty'' ''one'', event_of ''pty'' ''two'', end_event 3] [] True
     [Returned [start_event 7, event_of ''pty'' ''one'', event_of ''pty'' ''two'', end_event 3]] \<and> (\<forall>n. run_step (f n) (f (Suc n))))"
proof -
  obtain st1 where st1: "Proc_Start demo_proc_os (demo_pty_start True) no_procs = (Inr 7, st1)"
    "pt_Table st1 7 = Some (demo_run [] [(''pty'', [''one'', ''two''])] False [])"
    using demo_run_start by (metis prod.collapse)
  from stream_ends [OF st1 demo_run_reach] show ?thesis by (simp add: demo_run_def run_done_def)
qed

section \<open>The environment of a child\<close>

text \<open>What \<^verbatim>\<open>getenv\<close> finds: the value of the first entry with the name.\<close>

definition child_env_value :: "string list \<Rightarrow> string \<Rightarrow> string option" where
  "child_env_value env k = (case filter (\<lambda>kv. env_key kv = Some k) env of [] \<Rightarrow> None | kv # _ \<Rightarrow> Some (drop (Suc (length k)) kv))"

lemma child_env_value_append: "child_env_value (xs @ ys) k = (case child_env_value xs k of None \<Rightarrow> child_env_value ys k | Some v \<Rightarrow> Some v)"
  by (auto simp: child_env_value_def split: list.splits)

text \<open>A variable that was given is the given one (its first value), any other is what it was: the base cannot hide it.\<close>

lemma filter_kept:
  "filter (\<lambda>kv. env_key kv = Some k) (filter (\<lambda>kv. (case env_key kv of Some k \<Rightarrow> k | None \<Rightarrow> kv) \<notin> A) base) =
     (if k \<in> A then [] else filter (\<lambda>kv. env_key kv = Some k) base)"
  by (induction base) auto

lemma mergeEnvList_value:
  "child_env_value (mergeEnvList base extra) k = (case child_env_value extra k of None \<Rightarrow> child_env_value base k | Some v \<Rightarrow> Some v)"
proof -
  let ?ov = "set (List.map_filter env_key extra)"
  let ?keep = "\<lambda>kv. (case env_key kv of Some k \<Rightarrow> k | None \<Rightarrow> kv) \<notin> ?ov"
  have ov: "k \<in> ?ov \<longleftrightarrow> child_env_value extra k \<noteq> None"
    by (force simp: child_env_value_def List.map_filter_def filter_empty_conv split: list.splits dest: filter_eq_ConsD)
  have "child_env_value (filter ?keep base) k = (if k \<in> ?ov then None else child_env_value base k)"
    unfolding child_env_value_def filter_kept by simp
  moreover have "child_env_value (filter (\<lambda>kv. env_key kv \<noteq> None) extra) k = child_env_value extra k"
    by (simp add: child_env_value_def filter_filter) (metis (mono_tags, lifting) option.simps(3))
  moreover have "extra = [] \<Longrightarrow> child_env_value extra k = None" by (simp add: child_env_value_def)
  ultimately show ?thesis using ov by (auto simp: mergeEnvList_def Let_def child_env_value_append split: option.splits)
qed

end
