(* ===== verification/Toolbox_Sessions.thy ===== *)
theory Toolbox_Sessions
  imports Toolbox_Procs
begin

text \<open>
  Persistent shell sessions: \<^verbatim>\<open>src/pkg/toolbox/session.go\<close> and
  \<^verbatim>\<open>src/pkg/toolbox/session_manager.go\<close>, with \<^verbatim>\<open>buildCommandWrapper\<close> of
  \<^verbatim>\<open>src/pkg/toolbox/platform_unix.go\<close>. A session is a shell that lives on; a command is written to its standard
  input with redirections around it, and its end is seen by polling a file. What is done outside is a log; what
  the answers are, the clock and the identifiers that are drawn are arguments.

  Shown here: whatever the requests, only directories of sessions below the base are made or removed; what the shell is sent
  and how a command is answered; the idle pass removes the idle sessions and no other; the pruning of commands keeps the
  newest; and what the redirections do to compound commands, and the poll to a file not yet written.
\<close>

section \<open>State\<close>

record session_command =
  sm_ID :: string
  sm_Command :: string
  sm_ExitCode :: "int option"
  sm_LogFile :: string
  sm_ExitFile :: string
  sm_CreatedAt :: gotime

record session =
  ss_ID :: string
  ss_PID :: "32 word"
  ss_Commands :: "string \<Rightarrow> session_command option"
  ss_Dir :: string
  ss_CreatedAt :: gotime
  ss_LastActivity :: gotime
  ss_Closed :: bool

datatype session_effect =
    SeMkdirAll string
  | SeSpawn spawn "32 word"
  | SeStdin "32 word" string
  | SeKill "32 word"
  | SeRemoveAll string

record session_manager =
  sg_sessions :: "string \<Rightarrow> session option"
  sg_baseDir :: string
  sg_log :: "session_effect list"

datatype session_error =
    InvalidSessionId
  | InvalidCmdId
  | SessionExists
  | SessionNotFound
  | SessionClosed
  | CommandNotFound
  | SessionOs
  | WaitReadFailed
  | WaitBadExitCode
  | CommandTimeout

text \<open>\<open>so_env\<close> is the environment, the sandbox and the work directory as for any child; the answers of the
  operating system, and the identifiers that are drawn, depend on what was done before.\<close>

record session_os =
  so_env :: proc_os
  so_uuid :: "session_effect list \<Rightarrow> string"
  so_mkdir :: "session_effect list \<Rightarrow> string \<Rightarrow> bool"
  so_spawn :: "session_effect list \<Rightarrow> spawn \<Rightarrow> 32 word option"
  so_write :: "session_effect list \<Rightarrow> 32 word \<Rightarrow> string \<Rightarrow> bool"

section \<open>Identifiers\<close>

text \<open>\<^verbatim>\<open>validIDRe\<close>.\<close>

definition sid_char :: "char \<Rightarrow> bool" where
  "sid_char c \<longleftrightarrow> c \<in> set ''abcdefghijklmnopqrstuvwxyzABCDEFGHIJKLMNOPQRSTUVWXYZ0123456789_-''"

definition validID :: "string \<Rightarrow> bool" where
  "validID s \<longleftrightarrow> s \<noteq> [] \<and> length s \<le> 128 \<and> list_all sid_char s"

section \<open>The operations\<close>

definition session_log :: "session_effect \<Rightarrow> session_manager \<Rightarrow> session_manager" where
  "session_log e m = m\<lparr>sg_log := sg_log m @ [e]\<rparr>"

definition GenerateSessionId :: "session_os \<Rightarrow> session_effect list \<Rightarrow> string" where
  "GenerateSessionId os l = so_uuid os l"

definition nativeShellSessionArgs :: "string list" where
  "nativeShellSessionArgs = [''-i'']"

definition Session_Create ::
  "session_os \<Rightarrow> gotime \<Rightarrow> string \<Rightarrow> session_manager \<Rightarrow> (session_error + session) \<times> session_manager" where
  "Session_Create os now sid0 m =
     (if sid0 \<noteq> [] \<and> \<not> validID sid0 then (Inl InvalidSessionId, m)
      else let sid = (if sid0 = [] then GenerateSessionId os (sg_log m) else sid0) in
        if sg_sessions m sid \<noteq> None then (Inl SessionExists, m)
        else let dir = sg_baseDir m @ ''/'' @ sid; m1 = session_log (SeMkdirAll dir) m in
          if \<not> so_mkdir os (sg_log m) dir then (Inl SessionOs, m1)
          else case ox_wrap (so_env os) (nativeShell, nativeShellSessionArgs) of
            None \<Rightarrow> (Inl SessionOs, m1)
          | Some (path, args) \<Rightarrow>
              let s = \<lparr>sn_Path = path, sn_Argv = args, sn_Dir = ox_workDir (so_env os), sn_Environ = ChildEnv (so_env os),
                       sn_Window = None\<rparr> in
              (case so_spawn os (sg_log m1) s of
                 None \<Rightarrow> (Inl SessionOs, m1)
               | Some pid \<Rightarrow>
                   let session = \<lparr>ss_ID = sid, ss_PID = pid, ss_Commands = (\<lambda>_. None), ss_Dir = dir, ss_CreatedAt = now,
                                  ss_LastActivity = now, ss_Closed = False\<rparr> in
                   (Inr session, session_log (SeSpawn s pid) (m1\<lparr>sg_sessions := (sg_sessions m1)(sid \<mapsto> session)\<rparr>))))"

definition Session_Get :: "string \<Rightarrow> session_manager \<Rightarrow> session option" where
  "Session_Get sid m = sg_sessions m sid"

definition Session_Delete :: "string \<Rightarrow> session_manager \<Rightarrow> (session_error + unit) \<times> session_manager" where
  "Session_Delete sid m =
     (case sg_sessions m sid of
        None \<Rightarrow> (Inl SessionNotFound, m)
      | Some s \<Rightarrow>
          (Inr (), (session_log (SeRemoveAll (ss_Dir s)) (session_log (SeKill (ss_PID s)) m))
             \<lparr>sg_sessions := (sg_sessions m)(sid := None)\<rparr>))"

text \<open>\<^verbatim>\<open>List\<close>, in the order in which the map is visited.\<close>

definition Session_List :: "string list \<Rightarrow> session_manager \<Rightarrow> session list" where
  "Session_List ord m = List.map_filter (sg_sessions m) ord"

definition ToDTO :: "string list \<Rightarrow> session \<Rightarrow> string \<times> (string \<times> string \<times> int option \<times> gotime) list \<times> gotime" where
  "ToDTO ord s = (ss_ID s, List.map_filter (\<lambda>k. map_option (\<lambda>c. (sm_ID c, sm_Command c, sm_ExitCode c, sm_CreatedAt c))
     (ss_Commands s k)) ord, ss_CreatedAt s)"

text \<open>\<^verbatim>\<open>buildCommandWrapper\<close>.\<close>

definition buildCommandWrapper :: "string \<Rightarrow> string \<Rightarrow> string \<Rightarrow> string" where
  "buildCommandWrapper command logFile exitFile =
     (if Contains command ''>'' then command @ ''; echo $? > '' @ exitFile @ [char_of (10::nat)]
      else command @ '' > '' @ logFile @ '' 2>&1; echo $? > '' @ exitFile @ [char_of (10::nat)])"

text \<open>A poll of the exit file, and with an exit code the reading of the output; the list is that of the polls up to the
  deadline: one each 50 milliseconds for 30 seconds, so 600 at most.\<close>

datatype poll = NotThere | ReadError | ExitFile string "string option"

definition stripBOM :: "string \<Rightarrow> string" where
  "stripBOM b = (if take 3 b = [char_of (239::nat), char_of (187::nat), char_of (191::nat)] then drop 3 b else b)"

fun waitForCommand :: "poll list \<Rightarrow> session_error + (string \<times> int)" where
  "waitForCommand [] = Inl CommandTimeout"
| "waitForCommand (NotThere # ps) = waitForCommand ps"
| "waitForCommand (ReadError # ps) = Inl WaitReadFailed"
| "waitForCommand (ExitFile txt out # ps) =
     (case Atoi (TrimSpace txt) of
        None \<Rightarrow> Inl WaitBadExitCode
      | Some code \<Rightarrow> Inr (case out of Some b \<Rightarrow> stripBOM b | None \<Rightarrow> [], code))"

definition put_command :: "string \<Rightarrow> session_command \<Rightarrow> session \<Rightarrow> session" where
  "put_command cid c s = s\<lparr>ss_Commands := (ss_Commands s)(cid \<mapsto> c)\<rparr>"

text \<open>\<^verbatim>\<open>Execute\<close>: the identifier of the command with its output and its exit code, if it was waited for.\<close>

definition Session_Execute ::
  "session_os \<Rightarrow> gotime \<Rightarrow> poll list \<Rightarrow> string \<Rightarrow> string \<Rightarrow> string \<Rightarrow> bool \<Rightarrow> session_manager \<Rightarrow>
   (session_error + (string \<times> (string \<times> int) option)) \<times> session_manager" where
  "Session_Execute os now ps sid cid0 command async m =
     (if \<not> validID sid then (Inl InvalidSessionId, m)
      else case Session_Get sid m of
        None \<Rightarrow> (Inl SessionNotFound, m)
      | Some s \<Rightarrow>
          if ss_Closed s then (Inl SessionClosed, m)
          else if cid0 \<noteq> [] \<and> \<not> validID cid0 then (Inl InvalidCmdId, m)
          else
            let cid = (if cid0 = [] then so_uuid os (sg_log m) else cid0);
                cmdDir = filepath_Join [ss_Dir s, cid];
                m1 = session_log (SeMkdirAll cmdDir) m in
            if \<not> so_mkdir os (sg_log m) cmdDir then (Inl SessionOs, m1)
            else
              let c = \<lparr>sm_ID = cid, sm_Command = command, sm_ExitCode = None, sm_LogFile = filepath_Join [cmdDir, ''output.log''],
                       sm_ExitFile = filepath_Join [cmdDir, ''exit_code''], sm_CreatedAt = now\<rparr>;
                  s1 = (put_command cid c s)\<lparr>ss_LastActivity := now\<rparr>;
                  txt = buildCommandWrapper command (sm_LogFile c) (sm_ExitFile c) @ [char_of (10::nat)];
                  m2 = session_log (SeStdin (ss_PID s) txt) (m1\<lparr>sg_sessions := (sg_sessions m1)(sid \<mapsto> s1)\<rparr>) in
              if \<not> so_write os (sg_log m1) (ss_PID s) txt then (Inl SessionOs, m2)
              else if async then (Inr (cid, None), m2)
              else (case waitForCommand ps of
                  Inl e \<Rightarrow> (Inl e, m2)
                | Inr (out, code) \<Rightarrow>
                    (Inr (cid, Some (out, code)),
                     m2\<lparr>sg_sessions := (sg_sessions m2)(sid \<mapsto> put_command cid (c\<lparr>sm_ExitCode := Some code\<rparr>) s1)\<rparr>)))"

definition GetCommand :: "string \<Rightarrow> string \<Rightarrow> session_manager \<Rightarrow> session_error + session_command" where
  "GetCommand sid cid m =
     (case Session_Get sid m of
        None \<Rightarrow> Inl SessionNotFound
      | Some s \<Rightarrow> (case ss_Commands s cid of None \<Rightarrow> Inl CommandNotFound | Some c \<Rightarrow> Inr c))"

text \<open>\<open>file\<close> tells what reading a file gives.\<close>

definition GetCommandOutput :: "(string \<Rightarrow> string option) \<Rightarrow> string \<Rightarrow> string \<Rightarrow> session_manager \<Rightarrow> session_error + string" where
  "GetCommandOutput read sid cid m =
     (case GetCommand sid cid m of
        Inl e \<Rightarrow> Inl e
      | Inr c \<Rightarrow> (case read (sm_LogFile c) of None \<Rightarrow> Inl SessionOs | Some b \<Rightarrow> Inr b))"

definition ListCommands :: "string list \<Rightarrow> string \<Rightarrow> session_manager \<Rightarrow> session_error + session_command list" where
  "ListCommands ord sid m =
     (case Session_Get sid m of None \<Rightarrow> Inl SessionNotFound | Some s \<Rightarrow> Inr (List.map_filter (ss_Commands s) ord))"

definition WriteToStdin :: "session_os \<Rightarrow> string \<Rightarrow> string \<Rightarrow> session_manager \<Rightarrow> (session_error + unit) \<times> session_manager" where
  "WriteToStdin os sid data m =
     (case Session_Get sid m of
        None \<Rightarrow> (Inl SessionNotFound, m)
      | Some s \<Rightarrow>
          if ss_Closed s then (Inl SessionClosed, m)
          else (if so_write os (sg_log m) (ss_PID s) data then Inr () else Inl SessionOs, session_log (SeStdin (ss_PID s) data) m))"

definition IsClosed :: "string \<Rightarrow> session_manager \<Rightarrow> bool" where
  "IsClosed sid m = (case Session_Get sid m of None \<Rightarrow> True | Some s \<Rightarrow> ss_Closed s)"

definition GetSessionDir :: "string \<Rightarrow> session_manager \<Rightarrow> string" where
  "GetSessionDir sid m = (case Session_Get sid m of None \<Rightarrow> [] | Some s \<Rightarrow> ss_Dir s)"

section \<open>The idle pass\<close>

definition cleanup_one :: "gotime \<Rightarrow> gotime \<Rightarrow> string \<Rightarrow> session_manager \<Rightarrow> session_manager" where
  "cleanup_one maxAge now sid m =
     (case sg_sessions m sid of
        None \<Rightarrow> m
      | Some s \<Rightarrow>
          if now - ss_LastActivity s > maxAge
          then (session_log (SeRemoveAll (ss_Dir s)) (session_log (SeKill (ss_PID s)) m))\<lparr>sg_sessions := (sg_sessions m)(sid := None)\<rparr>
          else m)"

text \<open>\<^verbatim>\<open>Cleanup\<close>, visiting the map in the order \<open>ord\<close>.\<close>

definition Session_Cleanup :: "gotime \<Rightarrow> gotime \<Rightarrow> string list \<Rightarrow> session_manager \<Rightarrow> session_manager" where
  "Session_Cleanup maxAge now ord m = fold (cleanup_one maxAge now) ord m"

section \<open>The pruning of commands\<close>

fun oldest_idx :: "(string \<times> gotime) list \<Rightarrow> nat \<Rightarrow> nat \<Rightarrow> nat \<Rightarrow> nat" where
  "oldest_idx ts 0 j i = i"
| "oldest_idx ts (Suc n) j i = oldest_idx ts n (Suc j) (if snd (ts ! j) < snd (ts ! i) then j else i)"

definition prune_one :: "(string \<times> gotime) list \<times> session \<times> session_effect list \<Rightarrow> (string \<times> gotime) list \<times> session \<times> session_effect list" where
  "prune_one st = (case st of (ts, s, es) \<Rightarrow>
     let i = oldest_idx ts (length ts - 1) 1 0; cid = fst (ts ! i); rest = take i ts @ drop (Suc i) ts in
     (case ss_Commands s cid of
        None \<Rightarrow> (rest, s, es)
      | Some c \<Rightarrow> (rest, s\<lparr>ss_Commands := (ss_Commands s)(cid := None)\<rparr>, es @ [SeRemoveAll (Dir (sm_LogFile c))])))"

text \<open>\<^verbatim>\<open>CleanupCommands\<close>; \<open>ord\<close> has the commands in the order in which the map is visited. A negative
  \<^verbatim>\<open>maxCount\<close> makes Go index an empty slice, so it is a natural number here.\<close>

definition CleanupCommands :: "string list \<Rightarrow> string \<Rightarrow> nat \<Rightarrow> session_manager \<Rightarrow> (session_error + unit) \<times> session_manager" where
  "CleanupCommands ord sid maxCount m =
     (case Session_Get sid m of
        None \<Rightarrow> (Inl SessionNotFound, m)
      | Some s \<Rightarrow>
          let times = List.map_filter (\<lambda>k. map_option (\<lambda>c. (k, sm_CreatedAt c)) (ss_Commands s k)) ord in
          if length times \<le> maxCount then (Inr (), m)
          else (case (prune_one ^^ (length times - maxCount)) (times, s, []) of
              (_, s1, es) \<Rightarrow> (Inr (), m\<lparr>sg_sessions := (sg_sessions m)(sid \<mapsto> s1), sg_log := sg_log m @ es\<rparr>)))"

section \<open>The command gate and the routes\<close>

text \<open>\<^verbatim>\<open>gateExec\<close>: whether the command may run, with the answer that was written if not.\<close>

definition gateExec :: "executor \<Rightarrow> string \<Rightarrow> gate \<Rightarrow> bool \<times> gate" where
  "gateExec ex command g =
     (case ex_manager ex of
        None \<Rightarrow> (True, g)
      | Some _ \<Rightarrow> (case CheckExec (ex_env ex) command g of (dec, g1) \<Rightarrow> (ed_Action dec \<noteq> ActionDeny, g1)))"

definition auditExec :: "executor \<Rightarrow> string \<Rightarrow> gate \<Rightarrow> gate" where
  "auditExec ex command g = (case ex_manager ex of None \<Rightarrow> g | Some _ \<Rightarrow> AuditExecOnly (ex_env ex) command g)"

text \<open>A body is what decoding it gives: its fields, or nothing if it is not valid.\<close>

record session_request =
  sq_Method :: string
  sq_Path :: string
  sq_Create :: "string option"
  sq_Exec :: "(string \<times> string \<times> bool) option"

datatype session_answer =
    SaStatus int
  | SaSession int session
  | SaList "session list"
  | SaAccepted string
  | SaDone string string int
  | SaCommand session_command string

record session_world =
  sw_gate :: gate
  sw_manager :: session_manager

definition sessionCreateHandler :: "session_os \<Rightarrow> gotime \<Rightarrow> session_request \<Rightarrow> session_world \<Rightarrow> session_answer \<times> session_world" where
  "sessionCreateHandler os now r w =
     (case Session_Create os now (case sq_Create r of None \<Rightarrow> [] | Some sid \<Rightarrow> sid) (sw_manager w) of
        (Inl e, m) \<Rightarrow> (SaStatus 500, w\<lparr>sw_manager := m\<rparr>)
      | (Inr s, m) \<Rightarrow> (SaSession 201 s, w\<lparr>sw_manager := m\<rparr>))"

definition sessionDeleteHandler :: "string \<Rightarrow> session_world \<Rightarrow> session_answer \<times> session_world" where
  "sessionDeleteHandler sid w =
     (case Session_Delete sid (sw_manager w) of
        (Inl e, m) \<Rightarrow> (SaStatus (if e = SessionNotFound then 404 else 500), w\<lparr>sw_manager := m\<rparr>)
      | (Inr _, m) \<Rightarrow> (SaStatus 204, w\<lparr>sw_manager := m\<rparr>))"

definition sessionGetHandler :: "string \<Rightarrow> session_world \<Rightarrow> session_answer" where
  "sessionGetHandler sid w = (case Session_Get sid (sw_manager w) of None \<Rightarrow> SaStatus 404 | Some s \<Rightarrow> SaSession 200 s)"

definition sessionExecHandler ::
  "executor \<Rightarrow> session_os \<Rightarrow> gotime \<Rightarrow> poll list \<Rightarrow> string \<Rightarrow> session_request \<Rightarrow> session_world \<Rightarrow> session_answer \<times> session_world" where
  "sessionExecHandler ex os now ps sid0 r w =
     (case sq_Exec r of
        None \<Rightarrow> (SaStatus 400, w)
      | Some (bodySid, command, async) \<Rightarrow>
          if command = [] then (SaStatus 400, w)
          else let sid = (if bodySid \<noteq> [] then bodySid else sid0) in
            case gateExec ex command (sw_gate w) of
              (False, g) \<Rightarrow> (SaStatus 403, w\<lparr>sw_gate := g\<rparr>)
            | (True, g) \<Rightarrow>
                (case Session_Execute os now ps sid [] command async (sw_manager w) of
                   (Inl e, m) \<Rightarrow> (SaStatus 500, \<lparr>sw_gate = g, sw_manager = m\<rparr>)
                 | (Inr (cid, None), m) \<Rightarrow> (SaAccepted cid, \<lparr>sw_gate = g, sw_manager = m\<rparr>)
                 | (Inr (cid, Some (out, code)), m) \<Rightarrow> (SaDone cid out code, \<lparr>sw_gate = g, sw_manager = m\<rparr>)))"

definition sessionCommandHandler :: "(string \<Rightarrow> string option) \<Rightarrow> string \<Rightarrow> string \<Rightarrow> session_world \<Rightarrow> session_answer" where
  "sessionCommandHandler read sid cid w =
     (case GetCommand sid cid (sw_manager w) of
        Inl e \<Rightarrow> SaStatus (if e = SessionNotFound then 404 else 500)
      | Inr c \<Rightarrow> (case GetCommandOutput read sid cid (sw_manager w) of Inl e \<Rightarrow> SaStatus 500 | Inr out \<Rightarrow> SaCommand c out))"

text \<open>The identifiers in a path: of a command, of a session, and of a session to run a command in.\<close>

definition command_ids :: "string \<Rightarrow> (string \<times> string) option" where
  "command_ids rest = (case Cut rest CHR ''/'' of (sid, r1, f1) \<Rightarrow> case Cut r1 CHR ''/'' of (word, cid, f2) \<Rightarrow>
     if f1 \<and> f2 \<and> word = ''command'' then Some (sid, cid) else None)"

definition CutSuffix :: "string \<Rightarrow> string \<Rightarrow> string option" where
  "CutSuffix s suf = (if HasSuffix s suf then Some (take (length s - length suf) s) else None)"

text \<open>\<^verbatim>\<open>sessionHandler\<close>. The two forms of a path with a session, plain and below the name of a sandbox, both mean the last part.\<close>

definition sessionHandler ::
  "executor \<Rightarrow> session_os \<Rightarrow> (string \<Rightarrow> string option) \<Rightarrow> string list \<Rightarrow> gotime \<Rightarrow> poll list \<Rightarrow> session_request \<Rightarrow> session_world \<Rightarrow>
   session_answer \<times> session_world" where
  "sessionHandler ex os read ord now ps r w =
     (let path = sq_Path r; root = path = ''/process/session'' \<or> path = ''/process/session/'';
          below = HasPrefix path ''/process/session/''; rest = TrimPrefix path ''/process/session/'';
          id = last (Split rest CHR ''/'') in
      if sq_Method r = ''POST'' \<and> root then sessionCreateHandler os now r w
      else if sq_Method r = ''GET'' \<and> root then (SaList (Session_List ord (sw_manager w)), w)
      else if sq_Method r = ''DELETE'' \<and> below \<and> CHR ''/'' \<notin> set rest then sessionDeleteHandler rest w
      else if sq_Method r = ''GET'' \<and> below then
        (case command_ids rest of
           Some (sid, cid) \<Rightarrow> (sessionCommandHandler read sid cid w, w)
         | None \<Rightarrow> if CHR ''/'' \<in> set rest \<and> id = [] then (SaStatus 404, w) else (sessionGetHandler id w, w))
      else if sq_Method r = ''POST'' \<and> below then
        (case CutSuffix rest ''/exec'' of
           None \<Rightarrow> (SaStatus 404, w)
         | Some inner \<Rightarrow>
             let sid = last (Split inner CHR ''/'') in
             if sid = [] then (SaStatus 400, w) else sessionExecHandler ex os now ps sid r w)
      else (SaStatus 404, w))"

section \<open>Below the base directory\<close>

lemma sid_char_plain: "sid_char c \<Longrightarrow> c \<noteq> sep \<and> c \<noteq> CHR ''.''"
proof -
  have "\<not> sid_char sep" "\<not> sid_char CHR ''.''" by (simp_all add: sid_char_def)
  then show "sid_char c \<Longrightarrow> c \<noteq> sep \<and> c \<noteq> CHR ''.''" by metis
qed

lemma validID_name: assumes "validID s" shows "name_seg s"
proof -
  have plain: "c \<noteq> sep \<and> c \<noteq> CHR ''.''" if "c \<in> set s" for c
    using assms that sid_char_plain by (simp add: validID_def list_all_iff)
  have "sep \<notin> set s" "CHR ''.'' \<notin> set s" using plain by blast+
  then have "sep \<notin> set s" "s \<noteq> ''.''" "s \<noteq> ''..''" by auto
  then show ?thesis using assms by (simp add: validID_def name_seg_def good_seg_def)
qed

text \<open>A directory of a session or of a command.\<close>

definition sessions_dir :: "string list \<Rightarrow> string \<Rightarrow> bool" where
  "sessions_dir bs p \<longleftrightarrow> (\<exists>sid. validID sid \<and> (p = abs_path (bs @ [sid]) \<or> (\<exists>cid. validID cid \<and> p = abs_path (bs @ [sid, cid]))))"

fun effect_inside :: "string list \<Rightarrow> session_effect \<Rightarrow> bool" where
  "effect_inside bs (SeMkdirAll p) \<longleftrightarrow> sessions_dir bs p"
| "effect_inside bs (SeRemoveAll p) \<longleftrightarrow> sessions_dir bs p"
| "effect_inside bs _ \<longleftrightarrow> True"

definition sessions_ok :: "string list \<Rightarrow> session_manager \<Rightarrow> bool" where
  "sessions_ok bs m \<longleftrightarrow> sg_baseDir m = abs_path bs \<and>
     (\<forall>sid s. sg_sessions m sid = Some s \<longrightarrow> validID sid \<and> ss_Dir s = abs_path (bs @ [sid])) \<and>
     list_all (effect_inside bs) (sg_log m)"

lemma abs_path_child: "name_segs bs \<Longrightarrow> bs \<noteq> [] \<Longrightarrow> abs_path bs @ ''/'' @ sid = abs_path (bs @ [sid])"
  by (simp add: abs_path_def Join_snoc)

lemma sessions_ok_log: "sessions_ok bs m \<Longrightarrow> effect_inside bs e \<Longrightarrow> sessions_ok bs (session_log e m)"
  by (simp add: sessions_ok_def session_log_def)

lemma sessions_ok_put:
  "sessions_ok bs m \<Longrightarrow> validID sid \<Longrightarrow> ss_Dir s = abs_path (bs @ [sid]) \<Longrightarrow> sessions_ok bs (m\<lparr>sg_sessions := (sg_sessions m)(sid \<mapsto> s)\<rparr>)"
  by (simp add: sessions_ok_def)

lemma sessions_ok_del: "sessions_ok bs m \<Longrightarrow> sessions_ok bs (m\<lparr>sg_sessions := (sg_sessions m)(sid := None)\<rparr>)"
  by (simp add: sessions_ok_def)

lemma sessions_ok_path: "sessions_ok bs m \<Longrightarrow> sg_sessions m sid = Some s \<Longrightarrow> sessions_dir bs (ss_Dir s)"
  by (auto simp: sessions_ok_def sessions_dir_def)

lemma session_log_fields [simp]:
  "sg_sessions (session_log e m) = sg_sessions m" "sg_baseDir (session_log e m) = sg_baseDir m"
  by (simp_all add: session_log_def)

lemma Session_Create_ok:
  assumes "sessions_ok bs m" "name_segs bs" "bs \<noteq> []" "\<And>l. validID (so_uuid os l)"
  shows "sessions_ok bs (snd (Session_Create os now sid0 m))"
proof (cases "sid0 \<noteq> [] \<and> \<not> validID sid0")
  case False
  define sid where "sid = (if sid0 = [] then GenerateSessionId os (sg_log m) else sid0)"
  have sid: "validID sid" using False assms(4) by (auto simp: sid_def GenerateSessionId_def)
  have dir: "sg_baseDir m @ ''/'' @ sid = abs_path (bs @ [sid])"
    using assms(1-3) by (simp add: sessions_ok_def abs_path_child del: append.simps)
  let ?m1 = "session_log (SeMkdirAll (abs_path (bs @ [sid]))) m"
  have m1: "sessions_ok bs ?m1" using assms(1) sid by (intro sessions_ok_log) (auto simp: sessions_dir_def)
  have fresh: "sessions_ok bs (session_log (SeSpawn sp pid) (?m1\<lparr>sg_sessions := (sg_sessions m)(sid \<mapsto> s)\<rparr>))"
    if "ss_Dir s = abs_path (bs @ [sid])" for sp pid s
    using sessions_ok_put [OF m1 sid that] by (intro sessions_ok_log) simp_all
  show ?thesis
    using False assms(1) m1 fresh unfolding Session_Create_def Let_def sid_def [symmetric] dir
    by (simp split: option.split prod.split)
qed (use assms(1) in \<open>simp add: Session_Create_def\<close>)

lemma Session_Execute_ok:
  assumes "sessions_ok bs m" "name_segs bs" "\<And>l. validID (so_uuid os l)"
  shows "sessions_ok bs (snd (Session_Execute os now ps sid cid0 command async m))"
proof (cases "\<exists>s. validID sid \<and> Session_Get sid m = Some s \<and> \<not> ss_Closed s \<and> \<not> (cid0 \<noteq> [] \<and> \<not> validID cid0)")
  case False
  then show ?thesis using assms(1) by (auto simp: Session_Execute_def split: option.split)
next
  case True
  then obtain s where s: "validID sid" "sg_sessions m sid = Some s" "\<not> ss_Closed s" "\<not> (cid0 \<noteq> [] \<and> \<not> validID cid0)"
    by (auto simp: Session_Get_def)
  define cid where "cid = (if cid0 = [] then so_uuid os (sg_log m) else cid0)"
  have cid: "validID cid" using s(4) assms(3) by (auto simp: cid_def)
  have dir: "ss_Dir s = abs_path (bs @ [sid])" using assms(1) s(2) by (simp add: sessions_ok_def)
  then have cdir: "filepath_Join [ss_Dir s, cid] = abs_path (bs @ [sid, cid])"
    using filepath_Join_abs_path [of "bs @ [sid]" cid] assms(2) validID_name [OF s(1)] validID_name [OF cid] by auto
  let ?m1 = "session_log (SeMkdirAll (abs_path (bs @ [sid, cid]))) m"
  have m1: "sessions_ok bs ?m1" using assms(1) s(1) cid by (intro sessions_ok_log) (auto simp: sessions_dir_def)
  have written: "sessions_ok bs (session_log (SeStdin p t) (?m1\<lparr>sg_sessions := (sg_sessions m)(sid \<mapsto> x)\<rparr>))"
    if "ss_Dir x = ss_Dir s" for x p t
    using sessions_ok_put [OF m1 s(1), of x] that dir by (intro sessions_ok_log) simp_all
  have waited: "sessions_ok bs ((session_log (SeStdin p t) (?m1\<lparr>sg_sessions := (sg_sessions m)(sid \<mapsto> x)\<rparr>))\<lparr>sg_sessions := (sg_sessions m)(sid \<mapsto> y)\<rparr>)"
    if "ss_Dir x = ss_Dir s" "ss_Dir y = ss_Dir s" for x y p t
    using sessions_ok_put [OF written [OF that(1), of p t] s(1), of y] that(2) dir by simp
  show ?thesis
    using s assms(1) m1 written waited unfolding Session_Execute_def Let_def cid_def [symmetric] cdir Session_Get_def
    by (simp add: cdir put_command_def split: sum.split)
qed

text \<open>A session that is given up: its shell is killed, its directory removed, its entry deleted.\<close>

lemma sessions_ok_gone:
  assumes "sessions_ok bs m" "sg_sessions m sid = Some s"
  shows "sessions_ok bs ((session_log (SeRemoveAll (ss_Dir s)) (session_log (SeKill p) m))\<lparr>sg_sessions := (sg_sessions m)(sid := None)\<rparr>)"
proof -
  have "sessions_ok bs (session_log (SeRemoveAll (ss_Dir s)) (session_log (SeKill p) m))"
    using assms sessions_ok_path [OF assms] by (intro sessions_ok_log) simp_all
  from sessions_ok_del [OF this, of sid] show ?thesis by simp
qed

lemma Session_Delete_ok: "sessions_ok bs m \<Longrightarrow> sessions_ok bs (snd (Session_Delete sid m))"
  by (simp add: Session_Delete_def sessions_ok_gone split: option.split)

lemma cleanup_one_ok: "sessions_ok bs m \<Longrightarrow> sessions_ok bs (cleanup_one maxAge now sid m)"
  by (simp add: cleanup_one_def sessions_ok_gone split: option.split)

lemma Session_Cleanup_ok: "sessions_ok bs m \<Longrightarrow> sessions_ok bs (Session_Cleanup maxAge now ord m)"
  unfolding Session_Cleanup_def by (induction ord arbitrary: m) (simp_all add: cleanup_one_ok)

lemma sessionHandler_ok:
  assumes "sessions_ok bs (sw_manager w)" "name_segs bs" "bs \<noteq> []" "\<And>l. validID (so_uuid os l)"
  shows "sessions_ok bs (sw_manager (snd (sessionHandler ex os read ord now ps r w)))"
proof -
  have "sessions_ok bs (sw_manager (snd (sessionCreateHandler os now r w)))"
    using Session_Create_ok [OF assms] by (auto simp: sessionCreateHandler_def split: sum.split prod.split) (metis snd_conv)+
  moreover have "sessions_ok bs (sw_manager (snd (sessionDeleteHandler sid w)))" for sid
    using Session_Delete_ok [OF assms(1)] by (auto simp: sessionDeleteHandler_def split: sum.split prod.split) (metis snd_conv)+
  moreover have "sessions_ok bs (sw_manager (snd (sessionExecHandler ex os now ps sid r w)))" for sid
    using assms(1) Session_Execute_ok [OF assms(1,2,4)]
    by (auto simp: sessionExecHandler_def Let_def split: sum.split prod.split option.split bool.split) (metis snd_conv)+
  ultimately show ?thesis
    using assms(1) unfolding sessionHandler_def Let_def by (simp split: option.split prod.split)
qed

text \<open>A service of the session routes over time: requests with their answers outside and idle passes.\<close>

datatype session_event =
    Served session_request "string list" gotime "poll list"
  | IdlePass gotime gotime "string list"

fun session_run :: "executor \<Rightarrow> session_os \<Rightarrow> (string \<Rightarrow> string option) \<Rightarrow> session_event list \<Rightarrow> session_world \<Rightarrow> session_world" where
  "session_run ex os read [] w = w"
| "session_run ex os read (Served r ord now ps # es) w = session_run ex os read es (snd (sessionHandler ex os read ord now ps r w))"
| "session_run ex os read (IdlePass maxAge now ord # es) w =
     session_run ex os read es (w\<lparr>sw_manager := Session_Cleanup maxAge now ord (sw_manager w)\<rparr>)"

lemma session_run_ok:
  "sessions_ok bs (sw_manager w) \<Longrightarrow> name_segs bs \<Longrightarrow> bs \<noteq> [] \<Longrightarrow> (\<And>l. validID (so_uuid os l)) \<Longrightarrow>
   sessions_ok bs (sw_manager (session_run ex os read es w))"
proof (induction es arbitrary: w)
  case (Cons e es)
  then show ?case by (cases e) (simp_all add: sessionHandler_ok Session_Cleanup_ok)
qed simp

text \<open>Claim C14. However the session routes are called, and whenever the idle pass runs, the directories that are made or removed are those of a
  session or of a command of one, below the base directory: no name that a request brings leads out of it, or to
  the base itself. (Identifiers that are drawn are taken to be well-formed, as UUIDs are.)\<close>

theorem sessions_stay_below:
  assumes "sg_baseDir (sw_manager w) = abs_path bs" "name_segs bs" "bs \<noteq> []" "sg_sessions (sw_manager w) = (\<lambda>_. None)" "sg_log (sw_manager w) = []"
    "\<And>l. validID (so_uuid os l)"
  shows "list_all (effect_inside bs) (sg_log (sw_manager (session_run ex os read es w)))"
  using session_run_ok [of bs w os ex read es] assms by (simp add: sessions_ok_def)

definition demo_session_os :: session_os where
  "demo_session_os = \<lparr>so_env = demo_proc_os, so_uuid = (\<lambda>l. ''3fa8-11''), so_mkdir = (\<lambda>_ _. True), so_spawn = (\<lambda>_ _. Some 9),
     so_write = (\<lambda>_ _ _. True)\<rparr>"

definition demo_sessions :: session_world where
  "demo_sessions = \<lparr>sw_gate = \<lparr>g_store = demo_store, g_audit = []\<rparr>,
     sw_manager = \<lparr>sg_sessions = (\<lambda>_. None), sg_baseDir = ''/tmp/sandrpod-sessions'', sg_log = []\<rparr>\<rparr>"

definition demo_session_request :: "string \<Rightarrow> string \<Rightarrow> (string \<times> string \<times> bool) option \<Rightarrow> session_request" where
  "demo_session_request meth path body = \<lparr>sq_Method = meth, sq_Path = path, sq_Create = None, sq_Exec = body\<rparr>"

definition demo_session_events :: "session_event list" where
  "demo_session_events =
     [Served (demo_session_request ''POST'' ''/process/session'' None) [] 1 [],
      Served (demo_session_request ''POST'' ''/process/session/box/3fa8-11/exec'' (Some ([], ''make'', False))) [] 2
        [NotThere, ExitFile (''0'' @ [char_of (10::nat)]) (Some ''done'')],
      IdlePass 1800 4000 [''3fa8-11'']]"

theorem sessions_stay_below_witness:
  "list_all (effect_inside [''tmp'', ''sandrpod-sessions''])
     (sg_log (sw_manager (session_run (demo_executor\<lparr>ex_manager := None\<rparr>) demo_session_os (\<lambda>_. None) demo_session_events demo_sessions))) \<and>
   length (sg_log (sw_manager (session_run (demo_executor\<lparr>ex_manager := None\<rparr>) demo_session_os (\<lambda>_. None) demo_session_events demo_sessions))) = 6"
proof (rule conjI)
  have names: "\<forall>w \<in> set [''tmp'', ''sandrpod-sessions'']. name_seg w"
    by (simp add: name_seg_def good_seg_def)
  have ids: "validID (so_uuid demo_session_os l)" for l
    by (simp add: demo_session_os_def validID_def sid_char_def)
  show "list_all (effect_inside [''tmp'', ''sandrpod-sessions''])
     (sg_log (sw_manager (session_run (demo_executor\<lparr>ex_manager := None\<rparr>) demo_session_os (\<lambda>_. None) demo_session_events demo_sessions)))"
    by (rule sessions_stay_below [OF _ names _ _ _ ids]) (simp_all add: demo_sessions_def abs_path_def)
  show "length (sg_log (sw_manager (session_run (demo_executor\<lparr>ex_manager := None\<rparr>) demo_session_os (\<lambda>_. None) demo_session_events demo_sessions))) = 6"
    by code_simp
qed

section \<open>What a session does\<close>

text \<open>The idle pass takes exactly the sessions that were idle for longer than \<open>maxAge\<close>.\<close>

lemma cleanup_one_sessions:
  "sg_sessions (cleanup_one maxAge now k m) sid =
     (if k = sid then case sg_sessions m sid of None \<Rightarrow> None | Some s \<Rightarrow> if now - ss_LastActivity s > maxAge then None else Some s
      else sg_sessions m sid)"
  by (auto simp: cleanup_one_def split: option.split)

lemma Session_Cleanup_exact:
  "sg_sessions (Session_Cleanup maxAge now ord m) sid =
     (case sg_sessions m sid of None \<Rightarrow> None
      | Some s \<Rightarrow> if sid \<in> set ord \<and> now - ss_LastActivity s > maxAge then None else Some s)"
  unfolding Session_Cleanup_def
  by (induction ord arbitrary: m) (auto simp: cleanup_one_sessions split: option.splits)

text \<open>A command that ends within the time is answered with its output and its exit code.\<close>

lemma waitForCommand_skips: "waitForCommand (replicate n NotThere @ ps) = waitForCommand ps"
  by (induction n) simp_all

lemma Session_Execute_answers:
  assumes "validID sid" "sg_sessions m sid = Some s" "\<not> ss_Closed s" "\<And>l d. so_mkdir os l d" "\<And>l p t. so_write os l p t"
    and "Atoi (TrimSpace txt) = Some code"
  shows "fst (Session_Execute os now (replicate n NotThere @ ExitFile txt (Some out) # ps) sid [] command False m) =
     Inr (so_uuid os (sg_log m), Some (stripBOM out, code))"
  using assms by (simp add: Session_Execute_def Session_Get_def Let_def waitForCommand_skips)

text \<open>The shell opens the exit file before it writes it: a poll between the two ends the wait with an error, although the
  command may have succeeded and the next poll would tell.\<close>

lemma empty_exit_file_fails:
  "waitForCommand (replicate n NotThere @ ExitFile [] out # ps) = Inl WaitBadExitCode"
  by (simp add: waitForCommand_skips TrimSpace_def Atoi_def)

text \<open>A command that was not waited for never gets an exit code: only the wait writes it, and asking for the command reads the record.\<close>

lemma async_has_no_exit_code:
  assumes "Session_Execute os now ps sid cid0 command True m = (Inr (cid, res), m')"
  shows "res = None \<and> (\<exists>c. GetCommand sid cid m' = Inr c \<and> sm_Command c = command \<and> sm_ExitCode c = None)"
  using assms by (auto simp: Session_Execute_def Let_def GetCommand_def Session_Get_def put_command_def split: option.splits if_splits)

text \<open>The redirection binds to the last command of a list only: what the ones before it write is not in the output.\<close>

lemma compound_output_is_lost:
  assumes "\<not> Contains (c1 @ ''; '' @ c2) ''>''"
  shows "buildCommandWrapper (c1 @ ''; '' @ c2) logFile exitFile =
     c1 @ ''; '' @ c2 @ '' > '' @ logFile @ '' 2>&1; echo $? > '' @ exitFile @ [char_of (10::nat)]"
  using assms by (simp add: buildCommandWrapper_def)

text \<open>A command on the deny list reaches no session.\<close>

lemma denied_command_not_sent:
  assumes "sq_Exec r = Some (body, command, async)" "\<not> fst (gateExec ex command (sw_gate w))"
  shows "fst (sessionExecHandler ex os now ps sid r w) \<in> {SaStatus 400, SaStatus 403} \<and>
     sw_manager (snd (sessionExecHandler ex os now ps sid r w)) = sw_manager w"
  using assms by (auto simp: sessionExecHandler_def Let_def split: prod.split bool.split)

section \<open>Pruning keeps the newest\<close>

lemma oldest_idx_least:
  "i < j \<Longrightarrow> (oldest_idx ts n j i = i \<or> j \<le> oldest_idx ts n j i \<and> oldest_idx ts n j i < j + n) \<and>
     snd (ts ! oldest_idx ts n j i) \<le> snd (ts ! i) \<and> (\<forall>k. j \<le> k \<and> k < j + n \<longrightarrow> snd (ts ! oldest_idx ts n j i) \<le> snd (ts ! k))"
proof (induction n arbitrary: i j)
  case (Suc n)
  let ?i = "if snd (ts ! j) < snd (ts ! i) then j else i"
  have "?i < Suc j" using Suc.prems by simp
  note IH = Suc.IH [OF this]
  have step: "oldest_idx ts (Suc n) j i = oldest_idx ts n (Suc j) ?i" by simp
  have least: "snd (ts ! oldest_idx ts n (Suc j) ?i) \<le> snd (ts ! i)" "snd (ts ! oldest_idx ts n (Suc j) ?i) \<le> snd (ts ! j)"
    using IH by (auto split: if_splits)
  moreover have "snd (ts ! oldest_idx ts n (Suc j) ?i) \<le> snd (ts ! k)" if "j \<le> k" "k < j + Suc n" for k
    using IH least(2) that by (cases "k = j") auto
  ultimately show ?case unfolding step using IH by auto
qed simp

lemma oldest_is_least:
  assumes "ts \<noteq> []"
  defines "r \<equiv> oldest_idx ts (length ts - 1) 1 0"
  shows "r < length ts \<and> (\<forall>q \<in> set ts. snd (ts ! r) \<le> snd q)"
proof -
  have len: "1 + (length ts - 1) = length ts" using assms(1) by (cases ts) simp_all
  have sp: "(r = 0 \<or> 1 \<le> r \<and> r < length ts) \<and> snd (ts ! r) \<le> snd (ts ! 0) \<and>
      (\<forall>k. 1 \<le> k \<and> k < length ts \<longrightarrow> snd (ts ! r) \<le> snd (ts ! k))"
    using oldest_idx_least [of 0 1 ts "length ts - 1"] unfolding len r_def by simp
  have "snd (ts ! r) \<le> snd (ts ! k)" if "k < length ts" for k
    using sp that by (cases "k = 0") auto
  moreover have "r < length ts" using sp assms(1) by auto
  ultimately show ?thesis by (metis in_set_conv_nth)
qed

text \<open>After some commands were removed: those left are distinct, are as before, and none is older than a removed one.\<close>

definition pruned :: "(string \<times> gotime) list \<Rightarrow> session \<Rightarrow> nat \<Rightarrow> (string \<times> gotime) list \<Rightarrow> session \<Rightarrow> bool" where
  "pruned ts0 s0 n ts s \<longleftrightarrow> length ts + n = length ts0 \<and> distinct (map fst ts) \<and> set ts \<subseteq> set ts0 \<and>
     (\<forall>k. ss_Commands s k = (if k \<in> fst ` set ts \<or> k \<notin> fst ` set ts0 then ss_Commands s0 k else None)) \<and>
     (\<forall>p \<in> set ts0 - set ts. \<forall>q \<in> set ts. snd p \<le> snd q)"

lemma prune_one_pruned:
  assumes "pruned ts0 s0 n ts s" "ts \<noteq> []" "prune_one (ts, s, es) = (ts', s', es')"
  shows "pruned ts0 s0 (Suc n) ts' s'"
proof -
  define r where "r = oldest_idx ts (length ts - 1) 1 0"
  have r: "r < length ts" "\<And>q. q \<in> set ts \<Longrightarrow> snd (ts ! r) \<le> snd q" using oldest_is_least [OF assms(2)] by (auto simp: r_def)
  have split: "ts = take r ts @ ts ! r # drop (Suc r) ts" using r(1) by (rule id_take_nth_drop)
  define a where "a = take r ts"
  define p where "p = ts ! r"
  define b where "b = drop (Suc r) ts"
  have ts: "ts = a @ p # b" using split by (simp add: a_def p_def b_def)
  have p: "snd p \<le> snd q" if "q \<in> set ts" for q using r(2) that by (simp add: p_def)
  have ts': "ts' = a @ b" and s': "ss_Commands s' = (ss_Commands s)(fst p := None)"
    using assms(3) unfolding prune_one_def prod.case Let_def r_def [symmetric]
    by (auto simp: a_def b_def p_def fun_upd_idem split: option.splits)
  have "snd x \<le> snd q" if "x \<in> set ts0" "x \<notin> set ts'" "q \<in> set ts'" for x q
  proof (cases "x = p")
    case True
    then show ?thesis using p [of q] that(3) by (simp add: ts ts')
  next
    case False
    then have "x \<in> set ts0 - set ts" "q \<in> set ts" using that by (auto simp: ts ts')
    then show ?thesis using assms(1) by (auto simp only: pruned_def)
  qed
  then have "\<forall>x \<in> set ts0 - set ts'. \<forall>q \<in> set ts'. snd x \<le> snd q" by blast
  moreover have "length ts' + Suc n = length ts0 \<and> distinct (map fst ts') \<and> set ts' \<subseteq> set ts0"
    using assms(1) unfolding pruned_def ts ts' by auto
  moreover have "ss_Commands s' k = (if k \<in> fst ` set ts' \<or> k \<notin> fst ` set ts0 then ss_Commands s0 k else None)" for k
    using assms(1) unfolding pruned_def ts ts' s' by (auto simp: image_iff)
  ultimately show ?thesis unfolding pruned_def by blast
qed

lemma prune_pruned:
  assumes "distinct (map fst ts0)" "n \<le> length ts0" "(prune_one ^^ n) (ts0, s0, []) = (ts, s, es)"
  shows "pruned ts0 s0 n ts s"
  using assms(2,3)
proof (induction n arbitrary: ts s es)
  case 0
  then show ?case using assms(1) by (auto simp: pruned_def)
next
  case (Suc n)
  obtain ts1 s1 es1 where prev: "(prune_one ^^ n) (ts0, s0, []) = (ts1, s1, es1)" by (metis surj_pair)
  then have IH: "pruned ts0 s0 n ts1 s1" using Suc by simp
  moreover from this have "ts1 \<noteq> []" using Suc.prems(1) by (auto simp: pruned_def)
  moreover have "prune_one (ts1, s1, es1) = (ts, s, es)" using Suc.prems(2) prev by simp
  ultimately show ?case by (rule prune_one_pruned)
qed

text \<open>\<^verbatim>\<open>CleanupCommands\<close> leaves \<open>maxCount\<close> commands, or all if there are fewer, unchanged, and none that it removes is newer than one it leaves.\<close>

lemma CleanupCommands_keeps_newest:
  assumes "sg_sessions m sid = Some s" "distinct ord" "set ord = dom (ss_Commands s)" "CleanupCommands ord sid maxCount m = (res, m')"
  shows "res = Inr () \<and> (\<exists>s'. sg_sessions m' sid = Some s' \<and> ss_Commands s' \<subseteq>\<^sub>m ss_Commands s \<and>
     card (dom (ss_Commands s')) = min maxCount (length ord) \<and>
     (\<forall>k c k' c'. ss_Commands s k = Some c \<and> ss_Commands s' k = None \<and> ss_Commands s' k' = Some c' \<longrightarrow> sm_CreatedAt c \<le> sm_CreatedAt c'))"
proof -
  let ?f = "\<lambda>k. map_option (\<lambda>c. (k, sm_CreatedAt c)) (ss_Commands s k)"
  define times where "times = List.map_filter ?f ord"
  have times: "times = map (\<lambda>k. (k, sm_CreatedAt (the (ss_Commands s k)))) ord"
  proof -
    have "set xs \<subseteq> dom (ss_Commands s) \<Longrightarrow> List.map_filter ?f xs = map (\<lambda>k. (k, sm_CreatedAt (the (ss_Commands s k)))) xs" for xs
      by (induction xs) (auto simp: List.map_filter_def)
    then show ?thesis using assms(3) by (simp add: times_def)
  qed
  then have fsts: "map fst times = ord" "length times = length ord" by (simp_all add: comp_def)
  show ?thesis
  proof (cases "length times \<le> maxCount")
    case True
    then have "CleanupCommands ord sid maxCount m = (Inr (), m)"
      using assms(1) unfolding CleanupCommands_def Session_Get_def Let_def times_def by simp
    then have "m' = m" "res = Inr ()" using assms(4) by simp_all
    moreover have "card (dom (ss_Commands s)) = min maxCount (length ord)"
      using distinct_card [OF assms(2)] assms(3) True fsts(2) by simp
    ultimately show ?thesis using assms(1) by (intro conjI exI [of _ s]) (simp_all, metis option.distinct(1))
  next
    case False
    obtain ts s1 es where run: "(prune_one ^^ (length times - maxCount)) (times, s, []) = (ts, s1, es)" by (metis surj_pair)
    then have p: "pruned times s (length times - maxCount) ts s1"
      using prune_pruned [of times "length times - maxCount"] fsts assms(2) by simp
    have m': "sg_sessions m' sid = Some s1" "res = Inr ()"
      using assms(1,4) False run by (auto simp: CleanupCommands_def Session_Get_def times_def [symmetric] Let_def)
    have dm: "dom (ss_Commands s1) = fst ` set ts"
    proof -
      have sub: "fst ` set ts \<subseteq> dom (ss_Commands s)" "fst ` set times = dom (ss_Commands s)"
        using p assms(3) by (auto simp: pruned_def times image_iff)
      then show ?thesis using p by (auto simp: pruned_def dom_def split: if_splits)
    qed
    have same: "ss_Commands s1 k = ss_Commands s k" if "k \<in> fst ` set ts" for k using p that by (simp add: pruned_def)
    have "card (fst ` set ts) = length ts" using p distinct_card [of "map fst ts"] by (simp add: pruned_def)
    then have card: "card (dom (ss_Commands s1)) = min maxCount (length ord)"
    proof -
      have "length ts + (length times - maxCount) = length times" using p unfolding pruned_def by blast
      then have "length ts = maxCount" using False by linarith
      then show ?thesis using \<open>card (fst ` set ts) = length ts\<close> dm False fsts by simp
    qed
    have older: "sm_CreatedAt c \<le> sm_CreatedAt c'"
      if "ss_Commands s k = Some c" "ss_Commands s1 k = None" "ss_Commands s1 k' = Some c'" for k c k' c'
    proof -
      have k'1: "k' \<in> fst ` set ts" using that(3) dm by blast
      have k': "k' \<in> fst ` set ts" "ss_Commands s k' = Some c'" using that(3) same [OF k'1] k'1 by simp_all
      then obtain t' where t': "(k', t') \<in> set ts" by auto
      then have "t' = sm_CreatedAt c'" using p k'(2) by (auto simp: pruned_def times)
      moreover have "(k, sm_CreatedAt c) \<in> set times" using that(1) assms(3) by (force simp: times dom_def)
      moreover have "(k, sm_CreatedAt c) \<notin> set ts" using that(2) dm by (force simp: dom_def)
      moreover have "\<forall>x \<in> set times - set ts. \<forall>q \<in> set ts. snd x \<le> snd q" using p unfolding pruned_def by blast
      ultimately show ?thesis using t' by force
    qed
    have "ss_Commands s1 \<subseteq>\<^sub>m ss_Commands s" using same dm by (auto simp: map_le_def)
    then show ?thesis using m' card older by blast
  qed
qed

end
