(* ===== verification/Toolbox_Exec.thy ===== *)
theory Toolbox_Exec
  imports Toolbox_Sessions
begin

text \<open>
  The ways to run something in a sandbox, and the routes to them: one-shot commands
  (\<^verbatim>\<open>ExecuteStream\<close> of \<^verbatim>\<open>src/pkg/toolbox/executor.go\<close>), the process table's routes
  (\<^verbatim>\<open>src/pkg/toolbox/procmgr_api.go\<close>), interpreter kernels (\<^verbatim>\<open>src/pkg/toolbox/codeinterp.go\<close>),
  terminals (\<^verbatim>\<open>src/pkg/toolbox/pty_unix.go\<close>, \<^verbatim>\<open>src/pkg/toolbox/pty_control.go\<close>) and watchers
  (\<^verbatim>\<open>src/pkg/toolbox/watcher.go\<close>, \<^verbatim>\<open>src/pkg/toolbox/watcher_api.go\<close>), with the handlers and the route
  table of \<^verbatim>\<open>src/pkg/toolbox/api.go\<close>. What a request decodes to and what the operating system answers
  are arguments.

  Shown here: a command on the deny list starts nothing on any route that has a command, and no route but two
  answers without the token; what the terminal consent, the deny list and the resize commands miss.
\<close>

section \<open>One-shot commands\<close>

text \<open>The chunks of the two pipes in the order in which they were read (standard error marked), and how it ended.\<close>

datatype run_end = RunTimedOut | RunEnded wait_outcome

record run_outcome =
  ro_Chunks :: "(bool \<times> string) list"
  ro_End :: run_end

record exec_result =
  er_ExitCode :: int
  er_Stdout :: string
  er_Stderr :: string

datatype exec_error = TooManyExecutions | ExecDenied reason | UnsupportedLanguage string | ExecSandboxFailed | ExecStartFailed

datatype exec_effect =
    Ran spawn "string option"
  | KernelStarted spawn string
  | KernelInput string string
  | KernelKilled string
  | TerminalStarted spawn string
  | TerminalInput string string
  | TerminalSize string "16 word" "16 word"
  | TerminalClosed string
  | WatchAdded string
  | WatchClosed string

definition maxRun :: nat where "maxRun = 10"

text \<open>The program for a language: its command line and what it reads.\<close>

definition language_command :: "string \<Rightarrow> string \<Rightarrow> (string \<times> string list \<times> string option) option" where
  "language_command language code =
     (let l = ToLower language in
      if l \<in> {''python'', ''python3''} then Some (''python3'', [''-c'', code], None)
      else if l \<in> {''node'', ''nodejs''} then Some (''node'', [''-e'', code], None)
      else if l \<in> {''bash'', ''sh'', ''shell''} then Some (nativeShell, [''-c'', code], None)
      else if l \<in> {''powershell'', ''pwsh''} then Some (''powershell.exe'', [''-NoProfile'', ''-NonInteractive'', ''-Command'', code], None)
      else if l = ''go'' then Some (''go'', [''run'', ''-''], Some code)
      else if l = ''ruby'' then Some (''ruby'', [''-e'', code], None)
      else if l = ''perl'' then Some (''perl'', [''-e'', code], None)
      else if l = ''php'' then Some (''php'', [''-r'', code], None)
      else None)"

definition noise_prefix :: string where "noise_prefix = ''sandbox_extension_issue_file failed for ''"

definition seatbeltNoise :: "string \<Rightarrow> bool" where
  "seatbeltNoise line \<longleftrightarrow> HasPrefix line noise_prefix \<and>
     (Contains line ''/Library/Preferences'' \<or> Contains line ''/Library/Managed Preferences'')"

definition nl :: char where "nl = char_of (10::nat)"

definition StripSeatbeltNoise :: "string \<Rightarrow> string" where
  "StripSeatbeltNoise s =
     (if s = [] \<or> \<not> Contains s noise_prefix then s
      else Join (filter (\<lambda>l. \<not> seatbeltNoise l) (Split s nl)) [nl])"

definition chunks_of :: "bool \<Rightarrow> (bool \<times> string) list \<Rightarrow> string" where
  "chunks_of err cs = concat (map snd (filter (\<lambda>c. fst c = err) cs))"

definition exec_outcome :: "run_outcome \<Rightarrow> exec_result" where
  "exec_outcome o1 =
     (case ro_End o1 of
        RunTimedOut \<Rightarrow> \<lparr>er_ExitCode = 124, er_Stdout = chunks_of False (ro_Chunks o1), er_Stderr = ''Execution cancelled or timed out''\<rparr>
      | RunEnded w \<Rightarrow>
          \<lparr>er_ExitCode = (case w of WaitOk \<Rightarrow> 0 | WaitExited c \<Rightarrow> sint c | WaitFailed \<Rightarrow> 1),
           er_Stdout = TrimSuffix (chunks_of False (ro_Chunks o1)) [nl],
           er_Stderr = StripSeatbeltNoise (TrimSuffix (chunks_of True (ro_Chunks o1)) [nl])\<rparr>)"

text \<open>What lies outside; \<open>eo_run\<close> starts a command with what it reads and its time limit in seconds.\<close>

record exec_os =
  eo_env :: proc_os
  eo_run :: "exec_effect list \<Rightarrow> spawn \<Rightarrow> string option \<Rightarrow> int \<Rightarrow> run_outcome option"
  eo_kernel :: "exec_effect list \<Rightarrow> spawn \<Rightarrow> bool"
  eo_answer :: "exec_effect list \<Rightarrow> string \<Rightarrow> string option"
  eo_random :: "exec_effect list \<Rightarrow> string"
  eo_shell :: string
  eo_cwd :: "string option"
  eo_terminal :: "exec_effect list \<Rightarrow> spawn \<Rightarrow> string option"
  eo_watch :: "exec_effect list \<Rightarrow> string \<Rightarrow> bool \<Rightarrow> bool"

definition spawn_of :: "exec_os \<Rightarrow> string list \<Rightarrow> string \<Rightarrow> string list \<Rightarrow> string \<Rightarrow> spawn option" where
  "spawn_of os env path args dir =
     (case ox_wrap (eo_env os) (path, args) of
        None \<Rightarrow> None
      | Some (p, as) \<Rightarrow> Some \<lparr>sn_Path = p, sn_Argv = as, sn_Dir = dir, sn_Environ = env, sn_Window = None\<rparr>)"

text \<open>\<^verbatim>\<open>ExecuteStream\<close>, with what it gave the callback: the warnings of the gate, then each chunk as it was read. \<open>running\<close> is the
  number of commands that run; the command counts among them while it is served.\<close>

type_synonym run_event = "string \<times> string"

definition warn_event :: "command_hit \<Rightarrow> run_event" where
  "warn_event h = (''policy_warn'', ch_Command h @ '' '' @ ch_Token h)"

definition ExecuteStream ::
  "executor \<Rightarrow> exec_os \<Rightarrow> nat \<Rightarrow> int \<Rightarrow> string \<Rightarrow> string \<Rightarrow> gate \<times> exec_effect list \<Rightarrow>
   ((exec_error + exec_result) \<times> run_event list) \<times> gate \<times> exec_effect list" where
  "ExecuteStream ex os running timeout language code st = (case st of (g, l) \<Rightarrow>
     if running \<ge> maxRun then ((Inl TooManyExecutions, []), g, l)
     else case (case ex_manager ex of None \<Rightarrow> (None, [], g)
                | Some _ \<Rightarrow> (case CheckExec (ex_env ex) code g of (dec, g1) \<Rightarrow>
                    (if ed_Action dec = ActionDeny then Some (ed_Reason dec) else None, map warn_event (ed_Warns dec), g1))) of
       (Some why, warns, g1) \<Rightarrow> ((Inl (ExecDenied why), warns), g1, l)
     | (None, warns, g1) \<Rightarrow>
         (case language_command language code of
            None \<Rightarrow> ((Inl (UnsupportedLanguage language), warns), g1, l)
          | Some (path, args, input) \<Rightarrow>
              (case spawn_of os (ChildEnv (eo_env os)) path args (ox_workDir (eo_env os)) of
                 None \<Rightarrow> ((Inl ExecSandboxFailed, warns), g1, l)
               | Some s \<Rightarrow>
                   (case eo_run os l s input timeout of
                      None \<Rightarrow> ((Inl ExecStartFailed, warns), g1, l)
                    | Some out \<Rightarrow>
                        ((Inr (exec_outcome out), warns @ map (\<lambda>(err, d). (if err then ''stderr'' else ''stdout'', d)) (ro_Chunks out)),
                         g1, l @ [Ran s input])))))"

section \<open>Kernels of the code interpreter\<close>

record context_info =
  ci_ID :: string
  ci_Language :: string
  ci_Cwd :: string

record kernel_state =
  ks_kernels :: "string set"
  ks_contexts :: "string \<Rightarrow> context_info option"
  ks_log :: "exec_effect list"

definition CreateContext :: "exec_os \<Rightarrow> string \<Rightarrow> string \<Rightarrow> kernel_state \<Rightarrow> context_info \<times> kernel_state" where
  "CreateContext os language cwd k =
     (let ci = \<lparr>ci_ID = eo_random os (ks_log k), ci_Language = (if language = [] then ''python'' else language), ci_Cwd = cwd\<rparr> in
      (ci, k\<lparr>ks_contexts := (ks_contexts k)(ci_ID ci \<mapsto> ci)\<rparr>))"

definition ListContexts :: "string list \<Rightarrow> kernel_state \<Rightarrow> context_info list" where
  "ListContexts ord k = List.map_filter (ks_contexts k) ord"

definition kill_kernel :: "string \<Rightarrow> kernel_state \<Rightarrow> kernel_state" where
  "kill_kernel cid k =
     (if cid \<in> ks_kernels k then k\<lparr>ks_kernels := ks_kernels k - {cid}, ks_log := ks_log k @ [KernelKilled cid]\<rparr> else k)"

definition Kernel_Restart :: "string \<Rightarrow> kernel_state \<Rightarrow> kernel_state" where
  "Kernel_Restart cid k = kill_kernel cid k"

definition Kernel_Close :: "string \<Rightarrow> kernel_state \<Rightarrow> kernel_state" where
  "Kernel_Close cid k = kill_kernel cid (k\<lparr>ks_contexts := (ks_contexts k)(cid := None)\<rparr>)"

definition Kernel_CloseAll :: "string list \<Rightarrow> kernel_state \<Rightarrow> kernel_state" where
  "Kernel_CloseAll ids k = fold Kernel_Close ids k"

text \<open>\<^verbatim>\<open>get\<close>: the kernel of a context is started when it is first used; \<open>driver\<close> is its program.\<close>

definition kernel_get :: "exec_os \<Rightarrow> string \<Rightarrow> string \<Rightarrow> kernel_state \<Rightarrow> bool \<times> kernel_state" where
  "kernel_get os driver cid k =
     (if cid \<in> ks_kernels k then (True, k)
      else case spawn_of os (ChildEnv (eo_env os) @ [''MPLBACKEND=Agg'']) ''python3'' [''-c'', driver] [] of
        None \<Rightarrow> (False, k)
      | Some s \<Rightarrow>
          if \<not> eo_kernel os (ks_log k) s then (False, k)
          else (True, k\<lparr>ks_kernels := insert cid (ks_kernels k), ks_log := ks_log k @ [KernelStarted s cid]\<rparr>))"

text \<open>\<^verbatim>\<open>Execute\<close>: the code is sent to the kernel and one line is read; \<open>None\<close> is an error of writing, reading or decoding.\<close>

definition Kernel_Execute :: "exec_os \<Rightarrow> string \<Rightarrow> string \<Rightarrow> string \<Rightarrow> kernel_state \<Rightarrow> string option \<times> kernel_state" where
  "Kernel_Execute os driver cid code k =
     (case kernel_get os driver cid k of
        (False, k1) \<Rightarrow> (None, k1)
      | (True, k1) \<Rightarrow> (let l = ks_log k1 @ [KernelInput cid code] in (eo_answer os l cid, k1\<lparr>ks_log := l\<rparr>)))"

section \<open>Terminals\<close>

record terminal =
  tm_Width :: int
  tm_Height :: int

record terminal_state =
  tt_sessions :: "string \<Rightarrow> terminal option"
  tt_log :: "exec_effect list"

text \<open>The environment of a login shell: the first terminal type is replaced, the history goes to the work tree.\<close>

fun set_first_term :: "string list \<Rightarrow> string list" where
  "set_first_term [] = [''TERM=xterm-256color'']"
| "set_first_term (e # es) = (if HasPrefix e ''TERM='' then ''TERM=xterm-256color'' # es else e # set_first_term es)"

definition terminal_env :: "exec_os \<Rightarrow> string list" where
  "terminal_env os = set_first_term (ChildEnv (eo_env os)) @
     (case eo_cwd os of None \<Rightarrow> [] | Some wd \<Rightarrow> if wd = [] then [] else [''HISTFILE='' @ filepath_Join [wd, ''.sandbox_history'']])"

text \<open>\<open>eo_terminal\<close> starts the shell and gives the name of the session, which has the time in it.\<close>

definition Pty_CreateSession :: "exec_os \<Rightarrow> int \<Rightarrow> int \<Rightarrow> terminal_state \<Rightarrow> string option \<times> terminal_state" where
  "Pty_CreateSession os width height t =
     (let shell = (if eo_shell os = [] then ''/bin/bash'' else eo_shell os) in
      case spawn_of os (terminal_env os) shell [''-l''] [] of
        None \<Rightarrow> (None, t)
      | Some s \<Rightarrow>
          (case eo_terminal os (tt_log t) s of
             None \<Rightarrow> (None, t)
           | Some sid \<Rightarrow>
               (Some sid, \<lparr>tt_sessions = (tt_sessions t)(sid \<mapsto> \<lparr>tm_Width = width, tm_Height = height\<rparr>),
                           tt_log = tt_log t @ [TerminalStarted s sid, TerminalSize sid (word_of_int width) (word_of_int height)]\<rparr>)))"

definition Pty_ResizeSession :: "string \<Rightarrow> int \<Rightarrow> int \<Rightarrow> terminal_state \<Rightarrow> terminal_state" where
  "Pty_ResizeSession sid width height t =
     (case tt_sessions t sid of
        None \<Rightarrow> t
      | Some _ \<Rightarrow> \<lparr>tt_sessions = (tt_sessions t)(sid \<mapsto> \<lparr>tm_Width = width, tm_Height = height\<rparr>),
                   tt_log = tt_log t @ [TerminalSize sid (word_of_int width) (word_of_int height)]\<rparr>)"

definition Pty_CloseSession :: "string \<Rightarrow> terminal_state \<Rightarrow> terminal_state" where
  "Pty_CloseSession sid t =
     (case tt_sessions t sid of
        None \<Rightarrow> t
      | Some _ \<Rightarrow> \<lparr>tt_sessions = (tt_sessions t)(sid := None), tt_log = tt_log t @ [TerminalClosed sid]\<rparr>)"

text \<open>\<^verbatim>\<open>parseResize\<close>; \<open>json\<close> decodes the fields of a control frame: its type, columns and rows.\<close>

definition maxControlFrame :: nat where "maxControlFrame = 256"

definition parseResize :: "(string \<Rightarrow> (string \<times> int \<times> int) option) \<Rightarrow> string \<Rightarrow> (int \<times> int) option" where
  "parseResize json msg =
     (if length msg < 2 \<or> length msg > maxControlFrame \<or> hd msg \<noteq> CHR ''{'' \<or> last msg \<noteq> CHR ''}'' then None
      else case json msg of
        None \<Rightarrow> None
      | Some (kind, cols, rows) \<Rightarrow>
          if kind \<noteq> ''resize'' \<or> cols \<le> 0 \<or> rows \<le> 0 \<or> cols > 1000 \<or> rows > 1000 then None else Some (cols, rows))"

text \<open>The telnet window size: three bytes of command, then the sizes, as \<^verbatim>\<open>HandleWebSocket\<close> reads them.\<close>

definition byte_at :: "string \<Rightarrow> nat \<Rightarrow> int" where
  "byte_at msg i = of_char (msg ! i)"

definition naws_resize :: "string \<Rightarrow> (int \<times> int) option" where
  "naws_resize msg =
     (if length msg \<ge> 6 \<and> byte_at msg 0 = 255 \<and> byte_at msg 1 = 253 \<and> byte_at msg 2 = 28
      then if length msg \<ge> 8 \<and> byte_at msg 5 = 255 \<and> byte_at msg 6 = 255
        then Some (256 * byte_at msg 3 + byte_at msg 4, 256 * byte_at msg 5 + byte_at msg 6)
        else None
      else None)"

text \<open>A message of the client of a terminal: a resize of either form, or input.\<close>

definition terminal_message :: "(string \<Rightarrow> (string \<times> int \<times> int) option) \<Rightarrow> string \<Rightarrow> string \<Rightarrow> terminal_state \<Rightarrow> terminal_state" where
  "terminal_message json sid msg t =
     (case parseResize json msg of
        Some (cols, rows) \<Rightarrow> Pty_ResizeSession sid cols rows t
      | None \<Rightarrow>
          (case naws_resize msg of
             Some (width, height) \<Rightarrow> Pty_ResizeSession sid width height t
           | None \<Rightarrow> t\<lparr>tt_log := tt_log t @ [TerminalInput sid msg]\<rparr>))"

text \<open>\<^verbatim>\<open>HandleWebSocket\<close>: the messages up to the end of the connection, which closes the session.\<close>

definition HandleWebSocket :: "(string \<Rightarrow> (string \<times> int \<times> int) option) \<Rightarrow> string \<Rightarrow> string list \<Rightarrow> terminal_state \<Rightarrow> bool \<times> terminal_state" where
  "HandleWebSocket json sid msgs t =
     (case tt_sessions t sid of
        None \<Rightarrow> (False, t)
      | Some _ \<Rightarrow> (True, Pty_CloseSession sid (fold (terminal_message json sid) msgs t)))"

section \<open>Watchers\<close>

datatype watch_op = OpCreate | OpWrite | OpRemove | OpRename | OpChmod

text \<open>\<^verbatim>\<open>mapWatchOp\<close>; an operation is the set of its flags.\<close>

definition mapWatchOp :: "watch_op set \<Rightarrow> string" where
  "mapWatchOp op =
     (if OpCreate \<in> op then ''create'' else if OpWrite \<in> op then ''write'' else if OpRemove \<in> op then ''remove''
      else if OpRename \<in> op then ''rename'' else if OpChmod \<in> op then ''chmod'' else [])"

record watcher =
  wa_Dir :: string
  wa_Recursive :: bool
  wa_Buf :: "(string \<times> string) list"

record watch_state =
  wt_watchers :: "string \<Rightarrow> watcher option"
  wt_log :: "exec_effect list"

definition watch_append :: "string \<times> string \<Rightarrow> watcher \<Rightarrow> watcher" where
  "watch_append ev wa = wa\<lparr>wa_Buf := wa_Buf wa @ [ev]\<rparr>"

definition watch_drain :: "watcher \<Rightarrow> (string \<times> string) list \<times> watcher" where
  "watch_drain wa = (wa_Buf wa, wa\<lparr>wa_Buf := []\<rparr>)"

text \<open>\<^verbatim>\<open>Create\<close>; \<open>eo_watch\<close> tells whether the directory is one and could be watched.\<close>

definition Watch_Create :: "exec_os \<Rightarrow> string \<Rightarrow> bool \<Rightarrow> watch_state \<Rightarrow> string option \<times> watch_state" where
  "Watch_Create os dir recursive st =
     (if \<not> eo_watch os (wt_log st) dir recursive then (None, st)
      else let wid = eo_random os (wt_log st) in
        (Some wid, \<lparr>wt_watchers = (wt_watchers st)(wid \<mapsto> \<lparr>wa_Dir = dir, wa_Recursive = recursive, wa_Buf = []\<rparr>),
                    wt_log = wt_log st @ [WatchAdded dir]\<rparr>))"

text \<open>An event of the system, as the goroutine of a watcher takes it: its flags, its path and whether that is a directory now.\<close>

definition watch_event :: "string \<Rightarrow> watch_op set \<times> string \<times> bool \<Rightarrow> watch_state \<Rightarrow> watch_state" where
  "watch_event wid ev st = (case ev of (op, path, isDir) \<Rightarrow>
     (case wt_watchers st wid of
        None \<Rightarrow> st
      | Some wa \<Rightarrow>
          if mapWatchOp op = [] then st
          else \<lparr>wt_watchers = (wt_watchers st)(wid \<mapsto> watch_append (Base path, mapWatchOp op) wa),
                wt_log = wt_log st @ (if wa_Recursive wa \<and> OpCreate \<in> op \<and> isDir then [WatchAdded path] else [])\<rparr>))"

definition Watch_Events :: "string \<Rightarrow> watch_state \<Rightarrow> (string \<times> string) list option \<times> watch_state" where
  "Watch_Events wid st =
     (case wt_watchers st wid of
        None \<Rightarrow> (None, st)
      | Some wa \<Rightarrow> (case watch_drain wa of (evs, wa1) \<Rightarrow> (Some evs, st\<lparr>wt_watchers := (wt_watchers st)(wid \<mapsto> wa1)\<rparr>)))"

definition Watch_Remove :: "string \<Rightarrow> watch_state \<Rightarrow> bool \<times> watch_state" where
  "Watch_Remove wid st =
     (case wt_watchers st wid of
        None \<Rightarrow> (False, st)
      | Some wa \<Rightarrow> (True, \<lparr>wt_watchers = (wt_watchers st)(wid := None), wt_log = wt_log st @ [WatchClosed wid]\<rparr>))"

section \<open>The service\<close>

record toolbox_state =
  tb_gate :: gate
  tb_files :: "file_access list"
  tb_exec :: "exec_effect list"
  tb_procs :: proc_state
  tb_sessions :: session_manager
  tb_kernels :: kernel_state
  tb_terminals :: terminal_state
  tb_watchers :: watch_state
  tb_requests :: nat

text \<open>What is set up once.\<close>

record toolbox_setup =
  tx_ex :: executor
  tx_os :: exec_os
  tx_sessions :: session_os
  tx_token :: string
  tx_home :: string
  tx_hostname :: string
  tx_driver :: string
  tx_json :: "string \<Rightarrow> (string \<times> int \<times> int) option"
  tx_mcp :: bool

text \<open>What holds while a request is served: the commands that run, whether its time was up, the clock, the polls of an exit
  file, the contents of files and the order in which a map is visited.\<close>

record serving =
  sv_running :: nat
  sv_expired :: bool
  sv_now :: gotime
  sv_polls :: "poll list"
  sv_read :: "string \<Rightarrow> string option"
  sv_ord :: "string list"
  sv_pids :: "32 word list"

text \<open>A request: what its body decodes to is given by the fields, nothing if it is not valid.\<close>

record toolbox_request =
  tr_Method :: string
  tr_Path :: string
  tr_Authorization :: string
  tr_Query :: "string \<Rightarrow> string"
  tr_Process :: "(string \<times> string \<times> int) option"
  tr_Start :: "start_config option"
  tr_Input :: "(32 word \<times> string \<times> bool) option"
  tr_Signal :: "(32 word \<times> int) option"
  tr_PID :: "32 word option"
  tr_Resize :: "(32 word \<times> 16 word \<times> 16 word) option"
  tr_Code :: "(string \<times> string) option"
  tr_Context :: "string \<times> string"
  tr_Watch :: "(string \<times> bool) option"
  tr_Watcher :: "string option"
  tr_Messages :: "string list option"
  tr_Files :: files_request
  tr_Session :: session_request

datatype toolbox_answer =
    TaStatus int
  | TaBody string
  | TaResult exec_result
  | TaEvents "run_event list"
  | TaPid "32 word"
  | TaProcs "proc_meta list"
  | TaStream "32 word"
  | TaContext context_info
  | TaContexts "context_info list"
  | TaTerminal string
  | TaWatcher string
  | TaWatched "(string \<times> string) list"
  | TaForwarded int string
  | TaMcp
  | TaFiles files_answer
  | TaSession session_answer

definition processHandler :: "toolbox_setup \<Rightarrow> serving \<Rightarrow> toolbox_request \<Rightarrow> toolbox_state \<Rightarrow> toolbox_answer \<times> toolbox_state" where
  "processHandler x v r st0 =
     (if tr_Method r \<noteq> ''POST'' then (TaStatus 405, st0)
      else let st = st0\<lparr>tb_requests := Suc (tb_requests st0)\<rparr> in
        case tr_Process r of
          None \<Rightarrow> (TaStatus 400, st)
        | Some (language, code, t) \<Rightarrow>
            let timeout = (if t > 0 then t else 30) in
            (case ExecuteStream (tx_ex x) (tx_os x) (sv_running v) timeout language code (tb_gate st, tb_exec st) of
               ((res, evs), g, l) \<Rightarrow>
                 let st1 = st\<lparr>tb_gate := g, tb_exec := l\<rparr> in
                 (case res of
                    Inr out \<Rightarrow> (TaResult out, st1)
                  | Inl e \<Rightarrow>
                      (if sv_expired v
                       then TaResult \<lparr>er_ExitCode = 124, er_Stdout = [],
                              er_Stderr = ''Command timed out after '' @ itoa timeout @ '' seconds''\<rparr>
                       else TaStatus 500, st1))))"

text \<open>An event as it is written to the stream.\<close>

definition sse_frame :: "run_event \<Rightarrow> string" where
  "sse_frame ev = ''event: '' @ fst ev @ [nl] @ ''data: '' @ snd ev @ [nl, nl]"

definition streamHandler :: "toolbox_setup \<Rightarrow> serving \<Rightarrow> toolbox_request \<Rightarrow> toolbox_state \<Rightarrow> toolbox_answer \<times> toolbox_state" where
  "streamHandler x v r st =
     (if tr_Method r \<noteq> ''GET'' \<and> tr_Method r \<noteq> ''POST'' then (TaStatus 405, st)
      else case (if tr_Method r = ''POST''
                 then map_option (\<lambda>(lang, code, t). (lang, code, if t = 0 then 30 else t)) (tr_Process r)
                 else Some (tr_Query r ''language'', tr_Query r ''code'',
                        case scan_dec (tr_Query r ''timeout'') of Some t \<Rightarrow> t | None \<Rightarrow> 30)) of
          None \<Rightarrow> (TaStatus 400, st)
        | Some (language, code, timeout) \<Rightarrow>
            if language = [] \<or> code = [] then (TaStatus 400, st)
            else (case ExecuteStream (tx_ex x) (tx_os x) (sv_running v) timeout language code (tb_gate st, tb_exec st) of
               ((res, evs), g, l) \<Rightarrow>
                 (TaEvents (evs @ [case res of Inl e \<Rightarrow> (''error'', []) | Inr out \<Rightarrow> (''exit'', itoa (er_ExitCode out))]),
                  st\<lparr>tb_gate := g, tb_exec := l\<rparr>)))"

section \<open>Routes of the process table\<close>

definition start_command :: "start_config \<Rightarrow> string" where
  "start_command c = TrimSpace (sc_Cmd c @ '' '' @ Join (sc_Args c) '' '')"

definition procStartHandler :: "toolbox_setup \<Rightarrow> toolbox_request \<Rightarrow> toolbox_state \<Rightarrow> toolbox_answer \<times> toolbox_state" where
  "procStartHandler x r st =
     (if tr_Method r \<noteq> ''POST'' then (TaStatus 405, st)
      else case tr_Start r of
        None \<Rightarrow> (TaStatus 400, st)
      | Some cfg \<Rightarrow>
          (case gateExec (tx_ex x) (start_command cfg) (tb_gate st) of
             (False, g) \<Rightarrow> (TaStatus 403, st\<lparr>tb_gate := g\<rparr>)
           | (True, g) \<Rightarrow>
               (case Proc_Start (eo_env (tx_os x)) cfg (tb_procs st) of
                  (Inl e, p) \<Rightarrow> (TaStatus 500, st\<lparr>tb_gate := g, tb_procs := p\<rparr>)
                | (Inr pid, p) \<Rightarrow> (TaPid pid, st\<lparr>tb_gate := g, tb_procs := p\<rparr>))))"

text \<open>\<^verbatim>\<open>strconv.ParseUint\<close> with 32 bits.\<close>

definition ParseUint32 :: "string \<Rightarrow> 32 word option" where
  "ParseUint32 s =
     (if s = [] \<or> \<not> list_all is_digit s \<or> digits_val s \<ge> 2 ^ 32 then None else Some (of_nat (digits_val s)))"

definition procStreamHandler :: "toolbox_request \<Rightarrow> toolbox_state \<Rightarrow> toolbox_answer \<times> toolbox_state" where
  "procStreamHandler r st =
     (case ParseUint32 (tr_Query r ''pid'') of
        None \<Rightarrow> (TaStatus 400, st)
      | Some pid \<Rightarrow>
          (case Proc_Stream pid (tb_procs st) of
             (False, p) \<Rightarrow> (TaStatus 404, st)
           | (True, p) \<Rightarrow> (TaStream pid, st\<lparr>tb_procs := p\<rparr>)))"

definition found_or_404 :: "bool \<times> proc_state \<Rightarrow> toolbox_state \<Rightarrow> toolbox_answer \<times> toolbox_state" where
  "found_or_404 res st = (TaStatus (if fst res then 204 else 404), st\<lparr>tb_procs := snd res\<rparr>)"

definition procInputHandler :: "toolbox_request \<Rightarrow> toolbox_state \<Rightarrow> toolbox_answer \<times> toolbox_state" where
  "procInputHandler r st =
     (case tr_Input r of None \<Rightarrow> (TaStatus 400, st)
      | Some (pid, data, pty) \<Rightarrow> found_or_404 (Proc_SendInput pid data pty (tb_procs st)) st)"

text \<open>A signal is the low bits of the number; 0 means kill.\<close>

definition procSignalHandler :: "toolbox_request \<Rightarrow> toolbox_state \<Rightarrow> toolbox_answer \<times> toolbox_state" where
  "procSignalHandler r st =
     (case tr_Signal r of None \<Rightarrow> (TaStatus 400, st)
      | Some (pid, n) \<Rightarrow> found_or_404 (Proc_Signal pid (if n = 0 then 9 else word_of_int n) (tb_procs st)) st)"

definition procStdinCloseHandler :: "toolbox_request \<Rightarrow> toolbox_state \<Rightarrow> toolbox_answer \<times> toolbox_state" where
  "procStdinCloseHandler r st =
     (case tr_PID r of None \<Rightarrow> (TaStatus 400, st) | Some pid \<Rightarrow> found_or_404 (Proc_CloseStdin pid (tb_procs st)) st)"

definition procResizeHandler :: "toolbox_setup \<Rightarrow> toolbox_request \<Rightarrow> toolbox_state \<Rightarrow> toolbox_answer \<times> toolbox_state" where
  "procResizeHandler x r st =
     (case tr_Resize r of None \<Rightarrow> (TaStatus 400, st)
      | Some (pid, rows, cols) \<Rightarrow> found_or_404 (Proc_Resize (eo_env (tx_os x)) pid rows cols (tb_procs st)) st)"

section \<open>The other routes\<close>

definition codeInterpreterHandler :: "toolbox_setup \<Rightarrow> toolbox_request \<Rightarrow> toolbox_state \<Rightarrow> toolbox_answer \<times> toolbox_state" where
  "codeInterpreterHandler x r st =
     (if tr_Method r \<noteq> ''POST'' then (TaStatus 405, st)
      else case tr_Code r of
        None \<Rightarrow> (TaStatus 400, st)
      | Some (code, cid0) \<Rightarrow>
          let cid = (if cid0 = [] then ''default'' else cid0); g = auditExec (tx_ex x) code (tb_gate st) in
          (case Kernel_Execute (tx_os x) (tx_driver x) cid code (tb_kernels st) of
             (None, k) \<Rightarrow> (TaStatus 500, st\<lparr>tb_gate := g, tb_kernels := k\<rparr>)
           | (Some res, k) \<Rightarrow> (TaBody res, st\<lparr>tb_gate := g, tb_kernels := k\<rparr>)))"

definition codeContextsHandler :: "toolbox_setup \<Rightarrow> serving \<Rightarrow> toolbox_request \<Rightarrow> toolbox_state \<Rightarrow> toolbox_answer \<times> toolbox_state" where
  "codeContextsHandler x v r st =
     (if tr_Method r = ''POST''
      then (case CreateContext (tx_os x) (fst (tr_Context r)) (snd (tr_Context r)) (tb_kernels st) of
              (ci, k) \<Rightarrow> (TaContext ci, st\<lparr>tb_kernels := k\<rparr>))
      else if tr_Method r = ''GET'' then (TaContexts (ListContexts (sv_ord v) (tb_kernels st)), st)
      else (TaStatus 405, st))"

definition codeContextByIDHandler :: "toolbox_request \<Rightarrow> toolbox_state \<Rightarrow> toolbox_answer \<times> toolbox_state" where
  "codeContextByIDHandler r st =
     (case Cut (TrimPrefix (tr_Path r) ''/code-interpreter/contexts/'') CHR ''/'' of (cid, action, _) \<Rightarrow>
        if action = ''restart'' \<and> tr_Method r = ''POST'' then (TaStatus 204, st\<lparr>tb_kernels := Kernel_Restart cid (tb_kernels st)\<rparr>)
        else if action = [] \<and> tr_Method r = ''DELETE'' then (TaStatus 204, st\<lparr>tb_kernels := Kernel_Close cid (tb_kernels st)\<rparr>)
        else (TaStatus 405, st))"

definition ptyCreateHandler :: "toolbox_setup \<Rightarrow> toolbox_request \<Rightarrow> toolbox_state \<Rightarrow> toolbox_answer \<times> toolbox_state" where
  "ptyCreateHandler x r st =
     (if tr_Method r \<noteq> ''POST'' then (TaStatus 405, st)
      else let width = (case scan_dec (tr_Query r ''width'') of Some n \<Rightarrow> n | None \<Rightarrow> 80);
               height = (case scan_dec (tr_Query r ''height'') of Some n \<Rightarrow> n | None \<Rightarrow> 24);
               name = (if tr_Query r ''sandbox'' = [] then tx_hostname x else tr_Query r ''sandbox'');
               ex = tx_ex x in
        case (case ex_manager ex of
                None \<Rightarrow> (True, tb_gate st)
              | Some m \<Rightarrow> (case ex_call ex (pty_request name (ex_session ex)) of (oth, out, now) \<Rightarrow>
                  (case CheckPTY (ex_env ex) m (ex_notify ex) oth out now name (ex_session ex) (tb_gate st) of
                     (dec, g) \<Rightarrow> (d_Action dec \<noteq> ActionDeny, g)))) of
          (False, g) \<Rightarrow> (TaStatus 403, st\<lparr>tb_gate := g\<rparr>)
        | (True, g) \<Rightarrow>
            (case Pty_CreateSession (tx_os x) width height (tb_terminals st) of
               (None, t) \<Rightarrow> (TaStatus 500, st\<lparr>tb_gate := g, tb_terminals := t\<rparr>)
             | (Some sid, t) \<Rightarrow> (TaTerminal sid, st\<lparr>tb_gate := g, tb_terminals := t\<rparr>)))"

text \<open>\<^verbatim>\<open>ptyWsHandler\<close>: an upgrade that fails answers itself.\<close>

definition ptyWsHandler :: "toolbox_setup \<Rightarrow> toolbox_request \<Rightarrow> toolbox_state \<Rightarrow> toolbox_answer \<times> toolbox_state" where
  "ptyWsHandler x r st =
     (let sid = drop (length ''/pty/'') (tr_Path r) in
      if sid = [] then (TaStatus 400, st)
      else case tr_Messages r of
        None \<Rightarrow> (TaStatus 400, st)
      | Some msgs \<Rightarrow> (TaStatus 101, st\<lparr>tb_terminals := snd (HandleWebSocket (tx_json x) sid msgs (tb_terminals st))\<rparr>))"

definition watchCreateHandler :: "toolbox_setup \<Rightarrow> toolbox_request \<Rightarrow> toolbox_state \<Rightarrow> toolbox_answer \<times> toolbox_state" where
  "watchCreateHandler x r st =
     (if tr_Method r \<noteq> ''POST'' then (TaStatus 405, st)
      else case tr_Watch r of
        None \<Rightarrow> (TaStatus 400, st)
      | Some (dir, recursive) \<Rightarrow>
          (case Watch_Create (tx_os x) dir recursive (tb_watchers st) of
             (None, w) \<Rightarrow> (TaStatus 400, st)
           | (Some wid, w) \<Rightarrow> (TaWatcher wid, st\<lparr>tb_watchers := w\<rparr>)))"

definition watchEventsHandler :: "toolbox_request \<Rightarrow> toolbox_state \<Rightarrow> toolbox_answer \<times> toolbox_state" where
  "watchEventsHandler r st =
     (case Watch_Events (tr_Query r ''id'') (tb_watchers st) of
        (None, w) \<Rightarrow> (TaStatus 404, st)
      | (Some evs, w) \<Rightarrow> (TaWatched evs, st\<lparr>tb_watchers := w\<rparr>))"

definition watchRemoveHandler :: "toolbox_request \<Rightarrow> toolbox_state \<Rightarrow> toolbox_answer \<times> toolbox_state" where
  "watchRemoveHandler r st =
     (case tr_Watcher r of
        None \<Rightarrow> (TaStatus 400, st)
      | Some wid \<Rightarrow> (case Watch_Remove wid (tb_watchers st) of (ok, w) \<Rightarrow> (TaStatus (if ok then 204 else 404), st\<lparr>tb_watchers := w\<rparr>)))"

text \<open>\<^verbatim>\<open>proxyPortHandler\<close>: the port and the path at the service on the loopback.\<close>

definition proxyPortHandler :: "toolbox_request \<Rightarrow> toolbox_answer" where
  "proxyPortHandler r =
     (case Cut (TrimPrefix (tr_Path r) ''/proxy/'') CHR ''/'' of (p, rest, slash) \<Rightarrow>
        case Atoi p of
          None \<Rightarrow> TaStatus 400
        | Some port \<Rightarrow> if port < 1 \<or> port > 65535 then TaStatus 400 else TaForwarded port (if slash then ''/'' @ rest else ''/''))"

text \<open>The file and the session routes on the state of the service.\<close>

definition filesRoute :: "toolbox_setup \<Rightarrow> toolbox_request \<Rightarrow> toolbox_state \<Rightarrow> toolbox_answer \<times> toolbox_state" where
  "filesRoute x r st =
     (case file_routes (tx_ex x) (tx_token x) (tx_home x)
         ((tr_Files r)\<lparr>fr_Method := tr_Method r, fr_Path := tr_Path r, fr_Authorization := tr_Authorization r\<rparr>)
         \<lparr>fl_gate = tb_gate st, fl_log = tb_files st\<rparr> of
        (a, f) \<Rightarrow> (TaFiles a, st\<lparr>tb_gate := fl_gate f, tb_files := fl_log f\<rparr>))"

definition sessionRoute :: "toolbox_setup \<Rightarrow> serving \<Rightarrow> toolbox_request \<Rightarrow> toolbox_state \<Rightarrow> toolbox_answer \<times> toolbox_state" where
  "sessionRoute x v r st =
     (case sessionHandler (tx_ex x) (tx_sessions x) (sv_read v) (sv_ord v) (sv_now v) (sv_polls v)
         ((tr_Session r)\<lparr>sq_Method := tr_Method r, sq_Path := tr_Path r\<rparr>) \<lparr>sw_gate = tb_gate st, sw_manager = tb_sessions st\<rparr> of
        (a, w) \<Rightarrow> (TaSession a, st\<lparr>tb_gate := sw_gate w, tb_sessions := sw_manager w\<rparr>))"

definition file_paths :: "string list" where
  "file_paths = [''/files/project-dir'', ''/files/user-home-dir'', ''/files/work-dir'', ''/files'', ''/files/delete'', ''/files/info'', ''/files/move'',
     ''/files/folder'', ''/files/download'', ''/files/search'', ''/files/find'', ''/files/replace'', ''/files/permissions'', ''/files/upload'',
     ''/files/bulk-upload'']"

text \<open>\<^verbatim>\<open>Handler\<close> with \<^verbatim>\<open>authMiddleware\<close>. The facts that \<^verbatim>\<open>/health\<close>, \<^verbatim>\<open>/info\<close>, \<^verbatim>\<open>/status\<close> and
  \<^verbatim>\<open>/metrics\<close> report are left out.\<close>

definition toolbox_routes :: "toolbox_setup \<Rightarrow> serving \<Rightarrow> toolbox_request \<Rightarrow> toolbox_state \<Rightarrow> toolbox_answer \<times> toolbox_state" where
  "toolbox_routes x v r st =
     (let p = tr_Path r in
      if p = ''/health'' then (TaBody ''health'', st)
      else if tx_mcp x \<and> (p = ''/mcp'' \<or> HasPrefix p ''/mcp/'') then (TaMcp, st)
      else if \<not> (p \<in> set [''/info'', ''/process'', ''/status'', ''/stream'', ''/code-interpreter/execute'', ''/code-interpreter/contexts'',
                     ''/pty/create'', ''/process/session'', ''/procmgr/start'', ''/procmgr/list'', ''/procmgr/stream'', ''/procmgr/input'',
                     ''/procmgr/signal'', ''/procmgr/stdin-close'', ''/procmgr/resize'', ''/watch/create'', ''/watch/events'', ''/watch/remove'',
                     ''/metrics''] \<or> p \<in> set file_paths \<or> HasPrefix p ''/proxy/'' \<or>
                  HasPrefix p ''/code-interpreter/contexts/'' \<or> HasPrefix p ''/pty/'' \<or> HasPrefix p ''/process/session/'')
        then (TaStatus 404, st)
      else if tx_token x \<noteq> [] \<and> tr_Authorization r \<noteq> ''Bearer '' @ tx_token x then (TaStatus 401, st)
      else if p = ''/info'' \<or> p = ''/status'' \<or> p = ''/metrics'' then (TaBody p, st)
      else if p = ''/process'' then processHandler x v r st
      else if p = ''/stream'' then streamHandler x v r st
      else if p \<in> set file_paths then filesRoute x r st
      else if HasPrefix p ''/proxy/'' then (proxyPortHandler r, st)
      else if p = ''/code-interpreter/execute'' then codeInterpreterHandler x r st
      else if p = ''/code-interpreter/contexts'' then codeContextsHandler x v r st
      else if HasPrefix p ''/code-interpreter/contexts/'' then codeContextByIDHandler r st
      else if p = ''/pty/create'' then ptyCreateHandler x r st
      else if HasPrefix p ''/pty/'' then ptyWsHandler x r st
      else if p = ''/process/session'' \<or> HasPrefix p ''/process/session/'' then sessionRoute x v r st
      else if p = ''/procmgr/start'' then procStartHandler x r st
      else if p = ''/procmgr/list'' then (TaProcs (Proc_List (sv_pids v) (tb_procs st)), st)
      else if p = ''/procmgr/stream'' then procStreamHandler r st
      else if p = ''/procmgr/input'' then procInputHandler r st
      else if p = ''/procmgr/signal'' then procSignalHandler r st
      else if p = ''/procmgr/stdin-close'' then procStdinCloseHandler r st
      else if p = ''/procmgr/resize'' then procResizeHandler x r st
      else if p = ''/watch/create'' then watchCreateHandler x r st
      else if p = ''/watch/events'' then watchEventsHandler r st
      else watchRemoveHandler r st)"

section \<open>Commands on the deny list\<close>

text \<open>The command of a request, on the routes that have one.\<close>

definition shell_command :: "toolbox_request \<Rightarrow> string option" where
  "shell_command r =
     (let p = tr_Path r; rest = TrimPrefix p ''/process/session/'' in
      if p = ''/process'' then map_option (\<lambda>(language, code, t). code) (tr_Process r)
      else if p = ''/stream'' then
        (if tr_Method r = ''POST'' then map_option (\<lambda>(language, code, t). code) (tr_Process r) else Some (tr_Query r ''code''))
      else if p = ''/procmgr/start'' then map_option start_command (tr_Start r)
      else if tr_Method r = ''POST'' \<and> HasPrefix p ''/process/session/'' \<and> rest \<noteq> [] then map_option (\<lambda>(sid, command, async). command) (sq_Exec (tr_Session r))
      else None)"

definition deny_listed :: "executor \<Rightarrow> gate \<Rightarrow> string \<Rightarrow> bool" where
  "deny_listed ex g cmd \<longleftrightarrow> ex_manager ex \<noteq> None \<and>
     snd (CheckCommandPolicy (env_goos (ex_env ex)) (sn_CommandPolicy (ps_snap (g_store g))) cmd) \<noteq> None"

definition nothing_started :: "toolbox_state \<Rightarrow> toolbox_state \<Rightarrow> bool" where
  "nothing_started st st' \<longleftrightarrow> tb_exec st' = tb_exec st \<and> tb_procs st' = tb_procs st \<and> tb_sessions st' = tb_sessions st \<and>
     tb_kernels st' = tb_kernels st \<and> tb_terminals st' = tb_terminals st \<and> tb_files st' = tb_files st \<and>
     g_store (tb_gate st') = g_store (tb_gate st)"

lemma nothing_started_refl: "nothing_started st st"
  by (simp add: nothing_started_def)

lemma CheckExec_denies:
  assumes "deny_listed ex g cmd"
  shows "ed_Action (fst (CheckExec (ex_env ex) cmd g)) = ActionDeny \<and> g_store (snd (CheckExec (ex_env ex) cmd g)) = g_store g"
  using assms by (auto simp: deny_listed_def CheckExec_def Let_def split: prod.splits)

lemma CheckExec_denies_pair:
  assumes "deny_listed ex g cmd" "CheckExec (ex_env ex) cmd g = (dec, g1)"
  shows "ed_Action dec = ActionDeny" "g_store g1 = g_store g"
  using CheckExec_denies [OF assms(1)] assms(2) by simp_all

lemma gateExec_denies:
  assumes "deny_listed ex g cmd"
  shows "\<exists>g1. gateExec ex cmd g = (False, g1) \<and> g_store g1 = g_store g"
proof (cases "CheckExec (ex_env ex) cmd g")
  case (Pair dec g1)
  with CheckExec_denies_pair [OF assms this] assms show ?thesis by (auto simp: gateExec_def deny_listed_def)
qed

lemma ExecuteStream_denies:
  assumes "deny_listed ex g code"
  shows "\<exists>res evs g1. ExecuteStream ex os running timeout language code (g, l) = ((Inl res, evs), g1, l) \<and> g_store g1 = g_store g"
proof (cases "CheckExec (ex_env ex) code g")
  case (Pair dec g1)
  with CheckExec_denies_pair [OF assms this] assms show ?thesis by (auto simp: ExecuteStream_def deny_listed_def)
qed

lemma processHandler_denies:
  assumes "tr_Process r = Some (language, code, t)" "deny_listed (tx_ex x) (tb_gate st) code"
  shows "nothing_started st (snd (processHandler x v r st))"
proof -
  obtain res evs g1 where run: "ExecuteStream (tx_ex x) (tx_os x) (sv_running v) (if t > 0 then t else 30) language code (tb_gate st, tb_exec st) = ((Inl res, evs), g1, tb_exec st)"
    "g_store g1 = g_store (tb_gate st)"
    using ExecuteStream_denies [OF assms(2)] by blast
  then show ?thesis using assms(1) by (simp add: processHandler_def Let_def nothing_started_def)
qed

lemma streamHandler_denies:
  assumes "(if tr_Method r = ''POST'' then map_option (\<lambda>(language, code, t). code) (tr_Process r) else Some (tr_Query r ''code'')) = Some code"
    "deny_listed (tx_ex x) (tb_gate st) code"
  shows "nothing_started st (snd (streamHandler x v r st))"
proof -
  have run: "nothing_started st (snd (case ExecuteStream (tx_ex x) (tx_os x) (sv_running v) timeout language code (tb_gate st, tb_exec st) of
       ((res, evs), g, l) \<Rightarrow> (TaEvents (evs @ [case res of Inl e \<Rightarrow> (''error'', []) | Inr out \<Rightarrow> (''exit'', itoa (er_ExitCode out))]),
          st\<lparr>tb_gate := g, tb_exec := l\<rparr>)))" for timeout language
  proof -
    obtain res evs g1 where "ExecuteStream (tx_ex x) (tx_os x) (sv_running v) timeout language code (tb_gate st, tb_exec st) = ((Inl res, evs), g1, tb_exec st)"
      "g_store g1 = g_store (tb_gate st)"
      using ExecuteStream_denies [OF assms(2)] by blast
    then show ?thesis by (simp add: nothing_started_def)
  qed
  show ?thesis
  proof (cases "tr_Method r = ''POST''")
    case True
    with assms(1) obtain language t where "tr_Process r = Some (language, code, t)" by (auto split: prod.splits)
    with True show ?thesis using run by (simp add: streamHandler_def nothing_started_refl)
  next
    case False
    with assms(1) show ?thesis using run by (simp add: streamHandler_def nothing_started_refl)
  qed
qed

lemma procStartHandler_denies:
  assumes "tr_Start r = Some cfg" "deny_listed (tx_ex x) (tb_gate st) (start_command cfg)"
  shows "nothing_started st (snd (procStartHandler x r st))"
  using gateExec_denies [OF assms(2)] assms(1) by (auto simp: procStartHandler_def nothing_started_def)

lemma sessionRoute_denies:
  assumes "sq_Exec (tr_Session r) = Some (sid, cmd, async)" "deny_listed (tx_ex x) (tb_gate st) cmd" "tr_Method r = ''POST''"
    "HasPrefix (tr_Path r) ''/process/session/''" "TrimPrefix (tr_Path r) ''/process/session/'' \<noteq> []"
  shows "nothing_started st (snd (sessionRoute x v r st))"
proof -
  let ?w = "\<lparr>sw_gate = tb_gate st, sw_manager = tb_sessions st\<rparr>"
  let ?r = "(tr_Session r)\<lparr>sq_Method := tr_Method r, sq_Path := tr_Path r\<rparr>"
  obtain g1 where g1: "gateExec (tx_ex x) cmd (tb_gate st) = (False, g1)" "g_store g1 = g_store (tb_gate st)"
    using gateExec_denies [OF assms(2)] by blast
  have exec: "sw_manager (snd (sessionExecHandler (tx_ex x) os now ps s ?r ?w)) = tb_sessions st \<and>
      g_store (sw_gate (snd (sessionExecHandler (tx_ex x) os now ps s ?r ?w))) = g_store (tb_gate st)" for os now ps s
    using assms(1) g1 by (auto simp: sessionExecHandler_def Let_def)
  have "tr_Path r \<noteq> ''/process/session''" "tr_Path r \<noteq> ''/process/session/''"
    using assms(4,5) by (auto simp: TrimPrefix_def HasPrefix_def)
  then have "sw_manager (snd (sessionHandler (tx_ex x) os read ord now ps ?r ?w)) = tb_sessions st \<and>
      g_store (sw_gate (snd (sessionHandler (tx_ex x) os read ord now ps ?r ?w))) = g_store (tb_gate st)" for os read ord now ps
    using assms(3,4) exec unfolding sessionHandler_def Let_def by (simp split: option.split)
  then show ?thesis by (simp add: sessionRoute_def nothing_started_def case_prod_beta)
qed

text \<open>Claim C11. On every route that takes a command - one-shot and streamed execution, the process table, a session - a command that the
  deny list of the gate names starts nothing: no process, no input to a shell, no kernel, no terminal, no access to a file;
  the rules are as before.\<close>

theorem denied_command_starts_nothing:
  assumes "shell_command r = Some cmd" "deny_listed (tx_ex x) (tb_gate st) cmd"
  shows "nothing_started st (snd (toolbox_routes x v r st))"
proof -
  note refl' = nothing_started_refl
  consider (process) "tr_Path r = ''/process''" | (stream) "tr_Path r = ''/stream''" | (start) "tr_Path r = ''/procmgr/start''"
    | (session) "tr_Path r \<notin> {''/process'', ''/stream'', ''/procmgr/start''}" "tr_Method r = ''POST''" "HasPrefix (tr_Path r) ''/process/session/''"
      "TrimPrefix (tr_Path r) ''/process/session/'' \<noteq> []"
    using assms(1) by (auto simp: shell_command_def Let_def split: if_splits)
  then show ?thesis
  proof cases
    case process
    with assms(1) obtain l t where "tr_Process r = Some (l, cmd, t)" by (auto simp: shell_command_def split: prod.splits)
    with process show ?thesis using processHandler_denies [of r l cmd t x st v] assms(2) refl'
      unfolding toolbox_routes_def Let_def by (simp add: file_paths_def HasPrefix_def)
  next
    case stream
    with assms show ?thesis using streamHandler_denies [of r cmd x st v] refl'
      unfolding toolbox_routes_def Let_def by (simp add: shell_command_def file_paths_def HasPrefix_def)
  next
    case start
    with assms(1) obtain cfg where "tr_Start r = Some cfg" "cmd = start_command cfg" by (auto simp: shell_command_def)
    with start show ?thesis using procStartHandler_denies [of r cfg x st] assms(2) refl'
      unfolding toolbox_routes_def Let_def by (simp add: file_paths_def HasPrefix_def)
  next
    case session
    with assms(1) obtain sid async where "sq_Exec (tr_Session r) = Some (sid, cmd, async)"
      by (auto simp: shell_command_def Let_def split: prod.splits)
    then have "nothing_started st (snd (sessionRoute x v r st))" using sessionRoute_denies session assms(2) by blast
    moreover obtain q where "tr_Path r = ''/process/session/'' @ q" using session(3) by (auto simp: HasPrefix_def prefix_def)
    ultimately show ?thesis using refl'
      unfolding toolbox_routes_def Let_def by (auto simp: file_paths_def HasPrefix_def)
  qed
qed

definition demo_exec_os :: exec_os where
  "demo_exec_os = \<lparr>eo_env = demo_proc_os, eo_run = (\<lambda>_ _ _ _. Some \<lparr>ro_Chunks = [(False, ''ok'')], ro_End = RunEnded WaitOk\<rparr>),
     eo_kernel = (\<lambda>_ _. True), eo_answer = (\<lambda>_ _. Some ''{}''), eo_random = (\<lambda>l. ''a1''), eo_shell = [], eo_cwd = Some ''/work'',
     eo_terminal = (\<lambda>_ _. Some ''pty-1''), eo_watch = (\<lambda>_ _ _. True)\<rparr>"

definition demo_setup :: toolbox_setup where
  "demo_setup = \<lparr>tx_ex = demo_executor, tx_os = demo_exec_os, tx_sessions = demo_session_os, tx_token = ''t0'', tx_home = ''/home/me'',
     tx_hostname = ''box'', tx_driver = ''driver'', tx_json = (\<lambda>_. None), tx_mcp = False\<rparr>"

definition demo_serving :: serving where
  "demo_serving = \<lparr>sv_running = 0, sv_expired = False, sv_now = 1, sv_polls = [], sv_read = (\<lambda>_. None), sv_ord = [], sv_pids = []\<rparr>"

definition demo_toolbox :: toolbox_state where
  "demo_toolbox = \<lparr>tb_gate = \<lparr>g_store = demo_store\<lparr>ps_snap := (ps_snap demo_store)\<lparr>sn_CommandPolicy := DefaultCommandPolicy\<rparr>\<rparr>, g_audit = []\<rparr>,
     tb_files = [], tb_exec = [], tb_procs = no_procs, tb_sessions = sw_manager demo_sessions,
     tb_kernels = \<lparr>ks_kernels = {}, ks_contexts = (\<lambda>_. None), ks_log = []\<rparr>,
     tb_terminals = \<lparr>tt_sessions = (\<lambda>_. None), tt_log = []\<rparr>, tb_watchers = \<lparr>wt_watchers = (\<lambda>_. None), wt_log = []\<rparr>, tb_requests = 0\<rparr>"

definition demo_toolbox_request :: "string \<Rightarrow> string \<Rightarrow> string \<Rightarrow> toolbox_request" where
  "demo_toolbox_request meth path auth = \<lparr>tr_Method = meth, tr_Path = path, tr_Authorization = auth, tr_Query = (\<lambda>_. []), tr_Process = None,
     tr_Start = None, tr_Input = None, tr_Signal = None, tr_PID = None, tr_Resize = None, tr_Code = None, tr_Context = ([], []),
     tr_Watch = None, tr_Watcher = None, tr_Messages = None, tr_Files = demo_files_request [] [] [], tr_Session = demo_session_request [] [] None\<rparr>"

definition demo_denied_request :: toolbox_request where
  "demo_denied_request = (demo_toolbox_request ''POST'' ''/procmgr/start'' ''Bearer t0'')
     \<lparr>tr_Start := Some ((demo_pty_start False)\<lparr>sc_Cmd := ''sudo'', sc_Args := [''reboot'']\<rparr>)\<rparr>"

theorem denied_command_starts_nothing_witness:
  "nothing_started demo_toolbox (snd (toolbox_routes demo_setup demo_serving demo_denied_request demo_toolbox)) \<and>
   (case fst (toolbox_routes demo_setup demo_serving demo_denied_request demo_toolbox) of TaStatus n \<Rightarrow> n = 403 | _ \<Rightarrow> False)"
proof (rule conjI)
  have cmd: "shell_command demo_denied_request = Some ''sudo reboot''" by code_simp
  have "deny_listed (tx_ex demo_setup) (tb_gate demo_toolbox) ''sudo reboot''" by code_simp
  from denied_command_starts_nothing [OF cmd this]
  show "nothing_started demo_toolbox (snd (toolbox_routes demo_setup demo_serving demo_denied_request demo_toolbox))" .
  show "case fst (toolbox_routes demo_setup demo_serving demo_denied_request demo_toolbox) of TaStatus n \<Rightarrow> n = 403 | _ \<Rightarrow> False" by code_simp
qed

section \<open>The token\<close>

text \<open>A service with a token answers a request without it with a refusal and changes nothing, but for the
  health probe and the MCP bridge, which has a secret of its own.\<close>

theorem toolbox_needs_token:
  assumes "tx_token x \<noteq> []" "tr_Authorization r \<noteq> ''Bearer '' @ tx_token x" "tr_Path r \<noteq> ''/health''"
    "\<not> (tx_mcp x \<and> (tr_Path r = ''/mcp'' \<or> HasPrefix (tr_Path r) ''/mcp/''))"
  shows "fst (toolbox_routes x v r st) \<in> {TaStatus 401, TaStatus 404} \<and> snd (toolbox_routes x v r st) = st"
  using assms unfolding toolbox_routes_def Let_def by (simp only: if_False if_True simp_thms not_False_eq_True split: if_split) auto

theorem toolbox_needs_token_witness:
  "(case fst (toolbox_routes demo_setup demo_serving (demo_toolbox_request ''GET'' ''/procmgr/list'' ''Bearer t1'') demo_toolbox) of
      TaStatus n \<Rightarrow> n = 401 | _ \<Rightarrow> False) \<and>
   snd (toolbox_routes demo_setup demo_serving (demo_toolbox_request ''GET'' ''/procmgr/list'' ''Bearer t1'') demo_toolbox) = demo_toolbox"
proof (rule conjI)
  show "snd (toolbox_routes demo_setup demo_serving (demo_toolbox_request ''GET'' ''/procmgr/list'' ''Bearer t1'') demo_toolbox) = demo_toolbox"
    using toolbox_needs_token [of demo_setup "demo_toolbox_request ''GET'' ''/procmgr/list'' ''Bearer t1''" demo_serving demo_toolbox]
    by (simp add: demo_setup_def demo_toolbox_request_def)
  show "case fst (toolbox_routes demo_setup demo_serving (demo_toolbox_request ''GET'' ''/procmgr/list'' ''Bearer t1'') demo_toolbox) of
      TaStatus n \<Rightarrow> n = 401 | _ \<Rightarrow> False"
    by code_simp
qed

section \<open>Watchers give each event once\<close>

text \<open>Polls and events of a watcher, in the order in which they take its lock; the polls' answers in a row.\<close>

datatype watch_step = WsEvent "watch_op set \<times> string \<times> bool" | WsPoll

fun watch_run :: "string \<Rightarrow> watch_step list \<Rightarrow> watch_state \<Rightarrow> (string \<times> string) list \<times> watch_state" where
  "watch_run wid [] st = ([], st)"
| "watch_run wid (WsEvent ev # ss) st = watch_run wid ss (watch_event wid ev st)"
| "watch_run wid (WsPoll # ss) st = (case Watch_Events wid st of (evs, st1) \<Rightarrow>
     case watch_run wid ss st1 of (out, st2) \<Rightarrow> ((case evs of None \<Rightarrow> [] | Some es \<Rightarrow> es) @ out, st2))"

fun reported :: "watch_step list \<Rightarrow> (string \<times> string) list" where
  "reported [] = []"
| "reported (WsEvent (op, path, d) # ss) = (if mapWatchOp op = [] then [] else [(Base path, mapWatchOp op)]) @ reported ss"
| "reported (WsPoll # ss) = reported ss"

lemma watch_run_partition:
  "wt_watchers st wid = Some wa \<Longrightarrow> watch_run wid ss st = (out, st') \<Longrightarrow>
   \<exists>wa'. wt_watchers st' wid = Some wa' \<and> out @ wa_Buf wa' = wa_Buf wa @ reported ss"
proof (induction ss arbitrary: st wa out st' rule: reported.induct)
  case (2 op path d ss)
  show ?case
  proof (cases "mapWatchOp op = []")
    case True
    with 2 show ?thesis by (auto simp: watch_event_def)
  next
    case False
    let ?st = "watch_event wid (op, path, d) st"
    have "wt_watchers ?st wid = Some (watch_append (Base path, mapWatchOp op) wa)" using 2(2) False by (simp add: watch_event_def)
    from 2(1) [OF this] 2(3) False show ?thesis by (auto simp: watch_append_def)
  qed
next
  case (3 ss)
  let ?st = "st\<lparr>wt_watchers := (wt_watchers st)(wid \<mapsto> wa\<lparr>wa_Buf := []\<rparr>)\<rparr>"
  obtain out1 st1 where run: "watch_run wid ss ?st = (out1, st1)" by (metis surj_pair)
  have "wt_watchers ?st wid = Some (wa\<lparr>wa_Buf := []\<rparr>)" by simp
  from 3(1) [OF this run] show ?case using 3(2,3) run by (auto simp: Watch_Events_def watch_drain_def)
qed simp

section \<open>What the gate and the terminal miss\<close>

text \<open>The consent for a terminal is asked by its own route; a terminal of the process table is opened without, whatever the human would say.\<close>

lemma table_terminal_is_not_asked:
  "procStartHandler (x\<lparr>tx_ex := (tx_ex x)\<lparr>ex_notify := n\<rparr>\<rparr>) r st = procStartHandler x r st"
proof -
  have "gateExec ((tx_ex x)\<lparr>ex_notify := n\<rparr>) c g = gateExec (tx_ex x) c g" for c g
    by (cases "ex_manager (tx_ex x)") (simp_all add: gateExec_def)
  then show ?thesis by (auto simp: procStartHandler_def split: option.split prod.split bool.split sum.split)
qed

text \<open>What is typed into a process of the table is shown to no one: the gate and its trail stay as they are.\<close>

lemma typed_input_is_not_scanned:
  "pt_Table (tb_procs st) pid = Some w \<Longrightarrow> tr_Input r = Some (pid, data, pty) \<Longrightarrow>
   procInputHandler r st = (TaStatus 204, st\<lparr>tb_procs := (tb_procs st)\<lparr>pt_Log := pt_Log (tb_procs st) @ [Wrote pid data]\<rparr>\<rparr>)"
  by (simp add: procInputHandler_def found_or_404_def Proc_SendInput_def on_proc_def)

text \<open>No operation takes a process out of the table, and a signal is sent to the group of its number also when it has ended: whoever has
  the number then gets it.\<close>

lemma ended_process_is_signalled:
  assumes "pt_Table (tb_procs st) pid = Some w" "run_done w" "tr_Signal r = Some (pid, 0)"
  shows "procSignalHandler r st = (TaStatus 204, st\<lparr>tb_procs := (tb_procs st)\<lparr>pt_Log := pt_Log (tb_procs st) @ [GroupSignal pid 9]\<rparr>\<rparr>)"
  using assms by (simp add: procSignalHandler_def found_or_404_def Proc_Signal_def on_proc_def)

definition grows :: "proc_state \<Rightarrow> proc_state \<Rightarrow> bool" where
  "grows p p' \<longleftrightarrow> dom (pt_Table p) \<subseteq> dom (pt_Table p')"

lemma grows_refl [simp]: "grows p p"
  by (simp add: grows_def)

lemma on_proc_grows: "grows p (snd (on_proc pid e p))"
  by (simp add: grows_def on_proc_def split: option.split)

lemma Proc_Resize_grows: "grows p (snd (Proc_Resize os pid rows cols p))"
  by (simp add: grows_def Proc_Resize_def split: option.split)

lemma Proc_Stream_grows: "grows p (snd (Proc_Stream pid p))"
  by (auto simp: grows_def Proc_Stream_def split: option.split)

lemma Proc_Start_grows: "grows p (snd (Proc_Start os cfg p))"
proof (cases "Proc_Start os cfg p")
  case (Pair res p1)
  show ?thesis
  proof (cases res)
    case (Inl e)
    with Pair Proc_Start_failed [of os cfg p e p1] show ?thesis by simp
  next
    case (Inr pid)
    with Pair have "Proc_Start os cfg p = (Inr pid, p1)" by simp
    then obtain w s where "p1 = \<lparr>pt_Table = (pt_Table p)(pid \<mapsto> w), pt_Log = pt_Log p @ [Spawned s pid]\<rparr>"
      by (rule Proc_Start_done)
    with Pair show ?thesis by (auto simp: grows_def)
  qed
qed

lemma processHandler_keeps_table [simp]: "tb_procs (snd (processHandler x v r st)) = tb_procs st"
  by (simp add: processHandler_def Let_def case_prod_beta split: option.split sum.split bool.split)

lemma streamHandler_keeps_table [simp]: "tb_procs (snd (streamHandler x v r st)) = tb_procs st"
  by (simp add: streamHandler_def Let_def case_prod_beta split: option.split sum.split bool.split)

lemma filesRoute_keeps_table [simp]: "tb_procs (snd (filesRoute x r st)) = tb_procs st"
  by (simp add: filesRoute_def Let_def case_prod_beta split: option.split sum.split bool.split)

lemma codeInterpreterHandler_keeps_table [simp]: "tb_procs (snd (codeInterpreterHandler x r st)) = tb_procs st"
  by (simp add: codeInterpreterHandler_def Let_def case_prod_beta split: option.split sum.split bool.split)

lemma codeContextsHandler_keeps_table [simp]: "tb_procs (snd (codeContextsHandler x v r st)) = tb_procs st"
  by (simp add: codeContextsHandler_def Let_def case_prod_beta split: option.split sum.split bool.split)

lemma codeContextByIDHandler_keeps_table [simp]: "tb_procs (snd (codeContextByIDHandler r st)) = tb_procs st"
  by (simp add: codeContextByIDHandler_def Let_def case_prod_beta split: option.split sum.split bool.split)

lemma ptyCreateHandler_keeps_table [simp]: "tb_procs (snd (ptyCreateHandler x r st)) = tb_procs st"
  by (simp add: ptyCreateHandler_def Let_def case_prod_beta split: option.split sum.split bool.split)

lemma ptyWsHandler_keeps_table [simp]: "tb_procs (snd (ptyWsHandler x r st)) = tb_procs st"
  by (simp add: ptyWsHandler_def Let_def case_prod_beta split: option.split sum.split bool.split)

lemma sessionRoute_keeps_table [simp]: "tb_procs (snd (sessionRoute x v r st)) = tb_procs st"
  by (simp add: sessionRoute_def Let_def case_prod_beta split: option.split sum.split bool.split)

lemma watchCreateHandler_keeps_table [simp]: "tb_procs (snd (watchCreateHandler x r st)) = tb_procs st"
  by (simp add: watchCreateHandler_def Let_def case_prod_beta split: option.split sum.split bool.split)

lemma watchEventsHandler_keeps_table [simp]: "tb_procs (snd (watchEventsHandler r st)) = tb_procs st"
  by (simp add: watchEventsHandler_def Let_def case_prod_beta split: option.split sum.split bool.split)

lemma watchRemoveHandler_keeps_table [simp]: "tb_procs (snd (watchRemoveHandler r st)) = tb_procs st"
  by (simp add: watchRemoveHandler_def Let_def case_prod_beta split: option.split sum.split bool.split)

lemma if_grows:
  "grows p (tb_procs (snd a)) \<Longrightarrow> grows p (tb_procs (snd b)) \<Longrightarrow> grows p (tb_procs (snd (if c then a else b)))"
  by simp

lemma processes_stay_in_table: "grows (tb_procs st) (tb_procs (snd (toolbox_routes x v r st)))"
proof -
  have start: "grows (tb_procs st) (tb_procs (snd (procStartHandler x r st)))"
    by (simp add: procStartHandler_def case_prod_beta Proc_Start_grows split: option.split sum.split bool.split)
  have stream: "grows (tb_procs st) (tb_procs (snd (procStreamHandler r st)))"
    by (simp add: procStreamHandler_def case_prod_beta Proc_Stream_grows split: option.split bool.split)
  have rest: "grows (tb_procs st) (tb_procs (snd (procInputHandler r st)))" "grows (tb_procs st) (tb_procs (snd (procSignalHandler r st)))"
    "grows (tb_procs st) (tb_procs (snd (procStdinCloseHandler r st)))" "grows (tb_procs st) (tb_procs (snd (procResizeHandler x r st)))"
    by (simp_all add: procInputHandler_def procSignalHandler_def procStdinCloseHandler_def procResizeHandler_def found_or_404_def
        Proc_SendInput_def Proc_Signal_def Proc_CloseStdin_def on_proc_grows Proc_Resize_grows split: option.split prod.split)
  show ?thesis
    unfolding toolbox_routes_def Let_def by (intro if_grows; simp add: start stream rest)
qed

text \<open>The size of a telnet window is read where its end was required to be: the height is always 65535.\<close>

lemma naws_height_is_fixed: "naws_resize msg = Some (width, height) \<Longrightarrow> height = 65535"
  by (auto simp: naws_resize_def split: if_splits)

text \<open>What a command prints goes into the stream as it is, so it can end its event and write others: here the exit event.\<close>

lemma output_forges_exit_event:
  "sse_frame (''stdout'', ''x'' @ [nl, nl] @ ''event: exit'' @ [nl] @ ''data: 0'') = sse_frame (''stdout'', ''x'') @ sse_frame (''exit'', ''0'')"
  by (simp add: sse_frame_def)

end
