(* ===== verification/Spec2Isabelle.thy ===== *)
theory Spec2Isabelle
  imports Perm_Gate Egress_Proxy Scheduler_Shell Server_Agents Toolbox_Exec
begin

text \<open>
  A verification development for SandrPod: the sandbox platform whose control plane places AI-agent
  sandboxes on worker nodes ("poders"), whose agents guard the host's files, commands and network, and
  whose toolbox serves files, processes and terminals inside a sandbox.

  \<^bold>\<open>The program and its parts.\<close> A client calls the \<^emph>\<open>control plane\<close> (\<^verbatim>\<open>src/pkg/server\<close>, with the records of
  \<^verbatim>\<open>src/pkg/sandpod\<close> and \<^verbatim>\<open>src/pkg/store\<close>), natively or through the E2B-compatible surface
  (\<^verbatim>\<open>src/pkg/e2bcompat\<close>): it authenticates, checks quotas and ownership, lets the \<^emph>\<open>scheduler\<close> place a new sandbox on a
  worker or provision a cloud VM, and forwards what concerns a sandbox through a tunnel. At the other end the
  \<^emph>\<open>toolbox\<close> (\<^verbatim>\<open>src/pkg/toolbox\<close>) does it. On a user's own machine it asks the \<^emph>\<open>permission gate\<close>
  (\<^verbatim>\<open>src/pkg/permission\<close>) before it touches a path, runs a command or opens a terminal; the gate decides
  from hard-locks, a mandatory deny list, the work directory, stored rules and a prompt to the user. Network
  traffic of a sandboxed process passes an \<^emph>\<open>egress proxy\<close> (\<^verbatim>\<open>src/pkg/egress\<close>): a policy of names decides, a
  guard vets what a name resolves to, secrets are put in place of sentinels, and an HTTP and a SOCKS5 listener enforce it.

  \<^bold>\<open>The theories.\<close>
  \<^item> \<open>Go_Prelude\<close>, \<open>Go_Filepath\<close>, \<open>Go_Netip\<close>, \<open>Go_Strconv\<close>, \<open>Go_Utf8\<close>, \<open>Go_Http\<close>: what the sources use of the language and of
    the packages \<^verbatim>\<open>strings\<close>, \<^verbatim>\<open>strconv\<close>, \<^verbatim>\<open>path/filepath\<close> (slash paths), \<^verbatim>\<open>net/netip\<close>, \<^verbatim>\<open>unicode/utf8\<close> and
    \<^verbatim>\<open>net/http\<close>, with the shared lemmas.
  \<^item> The gate: \<open>Perm_Types\<close> (\<^verbatim>\<open>types.go\<close>), \<open>Perm_Command\<close> (\<^verbatim>\<open>policy.go\<close>: the command policy), \<open>Perm_Store\<close> (\<^verbatim>\<open>store.go\<close>,
    \<^verbatim>\<open>seeds.go\<close>: rules, the atomic flush, the first-run seeds), \<open>Perm_Mandatory\<close> (\<^verbatim>\<open>mandatory.go\<close>: the check of
    a path), \<open>Perm_Manager\<close> (\<^verbatim>\<open>manager.go\<close>, \<^verbatim>\<open>notifier.go\<close>: path resolution and \<^verbatim>\<open>Check\<close>, \<^verbatim>\<open>CheckExec\<close>, \<^verbatim>\<open>CheckPTY\<close>),
    \<open>Perm_Gate\<close> (the properties of the gate as a whole).
  \<^item> The egress proxy: \<open>Egress_Policy\<close> (\<^verbatim>\<open>policy.go\<close>), \<open>Egress_Guard\<close> (\<^verbatim>\<open>guard.go\<close>), \<open>Egress_Server\<close> (\<^verbatim>\<open>server.go\<close>: start-up,
    verdicts with the decider's cache, counters and trail), \<open>Egress_Socks\<close> (\<^verbatim>\<open>socks.go\<close>: one connection byte by byte),
    \<open>Egress_Credential\<close> (\<^verbatim>\<open>credential.go\<close>, \<^verbatim>\<open>maskfiles.go\<close>: sentinels and their substitution), \<open>Egress_Mitm\<close> (\<^verbatim>\<open>mitm.go\<close>: the
    certificate authority), \<open>Egress_Proxy\<close> (\<^verbatim>\<open>proxy.go\<close>, \<^verbatim>\<open>terminate.go\<close>: plain requests, CONNECT, terminated tunnels).
  \<^item> Records and placement: \<open>Keyed_Repo\<close> (the contract of a repository), \<open>Poder_Store\<close> (\<^verbatim>\<open>poder_store.go\<close>), \<open>Sandbox_Store\<close>
    (\<^verbatim>\<open>sandbox_store.go\<close>), \<open>Job_Store\<close> (\<^verbatim>\<open>job_store.go\<close>, \<^verbatim>\<open>job.go\<close>), \<open>Mem_Stores\<close> (\<^verbatim>\<open>store/memory.go\<close>, \<^verbatim>\<open>tombstones.go\<close>,
    \<^verbatim>\<open>provision_lock.go\<close>), \<open>Scheduler\<close> and \<open>Scheduler_Shell\<close> (\<^verbatim>\<open>scheduler.go\<close>: placement, provisioning, and the command
    line run on a VM).
  \<^item> The control plane's server: \<open>Server_State\<close> (the state its handlers and passes share), \<open>Server_Ratelimit\<close> (\<^verbatim>\<open>ratelimit.go\<close>),
    \<open>Server_Auth\<close> (\<^verbatim>\<open>auth.go\<close>, \<^verbatim>\<open>tokens_api.go\<close>), \<open>Server_Fleet\<close> and \<open>Server_Reclaim\<close> (workers coming and going, \<^verbatim>\<open>reclaim.go\<close>),
    \<open>Server_Create\<close> (\<^verbatim>\<open>create.go\<close>, \<^verbatim>\<open>provision.go\<close>), \<open>Server_Resume\<close> (\<^verbatim>\<open>resume.go\<close>), \<open>Server_Sandbox_API\<close> (the routes of a
    sandbox in \<^verbatim>\<open>main.go\<close>), \<open>Server_Agents\<close> (agents, workers, jobs, \<^verbatim>\<open>enroll.go\<close>, \<^verbatim>\<open>sanitize.go\<close>).
  \<^item> The E2B surface: \<open>E2B_Gateway\<close> (\<^verbatim>\<open>gateway.go\<close>, \<^verbatim>\<open>controlplane.go\<close> and their back end in \<^verbatim>\<open>server/e2bgateway.go\<close>),
    \<open>E2B_Wire\<close> (\<^verbatim>\<open>protobuf.go\<close>, \<^verbatim>\<open>protobuf_process.go\<close>: the binary messages), \<open>E2B_Envd\<close> (\<^verbatim>\<open>envd.go\<close>, \<^verbatim>\<open>process.go\<close>,
    \<^verbatim>\<open>watch.go\<close>, \<^verbatim>\<open>codeinterp.go\<close>: the data plane, down to the calls of a toolbox).
  \<^item> The toolbox: \<open>Toolbox_Files\<close> (\<^verbatim>\<open>files.go\<close>, the path checks of \<^verbatim>\<open>executor.go\<close>), \<open>Toolbox_Procs\<close> (\<^verbatim>\<open>procmgr.go\<close>, \<^verbatim>\<open>env.go\<close>:
    processes, their readers and subscribers as a step relation), \<open>Toolbox_Sessions\<close> (\<^verbatim>\<open>session.go\<close>, \<^verbatim>\<open>session_manager.go\<close>,
    \<^verbatim>\<open>session_api.go\<close>), \<open>Toolbox_Exec\<close> (one-shot commands, kernels, terminals, watchers and the route table of \<^verbatim>\<open>api.go\<close>).

  \<^bold>\<open>Correspondence.\<close> A Go struct is a record with a prefix per type (\<open>r_\<close> a permission rule, \<open>er_\<close> an egress
  rule, \<open>po_\<close> a worker, \<open>sb_\<close> a sandbox, \<open>j_\<close> a job, \<open>cp_\<close> the control plane, \<open>tb_\<close> a toolbox), an enumeration a
  datatype, a method a function that takes the state last and returns the new one; \<open>Inl\<close> carries an error, \<open>None\<close> is a
  nil error or a missing key as the text at the definition says. Methods hold their lock for the whole body and are single
  steps; where the code releases a lock in between (\<^verbatim>\<open>ClaimJob\<close>, the prompt of \<^verbatim>\<open>Check\<close>, the waits of the scheduler,
  the streams of a process) the interleaving is explicit. Ranging over a Go map takes the iteration order as an
  argument. A handler takes a record of what it reads of the request, its body as decoded, and returns an
  answer. What lies outside the modelled code is an argument too: the file system and working directory (\<open>os_env\<close>),
  the disk, the user's answer, the resolver, the connection, the remote decider, the cloud provider, the answers of
  workers and toolboxes, the operating system's spawning of processes, the clock, drawn identifiers, and the package
  \<^verbatim>\<open>protowire\<close>. What is done to the outside is kept in a log where properties speak of it. The hypotheses on these
  arguments (\<open>fs_ok\<close>, \<open>wire\<close>, well-formed UUIDs) are documented behaviour.

  \<^bold>\<open>Interfaces.\<close> Locales state what a client relies on, each interpreted on the model: \<open>rule_store\<close>
  (the gate on the store), \<open>address_guard\<close> (the proxies on the guard), \<open>poder_selector\<close> (the scheduler on
  the registry), \<open>keyed_repo\<close> (every client of a repository), \<open>wire_progress\<close> and its extension \<open>wire\<close> (the codecs on
  \<^verbatim>\<open>protowire\<close>, interpreted on an encoding by its documentation).

  \<^bold>\<open>Bounds.\<close> All definitions are executable, and total but for the loop \<open>scan\<close> of the message decoders, which
  is a \<^theory_text>\<open>partial_function\<close> with a theorem that it returns. The recursions of \<open>resolveAncestors\<close> and \<open>resolveSymlinks\<close> end
  because each directory step shortens the path; a waiting loop of the scheduler makes as many looks as its interval fits
  into its timeout (60 for the grace period, 96 for another create's VM, 60 for registration, 30 for a VM to be
  ready); the wait for a session command takes its polls as a list, 600 at most in 30 seconds; the IPv6 parser reads at
  most eight groups. The interleavings of a process are not bounded: a measure shows that they end. Counters are
  64-bit words, process numbers 32-bit, window sizes 16-bit and addresses 32- and 128-bit words; load figures
  (\<^verbatim>\<open>float64\<close>) are rational numbers, and case mapping and white space are those of ASCII.

  \<^bold>\<open>What the lemmas show.\<close> The gate: what an allow can rest on, that hard-locks and mandatory denials come
  first and survive every store operation, that containment of paths is containment of segments. The proxy: deny before
  allow, what each form of entry covers, which addresses can be reached, that a tunnel or a request needs token, verdict and
  approved address, that no masked secret leaves in clear and the trail names exactly those put on a request. The control plane: who is authenticated, that a revoked key is
  refused where it was revoked and foreign sandboxes are neither seen nor changed, placement rules and optimality of selection, quotas,
  order and exclusivity of the job queue, that no VM is left behind and every create settles. The E2B surface: the same
  ownership, but for requests that name the placeholder of the SDK's debug mode; that every message is decoded in finite
  time and commands arrive as sent. The toolbox: the file
  routes name no path the gate forbids (what lies below a directory that is removed goes with it), a denied command starts nothing on any route, sessions stay below their directory, every
  stream of a process is complete and ends. Where the code does not do what its comments promise, a lemma or theorem shows the
  concrete behaviour: among others \<open>wildcard_covers_unrelated_domain\<close>, \<open>guard_gaps\<close>, \<open>mandatory_dirs_case_sensitive\<close>,
  \<open>pathInside_root\<close>, \<open>session_grant_evicts\<close>, \<open>Register_drops_capabilities\<close>, \<open>PollJobs_limit_zero\<close>, \<open>ClaimJob_race\<close>,
  \<open>new_vm_inherits_clock\<close>, \<open>versioned_sandbox_path_is_refused\<close>, \<open>ownerless_token_is_master\<close>, \<open>glob_leaves_directory\<close>, \<open>delete_takes_locked_paths\<close>,
  \<open>table_terminal_is_not_asked\<close>, \<open>ended_process_is_signalled\<close>, \<open>naws_height_is_fixed\<close>, \<open>output_forges_exit_event\<close>,
  \<open>empty_exit_file_fails\<close>, \<open>async_has_no_exit_code\<close>, \<open>compound_output_is_lost\<close>.

  \<^bold>\<open>Not modelled.\<close> The prompt dialogs and their IPC; the walk that lists mandatory paths for the OS sandbox; the SQL
  repositories and the cloud providers' API calls; the relaying of bytes in tunnels and proxies; metrics, webhooks and the
  console; of the toolbox the facts it reports about its host and the Windows variants; the MCP bridge and its OAuth; the
  audit uploader; the command lines and profiles of the OS sandboxes (only the filter of their noise is); the worker's
  container runtime; the wiring of the commands. They are input and output around the parts above, third-party
  protocols, or, like the mount plan of \<^verbatim>\<open>src/pkg/sandbox\<close> and the configuration of the MCP bridge, left for a later
  extension.
\<close>

section \<open>From the first start to a denied request\<close>

text \<open>Claim C30. The seeds protect from the first start on: once an empty store was seeded, even if no write to
  the disk succeeded, a request under a seeded path is denied after any number of later store operations
  other than the explicit unlock, whatever the user answers and other calls do.\<close>

theorem seeded_paths_stay_denied:
  assumes "sn_Rules (ps_snap s) = []" and "seed \<in> set (DefaultHardlockSeeds os)"
    and "store_step\<^sup>*\<^sup>* (snd (SeedHardlocksIfEmpty os outs seeded_at s)) t" and "rq_Path req \<noteq> []"
    and "pathInside (env_goos env) (rq_Path (canonical_request env req))
           (ruleAbsPath env (cleanRulePath seed) (m_homeDir m))"
  shows "d_Action (fst (checkBody env m notify oth out now req t)) = ActionDeny"
proof -
  let ?s1 = "snd (SeedHardlocksIfEmpty os outs seeded_at s)"
  have "cleanRulePath seed \<in> store_hardlocks ?s1"
    using seed_loop_hardlocks [of "DefaultHardlockSeeds os" s outs seeded_at 0] assms(1,2)
    by (auto simp: SeedHardlocksIfEmpty_def)
  then obtain r where "r \<in> set (sn_Rules (ps_snap ?s1))" "r_Scope r = ScopeHardlock" "r_Path r = cleanRulePath seed"
    by (auto simp: hardlock_paths_def)
  with assms(5) have "matchHardlock env (rq_Path (canonical_request env req)) (sn_Rules (ps_snap ?s1)) (m_homeDir m) \<noteq> None"
    by (auto simp: matchHardlock_None rule_covers_def)
  from pstore.locked_stays_locked [OF assms(3) this] assms(4) show ?thesis
    by (simp add: checkBody_def Let_def)
qed

definition empty_store :: perm_store where
  "empty_store = \<lparr>ps_snap = \<lparr>sn_Version = 1, sn_User = [], sn_WorkDir = [], sn_Rules = [], sn_SessionGrants = [],
     sn_CommandPolicy = \<lparr>cp_Deny = [], cp_Warn = []\<rparr>, sn_UpdatedAt = 0\<rparr>, ps_disk = None\<rparr>"

theorem seeded_paths_stay_denied_witness:
  "d_Action (fst (checkBody demo_env demo_manager AlwaysAllowNotifier quiet FlushOk 9
     (demo_req ''/home/me/.aws/credentials'' ModeRead)
     (snd (SeedHardlocksIfEmpty Linux (\<lambda>_. MkdirFails) 5 empty_store)))) = ActionDeny"
proof (rule seeded_paths_stay_denied)
  show "sn_Rules (ps_snap empty_store) = []" by (simp add: empty_store_def)
  show "''~/.aws'' \<in> set (DefaultHardlockSeeds Linux)" by (simp add: DefaultHardlockSeeds_def)
  show "rq_Path (demo_req ''/home/me/.aws/credentials'' ModeRead) \<noteq> []" by (simp add: demo_req_def)
  show "store_step\<^sup>*\<^sup>* (snd (SeedHardlocksIfEmpty Linux (\<lambda>_. MkdirFails) 5 empty_store))
     (snd (SeedHardlocksIfEmpty Linux (\<lambda>_. MkdirFails) 5 empty_store))" by simp
  show "pathInside (env_goos demo_env) (rq_Path (canonical_request demo_env (demo_req ''/home/me/.aws/credentials'' ModeRead)))
     (ruleAbsPath demo_env (cleanRulePath ''~/.aws'') (m_homeDir demo_manager))" by code_simp
qed

section \<open>From the policy file to a tunnel\<close>

lemma Decide_allow:
  "v_Allow (Decide c host port) \<Longrightarrow>
   (\<forall>r \<in> set (c_denied c). \<not> rule_matches r (canonicalHost host) port) \<and>
   (\<exists>r \<in> set (c_allowed c). rule_matches r (canonicalHost host) port)"
  by (auto simp: Decide_def egress_matchAllow_def Let_def find_None_conv split: option.splits dest: find_SomeD)

lemma Parse_lists:
  assumes "Parse p = Inr c"
  shows "compile_loop (AllowedDomains p) ''allowed_domains'' {} = Inr (c_allowed c)"
    and "compile_loop (DeniedDomains p) ''denied_domains'' {} = Inr (c_denied c)"
  using assms by (auto simp: Parse_def compileRules_def split: sum.splits)

lemma covered_iff:
  assumes "compile_loop entries field {} = Inr rs"
  shows "(\<exists>r \<in> set rs. rule_matches r h port) \<longleftrightarrow> (\<exists>e \<in> set entries. \<exists>r. compileRule e = Inr r \<and> rule_matches r h port)"
  using compile_loop_members [OF assms] by auto

text \<open>Claim C17. From the policy as written to the wire: when a server without a remote decider enforces a parsed
  policy, a SOCKS client gets a tunnel only to a destination that some allow entry of the policy covers
  and no deny entry does, with the server's token, and to an address that a dial of that destination led to and the guard
  approves: an allow-listed literal, or one of no refused class, in no denied range and none of the host's own addresses as
  the dial found them.\<close>

theorem tunnel_respects_written_policy:
  assumes "Parse p = Inr (sv_policy s)" and "o_Decide (sv_opts s) = None"
    and "sr_tunnel (fst (handleSOCKS env w inp s)) = Some (ip, early)"
  shows "\<exists>host port. (\<exists>e \<in> set (AllowedDomains p). \<exists>r. compileRule e = Inr r \<and> rule_matches r (canonicalHost host) port) \<and>
    \<not> (\<exists>e \<in> set (DeniedDomains p). \<exists>r. compileRule e = Inr r \<and> rule_matches r (canonicalHost host) port) \<and>
    dialAllowingVetted (ne_readings env) (ne_lookup env) (ne_connect env) host port (sv_dialer s) =
      (Inr ip, sv_dialer (snd (handleSOCKS env w inp s))) \<and>
    approved_addr (ne_lookup env) (sv_dialer s) (sv_dialer (snd (handleSOCKS env w inp s))) host port ip \<and>
    (\<exists>methods user pass req. inp = greeting methods user pass @ req \<and> byte_string pass = sv_token s \<and>
       socksReadRequest req = Inr (host, port, early))"
proof -
  from handleSOCKS_tunnel [OF assms(3)] obtain req host port where
    n: "socksNegotiate w s inp = (Inr req, [5, 2, 1, 0])" and r: "socksReadRequest req = Inr (host, port, early)"
    and t: "sr_tunnel (fst (serve_request env w host port early s)) = Some (ip, early)" by blast
  have v: "v_Allow (fst (decide (ne_now env) (ne_now' env) host port s))" using serve_request_tunnel [OF t] by blast
  have dial: "dialAllowingVetted (ne_readings env) (ne_lookup env) (ne_connect env) host port (sv_dialer s) =
      (Inr ip, sv_dialer (snd (handleSOCKS env w inp s)))"
    using serve_request_dialer [OF t] handleSOCKS_served [OF n r] by simp
  have "v_Allow (Decide (sv_policy s) host port)" using v assms(2) by (simp add: decide_def)
  from Decide_allow [OF this] have
    "\<exists>e \<in> set (AllowedDomains p). \<exists>r. compileRule e = Inr r \<and> rule_matches r (canonicalHost host) port"
    "\<not> (\<exists>e \<in> set (DeniedDomains p). \<exists>r. compileRule e = Inr r \<and> rule_matches r (canonicalHost host) port)"
    unfolding covered_iff [OF Parse_lists(1) [OF assms(1)], symmetric]
      covered_iff [OF Parse_lists(2) [OF assms(1)], symmetric] by blast+
  moreover have "approved_addr (ne_lookup env) (sv_dialer s) (sv_dialer (snd (handleSOCKS env w inp s))) host port ip"
    using dial unfolding dialAllowingVetted_is_dial by (rule guard.dial_approved)
  ultimately show ?thesis using socksNegotiate_Inr [OF n] r dial by blast
qed

definition local_server :: server where
  "local_server = demo_server\<lparr>sv_opts := demo_options\<lparr>o_Decide := None\<rparr>,
     sv_policy := projr (Parse demo_policy), sv_dialer := newDialer (projr (Parse demo_policy)) 0\<rparr>"

theorem tunnel_respects_written_policy_witness:
  "\<exists>host port. \<exists>e \<in> set (AllowedDomains demo_policy). \<exists>r. compileRule e = Inr r \<and> rule_matches r (canonicalHost host) port"
proof -
  have "(case Parse demo_policy of Inl _ \<Rightarrow> False | Inr _ \<Rightarrow> True) = True" by code_simp
  then have p: "Parse demo_policy = Inr (sv_policy local_server)"
    by (cases "Parse demo_policy") (auto simp: local_server_def)
  have d: "o_Decide (sv_opts local_server) = None" by (simp add: local_server_def)
  have t: "sr_tunnel (fst (handleSOCKS demo_net all_writes demo_input local_server)) = Some (V4 0x5db8d822, [22, 3])"
    by code_simp
  from tunnel_respects_written_policy [OF p d t] show ?thesis by blast
qed

end
